(* ===== verification/Go_Prelude.thy ===== *)
theory Go_Prelude
  imports
    Main
    "HOL-Library.AList"
    "HOL-Library.Sublist"
    "HOL-Library.Multiset"
    "HOL-Library.List_Lexorder"
    "HOL-Library.Char_ord"
begin

text \<open>
  What the components share of Go and of its standard library.

  \<^item> A Go string is its list of bytes (\<^typ>\<open>string\<close>); \<open><\<close> on strings is the bytewise
    lexicographic order.  Whitespace is the whitespace of \<open>unicode.IsSpace\<close> in its UTF-8
    encoding; case conversion converts the ASCII letters and leaves every other byte alone,
    which is what \<open>strings.ToLower\<close> and \<open>strings.EqualFold\<close> do on ASCII text.
  \<^item> A Go error is a value of \<open>go_error\<close>: a package-level sentinel, a fresh \<open>errors.New\<close>, an
    error wrapped by \<open>fmt.Errorf\<close> with \<open>%w\<close>, or the join of two errors; \<open>errors_is\<close> is
    \<open>errors.Is\<close> with a sentinel as its target.
  \<^item> A \<open>time.Time\<close> is its distance in nanoseconds from the zero time, so that \<open>IsZero\<close> is
    equality with 0 and \<open>Before\<close>, \<open>After\<close>, \<open>Equal\<close> are the order of the integers.
  \<^item> A Go map is an association list with distinct keys; the order of the list stands for the
    iteration order, which Go leaves open.
  \<^item> \<open>sort.Slice\<close> is insertion sort with the comparison the code passes.
\<close>

named_theorems go_err \<open>how errors are classified\<close>
named_theorems go_map \<open>lookup, update and deletion of Go maps\<close>

section \<open>Errors\<close>

datatype go_error =
    Sentinel string
  | ErrorNew string
  | Wrap string go_error string
  | Join go_error go_error

type_synonym 'a res = "go_error + 'a"

abbreviation wrapf :: "string \<Rightarrow> go_error \<Rightarrow> go_error" where
  "wrapf pre e \<equiv> Wrap pre e []"

primrec errors_is :: "go_error \<Rightarrow> go_error \<Rightarrow> bool" where
  "errors_is (Sentinel s) t = (t = Sentinel s)"
| "errors_is (ErrorNew s) t = False"
| "errors_is (Wrap p e q) t = errors_is e t"
| "errors_is (Join a b) t = (errors_is a t \<or> errors_is b t)"

declare errors_is.simps [go_err]

primrec error_text :: "go_error \<Rightarrow> string" where
  "error_text (Sentinel s) = s"
| "error_text (ErrorNew s) = s"
| "error_text (Wrap p e q) = p @ error_text e @ q"
| "error_text (Join a b) = error_text a @ [CHR 0x0A] @ error_text b"

definition context_Canceled :: go_error where
  "context_Canceled = Sentinel ''context canceled''"

definition context_DeadlineExceeded :: go_error where
  "context_DeadlineExceeded = Sentinel ''context deadline exceeded''"

section \<open>Time\<close>

type_synonym time = int

definition minTime :: "time \<Rightarrow> time \<Rightarrow> time" where
  "minTime left right = (if left < right then left else right)"

lemma minTime_min: "minTime a b = min a b"
  by (simp add: minTime_def min_def)

section \<open>Strings\<close>

text \<open>The UTF-8 encodings of the runes \<open>unicode.IsSpace\<close> accepts.\<close>

definition space_encodings :: "string list" where
  "space_encodings =
     [[CHR 0x20], [CHR 0x09], [CHR 0x0A], [CHR 0x0B], [CHR 0x0C], [CHR 0x0D],
      [CHR 0xC2, CHR 0x85], [CHR 0xC2, CHR 0xA0], [CHR 0xE1, CHR 0x9A, CHR 0x80],
      [CHR 0xE2, CHR 0x80, CHR 0x80], [CHR 0xE2, CHR 0x80, CHR 0x81],
      [CHR 0xE2, CHR 0x80, CHR 0x82], [CHR 0xE2, CHR 0x80, CHR 0x83],
      [CHR 0xE2, CHR 0x80, CHR 0x84], [CHR 0xE2, CHR 0x80, CHR 0x85],
      [CHR 0xE2, CHR 0x80, CHR 0x86], [CHR 0xE2, CHR 0x80, CHR 0x87],
      [CHR 0xE2, CHR 0x80, CHR 0x88], [CHR 0xE2, CHR 0x80, CHR 0x89],
      [CHR 0xE2, CHR 0x80, CHR 0x8A], [CHR 0xE2, CHR 0x80, CHR 0xA8],
      [CHR 0xE2, CHR 0x80, CHR 0xA9], [CHR 0xE2, CHR 0x80, CHR 0xAF],
      [CHR 0xE2, CHR 0x81, CHR 0x9F], [CHR 0xE3, CHR 0x80, CHR 0x80]]"

text \<open>The width of the encoding \<open>s\<close> starts with, 0 if it starts with none of them.\<close>

primrec lead_width :: "string list \<Rightarrow> string \<Rightarrow> nat" where
  "lead_width [] s = 0"
| "lead_width (w # ws) s = (if prefix w s then length w else lead_width ws s)"

lemma lead_width_le: "lead_width ws s \<le> length s"
  by (induction ws) (auto dest: prefix_length_le)

lemma lead_width_takes:
  "lead_width ws s \<noteq> 0 \<Longrightarrow> \<exists>e \<in> set ws. s = e @ drop (lead_width ws s) s"
  by (induction ws) (auto simp: prefix_def split: if_splits)

lemma lead_width_0: "lead_width ws s = 0 \<Longrightarrow> [] \<notin> set ws \<Longrightarrow> e \<in> set ws \<Longrightarrow> \<not> prefix e s"
  by (induction ws) (auto split: if_splits)

function trim_with :: "string list \<Rightarrow> string \<Rightarrow> string" where
  "trim_with ws s =
     (if lead_width ws s = 0 then s else trim_with ws (drop (lead_width ws s) s))"
  by pat_completeness auto
termination
proof (relation "measure (\<lambda>(ws, s). length s)", goal_cases)
  case (2 ws s)
  then show ?case using lead_width_le [of ws s] by (cases s) auto
qed simp

declare trim_with.simps [simp del]

definition trim_left :: "string \<Rightarrow> string" where
  "trim_left s = trim_with space_encodings s"

definition trim_right :: "string \<Rightarrow> string" where
  "trim_right s = rev (trim_with (map rev space_encodings) (rev s))"

definition trim_space :: "string \<Rightarrow> string" where
  "trim_space s = trim_right (trim_left s)"

definition blank :: "string \<Rightarrow> bool" where
  "blank s \<longleftrightarrow> trim_space s = []"

lemma blank_Nil [simp]: "blank []"
  by (simp add: blank_def trim_space_def trim_left_def trim_right_def trim_with.simps
      space_encodings_def)

lemma trim_with_consumed: "trim_with ws s = [] \<Longrightarrow> \<exists>es. set es \<subseteq> set ws \<and> s = concat es"
proof (induction ws s rule: trim_with.induct)
  case (1 ws s)
  show ?case
  proof (cases "lead_width ws s = 0")
    case True
    with "1.prems" show ?thesis by (intro exI [of _ "[]"]) (simp add: trim_with.simps [of ws s])
  next
    case False
    with "1.prems" "1.IH" obtain es where es: "set es \<subseteq> set ws" "drop (lead_width ws s) s = concat es"
      by (auto simp: trim_with.simps [of ws s])
    obtain e where "e \<in> set ws" "s = e @ drop (lead_width ws s) s"
      using lead_width_takes [OF False] by blast
    with es show ?thesis by (intro exI [of _ "e # es"]) auto
  qed
qed

text \<open>Text that does not start with a space is not blank.\<close>

lemma not_blank:
  assumes "lead_width space_encodings s = 0" and "s \<noteq> []"
  shows "\<not> blank s"
proof
  assume "blank s"
  with assms have "trim_with (map rev space_encodings) (rev s) = []"
    by (simp add: blank_def trim_space_def trim_left_def trim_right_def trim_with.simps [of space_encodings])
  then obtain es where es: "set es \<subseteq> set (map rev space_encodings)" "rev s = concat es"
    using trim_with_consumed by blast
  then have s: "s = concat (map rev (rev es))" by (metis rev_concat rev_map rev_rev_ident)
  have "map rev (rev es) \<noteq> []" using s assms(2) by auto
  then obtain e rest where e: "map rev (rev es) = e # rest" by (metis neq_Nil_conv)
  have "e \<in> set (map rev (rev es))" using e by simp
  then have "e \<in> set space_encodings" using es(1) by auto
  moreover have "prefix e s" using s e by simp
  moreover have "[] \<notin> set space_encodings" by (simp add: space_encodings_def)
  ultimately show False using assms(1) lead_width_0 by blast
qed

definition lower_char :: "char \<Rightarrow> char" where
  "lower_char c = (if CHR ''A'' \<le> c \<and> c \<le> CHR ''Z'' then char_of (of_char c + (32 :: nat)) else c)"

definition to_lower :: "string \<Rightarrow> string" where
  "to_lower = map lower_char"

lemma length_to_lower [simp]: "length (to_lower s) = length s"
  by (simp add: to_lower_def)

definition equal_fold :: "string \<Rightarrow> string \<Rightarrow> bool" where
  "equal_fold a b \<longleftrightarrow> to_lower a = to_lower b"

fun contains :: "string \<Rightarrow> string \<Rightarrow> bool" where
  "contains [] t = (t = [])"
| "contains (c # s) t = (prefix t (c # s) \<or> contains s t)"

lemma contains_iff: "contains s t \<longleftrightarrow> (\<exists>a b. s = a @ t @ b)"
proof (induction s)
  case (Cons c s)
  have "(\<exists>a b. c # s = a @ t @ b) \<longleftrightarrow> prefix t (c # s) \<or> (\<exists>a b. s = a @ t @ b)"
    by (auto simp: prefix_def Cons_eq_append_conv)
  with Cons show ?case by simp
qed auto

definition containsAny :: "string \<Rightarrow> string list \<Rightarrow> bool" where
  "containsAny value candidates = (\<exists>c \<in> set candidates. contains value c)"

text \<open>\<open>strings.Fields\<close>: the maximal runs without whitespace.\<close>

function fields_from :: "string \<Rightarrow> string \<Rightarrow> string list" where
  "fields_from cur [] = (if cur = [] then [] else [rev cur])"
| "fields_from cur (c # s) =
     (if lead_width space_encodings (c # s) = 0 then fields_from (c # cur) s
      else (if cur = [] then [] else [rev cur]) @
             fields_from [] (drop (lead_width space_encodings (c # s)) (c # s)))"
  by pat_completeness auto
termination
proof (relation "measure (\<lambda>(cur, s). length s)", goal_cases)
  case (3 cur c s)
  then show ?case by (auto simp: less_Suc_eq_le)
qed auto

definition string_fields :: "string \<Rightarrow> string list" where
  "string_fields s = fields_from [] s"

text \<open>\<open>strings.FieldsFunc\<close> for a predicate that separates at single bytes.\<close>

fun fields_func_from :: "(char \<Rightarrow> bool) \<Rightarrow> string \<Rightarrow> string \<Rightarrow> string list" where
  "fields_func_from sep cur [] = (if cur = [] then [] else [rev cur])"
| "fields_func_from sep cur (c # s) =
     (if sep c then (if cur = [] then [] else [rev cur]) @ fields_func_from sep [] s
      else fields_func_from sep (c # cur) s)"

definition fields_func :: "(char \<Rightarrow> bool) \<Rightarrow> string \<Rightarrow> string list" where
  "fields_func sep s = fields_func_from sep [] s"

fun join :: "string \<Rightarrow> string list \<Rightarrow> string" where
  "join sep [] = []"
| "join sep [x] = x"
| "join sep (x # y # xs) = x @ sep @ join sep (y # xs)"

definition ascii_letter :: "char \<Rightarrow> bool" where
  "ascii_letter c \<longleftrightarrow> CHR ''a'' \<le> c \<and> c \<le> CHR ''z''"

definition ascii_digit :: "char \<Rightarrow> bool" where
  "ascii_digit c \<longleftrightarrow> CHR ''0'' \<le> c \<and> c \<le> CHR ''9''"

text \<open>The same tests on the bits of the character, by which they are evaluated.\<close>

definition letter_bits :: "bool \<Rightarrow> bool \<Rightarrow> bool \<Rightarrow> bool \<Rightarrow> bool \<Rightarrow> bool" where
  "letter_bits b0 b1 b2 b3 b4 \<longleftrightarrow> (b0 \<or> b1 \<or> b2 \<or> b3 \<or> b4) \<and> \<not> (b4 \<and> b3 \<and> (b2 \<or> b1 \<and> b0))"

lemma ascii_letter_code [code]:
  "ascii_letter (Char b0 b1 b2 b3 b4 b5 b6 b7) \<longleftrightarrow> \<not> b7 \<and> b6 \<and> b5 \<and> letter_bits b0 b1 b2 b3 b4"
  by (cases b0; cases b1; cases b2; cases b3; cases b4; cases b5; cases b6; cases b7;
      simp add: ascii_letter_def less_eq_char_def letter_bits_def)

lemma ascii_digit_code [code]:
  "ascii_digit (Char b0 b1 b2 b3 b4 b5 b6 b7) \<longleftrightarrow> \<not> b7 \<and> \<not> b6 \<and> b5 \<and> b4 \<and> \<not> (b3 \<and> (b2 \<or> b1))"
  by (cases b0; cases b1; cases b2; cases b3; cases b4; cases b5; cases b6; cases b7;
      simp add: ascii_digit_def less_eq_char_def)

lemma lower_char_code [code]:
  "lower_char (Char b0 b1 b2 b3 b4 b5 b6 b7) =
     Char b0 b1 b2 b3 b4 (b5 \<or> \<not> b7 \<and> b6 \<and> letter_bits b0 b1 b2 b3 b4) b6 b7"
  by (cases b0; cases b1; cases b2; cases b3; cases b4; cases b5; cases b6; cases b7;
      simp add: lower_char_def less_eq_char_def letter_bits_def char_of_def bit_0)

text \<open>\<open>strings.Index\<close> and \<open>strings.Count\<close> (of a non-empty needle, non-overlapping).\<close>

fun string_index :: "string \<Rightarrow> string \<Rightarrow> nat option" where
  "string_index [] t = (if t = [] then Some 0 else None)"
| "string_index (c # s) t =
     (if prefix t (c # s) then Some 0 else map_option Suc (string_index s t))"

function string_count :: "string \<Rightarrow> string \<Rightarrow> nat" where
  "string_count s t =
     (if t = [] \<or> s = [] then 0
      else if prefix t s then Suc (string_count (drop (length t) s) t)
      else string_count (tl s) t)"
  by pat_completeness auto
termination
  by (relation "measure (\<lambda>(s, t). length s)") auto

declare string_count.simps [simp del]

subsection \<open>Decimal numerals and quoting\<close>

definition digit_char :: "nat \<Rightarrow> char" where
  "digit_char d = char_of (48 + d)"

fun show_nat :: "nat \<Rightarrow> string" where
  "show_nat n = (if n < 10 then [digit_char n] else show_nat (n div 10) @ [digit_char (n mod 10)])"

declare show_nat.simps [simp del]

text \<open>\<open>utf8.RuneCountInString\<close> on valid UTF-8: the bytes that start a rune.\<close>

definition rune_count :: "string \<Rightarrow> nat" where
  "rune_count s = length (filter (\<lambda>c. \<not> (CHR 0x80 \<le> c \<and> c \<le> CHR 0xBF)) s)"

definition show_int :: "int \<Rightarrow> string" where
  "show_int i = (if i < 0 then CHR ''-'' # show_nat (nat (- i)) else show_nat (nat i))"

definition hex_char :: "nat \<Rightarrow> char" where
  "hex_char d = (if d < 10 then char_of (48 + d) else char_of (87 + d))"

text \<open>\<open>%q\<close> on the printable and the control characters of ASCII; other bytes are kept.\<close>

definition quote_char :: "char \<Rightarrow> string" where
  "quote_char c =
     (if c = CHR 0x22 then [CHR 0x5C, CHR 0x22]
      else if c = CHR 0x5C then [CHR 0x5C, CHR 0x5C]
      else if c = CHR 0x07 then [CHR 0x5C, CHR ''a'']
      else if c = CHR 0x08 then [CHR 0x5C, CHR ''b'']
      else if c = CHR 0x0C then [CHR 0x5C, CHR ''f'']
      else if c = CHR 0x0A then [CHR 0x5C, CHR ''n'']
      else if c = CHR 0x0D then [CHR 0x5C, CHR ''r'']
      else if c = CHR 0x09 then [CHR 0x5C, CHR ''t'']
      else if c = CHR 0x0B then [CHR 0x5C, CHR ''v'']
      else if c < CHR 0x20 \<or> c = CHR 0x7F
      then [CHR 0x5C, CHR ''x'', hex_char (of_char c div 16), hex_char (of_char c mod 16)]
      else [c])"

definition quote :: "string \<Rightarrow> string" where
  "quote s = [CHR 0x22] @ concat (map quote_char s) @ [CHR 0x22]"

lemma digit_char_inj: "d < 10 \<Longrightarrow> e < 10 \<Longrightarrow> digit_char d = digit_char e \<Longrightarrow> d = e"
  by (simp add: digit_char_def char_of_eq_iff take_bit_eq_mod)

lemma digit_char_not_colon: "d < 10 \<Longrightarrow> digit_char d \<noteq> CHR '':''"
  by (auto simp: digit_char_def char_of_eq_iff take_bit_eq_mod)

lemma show_nat_nonempty [simp]: "show_nat n \<noteq> []" "[] \<noteq> show_nat n"
  by (subst show_nat.simps, simp)+

lemma show_nat_no_colon: "CHR '':'' \<notin> set (show_nat n)"
proof (induction n rule: show_nat.induct)
  case (1 n)
  have "CHR '':'' \<noteq> digit_char (n mod 10)" "n < 10 \<Longrightarrow> CHR '':'' \<noteq> digit_char n"
    using digit_char_not_colon [of "n mod 10"] digit_char_not_colon [of n] by auto
  with "1" show ?case by (subst show_nat.simps) auto
qed

lemma show_nat_inj: "show_nat m = show_nat n \<Longrightarrow> m = n"
proof (induction m arbitrary: n rule: show_nat.induct)
  case (1 m)
  show ?case
  proof (cases "m < 10")
    case True
    then show ?thesis
      using "1.prems" by (auto simp: show_nat.simps [of m] show_nat.simps [of n]
          append_eq_Cons_conv dest: digit_char_inj split: if_splits)
  next
    case False
    then have n: "\<not> n < 10"
      using "1.prems" by (auto simp: show_nat.simps [of m] show_nat.simps [of n] split: if_splits)
    with False "1.prems" have "show_nat (m div 10) = show_nat (n div 10)"
      and "m mod 10 = n mod 10"
      using digit_char_inj [of "m mod 10" "n mod 10"]
      by (auto simp: show_nat.simps [of m] show_nat.simps [of n])
    moreover from False this(1) have "m div 10 = n div 10" by (rule "1.IH")
    ultimately show ?thesis by (metis div_mult_mod_eq)
  qed
qed

text \<open>The length-prefixed form \<open>%d:%s\<close> is a prefix code: it can be read back.\<close>

definition netstring :: "string \<Rightarrow> string" where
  "netstring s = show_nat (length s) @ [CHR '':''] @ s"

lemma split_at_first:
  assumes "a @ c # r = b @ c # q" and "c \<notin> set a" and "c \<notin> set b"
  shows "a = b \<and> r = q"
  using assms
proof (induction a arbitrary: b)
  case Nil
  then show ?case by (cases b) auto
next
  case (Cons x a)
  then show ?case by (cases b) auto
qed

lemma netstring_append_inj:
  assumes "netstring s @ r = netstring t @ q"
  shows "s = t \<and> r = q"
proof -
  have "show_nat (length s) = show_nat (length t) \<and> s @ r = t @ q"
    by (rule split_at_first [where c = "CHR '':''"])
      (use assms show_nat_no_colon in \<open>simp_all add: netstring_def\<close>)
  then show ?thesis by (auto dest: show_nat_inj)
qed

lemma netstring_nonempty [simp]: "netstring s \<noteq> []"
  by (simp add: netstring_def)

section \<open>Maps\<close>

type_synonym ('k, 'v) gomap = "('k \<times> 'v) list"

abbreviation mget :: "('k, 'v) gomap \<Rightarrow> 'k \<Rightarrow> 'v option" where
  "mget \<equiv> map_of"

abbreviation mput :: "'k \<Rightarrow> 'v \<Rightarrow> ('k, 'v) gomap \<Rightarrow> ('k, 'v) gomap" where
  "mput \<equiv> AList.update"

abbreviation mdel :: "'k \<Rightarrow> ('k, 'v) gomap \<Rightarrow> ('k, 'v) gomap" where
  "mdel \<equiv> AList.delete"

abbreviation mwf :: "('k, 'v) gomap \<Rightarrow> bool" where
  "mwf m \<equiv> distinct (map fst m)"

lemma mget_mput [go_map]: "mget (mput k v m) = (mget m)(k \<mapsto> v)"
  by (rule update_conv')

lemma mget_mdel [go_map]: "mget (mdel k m) = (mget m)(k := None)"
  by (rule delete_conv')

lemma set_mput: "x \<in> set (mput k v m) \<Longrightarrow> x = (k, v) \<or> x \<in> set m"
  by (induction m) (auto split: if_splits)

lemma mwf_mput [simp]: "mwf m \<Longrightarrow> mwf (mput k v m)"
  by (rule distinct_update)

lemma mwf_mdel [simp]: "mwf m \<Longrightarrow> mwf (mdel k m)"
  by (rule distinct_delete)

lemma mwf_filter [simp]: "mwf m \<Longrightarrow> mwf (filter P m)"
  by (induction m) auto

lemma mem_mget: "mwf m \<Longrightarrow> (k, v) \<in> set m \<longleftrightarrow> mget m k = Some v"
  by auto

lemma mwf_distinct: "mwf m \<Longrightarrow> distinct m"
  by (simp add: distinct_map)

lemma mget_same_perm:
  assumes "mwf m" and "mwf m'" and "mget m = mget m'"
  shows "mset m = mset m'"
proof -
  have "set m = set m'"
    using mem_mget [OF assms(1)] mem_mget [OF assms(2)] assms(3) by (metis subrelI subset_antisym)
  then show ?thesis
    using mwf_distinct [OF assms(1)] mwf_distinct [OF assms(2)] by (simp add: set_eq_iff_mset_eq_distinct)
qed

lemma mget_filter_vals:
  assumes "mwf m"
  shows "mget (filter (\<lambda>(k, v). P k v) m) k =
    (case mget m k of None \<Rightarrow> None | Some v \<Rightarrow> if P k v then Some v else None)"
proof (cases "mget m k")
  case None
  then have "k \<notin> fst ` set (filter (\<lambda>(k, v). P k v) m)"
    by (auto simp: map_of_eq_None_iff)
  then have "mget (filter (\<lambda>(k, v). P k v) m) k = None"
    by (simp only: map_of_eq_None_iff not_False_eq_True)
  with None show ?thesis by simp
next
  case (Some v)
  with assms have "(k, v') \<in> set (filter (\<lambda>(k, v). P k v) m) \<longleftrightarrow> v' = v \<and> P k v" for v'
    using mem_mget [OF assms, of k v'] by auto
  moreover have "mwf (filter (\<lambda>(k, v). P k v) m)" using assms by simp
  ultimately have "mget (filter (\<lambda>(k, v). P k v) m) k = Some v' \<longleftrightarrow> v' = v \<and> P k v" for v'
    using mem_mget [of "filter (\<lambda>(k, v). P k v) m" k v'] by blast
  with Some show ?thesis by (cases "mget (filter (\<lambda>(k, v). P k v) m) k") auto
qed

section \<open>Sorting and de-duplicating lists\<close>

fun insert_by :: "('a \<Rightarrow> 'a \<Rightarrow> bool) \<Rightarrow> 'a \<Rightarrow> 'a list \<Rightarrow> 'a list" where
  "insert_by lt x [] = [x]"
| "insert_by lt x (y # ys) = (if lt y x then y # insert_by lt x ys else x # y # ys)"

primrec sort_by :: "('a \<Rightarrow> 'a \<Rightarrow> bool) \<Rightarrow> 'a list \<Rightarrow> 'a list" where
  "sort_by lt [] = []"
| "sort_by lt (x # xs) = insert_by lt x (sort_by lt xs)"

lemma mset_insert_by [simp]: "mset (insert_by lt x xs) = add_mset x (mset xs)"
  by (induction xs) auto

lemma mset_sort_by [simp]: "mset (sort_by lt xs) = mset xs"
  by (induction xs) auto

lemma set_sort_by [simp]: "set (sort_by lt xs) = set xs"
  by (metis mset_sort_by set_mset_mset)

lemma length_sort_by [simp]: "length (sort_by lt xs) = length xs"
  by (metis mset_sort_by size_mset)

lemma distinct_sort_by [simp]: "distinct (sort_by lt xs) = distinct xs"
  by (metis mset_sort_by mset_eq_imp_distinct_iff)

lemma set_insert_by [simp]: "set (insert_by lt x xs) = insert x (set xs)"
  by (induction xs) auto

text \<open>A comparison that is a strict weak order, as \<open>sort.Slice\<close> requires.\<close>

definition weak_order :: "('a \<Rightarrow> 'a \<Rightarrow> bool) \<Rightarrow> bool" where
  "weak_order lt \<longleftrightarrow>
     (\<forall>x y. lt x y \<longrightarrow> \<not> lt y x) \<and> (\<forall>x y z. lt x z \<longrightarrow> lt x y \<or> lt y z)"

lemma sorted_insert_by:
  assumes "weak_order lt" and "sorted_wrt (\<lambda>x y. \<not> lt y x) xs"
  shows "sorted_wrt (\<lambda>x y. \<not> lt y x) (insert_by lt x xs)"
  using assms(2)
proof (induction xs)
  case (Cons y ys)
  show ?case
  proof (cases "lt y x")
    case True
    then have "\<not> lt x y" using assms(1) by (auto simp: weak_order_def)
    with True Cons show ?thesis by auto
  next
    case False
    then have "\<not> lt z x" if "z \<in> set ys" for z
      using that Cons.prems assms(1) unfolding weak_order_def by (metis sorted_wrt.simps(2))
    with False Cons.prems show ?thesis by auto
  qed
qed simp

lemma sorted_sort_by: "weak_order lt \<Longrightarrow> sorted_wrt (\<lambda>x y. \<not> lt y x) (sort_by lt xs)"
  by (induction xs) (auto intro: sorted_insert_by)

text \<open>With a comparison that separates the elements, the sorted list does not depend on the
  order of the input, which is what makes the code's sorted map iterations deterministic.\<close>

lemma sorted_wrt_unique:
  assumes "weak_order lt" and "mset xs = mset ys"
    and sep: "\<forall>x \<in> set xs. \<forall>y \<in> set xs. x \<noteq> y \<longrightarrow> lt x y \<or> lt y x"
    and "sorted_wrt (\<lambda>x y. \<not> lt y x) xs" and "sorted_wrt (\<lambda>x y. \<not> lt y x) ys"
  shows "xs = ys"
  using assms(2-)
proof (induction xs arbitrary: ys)
  case (Cons x xs)
  then obtain y ys' where ys: "ys = y # ys'" by (cases ys) auto
  have "set (x # xs) = set ys" using Cons.prems(1) by (rule mset_eq_setD)
  then have "x = y \<or> (x \<in> set ys' \<and> y \<in> set xs)"
    using ys by (metis list.set_intros(1) set_ConsD)
  then have "x = y"
    using Cons.prems(2,3,4) ys by (metis list.set_intros(1,2) sorted_wrt.simps(2))
  with Cons ys show ?case by auto
qed simp

lemma sort_by_perm:
  assumes "weak_order lt" and "mset xs = mset ys"
    and "\<forall>x \<in> set xs. \<forall>y \<in> set xs. x \<noteq> y \<longrightarrow> lt x y \<or> lt y x"
  shows "sort_by lt xs = sort_by lt ys"
  by (rule sorted_wrt_unique [OF assms(1)]) (use assms sorted_sort_by in auto)

text \<open>The loop that keeps the first occurrence of every value; \<open>seen\<close> is the set it has met.\<close>

fun dedup_from :: "'a list \<Rightarrow> 'a list \<Rightarrow> 'a list" where
  "dedup_from seen [] = []"
| "dedup_from seen (x # xs) =
     (if x \<in> set seen then dedup_from seen xs else x # dedup_from (x # seen) xs)"

lemma set_dedup_from [simp]: "set (dedup_from seen xs) = set xs - set seen"
  by (induction seen xs rule: dedup_from.induct) auto

lemma distinct_dedup_from [simp]: "distinct (dedup_from seen xs)"
  by (induction seen xs rule: dedup_from.induct) auto

lemma last_write_wins: "fold (\<lambda>(k, v) m. m(k \<mapsto> v)) kvs m k = (case map_of (rev kvs) k of None \<Rightarrow> m k | Some v \<Rightarrow> Some v)"
  by (induction kvs arbitrary: m) (auto simp: map_add_def split: option.splits)

end
