(* ===== verification/Session_Evidence.thy ===== *)
theory Session_Evidence
  imports Go_Prelude
begin

text \<open>
  Package \<open>internal/session\<close>: identities, immutable events, the contract every connector batch
  has to satisfy (\<open>evidence.go\<close>), and the collaboration scope carried by a context
  (\<open>scope.go\<close>).
\<close>

section \<open>Identities and events\<close>

record actor =
  UserID :: string
  AgentID :: string
  SessionID :: string

record session_event =
  ev_ID :: string
  ev_Actor :: actor
  ev_Sequence :: int
  ev_Type :: string
  ev_Content :: string
  ev_TaskRef :: string
  ev_ThreadRef :: string
  ev_Visibility :: string
  ev_OccurredAt :: time
  ev_CapturedAt :: time
  ev_ExtractedAt :: "time option"
  ev_Metadata :: "(string, string) gomap"

record session_batch =
  sb_Events :: "session_event list"
  sb_Complete :: bool

record ingest_receipt =
  rc_Accepted :: int
  rc_Duplicate :: int
  rc_Cursor :: int
  rc_RunID :: string

record stream =
  Source :: string
  StreamID :: string

record author =
  Kind :: string
  NativeID :: string
  AuthorUserID :: string

record media_ref =
  BlobID :: string
  MimeType :: string
  Size :: int
  Checksum :: string

record stream_event =
  se_ID :: string
  se_Stream :: stream
  se_Author :: author
  se_Sequence :: int
  se_Kind :: string
  se_Type :: string
  se_Content :: string
  se_Media :: "media_ref option"
  se_ThreadRef :: string
  se_Visibility :: string
  se_OccurredAt :: time
  se_CapturedAt :: time
  se_Metadata :: "(string, string) gomap"

record stream_batch =
  stb_Events :: "stream_event list"
  stb_Complete :: bool

section \<open>Registered contract values and error sentinels\<close>

definition SourceAgentSession :: string where "SourceAgentSession = ''agent-session''"
definition SourceIMChannel :: string where "SourceIMChannel = ''im-channel''"
definition SourceAppTodo :: string where "SourceAppTodo = ''app:todo''"
definition KindText :: string where "KindText = ''text''"
definition VisibilityTeam :: string where "VisibilityTeam = ''team''"

definition ErrInvalidStreamBatch :: go_error where
  "ErrInvalidStreamBatch = Sentinel ''invalid stream batch''"
definition ErrUnregisteredValue :: go_error where
  "ErrUnregisteredValue = Sentinel ''unregistered contract value''"
definition ErrVisibilityRejected :: go_error where
  "ErrVisibilityRejected = Sentinel ''visibility not accepted''"
definition ErrMediaNotEnabled :: go_error where
  "ErrMediaNotEnabled = Sentinel ''media ingestion not enabled''"

definition registeredSources :: "string list" where
  "registeredSources = [SourceAgentSession, SourceIMChannel, SourceAppTodo]"
definition registeredKinds :: "string list" where
  "registeredKinds = [KindText, ''audio'', ''image'', ''video'', ''file'']"
definition registeredEventTypes :: "string list" where
  "registeredEventTypes =
     [''message'', ''reply'', ''reaction'', ''system'', ''checkpoint'', ''attachment'']"
definition registeredAuthorKinds :: "string list" where
  "registeredAuthorKinds = [''user'', ''agent'', ''system'']"

section \<open>Validation of a connector batch\<close>

text \<open>The body of the loop of \<open>ValidateStreamBatch\<close>: the first check that fails decides.\<close>

definition validateStreamEvent :: "stream \<Rightarrow> stream_event \<Rightarrow> unit res" where
  "validateStreamEvent stream event =
     (let sid = quote (se_ID event) in
      if blank (se_ID event) \<or> se_OccurredAt event = 0
      then Inl (wrapf (''event '' @ sid @ '' identity: '') ErrInvalidStreamBatch)
      else if se_Sequence event \<noteq> 0
      then Inl (wrapf (''event '' @ sid @ '' carries a caller sequence: '') ErrInvalidStreamBatch)
      else if se_Stream event \<noteq> stream
      then Inl (wrapf (''event '' @ sid @ '' mixed stream: '') ErrInvalidStreamBatch)
      else if Source (se_Stream event) = SourceAgentSession
      then Inl (wrapf (''event '' @ sid @ '' source '' @ quote SourceAgentSession @
             '' must enter via the session ingest path, not the generic stream endpoint: '')
             ErrInvalidStreamBatch)
      else if Source (se_Stream event) \<notin> set registeredSources
      then Inl (wrapf (''source '' @ quote (Source (se_Stream event)) @ '': '') ErrUnregisteredValue)
      else if se_Kind event \<notin> set registeredKinds
      then Inl (wrapf (''kind '' @ quote (se_Kind event) @ '': '') ErrUnregisteredValue)
      else if se_Type event \<notin> set registeredEventTypes
      then Inl (wrapf (''type '' @ quote (se_Type event) @ '': '') ErrUnregisteredValue)
      else if Kind (se_Author event) \<notin> set registeredAuthorKinds
      then Inl (wrapf (''author kind '' @ quote (Kind (se_Author event)) @ '': '') ErrUnregisteredValue)
      else if blank (NativeID (se_Author event))
      then Inl (wrapf (''event '' @ sid @ '' author native id: '') ErrInvalidStreamBatch)
      else if se_Visibility event \<noteq> VisibilityTeam
      then Inl (wrapf (''visibility '' @ quote (se_Visibility event) @ '': '') ErrVisibilityRejected)
      else if se_Kind event \<noteq> KindText
      then Inl (wrapf (''kind '' @ quote (se_Kind event) @ '': '') ErrMediaNotEnabled)
      else Inr ())"

primrec validateStreamEvents :: "stream \<Rightarrow> stream_event list \<Rightarrow> unit res" where
  "validateStreamEvents stream [] = Inr ()"
| "validateStreamEvents stream (event # events) =
     (case validateStreamEvent stream event of
        Inl e \<Rightarrow> Inl e
      | Inr _ \<Rightarrow> validateStreamEvents stream events)"

definition ValidateStreamBatch :: "stream_batch \<Rightarrow> unit res" where
  "ValidateStreamBatch batch =
     (case stb_Events batch of
        [] \<Rightarrow> Inl (wrapf ''empty batch: '' ErrInvalidStreamBatch)
      | first # _ \<Rightarrow>
          if blank (StreamID (se_Stream first))
          then Inl (wrapf (''stream '' @ quote (Source (se_Stream first)) @ '' empty stream id: '')
                 ErrInvalidStreamBatch)
          else validateStreamEvents (se_Stream first) (stb_Events batch))"

section \<open>Legacy actors as streams and authors\<close>

definition StreamFromActor :: "actor \<Rightarrow> stream" where
  "StreamFromActor a = \<lparr>Source = SourceAgentSession, StreamID = AgentID a @ '':'' @ SessionID a\<rparr>"

definition AuthorFromActor :: "actor \<Rightarrow> author" where
  "AuthorFromActor a = \<lparr>Kind = ''agent'', NativeID = AgentID a, AuthorUserID = UserID a\<rparr>"

section \<open>The scope of a context\<close>

text \<open>
  A context holds the scope value, if one was attached, and its cancellation error, if it has one.
\<close>

record go_context =
  ctx_scope :: "string option"
  ctx_err :: "go_error option"

definition ErrMissingScope :: go_error where
  "ErrMissingScope = Sentinel ''authenticated collaboration scope is missing''"

definition WithScope :: "go_context \<Rightarrow> string \<Rightarrow> go_context" where
  "WithScope ctx scopeID = ctx\<lparr>ctx_scope := Some (trim_space scopeID)\<rparr>"

definition ScopeFromContext :: "go_context \<Rightarrow> string res" where
  "ScopeFromContext ctx =
     (case ctx_scope ctx of
        None \<Rightarrow> Inl ErrMissingScope
      | Some scopeID \<Rightarrow> if scopeID = [] then Inl ErrMissingScope else Inr scopeID)"

lemmas session_sentinels =
  ErrInvalidStreamBatch_def ErrUnregisteredValue_def ErrVisibilityRejected_def
  ErrMediaNotEnabled_def ErrMissingScope_def

section \<open>What the contract accepts\<close>

text \<open>The declarative contract of one accepted event of a batch on \<open>stream\<close>.\<close>

definition wf_stream_event :: "stream \<Rightarrow> stream_event \<Rightarrow> bool" where
  "wf_stream_event stream e \<longleftrightarrow>
     \<not> blank (se_ID e) \<and> se_OccurredAt e \<noteq> 0 \<and> se_Sequence e = 0 \<and> se_Stream e = stream \<and>
     Source stream \<in> {SourceIMChannel, SourceAppTodo} \<and> se_Kind e = KindText \<and>
     se_Type e \<in> set registeredEventTypes \<and> Kind (se_Author e) \<in> set registeredAuthorKinds \<and>
     \<not> blank (NativeID (se_Author e)) \<and> se_Visibility e = VisibilityTeam"

lemma validateStreamEvent_ok: "validateStreamEvent s e = Inr () \<longleftrightarrow> wf_stream_event s e"
  by (auto simp: validateStreamEvent_def wf_stream_event_def Let_def registeredSources_def
      registeredKinds_def SourceAgentSession_def SourceIMChannel_def SourceAppTodo_def KindText_def)

lemma validateStreamEvents_ok:
  "validateStreamEvents s es = Inr () \<longleftrightarrow> (\<forall>e \<in> set es. wf_stream_event s e)"
  by (induction es) (auto simp: validateStreamEvent_ok [symmetric] split: sum.splits)

lemma validateStreamEvents_error:
  "validateStreamEvents s es = Inl err \<Longrightarrow> \<exists>e \<in> set es. validateStreamEvent s e = Inl err"
  by (induction es) (auto split: sum.splits)

lemma validateStreamEvent_sentinel:
  "validateStreamEvent s e = Inl err \<Longrightarrow>
     \<exists>t \<in> {ErrInvalidStreamBatch, ErrUnregisteredValue, ErrVisibilityRejected, ErrMediaNotEnabled}.
       errors_is err t"
  by (auto simp: validateStreamEvent_def Let_def session_sentinels split: if_splits)

text \<open>A connector batch is accepted exactly when it is not empty, names a non-blank stream and
  every event of it satisfies the contract on that one stream: registered values only, no
  sequence chosen by the caller, team visibility, text only, and never the agent-session
  source.\<close>

theorem ValidateStreamBatch_accepts_iff:
  "ValidateStreamBatch batch = Inr () \<longleftrightarrow>
     (\<exists>first rest. stb_Events batch = first # rest \<and> \<not> blank (StreamID (se_Stream first)) \<and>
        (\<forall>e \<in> set (stb_Events batch). wf_stream_event (se_Stream first) e))"
  by (auto simp: ValidateStreamBatch_def validateStreamEvents_ok simp del: validateStreamEvents.simps
      split: list.splits)

text \<open>A valid one-event batch of a chat channel.\<close>

definition chat_event :: stream_event where
  "chat_event = \<lparr>se_ID = ''m1'', se_Stream = \<lparr>Source = SourceIMChannel, StreamID = ''general''\<rparr>,
     se_Author = \<lparr>Kind = ''user'', NativeID = ''U1'', AuthorUserID = []\<rparr>, se_Sequence = 0,
     se_Kind = KindText, se_Type = ''message'', se_Content = ''hello'', se_Media = None,
     se_ThreadRef = [], se_Visibility = VisibilityTeam, se_OccurredAt = 70, se_CapturedAt = 0,
     se_Metadata = []\<rparr>"

theorem ValidateStreamBatch_accepts_iff_witness:
  "ValidateStreamBatch \<lparr>stb_Events = [chat_event], stb_Complete = False\<rparr> = Inr () \<and>
   wf_stream_event (se_Stream chat_event) chat_event \<and>
   ValidateStreamBatch \<lparr>stb_Events = [chat_event, chat_event\<lparr>se_Sequence := 3\<rparr>], stb_Complete = False\<rparr> \<noteq> Inr ()"
proof -
  have "wf_stream_event (se_Stream chat_event) chat_event \<and> \<not> blank (StreamID (se_Stream chat_event)) \<and>
      \<not> wf_stream_event (se_Stream chat_event) (chat_event\<lparr>se_Sequence := 3\<rparr>)" by code_simp
  then show ?thesis
    unfolding ValidateStreamBatch_accepts_iff by simp
qed

lemma ValidateStreamBatch_error_sentinel:
  assumes "ValidateStreamBatch batch = Inl err"
  shows "\<exists>t \<in> {ErrInvalidStreamBatch, ErrUnregisteredValue, ErrVisibilityRejected, ErrMediaNotEnabled}.
    errors_is err t"
proof (cases "stb_Events batch")
  case Nil
  with assms show ?thesis by (auto simp: ValidateStreamBatch_def session_sentinels)
next
  case (Cons first rest)
  show ?thesis
  proof (cases "blank (StreamID (se_Stream first))")
    case True
    with assms Cons show ?thesis by (auto simp: ValidateStreamBatch_def session_sentinels)
  next
    case False
    with assms Cons have "validateStreamEvents (se_Stream first) (stb_Events batch) = Inl err"
      by (simp add: ValidateStreamBatch_def)
    then show ?thesis
      by (auto dest: validateStreamEvents_error validateStreamEvent_sentinel)
  qed
qed

section \<open>Stream identity of an actor\<close>

lemma StreamFromActor_inj:
  assumes "CHR '':'' \<notin> set (AgentID a)" and "CHR '':'' \<notin> set (AgentID b)"
    and "StreamFromActor a = StreamFromActor b"
  shows "AgentID a = AgentID b \<and> SessionID a = SessionID b"
  using split_at_first [of "AgentID a" "CHR '':''" "SessionID a" "AgentID b" "SessionID b"] assms
  by (simp add: StreamFromActor_def)

text \<open>The two agent sessions used to show that the concatenation is not injective.\<close>

definition colon_actor1 :: actor where
  "colon_actor1 = \<lparr>UserID = ''u'', AgentID = ''a:b'', SessionID = ''c''\<rparr>"

definition colon_actor2 :: actor where
  "colon_actor2 = \<lparr>UserID = ''u'', AgentID = ''a'', SessionID = ''b:c''\<rparr>"

lemma StreamFromActor_collides:
  "StreamFromActor colon_actor1 = StreamFromActor colon_actor2 \<and>
   (AgentID colon_actor1, SessionID colon_actor1) \<noteq> (AgentID colon_actor2, SessionID colon_actor2)"
  by (simp add: StreamFromActor_def colon_actor1_def colon_actor2_def)

section \<open>Scopes\<close>

lemma ScopeFromContext_WithScope:
  "ScopeFromContext (WithScope ctx s) =
     (if blank s then Inl ErrMissingScope else Inr (trim_space s))"
  by (simp add: ScopeFromContext_def WithScope_def blank_def)

end
