(* ===== verification/Evidence_Lake.thy ===== *)
theory Evidence_Lake
  imports Session_Evidence Go_Crypto
begin

text \<open>
  Package \<open>internal/evidencelake\<close> (\<open>lake.go\<close>): the repository interface as a record of
  operations, the lake's operations over it, and the locale of the laws a repository promises,
  in which the correctness of slicing is proved once.
\<close>

section \<open>The repository interface\<close>

record 'r lake_repository =
  AppendSession :: "'r \<Rightarrow> string \<Rightarrow> session_batch \<Rightarrow> 'r \<times> ingest_receipt res"
  SessionEvents :: "'r \<Rightarrow> string \<Rightarrow> actor \<Rightarrow> int \<Rightarrow> int \<Rightarrow> session_event list res"
  SessionEventsBefore :: "'r \<Rightarrow> string \<Rightarrow> actor \<Rightarrow> int \<Rightarrow> int \<Rightarrow> session_event list res"
  SessionLatestSequence :: "'r \<Rightarrow> string \<Rightarrow> actor \<Rightarrow> int res"
  ExtractionCursor :: "'r \<Rightarrow> string \<Rightarrow> actor \<Rightarrow> int res"
  AdvanceExtractionCursor :: "'r \<Rightarrow> string \<Rightarrow> actor \<Rightarrow> int \<Rightarrow> 'r \<times> unit res"
  AppendStream :: "'r \<Rightarrow> string \<Rightarrow> stream_batch \<Rightarrow> 'r \<times> ingest_receipt res"
  StreamEvents :: "'r \<Rightarrow> string \<Rightarrow> stream \<Rightarrow> int \<Rightarrow> int \<Rightarrow> stream_event list res"

record lake_slice =
  sl_Actor :: actor
  sl_Events :: "session_event list"
  sl_NewEventIDs :: "string list"
  sl_OverlapEventIDs :: "string list"
  sl_FromSequence :: int
  sl_ToSequence :: int
  sl_InputChecksum :: string

record slice_policy =
  EventLimit :: int
  TokenLimit :: int
  Overlap :: int
  ThroughSequence :: int

section \<open>Token estimates and bounds\<close>

definition estimateEventTokens :: "session_event \<Rightarrow> int" where
  "estimateEventTokens event =
     (let characters = int (length (ev_Content event)) + int (length (ev_Type event)) +
            int (length (ev_TaskRef event)) + int (length (ev_ThreadRef event)) +
            int (length (UserID (ev_Actor event))) + int (length (AgentID (ev_Actor event))) +
            int (length (SessionID (ev_Actor event)))
      in 32 + (characters + 3) div 4)"

primrec eventTokens :: "session_event list \<Rightarrow> int" where
  "eventTokens [] = 0"
| "eventTokens (event # events) = estimateEventTokens event + eventTokens events"

definition eventIDs :: "session_event list \<Rightarrow> string list" where
  "eventIDs events = map ev_ID events"

definition eventsThrough :: "session_event list \<Rightarrow> int \<Rightarrow> session_event list" where
  "eventsThrough events sequence =
     (if sequence \<le> 0 then events else takeWhile (\<lambda>event. ev_Sequence event \<le> sequence) events)"

text \<open>The loop of \<open>boundedEvents\<close>; \<open>first\<close> is \<open>index = 0\<close>.\<close>

fun boundedEvents_from :: "bool \<Rightarrow> int \<Rightarrow> int \<Rightarrow> session_event list \<Rightarrow> session_event list" where
  "boundedEvents_from first used tokenLimit [] = []"
| "boundedEvents_from first used tokenLimit (event # events) =
     (let tokens = estimateEventTokens event in
      if \<not> first \<and> used + tokens > tokenLimit then []
      else event # boundedEvents_from False (used + tokens) tokenLimit events)"

definition boundedEvents :: "session_event list \<Rightarrow> int \<Rightarrow> session_event list" where
  "boundedEvents events tokenLimit = boundedEvents_from True 0 tokenLimit events"

text \<open>The loop of \<open>overlapEvents\<close>, over the events from the last one backwards.\<close>

fun overlapFit :: "int \<Rightarrow> session_event list \<Rightarrow> session_event list" where
  "overlapFit remaining [] = []"
| "overlapFit remaining (event # events) =
     (let tokens = estimateEventTokens event in
      if tokens > remaining then [] else event # overlapFit (remaining - tokens) events)"

definition checksum :: "session_event list \<Rightarrow> string" where
  "checksum events =
     sha256_hex (concat (map (\<lambda>event. ev_ID event @ [CHR 0x00] @ show_int (ev_Sequence event) @
       [CHR 0x00] @ ev_Content event @ [CHR 0x00]) events))"

section \<open>Operations of the lake\<close>

definition IsCurrent ::
  "'r lake_repository \<Rightarrow> 'r \<Rightarrow> go_context \<Rightarrow> actor \<Rightarrow> int \<Rightarrow> bool res" where
  "IsCurrent repo r ctx a sequence =
     (case ScopeFromContext ctx of
        Inl e \<Rightarrow> Inl (wrapf ''check session head: '' e)
      | Inr scopeID \<Rightarrow>
          (case SessionLatestSequence repo r scopeID a of
             Inl e \<Rightarrow> Inl (wrapf ''read session head: '' e)
           | Inr latest \<Rightarrow> Inr (latest = sequence)))"

definition Observe ::
  "'r lake_repository \<Rightarrow> 'r \<Rightarrow> go_context \<Rightarrow> session_batch \<Rightarrow> 'r \<times> ingest_receipt res" where
  "Observe repo r ctx batch =
     (case ScopeFromContext ctx of
        Inl e \<Rightarrow> (r, Inl (wrapf ''observe session: '' e))
      | Inr scopeID \<Rightarrow>
          (case AppendSession repo r scopeID batch of
             (r', Inl e) \<Rightarrow> (r', Inl (wrapf ''observe session: '' e))
           | (r', Inr receipt) \<Rightarrow> (r', Inr receipt)))"

definition ObserveStream ::
  "'r lake_repository \<Rightarrow> 'r \<Rightarrow> go_context \<Rightarrow> stream_batch \<Rightarrow> 'r \<times> ingest_receipt res" where
  "ObserveStream repo r ctx batch =
     (case ScopeFromContext ctx of
        Inl e \<Rightarrow> (r, Inl (wrapf ''observe stream: '' e))
      | Inr scopeID \<Rightarrow>
          (case ValidateStreamBatch batch of
             Inl e \<Rightarrow> (r, Inl (wrapf ''observe stream: '' e))
           | Inr _ \<Rightarrow>
               (case AppendStream repo r scopeID batch of
                  (r', Inl e) \<Rightarrow> (r', Inl (wrapf ''observe stream: '' e))
                | (r', Inr receipt) \<Rightarrow> (r', Inr receipt))))"

definition overlapEvents ::
  "'r lake_repository \<Rightarrow> 'r \<Rightarrow> string \<Rightarrow> actor \<Rightarrow> int \<Rightarrow> slice_policy \<Rightarrow> int \<Rightarrow> session_event list res"
where
  "overlapEvents repo r scopeID a cursor policy usedTokens =
     (if cursor = 0 \<or> Overlap policy = 0 \<or> usedTokens \<ge> TokenLimit policy then Inr []
      else case SessionEventsBefore repo r scopeID a cursor (Overlap policy) of
             Inl e \<Rightarrow> Inl (wrapf ''read session overlap: '' e)
           | Inr events \<Rightarrow> Inr (rev (overlapFit (TokenLimit policy - usedTokens) (rev events))))"

definition emptySlice :: "actor \<Rightarrow> int \<Rightarrow> lake_slice" where
  "emptySlice a from =
     \<lparr>sl_Actor = a, sl_Events = [], sl_NewEventIDs = [], sl_OverlapEventIDs = [],
      sl_FromSequence = from, sl_ToSequence = 0, sl_InputChecksum = []\<rparr>"

definition NextSlice ::
  "'r lake_repository \<Rightarrow> 'r \<Rightarrow> go_context \<Rightarrow> actor \<Rightarrow> slice_policy \<Rightarrow> lake_slice res" where
  "NextSlice repo r ctx a policy =
     (case ScopeFromContext ctx of
        Inl e \<Rightarrow> Inl (wrapf ''plan session slice: '' e)
      | Inr scopeID \<Rightarrow>
        if EventLimit policy \<le> 0 \<or> TokenLimit policy \<le> 0 \<or> Overlap policy < 0
        then Inl (ErrorNew ''plan session slice: event limit, token limit, and overlap are invalid'')
        else (case ExtractionCursor repo r scopeID a of
          Inl e \<Rightarrow> Inl (wrapf ''read extraction cursor: '' e)
        | Inr cursor \<Rightarrow>
          (case SessionEvents repo r scopeID a cursor (EventLimit policy) of
            Inl e \<Rightarrow> Inl (wrapf ''read session slice: '' e)
          | Inr read \<Rightarrow>
            let through = eventsThrough read (ThroughSequence policy) in
            if through = [] then Inr (emptySlice a (cursor + 1))
            else let newEvents = boundedEvents through (TokenLimit policy) in
              (case overlapEvents repo r scopeID a cursor policy (eventTokens newEvents) of
                 Inl e \<Rightarrow> Inl e
               | Inr overlap \<Rightarrow> Inr
                   \<lparr>sl_Actor = a, sl_Events = overlap @ newEvents,
                    sl_NewEventIDs = eventIDs newEvents, sl_OverlapEventIDs = eventIDs overlap,
                    sl_FromSequence = ev_Sequence (hd newEvents),
                    sl_ToSequence = ev_Sequence (last newEvents),
                    sl_InputChecksum = checksum newEvents\<rparr>))))"

definition CommitSlice ::
  "'r lake_repository \<Rightarrow> 'r \<Rightarrow> go_context \<Rightarrow> lake_slice \<Rightarrow> 'r \<times> unit res" where
  "CommitSlice repo r ctx sl =
     (if sl_Events sl = [] then (r, Inr ())
      else case ScopeFromContext ctx of
        Inl e \<Rightarrow> (r, Inl (wrapf ''commit session slice: '' e))
      | Inr scopeID \<Rightarrow>
          (case AdvanceExtractionCursor repo r scopeID (sl_Actor sl) (sl_ToSequence sl) of
             (r', Inl e) \<Rightarrow> (r', Inl (wrapf ''advance extraction cursor: '' e))
           | (r', Inr _) \<Rightarrow> (r', Inr ())))"

section \<open>Bounds of the pure helpers\<close>

lemma estimateEventTokens_ge: "32 \<le> estimateEventTokens e"
  by (simp add: estimateEventTokens_def Let_def)

lemma eventTokens_append [simp]: "eventTokens (xs @ ys) = eventTokens xs + eventTokens ys"
  by (induction xs) auto

lemma eventTokens_rev [simp]: "eventTokens (rev xs) = eventTokens xs"
  by (induction xs) auto

lemma eventTokens_nonneg [simp]: "0 \<le> eventTokens xs"
proof (induction xs)
  case (Cons x xs)
  then show ?case using estimateEventTokens_ge [of x] by simp
qed simp

lemma boundedEvents_from_prefix: "prefix (boundedEvents_from first used lim es) es"
  by (induction first used lim es rule: boundedEvents_from.induct) (auto simp: Let_def)

lemma boundedEvents_prefix: "prefix (boundedEvents es lim) es"
  by (simp add: boundedEvents_def boundedEvents_from_prefix)

lemma boundedEvents_nonempty: "es \<noteq> [] \<Longrightarrow> boundedEvents es lim \<noteq> []"
  by (cases es) (auto simp: boundedEvents_def Let_def)

lemma boundedEvents_from_tokens:
  "used \<le> lim \<Longrightarrow> used + eventTokens (boundedEvents_from False used lim es) \<le> lim"
proof (induction "False" used lim es rule: boundedEvents_from.induct)
  case (2 used lim e es)
  then show ?case by (auto simp: Let_def)
qed simp

lemma boundedEvents_from_full: "lim < used \<Longrightarrow> boundedEvents_from False used lim es = []"
proof (cases es)
  case (Cons e es')
  assume "lim < used"
  with estimateEventTokens_ge [of e] Cons show ?thesis by (simp add: Let_def)
qed simp

lemma boundedEvents_tokens:
  "eventTokens (boundedEvents es lim) \<le> lim \<or> length (boundedEvents es lim) = 1 \<or> es = []"
proof (cases es)
  case (Cons e es')
  show ?thesis
  proof (cases "estimateEventTokens e \<le> lim")
    case True
    then show ?thesis using Cons boundedEvents_from_tokens [of "estimateEventTokens e" lim es']
      by (simp add: boundedEvents_def Let_def)
  next
    case False
    then show ?thesis using Cons by (simp add: boundedEvents_def boundedEvents_from_full)
  qed
qed simp

lemma overlapFit_prefix: "prefix (overlapFit rem es) es"
  by (induction rem es rule: overlapFit.induct) (auto simp: Let_def)

lemma overlapFit_tokens: "0 \<le> rem \<Longrightarrow> eventTokens (overlapFit rem es) \<le> rem"
  by (induction rem es rule: overlapFit.induct) (auto simp: Let_def)

lemma eventsThrough_prefix: "prefix (eventsThrough es n) es"
  by (simp add: eventsThrough_def takeWhile_is_prefix)

lemma eventsThrough_le: "0 < n \<Longrightarrow> e \<in> set (eventsThrough es n) \<Longrightarrow> ev_Sequence e \<le> n"
  by (auto simp: eventsThrough_def dest: set_takeWhileD)

text \<open>A non-empty prefix of a strictly increasing list is what lies below its last element.\<close>

lemma prefix_filter_le:
  fixes f :: "'a \<Rightarrow> 'b::linorder"
  assumes "sorted_wrt (\<lambda>x y. f x < f y) xs" and "prefix ps xs" and "ps \<noteq> []"
  shows "ps = filter (\<lambda>x. f x \<le> f (last ps)) xs"
proof -
  obtain qs where xs: "xs = ps @ qs" using assms(2) by (auto simp: prefix_def)
  have "f x \<le> f (last ps)" if "x \<in> set ps" for x
  proof (cases "x = last ps")
    case False
    from assms(3) have ps: "ps = butlast ps @ [last ps]" by simp
    with that False have "x \<in> set (butlast ps)"
      by (metis UnE empty_iff empty_set set_ConsD set_append)
    with ps assms(1) xs show ?thesis
      by (metis less_imp_le list.set_intros(1) sorted_wrt_append)
  qed simp
  moreover have "\<not> f x \<le> f (last ps)" if "x \<in> set qs" for x
    using assms(1,3) xs that by (auto simp: sorted_wrt_append not_le)
  ultimately show ?thesis by (simp add: xs filter_id_conv filter_empty_conv)
qed

section \<open>The laws of a repository, and what slicing guarantees over them\<close>

text \<open>
  \<open>stored r s a\<close> is the evidence stream of an agent session in sequence order and \<open>cursor r s a\<close>
  its extraction cursor.  A repository may fail; when it answers, these laws say what it answered.
  \<open>erase\<close> forgets the extraction time, the only field of stored evidence an operation changes.
\<close>

definition erase :: "session_event \<Rightarrow> session_event" where
  "erase e = e\<lparr>ev_ExtractedAt := None\<rparr>"

lemma erase_simps [simp]:
  "ev_ID (erase e) = ev_ID e" "ev_Sequence (erase e) = ev_Sequence e"
  "ev_Content (erase e) = ev_Content e" "ev_Actor (erase e) = ev_Actor e"
  by (simp_all add: erase_def)

locale lake_laws =
  fixes repo :: "'r lake_repository"
    and inv :: "'r \<Rightarrow> bool"
    and stored :: "'r \<Rightarrow> string \<Rightarrow> actor \<Rightarrow> session_event list"
    and cursor :: "'r \<Rightarrow> string \<Rightarrow> actor \<Rightarrow> int"
  assumes stored_sorted:
      "inv r \<Longrightarrow> sorted_wrt (\<lambda>x y. ev_Sequence x < ev_Sequence y) (stored r s a)"
    and cursor_nonneg: "inv r \<Longrightarrow> 0 \<le> cursor r s a"
    and read_events: "inv r \<Longrightarrow> SessionEvents repo r s a after limit = Inr es \<Longrightarrow>
      es = take (nat limit) (filter (\<lambda>e. after < ev_Sequence e) (stored r s a))"
    and read_before: "inv r \<Longrightarrow> SessionEventsBefore repo r s a lim_seq limit = Inr es \<Longrightarrow>
      suffix es (filter (\<lambda>e. ev_Sequence e \<le> lim_seq) (stored r s a)) \<and> int (length es) \<le> limit"
    and read_cursor: "inv r \<Longrightarrow> ExtractionCursor repo r s a = Inr c \<Longrightarrow> c = cursor r s a"
    and advance_inv: "inv r \<Longrightarrow> AdvanceExtractionCursor repo r s a c = (r', out) \<Longrightarrow> inv r'"
    and advance_ok: "inv r \<Longrightarrow> AdvanceExtractionCursor repo r s a c = (r', Inr u) \<Longrightarrow>
      cursor r' s a = max (cursor r s a) c"
    and advance_stored: "inv r \<Longrightarrow> AdvanceExtractionCursor repo r s a c = (r', out) \<Longrightarrow>
      map erase (stored r' t b) = map erase (stored r t b)"
    and advance_error: "inv r \<Longrightarrow> AdvanceExtractionCursor repo r s a c = (r', Inl e) \<Longrightarrow> r' = r"
begin

lemma NextSlice_cases:
  assumes "inv r" and "NextSlice repo r ctx a policy = Inr sl" and "ScopeFromContext ctx = Inr s"
  obtains (empty) "sl_Events sl = []" "sl_NewEventIDs sl = []"
  | (found) new overlap where
      "new \<noteq> []" "sl_Events sl = overlap @ new" "sl_NewEventIDs sl = eventIDs new"
      "sl_OverlapEventIDs sl = eventIDs overlap" "sl_Actor sl = a"
      "sl_FromSequence sl = ev_Sequence (hd new)" "sl_ToSequence sl = ev_Sequence (last new)"
      "sl_InputChecksum sl = checksum new"
      "prefix new (filter (\<lambda>e. cursor r s a < ev_Sequence e) (stored r s a))"
      "int (length new) \<le> EventLimit policy"
      "eventTokens new \<le> TokenLimit policy \<or> length new = 1"
      "\<forall>e \<in> set new. 0 < ThroughSequence policy \<longrightarrow> ev_Sequence e \<le> ThroughSequence policy"
      "suffix overlap (filter (\<lambda>e. ev_Sequence e \<le> cursor r s a) (stored r s a))"
      "overlap = [] \<or> eventTokens overlap + eventTokens new \<le> TokenLimit policy"
      "int (length overlap) \<le> Overlap policy"
proof -
  from assms(2,3) obtain c rd where lim: "0 < EventLimit policy" "0 \<le> Overlap policy"
    and c: "ExtractionCursor repo r s a = Inr c"
    and rd: "SessionEvents repo r s a c (EventLimit policy) = Inr rd"
    by (auto simp: NextSlice_def split: if_splits sum.splits)
  let ?through = "eventsThrough rd (ThroughSequence policy)"
  let ?new = "boundedEvents ?through (TokenLimit policy)"
  show thesis
  proof (cases "?through = []")
    case True
    with assms(2,3) c rd lim show thesis
      by (auto simp: NextSlice_def emptySlice_def Let_def split: if_splits intro: empty)
  next
    case False
    with assms(2,3) c rd lim obtain overlap where
      ov: "overlapEvents repo r s a c policy (eventTokens ?new) = Inr overlap" and
      sl: "sl = \<lparr>sl_Actor = a, sl_Events = overlap @ ?new, sl_NewEventIDs = eventIDs ?new,
          sl_OverlapEventIDs = eventIDs overlap, sl_FromSequence = ev_Sequence (hd ?new),
          sl_ToSequence = ev_Sequence (last ?new), sl_InputChecksum = checksum ?new\<rparr>"
      by (auto simp: NextSlice_def Let_def split: if_splits sum.splits)
    have cc: "c = cursor r s a" by (rule read_cursor [OF assms(1) c])
    have rdd: "rd = take (nat (EventLimit policy)) (filter (\<lambda>e. c < ev_Sequence e) (stored r s a))"
      by (rule read_events [OF assms(1) rd])
    have pre: "prefix ?new rd"
      using boundedEvents_prefix eventsThrough_prefix by (rule prefix_order.trans)
    have ne: "?new \<noteq> []" using False by (rule boundedEvents_nonempty)
    have "length rd \<le> nat (EventLimit policy)" using rdd by simp
    then have le: "int (length ?new) \<le> EventLimit policy"
      using prefix_length_le [OF pre] lim by linarith
    have tok: "eventTokens ?new \<le> TokenLimit policy \<or> length ?new = 1"
      using boundedEvents_tokens False by blast
    have thr: "\<forall>e \<in> set ?new. 0 < ThroughSequence policy \<longrightarrow> ev_Sequence e \<le> ThroughSequence policy"
      using eventsThrough_le set_mono_prefix [OF boundedEvents_prefix] by blast
    have ovl: "suffix overlap (filter (\<lambda>e. ev_Sequence e \<le> c) (stored r s a)) \<and>
        (overlap = [] \<or> eventTokens overlap + eventTokens ?new \<le> TokenLimit policy) \<and>
        int (length overlap) \<le> Overlap policy"
    proof (cases "overlap = []")
      case True
      with lim show ?thesis by simp
    next
      case ne_ov: False
      with ov obtain bs where bs: "SessionEventsBefore repo r s a c (Overlap policy) = Inr bs"
        and used: "eventTokens ?new < TokenLimit policy"
        and o: "overlap = rev (overlapFit (TokenLimit policy - eventTokens ?new) (rev bs))"
        by (auto simp: overlapEvents_def split: if_splits sum.splits)
      have fit: "eventTokens overlap \<le> TokenLimit policy - eventTokens ?new"
        using overlapFit_tokens [of "TokenLimit policy - eventTokens ?new" "rev bs"] used o by simp
      have "suffix overlap bs"
        using overlapFit_prefix o by (metis rev_rev_ident suffix_to_prefix)
      then show ?thesis
        using read_before [OF assms(1) bs] fit
        by (meson le_diff_eq of_nat_le_iff order_trans suffix_length_le suffix_order.trans)
    qed
    show thesis
    proof (rule found [of ?new overlap])
      show "prefix ?new (filter (\<lambda>e. cursor r s a < ev_Sequence e) (stored r s a))"
        using pre rdd cc by (metis prefix_order.trans take_is_prefix)
    qed (use ne le tok thr ovl sl cc in auto)
  qed
qed

text \<open>No gap: a non-empty slice holds every stored event between the cursor and its last sequence,
  in order, and its sequence bounds are those of its new events.\<close>

lemma NextSlice_no_gap:
  assumes "inv r" and "NextSlice repo r ctx a policy = Inr sl" and "ScopeFromContext ctx = Inr s"
    and "sl_Events sl \<noteq> []"
  shows "\<exists>new overlap. sl_Events sl = overlap @ new \<and> new \<noteq> [] \<and>
    sl_NewEventIDs sl = eventIDs new \<and> sl_OverlapEventIDs sl = eventIDs overlap \<and>
    new = filter (\<lambda>e. cursor r s a < ev_Sequence e \<and> ev_Sequence e \<le> sl_ToSequence sl) (stored r s a) \<and>
    suffix overlap (filter (\<lambda>e. ev_Sequence e \<le> cursor r s a) (stored r s a)) \<and>
    sl_FromSequence sl = ev_Sequence (hd new) \<and> sl_ToSequence sl = ev_Sequence (last new) \<and>
    cursor r s a < sl_ToSequence sl"
  using assms(1-3)
proof (cases rule: NextSlice_cases)
  case empty
  with assms(4) show ?thesis by simp
next
  case (found new overlap)
  have "sorted_wrt (\<lambda>x y. ev_Sequence x < ev_Sequence y)
      (filter (\<lambda>e. cursor r s a < ev_Sequence e) (stored r s a))"
    by (rule sorted_wrt_filter [OF stored_sorted [OF assms(1)]])
  from prefix_filter_le [OF this found(9,1)] found(7)
  have new: "new = filter (\<lambda>e. cursor r s a < ev_Sequence e \<and> ev_Sequence e \<le> sl_ToSequence sl)
      (stored r s a)"
    by (simp add: conj_commute)
  have "last new \<in> set new" using found(1) by simp
  then have "cursor r s a < ev_Sequence (last new)" by (subst (asm) new) simp
  then have "cursor r s a < sl_ToSequence sl" using found(7) by simp
  with found(1-7,13) new show ?thesis by blast
qed

lemma NextSlice_bounds:
  assumes "inv r" and "NextSlice repo r ctx a policy = Inr sl" and "ScopeFromContext ctx = Inr s"
    and "sl_Events sl \<noteq> []"
  shows "int (length (sl_NewEventIDs sl)) \<le> EventLimit policy \<and>
    int (length (sl_OverlapEventIDs sl)) \<le> Overlap policy \<and>
    (eventTokens (sl_Events sl) \<le> TokenLimit policy \<or> length (sl_Events sl) = 1) \<and>
    (0 < ThroughSequence policy \<longrightarrow> sl_ToSequence sl \<le> ThroughSequence policy)"
  using assms(1-3)
proof (cases rule: NextSlice_cases)
  case empty
  with assms(4) show ?thesis by simp
next
  case (found new overlap)
  then show ?thesis by (cases "overlap = []") (auto simp: eventIDs_def)
qed

text \<open>An empty slice means that nothing is left within the policy's range.\<close>

lemma NextSlice_empty:
  assumes "inv r" and "NextSlice repo r ctx a policy = Inr sl" and "ScopeFromContext ctx = Inr s"
    and "sl_NewEventIDs sl = []" and "e \<in> set (stored r s a)" and "cursor r s a < ev_Sequence e"
  shows "0 < ThroughSequence policy \<and> ThroughSequence policy < ev_Sequence e"
proof -
  from assms(2,3) obtain c rd where lim: "0 < EventLimit policy"
    and c: "ExtractionCursor repo r s a = Inr c"
    and rd: "SessionEvents repo r s a c (EventLimit policy) = Inr rd"
    by (auto simp: NextSlice_def split: if_splits sum.splits)
  let ?left = "filter (\<lambda>e. cursor r s a < ev_Sequence e) (stored r s a)"
  have rdd: "rd = take (nat (EventLimit policy)) ?left"
    using read_events [OF assms(1) rd] read_cursor [OF assms(1) c] by simp
  have through: "eventsThrough rd (ThroughSequence policy) = []"
  proof (rule ccontr)
    assume ne: "eventsThrough rd (ThroughSequence policy) \<noteq> []"
    with assms(2,3) c rd lim have "sl_NewEventIDs sl = eventIDs (boundedEvents (eventsThrough rd (ThroughSequence policy)) (TokenLimit policy))"
      by (auto simp: NextSlice_def Let_def split: if_splits sum.splits)
    with assms(4) boundedEvents_nonempty [OF ne] show False by (simp add: eventIDs_def)
  qed
  have ein: "e \<in> set ?left" using assms(5,6) by simp
  then obtain x xs where left: "?left = x # xs" by (cases ?left) auto
  with rdd lim obtain ys where rdx: "rd = x # ys" by (cases "nat (EventLimit policy)") auto
  with through have "0 < ThroughSequence policy" "ThroughSequence policy < ev_Sequence x"
    by (auto simp: eventsThrough_def split: if_splits)
  moreover have "sorted_wrt (\<lambda>x y. ev_Sequence x < ev_Sequence y) ?left"
    by (rule sorted_wrt_filter [OF stored_sorted [OF assms(1)]])
  then have "ev_Sequence x \<le> ev_Sequence e"
    using ein left by (auto simp: less_imp_le)
  ultimately show ?thesis by simp
qed

lemma CommitSlice_ok:
  assumes "inv r" and "ScopeFromContext ctx = Inr s" and "sl_Events sl \<noteq> []"
    and "CommitSlice repo r ctx sl = (r', Inr u)"
  shows "inv r' \<and> cursor r' s (sl_Actor sl) = max (cursor r s (sl_Actor sl)) (sl_ToSequence sl) \<and>
    map erase (stored r' t b) = map erase (stored r t b)"
proof -
  from assms(2-4) have adv: "AdvanceExtractionCursor repo r s (sl_Actor sl) (sl_ToSequence sl) = (r', Inr u)"
    by (auto simp: CommitSlice_def split: prod.splits sum.splits)
  show ?thesis
    using advance_inv [OF assms(1) adv] advance_ok [OF assms(1) adv] advance_stored [OF assms(1) adv] by simp
qed

lemma CommitSlice_error:
  assumes "inv r" and "CommitSlice repo r ctx sl = (r', Inl e)"
  shows "r' = r"
  using assms advance_error
  by (auto simp: CommitSlice_def split: if_splits prod.splits sum.splits)

text \<open>Committing a slice moves the cursor of its stream exactly to the slice's end.\<close>

lemma CommitSlice_cursor:
  assumes "inv r" and "NextSlice repo r ctx a policy = Inr sl" and "ScopeFromContext ctx = Inr s"
    and "sl_Events sl \<noteq> []" and "CommitSlice repo r ctx sl = (r', Inr u)"
  shows "inv r' \<and> cursor r' s a = sl_ToSequence sl \<and> cursor r s a < cursor r' s a \<and>
    map erase (stored r' t b) = map erase (stored r t b)"
proof -
  from NextSlice_no_gap [OF assms(1-4)] have gt: "cursor r s a < sl_ToSequence sl" by blast
  from assms(1-3) have act: "sl_Actor sl = a"
    by (cases rule: NextSlice_cases) (use assms(4) in auto)
  with assms(3-5) have adv: "AdvanceExtractionCursor repo r s a (sl_ToSequence sl) = (r', Inr u)"
    by (auto simp: CommitSlice_def split: prod.splits sum.splits)
  show ?thesis
    using advance_inv [OF assms(1) adv] advance_ok [OF assms(1) adv]
      advance_stored [OF assms(1) adv] gt by simp
qed

end

end
