(* ===== verification/Note_Types.thy ===== *)
theory Note_Types
  imports Session_Evidence
begin

text \<open>
  The data of the team note component: candidates, notes, extraction runs and recall requests
  (\<open>internal/teamnote/contracts.go\<close>, \<open>ledger.go\<close>, \<open>store.go\<close>), with the constants and sentinels they
  use.  Kinds, actions and states are strings in the code and stay strings here, because a caller
  may pass any string; durations are nanoseconds.
\<close>

section \<open>Sentinels and constants\<close>

definition ErrInvalidCandidate :: go_error where
  "ErrInvalidCandidate = Sentinel ''invalid note candidate''"
definition ErrMissingEvidence :: go_error where
  "ErrMissingEvidence = Sentinel ''candidate evidence is missing''"
definition ErrNoteNotFound :: go_error where
  "ErrNoteNotFound = Sentinel ''team note not found''"
definition ErrInvalidRecall :: go_error where
  "ErrInvalidRecall = Sentinel ''invalid recall request''"
definition ErrExtractionRunConflict :: go_error where
  "ErrExtractionRunConflict = Sentinel ''extraction run conflicts with durable result''"
definition ErrDestructiveRevision :: go_error where
  "ErrDestructiveRevision = Sentinel ''revision drops protected qualifiers without source authority''"
definition ErrExtractionRunQuarantined :: go_error where
  "ErrExtractionRunQuarantined = Sentinel ''extraction run quarantined''"

lemmas note_sentinels =
  ErrInvalidCandidate_def ErrMissingEvidence_def ErrNoteNotFound_def ErrInvalidRecall_def
  ErrExtractionRunConflict_def ErrDestructiveRevision_def ErrExtractionRunQuarantined_def

definition KindStatus :: string where "KindStatus = ''status''"
definition KindBlocker :: string where "KindBlocker = ''blocker''"
definition KindHandoff :: string where "KindHandoff = ''handoff''"
definition KindArtifactReference :: string where "KindArtifactReference = ''artifact_reference''"
definition KindSourceSpan :: string where "KindSourceSpan = ''source_span''"

definition ActionCreate :: string where "ActionCreate = ''create''"
definition ActionUpdate :: string where "ActionUpdate = ''update''"
definition ActionResolve :: string where "ActionResolve = ''resolve''"

definition StateActive :: string where "StateActive = ''active''"
definition StateResolved :: string where "StateResolved = ''resolved''"
definition StateExpired :: string where "StateExpired = ''expired''"

lemmas note_states = StateActive_def StateResolved_def StateExpired_def
lemmas note_kinds = KindStatus_def KindBlocker_def KindHandoff_def KindArtifactReference_def KindSourceSpan_def

section \<open>Candidates and notes\<close>

record candidate =
  cn_ID :: string
  cn_Action :: string
  cn_Kind :: string
  cn_Subject :: string
  cn_IdentityRef :: string
  cn_Body :: string
  cn_TaskRef :: string
  cn_ThreadRef :: string
  cn_Origin :: actor
  cn_AudienceAgentIDs :: "string list"
  cn_RelatedSubjects :: "string list"
  cn_EvidenceEventIDs :: "string list"
  cn_ValidAt :: "time option"
  cn_InvalidAt :: "time option"
  cn_SourceOccurredAt :: time

record team_note =
  nt_ID :: string
  nt_Key :: string
  nt_Kind :: string
  nt_Subject :: string
  nt_Body :: string
  nt_TaskRef :: string
  nt_ThreadRef :: string
  nt_Origin :: actor
  nt_AudienceAgentIDs :: "string list"
  nt_RelatedSubjects :: "string list"
  nt_EvidenceEventIDs :: "string list"
  nt_State :: string
  nt_Revision :: int
  nt_CreatedAt :: time
  nt_UpdatedAt :: time
  nt_SoftExpiresAt :: time
  nt_HardExpiresAt :: time
  nt_ValidAt :: "time option"
  nt_InvalidAt :: "time option"
  nt_SourceOccurredAt :: time

record lease_policy =
  SoftTTL :: int
  HardTTL :: int

type_synonym ttl_policy = "(string, lease_policy) gomap"

definition hours :: "int \<Rightarrow> int" where
  "hours n = n * 3600 * 1000000000"

definition DefaultTTLPolicy :: ttl_policy where
  "DefaultTTLPolicy =
     [(KindStatus, \<lparr>SoftTTL = hours 24, HardTTL = 7 * hours 24\<rparr>),
      (KindBlocker, \<lparr>SoftTTL = hours 48, HardTTL = 14 * hours 24\<rparr>),
      (KindHandoff, \<lparr>SoftTTL = hours 72, HardTTL = 14 * hours 24\<rparr>),
      (KindArtifactReference, \<lparr>SoftTTL = 7 * hours 24, HardTTL = 30 * hours 24\<rparr>),
      (KindSourceSpan, \<lparr>SoftTTL = 7 * hours 24, HardTTL = 30 * hours 24\<rparr>)]"

section \<open>Extraction runs\<close>

record transition_clause =
  tc_EventID :: string
  tc_Quote :: string

record transition_authority =
  ta_CandidateID :: string
  ta_PriorStateRef :: string
  ta_EvidenceClauses :: "transition_clause list"
  ta_ReasonCodes :: "string list"

record candidate_rejection =
  rj_Candidate :: candidate
  rj_Reason :: string

record extraction_run =
  run_ID :: string
  run_Actor :: actor
  run_FromSequence :: int
  run_ToSequence :: int
  run_InputChecksum :: string
  run_CandidateChecksum :: string
  run_Model :: string
  run_PromptVersion :: string
  run_InputTokens :: int
  run_OutputTokens :: int
  run_Candidates :: "candidate list"
  run_TransitionAuthorities :: "transition_authority list"
  run_Evidence :: "session_event list"
  run_Rejections :: "candidate_rejection list"

definition zeroActor :: actor where
  "zeroActor = \<lparr>UserID = [], AgentID = [], SessionID = []\<rparr>"

section \<open>Recall requests\<close>

record recall_request =
  rq_Actor :: actor
  rq_TaskRef :: string
  rq_ThreadRef :: string
  rq_TokenBudget :: int
  rq_Query :: string
  rq_MaxItems :: int

text \<open>\<open>mergeStrings\<close>: the values of both lists in order, each once.\<close>

definition mergeStrings :: "string list \<Rightarrow> string list \<Rightarrow> string list" where
  "mergeStrings left right = dedup_from [] (left @ right)"

lemma set_mergeStrings [simp]: "set (mergeStrings left right) = set left \<union> set right"
  by (simp add: mergeStrings_def)

lemma distinct_mergeStrings [simp]: "distinct (mergeStrings left right)"
  by (simp add: mergeStrings_def)

end
