(* ===== verification/Revision_Admission.thy ===== *)
theory Revision_Admission
  imports Note_Types
begin

text \<open>
  Admission of revisions (\<open>internal/teamnote/revision_admission.go\<close>): a revision of a note may drop
  a protected clause of the previous body only when an exact quote of cited evidence announces the
  change.  The clauses are found by regular expressions, so this theory first models the part of
  \<open>regexp\<close> the patterns use: leftmost-first matching, case folding of ASCII letters and
  ASCII word boundaries.
\<close>

section \<open>Regular expressions\<close>

datatype regex =
    OneOf string
  | NoneOf string
  | WordB
  | Eps
  | Seq regex regex
  | Alt regex regex
  | Star regex

text \<open>A position: the byte before it, if there is one, and the text after it.\<close>

type_synonym position = "char option \<times> string"

definition word_char :: "char \<Rightarrow> bool" where
  "word_char c \<longleftrightarrow> ascii_letter (lower_char c) \<or> ascii_digit c \<or> c = CHR ''_''"

definition at_boundary :: "position \<Rightarrow> bool" where
  "at_boundary pos \<longleftrightarrow>
     (case fst pos of None \<Rightarrow> False | Some c \<Rightarrow> word_char c) \<noteq>
     (case snd pos of [] \<Rightarrow> False | c # _ \<Rightarrow> word_char c)"

definition step_char :: "(char \<Rightarrow> bool) \<Rightarrow> position \<Rightarrow> position list" where
  "step_char ok pos = (case snd pos of [] \<Rightarrow> [] | c # s \<Rightarrow> if ok c then [(Some c, s)] else [])"

text \<open>Greedy repetition; an iteration that consumes nothing ends it.\<close>

fun star_ends :: "(position \<Rightarrow> position list) \<Rightarrow> nat \<Rightarrow> position \<Rightarrow> position list" where
  "star_ends f 0 pos = [pos]"
| "star_ends f (Suc n) pos =
     concat (map (star_ends f n) (filter (\<lambda>p. length (snd p) < length (snd pos)) (f pos))) @ [pos]"

text \<open>The ends of the matches of an expression at a position, in order of preference.\<close>

primrec ends :: "regex \<Rightarrow> position \<Rightarrow> position list" where
  "ends (OneOf cs) pos = step_char (\<lambda>c. c \<in> set cs) pos"
| "ends (NoneOf cs) pos = step_char (\<lambda>c. c \<notin> set cs) pos"
| "ends WordB pos = (if at_boundary pos then [pos] else [])"
| "ends Eps pos = [pos]"
| "ends (Seq r q) pos = concat (map (ends q) (ends r pos))"
| "ends (Alt r q) pos = ends r pos @ ends q pos"
| "ends (Star r) pos = star_ends (ends r) (length (snd pos)) pos"

text \<open>\<open>FindAllString\<close>: the preferred match at the leftmost position, then on from its end.  A position
  without a non-empty match is passed over.\<close>

function findAll :: "regex \<Rightarrow> position \<Rightarrow> string list" where
  "findAll r pos =
     (case snd pos of
        [] \<Rightarrow> []
      | c # s \<Rightarrow>
          (case ends r pos of
             [] \<Rightarrow> findAll r (Some c, s)
           | e # _ \<Rightarrow>
               if length (snd e) < length (snd pos)
               then take (length (snd pos) - length (snd e)) (snd pos) # findAll r e
               else findAll r (Some c, s)))"
  by pat_completeness auto
termination
  by (relation "measure (\<lambda>(r, pos). length (snd pos))") auto

declare findAll.simps [simp del]

definition FindAllString :: "regex \<Rightarrow> string \<Rightarrow> string list" where
  "FindAllString r s = findAll r (None, s)"

text \<open>\<open>MatchString\<close>: some position, the end of the text included, has a match.\<close>

fun matchFrom :: "regex \<Rightarrow> char option \<Rightarrow> string \<Rightarrow> bool" where
  "matchFrom r p [] = (ends r (p, []) \<noteq> [])"
| "matchFrom r p (c # s) = (ends r (p, c # s) \<noteq> [] \<or> matchFrom r (Some c) s)"

definition MatchString :: "regex \<Rightarrow> string \<Rightarrow> bool" where
  "MatchString r s = matchFrom r None s"

section \<open>The patterns\<close>

definition upper_char :: "char \<Rightarrow> char" where
  "upper_char c = (if ascii_letter c then char_of (of_char c - (32 :: nat)) else c)"

lemma upper_char_code [code]:
  "upper_char (Char b0 b1 b2 b3 b4 b5 b6 b7) =
     Char b0 b1 b2 b3 b4 (b5 \<and> \<not> (\<not> b7 \<and> b6 \<and> letter_bits b0 b1 b2 b3 b4)) b6 b7"
  by (cases b0; cases b1; cases b2; cases b3; cases b4; cases b5; cases b6; cases b7;
      simp add: upper_char_def ascii_letter_code letter_bits_def char_of_def bit_0)

definition fold_char :: "char \<Rightarrow> regex" where
  "fold_char c = OneOf [c, upper_char c]"

definition lit :: "string \<Rightarrow> regex" where
  "lit s = foldr (\<lambda>c r. Seq (fold_char c) r) s Eps"

definition opt :: "regex \<Rightarrow> regex" where
  "opt r = Alt r Eps"

definition plus :: "regex \<Rightarrow> regex" where
  "plus r = Seq r (Star r)"

fun alts :: "regex list \<Rightarrow> regex" where
  "alts [] = Eps"
| "alts [r] = r"
| "alts (r # q # rs) = Alt r (alts (q # rs))"

fun seqs :: "regex list \<Rightarrow> regex" where
  "seqs [] = Eps"
| "seqs (r # rs) = Seq r (seqs rs)"

definition digits :: string where "digits = ''0123456789''"
definition lowers :: string where "lowers = ''abcdefghijklmnopqrstuvwxyz''"

definition rx_digit :: regex where "rx_digit = OneOf digits"
definition rx_space :: regex where "rx_space = OneOf [CHR 0x09, CHR 0x0A, CHR 0x0C, CHR 0x0D, CHR 0x20]"
definition rx_name :: regex where
  "rx_name = plus (OneOf (lowers @ map upper_char lowers @ digits @ ''_-''))"

definition protectedQualifierPattern :: regex where
  "protectedQualifierPattern = seqs
     [WordB,
      alts (map lit [''if'', ''unless'', ''until'', ''only after'', ''only when'', ''except'', ''pending'',
        ''subject to'', ''must'', ''may'', ''cannot'', ''can'' @ [CHR 0x27] @ ''t'', ''not'', ''never'',
        ''no longer'']),
      WordB, Star (NoneOf [CHR ''.'', CHR '';'', CHR 0x0A])]"

definition protectedValuePattern :: regex where
  "protectedValuePattern = seqs
     [WordB,
      alts (seqs [plus rx_digit, Star (Seq (OneOf ''./:-'') (plus rx_digit))] #
        map lit [''january'', ''february'', ''march'', ''april'', ''may'', ''june'', ''july'', ''august'',
          ''september'', ''october'', ''november'', ''december'', ''monday'', ''tuesday'', ''wednesday'',
          ''thursday'', ''friday'', ''saturday'', ''sunday'', ''today'', ''tomorrow'', ''eod'']),
      WordB]"

definition protectedRolePattern :: regex where
  "protectedRolePattern = seqs
     [WordB,
      alts
        [seqs [rx_name, plus rx_space, lit ''own'', opt (lit ''s'')],
         seqs [lit ''owner'', plus rx_space, alts [lit ''is'', lit '':''], Star rx_space, rx_name],
         seqs [rx_name, plus rx_space, opt (seqs [lit ''is'', plus rx_space]),
           alts [lit ''responsible'', lit ''assigned'', lit ''designated'']]],
      WordB]"

definition explicitTransitionPattern :: regex where
  "explicitTransitionPattern = seqs
     [WordB,
      alts
        [seqs [lit ''change'', opt (lit ''d'')], seqs [lit ''update'', opt (lit ''d'')],
         seqs [lit ''move'', opt (lit ''d'')], seqs [lit ''replace'', opt (lit ''d'')],
         lit ''instead'', lit ''no longer'', lit ''from'', lit ''now'',
         seqs [lit ''remove'', opt (lit ''d'')], seqs [lit ''cancelle'', opt (lit ''d'')],
         seqs [lit ''supersede'', opt (lit ''d'')]],
      WordB]"

section \<open>Revision admission\<close>

definition normalizeRevisionText :: "string \<Rightarrow> string" where
  "normalizeRevisionText value = to_lower (join '' '' (string_fields (trim_space value)))"

definition containsNormalized :: "string \<Rightarrow> string \<Rightarrow> bool" where
  "containsNormalized body fragment = contains (normalizeRevisionText body) fragment"

definition revisionStopWords :: "string list" where
  "revisionStopWords =
     [''if'', ''unless'', ''until'', ''only'', ''when'', ''after'', ''before'', ''except'', ''pending'',
      ''subject'', ''to'', ''must'', ''may'', ''not'', ''never'', ''no'', ''longer'', ''is'', ''the'', ''a'', ''an'']"

definition revisionAuthorityAnchors :: "string \<Rightarrow> string list" where
  "revisionAuthorityAnchors value =
     filter (\<lambda>term. term \<notin> set revisionStopWords)
       (fields_func (\<lambda>c. \<not> ascii_letter c \<and> \<not> ascii_digit c) value)"

definition protectedClauses :: "string \<Rightarrow> string list" where
  "protectedClauses body =
     mergeStrings [] (filter (\<lambda>n. n \<noteq> []) (map normalizeRevisionText
       (FindAllString protectedQualifierPattern body @ FindAllString protectedValuePattern body @
        FindAllString protectedRolePattern body)))"

definition clauseReplaces :: "string \<Rightarrow> transition_clause \<Rightarrow> bool" where
  "clauseReplaces protected clause =
     (let normalized = normalizeRevisionText (tc_Quote clause) in
      MatchString explicitTransitionPattern normalized \<and>
      (MatchString protectedValuePattern protected \<and> contains normalized protected \<or>
       list_all (\<lambda>term. contains ('' '' @ normalized @ '' '') ('' '' @ term @ '' ''))
         (revisionAuthorityAnchors protected)))"

definition authorityReplacesClause :: "transition_authority \<Rightarrow> string \<Rightarrow> bool" where
  "authorityReplacesClause authority protected =
     (revisionAuthorityAnchors protected \<noteq> [] \<and>
      list_ex (clauseReplaces protected) (ta_EvidenceClauses authority))"

text \<open>The map from event identifiers: a later event with the same identifier replaces an earlier one.\<close>

definition eventsByID :: "session_event list \<Rightarrow> string \<Rightarrow> session_event option" where
  "eventsByID evidence eid = map_of (rev (map (\<lambda>e. (ev_ID e, e)) evidence)) eid"

definition validateClause :: "candidate \<Rightarrow> session_event list \<Rightarrow> transition_clause \<Rightarrow> unit res" where
  "validateClause cand evidence clause =
     (if blank (tc_EventID clause) \<or> blank (tc_Quote clause)
      then Inl (wrapf ''transition authority clause: '' ErrInvalidCandidate)
      else if (case eventsByID evidence (tc_EventID clause) of
                 None \<Rightarrow> True
               | Some event \<Rightarrow> tc_EventID clause \<notin> set (cn_EvidenceEventIDs cand) \<or>
                   \<not> contains (ev_Content event) (tc_Quote clause))
      then Inl (wrapf (''transition authority clause '' @ quote (tc_EventID clause) @
             '' is not exact cited evidence: '') ErrInvalidCandidate)
      else Inr ())"

primrec validateClauses :: "candidate \<Rightarrow> session_event list \<Rightarrow> transition_clause list \<Rightarrow> unit res" where
  "validateClauses cand evidence [] = Inr ()"
| "validateClauses cand evidence (clause # clauses) =
     (case validateClause cand evidence clause of
        Inl e \<Rightarrow> Inl e | Inr _ \<Rightarrow> validateClauses cand evidence clauses)"

definition validateTransitionAuthority ::
  "candidate \<Rightarrow> session_event list \<Rightarrow> transition_authority \<Rightarrow> unit res" where
  "validateTransitionAuthority cand evidence authority =
     validateClauses cand evidence (ta_EvidenceClauses authority)"

primrec checkClauses :: "string \<Rightarrow> transition_authority \<Rightarrow> string list \<Rightarrow> unit res" where
  "checkClauses nxt authority [] = Inr ()"
| "checkClauses nxt authority (clause # clauses) =
     (if containsNormalized nxt clause \<or> authorityReplacesClause authority clause
      then checkClauses nxt authority clauses
      else Inl (wrapf (''dropped qualifier '' @ quote clause @ '': '') ErrDestructiveRevision))"

definition validateRevisionQualifiers ::
  "string \<Rightarrow> string \<Rightarrow> candidate \<Rightarrow> session_event list \<Rightarrow> transition_authority \<Rightarrow> unit res" where
  "validateRevisionQualifiers previous nxt cand evidence authority =
     (case validateTransitionAuthority cand evidence authority of
        Inl e \<Rightarrow> Inl e
      | Inr _ \<Rightarrow> checkClauses nxt authority (protectedClauses previous))"

section \<open>The matcher against the meaning of the expressions\<close>

inductive rmatch :: "regex \<Rightarrow> position \<Rightarrow> position \<Rightarrow> bool" where
  one_of: "c \<in> set cs \<Longrightarrow> rmatch (OneOf cs) (p, c # s) (Some c, s)"
| none_of: "c \<notin> set cs \<Longrightarrow> rmatch (NoneOf cs) (p, c # s) (Some c, s)"
| boundary: "at_boundary pos \<Longrightarrow> rmatch WordB pos pos"
| eps: "rmatch Eps pos pos"
| seq: "rmatch r pos mid \<Longrightarrow> rmatch q mid pos' \<Longrightarrow> rmatch (Seq r q) pos pos'"
| alt1: "rmatch r pos pos' \<Longrightarrow> rmatch (Alt r q) pos pos'"
| alt2: "rmatch q pos pos' \<Longrightarrow> rmatch (Alt r q) pos pos'"
| star0: "rmatch (Star r) pos pos"
| star: "rmatch r pos mid \<Longrightarrow> length (snd mid) < length (snd pos) \<Longrightarrow> rmatch (Star r) mid pos' \<Longrightarrow>
    rmatch (Star r) pos pos'"

inductive_cases rmatch_OneOf: "rmatch (OneOf cs) pos pos'"
inductive_cases rmatch_NoneOf: "rmatch (NoneOf cs) pos pos'"
inductive_cases rmatch_WordB: "rmatch WordB pos pos'"
inductive_cases rmatch_Eps: "rmatch Eps pos pos'"
inductive_cases rmatch_Seq: "rmatch (Seq r q) pos pos'"
inductive_cases rmatch_Alt: "rmatch (Alt r q) pos pos'"
inductive_cases rmatch_Star: "rmatch (Star r) pos pos'"

lemma star_ends_sound:
  "(\<And>p q. q \<in> set (ends r p) \<Longrightarrow> rmatch r p q) \<Longrightarrow> pos' \<in> set (star_ends (ends r) n pos) \<Longrightarrow>
     rmatch (Star r) pos pos'"
proof (induction n arbitrary: pos)
  case (Suc n)
  from Suc.prems(2) consider "pos' = pos"
    | mid where "mid \<in> set (ends r pos)" "length (snd mid) < length (snd pos)"
        "pos' \<in> set (star_ends (ends r) n mid)" by (auto simp del: split_paired_All split_paired_Ex)
  then show ?case
  proof cases
    case 2
    with Suc.IH [OF Suc.prems(1)] Suc.prems(1) show ?thesis by (blast intro: rmatch.star)
  qed (auto intro: rmatch.star0)
qed (auto intro: rmatch.star0)

lemma ends_sound: "pos' \<in> set (ends r pos) \<Longrightarrow> rmatch r pos pos'"
proof (induction r arbitrary: pos pos')
  case (OneOf cs)
  then show ?case
    by (cases pos) (auto simp: step_char_def intro: rmatch.intros split: list.splits if_splits)
next
  case (NoneOf cs)
  then show ?case
    by (cases pos) (auto simp: step_char_def intro: rmatch.intros split: list.splits if_splits)
next
  case (Seq r q)
  then show ?case by (simp del: split_paired_All split_paired_Ex) (blast intro: rmatch.seq)
next
  case (Star r)
  show ?case by (rule star_ends_sound [of r]) (use Star in auto)
qed (auto intro: rmatch.intros split: if_splits)

lemma star_ends_complete:
  assumes "rmatch (Star r) pos pos'" and "\<And>p q. rmatch r p q \<Longrightarrow> q \<in> set (ends r p)"
    and "length (snd pos) \<le> n"
  shows "pos' \<in> set (star_ends (ends r) n pos)"
  using assms(1,3)
proof (induction n arbitrary: pos)
  case 0
  from "0.prems"(1) show ?case by (rule rmatch_Star) (use "0.prems"(2) in auto)
next
  case (Suc n)
  from Suc.prems(1) show ?case
  proof (rule rmatch_Star)
    fix mid
    assume "rmatch r pos mid" and "length (snd mid) < length (snd pos)" and "rmatch (Star r) mid pos'"
    moreover from this Suc.prems(2) have "length (snd mid) \<le> n" by simp
    ultimately show ?thesis
      using Suc.IH [of mid] assms(2) [of pos mid] by (simp del: split_paired_All split_paired_Ex) blast
  qed simp
qed

lemma ends_complete: "rmatch r pos pos' \<Longrightarrow> pos' \<in> set (ends r pos)"
proof (induction r arbitrary: pos pos')
  case (Star r)
  show ?case
    by (simp, rule star_ends_complete [OF Star.prems]) (use Star.IH in auto)
qed (fastforce simp: step_char_def elim: rmatch_OneOf rmatch_NoneOf rmatch_WordB rmatch_Eps rmatch_Seq rmatch_Alt)+

lemma set_ends: "set (ends r pos) = {pos'. rmatch r pos pos'}"
  using ends_sound ends_complete by blast

section \<open>What admission of a revision guarantees\<close>

definition exact_quote :: "candidate \<Rightarrow> session_event list \<Rightarrow> transition_clause \<Rightarrow> bool" where
  "exact_quote cand evidence clause \<longleftrightarrow>
     \<not> blank (tc_EventID clause) \<and> \<not> blank (tc_Quote clause) \<and>
     tc_EventID clause \<in> set (cn_EvidenceEventIDs cand) \<and>
     (\<exists>e before after. eventsByID evidence (tc_EventID clause) = Some e \<and>
        ev_Content e = before @ tc_Quote clause @ after)"

lemma validateClause_ok: "validateClause cand evidence clause = Inr () \<longleftrightarrow> exact_quote cand evidence clause"
  by (auto simp: validateClause_def exact_quote_def contains_iff split: option.splits)

lemma validateClauses_ok:
  "validateClauses cand evidence clauses = Inr () \<longleftrightarrow> (\<forall>c \<in> set clauses. exact_quote cand evidence c)"
  by (induction clauses) (auto simp: validateClause_ok [symmetric] split: sum.splits)

lemma validateClauses_error:
  "validateClauses cand evidence clauses = Inl e \<Longrightarrow> errors_is e ErrInvalidCandidate"
  by (induction clauses)
    (auto simp: validateClause_def note_sentinels split: sum.splits if_splits option.splits)

lemma checkClauses_ok:
  "checkClauses nxt authority clauses = Inr () \<longleftrightarrow>
     (\<forall>c \<in> set clauses. containsNormalized nxt c \<or> authorityReplacesClause authority c)"
  by (induction clauses) auto

lemma checkClauses_error:
  "checkClauses nxt authority clauses = Inl e \<Longrightarrow> errors_is e ErrDestructiveRevision"
  by (induction clauses) (auto simp: note_sentinels split: if_splits)

lemma validateRevisionQualifiers_error:
  "validateRevisionQualifiers previous nxt cand evidence authority = Inl e \<Longrightarrow>
     errors_is e ErrInvalidCandidate \<or> errors_is e ErrDestructiveRevision"
  by (auto simp: validateRevisionQualifiers_def validateTransitionAuthority_def
      dest: validateClauses_error checkClauses_error split: sum.splits)

text \<open>A revision is admitted exactly when every authority clause quotes cited evidence verbatim and
  every protected clause of the previous body (a qualifier, a value or date, a role) either still
  occurs in the new body or is replaced by a quote that announces a transition and names it.\<close>

theorem revision_admitted_iff:
  "validateRevisionQualifiers previous nxt cand evidence authority = Inr () \<longleftrightarrow>
     (\<forall>q \<in> set (ta_EvidenceClauses authority). exact_quote cand evidence q) \<and>
     (\<forall>c \<in> set (protectedClauses previous).
        contains (normalizeRevisionText nxt) c \<or>
        (revisionAuthorityAnchors c \<noteq> [] \<and>
         (\<exists>q \<in> set (ta_EvidenceClauses authority). clauseReplaces c q)))"
proof -
  have "validateRevisionQualifiers previous nxt cand evidence authority = Inr () \<longleftrightarrow>
      validateClauses cand evidence (ta_EvidenceClauses authority) = Inr () \<and>
      checkClauses nxt authority (protectedClauses previous) = Inr ()"
    by (auto simp: validateRevisionQualifiers_def validateTransitionAuthority_def split: sum.splits)
  then show ?thesis
    by (simp add: validateClauses_ok checkClauses_ok containsNormalized_def
        authorityReplacesClause_def list_ex_iff)
qed

text \<open>A date moved with the authority of a quoted message, and the same revision without it.\<close>

definition moved_event :: session_event where
  "moved_event = \<lparr>ev_ID = ''e9'', ev_Actor = \<lparr>UserID = ''u'', AgentID = ''a'', SessionID = ''s''\<rparr>,
     ev_Sequence = 9, ev_Type = ''message'', ev_Content = ''FYI: moved from Friday to Monday.'', ev_TaskRef = [],
     ev_ThreadRef = [], ev_Visibility = [], ev_OccurredAt = 50, ev_CapturedAt = 50,
     ev_ExtractedAt = None, ev_Metadata = []\<rparr>"

definition moved_candidate :: candidate where
  "moved_candidate = \<lparr>cn_ID = ''c9'', cn_Action = ActionUpdate, cn_Kind = KindStatus, cn_Subject = ''release'',
     cn_IdentityRef = [], cn_Body = ''Release on Monday'', cn_TaskRef = [], cn_ThreadRef = [],
     cn_Origin = \<lparr>UserID = ''u'', AgentID = ''a'', SessionID = ''s''\<rparr>, cn_AudienceAgentIDs = [],
     cn_RelatedSubjects = [], cn_EvidenceEventIDs = [''e9''], cn_ValidAt = None, cn_InvalidAt = None,
     cn_SourceOccurredAt = 0\<rparr>"

definition moved_authority :: "string \<Rightarrow> transition_authority" where
  "moved_authority q = \<lparr>ta_CandidateID = ''c9'', ta_PriorStateRef = [],
     ta_EvidenceClauses = [\<lparr>tc_EventID = ''e9'', tc_Quote = q\<rparr>], ta_ReasonCodes = []\<rparr>"

theorem revision_admitted_iff_witness:
  "validateRevisionQualifiers ''Friday'' ''Monday'' moved_candidate [moved_event]
     (moved_authority ''from Friday'') = Inr () \<and>
   validateRevisionQualifiers ''Friday'' ''Monday'' moved_candidate [moved_event]
     (moved_authority ''to'') \<noteq> Inr ()"
proof -
  have no: "\<not> contains (normalizeRevisionText ''Monday'') ''friday''" by code_simp
  have bad: "\<not> clauseReplaces ''friday'' \<lparr>tc_EventID = ''e9'', tc_Quote = ''to''\<rparr>" by code_simp
  have good: "clauseReplaces ''friday'' \<lparr>tc_EventID = ''e9'', tc_Quote = ''from Friday''\<rparr>" by code_simp
  have clauses: "protectedClauses ''Friday'' = [''friday'']" by code_simp
  have anchors: "revisionAuthorityAnchors ''friday'' = [''friday'']" by code_simp
  have "validateClause moved_candidate [moved_event] \<lparr>tc_EventID = ''e9'', tc_Quote = ''from Friday''\<rparr> =
      Inr ()" by code_simp
  then show ?thesis
    unfolding revision_admitted_iff clauses validateClause_ok
    using no bad good anchors by (simp add: moved_authority_def)
qed

end
