(* ===== verification/Note_Ledger.thy ===== *)
theory Note_Ledger
  imports Revision_Admission Go_Crypto
begin

text \<open>
  The ledger of team notes (\<open>internal/teamnote/ledger.go\<close>, \<open>extraction_run.go\<close>, \<open>store.go\<close>):
  deterministic admission of candidates, the atomic and replayable application of an extraction
  run, expiry and eligibility for recall, and the store that keeps one ledger per scope.

  The clock of a ledger is a sequence of readings, one per call.  \<open>marshal\<close> stands for the JSON
  encoding of a candidate batch, from which its checksum is computed; every theorem holds for every
  encoding.  Copying a note (\<open>cloneNote\<close>) is the identity on values.
\<close>

section \<open>Candidates\<close>

definition identityOf :: "candidate \<Rightarrow> string" where
  "identityOf cand =
     (let identityRef = trim_space (cn_IdentityRef cand) in
      if identityRef \<noteq> [] then identityRef
      else if cn_Kind cand = KindBlocker \<or> cn_Kind cand = KindArtifactReference
      then join '' '' (string_fields (to_lower (cn_Subject cand)))
      else cn_Subject cand)"

definition CanonicalKey :: "candidate \<Rightarrow> string" where
  "CanonicalKey cand =
     netstring (cn_TaskRef cand) @ netstring (cn_ThreadRef cand) @ netstring (cn_Kind cand) @
     netstring (identityOf cand) @
     (if trim_space (cn_IdentityRef cand) = [] \<and> (cn_Kind cand = KindStatus \<or> cn_Kind cand = KindHandoff)
      then netstring (AgentID (cn_Origin cand)) else [])"

fun normalizeFrom :: "string \<Rightarrow> string list \<Rightarrow> string list \<Rightarrow> string list" where
  "normalizeFrom subject seen [] = []"
| "normalizeFrom subject seen (v # vs) =
     (let value = trim_space v; key = to_lower value in
      if value = [] \<or> equal_fold value subject then normalizeFrom subject seen vs
      else if key \<in> set seen then normalizeFrom subject seen vs
      else value # normalizeFrom subject (key # seen) vs)"

definition normalizeSubjects :: "string \<Rightarrow> string list \<Rightarrow> string list" where
  "normalizeSubjects subject related = normalizeFrom subject [] related"

definition validateCandidate :: "candidate \<Rightarrow> ttl_policy \<Rightarrow> unit res" where
  "validateCandidate cand policy =
     (if blank (cn_ID cand) \<or> blank (cn_Subject cand)
      then Inl (wrapf ''candidate identity: '' ErrInvalidCandidate)
      else if blank (UserID (cn_Origin cand)) \<or> blank (AgentID (cn_Origin cand)) \<or>
              blank (SessionID (cn_Origin cand))
      then Inl (wrapf ''candidate origin: '' ErrInvalidCandidate)
      else if mget policy (cn_Kind cand) = None
      then Inl (wrapf (''candidate kind '' @ quote (cn_Kind cand) @ '': '') ErrInvalidCandidate)
      else if cn_Action cand \<noteq> ActionCreate \<and> cn_Action cand \<noteq> ActionUpdate \<and> cn_Action cand \<noteq> ActionResolve
      then Inl (wrapf (''candidate action '' @ quote (cn_Action cand) @ '': '') ErrInvalidCandidate)
      else if cn_Action cand \<noteq> ActionResolve \<and> blank (cn_Body cand)
      then Inl (wrapf ''candidate body: '' ErrInvalidCandidate)
      else if (case (cn_ValidAt cand, cn_InvalidAt cand) of (Some v, Some i) \<Rightarrow> i < v | _ \<Rightarrow> False)
      then Inl (wrapf ''candidate validity window: '' ErrInvalidCandidate)
      else Inr ())"

definition ValidateCandidate :: "candidate \<Rightarrow> ttl_policy \<Rightarrow> unit res" where
  "ValidateCandidate cand policy = validateCandidate cand policy"

definition evidenceVisible :: "string \<Rightarrow> bool" where
  "evidenceVisible visibility \<longleftrightarrow>
     trim_space (to_lower visibility) \<in> {[], ''team_note_eligible'', ''team_visible''}"

definition evidenceSupports :: "candidate \<Rightarrow> session_event \<Rightarrow> bool" where
  "evidenceSupports cand event \<longleftrightarrow> ev_Actor event = cn_Origin cand \<and>
     evidenceVisible (ev_Visibility event) \<and> ev_TaskRef event = cn_TaskRef cand \<and>
     ev_ThreadRef event = cn_ThreadRef cand"

primrec validateEvidenceIDs :: "candidate \<Rightarrow> session_event list \<Rightarrow> string list \<Rightarrow> unit res" where
  "validateEvidenceIDs cand events [] = Inr ()"
| "validateEvidenceIDs cand events (eid # ids) =
     (if (case eventsByID events eid of None \<Rightarrow> True | Some event \<Rightarrow> \<not> evidenceSupports cand event)
      then Inl (wrapf (''candidate '' @ quote (cn_ID cand) @ '' evidence '' @ quote eid @ '': '') ErrMissingEvidence)
      else validateEvidenceIDs cand events ids)"

definition validateEvidence :: "candidate \<Rightarrow> session_event list \<Rightarrow> unit res" where
  "validateEvidence cand events =
     (if cn_EvidenceEventIDs cand = []
      then Inl (wrapf (''candidate '' @ quote (cn_ID cand) @ '': '') ErrMissingEvidence)
      else validateEvidenceIDs cand events (cn_EvidenceEventIDs cand))"

definition latestEvidence :: "string list \<Rightarrow> session_event list \<Rightarrow> time" where
  "latestEvidence wanted events =
     foldl (\<lambda>latest e. if ev_ID e \<in> set wanted \<and> ev_OccurredAt e > latest then ev_OccurredAt e else latest)
       0 events"

definition WithEvidenceTime :: "candidate \<Rightarrow> session_event list \<Rightarrow> candidate" where
  "WithEvidenceTime cand events =
     (if cn_SourceOccurredAt cand \<noteq> 0 then cand
      else cand\<lparr>cn_SourceOccurredAt := latestEvidence (cn_EvidenceEventIDs cand) events\<rparr>)"

definition stateForValidity :: "time \<Rightarrow> time option \<Rightarrow> string" where
  "stateForValidity now invalidAt =
     (case invalidAt of Some t \<Rightarrow> if t \<le> now then StateResolved else StateActive | None \<Rightarrow> StateActive)"

definition cloneNote :: "team_note \<Rightarrow> team_note" where
  "cloneNote n = n"

definition timePointer :: "time \<Rightarrow> time option" where
  "timePointer t = (if t = 0 then None else Some t)"

section \<open>Admission\<close>

definition resolvedNote :: "time \<Rightarrow> candidate \<Rightarrow> team_note \<Rightarrow> team_note" where
  "resolvedNote now cand current =
     (cloneNote current)\<lparr>nt_State := StateResolved, nt_Body := cn_Body cand,
       nt_RelatedSubjects := cn_RelatedSubjects cand, nt_EvidenceEventIDs := cn_EvidenceEventIDs cand,
       nt_Revision := nt_Revision current + 1, nt_UpdatedAt := now,
       nt_InvalidAt := (case cn_InvalidAt cand of None \<Rightarrow> timePointer (cn_SourceOccurredAt cand) | Some t \<Rightarrow> Some t),
       nt_SourceOccurredAt := cn_SourceOccurredAt cand\<rparr>"

definition createdNote :: "lease_policy \<Rightarrow> time \<Rightarrow> candidate \<Rightarrow> team_note" where
  "createdNote lease now cand =
     (let hardExpiresAt = now + HardTTL lease in
      \<lparr>nt_ID = cn_ID cand, nt_Key = CanonicalKey cand, nt_Kind = cn_Kind cand,
       nt_Subject = cn_Subject cand, nt_Body = cn_Body cand, nt_TaskRef = cn_TaskRef cand,
       nt_ThreadRef = cn_ThreadRef cand, nt_Origin = cn_Origin cand,
       nt_AudienceAgentIDs = cn_AudienceAgentIDs cand, nt_RelatedSubjects = cn_RelatedSubjects cand,
       nt_EvidenceEventIDs = cn_EvidenceEventIDs cand, nt_State = stateForValidity now (cn_InvalidAt cand),
       nt_Revision = 1, nt_CreatedAt = now, nt_UpdatedAt = now,
       nt_SoftExpiresAt = minTime hardExpiresAt (now + SoftTTL lease), nt_HardExpiresAt = hardExpiresAt,
       nt_ValidAt = cn_ValidAt cand, nt_InvalidAt = cn_InvalidAt cand,
       nt_SourceOccurredAt = cn_SourceOccurredAt cand\<rparr>)"

definition updatedNote :: "lease_policy \<Rightarrow> time \<Rightarrow> candidate \<Rightarrow> team_note \<Rightarrow> team_note" where
  "updatedNote lease now cand current =
     (cloneNote current)\<lparr>nt_Body := cn_Body cand, nt_Origin := cn_Origin cand,
       nt_AudienceAgentIDs := cn_AudienceAgentIDs cand, nt_RelatedSubjects := cn_RelatedSubjects cand,
       nt_EvidenceEventIDs := cn_EvidenceEventIDs cand, nt_State := stateForValidity now (cn_InvalidAt cand),
       nt_Revision := nt_Revision current + 1, nt_UpdatedAt := now,
       nt_SoftExpiresAt := minTime (nt_HardExpiresAt current) (now + SoftTTL lease),
       nt_ValidAt := cn_ValidAt cand, nt_InvalidAt := cn_InvalidAt cand,
       nt_SourceOccurredAt := cn_SourceOccurredAt cand\<rparr>"

definition reviseCandidate ::
  "candidate \<Rightarrow> session_event list \<Rightarrow> team_note option \<Rightarrow> transition_authority option \<Rightarrow> candidate res" where
  "reviseCandidate cand evidence current authority =
     (case (current, authority) of
        (Some cur, Some auth) \<Rightarrow>
          (case validateRevisionQualifiers (nt_Body cur) (cn_Body cand) cand evidence auth of
             Inl e \<Rightarrow> Inl e
           | Inr _ \<Rightarrow> Inr (cand\<lparr>
               cn_EvidenceEventIDs := mergeStrings (nt_EvidenceEventIDs cur) (cn_EvidenceEventIDs cand),
               cn_RelatedSubjects := normalizeSubjects (cn_Subject cand)
                 (mergeStrings (nt_RelatedSubjects cur) (cn_RelatedSubjects cand))\<rparr>))
      | _ \<Rightarrow> Inr cand)"

definition prepareCandidate :: "candidate \<Rightarrow> session_event list \<Rightarrow> candidate" where
  "prepareCandidate cand evidence =
     (WithEvidenceTime cand evidence)\<lparr>cn_RelatedSubjects := normalizeSubjects (cn_Subject cand) (cn_RelatedSubjects cand)\<rparr>"

definition AdmitCandidateWithAuthority ::
  "ttl_policy \<Rightarrow> time \<Rightarrow> candidate \<Rightarrow> session_event list \<Rightarrow> team_note option \<Rightarrow>
     transition_authority option \<Rightarrow> team_note res" where
  "AdmitCandidateWithAuthority policy now cand0 evidence current authority =
     (let cand = prepareCandidate cand0 evidence in
      case validateCandidate cand policy of
        Inl e \<Rightarrow> Inl e
      | Inr _ \<Rightarrow>
      case validateEvidence cand evidence of
        Inl e \<Rightarrow> Inl e
      | Inr _ \<Rightarrow>
      if cn_SourceOccurredAt cand = 0
      then Inl (wrapf ''candidate source occurred at: '' ErrInvalidCandidate)
      else if cn_Action cand = ActionResolve
      then (case current of
              None \<Rightarrow> Inl (wrapf (''resolve '' @ quote (CanonicalKey cand) @ '': '') ErrNoteNotFound)
            | Some cur \<Rightarrow> Inr (resolvedNote now cand cur))
      else
      case reviseCandidate cand evidence current authority of
        Inl e \<Rightarrow> Inl e
      | Inr cand' \<Rightarrow>
          let lease = (case mget policy (cn_Kind cand') of None \<Rightarrow> \<lparr>SoftTTL = 0, HardTTL = 0\<rparr> | Some l \<Rightarrow> l) in
          Inr (case current of
                 None \<Rightarrow> createdNote lease now cand'
               | Some cur \<Rightarrow> updatedNote lease now cand' cur))"

definition AdmitCandidate ::
  "ttl_policy \<Rightarrow> time \<Rightarrow> candidate \<Rightarrow> session_event list \<Rightarrow> team_note option \<Rightarrow> team_note res" where
  "AdmitCandidate policy now cand evidence current =
     AdmitCandidateWithAuthority policy now cand evidence current None"

definition transitionAuthorityFor :: "transition_authority list \<Rightarrow> string \<Rightarrow> transition_authority option" where
  "transitionAuthorityFor authorities candidateID = find (\<lambda>a. ta_CandidateID a = candidateID) authorities"

section \<open>Extraction runs\<close>

type_synonym marshaler = "candidate list \<Rightarrow> transition_authority list \<Rightarrow> string res"

definition ExtractionRunProcessing :: string where "ExtractionRunProcessing = ''processing''"
definition ExtractionRunCompleted :: string where "ExtractionRunCompleted = ''completed''"
definition ExtractionRunQuarantined :: string where "ExtractionRunQuarantined = ''quarantined''"

definition NormalizeExtractionRun :: "marshaler \<Rightarrow> extraction_run \<Rightarrow> extraction_run res" where
  "NormalizeExtractionRun marshal run =
     (case marshal (run_Candidates run) (run_TransitionAuthorities run) of
        Inl e \<Rightarrow> Inl (wrapf ''encode extraction run candidates: '' e)
      | Inr encoded \<Rightarrow>
          (let checksum = sha256_hex encoded in
           if run_CandidateChecksum run \<noteq> [] \<and> run_CandidateChecksum run \<noteq> checksum
           then Inl (wrapf (''candidate checksum for extraction run '' @ quote (run_ID run) @ '': '') ErrExtractionRunConflict)
           else Inr (run\<lparr>run_CandidateChecksum := checksum\<rparr>)))"

primrec validateRunCandidates :: "actor \<Rightarrow> string list \<Rightarrow> candidate list \<Rightarrow> unit res" where
  "validateRunCandidates act seen [] = Inr ()"
| "validateRunCandidates act seen (cand # cands) =
     (if cn_ID cand \<in> set seen
      then Inl (wrapf (''duplicate candidate '' @ quote (cn_ID cand) @ '' in extraction run: '') ErrInvalidCandidate)
      else if act \<noteq> zeroActor \<and> cn_Origin cand \<noteq> act
      then Inl (wrapf (''candidate '' @ quote (cn_ID cand) @ '' origin differs from extraction run: '') ErrInvalidCandidate)
      else validateRunCandidates act (cn_ID cand # seen) cands)"

definition validateRunIdentity :: "extraction_run \<Rightarrow> unit res" where
  "validateRunIdentity run =
     (case validateRunCandidates (run_Actor run) [] (run_Candidates run) of
        Inl e \<Rightarrow> Inl e
      | Inr _ \<Rightarrow>
          if run_Actor run = zeroActor then Inr ()
          else (case find (\<lambda>e. ev_Actor e \<noteq> run_Actor run) (run_Evidence run) of
                  None \<Rightarrow> Inr ()
                | Some event \<Rightarrow> Inl (wrapf (''evidence '' @ quote (ev_ID event) @
                    '' actor differs from extraction run: '') ErrMissingEvidence)))"

definition PrepareExtractionRun :: "marshaler \<Rightarrow> extraction_run \<Rightarrow> extraction_run res" where
  "PrepareExtractionRun marshal run =
     (case validateRunIdentity run of Inl e \<Rightarrow> Inl e | Inr _ \<Rightarrow> NormalizeExtractionRun marshal run)"

definition ValidateDurableExtractionRun :: "string \<Rightarrow> extraction_run \<Rightarrow> unit res" where
  "ValidateDurableExtractionRun scopeID run =
     (if blank scopeID \<or> blank (run_ID run) \<or> blank (UserID (run_Actor run)) \<or>
         blank (AgentID (run_Actor run)) \<or> blank (SessionID (run_Actor run)) \<or>
         blank (run_InputChecksum run) \<or> blank (run_CandidateChecksum run) \<or>
         run_FromSequence run \<le> 0 \<or> run_ToSequence run < run_FromSequence run \<or>
         run_InputTokens run < 0 \<or> run_OutputTokens run < 0
      then Inl (ErrorNew ''validate durable extraction run: scope and run identity are required'')
      else validateRunIdentity run)"

definition SameExtractionRunInput :: "extraction_run \<Rightarrow> extraction_run \<Rightarrow> bool" where
  "SameExtractionRunInput left right \<longleftrightarrow>
     run_Actor left = run_Actor right \<and> run_FromSequence left = run_FromSequence right \<and>
     run_ToSequence left = run_ToSequence right \<and> run_InputChecksum left = run_InputChecksum right \<and>
     run_Model left = run_Model right \<and> run_PromptVersion left = run_PromptVersion right"

definition ValidateExtractionRunReplay ::
  "extraction_run \<Rightarrow> extraction_run \<Rightarrow> string \<Rightarrow> string \<Rightarrow> unit res" where
  "ValidateExtractionRunReplay stored attempted status reason =
     (let label = ''replay extraction run '' @ quote (run_ID attempted) in
      if \<not> SameExtractionRunInput stored attempted
      then Inl (wrapf (label @ '': '') ErrExtractionRunConflict)
      else if status = ExtractionRunCompleted then Inr ()
      else if status = ExtractionRunQuarantined
      then Inl (wrapf (label @ '': '')
             (if reason \<noteq> [] then Join ErrExtractionRunQuarantined (ErrorNew reason)
              else ErrExtractionRunQuarantined))
      else Inl (wrapf (label @ '' with status '' @ quote status @ '': '') ErrExtractionRunConflict))"

definition ShouldQuarantineExtractionRun :: "go_error \<Rightarrow> bool" where
  "ShouldQuarantineExtractionRun err \<longleftrightarrow>
     errors_is err ErrInvalidCandidate \<or> errors_is err ErrMissingEvidence \<or>
     errors_is err ErrNoteNotFound \<or> errors_is err ErrDestructiveRevision"

definition extractionRunInput :: "extraction_run \<Rightarrow> extraction_run" where
  "extractionRunInput run =
     \<lparr>run_ID = run_ID run, run_Actor = run_Actor run, run_FromSequence = run_FromSequence run,
      run_ToSequence = run_ToSequence run, run_InputChecksum = run_InputChecksum run,
      run_CandidateChecksum = [], run_Model = run_Model run, run_PromptVersion = run_PromptVersion run,
      run_InputTokens = 0, run_OutputTokens = 0, run_Candidates = [], run_TransitionAuthorities = [],
      run_Evidence = [], run_Rejections = []\<rparr>"

section \<open>The ledger\<close>

record stored_extraction_run =
  sr_Input :: extraction_run
  sr_Notes :: "team_note list"
  sr_Quarantined :: bool
  sr_Reason :: string

type_synonym notes_map = "(string, team_note) gomap"

record ledger =
  lg_policy :: ttl_policy
  lg_notes :: notes_map
  lg_candidates :: "(string, string) gomap"
  lg_deliveries :: "string list"
  lg_hintDeliveries :: "string list"
  lg_runs :: "(string, stored_extraction_run) gomap"

definition NewLedger :: "ttl_policy \<Rightarrow> ledger" where
  "NewLedger policy = \<lparr>lg_policy = policy, lg_notes = [], lg_candidates = [], lg_deliveries = [],
     lg_hintDeliveries = [], lg_runs = []\<rparr>"

definition zeroNote :: team_note where
  "zeroNote = \<lparr>nt_ID = [], nt_Key = [], nt_Kind = [], nt_Subject = [], nt_Body = [], nt_TaskRef = [],
     nt_ThreadRef = [], nt_Origin = zeroActor, nt_AudienceAgentIDs = [], nt_RelatedSubjects = [],
     nt_EvidenceEventIDs = [], nt_State = [], nt_Revision = 0, nt_CreatedAt = 0, nt_UpdatedAt = 0,
     nt_SoftExpiresAt = 0, nt_HardExpiresAt = 0, nt_ValidAt = None, nt_InvalidAt = None,
     nt_SourceOccurredAt = 0\<rparr>"

text \<open>The loop over the candidates of a run, on copies of the maps: \<open>clock i\<close> is the reading for the
  \<open>i\<close>-th admission.\<close>

fun admitCandidates ::
  "ttl_policy \<Rightarrow> (nat \<Rightarrow> time) \<Rightarrow> nat \<Rightarrow> extraction_run \<Rightarrow> candidate list \<Rightarrow> notes_map \<Rightarrow>
     (string, string) gomap \<Rightarrow> team_note list \<Rightarrow>
     (notes_map \<times> (string, string) gomap \<times> team_note list) res" where
  "admitCandidates policy clock i run [] notes cands result = Inr (notes, cands, result)"
| "admitCandidates policy clock i run (cand # rest) notes cands result =
     (case mget cands (cn_ID cand) of
        Some key \<Rightarrow>
          admitCandidates policy clock i run rest notes cands
            (result @ [cloneNote (case mget notes key of None \<Rightarrow> zeroNote | Some n \<Rightarrow> n)])
      | None \<Rightarrow>
          (case AdmitCandidateWithAuthority policy (clock i) cand (run_Evidence run)
                  (mget notes (CanonicalKey cand))
                  (transitionAuthorityFor (run_TransitionAuthorities run) (cn_ID cand)) of
             Inl e \<Rightarrow> Inl e
           | Inr admitted \<Rightarrow>
               admitCandidates policy clock (Suc i) run rest
                 (mput (CanonicalKey cand) admitted notes) (mput (cn_ID cand) (CanonicalKey cand) cands)
                 (result @ [cloneNote admitted])))"

definition ApplyRun ::
  "marshaler \<Rightarrow> (nat \<Rightarrow> time) \<Rightarrow> ledger \<Rightarrow> go_context \<Rightarrow> extraction_run \<Rightarrow> ledger \<times> team_note list res" where
  "ApplyRun marshal clock l ctx run0 =
     (case ctx_err ctx of
        Some e \<Rightarrow> (l, Inl (wrapf ''apply extraction run context: '' e))
      | None \<Rightarrow>
      case PrepareExtractionRun marshal run0 of
        Inl e \<Rightarrow> (l, Inl e)
      | Inr run \<Rightarrow>
      case (if run_ID run = [] then None else mget (lg_runs l) (run_ID run)) of
        Some stored \<Rightarrow>
          (case ValidateExtractionRunReplay (sr_Input stored) run
                  (if sr_Quarantined stored then ExtractionRunQuarantined else ExtractionRunCompleted)
                  (sr_Reason stored) of
             Inl e \<Rightarrow> (l, Inl e)
           | Inr _ \<Rightarrow> (l, Inr (map cloneNote (sr_Notes stored))))
      | None \<Rightarrow>
      case admitCandidates (lg_policy l) clock 0 run (run_Candidates run) (lg_notes l) (lg_candidates l) [] of
        Inl e \<Rightarrow>
          if \<not> ShouldQuarantineExtractionRun e then (l, Inl e)
          else ((if run_ID run = [] then l
                 else l\<lparr>lg_runs := mput (run_ID run)
                   \<lparr>sr_Input = extractionRunInput run, sr_Notes = [], sr_Quarantined = True,
                    sr_Reason = error_text e\<rparr> (lg_runs l)\<rparr>),
                Inl (wrapf (''quarantine extraction run '' @ quote (run_ID run) @ '': '')
                  (Join ErrExtractionRunQuarantined e)))
      | Inr (notes, cands, result) \<Rightarrow>
          (let l' = l\<lparr>lg_notes := notes, lg_candidates := cands\<rparr> in
           ((if run_ID run = [] then l'
             else l'\<lparr>lg_runs := mput (run_ID run)
               \<lparr>sr_Input = extractionRunInput run, sr_Notes = map cloneNote result,
                sr_Quarantined = False, sr_Reason = []\<rparr> (lg_runs l)\<rparr>),
            Inr result)))"

definition candidateRun :: "candidate \<Rightarrow> session_event list \<Rightarrow> extraction_run" where
  "candidateRun cand evidence =
     \<lparr>run_ID = cn_ID cand, run_Actor = zeroActor, run_FromSequence = 0, run_ToSequence = 0,
      run_InputChecksum = [], run_CandidateChecksum = [], run_Model = [], run_PromptVersion = [],
      run_InputTokens = 0, run_OutputTokens = 0, run_Candidates = [cand],
      run_TransitionAuthorities = [], run_Evidence = evidence, run_Rejections = []\<rparr>"

definition Apply ::
  "marshaler \<Rightarrow> (nat \<Rightarrow> time) \<Rightarrow> ledger \<Rightarrow> go_context \<Rightarrow> candidate \<Rightarrow> session_event list \<Rightarrow>
     ledger \<times> team_note res" where
  "Apply marshal clock l ctx cand evidence =
     (case ApplyRun marshal clock l ctx (candidateRun cand evidence) of
        (l', Inl e) \<Rightarrow> (l', Inl e)
      | (l', Inr []) \<Rightarrow> (l', Inl (wrapf (''apply candidate '' @ quote (cn_ID cand) @
            '' replayed an empty durable result: '') ErrExtractionRunConflict))
      | (l', Inr (n # _)) \<Rightarrow> (l', Inr n))"

section \<open>Eligibility for recall\<close>

definition ValidateRecall :: "recall_request \<Rightarrow> unit res" where
  "ValidateRecall request =
     (if blank (UserID (rq_Actor request)) \<or> blank (AgentID (rq_Actor request)) \<or>
         blank (SessionID (rq_Actor request)) \<or> rq_TokenBudget request \<le> 0 \<or> rq_MaxItems request < 0
      then Inl (wrapf ''recall actor or budget: '' ErrInvalidRecall) else Inr ())"

definition deliveryKey :: "team_note \<Rightarrow> actor \<Rightarrow> string" where
  "deliveryKey n a = nt_ID n @ '':'' @ show_int (nt_Revision n) @ '':'' @ SessionID a"

definition includesAudience :: "string list \<Rightarrow> string \<Rightarrow> bool" where
  "includesAudience audience agentID \<longleftrightarrow> audience = [] \<or> agentID \<in> set audience"

definition eligibleForRecall :: "ledger \<Rightarrow> team_note \<Rightarrow> recall_request \<Rightarrow> bool" where
  "eligibleForRecall l n request =
     (if nt_State n \<noteq> StateActive \<or> nt_TaskRef n \<noteq> [] \<and> nt_TaskRef n \<noteq> rq_TaskRef request then False
      else if nt_ThreadRef n \<noteq> [] \<and> nt_ThreadRef n \<noteq> rq_ThreadRef request then False
      else if \<not> includesAudience (nt_AudienceAgentIDs n) (AgentID (rq_Actor request)) then False
      else deliveryKey n (rq_Actor request) \<notin> set (lg_deliveries l))"

definition expireNote :: "time \<Rightarrow> team_note \<Rightarrow> team_note" where
  "expireNote now n =
     (if nt_State n = StateActive \<and> \<not> now < nt_SoftExpiresAt n then n\<lparr>nt_State := StateExpired\<rparr> else n)"

definition eligibleNotes :: "ledger \<Rightarrow> time \<Rightarrow> recall_request \<Rightarrow> ledger \<times> team_note list" where
  "eligibleNotes l now request =
     (let notes = map (\<lambda>(key, n). (key, expireNote now n)) (lg_notes l) in
      (l\<lparr>lg_notes := notes\<rparr>, filter (\<lambda>n. eligibleForRecall l n request) (map snd notes)))"

section \<open>The store of ledgers\<close>

definition snapshotNotes :: "ledger \<Rightarrow> team_note list" where
  "snapshotNotes l =
     sort_by (\<lambda>x y. nt_ID x < nt_ID y)
       (map cloneNote (filter (\<lambda>n. nt_State n = StateActive \<and> nt_InvalidAt n = None) (map snd (lg_notes l))))"

record scoped_ledger_store =
  ss_policy :: ttl_policy
  ss_ledgers :: "(string, ledger) gomap"

definition NewScopedLedgerStore :: "ttl_policy \<Rightarrow> scoped_ledger_store" where
  "NewScopedLedgerStore policy = \<lparr>ss_policy = policy, ss_ledgers = []\<rparr>"

definition scopeLedger :: "scoped_ledger_store \<Rightarrow> string \<Rightarrow> ledger" where
  "scopeLedger s scopeID = (case mget (ss_ledgers s) scopeID of None \<Rightarrow> NewLedger (ss_policy s) | Some l \<Rightarrow> l)"

definition withLedger ::
  "scoped_ledger_store \<Rightarrow> string \<Rightarrow> ledger \<times> 'a \<Rightarrow> scoped_ledger_store \<times> 'a" where
  "withLedger s scopeID out = (s\<lparr>ss_ledgers := mput scopeID (fst out) (ss_ledgers s)\<rparr>, snd out)"

definition storeApplyExtractionRun ::
  "marshaler \<Rightarrow> (nat \<Rightarrow> time) \<Rightarrow> scoped_ledger_store \<Rightarrow> go_context \<Rightarrow> string \<Rightarrow> extraction_run \<Rightarrow>
     scoped_ledger_store \<times> team_note list res" where
  "storeApplyExtractionRun marshal clock s ctx scopeID run =
     withLedger s scopeID (ApplyRun marshal clock (scopeLedger s scopeID) ctx run)"

definition storeApplyCandidate ::
  "marshaler \<Rightarrow> (nat \<Rightarrow> time) \<Rightarrow> scoped_ledger_store \<Rightarrow> go_context \<Rightarrow> string \<Rightarrow> candidate \<Rightarrow>
     session_event list \<Rightarrow> scoped_ledger_store \<times> team_note res" where
  "storeApplyCandidate marshal clock s ctx scopeID cand evidence =
     withLedger s scopeID (Apply marshal clock (scopeLedger s scopeID) ctx cand evidence)"

definition storeSnapshotNotes :: "scoped_ledger_store \<Rightarrow> string \<Rightarrow> scoped_ledger_store \<times> team_note list" where
  "storeSnapshotNotes s scopeID =
     withLedger s scopeID (scopeLedger s scopeID, snapshotNotes (scopeLedger s scopeID))"

section \<open>Canonical keys\<close>

text \<open>The key of a candidate separates its components: two candidates share a key only when they agree
  on task, thread, kind, identity and, for the kinds where identity is per agent, on the agent.\<close>

lemma CanonicalKey_eq:
  assumes "CanonicalKey a = CanonicalKey b"
  shows "cn_TaskRef a = cn_TaskRef b \<and> cn_ThreadRef a = cn_ThreadRef b \<and> cn_Kind a = cn_Kind b \<and>
    identityOf a = identityOf b \<and>
    (trim_space (cn_IdentityRef a) = [] \<and> cn_Kind a \<in> {KindStatus, KindHandoff} \<longrightarrow>
       AgentID (cn_Origin a) = AgentID (cn_Origin b) \<and> trim_space (cn_IdentityRef b) = [])"
proof -
  let ?agent = "\<lambda>c. if trim_space (cn_IdentityRef c) = [] \<and> (cn_Kind c = KindStatus \<or> cn_Kind c = KindHandoff)
    then netstring (AgentID (cn_Origin c)) else []"
  from assms have "netstring (cn_TaskRef a) @ netstring (cn_ThreadRef a) @ netstring (cn_Kind a) @
      netstring (identityOf a) @ ?agent a =
    netstring (cn_TaskRef b) @ netstring (cn_ThreadRef b) @ netstring (cn_Kind b) @
      netstring (identityOf b) @ ?agent b" by (simp add: CanonicalKey_def)
  then have "cn_TaskRef a = cn_TaskRef b \<and> cn_ThreadRef a = cn_ThreadRef b \<and> cn_Kind a = cn_Kind b \<and>
      identityOf a = identityOf b \<and> ?agent a = ?agent b"
    by (blast dest: netstring_append_inj)
  then show ?thesis
    using netstring_append_inj [of "AgentID (cn_Origin a)" "[]" "AgentID (cn_Origin b)" "[]"]
    by (auto split: if_splits)
qed

lemma prepareCandidate_simps [simp]:
  "cn_ID (prepareCandidate c ev) = cn_ID c" "cn_Action (prepareCandidate c ev) = cn_Action c"
  "cn_Kind (prepareCandidate c ev) = cn_Kind c" "cn_Subject (prepareCandidate c ev) = cn_Subject c"
  "cn_IdentityRef (prepareCandidate c ev) = cn_IdentityRef c" "cn_Body (prepareCandidate c ev) = cn_Body c"
  "cn_TaskRef (prepareCandidate c ev) = cn_TaskRef c" "cn_ThreadRef (prepareCandidate c ev) = cn_ThreadRef c"
  "cn_Origin (prepareCandidate c ev) = cn_Origin c"
  "cn_AudienceAgentIDs (prepareCandidate c ev) = cn_AudienceAgentIDs c"
  "cn_EvidenceEventIDs (prepareCandidate c ev) = cn_EvidenceEventIDs c"
  "cn_ValidAt (prepareCandidate c ev) = cn_ValidAt c" "cn_InvalidAt (prepareCandidate c ev) = cn_InvalidAt c"
  by (simp_all add: prepareCandidate_def WithEvidenceTime_def)

lemma CanonicalKey_cong:
  "cn_TaskRef a = cn_TaskRef b \<Longrightarrow> cn_ThreadRef a = cn_ThreadRef b \<Longrightarrow> cn_Kind a = cn_Kind b \<Longrightarrow>
   cn_Subject a = cn_Subject b \<Longrightarrow> cn_IdentityRef a = cn_IdentityRef b \<Longrightarrow> cn_Origin a = cn_Origin b \<Longrightarrow>
   CanonicalKey a = CanonicalKey b"
  by (simp only: CanonicalKey_def identityOf_def)

lemma CanonicalKey_prepare [simp]: "CanonicalKey (prepareCandidate c ev) = CanonicalKey c"
  by (rule CanonicalKey_cong) simp_all

section \<open>Evidence\<close>

lemma validateEvidence_ok:
  assumes "validateEvidence cand events = Inr ()"
  shows "cn_EvidenceEventIDs cand \<noteq> [] \<and>
    (\<forall>eid \<in> set (cn_EvidenceEventIDs cand). \<exists>e. eventsByID events eid = Some e \<and> evidenceSupports cand e)"
proof -
  have "validateEvidenceIDs cand events ids = Inr () \<Longrightarrow>
      \<forall>eid \<in> set ids. \<exists>e. eventsByID events eid = Some e \<and> evidenceSupports cand e" for ids
    by (induction ids) (auto split: if_splits option.splits)
  with assms show ?thesis by (auto simp: validateEvidence_def split: if_splits)
qed

lemma eventsByID_Some: "eventsByID events eid = Some e \<Longrightarrow> e \<in> set events \<and> ev_ID e = eid"
  by (auto simp: eventsByID_def dest!: map_of_SomeD)

lemma validateCandidate_error: "validateCandidate cand policy = Inl e \<Longrightarrow> errors_is e ErrInvalidCandidate"
  by (auto simp: validateCandidate_def note_sentinels split: if_splits)

lemma validateEvidenceIDs_error:
  "validateEvidenceIDs cand events ids = Inl e \<Longrightarrow> errors_is e ErrMissingEvidence"
  by (induction ids) (auto simp: note_sentinels split: if_splits)

lemma validateEvidence_error: "validateEvidence cand events = Inl e \<Longrightarrow> errors_is e ErrMissingEvidence"
  by (auto simp: validateEvidence_def note_sentinels dest: validateEvidenceIDs_error split: if_splits)

lemma reviseCandidate_error:
  "reviseCandidate cand evidence current authority = Inl e \<Longrightarrow>
     errors_is e ErrInvalidCandidate \<or> errors_is e ErrDestructiveRevision"
  by (auto simp: reviseCandidate_def dest: validateRevisionQualifiers_error
      split: option.splits sum.splits prod.splits)

section \<open>What admission does\<close>

text \<open>The successful outcomes of admission, one per branch of the code.\<close>

lemma admit_cases:
  assumes "AdmitCandidateWithAuthority policy now cand evidence current authority = Inr n"
  obtains (resolved) cur where "cn_Action cand = ActionResolve" "current = Some cur"
      "n = resolvedNote now (prepareCandidate cand evidence) cur"
      "validateCandidate (prepareCandidate cand evidence) policy = Inr ()"
      "validateEvidence (prepareCandidate cand evidence) evidence = Inr ()"
      "cn_SourceOccurredAt (prepareCandidate cand evidence) \<noteq> 0"
  | (written) cand' lease where "cn_Action cand \<noteq> ActionResolve"
      "reviseCandidate (prepareCandidate cand evidence) evidence current authority = Inr cand'"
      "mget policy (cn_Kind cand) = Some lease"
      "n = (case current of None \<Rightarrow> createdNote lease now cand' | Some cur \<Rightarrow> updatedNote lease now cand' cur)"
      "validateCandidate (prepareCandidate cand evidence) policy = Inr ()"
      "validateEvidence (prepareCandidate cand evidence) evidence = Inr ()"
      "cn_SourceOccurredAt (prepareCandidate cand evidence) \<noteq> 0"
proof -
  let ?c = "prepareCandidate cand evidence"
  from assms have ok: "validateCandidate ?c policy = Inr ()" "validateEvidence ?c evidence = Inr ()"
      "cn_SourceOccurredAt ?c \<noteq> 0"
    by (auto simp: AdmitCandidateWithAuthority_def Let_def split: sum.splits if_splits)
  show thesis
  proof (cases "cn_Action cand = ActionResolve")
    case True
    with assms ok obtain cur where "current = Some cur" "n = resolvedNote now ?c cur"
      by (auto simp: AdmitCandidateWithAuthority_def Let_def split: option.splits)
    with True ok show thesis by (intro resolved) auto
  next
    case False
    from ok(1) obtain lease where lease: "mget policy (cn_Kind cand) = Some lease"
      by (auto simp: validateCandidate_def split: if_splits)
    from assms ok False obtain cand' where rev: "reviseCandidate ?c evidence current authority = Inr cand'"
      by (auto simp: AdmitCandidateWithAuthority_def Let_def split: sum.splits)
    then have kind: "cn_Kind cand' = cn_Kind cand"
      by (auto simp: reviseCandidate_def split: option.splits sum.splits)
    from assms ok False rev lease kind
    have "n = (case current of None \<Rightarrow> createdNote lease now cand' | Some cur \<Rightarrow> updatedNote lease now cand' cur)"
      by (simp add: AdmitCandidateWithAuthority_def Let_def)
    with False rev lease ok show thesis by (intro written) auto
  qed
qed

lemma reviseCandidate_fields:
  assumes "reviseCandidate cand evidence current authority = Inr cand'"
  shows "cn_ID cand' = cn_ID cand \<and> cn_Kind cand' = cn_Kind cand \<and> cn_Subject cand' = cn_Subject cand \<and>
    cn_TaskRef cand' = cn_TaskRef cand \<and> cn_ThreadRef cand' = cn_ThreadRef cand \<and>
    cn_Origin cand' = cn_Origin cand \<and> cn_Body cand' = cn_Body cand \<and>
    cn_IdentityRef cand' = cn_IdentityRef cand \<and> cn_InvalidAt cand' = cn_InvalidAt cand \<and>
    cn_AudienceAgentIDs cand' = cn_AudienceAgentIDs cand \<and>
    set (cn_EvidenceEventIDs cand) \<subseteq> set (cn_EvidenceEventIDs cand') \<and>
    set (cn_EvidenceEventIDs cand') \<subseteq> set (cn_EvidenceEventIDs cand) \<union>
      (case current of None \<Rightarrow> {} | Some cur \<Rightarrow> set (nt_EvidenceEventIDs cur))"
  using assms by (auto simp: reviseCandidate_def split: option.splits sum.splits)

text \<open>The well-formedness of a stored note under its key.\<close>

definition wf_note :: "string \<Rightarrow> team_note \<Rightarrow> bool" where
  "wf_note key n \<longleftrightarrow> nt_Key n = key \<and> nt_SoftExpiresAt n \<le> nt_HardExpiresAt n \<and> 1 \<le> nt_Revision n \<and>
     nt_State n \<in> {StateActive, StateResolved, StateExpired} \<and> nt_EvidenceEventIDs n \<noteq> []"

lemma stateForValidity_cases: "stateForValidity now t \<in> {StateActive, StateResolved}"
  by (auto simp: stateForValidity_def split: option.splits)

lemma stateForValidity_active: "stateForValidity now t = StateActive \<longleftrightarrow> (\<forall>i. t = Some i \<longrightarrow> now < i)"
  by (auto simp: stateForValidity_def note_states split: option.splits)

lemma admitted_wf:
  assumes "AdmitCandidateWithAuthority policy now cand evidence current authority = Inr n"
    and "\<And>cur. current = Some cur \<Longrightarrow> wf_note (CanonicalKey cand) cur"
  shows "wf_note (CanonicalKey cand) n"
  using assms(1)
proof (cases rule: admit_cases)
  case (resolved cur)
  with assms(2) [OF resolved(2)] validateEvidence_ok [OF resolved(5)] show ?thesis
    by (auto simp: wf_note_def resolvedNote_def cloneNote_def)
next
  case (written cand' lease)
  note rev = reviseCandidate_fields [OF written(2)]
  have key: "CanonicalKey cand' = CanonicalKey cand"
    by (rule trans [OF CanonicalKey_cong CanonicalKey_prepare [of cand evidence]]) (use rev in auto)
  have ev: "cn_EvidenceEventIDs cand' \<noteq> []" using rev validateEvidence_ok [OF written(6)] by auto
  show ?thesis
  proof (cases current)
    case None
    with written(4) key ev stateForValidity_cases [of now "cn_InvalidAt cand'"] show ?thesis
      by (auto simp: wf_note_def createdNote_def Let_def minTime_min)
  next
    case (Some cur)
    with written(4) assms(2) [OF Some] ev stateForValidity_cases [of now "cn_InvalidAt cand'"] show ?thesis
      by (auto simp: wf_note_def updatedNote_def cloneNote_def minTime_min)
  qed
qed

end
