(* ===== verification/Extraction_Budget.thy ===== *)
theory Extraction_Budget
  imports Go_Prelude
begin

text \<open>
  The execution envelope of extraction (\<open>internal/teamnote/extractionbudget/budget.go\<close>).  Durations
  and counts are 64-bit integers: every sum and product is written with its wrap-around \<open>i64\<close>, and
  the theorems show that the guards of the code make the wrap-around unreachable for an envelope
  that validates.  \<open>durationString\<close> stands for \<open>time.Duration.String\<close>, used in one message.
\<close>

definition maxInt64 :: int where "maxInt64 = 2 ^ 63 - 1"

definition i64 :: "int \<Rightarrow> int" where
  "i64 x = (x + 2 ^ 63) mod 2 ^ 64 - 2 ^ 63"

definition in64 :: "int \<Rightarrow> bool" where
  "in64 x \<longleftrightarrow> - (2 ^ 63) \<le> x \<and> x \<le> maxInt64"

lemma i64_exact: "in64 x \<Longrightarrow> i64 x = x"
  by (simp add: i64_def in64_def maxInt64_def)

lemma in64_i64: "in64 (i64 x)"
proof -
  have "0 \<le> (x + 2 ^ 63) mod 2 ^ 64" "(x + 2 ^ 63) mod 2 ^ 64 < (2 ^ 64 :: int)" by simp_all
  then show ?thesis unfolding in64_def i64_def maxInt64_def by simp
qed

definition millisecond :: int where "millisecond = 1000000"
definition second :: int where "second = 1000 * millisecond"

record provider_policy =
  AttemptTimeout :: int
  MaxAttempts :: int
  RetryBackoff :: int
  MaxResponseBytes :: int
  PrimaryMaxOutputTokens :: int
  SummaryMaxOutputTokens :: int
  CompactionMaxOutputTokens :: int

record envelope =
  Provider :: provider_policy
  MaxSlicesPerJob :: int
  WorkerJobTimeout :: int
  CompactionEnabled :: bool

definition DefaultMaxSlicesPerJob :: int where "DefaultMaxSlicesPerJob = 1"
definition OutcomePersistenceMargin :: int where "OutcomePersistenceMargin = 10 * second"

definition DefaultProviderPolicy :: provider_policy where
  "DefaultProviderPolicy =
     \<lparr>AttemptTimeout = 120 * second, MaxAttempts = 1, RetryBackoff = 250 * millisecond,
      MaxResponseBytes = 1048576, PrimaryMaxOutputTokens = 16 * 1024,
      SummaryMaxOutputTokens = 4 * 1024, CompactionMaxOutputTokens = 4 * 1024\<rparr>"

definition DefaultEnvelope :: envelope where
  "DefaultEnvelope =
     \<lparr>Provider = DefaultProviderPolicy, MaxSlicesPerJob = DefaultMaxSlicesPerJob,
      WorkerJobTimeout = 180 * second, CompactionEnabled = False\<rparr>"

definition logicalCallBudget :: "provider_policy \<Rightarrow> int option" where
  "logicalCallBudget p =
     (let attempts = MaxAttempts p in
      if attempts < 1 \<or> AttemptTimeout p > maxInt64 div attempts then None
      else let attemptBudget = i64 (attempts * AttemptTimeout p); retries = i64 (attempts - 1) in
        if retries > 0 \<and> RetryBackoff p > maxInt64 div retries then None
        else let retryBudget = i64 (retries * RetryBackoff p) in
          if attemptBudget > i64 (maxInt64 - retryBudget) then None
          else Some (i64 (attemptBudget + retryBudget)))"

definition LogicalCallBudget :: "provider_policy \<Rightarrow> int" where
  "LogicalCallBudget p = (case logicalCallBudget p of None \<Rightarrow> maxInt64 | Some budget \<Rightarrow> budget)"

definition BackgroundCallTimeout :: "provider_policy \<Rightarrow> int" where
  "BackgroundCallTimeout p =
     (let budget = LogicalCallBudget p in
      if budget > maxInt64 - OutcomePersistenceMargin then maxInt64
      else i64 (budget + OutcomePersistenceMargin))"

definition policyValidate :: "provider_policy \<Rightarrow> unit res" where
  "policyValidate p =
     (if AttemptTimeout p \<le> 0 \<or> MaxAttempts p < 1 \<or> MaxAttempts p > 3 \<or> RetryBackoff p < 0 \<or>
         MaxResponseBytes p < 1 \<or> PrimaryMaxOutputTokens p < 1 \<or> SummaryMaxOutputTokens p < 1 \<or>
         CompactionMaxOutputTokens p < 1
      then Inl (ErrorNew ''provider execution policy has invalid deadline, attempts, backoff, response, or output budget'')
      else case logicalCallBudget p of
        None \<Rightarrow> Inl (ErrorNew ''provider execution policy exceeds duration limits'')
      | Some logicalBudget \<Rightarrow>
          if logicalBudget > maxInt64 - OutcomePersistenceMargin
          then Inl (ErrorNew ''provider execution policy exceeds duration limits'')
          else Inr ())"

definition NormalizeProviderPolicy :: "provider_policy \<Rightarrow> provider_policy res" where
  "NormalizeProviderPolicy p0 =
     (let d = DefaultProviderPolicy;
          p = \<lparr>AttemptTimeout = (if AttemptTimeout p0 = 0 then AttemptTimeout d else AttemptTimeout p0),
               MaxAttempts = (if MaxAttempts p0 = 0 then MaxAttempts d else MaxAttempts p0),
               RetryBackoff = (if RetryBackoff p0 = 0 then RetryBackoff d else RetryBackoff p0),
               MaxResponseBytes = (if MaxResponseBytes p0 = 0 then MaxResponseBytes d else MaxResponseBytes p0),
               PrimaryMaxOutputTokens = (if PrimaryMaxOutputTokens p0 = 0 then PrimaryMaxOutputTokens d
                 else PrimaryMaxOutputTokens p0),
               SummaryMaxOutputTokens = (if SummaryMaxOutputTokens p0 = 0 then SummaryMaxOutputTokens d
                 else SummaryMaxOutputTokens p0),
               CompactionMaxOutputTokens = (if CompactionMaxOutputTokens p0 = 0 then CompactionMaxOutputTokens d
                 else CompactionMaxOutputTokens p0)\<rparr>
      in case policyValidate p of Inl e \<Rightarrow> Inl e | Inr _ \<Rightarrow> Inr p)"

definition serialCallsPerSlice :: "envelope \<Rightarrow> int" where
  "serialCallsPerSlice e = (if CompactionEnabled e then 3 else 1)"

definition jobProviderBudget :: "envelope \<Rightarrow> int option" where
  "jobProviderBudget e =
     (if MaxSlicesPerJob e < 1 \<or> MaxSlicesPerJob e > maxInt64 div serialCallsPerSlice e then None
      else let factor = i64 (MaxSlicesPerJob e * serialCallsPerSlice e) in
        case logicalCallBudget (Provider e) of
          None \<Rightarrow> None
        | Some logical \<Rightarrow>
            if logical \<le> 0 \<or> factor > maxInt64 div logical then None
            else Some (i64 (factor * logical)))"

definition JobProviderBudget :: "envelope \<Rightarrow> int" where
  "JobProviderBudget e = (case jobProviderBudget e of None \<Rightarrow> maxInt64 | Some budget \<Rightarrow> budget)"

definition envelopeValidate :: "(int \<Rightarrow> string) \<Rightarrow> envelope \<Rightarrow> unit res" where
  "envelopeValidate durationString e =
     (case policyValidate (Provider e) of
        Inl err \<Rightarrow> Inl err
      | Inr _ \<Rightarrow>
      if MaxSlicesPerJob e < 1 \<or> WorkerJobTimeout e \<le> 0
      then Inl (ErrorNew ''extraction execution envelope has invalid worker limits'')
      else case jobProviderBudget e of
        None \<Rightarrow> Inl (ErrorNew ''extraction execution envelope exceeds duration limits'')
      | Some jobBudget \<Rightarrow>
          if jobBudget > maxInt64 - OutcomePersistenceMargin
          then Inl (ErrorNew ''extraction execution envelope leaves no outcome persistence margin'')
          else if i64 (jobBudget + OutcomePersistenceMargin) \<ge> WorkerJobTimeout e
          then Inl (ErrorNew (''extraction execution budget '' @ durationString jobBudget @
                 '' plus persistence margin '' @ durationString OutcomePersistenceMargin @ '' for '' @
                 show_int (MaxSlicesPerJob e) @ '' slices must be less than worker job deadline '' @
                 durationString (WorkerJobTimeout e)))
          else Inr ())"

section \<open>The guards are exact\<close>

lemma le_div_iff: "0 < b \<Longrightarrow> (a::int) \<le> c div b \<longleftrightarrow> a * b \<le> c"
  by (metis dual_order.trans minus_div_mult_eq_mod mult_le_cancel_right_pos pos_mod_sign diff_ge_0_iff_ge
      zdiv_mono1 nonzero_mult_div_cancel_right less_irrefl)

text \<open>The exact cost of one logical call and of one job, as integers without bound.\<close>

definition exact_call :: "provider_policy \<Rightarrow> int" where
  "exact_call p = MaxAttempts p * AttemptTimeout p + (MaxAttempts p - 1) * RetryBackoff p"

definition exact_job :: "envelope \<Rightarrow> int" where
  "exact_job e = MaxSlicesPerJob e * serialCallsPerSlice e * exact_call (Provider e)"

lemma logicalCallBudget_exact:
  assumes "0 < AttemptTimeout p" and "0 \<le> RetryBackoff p" and "in64 (MaxAttempts p)" and "1 \<le> MaxAttempts p"
  shows "logicalCallBudget p = (if exact_call p \<le> maxInt64 then Some (exact_call p) else None)"
proof -
  let ?a = "MaxAttempts p" and ?t = "AttemptTimeout p" and ?r = "MaxAttempts p - 1" and ?b = "RetryBackoff p"
  have at: "?t \<le> maxInt64 div ?a \<longleftrightarrow> ?a * ?t \<le> maxInt64"
    using le_div_iff [of ?a ?t maxInt64] assms(4) by (simp add: mult.commute)
  have rb: "0 < ?r \<Longrightarrow> ?b \<le> maxInt64 div ?r \<longleftrightarrow> ?r * ?b \<le> maxInt64"
    using le_div_iff [of ?r ?b maxInt64] by (simp add: mult.commute)
  have nn: "0 \<le> ?a * ?t" "0 \<le> ?r * ?b" using assms by simp_all
  have r64: "i64 ?r = ?r" using assms(3,4) by (intro i64_exact) (simp add: in64_def)
  have i: "in64 x" if "0 \<le> x" "x \<le> maxInt64" for x using that by (simp add: in64_def)
  show ?thesis
  proof (cases "?a * ?t \<le> maxInt64 \<and> ?r * ?b \<le> maxInt64")
    case True
    then have e: "i64 (?a * ?t) = ?a * ?t" "i64 (?r * ?b) = ?r * ?b" "i64 (maxInt64 - ?r * ?b) = maxInt64 - ?r * ?b"
      using nn by (intro i64_exact i; simp)+
    have g: "\<not> (0 < ?r \<and> maxInt64 div ?r < ?b)" using rb True by fastforce
    have s: "?a * ?t + ?r * ?b \<le> maxInt64 \<Longrightarrow> i64 (?a * ?t + ?r * ?b) = ?a * ?t + ?r * ?b"
      using nn by (intro i64_exact i) simp_all
    show ?thesis
      using True at g e s r64 assms(4) by (auto simp: logicalCallBudget_def exact_call_def Let_def not_less)
  next
    case False
    then have "\<not> exact_call p \<le> maxInt64" using nn by (auto simp: exact_call_def)
    moreover have "logicalCallBudget p = None"
    proof (cases "?a * ?t \<le> maxInt64")
      case t: True
      with False have "\<not> ?r * ?b \<le> maxInt64" by simp
      moreover from this have "0 < ?r" using assms(4) by (cases "?r = 0") (auto simp: maxInt64_def)
      ultimately have "maxInt64 div ?r < ?b" "0 < ?r" using rb by auto
      then show ?thesis using t at r64 assms(4) by (simp add: logicalCallBudget_def Let_def)
    next
      case t: False
      then show ?thesis using at by (simp add: logicalCallBudget_def Let_def)
    qed
    ultimately show ?thesis by simp
  qed
qed

lemma policyValidate_ok:
  assumes "policyValidate p = Inr ()"
  shows "0 < AttemptTimeout p \<and> 1 \<le> MaxAttempts p \<and> MaxAttempts p \<le> 3 \<and> 0 \<le> RetryBackoff p \<and>
    in64 (MaxAttempts p)"
  using assms by (auto simp: policyValidate_def in64_def maxInt64_def split: if_splits)

lemma policyValidate_call:
  assumes "policyValidate p = Inr ()"
  shows "logicalCallBudget p = Some (exact_call p) \<and> 0 < exact_call p \<and>
    exact_call p + OutcomePersistenceMargin \<le> maxInt64"
proof -
  note ok = policyValidate_ok [OF assms]
  have eq: "logicalCallBudget p = (if exact_call p \<le> maxInt64 then Some (exact_call p) else None)"
    by (rule logicalCallBudget_exact) (use ok in simp_all)
  have pos: "0 < MaxAttempts p * AttemptTimeout p" "0 \<le> (MaxAttempts p - 1) * RetryBackoff p" using ok by simp_all
  with assms eq show ?thesis
    by (auto simp: policyValidate_def exact_call_def split: if_splits)
qed

lemma jobProviderBudget_exact:
  assumes "policyValidate (Provider e) = Inr ()" and "1 \<le> MaxSlicesPerJob e"
  shows "jobProviderBudget e = (if exact_job e \<le> maxInt64 then Some (exact_job e) else None)"
proof -
  let ?f = "MaxSlicesPerJob e * serialCallsPerSlice e" and ?c = "exact_call (Provider e)"
  note call = policyValidate_call [OF assms(1)]
  have s: "0 < serialCallsPerSlice e" by (simp add: serialCallsPerSlice_def)
  then have f: "0 < ?f" using assms(2) by simp
  have slices: "MaxSlicesPerJob e \<le> maxInt64 div serialCallsPerSlice e \<longleftrightarrow> ?f \<le> maxInt64"
    by (rule le_div_iff [OF s])
  have job: "?f \<le> maxInt64 div ?c \<longleftrightarrow> exact_job e \<le> maxInt64"
    using le_div_iff [of ?c ?f maxInt64] call by (simp add: exact_job_def)
  have "?f * 1 \<le> ?f * ?c" by (rule mult_left_mono) (use call f in auto)
  then have le: "?f \<le> exact_job e" by (simp add: exact_job_def)
  have "?f \<le> maxInt64 \<Longrightarrow> i64 ?f = ?f" using f by (intro i64_exact) (simp add: in64_def)
  moreover have "exact_job e \<le> maxInt64 \<Longrightarrow> i64 (?f * ?c) = exact_job e"
    using f le by (simp add: i64_exact in64_def exact_job_def)
  ultimately show ?thesis
    using slices job call le assms(2) by (auto simp: jobProviderBudget_def Let_def not_less not_le)
qed

text \<open>C31. An envelope that validates leaves the worker time to persist the outcome: the worst case of a job,
  every slice with every attempt timing out and every retry backing off, computed exactly and
  without overflow, plus the persistence margin is strictly below the worker deadline.  Conversely
  every envelope with valid limits whose worst case fits is accepted.\<close>

theorem envelope_fits_deadline:
  assumes "in64 (WorkerJobTimeout e)"
  shows "envelopeValidate durationString e = Inr () \<longleftrightarrow>
    policyValidate (Provider e) = Inr () \<and> 1 \<le> MaxSlicesPerJob e \<and> 0 < WorkerJobTimeout e \<and>
    MaxSlicesPerJob e * serialCallsPerSlice e *
      (MaxAttempts (Provider e) * AttemptTimeout (Provider e) + (MaxAttempts (Provider e) - 1) * RetryBackoff (Provider e)) +
      OutcomePersistenceMargin < WorkerJobTimeout e"
proof (cases "policyValidate (Provider e) = Inr () \<and> 1 \<le> MaxSlicesPerJob e \<and> 0 < WorkerJobTimeout e")
  case True
  then have job: "jobProviderBudget e = (if exact_job e \<le> maxInt64 then Some (exact_job e) else None)"
    using jobProviderBudget_exact by blast
  have "0 \<le> exact_job e"
    using True policyValidate_call [of "Provider e"] by (simp add: exact_job_def serialCallsPerSlice_def)
  then have sum: "exact_job e \<le> maxInt64 - OutcomePersistenceMargin \<Longrightarrow>
      i64 (exact_job e + OutcomePersistenceMargin) = exact_job e + OutcomePersistenceMargin"
    by (intro i64_exact) (simp add: in64_def OutcomePersistenceMargin_def second_def millisecond_def)
  have "envelopeValidate durationString e = Inr () \<longleftrightarrow> exact_job e + OutcomePersistenceMargin < WorkerJobTimeout e"
    using True job sum assms
    by (auto simp: envelopeValidate_def in64_def OutcomePersistenceMargin_def second_def millisecond_def maxInt64_def
        split: if_splits)
  with True show ?thesis by (simp add: exact_job_def exact_call_def)
next
  case False
  then show ?thesis
    by (auto simp: envelopeValidate_def split: sum.splits)
qed

theorem envelope_fits_deadline_witness:
  "envelopeValidate show_int DefaultEnvelope = Inr () \<and>
   120 * second + OutcomePersistenceMargin < WorkerJobTimeout DefaultEnvelope"
proof -
  have w: "in64 (WorkerJobTimeout DefaultEnvelope)" by code_simp
  have "envelopeValidate show_int DefaultEnvelope = Inr ()" by code_simp
  with envelope_fits_deadline [OF w, of show_int] show ?thesis
    by (simp add: DefaultEnvelope_def DefaultProviderPolicy_def DefaultMaxSlicesPerJob_def serialCallsPerSlice_def)
qed

lemma Normalize_valid: "NormalizeProviderPolicy p = Inr q \<Longrightarrow> policyValidate q = Inr ()"
  by (auto simp: NormalizeProviderPolicy_def Let_def split: sum.splits)

end
