(* ===== verification/Extraction_Runtime.thy ===== *)
theory Extraction_Runtime
  imports Evidence_Lake Note_Ledger Extraction_Budget
begin

text \<open>
  The runtime that turns evidence into notes (\<open>internal/teamnote/runtime/app.go\<close>).  The lake, the
  extractor and the note store are the interfaces the code injects.  Every call to them carries the
  number of the call, so that a failure may strike at any call and the model's answer may change from
  one call to the next; the theorems hold for every such sequence of behaviours.  Log lines are not
  modelled; observations and usage records are.
\<close>

section \<open>Data\<close>

record usage =
  us_InputTokens :: int
  us_OutputTokens :: int
  us_PromptCacheHitTokens :: int
  us_PromptCacheMissTokens :: int

record extract_result =
  ex_Candidates :: "candidate list"
  ex_TransitionAuthorities :: "transition_authority list"
  ex_Usage :: usage
  ex_Model :: string
  ex_PromptVersion :: string
  ex_ExtractionVersion :: string
  ex_Rejections :: "candidate_rejection list"

record extraction_observation =
  ob_Actor :: actor
  ob_RunID :: string
  ob_StartedAt :: time
  ob_CompletedAt :: time
  ob_Status :: string
  ob_InputEvents :: int
  ob_Candidates :: int
  ob_InputTokens :: int
  ob_OutputTokens :: int

record 's note_store =
  ApplyExtractionRun :: "'s \<Rightarrow> go_context \<Rightarrow> string \<Rightarrow> extraction_run \<Rightarrow> 's \<times> team_note list res"

record runtime_config =
  cf_SliceEventLimit :: int
  cf_SliceTokenLimit :: int
  cf_SliceOverlap :: int
  cf_MaxSlicesPerJob :: int
  cf_TTLPolicy :: "ttl_policy option"

record ('r, 's) app =
  app_lake :: "nat \<Rightarrow> 'r lake_repository"
  app_extract :: "nat \<Rightarrow> go_context \<Rightarrow> lake_slice \<Rightarrow> extract_result \<times> go_error option"
  app_store :: "nat \<Rightarrow> 's note_store"
  app_clock :: "nat \<Rightarrow> time"
  app_config :: runtime_config
  app_observer :: bool
  app_recorder :: bool

record ('r, 's) world =
  w_lake :: 'r
  w_store :: 's
  w_observed :: "extraction_observation list"
  w_usage :: "(string \<times> usage) list"

section \<open>Construction\<close>

definition ExtractionVersionV1 :: string where "ExtractionVersionV1 = ''v1''"

text \<open>\<open>New\<close>: the checks and defaults of the configuration; the flags say whether the lake and the
  extractor were given.\<close>

definition newConfig :: "bool \<Rightarrow> bool \<Rightarrow> runtime_config \<Rightarrow> runtime_config res" where
  "newConfig hasLake hasExtractor config =
     (if \<not> hasLake \<or> \<not> hasExtractor
      then Inl (ErrorNew ''create runtime: lake and extractor are required'')
      else if cf_SliceOverlap config < 0
      then Inl (ErrorNew ''create runtime: slice overlap cannot be negative'')
      else Inr
        \<lparr>cf_SliceEventLimit = (if cf_SliceEventLimit config \<le> 0 then 25 else cf_SliceEventLimit config),
         cf_SliceTokenLimit = (if cf_SliceTokenLimit config \<le> 0 then 8192 else cf_SliceTokenLimit config),
         cf_SliceOverlap = (if cf_SliceOverlap config = 0 then 3 else cf_SliceOverlap config),
         cf_MaxSlicesPerJob = (if cf_MaxSlicesPerJob config \<le> 0 then DefaultMaxSlicesPerJob
           else cf_MaxSlicesPerJob config),
         cf_TTLPolicy = Some (case cf_TTLPolicy config of None \<Rightarrow> DefaultTTLPolicy | Some p \<Rightarrow> p)\<rparr>)"

definition configTTL :: "runtime_config \<Rightarrow> ttl_policy" where
  "configTTL config = (case cf_TTLPolicy config of None \<Rightarrow> [] | Some p \<Rightarrow> p)"

section \<open>Observation\<close>

definition ObserveSession ::
  "('r, 's) app \<Rightarrow> nat \<Rightarrow> 'r \<Rightarrow> go_context \<Rightarrow> session_batch \<Rightarrow> 'r \<times> ingest_receipt res" where
  "ObserveSession A i r ctx batch = Observe (app_lake A i) r ctx batch"

definition appObserveStream ::
  "('r, 's) app \<Rightarrow> nat \<Rightarrow> 'r \<Rightarrow> go_context \<Rightarrow> stream_batch \<Rightarrow> 'r \<times> ingest_receipt res" where
  "appObserveStream A i r ctx batch = ObserveStream (app_lake A i) r ctx batch"

definition extractionFailureStatus :: "go_error \<Rightarrow> string" where
  "extractionFailureStatus err =
     (if errors_is err context_DeadlineExceeded then ''timed_out''
      else if errors_is err context_Canceled then ''cancelled'' else ''failed'')"

definition extractionObservation ::
  "actor \<Rightarrow> lake_slice \<Rightarrow> extract_result \<Rightarrow> time \<Rightarrow> time \<Rightarrow> string \<Rightarrow> string \<Rightarrow> extraction_observation" where
  "extractionObservation a sl result startedAt completedAt status runID =
     \<lparr>ob_Actor = a, ob_RunID = runID, ob_StartedAt = startedAt, ob_CompletedAt = completedAt,
      ob_Status = status, ob_InputEvents = int (length (sl_Events sl)),
      ob_Candidates = int (length (ex_Candidates result)),
      ob_InputTokens = us_InputTokens (ex_Usage result), ob_OutputTokens = us_OutputTokens (ex_Usage result)\<rparr>"

definition observeExtraction ::
  "('r, 's) app \<Rightarrow> ('r, 's) world \<Rightarrow> extraction_observation \<Rightarrow> ('r, 's) world" where
  "observeExtraction A w observation =
     (if app_observer A then w\<lparr>w_observed := w_observed w @ [observation]\<rparr> else w)"

definition recordUsage :: "('r, 's) app \<Rightarrow> ('r, 's) world \<Rightarrow> extract_result \<Rightarrow> ('r, 's) world" where
  "recordUsage A w result =
     (if app_recorder A then w\<lparr>w_usage := w_usage w @ [(ex_Model result, ex_Usage result)]\<rparr> else w)"

section \<open>Extraction of one slice\<close>

definition extractionRunID :: "string \<Rightarrow> string \<Rightarrow> string" where
  "extractionRunID inputChecksum extractionVersion =
     (if extractionVersion = [] \<or> extractionVersion = ExtractionVersionV1 then inputChecksum
      else inputChecksum @ '':'' @ extractionVersion)"

fun filterLoop ::
  "ttl_policy \<Rightarrow> candidate list \<Rightarrow> candidate list \<Rightarrow> candidate_rejection list \<Rightarrow>
     candidate list \<times> candidate_rejection list" where
  "filterLoop policy [] kept rejections = (kept, rejections)"
| "filterLoop policy (cand # cands) kept rejections =
     (case ValidateCandidate cand policy of
        Inl e \<Rightarrow> filterLoop policy cands kept (rejections @ [\<lparr>rj_Candidate = cand, rj_Reason = error_text e\<rparr>])
      | Inr _ \<Rightarrow> filterLoop policy cands (kept @ [cand]) rejections)"

definition filterAdmissible :: "ttl_policy \<Rightarrow> extract_result \<Rightarrow> extract_result" where
  "filterAdmissible policy result =
     (if ex_Candidates result = [] then result
      else case filterLoop policy (ex_Candidates result) [] (ex_Rejections result) of
        (kept, rejections) \<Rightarrow> result\<lparr>ex_Candidates := kept, ex_Rejections := rejections\<rparr>)"

definition sliceRun :: "lake_slice \<Rightarrow> extract_result \<Rightarrow> extraction_run" where
  "sliceRun sl result =
     \<lparr>run_ID = extractionRunID (sl_InputChecksum sl) (ex_ExtractionVersion result), run_Actor = sl_Actor sl,
      run_FromSequence = sl_FromSequence sl, run_ToSequence = sl_ToSequence sl,
      run_InputChecksum = sl_InputChecksum sl, run_CandidateChecksum = [], run_Model = ex_Model result,
      run_PromptVersion = ex_PromptVersion result, run_InputTokens = us_InputTokens (ex_Usage result),
      run_OutputTokens = us_OutputTokens (ex_Usage result), run_Candidates = ex_Candidates result,
      run_TransitionAuthorities = ex_TransitionAuthorities result, run_Evidence = sl_Events sl,
      run_Rejections = ex_Rejections result\<rparr>"

definition applyExtractionRun ::
  "'s note_store \<Rightarrow> 's \<Rightarrow> go_context \<Rightarrow> lake_slice \<Rightarrow> extract_result \<Rightarrow> 's \<times> unit res" where
  "applyExtractionRun store st ctx sl result =
     (case ScopeFromContext ctx of
        Inl e \<Rightarrow> (st, Inl (wrapf ''apply extraction run: '' e))
      | Inr scopeID \<Rightarrow>
          (case ApplyExtractionRun store st ctx scopeID (sliceRun sl result) of
             (st', Inl e) \<Rightarrow> (st', Inl (wrapf (''apply extraction run '' @ quote (run_ID (sliceRun sl result)) @ '': '') e))
           | (st', Inr _) \<Rightarrow> (st', Inr ())))"

text \<open>What follows a slice whose run was applied or quarantined: commit, usage and observation.\<close>

definition finishSlice ::
  "('r, 's) app \<Rightarrow> go_context \<Rightarrow> actor \<Rightarrow> nat \<Rightarrow> ('r, 's) world \<Rightarrow> lake_slice \<Rightarrow> extract_result \<Rightarrow> bool \<Rightarrow>
     ('r, 's) world \<times> bool res" where
  "finishSlice A ctx a i w sl result quarantined =
     (let runID = extractionRunID (sl_InputChecksum sl) (ex_ExtractionVersion result);
          observation = extractionObservation a sl result (app_clock A (2 * i)) (app_clock A (2 * i + 1)) in
      case CommitSlice (app_lake A (2 * i + 1)) (w_lake w) ctx sl of
        (r, Inl e) \<Rightarrow>
          (observeExtraction A (w\<lparr>w_lake := r\<rparr>) (observation (extractionFailureStatus e) runID), Inl e)
      | (r, Inr _) \<Rightarrow>
          (observeExtraction A (recordUsage A (w\<lparr>w_lake := r\<rparr>) result)
             (observation (if quarantined then ''quarantined'' else ''completed'') runID), Inr True))"

text \<open>One turn of the loop of \<open>ProcessExtraction\<close>: \<open>Inr False\<close> when no event is left, \<open>Inr True\<close> when a
  slice was extracted and committed.\<close>

definition processSlice ::
  "('r, 's) app \<Rightarrow> go_context \<Rightarrow> actor \<Rightarrow> slice_policy \<Rightarrow> nat \<Rightarrow> ('r, 's) world \<Rightarrow> ('r, 's) world \<times> bool res" where
  "processSlice A ctx a policy i w =
     (case NextSlice (app_lake A (2 * i)) (w_lake w) ctx a policy of
        Inl e \<Rightarrow> (w, Inl (wrapf ''plan extraction: '' e))
      | Inr sl \<Rightarrow>
      if sl_Events sl = [] then (w, Inr False)
      else case app_extract A i ctx sl of
        (result, Some e) \<Rightarrow>
          (observeExtraction A w (extractionObservation a sl result (app_clock A (2 * i)) (app_clock A (2 * i + 1))
             (extractionFailureStatus e) []), Inl (wrapf ''extract candidates: '' e))
      | (extracted, None) \<Rightarrow>
          let result = filterAdmissible (configTTL (app_config A)) extracted;
              runID = extractionRunID (sl_InputChecksum sl) (ex_ExtractionVersion result) in
          (case applyExtractionRun (app_store A i) (w_store w) ctx sl result of
             (st, Inl e) \<Rightarrow>
               if \<not> errors_is e ErrExtractionRunQuarantined
               then (observeExtraction A (w\<lparr>w_store := st\<rparr>)
                      (extractionObservation a sl result (app_clock A (2 * i)) (app_clock A (2 * i + 1))
                        (extractionFailureStatus e) runID), Inl e)
               else finishSlice A ctx a i (w\<lparr>w_store := st\<rparr>) sl result True
           | (st, Inr _) \<Rightarrow> finishSlice A ctx a i (w\<lparr>w_store := st\<rparr>) sl result False))"

text \<open>The loop, \<open>n\<close> turns at most, then the check for a backlog.\<close>

fun processSlices ::
  "('r, 's) app \<Rightarrow> go_context \<Rightarrow> actor \<Rightarrow> slice_policy \<Rightarrow> nat \<Rightarrow> nat \<Rightarrow> ('r, 's) world \<Rightarrow>
     ('r, 's) world \<times> bool res" where
  "processSlices A ctx a policy 0 i w =
     (case NextSlice (app_lake A (2 * i)) (w_lake w) ctx a policy of
        Inl e \<Rightarrow> (w, Inl (wrapf ''check extraction backlog: '' e))
      | Inr next_slice \<Rightarrow> (w, Inr (sl_NewEventIDs next_slice \<noteq> [])))"
| "processSlices A ctx a policy (Suc n) i w =
     (case processSlice A ctx a policy i w of
        (w', Inl e) \<Rightarrow> (w', Inl e)
      | (w', Inr False) \<Rightarrow> (w', Inr False)
      | (w', Inr True) \<Rightarrow> processSlices A ctx a policy n (Suc i) w')"

definition extractionPolicy :: "runtime_config \<Rightarrow> int \<Rightarrow> slice_policy" where
  "extractionPolicy config throughCursor =
     \<lparr>EventLimit = cf_SliceEventLimit config, TokenLimit = cf_SliceTokenLimit config,
      Overlap = cf_SliceOverlap config, ThroughSequence = throughCursor\<rparr>"

definition ProcessExtraction ::
  "('r, 's) app \<Rightarrow> ('r, 's) world \<Rightarrow> go_context \<Rightarrow> actor \<Rightarrow> int \<Rightarrow> bool \<Rightarrow> ('r, 's) world \<times> bool res" where
  "ProcessExtraction A w ctx a throughCursor requireCurrent =
     (let policy = extractionPolicy (app_config A) throughCursor;
          run = processSlices A ctx a policy (nat (cf_MaxSlicesPerJob (app_config A))) 0 w in
      if requireCurrent
      then (case IsCurrent (app_lake A 0) (w_lake w) ctx a throughCursor of
              Inl e \<Rightarrow> (w, Inl e)
            | Inr current \<Rightarrow> if current then run else (w, Inr False))
      else run)"

text \<open>The in-memory store as the runtime receives it, one clock per application.\<close>

definition ledger_note_store :: "marshaler \<Rightarrow> (nat \<Rightarrow> time) \<Rightarrow> scoped_ledger_store note_store" where
  "ledger_note_store marshal clock = \<lparr>ApplyExtractionRun = storeApplyExtractionRun marshal clock\<rparr>"

end
