(* ===== verification/Session_Repository.thy ===== *)
theory Session_Repository
  imports Evidence_Lake
begin

text \<open>
  The PostgreSQL adapter of the evidence lake (\<open>internal/platform/postgres/sessions.go\<close> and
  \<open>streams.go\<close>): the tables \<open>session_events\<close> and \<open>session_streams\<close> with their keys
  (\<open>migrations/001_init.sql\<close>, \<open>021_evidence_streams.sql\<close>), one definition per statement and per
  operation, a transaction as a computation whose result is kept only when every step of it
  succeeded.  \<open>fault\<close> says which step of the database fails, by the message the code gives it;
  every theorem holds for every \<open>fault\<close>.  \<open>now\<close> is \<open>NOW()\<close> of the transaction.
\<close>

section \<open>Tables\<close>

record event_row =
  row_scope :: string
  row_event_id :: string
  row_source :: string
  row_stream :: string
  row_author :: author
  row_user :: string
  row_agent :: string
  row_session :: string
  row_sequence :: int
  row_kind :: string
  row_type :: string
  row_content :: string
  row_task :: string
  row_thread :: string
  row_visibility :: string
  row_occurred :: time
  row_captured :: time
  row_extracted :: "time option"
  row_metadata :: "(string, string) gomap"

record stream_row =
  st_user :: string
  st_agent :: string
  st_session :: string
  st_last_sequence :: int
  st_cursor :: int
  st_complete :: bool
  st_updated :: time
  st_visibility :: string

type_synonym stream_key = "string \<times> string \<times> string"
type_synonym enqueuer = "string \<Rightarrow> actor \<Rightarrow> int \<Rightarrow> bool \<Rightarrow> string res"
type_synonym db_fault = "string \<Rightarrow> go_error option"

record extraction_job =
  job_ID :: string
  job_scope :: string
  job_actor :: actor
  job_cursor :: int
  job_complete :: bool

record pg =
  pg_events :: "event_row list"
  pg_streams :: "(stream_key, stream_row) gomap"
  pg_jobs :: "extraction_job list"
  pg_enqueuer :: "enqueuer option"

definition ErrInvalidSessionBatch :: go_error where
  "ErrInvalidSessionBatch = Sentinel ''invalid session batch''"

definition uniqueViolation :: go_error where
  "uniqueViolation = ErrorNew ''duplicate key value violates unique constraint''"

definition checkViolation :: go_error where
  "checkViolation = ErrorNew ''new row violates check constraint''"

text \<open>\<open>INSERT INTO session_events ... ON CONFLICT (scope_id, event_id) DO NOTHING\<close>: the new table
  and the number of rows it affected.\<close>

definition insertEvent :: "event_row \<Rightarrow> event_row list \<Rightarrow> (event_row list \<times> nat) res" where
  "insertEvent row rows =
     (if row_sequence row \<le> 0 then Inl checkViolation
      else if \<exists>r \<in> set rows. row_scope r = row_scope row \<and> row_event_id r = row_event_id row
      then Inr (rows, 0)
      else if \<exists>r \<in> set rows. row_scope r = row_scope row \<and> row_source r = row_source row \<and>
              row_stream r = row_stream row \<and> row_sequence r = row_sequence row
      then Inl uniqueViolation
      else Inr (rows @ [row], 1))"

text \<open>Leaving a transaction with an error: the deferred rollback may fail and joins its error.\<close>

definition abort :: "db_fault \<Rightarrow> string \<Rightarrow> go_error \<Rightarrow> go_error" where
  "abort fault label err =
     (case fault label of None \<Rightarrow> err | Some e \<Rightarrow> Join err (wrapf (label @ '': '') e))"

definition step :: "db_fault \<Rightarrow> string \<Rightarrow> unit res" where
  "step fault label = (case fault label of None \<Rightarrow> Inr () | Some e \<Rightarrow> Inl (wrapf (label @ '': '') e))"

section \<open>Session ingestion\<close>

definition ConfigureExtractionEnqueuer :: "pg \<Rightarrow> enqueuer option \<Rightarrow> pg \<times> unit res" where
  "ConfigureExtractionEnqueuer db enq =
     (case enq of
        None \<Rightarrow> (db, Inl (ErrorNew ''configure extraction enqueuer: enqueuer is required''))
      | Some f \<Rightarrow>
          (case pg_enqueuer db of
             Some _ \<Rightarrow> (db, Inl (ErrorNew ''configure extraction enqueuer: already configured''))
           | None \<Rightarrow> (db\<lparr>pg_enqueuer := Some f\<rparr>, Inr ())))"

definition extractionEnqueuer :: "pg \<Rightarrow> enqueuer option" where
  "extractionEnqueuer db = pg_enqueuer db"

definition validateBatchEvent :: "actor \<Rightarrow> session_event \<Rightarrow> unit res" where
  "validateBatchEvent first event =
     (if blank (ev_ID event) \<or> ev_Sequence event \<le> 0 \<or> ev_OccurredAt event = 0
      then Inl (wrapf ''event identity: '' ErrInvalidSessionBatch)
      else if ev_Actor event \<noteq> first \<or> blank (UserID (ev_Actor event)) \<or>
              blank (AgentID (ev_Actor event)) \<or> blank (SessionID (ev_Actor event))
      then Inl (wrapf ''mixed or empty actor: '' ErrInvalidSessionBatch)
      else Inr ())"

primrec validateBatchEvents :: "actor \<Rightarrow> session_event list \<Rightarrow> unit res" where
  "validateBatchEvents first [] = Inr ()"
| "validateBatchEvents first (event # events) =
     (case validateBatchEvent first event of
        Inl e \<Rightarrow> Inl e | Inr _ \<Rightarrow> validateBatchEvents first events)"

definition validateBatch :: "string \<Rightarrow> session_batch \<Rightarrow> unit res" where
  "validateBatch scopeID batch =
     (case sb_Events batch of
        [] \<Rightarrow> Inl (wrapf ''scope or events: '' ErrInvalidSessionBatch)
      | event # _ \<Rightarrow>
          if blank scopeID then Inl (wrapf ''scope or events: '' ErrInvalidSessionBatch)
          else validateBatchEvents (ev_Actor event) (sb_Events batch))"

definition sessionRow :: "string \<Rightarrow> time \<Rightarrow> session_event \<Rightarrow> event_row" where
  "sessionRow scopeID now event =
     (let stream = StreamFromActor (ev_Actor event) in
      \<lparr>row_scope = scopeID, row_event_id = ev_ID event, row_source = Source stream,
       row_stream = StreamID stream, row_author = AuthorFromActor (ev_Actor event),
       row_user = UserID (ev_Actor event), row_agent = AgentID (ev_Actor event),
       row_session = SessionID (ev_Actor event), row_sequence = ev_Sequence event,
       row_kind = ''text'', row_type = ev_Type event, row_content = ev_Content event,
       row_task = ev_TaskRef event, row_thread = ev_ThreadRef event,
       row_visibility = ev_Visibility event, row_occurred = ev_OccurredAt event,
       row_captured = now, row_extracted = None, row_metadata = ev_Metadata event\<rparr>)"

fun appendEvents ::
  "db_fault \<Rightarrow> time \<Rightarrow> string \<Rightarrow> session_event list \<Rightarrow> event_row list \<Rightarrow> ingest_receipt \<Rightarrow>
     (event_row list \<times> ingest_receipt) res" where
  "appendEvents fault now scopeID [] rows receipt = Inr (rows, receipt)"
| "appendEvents fault now scopeID (event # events) rows receipt =
     (let label = ''insert session event '' @ quote (ev_ID event) in
      case step fault label of
        Inl e \<Rightarrow> Inl e
      | Inr _ \<Rightarrow>
        (case insertEvent (sessionRow scopeID now event) rows of
           Inl e \<Rightarrow> Inl (wrapf (label @ '': '') e)
         | Inr (rows', affected) \<Rightarrow>
             appendEvents fault now scopeID events rows'
               (receipt\<lparr>rc_Duplicate := rc_Duplicate receipt + (if affected = 0 then 1 else 0),
                        rc_Accepted := rc_Accepted receipt + (if affected = 0 then 0 else 1),
                        rc_Cursor := (if ev_Sequence event > rc_Cursor receipt
                                      then ev_Sequence event else rc_Cursor receipt)\<rparr>)))"

definition upsertStream ::
  "time \<Rightarrow> string \<Rightarrow> actor \<Rightarrow> bool \<Rightarrow> int \<Rightarrow> (stream_key, stream_row) gomap \<Rightarrow>
     (stream_key, stream_row) gomap" where
  "upsertStream now scopeID a complete cur streams =
     (let stream = StreamFromActor a; key = (scopeID, Source stream, StreamID stream) in
      mput key
        (case mget streams key of
           None \<Rightarrow> \<lparr>st_user = UserID a, st_agent = AgentID a, st_session = SessionID a,
                    st_last_sequence = cur, st_cursor = 0, st_complete = complete,
                    st_updated = now, st_visibility = ''team''\<rparr>
         | Some st \<Rightarrow> st\<lparr>st_last_sequence := max (st_last_sequence st) cur,
                        st_complete := (st_complete st \<or> complete), st_updated := now\<rparr>)
        streams)"

definition emptyReceipt :: ingest_receipt where
  "emptyReceipt = \<lparr>rc_Accepted = 0, rc_Duplicate = 0, rc_Cursor = 0, rc_RunID = []\<rparr>"

text \<open>The work of the transaction of \<open>AppendSession\<close>, before its commit.\<close>

definition appendSessionTx ::
  "db_fault \<Rightarrow> time \<Rightarrow> pg \<Rightarrow> string \<Rightarrow> actor \<Rightarrow> session_batch \<Rightarrow> (pg \<times> ingest_receipt) res" where
  "appendSessionTx fault now db scopeID a batch =
     (case appendEvents fault now scopeID (sb_Events batch) (pg_events db) emptyReceipt of
        Inl e \<Rightarrow> Inl e
      | Inr (rows, receipt) \<Rightarrow>
        (case step fault ''upsert session stream'' of
           Inl e \<Rightarrow> Inl e
         | Inr _ \<Rightarrow>
           let db' = db\<lparr>pg_events := rows,
                        pg_streams := upsertStream now scopeID a (sb_Complete batch)
                          (rc_Cursor receipt) (pg_streams db)\<rparr> in
           (case extractionEnqueuer db of
              None \<Rightarrow> Inr (db', receipt)
            | Some enqueue \<Rightarrow>
              (case enqueue scopeID a (rc_Cursor receipt) (sb_Complete batch) of
                 Inl e \<Rightarrow> Inl (wrapf ''enqueue extraction: '' e)
               | Inr jobID \<Rightarrow>
                   Inr (db'\<lparr>pg_jobs := pg_jobs db @
                          [\<lparr>job_ID = jobID, job_scope = scopeID, job_actor = a,
                            job_cursor = rc_Cursor receipt, job_complete = sb_Complete batch\<rparr>]\<rparr>,
                        receipt\<lparr>rc_RunID := jobID\<rparr>)))))"

definition pgAppendSession ::
  "db_fault \<Rightarrow> time \<Rightarrow> pg \<Rightarrow> string \<Rightarrow> session_batch \<Rightarrow> pg \<times> ingest_receipt res" where
  "pgAppendSession fault now db scopeID batch =
     (case validateBatch scopeID batch of
        Inl e \<Rightarrow> (db, Inl e)
      | Inr _ \<Rightarrow>
        (case step fault ''begin append session'' of
           Inl e \<Rightarrow> (db, Inl e)
         | Inr _ \<Rightarrow>
           (case appendSessionTx fault now db scopeID (ev_Actor (hd (sb_Events batch))) batch of
              Inl e \<Rightarrow> (db, Inl (abort fault ''rollback append session'' e))
            | Inr (db', receipt) \<Rightarrow>
              (case step fault ''commit append session'' of
                 Inl e \<Rightarrow> (db, Inl (abort fault ''rollback append session'' e))
               | Inr _ \<Rightarrow> (db', Inr receipt)))))"

section \<open>Reading a session\<close>

definition sessionMatch :: "string \<Rightarrow> actor \<Rightarrow> event_row \<Rightarrow> bool" where
  "sessionMatch scopeID a r \<longleftrightarrow> row_scope r = scopeID \<and> row_agent r = AgentID a \<and>
     row_session r = SessionID a \<and> row_source r = SourceAgentSession"

definition streamMatch :: "string \<Rightarrow> actor \<Rightarrow> stream_key \<times> stream_row \<Rightarrow> bool" where
  "streamMatch scopeID a kr \<longleftrightarrow> fst (fst kr) = scopeID \<and> st_agent (snd kr) = AgentID a \<and>
     st_session (snd kr) = SessionID a \<and> fst (snd (fst kr)) = SourceAgentSession"

definition scanSessionEvent :: "event_row \<Rightarrow> session_event" where
  "scanSessionEvent r =
     \<lparr>ev_ID = row_event_id r,
      ev_Actor = \<lparr>UserID = row_user r, AgentID = row_agent r, SessionID = row_session r\<rparr>,
      ev_Sequence = row_sequence r, ev_Type = row_type r, ev_Content = row_content r,
      ev_TaskRef = row_task r, ev_ThreadRef = row_thread r, ev_Visibility = row_visibility r,
      ev_OccurredAt = row_occurred r, ev_CapturedAt = row_captured r,
      ev_ExtractedAt = row_extracted r, ev_Metadata = row_metadata r\<rparr>"

definition pgSessionLatestSequence :: "db_fault \<Rightarrow> pg \<Rightarrow> string \<Rightarrow> actor \<Rightarrow> int res" where
  "pgSessionLatestSequence fault db scopeID a =
     (if blank scopeID \<or> blank (AgentID a) \<or> blank (SessionID a)
      then Inl (wrapf ''read session head: '' ErrInvalidSessionBatch)
      else case step fault ''read session head'' of
        Inl e \<Rightarrow> Inl e
      | Inr _ \<Rightarrow>
        (case find (streamMatch scopeID a) (pg_streams db) of
           None \<Rightarrow> Inr 0 | Some (_, st) \<Rightarrow> Inr (st_last_sequence st)))"

definition pgSessionEvents ::
  "db_fault \<Rightarrow> pg \<Rightarrow> string \<Rightarrow> actor \<Rightarrow> int \<Rightarrow> int \<Rightarrow> session_event list res" where
  "pgSessionEvents fault db scopeID a after limit =
     (if blank scopeID \<or> blank (AgentID a) \<or> blank (SessionID a) \<or> limit \<le> 0
      then Inl (wrapf ''list session events: '' ErrInvalidSessionBatch)
      else case step fault ''query session events'' of
        Inl e \<Rightarrow> Inl e
      | Inr _ \<Rightarrow>
        case step fault ''scan session events'' of
        Inl e \<Rightarrow> Inl e
      | Inr _ \<Rightarrow>
        Inr (map scanSessionEvent (take (nat limit) (sort_key row_sequence
          (filter (\<lambda>r. sessionMatch scopeID a r \<and> after < row_sequence r) (pg_events db))))))"

definition pgSessionEventsBefore ::
  "db_fault \<Rightarrow> pg \<Rightarrow> string \<Rightarrow> actor \<Rightarrow> int \<Rightarrow> int \<Rightarrow> session_event list res" where
  "pgSessionEventsBefore fault db scopeID a atOrBefore limit =
     (if blank scopeID \<or> blank (AgentID a) \<or> blank (SessionID a) \<or> atOrBefore \<le> 0 \<or> limit \<le> 0
      then Inl (wrapf ''list session overlap: '' ErrInvalidSessionBatch)
      else case step fault ''query session overlap'' of
        Inl e \<Rightarrow> Inl e
      | Inr _ \<Rightarrow>
        case step fault ''scan session overlap'' of
        Inl e \<Rightarrow> Inl e
      | Inr _ \<Rightarrow>
        Inr (rev (map scanSessionEvent (take (nat limit) (rev (sort_key row_sequence
          (filter (\<lambda>r. sessionMatch scopeID a r \<and> row_sequence r \<le> atOrBefore) (pg_events db))))))))"

definition pgExtractionCursor :: "db_fault \<Rightarrow> pg \<Rightarrow> string \<Rightarrow> actor \<Rightarrow> int res" where
  "pgExtractionCursor fault db scopeID a =
     (case step fault ''read extraction cursor'' of
        Inl e \<Rightarrow> Inl e
      | Inr _ \<Rightarrow>
        (case find (streamMatch scopeID a) (pg_streams db) of
           None \<Rightarrow> Inr 0 | Some (_, st) \<Rightarrow> Inr (st_cursor st)))"

section \<open>Advancing the extraction cursor\<close>

definition advanceRow ::
  "time \<Rightarrow> string \<Rightarrow> actor \<Rightarrow> int \<Rightarrow> stream_key \<times> stream_row \<Rightarrow> stream_key \<times> stream_row" where
  "advanceRow now scopeID a cur kr =
     (if streamMatch scopeID a kr \<and> cur \<le> st_last_sequence (snd kr)
      then (fst kr, (snd kr)\<lparr>st_cursor := max (st_cursor (snd kr)) cur, st_updated := now\<rparr>)
      else kr)"

definition advanceStreams ::
  "time \<Rightarrow> string \<Rightarrow> actor \<Rightarrow> int \<Rightarrow> (stream_key, stream_row) gomap \<Rightarrow> (stream_key, stream_row) gomap"
where
  "advanceStreams now scopeID a cur streams = map (advanceRow now scopeID a cur) streams"

definition extractedRow :: "time \<Rightarrow> string \<Rightarrow> actor \<Rightarrow> int \<Rightarrow> event_row \<Rightarrow> event_row" where
  "extractedRow now scopeID a cur r =
     (if sessionMatch scopeID a r \<and> row_sequence r \<le> cur
      then r\<lparr>row_extracted := Some (case row_extracted r of None \<Rightarrow> now | Some t \<Rightarrow> t)\<rparr>
      else r)"

definition markExtracted :: "time \<Rightarrow> string \<Rightarrow> actor \<Rightarrow> int \<Rightarrow> event_row list \<Rightarrow> event_row list" where
  "markExtracted now scopeID a cur rows = map (extractedRow now scopeID a cur) rows"

definition advanceTx :: "db_fault \<Rightarrow> time \<Rightarrow> pg \<Rightarrow> string \<Rightarrow> actor \<Rightarrow> int \<Rightarrow> pg res" where
  "advanceTx fault now db scopeID a cur =
     (case step fault ''advance extraction cursor'' of
        Inl e \<Rightarrow> Inl e
      | Inr _ \<Rightarrow>
        if length (filter (\<lambda>kr. streamMatch scopeID a kr \<and> cur \<le> st_last_sequence (snd kr))
             (pg_streams db)) \<noteq> 1
        then Inl (wrapf ''advance extraction cursor: '' ErrInvalidSessionBatch)
        else case step fault ''mark session events extracted'' of
          Inl e \<Rightarrow> Inl e
        | Inr _ \<Rightarrow>
          (case step fault ''commit extraction cursor update'' of
             Inl e \<Rightarrow> Inl e
           | Inr _ \<Rightarrow>
             Inr (db\<lparr>pg_streams := advanceStreams now scopeID a cur (pg_streams db),
                     pg_events := markExtracted now scopeID a cur (pg_events db)\<rparr>)))"

definition pgAdvanceExtractionCursor ::
  "db_fault \<Rightarrow> time \<Rightarrow> pg \<Rightarrow> string \<Rightarrow> actor \<Rightarrow> int \<Rightarrow> pg \<times> unit res" where
  "pgAdvanceExtractionCursor fault now db scopeID a cur =
     (case step fault ''begin extraction cursor update'' of
        Inl e \<Rightarrow> (db, Inl e)
      | Inr _ \<Rightarrow>
        (case advanceTx fault now db scopeID a cur of
           Inl e \<Rightarrow> (db, Inl (abort fault ''rollback extraction cursor update'' e))
         | Inr db' \<Rightarrow> (db', Inr ())))"

section \<open>Generalised streams\<close>

definition streamRow :: "string \<Rightarrow> stream \<Rightarrow> time \<Rightarrow> int \<Rightarrow> stream_event \<Rightarrow> event_row" where
  "streamRow scopeID stream now seq event =
     \<lparr>row_scope = scopeID, row_event_id = se_ID event, row_source = Source stream,
      row_stream = StreamID stream, row_author = se_Author event, row_user = [], row_agent = [],
      row_session = [], row_sequence = seq, row_kind = se_Kind event, row_type = se_Type event,
      row_content = se_Content event, row_task = [], row_thread = se_ThreadRef event,
      row_visibility = se_Visibility event, row_occurred = se_OccurredAt event,
      row_captured = now, row_extracted = None, row_metadata = se_Metadata event\<rparr>"

text \<open>The loop of \<open>AppendStream\<close>: rows, last sequence, accepted, duplicate.\<close>

fun appendStreamEvents ::
  "db_fault \<Rightarrow> time \<Rightarrow> string \<Rightarrow> stream \<Rightarrow> stream_event list \<Rightarrow> event_row list \<Rightarrow> int \<Rightarrow> int \<Rightarrow> int \<Rightarrow>
     (event_row list \<times> int \<times> int \<times> int) res" where
  "appendStreamEvents fault now scopeID stream [] rows lastSequence accepted duplicate =
     Inr (rows, lastSequence, accepted, duplicate)"
| "appendStreamEvents fault now scopeID stream (event # events) rows lastSequence accepted duplicate =
     (let label = ''insert stream event '' @ quote (se_ID event) in
      case step fault label of
        Inl e \<Rightarrow> Inl e
      | Inr _ \<Rightarrow>
        (case insertEvent (streamRow scopeID stream now (lastSequence + 1) event) rows of
           Inl e \<Rightarrow> Inl (wrapf (label @ '': '') e)
         | Inr (rows', affected) \<Rightarrow>
             if affected = 0
             then appendStreamEvents fault now scopeID stream events rows' lastSequence accepted (duplicate + 1)
             else appendStreamEvents fault now scopeID stream events rows' (lastSequence + 1) (accepted + 1) duplicate))"

definition ensureStream ::
  "time \<Rightarrow> stream_key \<Rightarrow> (stream_key, stream_row) gomap \<Rightarrow> (stream_key, stream_row) gomap" where
  "ensureStream now key streams =
     (case mget streams key of
        Some _ \<Rightarrow> streams
      | None \<Rightarrow> mput key
          \<lparr>st_user = [], st_agent = [], st_session = [], st_last_sequence = 0, st_cursor = 0,
           st_complete = False, st_updated = now, st_visibility = VisibilityTeam\<rparr> streams)"

definition advanceHead ::
  "time \<Rightarrow> stream_key \<Rightarrow> int \<Rightarrow> bool \<Rightarrow> (stream_key, stream_row) gomap \<Rightarrow> (stream_key, stream_row) gomap"
where
  "advanceHead now key lastSequence complete streams =
     (case mget streams key of
        None \<Rightarrow> streams
      | Some st \<Rightarrow> mput key (st\<lparr>st_last_sequence := lastSequence,
          st_complete := (st_complete st \<or> complete), st_updated := now\<rparr>) streams)"

definition appendStreamTx ::
  "db_fault \<Rightarrow> time \<Rightarrow> pg \<Rightarrow> string \<Rightarrow> stream \<Rightarrow> stream_batch \<Rightarrow> (pg \<times> ingest_receipt) res" where
  "appendStreamTx fault now db scopeID stream batch =
     (let key = (scopeID, Source stream, StreamID stream) in
      case step fault ''ensure stream row'' of
        Inl e \<Rightarrow> Inl e
      | Inr _ \<Rightarrow>
        let streams = ensureStream now key (pg_streams db) in
        (case step fault ''lock stream row'' of
           Inl e \<Rightarrow> Inl e
         | Inr _ \<Rightarrow>
           let lastSequence = (case mget streams key of None \<Rightarrow> 0 | Some st \<Rightarrow> st_last_sequence st) in
           (case appendStreamEvents fault now scopeID stream (stb_Events batch) (pg_events db)
                   lastSequence 0 0 of
              Inl e \<Rightarrow> Inl e
            | Inr (rows, lastSequence', accepted, duplicate) \<Rightarrow>
              (case step fault ''advance stream head'' of
                 Inl e \<Rightarrow> Inl e
               | Inr _ \<Rightarrow>
                 Inr (db\<lparr>pg_events := rows,
                        pg_streams := advanceHead now key lastSequence' (stb_Complete batch) streams\<rparr>,
                      \<lparr>rc_Accepted = accepted, rc_Duplicate = duplicate, rc_Cursor = lastSequence',
                       rc_RunID = []\<rparr>)))))"

definition pgAppendStream ::
  "db_fault \<Rightarrow> time \<Rightarrow> pg \<Rightarrow> string \<Rightarrow> stream_batch \<Rightarrow> pg \<times> ingest_receipt res" where
  "pgAppendStream fault now db scopeID batch =
     (case ValidateStreamBatch batch of
        Inl e \<Rightarrow> (db, Inl (wrapf ''append stream: '' e))
      | Inr _ \<Rightarrow>
        (case step fault ''begin append stream'' of
           Inl e \<Rightarrow> (db, Inl e)
         | Inr _ \<Rightarrow>
           (case appendStreamTx fault now db scopeID (se_Stream (hd (stb_Events batch))) batch of
              Inl e \<Rightarrow> (db, Inl (abort fault ''rollback append stream'' e))
            | Inr (db', receipt) \<Rightarrow>
              (case step fault ''commit append stream'' of
                 Inl e \<Rightarrow> (db, Inl (abort fault ''rollback append stream'' e))
               | Inr _ \<Rightarrow> (db', Inr receipt)))))"

definition scanStreamEvent :: "event_row \<Rightarrow> stream_event" where
  "scanStreamEvent r =
     \<lparr>se_ID = row_event_id r, se_Stream = \<lparr>Source = row_source r, StreamID = row_stream r\<rparr>,
      se_Author = row_author r, se_Sequence = row_sequence r, se_Kind = row_kind r,
      se_Type = row_type r, se_Content = row_content r, se_Media = None,
      se_ThreadRef = row_thread r, se_Visibility = row_visibility r,
      se_OccurredAt = row_occurred r, se_CapturedAt = row_captured r, se_Metadata = row_metadata r\<rparr>"

definition pgStreamEvents ::
  "db_fault \<Rightarrow> pg \<Rightarrow> string \<Rightarrow> stream \<Rightarrow> int \<Rightarrow> int \<Rightarrow> stream_event list res" where
  "pgStreamEvents fault db scopeID stream after limit =
     (if scopeID = [] \<or> Source stream = [] \<or> StreamID stream = [] \<or> limit \<le> 0
      then Inl (wrapf ''list stream events: '' ErrInvalidSessionBatch)
      else case step fault ''query stream events'' of
        Inl e \<Rightarrow> Inl e
      | Inr _ \<Rightarrow>
        case step fault ''scan stream events'' of
        Inl e \<Rightarrow> Inl e
      | Inr _ \<Rightarrow>
        Inr (map scanStreamEvent (take (nat limit) (sort_key row_sequence
          (filter (\<lambda>r. row_scope r = scopeID \<and> row_source r = Source stream \<and>
             row_stream r = StreamID stream \<and> after < row_sequence r) (pg_events db))))))"

text \<open>The adapter, as the lake receives it.\<close>

definition postgres_repository :: "db_fault \<Rightarrow> time \<Rightarrow> pg lake_repository" where
  "postgres_repository fault now =
     \<lparr>AppendSession = pgAppendSession fault now, SessionEvents = pgSessionEvents fault,
      SessionEventsBefore = pgSessionEventsBefore fault,
      SessionLatestSequence = pgSessionLatestSequence fault,
      ExtractionCursor = pgExtractionCursor fault,
      AdvanceExtractionCursor = pgAdvanceExtractionCursor fault now,
      AppendStream = pgAppendStream fault now, StreamEvents = pgStreamEvents fault\<rparr>"

definition emptyDatabase :: pg where
  "emptyDatabase = \<lparr>pg_events = [], pg_streams = [], pg_jobs = [], pg_enqueuer = None\<rparr>"

section \<open>The invariant of the tables\<close>

definition row_key :: "event_row \<Rightarrow> stream_key" where
  "row_key r = (row_scope r, row_source r, row_stream r)"

definition wf_row :: "event_row \<Rightarrow> bool" where
  "wf_row r \<longleftrightarrow> 0 < row_sequence r \<and>
     (row_source r = SourceAgentSession \<longrightarrow> row_stream r = row_agent r @ '':'' @ row_session r)"

definition wf_events :: "event_row list \<Rightarrow> bool" where
  "wf_events rows \<longleftrightarrow>
     distinct (map (\<lambda>r. (row_scope r, row_event_id r)) rows) \<and>
     distinct (map (\<lambda>r. (row_key r, row_sequence r)) rows) \<and> (\<forall>r \<in> set rows. wf_row r)"

definition wf_stream :: "stream_key \<times> stream_row \<Rightarrow> bool" where
  "wf_stream kr \<longleftrightarrow> 0 \<le> st_cursor (snd kr) \<and> st_cursor (snd kr) \<le> st_last_sequence (snd kr) \<and>
     (fst (snd (fst kr)) = SourceAgentSession \<longrightarrow>
        snd (snd (fst kr)) = st_agent (snd kr) @ '':'' @ st_session (snd kr))"

definition wf_streams :: "(stream_key, stream_row) gomap \<Rightarrow> bool" where
  "wf_streams streams \<longleftrightarrow> mwf streams \<and> (\<forall>kr \<in> set streams. wf_stream kr)"

definition below_head :: "(stream_key, stream_row) gomap \<Rightarrow> event_row \<Rightarrow> bool" where
  "below_head streams r \<longleftrightarrow>
     (\<exists>st. mget streams (row_key r) = Some st \<and> row_sequence r \<le> st_last_sequence st)"

definition pg_inv :: "pg \<Rightarrow> bool" where
  "pg_inv db \<longleftrightarrow> wf_events (pg_events db) \<and> wf_streams (pg_streams db) \<and>
     (\<forall>r \<in> set (pg_events db). below_head (pg_streams db) r)"

lemma pg_inv_empty: "pg_inv emptyDatabase"
  by (simp add: pg_inv_def emptyDatabase_def wf_events_def wf_streams_def)

definition stored_session :: "pg \<Rightarrow> string \<Rightarrow> actor \<Rightarrow> session_event list" where
  "stored_session db s a =
     map scanSessionEvent (sort_key row_sequence (filter (sessionMatch s a) (pg_events db)))"

definition stored_cursor :: "pg \<Rightarrow> string \<Rightarrow> actor \<Rightarrow> int" where
  "stored_cursor db s a =
     (case find (streamMatch s a) (pg_streams db) of None \<Rightarrow> 0 | Some (_, st) \<Rightarrow> st_cursor st)"

lemma scan_sequence [simp]: "ev_Sequence (scanSessionEvent r) = row_sequence r"
  by (simp add: scanSessionEvent_def)

subsection \<open>Reading\<close>

lemma sessionMatch_key:
  "wf_row r \<Longrightarrow> sessionMatch s a r \<Longrightarrow>
     row_key r = (s, SourceAgentSession, AgentID a @ '':'' @ SessionID a)"
  by (auto simp: wf_row_def sessionMatch_def row_key_def)

lemma session_sequences_distinct:
  assumes "wf_events rows"
  shows "distinct (map row_sequence (filter (sessionMatch s a) rows))"
proof -
  from assms have inj: "inj_on (\<lambda>r. (row_key r, row_sequence r)) (set rows)"
    and dist: "distinct rows" and wf: "\<forall>r \<in> set rows. wf_row r"
    by (auto simp: wf_events_def distinct_map)
  have "inj_on row_sequence (set (filter (sessionMatch s a) rows))"
  proof (rule inj_onI)
    fix x y
    assume xy: "x \<in> set (filter (sessionMatch s a) rows)" "y \<in> set (filter (sessionMatch s a) rows)"
      and eq: "row_sequence x = row_sequence y"
    with wf have "row_key x = row_key y"
      using sessionMatch_key [of x s a] sessionMatch_key [of y s a] by simp
    with eq xy inj show "x = y" by (auto dest: inj_onD)
  qed
  with dist show ?thesis by (simp add: distinct_map)
qed

lemma stored_session_sorted:
  assumes "pg_inv db"
  shows "sorted_wrt (\<lambda>x y. ev_Sequence x < ev_Sequence y) (stored_session db s a)"
proof -
  let ?rows = "sort_key row_sequence (filter (sessionMatch s a) (pg_events db))"
  from assms have "distinct (map row_sequence (filter (sessionMatch s a) (pg_events db)))"
    by (intro session_sequences_distinct) (simp add: pg_inv_def)
  then have "distinct (map row_sequence ?rows)" by (simp only: distinct_map distinct_sort set_sort)
  moreover have "sorted (map row_sequence ?rows)" by simp
  ultimately have "sorted_wrt (<) (map row_sequence ?rows)" by (simp add: strict_sorted_iff)
  then show ?thesis by (simp add: stored_session_def sorted_wrt_map)
qed

lemma stored_session_filter:
  "map scanSessionEvent (sort_key row_sequence
      (filter (\<lambda>r. sessionMatch s a r \<and> P (row_sequence r)) (pg_events db))) =
   filter (\<lambda>e. P (ev_Sequence e)) (stored_session db s a)"
  by (simp add: stored_session_def filter_map comp_def filter_sort conj_commute)

lemma pgSessionEvents_stored:
  "pgSessionEvents fault db s a after limit = Inr es \<Longrightarrow>
     es = take (nat limit) (filter (\<lambda>e. after < ev_Sequence e) (stored_session db s a))"
  using stored_session_filter [of s a "\<lambda>q. after < q" db]
  by (auto simp: pgSessionEvents_def take_map [symmetric] split: if_splits sum.splits)

lemma pgSessionEventsBefore_stored:
  assumes "pgSessionEventsBefore fault db s a c limit = Inr es"
  shows "suffix es (filter (\<lambda>e. ev_Sequence e \<le> c) (stored_session db s a)) \<and> int (length es) \<le> limit"
proof -
  let ?xs = "filter (\<lambda>e. ev_Sequence e \<le> c) (stored_session db s a)"
  from assms have "es = rev (take (nat limit) (rev ?xs))" and "0 < limit"
    using stored_session_filter [of s a "\<lambda>q. q \<le> c" db]
    by (auto simp: pgSessionEventsBefore_def take_map [symmetric] rev_map [symmetric]
        split: if_splits sum.splits)
  then show ?thesis by (auto simp: suffix_to_prefix take_is_prefix)
qed

lemma pgExtractionCursor_stored:
  "pgExtractionCursor fault db s a = Inr c \<Longrightarrow> c = stored_cursor db s a"
  by (auto simp: pgExtractionCursor_def stored_cursor_def split: sum.splits option.splits)

lemma find_Some_mem: "find P xs = Some x \<Longrightarrow> x \<in> set xs \<and> P x"
  by (auto simp: find_Some_iff)

lemma stored_cursor_nonneg: "pg_inv db \<Longrightarrow> 0 \<le> stored_cursor db s a"
  by (auto simp: stored_cursor_def pg_inv_def wf_streams_def wf_stream_def
      split: option.splits dest!: find_Some_mem)

subsection \<open>Advancing the cursor\<close>

lemma streamMatch_unique:
  assumes "wf_streams streams" and "x \<in> set streams" and "y \<in> set streams"
    and "streamMatch s a x" and "streamMatch s a y"
  shows "x = y"
proof -
  have "fst x = fst y"
    using assms by (auto simp: wf_streams_def wf_stream_def streamMatch_def prod_eq_iff)
  then show ?thesis using assms by (metis eq_key_imp_eq_value prod.collapse wf_streams_def)
qed

lemma extractedRow_simps [simp]:
  "row_scope (extractedRow now s a c r) = row_scope r"
  "row_event_id (extractedRow now s a c r) = row_event_id r"
  "row_key (extractedRow now s a c r) = row_key r"
  "row_sequence (extractedRow now s a c r) = row_sequence r"
  "wf_row (extractedRow now s a c r) = wf_row r"
  "sessionMatch t b (extractedRow now s a c r) = sessionMatch t b r"
  "erase (scanSessionEvent (extractedRow now s a c r)) = erase (scanSessionEvent r)"
  by (auto simp: extractedRow_def row_key_def wf_row_def sessionMatch_def erase_def scanSessionEvent_def)

lemma advanceRow_simps [simp]:
  "fst (advanceRow now s a c kr) = fst kr"
  "st_last_sequence (snd (advanceRow now s a c kr)) = st_last_sequence (snd kr)"
  "streamMatch t b (advanceRow now s a c kr) = streamMatch t b kr"
  by (auto simp: advanceRow_def wf_stream_def streamMatch_def)

lemma wf_stream_advanceRow: "wf_stream kr \<Longrightarrow> wf_stream (advanceRow now s a c kr)"
  by (auto simp: advanceRow_def wf_stream_def)

lemma set_markExtracted [simp]:
  "set (markExtracted now s a c rows) = extractedRow now s a c ` set rows"
  by (simp add: markExtracted_def)

lemma wf_events_markExtracted: "wf_events (markExtracted now s a c rows) = wf_events rows"
  by (simp add: wf_events_def markExtracted_def comp_def)

lemma wf_streams_advance: "wf_streams streams \<Longrightarrow> wf_streams (advanceStreams now s a c streams)"
  by (auto simp: wf_streams_def advanceStreams_def comp_def wf_stream_advanceRow)

lemma advanceStreams_mget:
  "mget (advanceStreams now s a c streams) k =
     map_option (\<lambda>st. snd (advanceRow now s a c (k, st))) (mget streams k)"
  by (induction streams) (auto simp: advanceStreams_def advanceRow_def)

lemma advance_inv_ok:
  assumes "pg_inv db"
  shows "pg_inv (db\<lparr>pg_streams := advanceStreams now s a c (pg_streams db),
    pg_events := markExtracted now s a c (pg_events db)\<rparr>)"
  using assms
  by (auto simp: pg_inv_def wf_events_markExtracted wf_streams_advance below_head_def
      advanceStreams_mget)

lemma find_map_same: "(\<And>x. P (f x) = P x) \<Longrightarrow> find P (map f xs) = map_option f (find P xs)"
  by (induction xs) auto

lemma find_unique:
  assumes "x \<in> set xs" and "P x" and "\<And>y. y \<in> set xs \<Longrightarrow> P y \<Longrightarrow> y = x"
  shows "find P xs = Some x"
proof (cases "find P xs")
  case None
  with assms(1,2) show ?thesis by (simp add: find_None_iff)
next
  case (Some y)
  with assms(3) show ?thesis using find_Some_mem by fastforce
qed

lemma advance_cursor_ok:
  assumes "wf_streams (pg_streams db)"
    and "length (filter (\<lambda>kr. streamMatch s a kr \<and> c \<le> st_last_sequence (snd kr)) (pg_streams db)) = 1"
  shows "stored_cursor (db\<lparr>pg_streams := advanceStreams now s a c (pg_streams db), pg_events := rows\<rparr>) s a =
    max (stored_cursor db s a) c"
proof -
  let ?hit = "\<lambda>kr. streamMatch s a kr \<and> c \<le> st_last_sequence (snd kr)"
  from assms(2) obtain x where "filter ?hit (pg_streams db) = [x]"
    by (auto simp: length_Suc_conv)
  then have "x \<in> set (filter ?hit (pg_streams db))" by simp
  then have x: "x \<in> set (pg_streams db)" "streamMatch s a x" "c \<le> st_last_sequence (snd x)"
    by auto
  have "find (streamMatch s a) (pg_streams db) = Some x"
    by (rule find_unique [where P = "streamMatch s a", OF x(1,2)]) (blast intro: streamMatch_unique [OF assms(1) _ x(1) _ x(2)])
  moreover have "find (streamMatch s a) (advanceStreams now s a c (pg_streams db)) =
      map_option (advanceRow now s a c) (find (streamMatch s a) (pg_streams db))"
    unfolding advanceStreams_def by (rule find_map_same) simp
  ultimately show ?thesis
    using x by (simp add: stored_cursor_def advanceRow_def case_prod_beta)
qed

lemma insort_key_map_same:
  "(\<And>x. k (f x) = k x) \<Longrightarrow> insort_key k (f x) (map f xs) = map f (insort_key k x xs)"
  by (induction xs) auto

lemma sort_key_map_same: "(\<And>x. k (f x) = k x) \<Longrightarrow> sort_key k (map f xs) = map f (sort_key k xs)"
  by (induction xs) (auto simp: insort_key_map_same)

lemma filter_map_same: "(\<And>x. P (f x) = P x) \<Longrightarrow> filter P (map f xs) = map f (filter P xs)"
  by (induction xs) auto

lemma markExtracted_stored:
  "map erase (stored_session (db\<lparr>pg_streams := sts, pg_events := markExtracted now s a c (pg_events db)\<rparr>) t b) =
   map erase (stored_session db t b)"
  by (simp add: stored_session_def markExtracted_def filter_map_same sort_key_map_same)

lemma advanceTx_Inr:
  assumes "advanceTx fault now db s a c = Inr db'"
  shows "db' = db\<lparr>pg_streams := advanceStreams now s a c (pg_streams db),
                pg_events := markExtracted now s a c (pg_events db)\<rparr>"
    and "length (filter (\<lambda>kr. streamMatch s a kr \<and> c \<le> st_last_sequence (snd kr)) (pg_streams db)) = 1"
  using assms by (simp_all add: advanceTx_def split: sum.splits if_splits)

lemma pgAdvance_cases:
  assumes "pgAdvanceExtractionCursor fault now db s a c = (db', out)"
  obtains (failed) e where "db' = db" "out = Inl e"
  | (advanced) "out = Inr ()" "advanceTx fault now db s a c = Inr db'"
proof (cases "step fault ''begin extraction cursor update''")
  case (Inl e)
  with assms show thesis by (intro failed [of e]) (simp_all add: pgAdvanceExtractionCursor_def)
next
  case started: (Inr u)
  show thesis
  proof (cases "advanceTx fault now db s a c")
    case (Inl e)
    with assms started show thesis
      by (intro failed [of "abort fault ''rollback extraction cursor update'' e"])
        (simp_all add: pgAdvanceExtractionCursor_def)
  next
    case (Inr db'')
    with assms started show thesis by (intro advanced) (simp_all add: pgAdvanceExtractionCursor_def)
  qed
qed

lemma advanceTx_inv: "pg_inv db \<Longrightarrow> advanceTx fault now db s a c = Inr db' \<Longrightarrow> pg_inv db'"
  using advance_inv_ok advanceTx_Inr(1) by metis

lemma advanceTx_cursor:
  "pg_inv db \<Longrightarrow> advanceTx fault now db s a c = Inr db' \<Longrightarrow>
     stored_cursor db' s a = max (stored_cursor db s a) c"
  using advance_cursor_ok [of db s a c "markExtracted now s a c (pg_events db)" now]
    advanceTx_Inr [of fault now db s a c db'] by (simp add: pg_inv_def)

lemma advanceTx_stored:
  "advanceTx fault now db s a c = Inr db' \<Longrightarrow>
     map erase (stored_session db' t b) = map erase (stored_session db t b)"
  using markExtracted_stored advanceTx_Inr(1) by metis

interpretation pg_lake: lake_laws "postgres_repository fault now" pg_inv stored_session stored_cursor
proof unfold_locales
  fix r s a c r' out
  assume inv: "pg_inv r" and adv: "AdvanceExtractionCursor (postgres_repository fault now) r s a c = (r', out)"
  then have run: "pgAdvanceExtractionCursor fault now r s a c = (r', out)"
    by (simp add: postgres_repository_def)
  from run inv show "pg_inv r'"
    by (cases rule: pgAdvance_cases) (auto intro: advanceTx_inv)
  from run show "map erase (stored_session r' t b) = map erase (stored_session r t b)" for t b
    by (cases rule: pgAdvance_cases) (auto intro: advanceTx_stored)
next
  fix r s a c r' u
  assume inv: "pg_inv r" and adv: "AdvanceExtractionCursor (postgres_repository fault now) r s a c = (r', Inr u)"
  then have run: "pgAdvanceExtractionCursor fault now r s a c = (r', Inr u)"
    by (simp add: postgres_repository_def)
  then show "stored_cursor r' s a = max (stored_cursor r s a) c"
    using inv by (cases rule: pgAdvance_cases) (auto intro: advanceTx_cursor)
next
  fix r s a c r' e
  assume "AdvanceExtractionCursor (postgres_repository fault now) r s a c = (r', Inl e)"
  then have run: "pgAdvanceExtractionCursor fault now r s a c = (r', Inl e)"
    by (simp add: postgres_repository_def)
  then show "r' = r" by (cases rule: pgAdvance_cases) auto
next
  fix r s a after limit es
  assume "SessionEvents (postgres_repository fault now) r s a after limit = Inr es"
  then show "es = take (nat limit) (filter (\<lambda>e. after < ev_Sequence e) (stored_session r s a))"
    by (intro pgSessionEvents_stored) (simp add: postgres_repository_def)
next
  fix r s a c limit es
  assume "SessionEventsBefore (postgres_repository fault now) r s a c limit = Inr es"
  then show "suffix es (filter (\<lambda>e. ev_Sequence e \<le> c) (stored_session r s a)) \<and> int (length es) \<le> limit"
    by (intro pgSessionEventsBefore_stored) (simp add: postgres_repository_def)
next
  fix r s a c
  assume "ExtractionCursor (postgres_repository fault now) r s a = Inr c"
  then show "c = stored_cursor r s a"
    by (intro pgExtractionCursor_stored) (simp add: postgres_repository_def)
qed (auto intro: stored_session_sorted stored_cursor_nonneg)

subsection \<open>Inserting events\<close>

lemma insertEvent_cases:
  assumes "insertEvent row rows = Inr (rows', n)"
  obtains (duplicate) "rows' = rows" "n = 0"
      "\<exists>r \<in> set rows. row_scope r = row_scope row \<and> row_event_id r = row_event_id row"
  | (inserted) "rows' = rows @ [row]" "n = 1" "0 < row_sequence row"
      "\<forall>r \<in> set rows. (row_scope r, row_event_id r) \<noteq> (row_scope row, row_event_id row)"
      "\<forall>r \<in> set rows. (row_key r, row_sequence r) \<noteq> (row_key row, row_sequence row)"
  using assms by (auto simp: insertEvent_def row_key_def split: if_splits)

lemma insertEvent_wf:
  assumes "wf_events rows" and "insertEvent row rows = Inr (rows', n)"
    and "row_source row = SourceAgentSession \<longrightarrow> row_stream row = row_agent row @ '':'' @ row_session row"
  shows "wf_events rows'"
  using assms(2)
proof (cases rule: insertEvent_cases)
  case duplicate
  with assms show ?thesis by simp
next
  case inserted
  with assms(1,3) show ?thesis by (fastforce simp: wf_events_def wf_row_def)
qed

lemma sessionRow_simps [simp]:
  "row_key (sessionRow s now e) =
     (s, SourceAgentSession, AgentID (ev_Actor e) @ '':'' @ SessionID (ev_Actor e))"
  "row_sequence (sessionRow s now e) = ev_Sequence e"
  "row_scope (sessionRow s now e) = s" "row_event_id (sessionRow s now e) = ev_ID e"
  by (simp_all add: sessionRow_def row_key_def StreamFromActor_def Let_def)

lemma appendEvents_spec:
  assumes "appendEvents fault now s events rows receipt = Inr (rows', receipt')" and "wf_events rows"
  shows "wf_events rows' \<and> rc_RunID receipt' = rc_RunID receipt \<and>
    rc_Accepted receipt' + rc_Duplicate receipt' =
      rc_Accepted receipt + rc_Duplicate receipt + int (length events) \<and>
    rc_Cursor receipt \<le> rc_Cursor receipt' \<and> (\<forall>e \<in> set events. ev_Sequence e \<le> rc_Cursor receipt') \<and>
    (\<exists>new. rows' = rows @ new \<and> rc_Accepted receipt' = rc_Accepted receipt + int (length new) \<and>
       (\<forall>r \<in> set new. \<exists>e \<in> set events. r = sessionRow s now e)) \<and>
    (\<forall>e \<in> set events. \<exists>r \<in> set rows'. row_scope r = s \<and> row_event_id r = ev_ID e)"
  using assms
proof (induction fault now s events rows receipt arbitrary: rows' receipt' rule: appendEvents.induct)
  case (2 fault now s event events rows receipt)
  let ?label = "''insert session event '' @ quote (ev_ID event)"
  from "2.prems"(1) obtain mid n where go: "step fault ?label = Inr ()"
    and ins: "insertEvent (sessionRow s now event) rows = Inr (mid, n)"
    by (auto simp: Let_def split: sum.splits)
  let ?rc = "receipt\<lparr>rc_Duplicate := rc_Duplicate receipt + (if n = 0 then 1 else 0),
     rc_Accepted := rc_Accepted receipt + (if n = 0 then 0 else 1),
     rc_Cursor := (if ev_Sequence event > rc_Cursor receipt then ev_Sequence event else rc_Cursor receipt)\<rparr>"
  from "2.prems"(1) go ins have rest: "appendEvents fault now s events mid ?rc = Inr (rows', receipt')"
    by (simp add: Let_def)
  have wf: "wf_events mid"
    by (rule insertEvent_wf [OF "2.prems"(2) ins]) (simp add: sessionRow_def StreamFromActor_def Let_def)
  note IH = "2.IH" [OF refl go ins refl rest wf]
  from ins have mid: "mid = rows \<and> n = 0 \<or> mid = rows @ [sessionRow s now event] \<and> n = 1"
    by (cases rule: insertEvent_cases) auto
  from ins have found: "\<exists>r \<in> set mid. row_scope r = s \<and> row_event_id r = ev_ID event"
    by (cases rule: insertEvent_cases) auto
  from IH obtain new where new: "rows' = mid @ new"
    "rc_Accepted receipt' = rc_Accepted ?rc + int (length new)"
    "\<forall>r \<in> set new. \<exists>e \<in> set events. r = sessionRow s now e" by blast
  from mid have "\<exists>new. rows' = rows @ new \<and> rc_Accepted receipt' = rc_Accepted receipt + int (length new) \<and>
      (\<forall>r \<in> set new. \<exists>e \<in> set (event # events). r = sessionRow s now e)"
  proof
    assume "mid = rows \<and> n = 0"
    with new show ?thesis by (intro exI [of _ new]) auto
  next
    assume "mid = rows @ [sessionRow s now event] \<and> n = 1"
    with new show ?thesis by (intro exI [of _ "sessionRow s now event # new"]) auto
  qed
  moreover have "\<exists>r \<in> set rows'. row_scope r = s \<and> row_event_id r = ev_ID event"
    using found new(1) by auto
  ultimately show ?case using IH by (auto split: if_splits)
qed simp

lemma validateBatchEvents_ok:
  "validateBatchEvents first es = Inr () \<Longrightarrow> \<forall>e \<in> set es. ev_Actor e = first \<and> 0 < ev_Sequence e"
  by (induction es) (auto simp: validateBatchEvent_def split: sum.splits if_splits)

lemma validateBatch_ok:
  assumes "validateBatch s batch = Inr ()"
  shows "\<not> blank s \<and> sb_Events batch \<noteq> [] \<and>
    (\<forall>e \<in> set (sb_Events batch). ev_Actor e = ev_Actor (hd (sb_Events batch)) \<and> 0 < ev_Sequence e)"
proof (cases "sb_Events batch")
  case Nil
  with assms show ?thesis by (simp add: validateBatch_def)
next
  case (Cons e es)
  with assms have "\<not> blank s" and "validateBatchEvents (ev_Actor e) (sb_Events batch) = Inr ()"
    by (auto simp: validateBatch_def split: if_splits)
  with validateBatchEvents_ok [OF this(2)] Cons show ?thesis by simp
qed

subsection \<open>Session ingestion keeps the invariant and is atomic\<close>

lemma wf_streams_mput:
  "wf_streams sts \<Longrightarrow> wf_stream (k, st) \<Longrightarrow> wf_streams (mput k st sts)"
  by (auto simp: wf_streams_def dest!: set_mput)

lemma wf_streams_mget: "wf_streams sts \<Longrightarrow> mget sts k = Some st \<Longrightarrow> wf_stream (k, st)"
  by (auto simp: wf_streams_def dest: map_of_SomeD)

lemma upsertStream_wf:
  assumes "wf_streams sts" and "0 \<le> cur"
  shows "wf_streams (upsertStream now s a complete cur sts)"
  unfolding upsertStream_def Let_def
proof (rule wf_streams_mput [OF assms(1)], goal_cases)
  case 1
  show ?case
  proof (cases "mget sts (s, Source (StreamFromActor a), StreamID (StreamFromActor a))")
    case None
    with assms(2) show ?thesis by (simp add: wf_stream_def StreamFromActor_def)
  next
    case (Some st)
    from wf_streams_mget [OF assms(1) Some] show ?thesis
      using Some by (simp add: wf_stream_def max_def)
  qed
qed

lemma upsertStream_head:
  "\<exists>st. mget (upsertStream now s a complete cur sts) (s, SourceAgentSession, AgentID a @ '':'' @ SessionID a) =
     Some st \<and> cur \<le> st_last_sequence st"
  by (auto simp: upsertStream_def Let_def StreamFromActor_def go_map split: option.splits)

lemma upsertStream_mono:
  "below_head sts r \<Longrightarrow> below_head (upsertStream now s a complete cur sts) r"
  by (auto simp: below_head_def upsertStream_def Let_def go_map split: option.splits)

lemma appendSessionTx_elim:
  assumes "appendSessionTx fault now db s a batch = Inr (db', receipt)"
  obtains rows rc where
    "appendEvents fault now s (sb_Events batch) (pg_events db) emptyReceipt = Inr (rows, rc)"
    "pg_events db' = rows" "pg_enqueuer db' = pg_enqueuer db"
    "pg_streams db' = upsertStream now s a (sb_Complete batch) (rc_Cursor rc) (pg_streams db)"
    "pg_jobs db' = pg_jobs db @ (if pg_enqueuer db = None then [] else
      [\<lparr>job_ID = rc_RunID receipt, job_scope = s, job_actor = a, job_cursor = rc_Cursor receipt,
        job_complete = sb_Complete batch\<rparr>])"
    "rc_Cursor receipt = rc_Cursor rc" "rc_Accepted receipt = rc_Accepted rc"
    "rc_Duplicate receipt = rc_Duplicate rc"
proof -
  obtain rows rc where
    app: "appendEvents fault now s (sb_Events batch) (pg_events db) emptyReceipt = Inr (rows, rc)"
    using assms by (auto simp: appendSessionTx_def split: sum.splits)
  have go: "step fault ''upsert session stream'' = Inr ()"
    using assms app by (auto simp: appendSessionTx_def split: sum.splits)
  show thesis
  proof (cases "pg_enqueuer db")
    case None
    with assms app go show thesis
      by (intro that [OF app]) (auto simp: appendSessionTx_def extractionEnqueuer_def Let_def)
  next
    case (Some enq)
    then obtain jobID where "enq s a (rc_Cursor rc) (sb_Complete batch) = Inr jobID"
      using assms app go
      by (auto simp: appendSessionTx_def extractionEnqueuer_def Let_def split: sum.splits)
    with Some assms app go show thesis
      by (intro that [OF app]) (auto simp: appendSessionTx_def extractionEnqueuer_def Let_def)
  qed
qed

lemma appendSessionTx_spec:
  assumes "appendSessionTx fault now db s a batch = Inr (db', receipt)" and "pg_inv db"
    and "\<forall>e \<in> set (sb_Events batch). ev_Actor e = a"
  shows "pg_inv db' \<and> rc_Accepted receipt + rc_Duplicate receipt = int (length (sb_Events batch)) \<and>
    (\<exists>new. pg_events db' = pg_events db @ new \<and> rc_Accepted receipt = int (length new) \<and>
       (\<forall>r \<in> set new. \<exists>e \<in> set (sb_Events batch). r = sessionRow s now e)) \<and>
    (\<forall>e \<in> set (sb_Events batch). \<exists>r \<in> set (pg_events db'). row_scope r = s \<and> row_event_id r = ev_ID e) \<and>
    pg_enqueuer db' = pg_enqueuer db \<and>
    pg_jobs db' = pg_jobs db @ (if pg_enqueuer db = None then [] else
      [\<lparr>job_ID = rc_RunID receipt, job_scope = s, job_actor = a, job_cursor = rc_Cursor receipt,
        job_complete = sb_Complete batch\<rparr>])"
proof -
  from assms(1) obtain rows rc where
    app: "appendEvents fault now s (sb_Events batch) (pg_events db) emptyReceipt = Inr (rows, rc)"
    and ev: "pg_events db' = rows" and enq: "pg_enqueuer db' = pg_enqueuer db"
    and sts: "pg_streams db' = upsertStream now s a (sb_Complete batch) (rc_Cursor rc) (pg_streams db)"
    and jobs: "pg_jobs db' = pg_jobs db @ (if pg_enqueuer db = None then [] else
      [\<lparr>job_ID = rc_RunID receipt, job_scope = s, job_actor = a, job_cursor = rc_Cursor receipt,
        job_complete = sb_Complete batch\<rparr>])"
    and rcs: "rc_Cursor receipt = rc_Cursor rc" "rc_Accepted receipt = rc_Accepted rc"
      "rc_Duplicate receipt = rc_Duplicate rc"
    by (rule appendSessionTx_elim)
  have wf: "wf_events (pg_events db)" "wf_streams (pg_streams db)"
    "\<forall>r \<in> set (pg_events db). below_head (pg_streams db) r"
    using assms(2) by (simp_all add: pg_inv_def)
  note spec = appendEvents_spec [OF app wf(1)]
  from spec obtain new where new: "rows = pg_events db @ new" "rc_Accepted rc = int (length new)"
    "\<forall>r \<in> set new. \<exists>e \<in> set (sb_Events batch). r = sessionRow s now e"
    "\<forall>e \<in> set (sb_Events batch). ev_Sequence e \<le> rc_Cursor rc" "0 \<le> rc_Cursor rc"
    by (auto simp: emptyReceipt_def)
  have "below_head (pg_streams db') r" if "r \<in> set rows" for r
  proof (cases "r \<in> set (pg_events db)")
    case True
    then show ?thesis using wf(3) sts upsertStream_mono by simp
  next
    case False
    with that new obtain e where "e \<in> set (sb_Events batch)" "r = sessionRow s now e" by auto
    with assms(3) new(4) show ?thesis
      using upsertStream_head [of now s a "sb_Complete batch" "rc_Cursor rc" "pg_streams db"]
      by (fastforce simp: below_head_def sts)
  qed
  then have "pg_inv db'"
    using spec new(5) wf(2) by (auto simp: pg_inv_def ev sts upsertStream_wf)
  moreover have "rc_Accepted receipt + rc_Duplicate receipt = int (length (sb_Events batch))"
    using spec rcs by (simp add: emptyReceipt_def)
  ultimately show ?thesis
    using new(1-3) spec unfolding ev enq jobs rcs by blast
qed

end
