(* ===== verification/Session_Ingest.thy ===== *)
theory Session_Ingest
  imports Session_Repository
begin

text \<open>
  The properties of evidence ingestion over the PostgreSQL adapter: sessions and streams are
  appended atomically and idempotently, a stream allocates its sequences without a gap, every
  reachable database satisfies the invariant of the tables, and what the lake slices out of such a
  database (facts of the interpretation \<open>pg_lake\<close>) is gapless and within the policy's bounds.
\<close>

section \<open>Sessions\<close>

lemma pgAppendSession_elim:
  assumes "pgAppendSession fault now db s batch = (db', out)"
  obtains (failed) e where "out = Inl e" "db' = db"
  | (appended) receipt where "out = Inr receipt" "validateBatch s batch = Inr ()"
      "appendSessionTx fault now db s (ev_Actor (hd (sb_Events batch))) batch = Inr (db', receipt)"
proof (cases "validateBatch s batch")
  case (Inl e)
  with assms show thesis by (intro failed [of e]) (simp_all add: pgAppendSession_def)
next
  case valid: (Inr u)
  show thesis
  proof (cases "step fault ''begin append session''")
    case (Inl e)
    with assms valid show thesis by (intro failed [of e]) (simp_all add: pgAppendSession_def)
  next
    case begun: (Inr u')
    show thesis
    proof (cases "appendSessionTx fault now db s (ev_Actor (hd (sb_Events batch))) batch")
      case (Inl e)
      with assms valid begun show thesis
        by (intro failed [of "abort fault ''rollback append session'' e"])
          (simp_all add: pgAppendSession_def)
    next
      case (Inr p)
      obtain db'' receipt where p: "p = (db'', receipt)" by (cases p)
      show thesis
      proof (cases "step fault ''commit append session''")
        case (Inl e)
        with assms valid begun Inr p show thesis
          by (intro failed [of "abort fault ''rollback append session'' e"])
            (simp_all add: pgAppendSession_def)
      next
        case committed: (Inr u'')
        with assms valid begun Inr p show thesis
          by (intro appended [of receipt]) (simp_all add: pgAppendSession_def)
      qed
    qed
  qed
qed

lemma pgAppendSession_inv:
  assumes "pg_inv db" and "pgAppendSession fault now db s batch = (db', out)"
  shows "pg_inv db'"
  using assms(2)
proof (cases rule: pgAppendSession_elim)
  case (appended receipt)
  with assms(1) appendSessionTx_spec [OF appended(3) assms(1)] validateBatch_ok [OF appended(2)]
  show ?thesis by blast
qed (use assms(1) in simp)

text \<open>C25. Session ingestion is one transaction.  When it fails, at whatever step, the database is
  unchanged; when it succeeds, every event of the batch is stored, the table only grew, by exactly
  the accepted events and with the rows the batch describes, accepted and duplicate add up to the
  batch, and exactly one extraction job for the batch's cursor was enqueued (when an enqueuer is
  configured).\<close>

theorem pgAppendSession_atomic:
  assumes "pg_inv db" and "pgAppendSession fault now db s batch = (db', out)"
  shows "case out of
      Inl _ \<Rightarrow> db' = db
    | Inr receipt \<Rightarrow>
        rc_Accepted receipt + rc_Duplicate receipt = int (length (sb_Events batch)) \<and>
        (\<exists>new. pg_events db' = pg_events db @ new \<and> rc_Accepted receipt = int (length new) \<and>
           (\<forall>r \<in> set new. \<exists>e \<in> set (sb_Events batch). r = sessionRow s now e)) \<and>
        (\<forall>e \<in> set (sb_Events batch). \<exists>r \<in> set (pg_events db').
           row_scope r = s \<and> row_event_id r = ev_ID e) \<and>
        pg_jobs db' = pg_jobs db @ (if pg_enqueuer db = None then [] else
          [\<lparr>job_ID = rc_RunID receipt, job_scope = s, job_actor = ev_Actor (hd (sb_Events batch)),
            job_cursor = rc_Cursor receipt, job_complete = sb_Complete batch\<rparr>])"
  using assms(2)
proof (cases rule: pgAppendSession_elim)
  case (appended receipt)
  from validateBatch_ok [OF appended(2)]
  have "\<forall>e \<in> set (sb_Events batch). ev_Actor e = ev_Actor (hd (sb_Events batch))" by blast
  from appendSessionTx_spec [OF appended(3) assms(1) this] show ?thesis
    unfolding appended(1) sum.case by blast
qed simp

text \<open>A database that never fails, and a batch of two events, used by the witnesses.\<close>

definition no_fault :: db_fault where
  "no_fault label = None"

definition demo_actor :: actor where
  "demo_actor = \<lparr>UserID = ''u'', AgentID = ''claude'', SessionID = ''s1''\<rparr>"

definition demo_event :: "string \<Rightarrow> int \<Rightarrow> session_event" where
  "demo_event eid n = \<lparr>ev_ID = eid, ev_Actor = demo_actor, ev_Sequence = n, ev_Type = ''message'',
     ev_Content = ''we ship on Friday'', ev_TaskRef = [], ev_ThreadRef = [], ev_Visibility = ''team'',
     ev_OccurredAt = 100 + n, ev_CapturedAt = 0, ev_ExtractedAt = None, ev_Metadata = []\<rparr>"

definition demo_batch :: session_batch where
  "demo_batch = \<lparr>sb_Events = [demo_event ''e1'' 1, demo_event ''e2'' 2], sb_Complete = False\<rparr>"

definition demo_enqueuer :: enqueuer where
  "demo_enqueuer s a c complete = Inr ''job-1''"

definition demo_start :: pg where
  "demo_start = emptyDatabase\<lparr>pg_enqueuer := Some demo_enqueuer\<rparr>"

definition demo_db :: pg where
  "demo_db = fst (pgAppendSession no_fault 500 demo_start ''team'' demo_batch)"

definition demo_receipt :: ingest_receipt where
  "demo_receipt = \<lparr>rc_Accepted = 2, rc_Duplicate = 0, rc_Cursor = 2, rc_RunID = ''job-1''\<rparr>"

lemma demo_start_inv: "pg_inv demo_start"
  using pg_inv_empty by (simp add: demo_start_def pg_inv_def)

lemma demo_append:
  "pgAppendSession no_fault 500 demo_start ''team'' demo_batch = (demo_db, Inr demo_receipt)"
proof -
  have "snd (pgAppendSession no_fault 500 demo_start ''team'' demo_batch) = Inr demo_receipt"
    by code_simp
  then show ?thesis by (simp add: demo_db_def prod_eq_iff)
qed

theorem pgAppendSession_atomic_witness:
  "rc_Accepted demo_receipt + rc_Duplicate demo_receipt = 2 \<and>
   ''e1'' \<in> row_event_id ` set (pg_events demo_db) \<and> ''e2'' \<in> row_event_id ` set (pg_events demo_db) \<and>
   map job_ID (pg_jobs demo_db) = [''job-1'']"
  using pgAppendSession_atomic [OF demo_start_inv demo_append]
  by (force simp: demo_receipt_def demo_batch_def demo_start_def emptyDatabase_def demo_event_def)

subsection \<open>Replays\<close>

lemma insertEvent_duplicate:
  assumes "0 < row_sequence row"
    and "\<exists>r \<in> set rows. row_scope r = row_scope row \<and> row_event_id r = row_event_id row"
  shows "insertEvent row rows = Inr (rows, 0)"
  using assms by (auto simp: insertEvent_def)

definition event_present :: "string \<Rightarrow> event_row list \<Rightarrow> string \<Rightarrow> bool" where
  "event_present s rows eid \<longleftrightarrow> (\<exists>r \<in> set rows. row_scope r = s \<and> row_event_id r = eid)"

lemma appendEvents_replay:
  assumes "\<forall>e \<in> set events. 0 < ev_Sequence e \<and> event_present s rows (ev_ID e)"
    and "appendEvents fault now s events rows receipt = Inr (rows', receipt')"
  shows "rows' = rows \<and> rc_Accepted receipt' = rc_Accepted receipt"
  using assms
proof (induction events arbitrary: receipt)
  case (Cons e events)
  have "insertEvent (sessionRow s now e) rows = Inr (rows, 0)"
    by (rule insertEvent_duplicate) (use Cons.prems(1) in \<open>auto simp: event_present_def\<close>)
  with Cons.prems(2) obtain rc where "appendEvents fault now s events rows rc = Inr (rows', receipt')"
      and "rc_Accepted rc = rc_Accepted receipt"
    by (auto simp: Let_def split: sum.splits)
  with Cons.IH [of rc] Cons.prems(1) show ?case by simp
qed simp

lemma appendSessionTx_replay:
  assumes "\<forall>e \<in> set (sb_Events batch). 0 < ev_Sequence e \<and> event_present s (pg_events db) (ev_ID e)"
    and "appendSessionTx fault now db s a batch = Inr (db', receipt)"
  shows "pg_events db' = pg_events db \<and> rc_Accepted receipt = 0"
  using assms(2)
proof (rule appendSessionTx_elim)
  fix rows rc
  assume "appendEvents fault now s (sb_Events batch) (pg_events db) emptyReceipt = Inr (rows, rc)"
    and ev: "pg_events db' = rows" and rc: "rc_Accepted receipt = rc_Accepted rc"
  from appendEvents_replay [OF assms(1) this(1)] show ?thesis
    using ev rc by (simp add: emptyReceipt_def)
qed

text \<open>Ingestion is idempotent: the same batch delivered again, to the database the first delivery
  left or to any later one that still holds its events, accepts nothing, reports every event as a
  duplicate and stores no event.\<close>

theorem pgAppendSession_replay:
  assumes "pg_inv db" and "pgAppendSession fault now db s batch = (db', Inr receipt)"
    and "pg_inv later" and "\<forall>r \<in> set (pg_events db'). event_present (row_scope r) (pg_events later) (row_event_id r)"
    and "pgAppendSession fault' now' later s batch = (again, Inr receipt')"
  shows "pg_events again = pg_events later \<and> rc_Accepted receipt' = 0 \<and>
    rc_Duplicate receipt' = int (length (sb_Events batch))"
proof -
  from assms(2) have valid: "validateBatch s batch = Inr ()"
    and tx: "appendSessionTx fault now db s (ev_Actor (hd (sb_Events batch))) batch = Inr (db', receipt)"
    by (auto elim: pgAppendSession_elim)
  from assms(5) have tx': "appendSessionTx fault' now' later s (ev_Actor (hd (sb_Events batch))) batch =
      Inr (again, receipt')"
    by (auto elim: pgAppendSession_elim)
  note ok = validateBatch_ok [OF valid]
  have "\<forall>e \<in> set (sb_Events batch). \<exists>r \<in> set (pg_events db'). row_scope r = s \<and> row_event_id r = ev_ID e"
    using appendSessionTx_spec [OF tx assms(1)] ok by blast
  then have "\<forall>e \<in> set (sb_Events batch). 0 < ev_Sequence e \<and> event_present s (pg_events later) (ev_ID e)"
    using assms(4) ok by metis
  note replay = appendSessionTx_replay [OF this tx']
  from ok have "\<forall>e \<in> set (sb_Events batch). ev_Actor e = ev_Actor (hd (sb_Events batch))" by blast
  from appendSessionTx_spec [OF tx' assms(3) this] replay show ?thesis by simp
qed

theorem pgAppendSession_replay_witness:
  "\<exists>again receipt'. pgAppendSession no_fault 600 demo_db ''team'' demo_batch = (again, Inr receipt') \<and>
     pg_events again = pg_events demo_db \<and> rc_Accepted receipt' = 0 \<and> rc_Duplicate receipt' = 2"
proof -
  have inv: "pg_inv demo_db" by (rule pgAppendSession_inv [OF demo_start_inv demo_append])
  have "snd (pgAppendSession no_fault 600 demo_db ''team'' demo_batch) =
      Inr \<lparr>rc_Accepted = 0, rc_Duplicate = 2, rc_Cursor = 2, rc_RunID = ''job-1''\<rparr>" (is "_ = Inr ?rc")
    by code_simp
  then obtain again where again: "pgAppendSession no_fault 600 demo_db ''team'' demo_batch = (again, Inr ?rc)"
    by (metis prod.collapse)
  have "\<forall>r \<in> set (pg_events demo_db). event_present (row_scope r) (pg_events demo_db) (row_event_id r)"
    by (auto simp: event_present_def)
  from pgAppendSession_replay [OF demo_start_inv demo_append inv this again] again show ?thesis
    by (simp add: demo_batch_def)
qed

section \<open>Streams\<close>

lemma streamRow_simps [simp]:
  "row_key (streamRow s stream now n e) = (s, Source stream, StreamID stream)"
  "row_sequence (streamRow s stream now n e) = n" "row_scope (streamRow s stream now n e) = s"
  "row_event_id (streamRow s stream now n e) = se_ID e"
  "row_source (streamRow s stream now n e) = Source stream"
  by (simp_all add: streamRow_def row_key_def)

definition stream_below :: "string \<Rightarrow> stream \<Rightarrow> int \<Rightarrow> event_row list \<Rightarrow> bool" where
  "stream_below s stream n rows \<longleftrightarrow>
     0 \<le> n \<and> (\<forall>r \<in> set rows. row_key r = (s, Source stream, StreamID stream) \<longrightarrow> row_sequence r \<le> n)"

text \<open>The sequence after the head is free, so the insert never violates the unique index.\<close>

lemma insertEvent_stream:
  assumes "stream_below s stream n rows"
  shows "insertEvent (streamRow s stream now (n + 1) e) rows =
    Inr (if event_present s rows (se_ID e) then (rows, 0) else (rows @ [streamRow s stream now (n + 1) e], 1))"
  using assms
  by (fastforce simp: insertEvent_def stream_below_def event_present_def row_key_def streamRow_def)

lemma appendStreamEvents_cons:
  assumes "stream_below s stream n rows"
  shows "appendStreamEvents fault now s stream (e # es) rows n acc dup =
    (case step fault (''insert stream event '' @ quote (se_ID e)) of
       Inl err \<Rightarrow> Inl err
     | Inr _ \<Rightarrow> if event_present s rows (se_ID e)
         then appendStreamEvents fault now s stream es rows n acc (dup + 1)
         else appendStreamEvents fault now s stream es (rows @ [streamRow s stream now (n + 1) e])
                (n + 1) (acc + 1) dup)"
  using insertEvent_stream [OF assms, of now e] by (simp add: Let_def split: sum.split)

lemma stream_below_snoc:
  "stream_below s stream n rows \<Longrightarrow>
     stream_below s stream (n + 1) (rows @ [streamRow s stream now (n + 1) e])"
  by (auto simp: stream_below_def)

lemma wf_events_snoc_stream:
  assumes "wf_events rows" and "stream_below s stream n rows" and "\<not> event_present s rows (se_ID e)"
    and "Source stream \<noteq> SourceAgentSession"
  shows "wf_events (rows @ [streamRow s stream now (n + 1) e])"
  using insertEvent_wf [OF assms(1), of "streamRow s stream now (n + 1) e"]
    insertEvent_stream [OF assms(2), of now e] assms(3,4) by simp

lemma appendStreamEvents_spec:
  assumes "appendStreamEvents fault now s stream es rows n acc dup = Inr (rows', n', acc', dup')"
    and "wf_events rows" and "stream_below s stream n rows" and "Source stream \<noteq> SourceAgentSession"
  shows "wf_events rows' \<and> stream_below s stream n' rows' \<and>
    acc' + dup' = acc + dup + int (length es) \<and> n' - n = acc' - acc \<and>
    (\<forall>e \<in> set es. event_present s rows' (se_ID e)) \<and>
    (\<exists>new. rows' = rows @ new \<and> map row_sequence new = [n + 1..n'] \<and> acc' = acc + int (length new) \<and>
       (\<forall>r \<in> set new. \<exists>e \<in> set es. r = streamRow s stream now (row_sequence r) e))"
  using assms(1-3)
proof (induction es arbitrary: rows n acc dup)
  case (Cons e es)
  note step = appendStreamEvents_cons [OF Cons.prems(3), of fault now e es acc dup]
  show ?case
  proof (cases "event_present s rows (se_ID e)")
    case True
    with Cons.prems(1) step
    have rest: "appendStreamEvents fault now s stream es rows n acc (dup + 1) = Inr (rows', n', acc', dup')"
      by (auto split: sum.splits)
    note IH = Cons.IH [OF rest Cons.prems(2,3)]
    from IH obtain new where new: "rows' = rows @ new" "map row_sequence new = [n + 1..n']"
      "acc' = acc + int (length new)"
      "\<forall>r \<in> set new. \<exists>e \<in> set es. r = streamRow s stream now (row_sequence r) e" by blast
    have "event_present s rows' (se_ID e)" using True new(1) by (auto simp: event_present_def)
    with IH new show ?thesis by auto
  next
    case False
    let ?row = "streamRow s stream now (n + 1) e"
    from False Cons.prems(1) step
    have rest: "appendStreamEvents fault now s stream es (rows @ [?row]) (n + 1) (acc + 1) dup =
        Inr (rows', n', acc', dup')" by (auto split: sum.splits)
    note IH = Cons.IH [OF rest wf_events_snoc_stream [OF Cons.prems(2,3) False assms(4)]
        stream_below_snoc [OF Cons.prems(3)]]
    from IH obtain new where new: "rows' = (rows @ [?row]) @ new" "map row_sequence new = [n + 1 + 1..n']"
      "acc' = acc + 1 + int (length new)"
      "\<forall>r \<in> set new. \<exists>e \<in> set es. r = streamRow s stream now (row_sequence r) e" by blast
    have "event_present s rows' (se_ID e)" using new(1) by (auto simp: event_present_def)
    moreover have "map row_sequence (?row # new) = [n + 1..n']"
      using new(2,3) IH by (subst upto_rec1) auto
    ultimately show ?thesis using IH new
      by (intro conjI exI [of _ "?row # new"]) auto
  qed
qed simp

lemma appendStreamEvents_live:
  assumes "stream_below s stream n rows"
  shows "\<exists>out. appendStreamEvents no_fault now s stream es rows n acc dup = Inr out"
  using assms
proof (induction es arbitrary: rows n acc dup)
  case (Cons e es)
  have "step no_fault l = Inr ()" for l by (simp add: step_def no_fault_def)
  then show ?case
    using appendStreamEvents_cons [OF Cons.prems, of no_fault now e es acc dup]
      Cons.IH stream_below_snoc [OF Cons.prems] Cons.prems by (simp del: appendStreamEvents.simps)
qed simp

subsection \<open>The stream transaction\<close>

lemma ensureStream_found: "\<exists>st. mget (ensureStream now key sts) key = Some st"
  by (auto simp: ensureStream_def go_map split: option.split)

lemma ensureStream_mono: "below_head sts r \<Longrightarrow> below_head (ensureStream now key sts) r"
  by (auto simp: ensureStream_def below_head_def go_map split: option.splits)

lemma ensureStream_wf:
  "fst (snd key) \<noteq> SourceAgentSession \<Longrightarrow> wf_streams sts \<Longrightarrow> wf_streams (ensureStream now key sts)"
  by (auto simp: ensureStream_def wf_stream_def intro!: wf_streams_mput split: option.split)

lemma advanceHead_wf:
  assumes "wf_streams sts" and "mget sts key = Some st" and "st_last_sequence st \<le> n"
  shows "wf_streams (advanceHead now key n complete sts)"
  using wf_streams_mget [OF assms(1,2)] assms
  by (auto simp: advanceHead_def wf_stream_def intro!: wf_streams_mput)

lemma advanceHead_below:
  assumes "mget sts key = Some st" and "below_head sts r \<or> row_key r = key"
    and "row_key r = key \<Longrightarrow> row_sequence r \<le> n"
  shows "below_head (advanceHead now key n complete sts) r"
  using assms by (auto simp: advanceHead_def below_head_def go_map)

lemma stream_below_head:
  assumes "pg_inv db" and "mget (ensureStream now key (pg_streams db)) key = Some st"
    and "key = (s, Source stream, StreamID stream)" and "Source stream \<noteq> SourceAgentSession"
  shows "stream_below s stream (st_last_sequence st) (pg_events db)"
proof -
  have wf: "wf_streams (ensureStream now key (pg_streams db))"
    using assms by (auto intro!: ensureStream_wf simp: pg_inv_def)
  have "row_sequence r \<le> st_last_sequence st" if "r \<in> set (pg_events db)" "row_key r = key" for r
    using that assms(1,2) ensureStream_mono [of "pg_streams db" r now key]
    by (auto simp: pg_inv_def below_head_def)
  then show ?thesis
    using wf_streams_mget [OF wf assms(2)] assms(3) by (auto simp: stream_below_def wf_stream_def)
qed

definition stream_head :: "pg \<Rightarrow> string \<Rightarrow> stream \<Rightarrow> int" where
  "stream_head db s stream =
     (case mget (pg_streams db) (s, Source stream, StreamID stream) of
        None \<Rightarrow> 0 | Some st \<Rightarrow> st_last_sequence st)"

lemma ensureStream_head:
  assumes "mget (ensureStream now (s, Source stream, StreamID stream) (pg_streams db))
      (s, Source stream, StreamID stream) = Some st"
  shows "st_last_sequence st = stream_head db s stream"
  using assms by (auto simp: ensureStream_def stream_head_def go_map split: option.splits)

lemma appendStreamTx_elim:
  assumes "appendStreamTx fault now db s stream batch = Inr (db', receipt)"
  obtains st rows where
    "mget (ensureStream now (s, Source stream, StreamID stream) (pg_streams db))
       (s, Source stream, StreamID stream) = Some st"
    "appendStreamEvents fault now s stream (stb_Events batch) (pg_events db) (st_last_sequence st) 0 0 =
       Inr (rows, rc_Cursor receipt, rc_Accepted receipt, rc_Duplicate receipt)"
    "db' = db\<lparr>pg_events := rows,
       pg_streams := advanceHead now (s, Source stream, StreamID stream) (rc_Cursor receipt)
         (stb_Complete batch) (ensureStream now (s, Source stream, StreamID stream) (pg_streams db))\<rparr>"
proof -
  let ?key = "(s, Source stream, StreamID stream)"
  obtain st where st: "mget (ensureStream now ?key (pg_streams db)) ?key = Some st"
    using ensureStream_found by blast
  have go: "step fault ''ensure stream row'' = Inr ()" using assms
    by (cases "step fault ''ensure stream row''") (simp_all add: appendStreamTx_def Let_def)
  have go2: "step fault ''lock stream row'' = Inr ()" using assms go
    by (cases "step fault ''lock stream row''") (simp_all add: appendStreamTx_def Let_def)
  obtain rows n acc dup where run:
    "appendStreamEvents fault now s stream (stb_Events batch) (pg_events db) (st_last_sequence st) 0 0 =
       Inr (rows, n, acc, dup)"
    using assms go go2 st by (auto simp: appendStreamTx_def Let_def split: sum.splits)
  have go3: "step fault ''advance stream head'' = Inr ()" using assms go go2 st run
    by (cases "step fault ''advance stream head''") (simp_all add: appendStreamTx_def Let_def)
  show thesis
    using assms go go2 go3 st run by (intro that [of st rows]) (auto simp: appendStreamTx_def Let_def)
qed

lemma appendStreamTx_spec:
  assumes "appendStreamTx fault now db s stream batch = Inr (db', receipt)" and "pg_inv db"
    and "Source stream \<noteq> SourceAgentSession"
  shows "pg_inv db' \<and> rc_Accepted receipt + rc_Duplicate receipt = int (length (stb_Events batch)) \<and>
    rc_Cursor receipt = stream_head db s stream + rc_Accepted receipt \<and>
    stream_head db' s stream = rc_Cursor receipt \<and>
    (\<exists>new. pg_events db' = pg_events db @ new \<and>
       map row_sequence new = [stream_head db s stream + 1..rc_Cursor receipt] \<and>
       rc_Accepted receipt = int (length new) \<and>
       (\<forall>r \<in> set new. \<exists>e \<in> set (stb_Events batch). r = streamRow s stream now (row_sequence r) e)) \<and>
    (\<forall>e \<in> set (stb_Events batch). event_present s (pg_events db') (se_ID e))"
  using assms(1)
proof (rule appendStreamTx_elim)
  let ?key = "(s, Source stream, StreamID stream)"
  let ?sts = "ensureStream now ?key (pg_streams db)"
  fix st rows
  assume st: "mget ?sts ?key = Some st"
    and run: "appendStreamEvents fault now s stream (stb_Events batch) (pg_events db) (st_last_sequence st) 0 0 =
       Inr (rows, rc_Cursor receipt, rc_Accepted receipt, rc_Duplicate receipt)"
    and db': "db' = db\<lparr>pg_events := rows, pg_streams :=
       advanceHead now ?key (rc_Cursor receipt) (stb_Complete batch) ?sts\<rparr>"
  have inv: "wf_events (pg_events db)" "wf_streams ?sts"
    "\<And>r. r \<in> set (pg_events db) \<Longrightarrow> below_head ?sts r"
    using assms(2,3) by (auto simp: pg_inv_def intro: ensureStream_mono ensureStream_wf)
  note spec = appendStreamEvents_spec [OF run inv(1) stream_below_head [OF assms(2) st refl assms(3)] assms(3)]
  from spec obtain new where new: "rows = pg_events db @ new"
    "\<forall>r \<in> set new. \<exists>e \<in> set (stb_Events batch). r = streamRow s stream now (row_sequence r) e" by blast
  have le: "st_last_sequence st \<le> rc_Cursor receipt" using spec by auto
  have key: "row_key r = ?key" if "r \<in> set new" for r
    using new(2) that by (metis streamRow_simps(1))
  have "below_head (pg_streams db') r" if "r \<in> set rows" for r
    unfolding db' by (simp, rule advanceHead_below [OF st])
      (use that new(1) inv(3) key spec in \<open>auto simp: stream_below_def\<close>)
  moreover have "wf_streams (pg_streams db')" unfolding db' using advanceHead_wf [OF inv(2) st le] by simp
  ultimately have "pg_inv db'" using spec by (simp add: pg_inv_def db')
  moreover have "stream_head db' s stream = rc_Cursor receipt"
    using st by (simp add: stream_head_def db' advanceHead_def go_map)
  ultimately show ?thesis
    using spec ensureStream_head [OF st] by (simp add: db')
qed

lemma appendStreamTx_live:
  assumes "pg_inv db" and "Source stream \<noteq> SourceAgentSession"
  shows "\<exists>db' receipt. appendStreamTx no_fault now db s stream batch = Inr (db', receipt)"
proof -
  let ?key = "(s, Source stream, StreamID stream)"
  obtain st where st: "mget (ensureStream now ?key (pg_streams db)) ?key = Some st"
    using ensureStream_found by blast
  have "step no_fault l = Inr ()" for l by (simp add: step_def no_fault_def)
  moreover obtain out where
    "appendStreamEvents no_fault now s stream (stb_Events batch) (pg_events db) (st_last_sequence st) 0 0 = Inr out"
    using appendStreamEvents_live [OF stream_below_head [OF assms(1) st refl assms(2)]] by blast
  ultimately show ?thesis using st by (cases out) (simp add: appendStreamTx_def Let_def)
qed

lemma pgAppendStream_elim:
  assumes "pgAppendStream fault now db s batch = (db', out)"
  obtains (failed) e where "out = Inl e" "db' = db"
  | (appended) receipt where "out = Inr receipt" "ValidateStreamBatch batch = Inr ()"
      "appendStreamTx fault now db s (se_Stream (hd (stb_Events batch))) batch = Inr (db', receipt)"
proof (cases "ValidateStreamBatch batch")
  case (Inl e)
  with assms show thesis
    by (intro failed [of "wrapf ''append stream: '' e"]) (simp_all add: pgAppendStream_def)
next
  case valid: (Inr u)
  show thesis
  proof (cases "step fault ''begin append stream''")
    case (Inl e)
    with assms valid show thesis by (intro failed [of e]) (simp_all add: pgAppendStream_def)
  next
    case begun: (Inr u')
    show thesis
    proof (cases "appendStreamTx fault now db s (se_Stream (hd (stb_Events batch))) batch")
      case (Inl e)
      with assms valid begun show thesis
        by (intro failed [of "abort fault ''rollback append stream'' e"])
          (simp_all add: pgAppendStream_def)
    next
      case (Inr p)
      obtain db'' receipt where p: "p = (db'', receipt)" by (cases p)
      show thesis
      proof (cases "step fault ''commit append stream''")
        case (Inl e)
        with assms valid begun Inr p show thesis
          by (intro failed [of "abort fault ''rollback append stream'' e"])
            (simp_all add: pgAppendStream_def)
      next
        case committed: (Inr u'')
        with assms valid begun Inr p show thesis
          by (intro appended [of receipt]) (simp_all add: pgAppendStream_def)
      qed
    qed
  qed
qed

lemma valid_stream_source:
  assumes "ValidateStreamBatch batch = Inr ()"
  shows "Source (se_Stream (hd (stb_Events batch))) \<noteq> SourceAgentSession"
proof (cases "stb_Events batch")
  case Nil
  with assms show ?thesis by (simp add: ValidateStreamBatch_def)
next
  case (Cons first rest)
  with assms have "validateStreamEvents (se_Stream first) (first # rest) = Inr ()"
    by (simp add: ValidateStreamBatch_def split: if_splits)
  then have "wf_stream_event (se_Stream first) first"
    by (simp add: validateStreamEvents_ok del: validateStreamEvents.simps)
  with Cons show ?thesis
    by (auto simp: wf_stream_event_def SourceAgentSession_def SourceIMChannel_def SourceAppTodo_def)
qed

lemma pgAppendStream_inv:
  assumes "pg_inv db" and "pgAppendStream fault now db s batch = (db', out)"
  shows "pg_inv db'"
  using assms(2)
proof (cases rule: pgAppendStream_elim)
  case (appended receipt)
  from appendStreamTx_spec [OF appended(3) assms(1) valid_stream_source [OF appended(2)]]
  show ?thesis by blast
qed (use assms(1) in simp)

text \<open>C26. Stream ingestion allocates sequences without gap or collision: a failed batch leaves the
  database unchanged; an accepted one appends its new events with exactly the sequences that
  follow the head of the stream, duplicates consume none, and the receipt's cursor is the new
  head.\<close>

theorem pgAppendStream_gapless:
  assumes "pg_inv db" and "pgAppendStream fault now db s batch = (db', out)"
    and "stream = se_Stream (hd (stb_Events batch))"
  shows "case out of
      Inl _ \<Rightarrow> db' = db
    | Inr receipt \<Rightarrow>
        rc_Accepted receipt + rc_Duplicate receipt = int (length (stb_Events batch)) \<and>
        stream_head db' s stream = rc_Cursor receipt \<and>
        rc_Cursor receipt = stream_head db s stream + rc_Accepted receipt \<and>
        (\<exists>new. pg_events db' = pg_events db @ new \<and>
           map row_sequence new = [stream_head db s stream + 1..rc_Cursor receipt] \<and>
           (\<forall>r \<in> set new. \<exists>e \<in> set (stb_Events batch). r = streamRow s stream now (row_sequence r) e)) \<and>
        (\<forall>e \<in> set (stb_Events batch). event_present s (pg_events db') (se_ID e))"
  using assms(2)
proof (cases rule: pgAppendStream_elim)
  case (appended receipt)
  from appendStreamTx_spec [OF appended(3) assms(1) valid_stream_source [OF appended(2)]]
  show ?thesis unfolding appended(1) sum.case assms(3) by blast
qed simp

text \<open>A connector batch for the witnesses: two messages of a chat channel, one of them twice.\<close>

definition demo_message :: "string \<Rightarrow> stream_event" where
  "demo_message eid = \<lparr>se_ID = eid, se_Stream = \<lparr>Source = SourceIMChannel, StreamID = ''general''\<rparr>,
     se_Author = \<lparr>Kind = ''user'', NativeID = ''U1'', AuthorUserID = []\<rparr>, se_Sequence = 0,
     se_Kind = KindText, se_Type = ''message'', se_Content = ''hello'', se_Media = None,
     se_ThreadRef = [], se_Visibility = VisibilityTeam, se_OccurredAt = 70, se_CapturedAt = 0,
     se_Metadata = []\<rparr>"

definition demo_stream_batch :: stream_batch where
  "demo_stream_batch =
     \<lparr>stb_Events = [demo_message ''m1'', demo_message ''m1'', demo_message ''m2''], stb_Complete = False\<rparr>"

lemma demo_db_inv: "pg_inv demo_db"
  by (rule pgAppendSession_inv [OF demo_start_inv demo_append])

theorem pgAppendStream_gapless_witness:
  "\<exists>db' receipt. pgAppendStream no_fault 80 demo_db ''team'' demo_stream_batch = (db', Inr receipt) \<and>
     stream_head db' ''team'' \<lparr>Source = SourceIMChannel, StreamID = ''general''\<rparr> = 2 \<and>
     rc_Accepted receipt = 2 \<and> rc_Duplicate receipt = 1 \<and>
     (\<exists>new. pg_events db' = pg_events demo_db @ new \<and> map row_sequence new = [1..2])"
proof -
  let ?rc = "\<lparr>rc_Accepted = 2, rc_Duplicate = 1, rc_Cursor = 2, rc_RunID = []\<rparr>"
  let ?stream = "\<lparr>Source = SourceIMChannel, StreamID = ''general''\<rparr>"
  have "snd (pgAppendStream no_fault 80 demo_db ''team'' demo_stream_batch) = Inr ?rc" by code_simp
  then obtain db' where run: "pgAppendStream no_fault 80 demo_db ''team'' demo_stream_batch = (db', Inr ?rc)"
    by (metis prod.collapse)
  have stream: "?stream = se_Stream (hd (stb_Events demo_stream_batch))"
    by (simp add: demo_stream_batch_def demo_message_def)
  have head: "stream_head demo_db ''team'' ?stream = 0" by code_simp
  from pgAppendStream_gapless [OF demo_db_inv run stream] head
  have "stream_head db' ''team'' ?stream = 2 \<and>
     (\<exists>new. pg_events db' = pg_events demo_db @ new \<and> map row_sequence new = [1..2])" by auto
  with run show ?thesis by auto
qed

text \<open>On a database that does not fail, every valid connector batch is accepted: the unique index
  on the stream's sequences is never violated by an allocated sequence.\<close>

theorem pgAppendStream_live:
  assumes "pg_inv db" and "ValidateStreamBatch batch = Inr ()"
  shows "\<exists>db' receipt. pgAppendStream no_fault now db s batch = (db', Inr receipt)"
proof -
  have "step no_fault l = Inr ()" for l by (simp add: step_def no_fault_def)
  then show ?thesis
    using appendStreamTx_live [OF assms(1) valid_stream_source [OF assms(2)], of now s batch] assms(2)
    by (auto simp: pgAppendStream_def)
qed

theorem pgAppendStream_live_witness:
  "ValidateStreamBatch demo_stream_batch = Inr () \<and>
   (\<exists>db' receipt. pgAppendStream no_fault 80 demo_db ''team'' demo_stream_batch = (db', Inr receipt))"
proof -
  have valid: "ValidateStreamBatch demo_stream_batch = Inr ()" by code_simp
  from pgAppendStream_live [OF demo_db_inv valid, of 80 "''team''"] valid show ?thesis by blast
qed

section \<open>Every reachable database\<close>

text \<open>One operation of the adapter, with whatever failures and clock.\<close>

inductive pg_op :: "pg \<Rightarrow> pg \<Rightarrow> bool" where
  configure: "ConfigureExtractionEnqueuer db enq = (db', out) \<Longrightarrow> pg_op db db'"
| append_session: "pgAppendSession fault now db s batch = (db', out) \<Longrightarrow> pg_op db db'"
| append_stream: "pgAppendStream fault now db s sbatch = (db', out') \<Longrightarrow> pg_op db db'"
| advance: "pgAdvanceExtractionCursor fault now db s a c = (db', out'') \<Longrightarrow> pg_op db db'"

inductive pg_reaches :: "pg \<Rightarrow> pg \<Rightarrow> bool" where
  start: "pg_reaches db db"
| op: "pg_reaches db mid \<Longrightarrow> pg_op mid db' \<Longrightarrow> pg_reaches db db'"

lemma pg_op_inv: "pg_op db db' \<Longrightarrow> pg_inv db \<Longrightarrow> pg_inv db'"
proof (induction rule: pg_op.induct)
  case (configure db enq db' out)
  then show ?case
    by (auto simp: ConfigureExtractionEnqueuer_def pg_inv_def split: option.splits)
next
  case (advance fault now db s a c db' out'')
  from advance(1,2) show ?case by (cases rule: pgAdvance_cases) (auto intro: advanceTx_inv)
qed (blast intro: pgAppendSession_inv pgAppendStream_inv)+

lemma pg_reaches_inv: "pg_reaches db db' \<Longrightarrow> pg_inv db \<Longrightarrow> pg_inv db'"
  by (induction rule: pg_reaches.induct) (auto intro: pg_op_inv)

text \<open>An event row without its extraction time, and what a later database keeps of an earlier one.\<close>

definition eraseRow :: "event_row \<Rightarrow> event_row" where
  "eraseRow r = r\<lparr>row_extracted := None\<rparr>"

definition extends :: "pg \<Rightarrow> pg \<Rightarrow> bool" where
  "extends db db' \<longleftrightarrow>
     prefix (map eraseRow (pg_events db)) (map eraseRow (pg_events db')) \<and>
     (\<forall>k st. mget (pg_streams db) k = Some st \<longrightarrow>
        (\<exists>st'. mget (pg_streams db') k = Some st' \<and> st_cursor st \<le> st_cursor st' \<and>
           st_last_sequence st \<le> st_last_sequence st' \<and> (st_complete st \<longrightarrow> st_complete st')))"

lemma extends_refl: "extends db db"
  by (auto simp: extends_def)

lemma extends_trans: "extends a b \<Longrightarrow> extends b c \<Longrightarrow> extends a c"
  unfolding extends_def by (meson order_trans prefix_order.trans)

lemma eraseRow_extracted [simp]: "eraseRow (extractedRow now s a c r) = eraseRow r"
  by (simp add: eraseRow_def extractedRow_def)

lemma markExtracted_erased: "map eraseRow (markExtracted now s a c rows) = map eraseRow rows"
  by (simp add: markExtracted_def)

lemma advanceTx_extends: "advanceTx fault now db s a c = Inr db' \<Longrightarrow> extends db db'"
  using advanceTx_Inr(1) [of fault now db s a c db']
  by (auto simp: extends_def markExtracted_erased advanceStreams_mget advanceRow_def)

lemma appendSessionTx_extends:
  assumes "appendSessionTx fault now db s a batch = Inr (db', receipt)" and "wf_events (pg_events db)"
  shows "extends db db'"
  using assms(1)
proof (rule appendSessionTx_elim)
  fix rows rc
  assume run: "appendEvents fault now s (sb_Events batch) (pg_events db) emptyReceipt = Inr (rows, rc)"
    and ev: "pg_events db' = rows"
    and sts: "pg_streams db' = upsertStream now s a (sb_Complete batch) (rc_Cursor rc) (pg_streams db)"
  from appendEvents_spec [OF run assms(2)] obtain new where "rows = pg_events db @ new" by blast
  then show ?thesis
    by (auto simp: extends_def ev sts upsertStream_def Let_def go_map)
qed

lemma appendStreamTx_extends:
  assumes "appendStreamTx fault now db s stream batch = Inr (db', receipt)" and "pg_inv db"
    and "Source stream \<noteq> SourceAgentSession"
  shows "extends db db'"
  using assms(1)
proof (rule appendStreamTx_elim)
  let ?key = "(s, Source stream, StreamID stream)"
  fix st rows
  assume st: "mget (ensureStream now ?key (pg_streams db)) ?key = Some st"
    and run: "appendStreamEvents fault now s stream (stb_Events batch) (pg_events db) (st_last_sequence st) 0 0 =
       Inr (rows, rc_Cursor receipt, rc_Accepted receipt, rc_Duplicate receipt)"
    and db': "db' = db\<lparr>pg_events := rows, pg_streams := advanceHead now ?key (rc_Cursor receipt)
         (stb_Complete batch) (ensureStream now ?key (pg_streams db))\<rparr>"
  from appendStreamEvents_spec [OF run _ stream_below_head [OF assms(2) st refl assms(3)] assms(3)] assms(2)
  obtain new where "rows = pg_events db @ new" "st_last_sequence st \<le> rc_Cursor receipt"
    by (auto simp: pg_inv_def)
  with st show ?thesis
    by (auto simp: extends_def db' advanceHead_def ensureStream_def go_map split: option.splits)
qed

lemma pg_op_extends: "pg_op db db' \<Longrightarrow> pg_inv db \<Longrightarrow> extends db db'"
proof (induction rule: pg_op.induct)
  case (configure db enq db' out)
  then show ?case
    by (auto simp: ConfigureExtractionEnqueuer_def extends_def split: option.splits)
next
  case (append_session fault now db s batch db' out)
  from append_session(1,2) show ?case
    by (cases rule: pgAppendSession_elim)
      (auto simp: pg_inv_def intro: appendSessionTx_extends extends_refl)
next
  case (append_stream fault now db s sbatch db' out')
  from append_stream(1) show ?case
  proof (cases rule: pgAppendStream_elim)
    case (appended receipt)
    show ?thesis
      by (rule appendStreamTx_extends [OF appended(3) append_stream(2) valid_stream_source [OF appended(2)]])
  qed (simp add: extends_refl)
next
  case (advance fault now db s a c db' out'')
  from advance(1,2) show ?case
    by (cases rule: pgAdvance_cases) (auto intro: advanceTx_extends extends_refl)
qed

text \<open>C24. From the empty database, whatever the operations, their failures and their order: event
  identities and per-stream sequences stay unique, no stored event is above its stream's head or
  without a stream row, and no cursor is above its head.  Stored evidence is append-only: later
  databases extend earlier ones, changing at most extraction times, and neither a cursor nor a
  head nor a completion flag ever moves back.\<close>

theorem pg_reachable_consistent:
  assumes "pg_reaches emptyDatabase db" and "pg_reaches db db'"
  shows "pg_inv db \<and> pg_inv db' \<and> extends db db'"
proof -
  have inv: "pg_inv db" by (rule pg_reaches_inv [OF assms(1) pg_inv_empty])
  from assms(2) inv have "extends db db'"
    by (induction rule: pg_reaches.induct)
      (auto intro: extends_refl extends_trans pg_op_extends dest: pg_reaches_inv)
  with inv pg_reaches_inv [OF assms(2) inv] show ?thesis by simp
qed

theorem pg_reachable_consistent_witness:
  "pg_reaches emptyDatabase demo_start \<and> pg_reaches demo_start demo_db \<and> pg_inv demo_db \<and>
   extends demo_start demo_db"
proof -
  have "ConfigureExtractionEnqueuer emptyDatabase (Some demo_enqueuer) = (demo_start, Inr ())"
    by (simp add: ConfigureExtractionEnqueuer_def demo_start_def emptyDatabase_def)
  then have first: "pg_reaches emptyDatabase demo_start"
    by (blast intro: pg_reaches.intros pg_op.intros)
  have second: "pg_reaches demo_start demo_db"
    using demo_append by (blast intro: pg_reaches.intros pg_op.intros)
  from pg_reachable_consistent [OF first second] first second show ?thesis by simp
qed

section \<open>Slices of the stored evidence\<close>

text \<open>C19. A slice taken from a consistent database skips nothing: its new events are exactly the stored
  events of the agent session after the extraction cursor up to the slice's last sequence, in
  sequence order; the overlap is the end of what was extracted before; and the slice ends strictly
  after the cursor.\<close>

theorem slice_no_gap:
  assumes "pg_inv db" and "ScopeFromContext ctx = Inr s"
    and "NextSlice (postgres_repository fault now) db ctx a policy = Inr sl" and "sl_Events sl \<noteq> []"
  shows "\<exists>new overlap. sl_Events sl = overlap @ new \<and> new \<noteq> [] \<and>
    sl_NewEventIDs sl = eventIDs new \<and> sl_OverlapEventIDs sl = eventIDs overlap \<and>
    new = filter (\<lambda>e. stored_cursor db s a < ev_Sequence e \<and> ev_Sequence e \<le> sl_ToSequence sl)
            (stored_session db s a) \<and>
    suffix overlap (filter (\<lambda>e. ev_Sequence e \<le> stored_cursor db s a) (stored_session db s a)) \<and>
    sl_FromSequence sl = ev_Sequence (hd new) \<and> sl_ToSequence sl = ev_Sequence (last new) \<and>
    stored_cursor db s a < sl_ToSequence sl"
  by (rule pg_lake.NextSlice_no_gap [OF assms(1,3,2,4)])

text \<open>A policy, a context and the slice they give, for the witnesses.\<close>

definition demo_policy :: slice_policy where
  "demo_policy = \<lparr>EventLimit = 10, TokenLimit = 1000, Overlap = 2, ThroughSequence = 0\<rparr>"

definition demo_ctx :: go_context where
  "demo_ctx = \<lparr>ctx_scope = Some ''team'', ctx_err = None\<rparr>"

definition demo_stored :: "session_event list" where
  "demo_stored = map (scanSessionEvent \<circ> sessionRow ''team'' 500) (sb_Events demo_batch)"

definition demo_slice :: lake_slice where
  "demo_slice = \<lparr>sl_Actor = demo_actor, sl_Events = demo_stored, sl_NewEventIDs = eventIDs demo_stored,
     sl_OverlapEventIDs = [], sl_FromSequence = 1, sl_ToSequence = 2,
     sl_InputChecksum = checksum demo_stored\<rparr>"

lemma demo_scope: "ScopeFromContext demo_ctx = Inr ''team''"
  by (simp add: ScopeFromContext_def demo_ctx_def)

lemma demo_next:
  "NextSlice (postgres_repository no_fault 700) demo_db demo_ctx demo_actor demo_policy = Inr demo_slice \<and>
   sl_Events demo_slice \<noteq> [] \<and> sl_ToSequence demo_slice = 2"
proof -
  let ?repo = "postgres_repository no_fault 700"
  have "ExtractionCursor ?repo demo_db ''team'' demo_actor = Inr 0" by code_simp
  moreover have "SessionEvents ?repo demo_db ''team'' demo_actor 0 10 = Inr demo_stored" by code_simp
  moreover have "boundedEvents (eventsThrough demo_stored 0) 1000 = demo_stored" by code_simp
  moreover have "eventsThrough demo_stored 0 \<noteq> []" by code_simp
  moreover have "ev_Sequence (hd demo_stored) = 1 \<and> ev_Sequence (last demo_stored) = 2" by code_simp
  ultimately show ?thesis
    by (simp add: NextSlice_def demo_scope demo_policy_def overlapEvents_def demo_slice_def eventIDs_def)
      (simp add: demo_stored_def demo_batch_def)
qed

theorem slice_no_gap_witness:
  "\<exists>new overlap. sl_Events demo_slice = overlap @ new \<and> new \<noteq> [] \<and>
     new = filter (\<lambda>e. stored_cursor demo_db ''team'' demo_actor < ev_Sequence e \<and> ev_Sequence e \<le> 2)
       (stored_session demo_db ''team'' demo_actor)"
proof -
  from demo_next have ne: "sl_Events demo_slice \<noteq> []" and two: "sl_ToSequence demo_slice = 2" by simp_all
  from slice_no_gap [OF demo_db_inv demo_scope conjunct1 [OF demo_next] ne] show ?thesis
    unfolding two by blast
qed

text \<open>A slice respects its policy: at most \<open>EventLimit\<close> new and \<open>Overlap\<close> old events, nothing beyond
  \<open>ThroughSequence\<close>, and within \<open>TokenLimit\<close> unless it is a single event that exceeds the limit
  alone (which is sliced anyway, so extraction never gets stuck on it).\<close>

theorem slice_bounds:
  assumes "pg_inv db" and "ScopeFromContext ctx = Inr s"
    and "NextSlice (postgres_repository fault now) db ctx a policy = Inr sl" and "sl_Events sl \<noteq> []"
  shows "int (length (sl_NewEventIDs sl)) \<le> EventLimit policy \<and>
    int (length (sl_OverlapEventIDs sl)) \<le> Overlap policy \<and>
    (eventTokens (sl_Events sl) \<le> TokenLimit policy \<or> length (sl_Events sl) = 1) \<and>
    (0 < ThroughSequence policy \<longrightarrow> sl_ToSequence sl \<le> ThroughSequence policy)"
  by (rule pg_lake.NextSlice_bounds [OF assms(1,3,2,4)])

theorem slice_bounds_witness:
  "int (length (sl_NewEventIDs demo_slice)) \<le> 10 \<and> int (length (sl_OverlapEventIDs demo_slice)) \<le> 2"
  using slice_bounds [OF demo_db_inv demo_scope conjunct1 [OF demo_next]] demo_next
  by (simp add: demo_policy_def)

text \<open>Committing a slice moves the extraction cursor of its stream exactly to the slice's end, a
  strict advance, and changes no stored evidence of any session but its extraction times.\<close>

theorem commit_advances:
  assumes "pg_inv db" and "ScopeFromContext ctx = Inr s"
    and "NextSlice (postgres_repository fault now) db ctx a policy = Inr sl" and "sl_Events sl \<noteq> []"
    and "CommitSlice (postgres_repository fault now) db ctx sl = (db', Inr u)"
  shows "pg_inv db' \<and> stored_cursor db' s a = sl_ToSequence sl \<and>
    stored_cursor db s a < stored_cursor db' s a \<and>
    map erase (stored_session db' t b) = map erase (stored_session db t b)"
  by (rule pg_lake.CommitSlice_cursor [OF assms(1,3,2,4,5)])

theorem commit_advances_witness:
  "\<exists>db'. CommitSlice (postgres_repository no_fault 700) demo_db demo_ctx demo_slice = (db', Inr ()) \<and>
     stored_cursor db' ''team'' demo_actor = 2"
proof -
  have "snd (AdvanceExtractionCursor (postgres_repository no_fault 700) demo_db ''team'' demo_actor 2) = Inr ()"
    by code_simp
  then have "snd (CommitSlice (postgres_repository no_fault 700) demo_db demo_ctx demo_slice) = Inr ()"
    by (auto simp: CommitSlice_def demo_scope demo_slice_def split: prod.splits sum.splits)
  then obtain db' where run: "CommitSlice (postgres_repository no_fault 700) demo_db demo_ctx demo_slice = (db', Inr ())"
    by (metis prod.collapse)
  from commit_advances [OF demo_db_inv demo_scope conjunct1 [OF demo_next] _ run] demo_next run
  show ?thesis by auto
qed

end
