(* ===== verification/Ledger_Theorems.thy ===== *)
theory Ledger_Theorems
  imports Note_Ledger
begin

text \<open>
  The properties of the note ledger: its invariant and its preservation, atomicity of an extraction
  run, replay of a durable result, permanence of a quarantine, grounding of notes in evidence, the
  protection of qualifiers, and expiry.
\<close>

section \<open>The invariant\<close>

definition notes_inv :: "notes_map \<Rightarrow> (string, string) gomap \<Rightarrow> bool" where
  "notes_inv notes cands \<longleftrightarrow> mwf notes \<and> mwf cands \<and>
     (\<forall>k n. mget notes k = Some n \<longrightarrow> wf_note k n \<and> mget cands (nt_ID n) = Some k) \<and>
     (\<forall>i k. mget cands i = Some k \<longrightarrow> mget notes k \<noteq> None)"

definition ledger_inv :: "ledger \<Rightarrow> bool" where
  "ledger_inv l \<longleftrightarrow> notes_inv (lg_notes l) (lg_candidates l) \<and> mwf (lg_runs l)"

lemma ledger_inv_new: "ledger_inv (NewLedger policy)"
  by (simp add: ledger_inv_def notes_inv_def NewLedger_def)

text \<open>How a note may change: its identity, its creation and its hard boundary never, its content only
  with a new revision.\<close>

definition note_follows :: "team_note \<Rightarrow> team_note \<Rightarrow> bool" where
  "note_follows n n' \<longleftrightarrow>
     nt_ID n' = nt_ID n \<and> nt_Key n' = nt_Key n \<and> nt_Kind n' = nt_Kind n \<and> nt_Subject n' = nt_Subject n \<and>
     nt_TaskRef n' = nt_TaskRef n \<and> nt_ThreadRef n' = nt_ThreadRef n \<and> nt_CreatedAt n' = nt_CreatedAt n \<and>
     nt_HardExpiresAt n' = nt_HardExpiresAt n \<and> nt_Revision n \<le> nt_Revision n' \<and>
     (nt_Revision n' = nt_Revision n \<longrightarrow> n' = n)"

lemma note_follows_refl: "note_follows n n"
  by (simp add: note_follows_def)

lemma note_follows_trans: "note_follows a b \<Longrightarrow> note_follows b c \<Longrightarrow> note_follows a c"
  by (auto simp: note_follows_def)

lemma admitted_follows:
  assumes "AdmitCandidateWithAuthority policy now cand evidence (Some cur) authority = Inr n"
  shows "note_follows cur n \<and> nt_Revision n = nt_Revision cur + 1"
  using assms
  by (cases rule: admit_cases) (auto simp: note_follows_def resolvedNote_def updatedNote_def cloneNote_def)

lemma admitted_ID:
  assumes "AdmitCandidateWithAuthority policy now cand evidence current authority = Inr n"
  shows "nt_ID n = (case current of None \<Rightarrow> cn_ID cand | Some cur \<Rightarrow> nt_ID cur)"
  using assms
proof (cases rule: admit_cases)
  case (resolved cur)
  then show ?thesis by (simp add: resolvedNote_def cloneNote_def)
next
  case (written cand' lease)
  with reviseCandidate_fields [OF written(2)] show ?thesis
    by (auto simp: createdNote_def updatedNote_def cloneNote_def Let_def split: option.splits)
qed

lemma notes_inv_admit:
  assumes inv: "notes_inv notes cands" and fresh: "mget cands (cn_ID cand) = None"
    and adm: "AdmitCandidateWithAuthority policy now cand evidence (mget notes (CanonicalKey cand)) authority = Inr n"
  shows "notes_inv (mput (CanonicalKey cand) n notes) (mput (cn_ID cand) (CanonicalKey cand) cands)"
proof -
  have wf: "wf_note (CanonicalKey cand) n"
    by (rule admitted_wf [OF adm]) (use inv in \<open>simp add: notes_inv_def\<close>)
  have other: "nt_ID m \<noteq> cn_ID cand \<and> mget cands (nt_ID m) = Some k" if "mget notes k = Some m" for k m
  proof -
    have "mget cands (nt_ID m) = Some k" using that inv unfolding notes_inv_def by blast
    with fresh show ?thesis by auto
  qed
  have nid: "nt_ID n = cn_ID cand \<or> mget cands (nt_ID n) = Some (CanonicalKey cand)"
    using admitted_ID [OF adm] other [of "CanonicalKey cand"]
    by (cases "mget notes (CanonicalKey cand)") auto
  show ?thesis
    using inv wf other nid by (auto simp: notes_inv_def go_map)
qed

definition notes_follow :: "notes_map \<Rightarrow> notes_map \<Rightarrow> bool" where
  "notes_follow notes notes' \<longleftrightarrow>
     (\<forall>k n. mget notes k = Some n \<longrightarrow> (\<exists>n'. mget notes' k = Some n' \<and> note_follows n n'))"

lemma notes_follow_refl: "notes_follow notes notes"
  by (auto simp: notes_follow_def note_follows_refl)

lemma notes_follow_trans: "notes_follow a b \<Longrightarrow> notes_follow b c \<Longrightarrow> notes_follow a c"
  unfolding notes_follow_def by (meson note_follows_trans)

lemma notes_follow_admit:
  assumes "AdmitCandidateWithAuthority policy now cand evidence (mget notes (CanonicalKey cand)) authority = Inr n"
  shows "notes_follow notes (mput (CanonicalKey cand) n notes)"
  using assms admitted_follows note_follows_refl by (fastforce simp: notes_follow_def go_map)

lemma admitCandidates_spec:
  assumes "admitCandidates policy clock i run cs ns cands result = Inr (notes', cands', result')"
    and "notes_inv ns cands"
  shows "notes_inv notes' cands' \<and> notes_follow ns notes' \<and> length result' = length result + length cs \<and>
    (\<forall>c \<in> set cs. mget cands' (cn_ID c) \<noteq> None) \<and>
    (\<forall>x k. mget cands x = Some k \<longrightarrow> mget cands' x = Some k) \<and> prefix result result'"
  using assms
proof (induction policy clock i run cs ns cands result rule: admitCandidates.induct)
  case (2 policy clock i run cand rest ns cands result)
  show ?case
  proof (cases "mget cands (cn_ID cand)")
    case (Some key)
    from "2.prems"(1) Some
    have "admitCandidates policy clock i run rest ns cands
        (result @ [cloneNote (case mget ns key of None \<Rightarrow> zeroNote | Some n \<Rightarrow> n)]) = Inr (notes', cands', result')"
      by simp
    from "2.IH"(2) [OF Some this "2.prems"(2)] Some show ?thesis by (auto dest: append_prefixD)
  next
    case None
    from "2.prems"(1) None obtain n where adm:
      "AdmitCandidateWithAuthority policy (clock i) cand (run_Evidence run) (mget ns (CanonicalKey cand))
         (transitionAuthorityFor (run_TransitionAuthorities run) (cn_ID cand)) = Inr n"
      by (auto split: sum.splits)
    let ?ns = "mput (CanonicalKey cand) n ns" and ?cands = "mput (cn_ID cand) (CanonicalKey cand) cands"
    from "2.prems"(1) None adm
    have rest: "admitCandidates policy clock (Suc i) run rest ?ns ?cands (result @ [cloneNote n]) =
        Inr (notes', cands', result')" by simp
    note IH = "2.IH"(1) [OF None adm rest notes_inv_admit [OF "2.prems"(2) None adm]]
    have keep: "mget cands' x = Some k" if "mget cands x = Some k" for x k
    proof -
      have "x \<noteq> cn_ID cand" using that None by auto
      then have "mget ?cands x = Some k" using that by (simp add: go_map)
      with IH show ?thesis by blast
    qed
    have new: "mget cands' (cn_ID cand) \<noteq> None" using IH by (auto simp: go_map)
    have follow: "notes_follow ns notes'"
      using IH notes_follow_admit [OF adm] notes_follow_trans by blast
    have "prefix result result'" using IH by (blast dest: append_prefixD)
    with IH keep new follow show ?thesis by auto
  qed
qed (simp add: notes_follow_refl)

lemma admission_error_quarantines:
  assumes "AdmitCandidateWithAuthority policy now cand evidence current authority = Inl e"
  shows "ShouldQuarantineExtractionRun e"
proof -
  let ?c = "prepareCandidate cand evidence"
  show ?thesis
  proof (cases "validateCandidate ?c policy")
    case (Inl e')
    with assms show ?thesis
      by (auto simp: AdmitCandidateWithAuthority_def Let_def ShouldQuarantineExtractionRun_def
          dest: validateCandidate_error)
  next
    case valid: (Inr u)
    show ?thesis
    proof (cases "validateEvidence ?c evidence")
      case (Inl e')
      with assms valid show ?thesis
        by (auto simp: AdmitCandidateWithAuthority_def Let_def ShouldQuarantineExtractionRun_def
            dest: validateEvidence_error)
    next
      case (Inr u')
      with assms valid show ?thesis
        by (auto simp: AdmitCandidateWithAuthority_def Let_def ShouldQuarantineExtractionRun_def note_sentinels
            dest: reviseCandidate_error split: if_splits option.splits sum.splits)
    qed
  qed
qed

lemma admitCandidates_error:
  "admitCandidates policy clock i run cs ns cands result = Inl e \<Longrightarrow> ShouldQuarantineExtractionRun e"
  by (induction policy clock i run cs ns cands result rule: admitCandidates.induct)
    (auto dest: admission_error_quarantines split: option.splits sum.splits)

section \<open>Applying an extraction run\<close>

text \<open>The stored result for a run, and what an attempt with the same identity gets back.\<close>

definition stored_run :: "ledger \<Rightarrow> extraction_run \<Rightarrow> stored_extraction_run option" where
  "stored_run l run = (if run_ID run = [] then None else mget (lg_runs l) (run_ID run))"

lemma prepared_fields:
  "PrepareExtractionRun marshal run = Inr run' \<Longrightarrow>
     run_ID run' = run_ID run \<and> run_Candidates run' = run_Candidates run \<and> run_Evidence run' = run_Evidence run \<and>
     run_TransitionAuthorities run' = run_TransitionAuthorities run \<and>
     extractionRunInput run' = extractionRunInput run \<and> SameExtractionRunInput x run' = SameExtractionRunInput x run"
  by (auto simp: PrepareExtractionRun_def NormalizeExtractionRun_def Let_def extractionRunInput_def
      SameExtractionRunInput_def split: sum.splits if_splits)

lemma stored_run_cong: "run_ID a = run_ID b \<Longrightarrow> stored_run l a = stored_run l b"
  by (simp add: stored_run_def)

definition remember :: "extraction_run \<Rightarrow> stored_extraction_run \<Rightarrow> ledger \<Rightarrow> ledger" where
  "remember run stored l = (if run_ID run = [] then l else l\<lparr>lg_runs := mput (run_ID run) stored (lg_runs l)\<rparr>)"

definition replay_check :: "stored_extraction_run \<Rightarrow> extraction_run \<Rightarrow> unit res" where
  "replay_check stored run =
     ValidateExtractionRunReplay (sr_Input stored) run
       (if sr_Quarantined stored then ExtractionRunQuarantined else ExtractionRunCompleted) (sr_Reason stored)"

lemma ApplyRun_cases:
  assumes "ApplyRun marshal clock l ctx run0 = (l', out)"
  obtains (rejected) e where "out = Inl e" "l' = l"
      "ctx_err ctx \<noteq> None \<or> (\<exists>e'. PrepareExtractionRun marshal run0 = Inl e')"
  | (replayed) run stored where "ctx_err ctx = None" "PrepareExtractionRun marshal run0 = Inr run"
      "stored_run l run = Some stored" "l' = l"
      "out = (case replay_check stored run of Inl e \<Rightarrow> Inl e | Inr _ \<Rightarrow> Inr (sr_Notes stored))"
  | (quarantined) run e where "ctx_err ctx = None" "PrepareExtractionRun marshal run0 = Inr run"
      "stored_run l run = None"
      "admitCandidates (lg_policy l) clock 0 run (run_Candidates run) (lg_notes l) (lg_candidates l) [] = Inl e"
      "l' = remember run \<lparr>sr_Input = extractionRunInput run, sr_Notes = [], sr_Quarantined = True,
         sr_Reason = error_text e\<rparr> l"
      "out = Inl (wrapf (''quarantine extraction run '' @ quote (run_ID run) @ '': '') (Join ErrExtractionRunQuarantined e))"
  | (applied) run ns cands result where "ctx_err ctx = None" "PrepareExtractionRun marshal run0 = Inr run"
      "stored_run l run = None"
      "admitCandidates (lg_policy l) clock 0 run (run_Candidates run) (lg_notes l) (lg_candidates l) [] =
         Inr (ns, cands, result)"
      "l' = remember run \<lparr>sr_Input = extractionRunInput run, sr_Notes = result, sr_Quarantined = False,
         sr_Reason = []\<rparr> (l\<lparr>lg_notes := ns, lg_candidates := cands\<rparr>)"
      "out = Inr result"
proof (cases "ctx_err ctx")
  case (Some e)
  with assms show thesis
    by (intro rejected [of "wrapf ''apply extraction run context: '' e"]) (simp_all add: ApplyRun_def)
next
  case ctx: None
  show thesis
  proof (cases "PrepareExtractionRun marshal run0")
    case (Inl e)
    with assms ctx show thesis by (intro rejected [of e]) (simp_all add: ApplyRun_def)
  next
    case prep: (Inr run)
    note open_run = assms [unfolded ApplyRun_def ctx prep option.case sum.case, folded stored_run_def]
    have clone: "map cloneNote ns = ns" for ns by (simp add: cloneNote_def map_idI)
    show thesis
    proof (cases "stored_run l run")
      case (Some stored)
      show thesis
      proof (cases "replay_check stored run")
        case (Inl e)
        with open_run Some show thesis
          by (intro replayed [OF ctx prep Some]) (simp_all add: replay_check_def)
      next
        case (Inr u)
        with open_run Some show thesis
          by (intro replayed [OF ctx prep Some]) (simp_all add: replay_check_def clone)
      qed
    next
      case new: None
      show thesis
      proof (cases "admitCandidates (lg_policy l) clock 0 run (run_Candidates run) (lg_notes l) (lg_candidates l) []")
        case (Inl e)
        with open_run new admitCandidates_error [OF Inl] show thesis
          by (intro quarantined [OF ctx prep new Inl]) (simp_all add: remember_def split: if_splits)
      next
        case (Inr p)
        obtain ns cands result where p: "p = (ns, cands, result)" by (cases p)
        with Inr open_run new show thesis
          by (intro applied [OF ctx prep new, of ns cands result])
            (simp_all add: remember_def clone Let_def split: if_splits)
      qed
    qed
  qed
qed

lemma ApplyRun_applied:
  assumes "ctx_err ctx = None" and "PrepareExtractionRun marshal run0 = Inr run" and "stored_run l run = None"
    and "admitCandidates (lg_policy l) clock 0 run (run_Candidates run) (lg_notes l) (lg_candidates l) [] =
      Inr (ns, cands, result)"
  shows "ApplyRun marshal clock l ctx run0 =
    (remember run \<lparr>sr_Input = extractionRunInput run, sr_Notes = result, sr_Quarantined = False, sr_Reason = []\<rparr>
       (l\<lparr>lg_notes := ns, lg_candidates := cands\<rparr>), Inr result)"
proof -
  obtain l' out where run: "ApplyRun marshal clock l ctx run0 = (l', out)" by (cases "ApplyRun marshal clock l ctx run0")
  from run show ?thesis by (cases rule: ApplyRun_cases) (use assms run in auto)
qed

lemma ApplyRun_quarantined:
  assumes "ctx_err ctx = None" and "PrepareExtractionRun marshal run0 = Inr run" and "stored_run l run = None"
    and "admitCandidates (lg_policy l) clock 0 run (run_Candidates run) (lg_notes l) (lg_candidates l) [] = Inl e"
  shows "ApplyRun marshal clock l ctx run0 =
    (remember run \<lparr>sr_Input = extractionRunInput run, sr_Notes = [], sr_Quarantined = True, sr_Reason = error_text e\<rparr> l,
     Inl (wrapf (''quarantine extraction run '' @ quote (run_ID run) @ '': '') (Join ErrExtractionRunQuarantined e)))"
proof -
  obtain l' out where run: "ApplyRun marshal clock l ctx run0 = (l', out)" by (cases "ApplyRun marshal clock l ctx run0")
  from run show ?thesis by (cases rule: ApplyRun_cases) (use assms run in auto)
qed

lemma remember_simps [simp]:
  "lg_notes (remember run st l) = lg_notes l" "lg_candidates (remember run st l) = lg_candidates l"
  "lg_deliveries (remember run st l) = lg_deliveries l" "lg_policy (remember run st l) = lg_policy l"
  "lg_hintDeliveries (remember run st l) = lg_hintDeliveries l"
  "mwf (lg_runs l) \<Longrightarrow> mwf (lg_runs (remember run st l))"
  by (simp_all add: remember_def)

lemma stored_remember: "run_ID run \<noteq> [] \<Longrightarrow> run_ID run' = run_ID run \<Longrightarrow> stored_run (remember run st l) run' = Some st"
  by (simp add: stored_run_def remember_def go_map)

lemma ApplyRun_inv:
  assumes "ledger_inv l" and "ApplyRun marshal clock l ctx run = (l', out)"
  shows "ledger_inv l' \<and> notes_follow (lg_notes l) (lg_notes l')"
  using assms(2)
proof (cases rule: ApplyRun_cases)
  case (applied run' ns cands result)
  with assms(1) admitCandidates_spec [OF applied(4)] show ?thesis by (simp add: ledger_inv_def)
qed (use assms(1) in \<open>auto simp: ledger_inv_def notes_follow_refl\<close>)

text \<open>C2. Applying an extraction run is atomic and keeps the ledger consistent.  On every outcome the
  invariant holds and no note is lost: a note keeps its identity, its creation time and its hard
  expiry, and changes only with a higher revision.  On an error not a single note or candidate is
  recorded, whatever prefix of the run had been admitted; on success every candidate of the run is
  recorded under a note, or the run was a replay that changed nothing.\<close>

theorem ApplyRun_atomic:
  assumes "ledger_inv l" and "ApplyRun marshal clock l ctx run = (l', out)"
  shows "ledger_inv l' \<and> notes_follow (lg_notes l) (lg_notes l') \<and>
    (case out of
       Inl _ \<Rightarrow> lg_notes l' = lg_notes l \<and> lg_candidates l' = lg_candidates l
     | Inr ns \<Rightarrow> l' = l \<or>
         (length ns = length (run_Candidates run) \<and>
          (\<forall>c \<in> set (run_Candidates run). \<exists>k n. mget (lg_candidates l') (cn_ID c) = Some k \<and>
             mget (lg_notes l') k = Some n)))"
proof -
  note inv = ApplyRun_inv [OF assms]
  from assms(2) show ?thesis
  proof (cases rule: ApplyRun_cases)
    case (applied run' ns cands result)
    with assms(1) have spec: "notes_inv ns cands" "length result = length (run_Candidates run')"
      "\<forall>c \<in> set (run_Candidates run'). mget cands (cn_ID c) \<noteq> None"
      using admitCandidates_spec [OF applied(4)] by (auto simp: ledger_inv_def)
    then have "\<forall>c \<in> set (run_Candidates run'). \<exists>k n. mget cands (cn_ID c) = Some k \<and> mget ns k = Some n"
      unfolding notes_inv_def by blast
    with inv applied(5,6) spec prepared_fields [OF applied(2)] show ?thesis by simp
  qed (use inv in \<open>auto split: sum.splits\<close>)
qed

section \<open>Expiry and eligibility\<close>

lemma expireNote_simps [simp]:
  "nt_ID (expireNote now n) = nt_ID n" "nt_Revision (expireNote now n) = nt_Revision n"
  "wf_note k (expireNote now n) = wf_note k n"
  by (auto simp: expireNote_def wf_note_def)

lemma mget_expire: "mget (map (\<lambda>(k, n). (k, expireNote now n)) m) k = map_option (expireNote now) (mget m k)"
  by (induction m) auto

lemma eligibleNotes_inv:
  assumes "ledger_inv l" and "eligibleNotes l now request = (l', ns)"
  shows "ledger_inv l' \<and> lg_runs l' = lg_runs l"
proof -
  have "lg_notes l' = map (\<lambda>(k, n). (k, expireNote now n)) (lg_notes l)" "lg_candidates l' = lg_candidates l"
    "lg_runs l' = lg_runs l"
    using assms(2) by (auto simp: eligibleNotes_def Let_def)
  with assms(1) show ?thesis
    unfolding ledger_inv_def notes_inv_def by (auto simp: mget_expire comp_def case_prod_beta)
qed

lemma eligible_live:
  assumes "ledger_inv l" and "eligibleNotes l now request = (l', ns)"
  shows "n \<in> set ns \<longleftrightarrow>
    (\<exists>k. mget (lg_notes l) k = Some n) \<and> nt_State n = StateActive \<and>
    now < nt_SoftExpiresAt n \<and> now < nt_HardExpiresAt n \<and>
    (nt_TaskRef n = [] \<or> nt_TaskRef n = rq_TaskRef request) \<and>
    (nt_ThreadRef n = [] \<or> nt_ThreadRef n = rq_ThreadRef request) \<and>
    (nt_AudienceAgentIDs n = [] \<or> AgentID (rq_Actor request) \<in> set (nt_AudienceAgentIDs n)) \<and>
    deliveryKey n (rq_Actor request) \<notin> set (lg_deliveries l)"
proof -
  have wf: "mwf (lg_notes l)" and soft: "mget (lg_notes l) k = Some m \<Longrightarrow> nt_SoftExpiresAt m \<le> nt_HardExpiresAt m" for k m
    using assms(1) by (auto simp: ledger_inv_def notes_inv_def wf_note_def)
  have "n \<in> set ns \<longleftrightarrow> (\<exists>k m. mget (lg_notes l) k = Some m \<and> n = expireNote now m) \<and> eligibleForRecall l n request"
    using assms(2) mem_mget [OF wf] by (force simp: eligibleNotes_def Let_def)
  moreover have live: "n = expireNote now m \<and> nt_State n = StateActive \<longleftrightarrow>
      n = m \<and> nt_State n = StateActive \<and> now < nt_SoftExpiresAt n" for m
    by (auto simp: expireNote_def note_states)
  have "(\<exists>k m. mget (lg_notes l) k = Some m \<and> n = expireNote now m) \<and> nt_State n = StateActive \<longleftrightarrow>
      (\<exists>k. mget (lg_notes l) k = Some n) \<and> nt_State n = StateActive \<and>
      now < nt_SoftExpiresAt n \<and> now < nt_HardExpiresAt n" (is "?L = ?R")
  proof
    assume ?L
    then obtain k m where km: "mget (lg_notes l) k = Some m" "n = expireNote now m \<and> nt_State n = StateActive"
      by blast
    from live [THEN iffD1, OF km(2)] soft [OF km(1)] km(1) show ?R by force
  next
    assume r: ?R
    then have "n = n \<and> nt_State n = StateActive \<and> now < nt_SoftExpiresAt n" by simp
    from live [THEN iffD2, OF this] r show ?L by blast
  qed
  moreover have "eligibleForRecall l n request \<longleftrightarrow> nt_State n = StateActive \<and>
      (nt_TaskRef n = [] \<or> nt_TaskRef n = rq_TaskRef request) \<and>
      (nt_ThreadRef n = [] \<or> nt_ThreadRef n = rq_ThreadRef request) \<and>
      (nt_AudienceAgentIDs n = [] \<or> AgentID (rq_Actor request) \<in> set (nt_AudienceAgentIDs n)) \<and>
      deliveryKey n (rq_Actor request) \<notin> set (lg_deliveries l)"
    by (auto simp: eligibleForRecall_def includesAudience_def)
  ultimately show ?thesis by blast
qed

text \<open>Recall considers exactly the live notes: a note is eligible when it is stored, active, before its
  soft expiry (hence before its hard expiry), addressed to the task, thread and agent of the
  request, and this revision was not yet delivered to this session.\<close>

theorem eligibleNotes_iff:
  assumes "ledger_inv l" and "eligibleNotes l now request = (l', ns)"
  shows "n \<in> set ns \<longleftrightarrow>
    (\<exists>k. mget (lg_notes l) k = Some n) \<and> nt_State n = StateActive \<and>
    now < nt_SoftExpiresAt n \<and> now < nt_HardExpiresAt n \<and>
    (nt_TaskRef n = [] \<or> nt_TaskRef n = rq_TaskRef request) \<and>
    (nt_ThreadRef n = [] \<or> nt_ThreadRef n = rq_ThreadRef request) \<and>
    (nt_AudienceAgentIDs n = [] \<or> AgentID (rq_Actor request) \<in> set (nt_AudienceAgentIDs n)) \<and>
    deliveryKey n (rq_Actor request) \<notin> set (lg_deliveries l)"
  using assms by (rule eligible_live)

section \<open>Replay and quarantine\<close>

inductive ledger_op :: "ledger \<Rightarrow> ledger \<Rightarrow> bool" where
  apply_run: "ApplyRun marshal clock l ctx run = (l', out) \<Longrightarrow> ledger_op l l'"
| recall: "eligibleNotes l now request = (l', ns) \<Longrightarrow>
    ledger_op l (l'\<lparr>lg_deliveries := delivered, lg_hintDeliveries := hinted\<rparr>)"

inductive ledger_reaches :: "ledger \<Rightarrow> ledger \<Rightarrow> bool" where
  start: "ledger_reaches l l"
| op: "ledger_reaches l mid \<Longrightarrow> ledger_op mid l' \<Longrightarrow> ledger_reaches l l'"

lemma remember_keeps:
  "stored_run l run = None \<Longrightarrow> stored_run l r = Some st \<Longrightarrow> stored_run (remember run x l) r = Some st"
  by (auto simp: stored_run_def remember_def go_map split: if_splits)

lemma stored_run_notes [simp]: "stored_run (l\<lparr>lg_notes := ns, lg_candidates := cs\<rparr>) r = stored_run l r"
  by (simp add: stored_run_def)

lemma ApplyRun_keeps:
  assumes "ApplyRun marshal clock l ctx run = (l', out)" and "stored_run l r = Some st"
  shows "stored_run l' r = Some st"
  using assms(1)
proof (cases rule: ApplyRun_cases)
  case (applied run' ns cands result)
  then show ?thesis
    using remember_keeps [of "l\<lparr>lg_notes := ns, lg_candidates := cands\<rparr>" run' r st] assms(2) by simp
qed (use assms(2) remember_keeps in auto)

lemma ledger_op_keeps: "ledger_op l l' \<Longrightarrow> stored_run l r = Some st \<Longrightarrow> stored_run l' r = Some st"
proof (induction rule: ledger_op.induct)
  case (recall l now request l' ns delivered hinted)
  then show ?case by (auto simp: eligibleNotes_def Let_def stored_run_def)
qed (rule ApplyRun_keeps)

lemma ledger_reaches_keeps:
  "ledger_reaches l l' \<Longrightarrow> stored_run l r = Some st \<Longrightarrow> stored_run l' r = Some st"
  by (induction rule: ledger_reaches.induct) (auto intro: ledger_op_keeps)

lemma same_input_sym: "SameExtractionRunInput a b = SameExtractionRunInput b a"
  by (auto simp: SameExtractionRunInput_def)

lemma same_input_trans:
  "SameExtractionRunInput a b \<Longrightarrow> SameExtractionRunInput b c \<Longrightarrow> SameExtractionRunInput a c"
  by (auto simp: SameExtractionRunInput_def)

lemma same_input_stored: "SameExtractionRunInput (extractionRunInput run) r = SameExtractionRunInput run r"
  by (auto simp: SameExtractionRunInput_def extractionRunInput_def)

lemma replay_outcome:
  assumes "stored_run l run' = Some stored" and "SameExtractionRunInput (sr_Input stored) run'"
    and "ctx_err ctx = None" and "PrepareExtractionRun marshal run' = Inr prep"
  shows "if sr_Quarantined stored
    then \<exists>e. ApplyRun marshal clock l ctx run' = (l, Inl e) \<and> errors_is e ErrExtractionRunQuarantined
    else ApplyRun marshal clock l ctx run' = (l, Inr (sr_Notes stored))"
proof -
  have prep: "stored_run l prep = Some stored" "SameExtractionRunInput (sr_Input stored) prep"
    using assms(1,2) prepared_fields [OF assms(4)] stored_run_cong [of prep run' l] by simp_all
  have clone: "map cloneNote ns = ns" for ns by (simp add: cloneNote_def map_idI)
  show ?thesis
    using prep assms(3,4)
    by (simp add: ApplyRun_def stored_run_def [symmetric] ValidateExtractionRunReplay_def Let_def clone
        ExtractionRunQuarantined_def ExtractionRunCompleted_def note_sentinels)
qed

lemma applied_stored:
  assumes "ApplyRun marshal clock l ctx run = (l', Inr ns)" and "run_ID run \<noteq> []" and "run_ID run' = run_ID run"
    and "SameExtractionRunInput run run'"
  shows "\<exists>stored. stored_run l' run' = Some stored \<and> \<not> sr_Quarantined stored \<and> sr_Notes stored = ns \<and>
    SameExtractionRunInput (sr_Input stored) run'"
  using assms(1)
proof (cases rule: ApplyRun_cases)
  case (replayed prep stored)
  then have "\<not> sr_Quarantined stored" "sr_Notes stored = ns" "SameExtractionRunInput (sr_Input stored) prep"
    by (auto simp: replay_check_def ValidateExtractionRunReplay_def Let_def ExtractionRunQuarantined_def
        ExtractionRunCompleted_def split: sum.splits if_splits)
  with replayed(3,4) prepared_fields [OF replayed(2)] assms(3,4) show ?thesis
    by (auto simp: stored_run_def intro: same_input_trans)
next
  case (applied prep nts cands result)
  with prepared_fields [OF applied(2)] assms(2-4) show ?thesis
    by (auto simp: stored_remember same_input_stored)
qed auto

text \<open>C14. A durable result is final.  Once an identified run has been applied, every later attempt with
  the same input, whatever its recomputed candidates, clock and whatever happened in between,
  returns the notes of the first application and changes nothing.\<close>

theorem ApplyRun_replay:
  assumes "ApplyRun marshal clock l ctx run = (l', Inr ns)" and "run_ID run \<noteq> []"
    and "ledger_reaches l' later"
    and "run_ID run' = run_ID run" and "SameExtractionRunInput run run'"
    and "ctx_err ctx' = None" and "PrepareExtractionRun marshal run' = Inr prep"
  shows "ApplyRun marshal clock' later ctx' run' = (later, Inr ns)"
proof -
  from applied_stored [OF assms(1,2,4,5)] obtain stored where
    st: "stored_run l' run' = Some stored" "\<not> sr_Quarantined stored" "sr_Notes stored = ns"
      "SameExtractionRunInput (sr_Input stored) run'" by blast
  from replay_outcome [OF ledger_reaches_keeps [OF assms(3) st(1)] st(4) assms(6,7), of clock'] st
  show ?thesis by simp
qed

text \<open>C15. Quarantine is final.  A well-formed run that fails admission is recorded as quarantined, never
  half-applied, and every later attempt with the same input reports the quarantine and changes
  nothing, so that a caller may skip the slice instead of retrying it.\<close>

theorem ApplyRun_quarantine:
  assumes "ApplyRun marshal clock l ctx run = (l', Inl e)" and "run_ID run \<noteq> []"
    and "stored_run l run = None" and "ctx_err ctx = None" and "PrepareExtractionRun marshal run = Inr prep"
    and "ledger_reaches l' later"
    and "run_ID run' = run_ID run" and "SameExtractionRunInput run run'"
    and "ctx_err ctx' = None" and "PrepareExtractionRun marshal run' = Inr prep'"
  shows "errors_is e ErrExtractionRunQuarantined \<and> ShouldQuarantineExtractionRun e \<and>
    lg_notes l' = lg_notes l \<and>
    (\<exists>e'. ApplyRun marshal clock' later ctx' run' = (later, Inl e') \<and> errors_is e' ErrExtractionRunQuarantined)"
  using assms(1)
proof (cases rule: ApplyRun_cases)
  case (rejected e')
  with assms(4,5) show ?thesis by simp
next
  case (replayed r stored)
  with assms(3) prepared_fields [OF replayed(2)] stored_run_cong [of r run l] show ?thesis by simp
next
  case (quarantined r err)
  have pf: "run_ID r = run_ID run" "extractionRunInput r = extractionRunInput run"
    using prepared_fields [OF quarantined(2)] by simp_all
  have st: "stored_run l' run' = Some \<lparr>sr_Input = extractionRunInput run, sr_Notes = [], sr_Quarantined = True,
      sr_Reason = error_text err\<rparr>" (is "_ = Some ?st")
    using quarantined(5) assms(2,7) pf stored_remember [of r run'] by simp
  have same: "SameExtractionRunInput (sr_Input ?st) run'" using assms(8) by (simp add: same_input_stored)
  have out: "e = wrapf (''quarantine extraction run '' @ quote (run_ID r) @ '': '') (Join ErrExtractionRunQuarantined err)"
    using quarantined(6) by simp
  show ?thesis
    using replay_outcome [OF ledger_reaches_keeps [OF assms(6) st] same assms(9,10), of clock']
      quarantined(5) out admitCandidates_error [OF quarantined(4)]
    by (auto simp: note_sentinels ShouldQuarantineExtractionRun_def)
qed auto

section \<open>Grounding and protection of notes\<close>

text \<open>C29. Notes are grounded: every evidence event an admitted note cites is an event of the run, of the
  candidate's own actor, visible to the team and of the note's task and thread, or was already
  cited by the revision before it; and a note cites at least one event.\<close>

theorem admitted_grounded:
  assumes "AdmitCandidateWithAuthority policy now cand evidence current authority = Inr n"
    and "eid \<in> set (nt_EvidenceEventIDs n)"
  shows "(\<exists>e \<in> set evidence. ev_ID e = eid \<and> ev_Actor e = cn_Origin cand \<and> evidenceVisible (ev_Visibility e) \<and>
      ev_TaskRef e = cn_TaskRef cand \<and> ev_ThreadRef e = cn_ThreadRef cand) \<or>
    (\<exists>cur. current = Some cur \<and> authority \<noteq> None \<and> eid \<in> set (nt_EvidenceEventIDs cur))"
proof -
  have supported: "\<exists>e \<in> set evidence. ev_ID e = eid \<and> ev_Actor e = cn_Origin cand \<and> evidenceVisible (ev_Visibility e) \<and>
      ev_TaskRef e = cn_TaskRef cand \<and> ev_ThreadRef e = cn_ThreadRef cand"
    if "validateEvidence (prepareCandidate cand evidence) evidence = Inr ()" "eid \<in> set (cn_EvidenceEventIDs cand)"
    using validateEvidence_ok [OF that(1)] that(2)
    by (fastforce simp: evidenceSupports_def dest: eventsByID_Some)
  from assms(1) show ?thesis
  proof (cases rule: admit_cases)
    case (resolved cur)
    with assms(2) supported [OF resolved(5)] show ?thesis by (simp add: resolvedNote_def)
  next
    case (written cand' lease)
    from written(4) assms(2) have "eid \<in> set (cn_EvidenceEventIDs cand')"
      by (auto simp: createdNote_def updatedNote_def Let_def split: option.splits)
    with written(2) have "eid \<in> set (cn_EvidenceEventIDs cand) \<or>
        (\<exists>cur. current = Some cur \<and> authority \<noteq> None \<and> eid \<in> set (nt_EvidenceEventIDs cur))"
      by (auto simp: reviseCandidate_def split: option.splits sum.splits)
    with supported [OF written(6)] show ?thesis by blast
  qed
qed


text \<open>The canonical key identifies a note: candidates share a key only if they agree on the task, the
  thread, the kind and the identity, and, where a status or handoff has no explicit identity,
  on the agent it comes from.\<close>

theorem canonical_key_separates:
  "CanonicalKey a = CanonicalKey b \<longleftrightarrow>
     (cn_TaskRef a, cn_ThreadRef a, cn_Kind a, identityOf a) = (cn_TaskRef b, cn_ThreadRef b, cn_Kind b, identityOf b) \<and>
     (cn_Kind a \<in> {KindStatus, KindHandoff} \<longrightarrow>
        (trim_space (cn_IdentityRef a) = []) = (trim_space (cn_IdentityRef b) = []) \<and>
        (trim_space (cn_IdentityRef a) \<noteq> [] \<or> AgentID (cn_Origin a) = AgentID (cn_Origin b)))"
proof
  assume eq: "CanonicalKey a = CanonicalKey b"
  from CanonicalKey_eq [OF eq] CanonicalKey_eq [OF eq [symmetric]]
  show "(cn_TaskRef a, cn_ThreadRef a, cn_Kind a, identityOf a) = (cn_TaskRef b, cn_ThreadRef b, cn_Kind b, identityOf b) \<and>
     (cn_Kind a \<in> {KindStatus, KindHandoff} \<longrightarrow>
        (trim_space (cn_IdentityRef a) = []) = (trim_space (cn_IdentityRef b) = []) \<and>
        (trim_space (cn_IdentityRef a) \<noteq> [] \<or> AgentID (cn_Origin a) = AgentID (cn_Origin b)))"
    unfolding prod.inject by metis
next
  assume rhs: "(cn_TaskRef a, cn_ThreadRef a, cn_Kind a, identityOf a) = (cn_TaskRef b, cn_ThreadRef b, cn_Kind b, identityOf b) \<and>
     (cn_Kind a \<in> {KindStatus, KindHandoff} \<longrightarrow>
        (trim_space (cn_IdentityRef a) = []) = (trim_space (cn_IdentityRef b) = []) \<and>
        (trim_space (cn_IdentityRef a) \<noteq> [] \<or> AgentID (cn_Origin a) = AgentID (cn_Origin b)))"
  show "CanonicalKey a = CanonicalKey b"
  proof (cases "cn_Kind b = KindStatus \<or> cn_Kind b = KindHandoff")
    case True
    then show "?thesis"
      by (cases "trim_space (cn_IdentityRef b) = []") (insert rhs, elim conjE, force simp: CanonicalKey_def)+
  next
    case False
    with rhs show ?thesis by (simp add: CanonicalKey_def)
  qed
qed

section \<open>A concrete ledger\<close>

definition demo_marshal :: marshaler where
  "demo_marshal cands auths = Inr (concat (map cn_ID cands))"

definition demo_clock :: "nat \<Rightarrow> time" where
  "demo_clock i = 1000 + int i"

definition fine_ctx :: go_context where
  "fine_ctx = \<lparr>ctx_scope = Some ''team'', ctx_err = None\<rparr>"

definition created_candidate :: candidate where
  "created_candidate = moved_candidate\<lparr>cn_ID := ''c1'', cn_Action := ActionCreate\<rparr>"

definition orphan_candidate :: candidate where
  "orphan_candidate = created_candidate\<lparr>cn_ID := ''c2'', cn_EvidenceEventIDs := [''missing'']\<rparr>"

definition demo_run :: "string \<Rightarrow> candidate list \<Rightarrow> extraction_run" where
  "demo_run rid cands = (candidateRun created_candidate [moved_event])\<lparr>run_ID := rid, run_Candidates := cands\<rparr>"

definition demo_note :: team_note where
  "demo_note = createdNote \<lparr>SoftTTL = hours 24, HardTTL = 7 * hours 24\<rparr> 1000
     (prepareCandidate created_candidate [moved_event])"

definition prepared :: "extraction_run \<Rightarrow> extraction_run" where
  "prepared run = run\<lparr>run_CandidateChecksum := sha256_hex (concat (map cn_ID (run_Candidates run)))\<rparr>"

lemma admitCandidates_checksum:
  "admitCandidates policy clock i (run\<lparr>run_CandidateChecksum := x\<rparr>) cs ns cands result =
   admitCandidates policy clock i run cs ns cands result"
  by (induction policy clock i run cs ns cands result rule: admitCandidates.induct)
    (auto split: option.splits sum.splits)

lemma admitCandidates_prepared:
  "admitCandidates policy clock i (prepared run) cs ns cands result = admitCandidates policy clock i run cs ns cands result"
  by (simp only: prepared_def admitCandidates_checksum)

lemma demo_prepared:
  assumes "validateRunIdentity (demo_run rid cands) = Inr ()"
  shows "PrepareExtractionRun demo_marshal (demo_run rid cands) = Inr (prepared (demo_run rid cands))"
  using assms by (simp add: PrepareExtractionRun_def NormalizeExtractionRun_def demo_marshal_def prepared_def
      demo_run_def candidateRun_def Let_def)

lemma demo_valid:
  "validateRunIdentity (demo_run ''r1'' [created_candidate]) = Inr ()"
  "validateRunIdentity (demo_run ''r1'' []) = Inr ()"
  "validateRunIdentity (demo_run ''r2'' [created_candidate, orphan_candidate]) = Inr ()"
  by code_simp+

definition demo_ledger :: ledger where
  "demo_ledger = remember (demo_run ''r1'' [])
     \<lparr>sr_Input = extractionRunInput (demo_run ''r1'' []), sr_Notes = [demo_note], sr_Quarantined = False, sr_Reason = []\<rparr>
     ((NewLedger DefaultTTLPolicy)\<lparr>lg_notes := [(CanonicalKey created_candidate, demo_note)],
        lg_candidates := [(''c1'', CanonicalKey created_candidate)]\<rparr>)"

lemma demo_apply:
  "ApplyRun demo_marshal demo_clock (NewLedger DefaultTTLPolicy) fine_ctx (demo_run ''r1'' [created_candidate]) =
     (demo_ledger, Inr [demo_note])"
proof -
  have adm: "admitCandidates DefaultTTLPolicy demo_clock 0 (demo_run ''r1'' [created_candidate])
      [created_candidate] [] [] [] =
    Inr ([(CanonicalKey created_candidate, demo_note)], [(''c1'', CanonicalKey created_candidate)], [demo_note])"
    by code_simp
  let ?run = "demo_run ''r1'' [created_candidate]"
  have new: "stored_run (NewLedger DefaultTTLPolicy) run = None" for run
    by (simp add: stored_run_def NewLedger_def)
  have cands: "run_Candidates (prepared ?run) = [created_candidate]" by (simp add: prepared_def demo_run_def)
  have "ApplyRun demo_marshal demo_clock (NewLedger DefaultTTLPolicy) fine_ctx ?run =
      (remember (prepared ?run) \<lparr>sr_Input = extractionRunInput (prepared ?run), sr_Notes = [demo_note],
          sr_Quarantined = False, sr_Reason = []\<rparr>
         ((NewLedger DefaultTTLPolicy)\<lparr>lg_notes := [(CanonicalKey created_candidate, demo_note)],
            lg_candidates := [(''c1'', CanonicalKey created_candidate)]\<rparr>), Inr [demo_note])"
    by (rule ApplyRun_applied [OF _ demo_prepared [OF demo_valid(1)] new])
      (simp_all only: cands admitCandidates_prepared adm NewLedger_def ledger.simps fine_ctx_def
        go_context.simps)
  then show ?thesis
    by (simp add: demo_ledger_def remember_def prepared_def demo_run_def extractionRunInput_def)
qed

theorem ApplyRun_atomic_witness:
  "ledger_inv demo_ledger \<and> notes_follow [] (lg_notes demo_ledger) \<and>
   (\<exists>k n. mget (lg_candidates demo_ledger) ''c1'' = Some k \<and> mget (lg_notes demo_ledger) k = Some n)"
proof -
  have "demo_ledger \<noteq> NewLedger DefaultTTLPolicy"
    by (simp add: demo_ledger_def NewLedger_def remember_def demo_run_def)
  with ApplyRun_atomic [OF ledger_inv_new demo_apply] show ?thesis
    by (simp add: demo_run_def NewLedger_def created_candidate_def)
qed

theorem ApplyRun_replay_witness:
  "ApplyRun demo_marshal (\<lambda>i. 7777) demo_ledger fine_ctx (demo_run ''r1'' []) = (demo_ledger, Inr [demo_note])"
  by (rule ApplyRun_replay [OF demo_apply _ ledger_reaches.start _ _ _ demo_prepared [OF demo_valid(2)]])
    (simp_all add: demo_run_def SameExtractionRunInput_def fine_ctx_def)

lemma demo_quarantine:
  "\<exists>e. ApplyRun demo_marshal demo_clock demo_ledger fine_ctx (demo_run ''r2'' [created_candidate, orphan_candidate]) =
     (remember (demo_run ''r2'' []) \<lparr>sr_Input = extractionRunInput (demo_run ''r2'' []), sr_Notes = [],
        sr_Quarantined = True, sr_Reason = error_text e\<rparr> demo_ledger,
      Inl (wrapf (''quarantine extraction run '' @ quote ''r2'' @ '': '') (Join ErrExtractionRunQuarantined e)))"
proof -
  let ?run = "demo_run ''r2'' [created_candidate, orphan_candidate]"
  have "case admitCandidates DefaultTTLPolicy demo_clock 0 ?run [created_candidate, orphan_candidate]
      (lg_notes demo_ledger) (lg_candidates demo_ledger) [] of Inl _ \<Rightarrow> True | Inr _ \<Rightarrow> False" by code_simp
  then obtain e where adm: "admitCandidates DefaultTTLPolicy demo_clock 0 ?run [created_candidate, orphan_candidate]
      (lg_notes demo_ledger) (lg_candidates demo_ledger) [] = Inl e" by (auto split: sum.splits)
  have new: "stored_run demo_ledger (prepared ?run) = None"
    by (simp add: stored_run_def demo_ledger_def remember_def prepared_def demo_run_def NewLedger_def)
  have cands: "run_Candidates (prepared ?run) = [created_candidate, orphan_candidate]"
    by (simp add: prepared_def demo_run_def)
  have policy: "lg_policy demo_ledger = DefaultTTLPolicy" by (simp add: demo_ledger_def NewLedger_def)
  have "ApplyRun demo_marshal demo_clock demo_ledger fine_ctx ?run =
      (remember (prepared ?run) \<lparr>sr_Input = extractionRunInput (prepared ?run), sr_Notes = [],
          sr_Quarantined = True, sr_Reason = error_text e\<rparr> demo_ledger,
       Inl (wrapf (''quarantine extraction run '' @ quote (run_ID (prepared ?run)) @ '': '')
         (Join ErrExtractionRunQuarantined e)))"
    by (rule ApplyRun_quarantined [OF _ demo_prepared [OF demo_valid(3)] new])
      (simp_all only: cands policy admitCandidates_prepared adm fine_ctx_def go_context.simps)
  then show ?thesis
    by (intro exI [of _ e]) (simp add: remember_def prepared_def demo_run_def extractionRunInput_def)
qed

theorem ApplyRun_quarantine_witness:
  "\<exists>l' e e'. ApplyRun demo_marshal demo_clock demo_ledger fine_ctx
      (demo_run ''r2'' [created_candidate, orphan_candidate]) = (l', Inl e) \<and>
    lg_notes l' = lg_notes demo_ledger \<and>
    ApplyRun demo_marshal (\<lambda>i. 9) l' fine_ctx (demo_run ''r2'' [created_candidate, orphan_candidate]) = (l', Inl e') \<and>
    errors_is e' ErrExtractionRunQuarantined"
proof -
  let ?run = "demo_run ''r2'' [created_candidate, orphan_candidate]"
  obtain l' e where run: "ApplyRun demo_marshal demo_clock demo_ledger fine_ctx ?run = (l', Inl e)"
    using demo_quarantine by blast
  have "stored_run demo_ledger ?run = None" "run_ID ?run \<noteq> []" "ctx_err fine_ctx = None"
    by (simp_all add: stored_run_def demo_ledger_def remember_def demo_run_def NewLedger_def fine_ctx_def)
  from ApplyRun_quarantine [OF run this(2,1,3) demo_prepared [OF demo_valid(3)] ledger_reaches.start refl _ this(3)
      demo_prepared [OF demo_valid(3)], of "\<lambda>i. 9"] run
  show ?thesis by (auto simp: SameExtractionRunInput_def)
qed

definition demo_request :: recall_request where
  "demo_request = \<lparr>rq_Actor = \<lparr>UserID = ''v'', AgentID = ''b'', SessionID = ''t''\<rparr>, rq_TaskRef = [], rq_ThreadRef = [],
     rq_TokenBudget = 100, rq_Query = [], rq_MaxItems = 0\<rparr>"

lemma demo_ledger_inv: "ledger_inv demo_ledger"
  using ApplyRun_inv [OF ledger_inv_new demo_apply] by simp

theorem eligibleNotes_iff_witness:
  "demo_note \<in> set (snd (eligibleNotes demo_ledger 2000 demo_request)) \<and>
   demo_note \<notin> set (snd (eligibleNotes demo_ledger (nt_SoftExpiresAt demo_note) demo_request))"
proof -
  have stored: "mget (lg_notes demo_ledger) (CanonicalKey created_candidate) = Some demo_note"
    by (simp add: demo_ledger_def)
  have facts: "nt_State demo_note = StateActive" "(2000::int) < nt_SoftExpiresAt demo_note"
    "(2000::int) < nt_HardExpiresAt demo_note" "nt_TaskRef demo_note = []" "nt_ThreadRef demo_note = []"
    "nt_AudienceAgentIDs demo_note = []" "lg_deliveries demo_ledger = []"
    by code_simp+
  show ?thesis
    using eligibleNotes_iff [OF demo_ledger_inv surjective_pairing, of demo_note 2000 demo_request]
      eligibleNotes_iff [OF demo_ledger_inv surjective_pairing, of demo_note "nt_SoftExpiresAt demo_note" demo_request]
      stored facts by auto
qed

lemma demo_admit:
  "AdmitCandidateWithAuthority DefaultTTLPolicy 1000 created_candidate [moved_event] None None = Inr demo_note"
  by code_simp

theorem admitted_grounded_witness:
  "\<exists>e. e \<in> set [moved_event] \<and> ev_ID e = ''e9'' \<and> ev_Actor e = cn_Origin created_candidate"
proof -
  have "''e9'' \<in> set (nt_EvidenceEventIDs demo_note)" by code_simp
  from admitted_grounded [OF demo_admit this] show ?thesis by auto
qed

theorem canonical_key_separates_witness:
  "CanonicalKey created_candidate \<noteq> CanonicalKey (created_candidate\<lparr>cn_TaskRef := ''x''\<rparr>)"
  unfolding canonical_key_separates by (simp add: created_candidate_def moved_candidate_def)


end
