(* ===== verification/Runtime_Theorems.thy ===== *)
theory Runtime_Theorems
  imports Extraction_Runtime Session_Ingest Ledger_Theorems
begin

text \<open>
  What the extraction runtime guarantees, proved once for every repository that satisfies the laws of
  the lake and then for the PostgreSQL adapter: no event is skipped, none is extracted twice, and the
  cursor never passes an event before the store has taken, or quarantined, the run that covers it.
\<close>

section \<open>A store that remembers its calls\<close>

definition accepted :: "'a res \<Rightarrow> bool" where
  "accepted out \<longleftrightarrow> (case out of Inr _ \<Rightarrow> True | Inl e \<Rightarrow> errors_is e ErrExtractionRunQuarantined)"

definition logged :: "'s note_store \<Rightarrow> ('s \<times> (extraction_run \<times> bool) list) note_store" where
  "logged store =
     \<lparr>ApplyExtractionRun = (\<lambda>st ctx scopeID run.
        let out = ApplyExtractionRun store (fst st) ctx scopeID run in
        ((fst out, snd st @ [(run, accepted (snd out))]), snd out))\<rparr>"

text \<open>The identifiers of the new events of a run: its evidence from its first sequence on.\<close>

definition run_new :: "extraction_run \<Rightarrow> string list" where
  "run_new run = map ev_ID (filter (\<lambda>e. run_FromSequence run \<le> ev_Sequence e) (run_Evidence run))"

lemma logged_apply:
  assumes "applyExtractionRun (logged store) st ctx sl result = (st', out)" and "ScopeFromContext ctx = Inr s"
  shows "snd st' = snd st @ [(sliceRun sl result, accepted out)]"
  using assms
  by (auto simp: applyExtractionRun_def logged_def accepted_def Let_def split: prod.splits sum.splits)

lemma sliceRun_simps [simp]:
  "run_FromSequence (sliceRun sl result) = sl_FromSequence sl" "run_Evidence (sliceRun sl result) = sl_Events sl"
  by (simp_all add: sliceRun_def)

lemma observe_simps [simp]:
  "w_lake (observeExtraction A w ob) = w_lake w" "w_store (observeExtraction A w ob) = w_store w"
  "w_lake (recordUsage A w result) = w_lake w" "w_store (recordUsage A w result) = w_store w"
  by (simp_all add: observeExtraction_def recordUsage_def)

lemma erase_filter_ids:
  assumes "map erase xs = map erase ys"
  shows "map ev_ID (filter (\<lambda>e. P (ev_Sequence e)) xs) = map ev_ID (filter (\<lambda>e. P (ev_Sequence e)) ys)"
  using assms
proof (induction xs arbitrary: ys)
  case (Cons x xs)
  then obtain y ys' where ys: "ys = y # ys'" "erase x = erase y" "map erase xs = map erase ys'" by auto
  then have "ev_ID x = ev_ID y" "ev_Sequence x = ev_Sequence y" by (metis erase_simps(1), metis erase_simps(2))
  with Cons.IH [OF ys(3)] ys show ?case by simp
qed simp

lemma filter_split:
  fixes f :: "'a \<Rightarrow> 'b::linorder"
  assumes "sorted_wrt (\<lambda>x y. f x < f y) xs" and "a \<le> b" and "b \<le> c"
  shows "filter (\<lambda>x. a < f x \<and> f x \<le> c) xs =
    filter (\<lambda>x. a < f x \<and> f x \<le> b) xs @ filter (\<lambda>x. b < f x \<and> f x \<le> c) xs"
  using assms(1)
proof (induction xs)
  case (Cons x xs)
  show ?case
  proof (cases "f x \<le> b")
    case True
    with Cons assms(2,3) show ?thesis by auto
  next
    case False
    with Cons.prems have "filter (\<lambda>x. a < f x \<and> f x \<le> b) xs = []" by (auto simp: filter_empty_conv)
    with False Cons assms(2,3) show ?thesis by auto
  qed
qed simp

section \<open>Every repository that keeps the laws\<close>

locale runtime_laws =
  fixes repo :: "nat \<Rightarrow> 'r lake_repository"
    and inv :: "'r \<Rightarrow> bool"
    and stored :: "'r \<Rightarrow> string \<Rightarrow> actor \<Rightarrow> session_event list"
    and cursor :: "'r \<Rightarrow> string \<Rightarrow> actor \<Rightarrow> int"
  assumes laws: "lake_laws (repo i) inv stored cursor"
begin

lemma slice_new:
  assumes "inv r" and "NextSlice (repo i) r ctx a policy = Inr sl" and "ScopeFromContext ctx = Inr s"
    and "sl_Events sl \<noteq> []"
  shows "sl_Actor sl = a \<and> cursor r s a < sl_ToSequence sl \<and>
    filter (\<lambda>e. sl_FromSequence sl \<le> ev_Sequence e) (sl_Events sl) =
    filter (\<lambda>e. cursor r s a < ev_Sequence e \<and> ev_Sequence e \<le> sl_ToSequence sl) (stored r s a)"
proof -
  from lake_laws.NextSlice_no_gap [OF laws assms] obtain new overlap where
    ev: "sl_Events sl = overlap @ new" "new \<noteq> []" and
    new: "new = filter (\<lambda>e. cursor r s a < ev_Sequence e \<and> ev_Sequence e \<le> sl_ToSequence sl) (stored r s a)" and
    ov: "suffix overlap (filter (\<lambda>e. ev_Sequence e \<le> cursor r s a) (stored r s a))" and
    seq: "sl_FromSequence sl = ev_Sequence (hd new)" "cursor r s a < sl_ToSequence sl" by blast
  have act: "sl_Actor sl = a"
    by (rule lake_laws.NextSlice_cases [OF laws assms(1,2,3)]) (use assms(4) in auto)
  have "hd new \<in> set new" using ev(2) by simp
  then have hd: "cursor r s a < ev_Sequence (hd new)" by (subst (asm) (2) new) simp
  have "filter (\<lambda>e. sl_FromSequence sl \<le> ev_Sequence e) overlap = []"
    using set_mono_suffix [OF ov] hd seq(1) by (fastforce simp: filter_empty_conv)
  moreover have "sorted_wrt (\<lambda>x y. ev_Sequence x < ev_Sequence y) new"
    by (subst new) (rule sorted_wrt_filter [OF lake_laws.stored_sorted [OF laws assms(1)]])
  then have "filter (\<lambda>e. sl_FromSequence sl \<le> ev_Sequence e) new = new"
    using ev(2) seq(1) by (cases new) (auto simp: filter_id_conv less_imp_le)
  ultimately have "filter (\<lambda>e. sl_FromSequence sl \<le> ev_Sequence e) (sl_Events sl) = new" by (simp add: ev(1))
  with new act seq(2) show ?thesis by simp
qed

lemma finishSlice_spec:
  assumes "inv (w_lake w)" and "ScopeFromContext ctx = Inr s" and "app_lake A = repo"
    and "sl_Events sl \<noteq> []" and "sl_Actor sl = a" and "cursor (w_lake w) s a < sl_ToSequence sl"
    and "finishSlice A ctx a i w sl result q = (w', out)"
  shows "w_store w' = w_store w \<and> inv (w_lake w') \<and>
    (case out of
       Inl _ \<Rightarrow> w_lake w' = w_lake w
     | Inr b \<Rightarrow> b \<and> cursor (w_lake w') s a = sl_ToSequence sl \<and>
         (\<forall>t c. map erase (stored (w_lake w') t c) = map erase (stored (w_lake w) t c)))"
proof -
  obtain r com where com: "CommitSlice (repo (2 * i + 1)) (w_lake w) ctx sl = (r, com)"
    by (cases "CommitSlice (repo (2 * i + 1)) (w_lake w) ctx sl")
  show ?thesis
  proof (cases com)
    case (Inl e)
    with com have "r = w_lake w" using lake_laws.CommitSlice_error [OF laws assms(1)] by blast
    with com Inl assms(1,3,7) show ?thesis by (auto simp: finishSlice_def Let_def)
  next
    case (Inr u)
    note ok = lake_laws.CommitSlice_ok [OF laws assms(1,2,4) com [unfolded Inr]]
    with com Inr assms(3,5,6,7) show ?thesis by (auto simp: finishSlice_def Let_def)
  qed
qed

text \<open>One turn of the loop.\<close>

lemma processSlice_spec:
  assumes "inv (w_lake w)" and "ScopeFromContext ctx = Inr s" and "app_lake A = repo"
    and "\<And>j. app_store A j = logged (store j)"
    and "processSlice A ctx a policy i w = (w', out)"
  shows "inv (w_lake w') \<and>
    (case out of
       Inl _ \<Rightarrow> w_lake w' = w_lake w \<and> (\<exists>extra. snd (w_store w') = snd (w_store w) @ extra \<and> length extra \<le> 1)
     | Inr False \<Rightarrow> w' = w \<and> (\<forall>e \<in> set (stored (w_lake w) s a). cursor (w_lake w) s a < ev_Sequence e \<longrightarrow>
         0 < ThroughSequence policy \<and> ThroughSequence policy < ev_Sequence e)
     | Inr True \<Rightarrow> cursor (w_lake w) s a < cursor (w_lake w') s a \<and>
         (\<forall>t c. map erase (stored (w_lake w') t c) = map erase (stored (w_lake w) t c)) \<and>
         (\<exists>run. snd (w_store w') = snd (w_store w) @ [(run, True)] \<and>
            run_new run = map ev_ID (filter (\<lambda>e. cursor (w_lake w) s a < ev_Sequence e \<and>
              ev_Sequence e \<le> cursor (w_lake w') s a) (stored (w_lake w) s a))))"
proof (cases "NextSlice (repo (2 * i)) (w_lake w) ctx a policy")
  case (Inl e)
  with assms show ?thesis by (auto simp: processSlice_def)
next
  case slice: (Inr sl)
  show ?thesis
  proof (cases "sl_Events sl = []")
    case True
    have "sl_NewEventIDs sl = []"
      by (rule lake_laws.NextSlice_cases [OF laws assms(1) slice assms(2)]) (use True in auto)
    with lake_laws.NextSlice_empty [OF laws assms(1) slice assms(2)] True slice assms show ?thesis
      by (auto simp: processSlice_def)
  next
    case ne: False
    obtain extracted err where ex: "app_extract A i ctx sl = (extracted, err)" by (cases "app_extract A i ctx sl")
    show ?thesis
    proof (cases err)
      case (Some e)
      with ex ne slice assms show ?thesis by (auto simp: processSlice_def)
    next
      case None
      let ?result = "filterAdmissible (configTTL (app_config A)) extracted"
      obtain st ap where ap: "applyExtractionRun (app_store A i) (w_store w) ctx sl ?result = (st, ap)"
        by (cases "applyExtractionRun (app_store A i) (w_store w) ctx sl ?result")
      have log: "snd st = snd (w_store w) @ [(sliceRun sl ?result, accepted ap)]"
        by (rule logged_apply [OF ap [unfolded assms(4)] assms(2)])
      note new = slice_new [OF assms(1) slice assms(2) ne]
      show ?thesis
      proof (cases "accepted ap")
        case False
        with ap ex None ne slice assms log show ?thesis
          by (auto simp: processSlice_def accepted_def Let_def split: sum.splits)
      next
        case True
        then have fin: "\<exists>q. finishSlice A ctx a i (w\<lparr>w_store := st\<rparr>) sl ?result q = (w', out)"
          using ap ex None ne slice assms(3,5)
          by (auto simp: processSlice_def accepted_def Let_def split: sum.splits)
        then obtain q where fin: "finishSlice A ctx a i (w\<lparr>w_store := st\<rparr>) sl ?result q = (w', out)" by blast
        have "run_new (sliceRun sl ?result) = map ev_ID (filter (\<lambda>e. cursor (w_lake w) s a < ev_Sequence e \<and>
            ev_Sequence e \<le> sl_ToSequence sl) (stored (w_lake w) s a))"
          using new by (simp add: run_new_def)
        with finishSlice_spec [OF _ assms(2,3) ne _ _ fin] assms(1) new log True show ?thesis
          by (cases out) auto
      qed
    qed
  qed
qed

text \<open>The whole loop: the runs committed so far cover the events between the two cursors, in order.\<close>

lemma processSlices_spec:
  assumes "inv (w_lake w)" and "ScopeFromContext ctx = Inr s" and "app_lake A = repo"
    and "\<And>j. app_store A j = logged (store j)"
    and "processSlices A ctx a policy n i w = (w', out)"
  shows "inv (w_lake w') \<and> cursor (w_lake w) s a \<le> cursor (w_lake w') s a \<and>
    (\<forall>t c. map erase (stored (w_lake w') t c) = map erase (stored (w_lake w) t c)) \<and>
    (\<exists>committed extra. snd (w_store w') = snd (w_store w) @ committed @ extra \<and>
       length committed \<le> n \<and> length extra \<le> 1 \<and> (\<forall>r \<in> set committed. snd r) \<and>
       (out \<in> range Inr \<longrightarrow> extra = []) \<and> (out = Inr True \<longrightarrow> length committed = n) \<and>
       concat (map (run_new \<circ> fst) committed) =
         map ev_ID (filter (\<lambda>e. cursor (w_lake w) s a < ev_Sequence e \<and>
           ev_Sequence e \<le> cursor (w_lake w') s a) (stored (w_lake w) s a))) \<and>
    (out = Inr False \<longrightarrow> (\<forall>e \<in> set (stored (w_lake w') s a). cursor (w_lake w') s a < ev_Sequence e \<longrightarrow>
       0 < ThroughSequence policy \<and> ThroughSequence policy < ev_Sequence e))"
  using assms(1,5)
proof (induction n arbitrary: i w)
  case 0
  have nil: "filter (\<lambda>e. cursor (w_lake w) s a < ev_Sequence e \<and> ev_Sequence e \<le> cursor (w_lake w) s a) xs = []" for xs
    by (auto simp: filter_empty_conv)
  from "0.prems"(2) assms(3) have "w' = w" by (auto split: sum.splits)
  moreover have "out = Inr False \<longrightarrow> (\<forall>e \<in> set (stored (w_lake w) s a). cursor (w_lake w) s a < ev_Sequence e \<longrightarrow>
       0 < ThroughSequence policy \<and> ThroughSequence policy < ev_Sequence e)"
    using "0.prems"(2) assms(3) lake_laws.NextSlice_empty [OF laws "0.prems"(1) _ assms(2)]
    by (auto split: sum.splits)
  ultimately show ?case using "0.prems"(1) nil by (auto intro!: exI [of _ "[]"])
next
  case (Suc n)
  obtain w1 o1 where one: "processSlice A ctx a policy i w = (w1, o1)" by (cases "processSlice A ctx a policy i w")
  note turn = processSlice_spec [OF Suc.prems(1) assms(2-4) one]
  have nil: "filter (\<lambda>e. c < ev_Sequence e \<and> ev_Sequence e \<le> c) xs = []" for c xs
    by (auto simp: filter_empty_conv)
  show ?case
  proof (cases o1)
    case (Inl e)
    with Suc.prems(2) one have w': "w' = w1" "out = Inl e" by auto
    from turn Inl obtain extra where "snd (w_store w1) = snd (w_store w) @ [] @ extra" "length extra \<le> 1"
      "w_lake w1 = w_lake w" by auto
    then show ?thesis using turn w' Suc.prems(1) nil by (intro conjI exI [of _ "[]"] exI [of _ extra]) auto
  next
    case more: (Inr b)
    show ?thesis
    proof (cases b)
      case False
      with Suc.prems(2) one more have "w' = w1" "out = Inr False" by auto
      then show ?thesis using turn more False nil Suc.prems(1) by (auto intro!: exI [of _ "[]"])
    next
      case True
      with Suc.prems(2) one more have rest: "processSlices A ctx a policy n (Suc i) w1 = (w', out)" by simp
      from turn more True have inv1: "inv (w_lake w1)" and cur: "cursor (w_lake w) s a < cursor (w_lake w1) s a"
        and same: "\<And>t c. map erase (stored (w_lake w1) t c) = map erase (stored (w_lake w) t c)"
        and "\<exists>run. snd (w_store w1) = snd (w_store w) @ [(run, True)] \<and>
            run_new run = map ev_ID (filter (\<lambda>e. cursor (w_lake w) s a < ev_Sequence e \<and>
              ev_Sequence e \<le> cursor (w_lake w1) s a) (stored (w_lake w) s a))" by simp_all
      then obtain run where run: "snd (w_store w1) = snd (w_store w) @ [(run, True)]"
        "run_new run = map ev_ID (filter (\<lambda>e. cursor (w_lake w) s a < ev_Sequence e \<and>
              ev_Sequence e \<le> cursor (w_lake w1) s a) (stored (w_lake w) s a))" by blast
      note IH = Suc.IH [OF inv1 rest]
      from IH obtain committed extra where ce: "snd (w_store w') = snd (w_store w1) @ committed @ extra"
        "length committed \<le> n" "length extra \<le> 1" "\<forall>r \<in> set committed. snd r" "out \<in> range Inr \<longrightarrow> extra = []"
        "out = Inr True \<longrightarrow> length committed = n"
        "concat (map (run_new \<circ> fst) committed) =
          map ev_ID (filter (\<lambda>e. cursor (w_lake w1) s a < ev_Sequence e \<and> ev_Sequence e \<le> cursor (w_lake w') s a)
            (stored (w_lake w1) s a))" by blast
      have "map ev_ID (filter (\<lambda>e. cursor (w_lake w1) s a < ev_Sequence e \<and> ev_Sequence e \<le> cursor (w_lake w') s a)
            (stored (w_lake w1) s a)) =
          map ev_ID (filter (\<lambda>e. cursor (w_lake w1) s a < ev_Sequence e \<and> ev_Sequence e \<le> cursor (w_lake w') s a)
            (stored (w_lake w) s a))"
        by (rule erase_filter_ids [OF same])
      then have cover: "concat (map (run_new \<circ> fst) ((run, True) # committed)) =
          map ev_ID (filter (\<lambda>e. cursor (w_lake w) s a < ev_Sequence e \<and> ev_Sequence e \<le> cursor (w_lake w') s a)
            (stored (w_lake w) s a))"
        using ce(7) run(2) IH cur
          filter_split [OF lake_laws.stored_sorted [OF laws Suc.prems(1)],
            of "cursor (w_lake w) s a" "cursor (w_lake w1) s a" "cursor (w_lake w') s a" s a]
        by simp
      have calls: "snd (w_store w') = snd (w_store w) @ ((run, True) # committed) @ extra"
        using ce(1) run(1) by simp
      have all: "\<exists>committed extra. snd (w_store w') = snd (w_store w) @ committed @ extra \<and>
          length committed \<le> Suc n \<and> length extra \<le> 1 \<and> (\<forall>r \<in> set committed. snd r) \<and>
          (out \<in> range Inr \<longrightarrow> extra = []) \<and> (out = Inr True \<longrightarrow> length committed = Suc n) \<and>
          concat (map (run_new \<circ> fst) committed) =
            map ev_ID (filter (\<lambda>e. cursor (w_lake w) s a < ev_Sequence e \<and>
              ev_Sequence e \<le> cursor (w_lake w') s a) (stored (w_lake w) s a))"
        by (rule exI [of _ "(run, True) # committed"], rule exI [of _ extra], intro conjI calls cover ce(3,5))
          (use ce(2,4,6) in simp_all)
      have "cursor (w_lake w) s a \<le> cursor (w_lake w') s a" using IH cur by (meson less_imp_le order_trans)
      moreover have "\<forall>t c. map erase (stored (w_lake w') t c) = map erase (stored (w_lake w) t c)"
        using IH same by metis
      ultimately show ?thesis using IH all by blast
    qed
  qed
qed

end

interpretation pg_runtime: runtime_laws "\<lambda>i. postgres_repository (fault i) (now i)" pg_inv stored_session stored_cursor
  by (rule runtime_laws.intro) (rule pg_lake.lake_laws_axioms)

section \<open>The properties of \<open>ProcessExtraction\<close>\<close>

lemma ProcessExtraction_cases:
  assumes "ProcessExtraction A w ctx a through req = (w', out)"
  obtains (skipped) "req" "w' = w" "out \<noteq> Inr True"
  | (ran) "processSlices A ctx a (extractionPolicy (app_config A) through)
      (nat (cf_MaxSlicesPerJob (app_config A))) 0 w = (w', out)"
proof (cases req)
  case True
  show thesis
  proof (cases "IsCurrent (app_lake A 0) (w_lake w) ctx a through")
    case (Inl e)
    with True assms show thesis by (intro skipped) (auto simp: ProcessExtraction_def Let_def)
  next
    case (Inr b)
    with True assms show thesis
      by (cases b; intro skipped ran) (auto simp: ProcessExtraction_def Let_def)
  qed
next
  case False
  with assms show thesis by (intro ran) (simp add: ProcessExtraction_def Let_def)
qed



subsection \<open>A concrete run\<close>

definition accept_store :: "unit note_store" where
  "accept_store = \<lparr>ApplyExtractionRun = (\<lambda>st ctx scopeID run. (st, Inr []))\<rparr>"

definition no_result :: extract_result where
  "no_result = \<lparr>ex_Candidates = [], ex_TransitionAuthorities = [], ex_Usage = \<lparr>us_InputTokens = 10, us_OutputTokens = 1,
     us_PromptCacheHitTokens = 0, us_PromptCacheMissTokens = 10\<rparr>, ex_Model = ''m'', ex_PromptVersion = ''p'',
     ex_ExtractionVersion = ''v1'', ex_Rejections = []\<rparr>"

definition demo_app :: "(pg, unit \<times> (extraction_run \<times> bool) list) app" where
  "demo_app = \<lparr>app_lake = (\<lambda>i. postgres_repository no_fault 700), app_extract = (\<lambda>i ctx sl. (no_result, None)),
     app_store = (\<lambda>i. logged accept_store), app_clock = int,
     app_config = \<lparr>cf_SliceEventLimit = 10, cf_SliceTokenLimit = 1000, cf_SliceOverlap = 2, cf_MaxSlicesPerJob = 1,
       cf_TTLPolicy = Some DefaultTTLPolicy\<rparr>, app_observer = True, app_recorder = True\<rparr>"

definition demo_world :: "(pg, unit \<times> (extraction_run \<times> bool) list) world" where
  "demo_world = \<lparr>w_lake = demo_db, w_store = ((), []), w_observed = [], w_usage = []\<rparr>"

definition demo_committed :: pg where
  "demo_committed = fst (AdvanceExtractionCursor (postgres_repository no_fault 700) demo_db ''team'' demo_actor 2)"

lemma demo_process:
  "\<exists>w'. ProcessExtraction demo_app demo_world demo_ctx demo_actor 0 False = (w', Inr False) \<and>
     stored_cursor (w_lake w') ''team'' demo_actor = 2"
proof -
  let ?repo = "postgres_repository no_fault 700"
  have adv: "AdvanceExtractionCursor ?repo demo_db ''team'' demo_actor 2 = (demo_committed, Inr ())"
  proof -
    have "snd (AdvanceExtractionCursor ?repo demo_db ''team'' demo_actor 2) = Inr ()" by code_simp
    then show ?thesis by (metis demo_committed_def prod.collapse)
  qed
  have com: "CommitSlice ?repo demo_db demo_ctx demo_slice = (demo_committed, Inr ())"
    using adv demo_next by (simp add: CommitSlice_def demo_scope demo_slice_def)
  have nxt: "NextSlice ?repo demo_committed demo_ctx demo_actor demo_policy = Inr (emptySlice demo_actor 3)" by code_simp
  have cur: "stored_cursor demo_committed ''team'' demo_actor = 2" by code_simp
  have policy: "extractionPolicy (app_config demo_app) 0 = demo_policy"
    by (simp add: extractionPolicy_def demo_app_def demo_policy_def)
  have run: "ProcessExtraction demo_app demo_world demo_ctx demo_actor 0 False =
      processSlices demo_app demo_ctx demo_actor demo_policy (Suc 0) 0 demo_world"
    by (simp add: ProcessExtraction_def policy Let_def) (simp add: demo_app_def)
  have parts: "app_lake demo_app = (\<lambda>i. ?repo)" "app_extract demo_app = (\<lambda>i ctx sl. (no_result, None))"
      "app_store demo_app = (\<lambda>i. logged accept_store)" "w_lake demo_world = demo_db" "w_store demo_world = ((), [])"
    by (simp_all add: demo_app_def demo_world_def)
  show ?thesis
    unfolding run
    using com nxt cur demo_next
    by (simp add: parts processSlice_def applyExtractionRun_def demo_scope logged_def accept_store_def Let_def
        finishSlice_def emptySlice_def)
qed

lemma demo_app_parts:
  "app_lake demo_app = (\<lambda>i. postgres_repository ((\<lambda>_. no_fault) i) ((\<lambda>_. 700) i))"
  "app_store demo_app = (\<lambda>i. logged ((\<lambda>_. accept_store) i))" "pg_inv (w_lake demo_world)"
  by (simp_all add: demo_app_def demo_world_def demo_db_inv)



section \<open>Filtering and retrying\<close>

lemma filterLoop_spec:
  "filterLoop policy cs kept rej =
     (kept @ filter (\<lambda>c. ValidateCandidate c policy = Inr ()) cs,
      rej @ concat (map (\<lambda>c. case ValidateCandidate c policy of
        Inl e \<Rightarrow> [\<lparr>rj_Candidate = c, rj_Reason = error_text e\<rparr>] | Inr _ \<Rightarrow> []) cs))"
  by (induction policy cs kept rej rule: filterLoop.induct) (auto split: sum.splits)

text \<open>Before a run is applied its candidates are split without loss: what is kept, in order, is exactly
  what passes deterministic validation; everything else, in order, becomes a rejection with the
  reason of its failure.\<close>

theorem filterAdmissible_splits:
  "ex_Candidates (filterAdmissible policy result) =
     filter (\<lambda>c. ValidateCandidate c policy = Inr ()) (ex_Candidates result) \<and>
   ex_Rejections (filterAdmissible policy result) = ex_Rejections result @
     concat (map (\<lambda>c. case ValidateCandidate c policy of
       Inl e \<Rightarrow> [\<lparr>rj_Candidate = c, rj_Reason = error_text e\<rparr>] | Inr _ \<Rightarrow> []) (ex_Candidates result)) \<and>
   length (ex_Candidates (filterAdmissible policy result)) + length (ex_Rejections (filterAdmissible policy result)) =
     length (ex_Candidates result) + length (ex_Rejections result)"
proof -
  have "length (filter (\<lambda>c. ValidateCandidate c policy = Inr ()) cs) +
      length (concat (map (\<lambda>c. case ValidateCandidate c policy of
        Inl e \<Rightarrow> [\<lparr>rj_Candidate = c, rj_Reason = error_text e\<rparr>] | Inr _ \<Rightarrow> []) cs)) = length cs" for cs
    by (induction cs) (auto split: sum.splits)
  then show ?thesis by (auto simp: filterAdmissible_def filterLoop_spec)
qed

lemma mput_same: "mget m k = Some v \<Longrightarrow> mput k v m = m"
  by (induction m) (auto split: if_splits)

lemma ledger_apply_elim:
  assumes "applyExtractionRun (ledger_note_store marshal clock) st ctx sl result = (st', Inr u)"
  obtains s l' ns where "ScopeFromContext ctx = Inr s"
    "ApplyRun marshal clock (scopeLedger st s) ctx (sliceRun sl result) = (l', Inr ns)"
    "st' = st\<lparr>ss_ledgers := mput s l' (ss_ledgers st)\<rparr>"
proof -
  from assms obtain s where s: "ScopeFromContext ctx = Inr s" by (auto simp: applyExtractionRun_def split: sum.splits)
  obtain l' out where run: "ApplyRun marshal clock (scopeLedger st s) ctx (sliceRun sl result) = (l', out)"
    by (cases "ApplyRun marshal clock (scopeLedger st s) ctx (sliceRun sl result)")
  from assms s run obtain ns where "out = Inr ns" "st' = st\<lparr>ss_ledgers := mput s l' (ss_ledgers st)\<rparr>"
    by (cases out) (auto simp: applyExtractionRun_def ledger_note_store_def storeApplyExtractionRun_def withLedger_def)
  with s run show thesis by (intro that) auto
qed

lemma ledger_apply_intro:
  assumes "ScopeFromContext ctx = Inr s" and "mget (ss_ledgers st) s = Some l"
    and "ApplyRun marshal clock l ctx (sliceRun sl result) = (l, Inr ns)"
  shows "applyExtractionRun (ledger_note_store marshal clock) st ctx sl result = (st, Inr ())"
  using assms
  by (simp add: applyExtractionRun_def ledger_note_store_def storeApplyExtractionRun_def withLedger_def
      scopeLedger_def mput_same)

text \<open>C28. A lost commit does no harm.  When the notes of a slice were stored but its cursor was not advanced,
  the retry of the same slice with the same model, prompt and protocol, whatever candidates the
  model proposes this time, succeeds and leaves the store exactly as it was.\<close>

theorem retry_changes_nothing:
  assumes "applyExtractionRun (ledger_note_store marshal clock) st ctx sl result = (st', Inr ())"
    and "sl_InputChecksum sl \<noteq> []"
    and "ScopeFromContext ctx' = ScopeFromContext ctx" and "ctx_err ctx' = None"
    and "ex_Model result' = ex_Model result" and "ex_PromptVersion result' = ex_PromptVersion result"
    and "ex_ExtractionVersion result' = ex_ExtractionVersion result"
    and "PrepareExtractionRun marshal (sliceRun sl result') = Inr prep"
  shows "applyExtractionRun (ledger_note_store marshal clock') st' ctx' sl result' = (st', Inr ())"
  using assms(1)
proof (rule ledger_apply_elim)
  fix s l' ns
  assume scope: "ScopeFromContext ctx = Inr s"
    and run: "ApplyRun marshal clock (scopeLedger st s) ctx (sliceRun sl result) = (l', Inr ns)"
    and st': "st' = st\<lparr>ss_ledgers := mput s l' (ss_ledgers st)\<rparr>"
  have ids: "run_ID (sliceRun sl result) \<noteq> []" "run_ID (sliceRun sl result') = run_ID (sliceRun sl result)"
    "SameExtractionRunInput (sliceRun sl result) (sliceRun sl result')"
    using assms(2,5-7) by (simp_all add: sliceRun_def extractionRunID_def SameExtractionRunInput_def)
  from applied_stored [OF run ids] obtain stored where
    stored: "stored_run l' (sliceRun sl result') = Some stored" "\<not> sr_Quarantined stored"
      "SameExtractionRunInput (sr_Input stored) (sliceRun sl result')" by blast
  from replay_outcome [OF stored(1,3) assms(4,8), of clock'] stored(2)
  have again: "ApplyRun marshal clock' l' ctx' (sliceRun sl result') = (l', Inr (sr_Notes stored))" by simp
  show ?thesis
    by (rule ledger_apply_intro [OF _ _ again]) (use scope assms(3) st' in \<open>auto simp: go_map\<close>)
qed

definition demo_ledgers :: scoped_ledger_store where
  "demo_ledgers = NewScopedLedgerStore DefaultTTLPolicy"

lemma demo_slice_prepared:
  "PrepareExtractionRun demo_marshal (sliceRun (demo_slice\<lparr>sl_InputChecksum := ''abc''\<rparr>) no_result) =
     Inr (prepared (sliceRun (demo_slice\<lparr>sl_InputChecksum := ''abc''\<rparr>) no_result))"
proof -
  have "find (\<lambda>e. ev_Actor e \<noteq> demo_actor) demo_stored = None" by code_simp
  then have "validateRunIdentity (sliceRun (demo_slice\<lparr>sl_InputChecksum := ''abc''\<rparr>) no_result) = Inr ()"
    by (simp add: validateRunIdentity_def sliceRun_def demo_slice_def no_result_def)
  then show ?thesis
    by (simp add: PrepareExtractionRun_def NormalizeExtractionRun_def demo_marshal_def prepared_def sliceRun_def Let_def)
qed

theorem retry_changes_nothing_witness:
  "\<exists>st'. applyExtractionRun (ledger_note_store demo_marshal demo_clock) demo_ledgers demo_ctx
       (demo_slice\<lparr>sl_InputChecksum := ''abc''\<rparr>) no_result = (st', Inr ()) \<and>
     applyExtractionRun (ledger_note_store demo_marshal (\<lambda>i. 5)) st' demo_ctx
       (demo_slice\<lparr>sl_InputChecksum := ''abc''\<rparr>) no_result = (st', Inr ())"
proof -
  let ?sl = "demo_slice\<lparr>sl_InputChecksum := ''abc''\<rparr>"
  let ?run = "prepared (sliceRun ?sl no_result)"
  have "stored_run (NewLedger DefaultTTLPolicy) ?run = None" by (simp add: stored_run_def NewLedger_def)
  moreover have "run_Candidates ?run = []" by (simp add: prepared_def sliceRun_def no_result_def)
  moreover have "ctx_err demo_ctx = None" by (simp add: demo_ctx_def)
  ultimately have "\<exists>l'. ApplyRun demo_marshal demo_clock (NewLedger DefaultTTLPolicy) demo_ctx (sliceRun ?sl no_result) = (l', Inr [])"
    using ApplyRun_applied [OF _ demo_slice_prepared, of demo_ctx "NewLedger DefaultTTLPolicy" demo_clock] by auto
  then obtain st' where first: "applyExtractionRun (ledger_note_store demo_marshal demo_clock) demo_ledgers demo_ctx
      ?sl no_result = (st', Inr ())"
    by (auto simp: applyExtractionRun_def ledger_note_store_def storeApplyExtractionRun_def withLedger_def
        demo_scope scopeLedger_def demo_ledgers_def NewScopedLedgerStore_def)
  have "sl_InputChecksum ?sl \<noteq> []" "ctx_err demo_ctx = None" by (simp_all add: demo_ctx_def)
  from retry_changes_nothing [OF first this(1) refl this(2) refl refl refl demo_slice_prepared, of "\<lambda>i. 5"] first
  show ?thesis by blast
qed

end
