(* ===== verification/Todo_Repository.thy ===== *)
theory Todo_Repository
  imports Session_Repository
begin

text \<open>
  The data of the todo application (\<open>internal/todoapp/contracts.go\<close>), its repository port
  (\<open>ports.go\<close>) as a record of operations, and the two adapters: the in-memory one
  (\<open>memory/repository.go\<close>) and the PostgreSQL one (\<open>postgres/repository.go\<close>, tables of migration
  023).  The locale \<open>todo_store\<close> states what the service relies on; both adapters are
  interpretations of it.

  A payload column holds the whole record; JSON gives back the record of strings and UTC times it
  was made of.  An \<open>updated_at\<close> column has microsecond resolution.
\<close>

section \<open>Data\<close>

definition TodoOpen :: string where "TodoOpen = ''open''"
definition TodoDone :: string where "TodoDone = ''done''"
definition TodoSourceManual :: string where "TodoSourceManual = ''manual''"
definition TodoSourceSuggestion :: string where "TodoSourceSuggestion = ''suggestion''"
definition SuggestionPending :: string where "SuggestionPending = ''pending''"
definition SuggestionAccepted :: string where "SuggestionAccepted = ''accepted''"
definition SuggestionDismissed :: string where "SuggestionDismissed = ''dismissed''"
definition EventSuggestionAccepted :: string where "EventSuggestionAccepted = ''suggestion_accepted''"
definition EventSuggestionDismissed :: string where "EventSuggestionDismissed = ''suggestion_dismissed''"
definition EventTodoCompleted :: string where "EventTodoCompleted = ''todo_completed''"

lemmas todo_consts =
  TodoOpen_def TodoDone_def TodoSourceManual_def TodoSourceSuggestion_def SuggestionPending_def
  SuggestionAccepted_def SuggestionDismissed_def EventSuggestionAccepted_def
  EventSuggestionDismissed_def EventTodoCompleted_def

record todo =
  td_ID :: string
  td_Title :: string
  td_Body :: string
  td_Status :: string
  td_Source :: string
  td_SuggestionID :: string
  td_NoteID :: string
  td_CreatedBy :: string
  td_CreatedAt :: time
  td_UpdatedAt :: time

record suggestion =
  sg_ID :: string
  sg_Fingerprint :: string
  sg_NoteID :: string
  sg_Kind :: string
  sg_Title :: string
  sg_Body :: string
  sg_Status :: string
  sg_CreatedAt :: time
  sg_UpdatedAt :: time

record action_item =
  ai_NoteID :: string
  ai_Kind :: string
  ai_Subject :: string
  ai_Body :: string
  ai_UpdatedAt :: time

record report_event =
  re_Type :: string
  re_UserID :: string
  re_TodoID :: string
  re_SuggestionID :: string
  re_NoteID :: string
  re_Summary :: string
  re_OccurredAt :: time

definition ErrTodoNotFound :: go_error where
  "ErrTodoNotFound = Sentinel ''todoapp: not found''"
definition ErrTodoInvalidInput :: go_error where
  "ErrTodoInvalidInput = Sentinel ''todoapp: invalid input''"
definition ErrTodoInvalidTransition :: go_error where
  "ErrTodoInvalidTransition = Sentinel ''todoapp: invalid transition''"
definition ErrRefreshInProgress :: go_error where
  "ErrRefreshInProgress = Sentinel ''todoapp: suggestion refresh already in progress''"

lemmas todo_sentinels [go_err] =
  ErrTodoNotFound_def ErrTodoInvalidInput_def ErrTodoInvalidTransition_def ErrRefreshInProgress_def

section \<open>The repository port\<close>

record 'r todo_repository =
  SaveTodo :: "'r \<Rightarrow> string \<Rightarrow> todo \<Rightarrow> 'r \<times> unit res"
  TodoByID :: "'r \<Rightarrow> string \<Rightarrow> string \<Rightarrow> todo res"
  repoListTodos :: "'r \<Rightarrow> string \<Rightarrow> string \<Rightarrow> todo list res"
  SaveSuggestion :: "'r \<Rightarrow> string \<Rightarrow> suggestion \<Rightarrow> 'r \<times> unit res"
  SuggestionByID :: "'r \<Rightarrow> string \<Rightarrow> string \<Rightarrow> suggestion res"
  ListSuggestions :: "'r \<Rightarrow> string \<Rightarrow> string \<Rightarrow> suggestion list res"
  SuggestionFingerprints :: "'r \<Rightarrow> string \<Rightarrow> string list res"

section \<open>The in-memory adapter\<close>

record todo_memory =
  tm_todos :: "(string, (string, todo) gomap) gomap"
  tm_suggestions :: "(string, (string, suggestion) gomap) gomap"

definition newTodoMemory :: todo_memory where
  "newTodoMemory = \<lparr>tm_todos = [], tm_suggestions = []\<rparr>"

text \<open>\<open>m[scope]\<close>, the nil map (an empty one) when the scope has none.\<close>

definition scopeMap :: "(string, (string, 'a) gomap) gomap \<Rightarrow> string \<Rightarrow> (string, 'a) gomap" where
  "scopeMap m s = (case mget m s of None \<Rightarrow> [] | Some x \<Rightarrow> x)"

definition memSaveTodo :: "todo_memory \<Rightarrow> string \<Rightarrow> todo \<Rightarrow> todo_memory \<times> unit res" where
  "memSaveTodo m s t =
     (m\<lparr>tm_todos := mput s (mput (td_ID t) t (scopeMap (tm_todos m) s)) (tm_todos m)\<rparr>, Inr ())"

definition memTodoByID :: "todo_memory \<Rightarrow> string \<Rightarrow> string \<Rightarrow> todo res" where
  "memTodoByID m s tid =
     (case mget (scopeMap (tm_todos m) s) tid of None \<Rightarrow> Inl ErrTodoNotFound | Some t \<Rightarrow> Inr t)"

definition todo_before :: "todo \<Rightarrow> todo \<Rightarrow> bool" where
  "todo_before a b \<longleftrightarrow>
     (if td_UpdatedAt a \<noteq> td_UpdatedAt b then td_UpdatedAt b < td_UpdatedAt a else td_ID b < td_ID a)"

definition memListTodos :: "todo_memory \<Rightarrow> string \<Rightarrow> string \<Rightarrow> todo list res" where
  "memListTodos m s status =
     Inr (sort_by todo_before
       (filter (\<lambda>t. status = [] \<or> td_Status t = status) (map snd (scopeMap (tm_todos m) s))))"

definition memSaveSuggestion :: "todo_memory \<Rightarrow> string \<Rightarrow> suggestion \<Rightarrow> todo_memory \<times> unit res" where
  "memSaveSuggestion m s g =
     (m\<lparr>tm_suggestions := mput s (mput (sg_ID g) g (scopeMap (tm_suggestions m) s)) (tm_suggestions m)\<rparr>,
      Inr ())"

definition memSuggestionByID :: "todo_memory \<Rightarrow> string \<Rightarrow> string \<Rightarrow> suggestion res" where
  "memSuggestionByID m s gid =
     (case mget (scopeMap (tm_suggestions m) s) gid of None \<Rightarrow> Inl ErrTodoNotFound | Some g \<Rightarrow> Inr g)"

definition suggestion_before :: "suggestion \<Rightarrow> suggestion \<Rightarrow> bool" where
  "suggestion_before a b \<longleftrightarrow>
     (if sg_UpdatedAt a \<noteq> sg_UpdatedAt b then sg_UpdatedAt b < sg_UpdatedAt a else sg_ID b < sg_ID a)"

definition memListSuggestions :: "todo_memory \<Rightarrow> string \<Rightarrow> string \<Rightarrow> suggestion list res" where
  "memListSuggestions m s status =
     Inr (sort_by suggestion_before
       (filter (\<lambda>g. status = [] \<or> sg_Status g = status) (map snd (scopeMap (tm_suggestions m) s))))"

text \<open>A set of strings is a list without duplicates.\<close>

definition memSuggestionFingerprints :: "todo_memory \<Rightarrow> string \<Rightarrow> string list res" where
  "memSuggestionFingerprints m s =
     Inr (remdups (map (\<lambda>(_, g). sg_Fingerprint g) (scopeMap (tm_suggestions m) s)))"

definition memory_todo_repository :: "todo_memory todo_repository" where
  "memory_todo_repository =
     \<lparr>SaveTodo = memSaveTodo, TodoByID = memTodoByID, repoListTodos = memListTodos,
      SaveSuggestion = memSaveSuggestion, SuggestionByID = memSuggestionByID,
      ListSuggestions = memListSuggestions, SuggestionFingerprints = memSuggestionFingerprints\<rparr>"

section \<open>The PostgreSQL adapter\<close>

text \<open>What the driver reports when a statement fails: the context's error or an error of its own, never
  a sentinel of the application.  \<open>fault\<close> says which statements fail.\<close>

datatype driver_error = DriverCanceled | DriverDeadline | DriverError string

primrec driverError :: "driver_error \<Rightarrow> go_error" where
  "driverError DriverCanceled = context_Canceled"
| "driverError DriverDeadline = context_DeadlineExceeded"
| "driverError (DriverError m) = ErrorNew m"

type_synonym driver_fault = "string \<Rightarrow> driver_error option"

record todo_row =
  tr_status :: string
  tr_payload :: todo
  tr_updated :: int

record suggestion_row =
  sr_fingerprint :: string
  sr_status :: string
  sr_payload :: suggestion
  sr_updated :: int

text \<open>The two tables, by their primary keys \<open>(scope_id, todo_id)\<close> and \<open>(scope_id, suggestion_id)\<close>.\<close>

record todo_tables =
  tt_todos :: "(string \<times> string, todo_row) gomap"
  tt_suggestions :: "(string \<times> string, suggestion_row) gomap"

definition emptyTodoTables :: todo_tables where
  "emptyTodoTables = \<lparr>tt_todos = [], tt_suggestions = []\<rparr>"

definition timestamptz :: "time \<Rightarrow> int" where
  "timestamptz t = t div 1000"

text \<open>\<open>INSERT ... ON CONFLICT (scope_id, todo_id) DO UPDATE\<close>.\<close>

definition pgSaveTodo :: "driver_fault \<Rightarrow> todo_tables \<Rightarrow> string \<Rightarrow> todo \<Rightarrow> todo_tables \<times> unit res" where
  "pgSaveTodo fault db s t =
     (case fault ''save todo'' of
        Some e \<Rightarrow> (db, Inl (wrapf (''save todo '' @ quote (td_ID t) @ '': '') (driverError e)))
      | None \<Rightarrow>
          (db\<lparr>tt_todos := mput (s, td_ID t)
                \<lparr>tr_status = td_Status t, tr_payload = t, tr_updated = timestamptz (td_UpdatedAt t)\<rparr>
                (tt_todos db)\<rparr>, Inr ()))"

definition pgTodoByID :: "driver_fault \<Rightarrow> todo_tables \<Rightarrow> string \<Rightarrow> string \<Rightarrow> todo res" where
  "pgTodoByID fault db s tid =
     (case fault ''load todo'' of
        Some e \<Rightarrow> Inl (wrapf (''load todo '' @ quote tid @ '': '') (driverError e))
      | None \<Rightarrow>
          (case mget (tt_todos db) (s, tid) of
             None \<Rightarrow> Inl ErrTodoNotFound
           | Some row \<Rightarrow> Inr (tr_payload row)))"

definition todo_row_before :: "(string \<times> string) \<times> todo_row \<Rightarrow> (string \<times> string) \<times> todo_row \<Rightarrow> bool" where
  "todo_row_before a b \<longleftrightarrow>
     tr_updated (snd b) < tr_updated (snd a) \<or>
     tr_updated (snd b) = tr_updated (snd a) \<and> snd (fst b) < snd (fst a)"

definition pgListTodos :: "driver_fault \<Rightarrow> todo_tables \<Rightarrow> string \<Rightarrow> string \<Rightarrow> todo list res" where
  "pgListTodos fault db s status =
     (case fault ''list todos'' of
        Some e \<Rightarrow> Inl (wrapf ''list todos: '' (driverError e))
      | None \<Rightarrow>
          Inr (map (\<lambda>(_, row). tr_payload row)
            (sort_by todo_row_before
              (filter (\<lambda>((s', _), row). s' = s \<and> (status = [] \<or> tr_status row = status)) (tt_todos db)))))"

text \<open>The unique index on \<open>(scope_id, fingerprint)\<close> is not the arbiter of the \<open>ON CONFLICT\<close> clause:
  a second suggestion with a stored fingerprint is a violation.\<close>

definition pgSaveSuggestion ::
  "driver_fault \<Rightarrow> todo_tables \<Rightarrow> string \<Rightarrow> suggestion \<Rightarrow> todo_tables \<times> unit res" where
  "pgSaveSuggestion fault db s g =
     (let failed = (\<lambda>e. (db, Inl (wrapf (''save suggestion '' @ quote (sg_ID g) @ '': '') e))) in
      case fault ''save suggestion'' of
        Some e \<Rightarrow> failed (driverError e)
      | None \<Rightarrow>
          if \<exists>((s', gid), row) \<in> set (tt_suggestions db).
               s' = s \<and> gid \<noteq> sg_ID g \<and> sr_fingerprint row = sg_Fingerprint g
          then failed uniqueViolation
          else (db\<lparr>tt_suggestions := mput (s, sg_ID g)
                     \<lparr>sr_fingerprint = sg_Fingerprint g, sr_status = sg_Status g, sr_payload = g,
                      sr_updated = timestamptz (sg_UpdatedAt g)\<rparr> (tt_suggestions db)\<rparr>, Inr ()))"

definition pgSuggestionByID :: "driver_fault \<Rightarrow> todo_tables \<Rightarrow> string \<Rightarrow> string \<Rightarrow> suggestion res" where
  "pgSuggestionByID fault db s gid =
     (case fault ''load suggestion'' of
        Some e \<Rightarrow> Inl (wrapf (''load suggestion '' @ quote gid @ '': '') (driverError e))
      | None \<Rightarrow>
          (case mget (tt_suggestions db) (s, gid) of
             None \<Rightarrow> Inl ErrTodoNotFound
           | Some row \<Rightarrow> Inr (sr_payload row)))"

definition suggestion_row_before ::
  "(string \<times> string) \<times> suggestion_row \<Rightarrow> (string \<times> string) \<times> suggestion_row \<Rightarrow> bool" where
  "suggestion_row_before a b \<longleftrightarrow>
     sr_updated (snd b) < sr_updated (snd a) \<or>
     sr_updated (snd b) = sr_updated (snd a) \<and> snd (fst b) < snd (fst a)"

definition pgListSuggestions :: "driver_fault \<Rightarrow> todo_tables \<Rightarrow> string \<Rightarrow> string \<Rightarrow> suggestion list res" where
  "pgListSuggestions fault db s status =
     (case fault ''list suggestions'' of
        Some e \<Rightarrow> Inl (wrapf ''list suggestions: '' (driverError e))
      | None \<Rightarrow>
          Inr (map (\<lambda>(_, row). sr_payload row)
            (sort_by suggestion_row_before
              (filter (\<lambda>((s', _), row). s' = s \<and> (status = [] \<or> sr_status row = status))
                (tt_suggestions db)))))"

definition pgSuggestionFingerprints :: "driver_fault \<Rightarrow> todo_tables \<Rightarrow> string \<Rightarrow> string list res" where
  "pgSuggestionFingerprints fault db s =
     (case fault ''list suggestion fingerprints'' of
        Some e \<Rightarrow> Inl (wrapf ''list suggestion fingerprints: '' (driverError e))
      | None \<Rightarrow>
          Inr (remdups (map (\<lambda>(_, row). sr_fingerprint row)
                 (filter (\<lambda>((s', _), _). s' = s) (tt_suggestions db)))))"

definition postgres_todo_repository :: "driver_fault \<Rightarrow> todo_tables todo_repository" where
  "postgres_todo_repository fault =
     \<lparr>SaveTodo = pgSaveTodo fault, TodoByID = pgTodoByID fault, repoListTodos = pgListTodos fault,
      SaveSuggestion = pgSaveSuggestion fault, SuggestionByID = pgSuggestionByID fault,
      ListSuggestions = pgListSuggestions fault, SuggestionFingerprints = pgSuggestionFingerprints fault\<rparr>"

section \<open>What the service relies on\<close>

text \<open>
  \<open>todos r s\<close> and \<open>suggestions r s\<close> are what the repository holds for the scope \<open>s\<close>.  A read
  answers from them or fails with an error that is not \<open>ErrNotFound\<close>; a save that fails changes nothing, a save that succeeds is
  an upsert by identifier within its scope.  The laws hold for every failure behaviour \<open>f\<close>, so that
  each call of the service may meet its own.
\<close>

type_synonym 'a scoped_map = "string \<Rightarrow> string \<Rightarrow> 'a option"

definition upsert :: "'a scoped_map \<Rightarrow> string \<Rightarrow> string \<Rightarrow> 'a \<Rightarrow> 'a scoped_map" where
  "upsert m s k v = m(s := (m s)(k \<mapsto> v))"

lemma upsert_apply: "upsert m s k v s' k' = (if s' = s \<and> k' = k then Some v else m s' k')"
  by (simp add: upsert_def)

locale todo_store =
  fixes repo :: "'f \<Rightarrow> 'r todo_repository"
    and rinv :: "'r \<Rightarrow> bool"
    and todos :: "'r \<Rightarrow> todo scoped_map"
    and suggestions :: "'r \<Rightarrow> suggestion scoped_map"
  assumes save_todo: "rinv r \<Longrightarrow> SaveTodo (repo f) r s t = (r', out) \<Longrightarrow>
      rinv r' \<and> suggestions r' = suggestions r \<and>
      (out = Inr () \<and> todos r' = upsert (todos r) s (td_ID t) t \<or> (\<exists>e. out = Inl e) \<and> r' = r)"
    and save_suggestion: "rinv r \<Longrightarrow> SaveSuggestion (repo f) r s g = (r', out) \<Longrightarrow>
      rinv r' \<and> todos r' = todos r \<and>
      (out = Inr () \<and> suggestions r' = upsert (suggestions r) s (sg_ID g) g \<or> (\<exists>e. out = Inl e) \<and> r' = r)"
    and todo_by_id: "rinv r \<Longrightarrow> case TodoByID (repo f) r s k of
        Inr t \<Rightarrow> todos r s k = Some t
      | Inl e \<Rightarrow> errors_is e ErrTodoNotFound \<longrightarrow> todos r s k = None"
    and suggestion_by_id: "rinv r \<Longrightarrow> case SuggestionByID (repo f) r s k of
        Inr g \<Rightarrow> suggestions r s k = Some g
      | Inl e \<Rightarrow> errors_is e ErrTodoNotFound \<longrightarrow> suggestions r s k = None"
    and todo_ids: "rinv r \<Longrightarrow> todos r s k = Some t \<Longrightarrow> td_ID t = k"
    and suggestion_ids: "rinv r \<Longrightarrow> suggestions r s k = Some g \<Longrightarrow> sg_ID g = k"
    and fingerprints: "rinv r \<Longrightarrow> SuggestionFingerprints (repo f) r s = Inr fs \<Longrightarrow>
      set fs = {sg_Fingerprint g | g k. suggestions r s k = Some g}"
    and list_todos: "rinv r \<Longrightarrow> repoListTodos (repo f) r s status = Inr ts \<Longrightarrow>
      distinct ts \<and> set ts = {t. todos r s (td_ID t) = Some t \<and> (status = [] \<or> td_Status t = status)}"
    and list_suggestions: "rinv r \<Longrightarrow> ListSuggestions (repo f) r s status = Inr gs \<Longrightarrow>
      distinct gs \<and>
      set gs = {g. suggestions r s (sg_ID g) = Some g \<and> (status = [] \<or> sg_Status g = status)}"

subsection \<open>The in-memory adapter provides it\<close>

definition mem_todos :: "todo_memory \<Rightarrow> todo scoped_map" where
  "mem_todos m s k = mget (scopeMap (tm_todos m) s) k"

definition mem_suggestions :: "todo_memory \<Rightarrow> suggestion scoped_map" where
  "mem_suggestions m s k = mget (scopeMap (tm_suggestions m) s) k"

definition keyed :: "('a \<Rightarrow> string) \<Rightarrow> (string, 'a) gomap \<Rightarrow> bool" where
  "keyed idf m \<longleftrightarrow> mwf m \<and> (\<forall>(k, v) \<in> set m. idf v = k)"

definition mem_inv :: "todo_memory \<Rightarrow> bool" where
  "mem_inv m \<longleftrightarrow> (\<forall>s. keyed td_ID (scopeMap (tm_todos m) s)) \<and> (\<forall>s. keyed sg_ID (scopeMap (tm_suggestions m) s))"

lemma scopeMap_mput: "scopeMap (mput s x m) s' = (if s' = s then x else scopeMap m s')"
  by (simp add: scopeMap_def mget_mput)

lemma keyed_mput: "keyed idf m \<Longrightarrow> keyed idf (mput (idf v) v m)"
  by (auto simp: keyed_def dest!: set_mput)

lemma keyed_mem: "keyed idf m \<Longrightarrow> v \<in> snd ` set m \<longleftrightarrow> mget m (idf v) = Some v"
proof -
  assume k: "keyed idf m"
  have "v \<in> snd ` set m \<longleftrightarrow> (\<exists>j. (j, v) \<in> set m)" by force
  also have "\<dots> \<longleftrightarrow> (idf v, v) \<in> set m" using k by (auto simp: keyed_def)
  finally show ?thesis using k by (simp add: keyed_def)
qed

lemma keyed_get: "keyed idf m \<Longrightarrow> mget m k = Some v \<Longrightarrow> idf v = k"
  by (auto simp: keyed_def dest: map_of_SomeD)

lemma keyed_distinct: "keyed idf m \<Longrightarrow> distinct (map snd m)"
proof -
  assume "keyed idf m"
  then have "map fst m = map idf (map snd m)" by (auto simp: keyed_def)
  with \<open>keyed idf m\<close> have "distinct (map idf (map snd m))" by (simp add: keyed_def)
  then show ?thesis by (simp only: distinct_map)
qed

lemma mem_inv_new: "mem_inv newTodoMemory"
  by (simp add: mem_inv_def newTodoMemory_def scopeMap_def keyed_def)

interpretation mem_store: todo_store "\<lambda>_ :: unit. memory_todo_repository" mem_inv mem_todos mem_suggestions
proof (unfold_locales, goal_cases)
  case (1 r f s t r' out)
  then show ?case
    by (auto simp: memory_todo_repository_def memSaveTodo_def mem_inv_def mem_todos_def mem_suggestions_def
        scopeMap_mput upsert_apply mget_mput keyed_mput fun_eq_iff)
next
  case (2 r f s g r' out)
  then show ?case
    by (auto simp: memory_todo_repository_def memSaveSuggestion_def mem_inv_def mem_todos_def mem_suggestions_def
        scopeMap_mput upsert_apply mget_mput keyed_mput fun_eq_iff)
next
  case (3 r f s k)
  then show ?case
    by (simp add: memory_todo_repository_def memTodoByID_def mem_todos_def split: option.split)
next
  case (4 r f s k)
  then show ?case
    by (simp add: memory_todo_repository_def memSuggestionByID_def mem_suggestions_def split: option.split)
next
  case (5 r s k t)
  then show ?case by (auto simp: mem_inv_def mem_todos_def dest: keyed_get)
next
  case (6 r s k g)
  then show ?case by (auto simp: mem_inv_def mem_suggestions_def dest: keyed_get)
next
  case (7 r f s fs)
  then have "keyed sg_ID (scopeMap (tm_suggestions r) s)" by (simp add: mem_inv_def)
  then have mem: "(k, g) \<in> set (scopeMap (tm_suggestions r) s) \<longleftrightarrow> mem_suggestions r s k = Some g" for k g
    by (simp add: keyed_def mem_suggestions_def)
  have "set fs = (\<lambda>(_, g). sg_Fingerprint g) ` set (scopeMap (tm_suggestions r) s)"
    using 7(2) by (auto simp: memory_todo_repository_def memSuggestionFingerprints_def)
  also have "\<dots> = {sg_Fingerprint g | g k. (k, g) \<in> set (scopeMap (tm_suggestions r) s)}" by force
  finally show ?case by (simp only: mem)
next
  case (8 r f s status ts)
  then have k: "keyed td_ID (scopeMap (tm_todos r) s)" by (simp add: mem_inv_def)
  from 8(2) have ts: "ts = sort_by todo_before
      (filter (\<lambda>t. status = [] \<or> td_Status t = status) (map snd (scopeMap (tm_todos r) s)))"
    by (simp add: memory_todo_repository_def memListTodos_def)
  show ?case
    using keyed_mem [OF k] keyed_distinct [OF k] by (auto simp: ts mem_todos_def)
next
  case (9 r f s status gs)
  then have k: "keyed sg_ID (scopeMap (tm_suggestions r) s)" by (simp add: mem_inv_def)
  from 9(2) have gs: "gs = sort_by suggestion_before
      (filter (\<lambda>g. status = [] \<or> sg_Status g = status) (map snd (scopeMap (tm_suggestions r) s)))"
    by (simp add: memory_todo_repository_def memListSuggestions_def)
  show ?case
    using keyed_mem [OF k] keyed_distinct [OF k] by (auto simp: gs mem_suggestions_def)
qed

subsection \<open>The PostgreSQL adapter provides it, whatever statements fail\<close>

definition pg_todos :: "todo_tables \<Rightarrow> todo scoped_map" where
  "pg_todos db s k = map_option tr_payload (mget (tt_todos db) (s, k))"

definition pg_suggestions :: "todo_tables \<Rightarrow> suggestion scoped_map" where
  "pg_suggestions db s k = map_option sr_payload (mget (tt_suggestions db) (s, k))"

fun wf_todo_row :: "(string \<times> string) \<times> todo_row \<Rightarrow> bool" where
  "wf_todo_row ((s, k), row) \<longleftrightarrow>
     td_ID (tr_payload row) = k \<and> tr_status row = td_Status (tr_payload row) \<and>
     tr_updated row = timestamptz (td_UpdatedAt (tr_payload row))"

fun wf_suggestion_row :: "(string \<times> string) \<times> suggestion_row \<Rightarrow> bool" where
  "wf_suggestion_row ((s, k), row) \<longleftrightarrow>
     sg_ID (sr_payload row) = k \<and> sr_status row = sg_Status (sr_payload row) \<and>
     sr_fingerprint row = sg_Fingerprint (sr_payload row) \<and>
     sr_updated row = timestamptz (sg_UpdatedAt (sr_payload row))"

definition unique_fingerprints :: "(string \<times> string, suggestion_row) gomap \<Rightarrow> bool" where
  "unique_fingerprints t \<longleftrightarrow>
     (\<forall>s k k' row row'. mget t (s, k) = Some row \<longrightarrow> mget t (s, k') = Some row' \<longrightarrow>
        sr_fingerprint row = sr_fingerprint row' \<longrightarrow> k = k')"

definition todo_pg_inv :: "todo_tables \<Rightarrow> bool" where
  "todo_pg_inv db \<longleftrightarrow>
     mwf (tt_todos db) \<and> (\<forall>kr \<in> set (tt_todos db). wf_todo_row kr) \<and>
     mwf (tt_suggestions db) \<and> (\<forall>kr \<in> set (tt_suggestions db). wf_suggestion_row kr) \<and>
     unique_fingerprints (tt_suggestions db)"

lemma todo_pg_inv_empty: "todo_pg_inv emptyTodoTables"
  by (simp add: todo_pg_inv_def emptyTodoTables_def unique_fingerprints_def)

lemma driverError_not_found [simp]: "\<not> errors_is (driverError e) ErrTodoNotFound"
  by (cases e) (simp_all add: context_Canceled_def context_DeadlineExceeded_def ErrTodoNotFound_def)

lemma uniqueViolation_not_found [simp]: "\<not> errors_is uniqueViolation ErrTodoNotFound"
  by (simp add: uniqueViolation_def)

lemma rows_mput: "\<forall>kr \<in> set t. P kr \<Longrightarrow> P (k, v) \<Longrightarrow> \<forall>kr \<in> set (mput k v t). P kr"
  by (auto dest!: set_mput)

lemma unique_fingerprints_mput:
  assumes "unique_fingerprints t" and "mwf t"
    and new: "\<not> (\<exists>((s', gid), row) \<in> set t. s' = s \<and> gid \<noteq> k \<and> sr_fingerprint row = sr_fingerprint new)"
  shows "unique_fingerprints (mput (s, k) new t)"
proof -
  have "sr_fingerprint row \<noteq> sr_fingerprint new" if "mget t (s, k') = Some row" and "k' \<noteq> k" for k' row
    using new map_of_SomeD [OF that(1)] that(2) by fastforce
  with assms(1) show ?thesis
    unfolding unique_fingerprints_def mget_mput by (auto split: if_splits) metis+
qed

lemma pgSaveTodo_spec:
  assumes "todo_pg_inv db" and "pgSaveTodo fault db s t = (db', out)"
  shows "todo_pg_inv db' \<and> pg_suggestions db' = pg_suggestions db \<and>
    (out = Inr () \<and> pg_todos db' = upsert (pg_todos db) s (td_ID t) t \<or> (\<exists>e. out = Inl e) \<and> db' = db)"
proof (cases "fault ''save todo''")
  case None
  let ?t = "mput (s, td_ID t)
    \<lparr>tr_status = td_Status t, tr_payload = t, tr_updated = timestamptz (td_UpdatedAt t)\<rparr> (tt_todos db)"
  from assms None have db': "db' = db\<lparr>tt_todos := ?t\<rparr>" "out = Inr ()" by (simp_all add: pgSaveTodo_def)
  have "\<forall>kr \<in> set ?t. wf_todo_row kr"
    by (rule rows_mput) (use assms(1) in \<open>auto simp: todo_pg_inv_def\<close>)
  with assms(1) have "todo_pg_inv db'" by (simp add: db' todo_pg_inv_def)
  moreover have "pg_todos db' = upsert (pg_todos db) s (td_ID t) t" "pg_suggestions db' = pg_suggestions db"
    by (simp_all add: db' pg_todos_def pg_suggestions_def upsert_apply mget_mput fun_eq_iff)
  ultimately show ?thesis using db' by blast
qed (use assms in \<open>auto simp: pgSaveTodo_def\<close>)

lemma pgSaveSuggestion_spec:
  assumes "todo_pg_inv db" and "pgSaveSuggestion fault db s g = (db', out)"
  shows "todo_pg_inv db' \<and> pg_todos db' = pg_todos db \<and>
    (out = Inr () \<and> pg_suggestions db' = upsert (pg_suggestions db) s (sg_ID g) g \<or> (\<exists>e. out = Inl e) \<and> db' = db)"
proof (cases "\<exists>e. out = Inl e")
  case True
  with assms show ?thesis
    by (auto simp: pgSaveSuggestion_def Let_def split: option.splits if_splits)
next
  case False
  let ?row = "\<lparr>sr_fingerprint = sg_Fingerprint g, sr_status = sg_Status g, sr_payload = g,
    sr_updated = timestamptz (sg_UpdatedAt g)\<rparr>"
  from False assms(2)
  have new: "\<not> (\<exists>((s', gid), row) \<in> set (tt_suggestions db).
        s' = s \<and> gid \<noteq> sg_ID g \<and> sr_fingerprint row = sr_fingerprint ?row)"
    and out: "out = Inr ()" and db': "db' = db\<lparr>tt_suggestions := mput (s, sg_ID g) ?row (tt_suggestions db)\<rparr>"
    unfolding pgSaveSuggestion_def Let_def suggestion_row.simps
    by (auto split: option.splits if_splits)
  from assms(1) have inv: "unique_fingerprints (tt_suggestions db)" "mwf (tt_suggestions db)"
    by (simp_all add: todo_pg_inv_def)
  have "unique_fingerprints (tt_suggestions db')"
    unfolding db' using unique_fingerprints_mput [OF inv new] by simp
  moreover have "\<forall>kr \<in> set (mput (s, sg_ID g) ?row (tt_suggestions db)). wf_suggestion_row kr"
    by (rule rows_mput) (use assms(1) in \<open>auto simp: todo_pg_inv_def\<close>)
  ultimately have "todo_pg_inv db'"
    using assms(1) by (simp add: todo_pg_inv_def db')
  moreover have "pg_suggestions db' = upsert (pg_suggestions db) s (sg_ID g) g"
    by (auto simp: db' pg_suggestions_def upsert_apply mget_mput fun_eq_iff)
  moreover have "pg_todos db' = pg_todos db"
    by (simp add: db' pg_todos_def fun_eq_iff)
  ultimately show ?thesis using out by blast
qed

lemma todo_rows_spec:
  assumes "todo_pg_inv db"
  shows "((s, k), row) \<in> set (tt_todos db) \<Longrightarrow>
      pg_todos db s k = Some (tr_payload row) \<and> td_ID (tr_payload row) = k \<and> tr_status row = td_Status (tr_payload row)"
    and "pg_todos db s k = Some t \<Longrightarrow> \<exists>row. ((s, k), row) \<in> set (tt_todos db) \<and> tr_payload row = t"
  using assms by (auto simp: todo_pg_inv_def pg_todos_def)

lemma suggestion_rows_spec:
  assumes "todo_pg_inv db"
  shows "((s, k), row) \<in> set (tt_suggestions db) \<Longrightarrow>
      pg_suggestions db s k = Some (sr_payload row) \<and> sg_ID (sr_payload row) = k \<and>
      sr_status row = sg_Status (sr_payload row) \<and> sr_fingerprint row = sg_Fingerprint (sr_payload row)"
    and "pg_suggestions db s k = Some g \<Longrightarrow> \<exists>row. ((s, k), row) \<in> set (tt_suggestions db) \<and> sr_payload row = g"
  using assms by (auto simp: todo_pg_inv_def pg_suggestions_def)

lemma distinct_payloads:
  assumes "\<And>kr. kr \<in> set rows \<Longrightarrow> idf (pay (snd kr)) = snd (fst kr) \<and> fst (fst kr) = s" and "mwf rows"
  shows "distinct (map (\<lambda>(_, row). pay row) rows)"
proof -
  have "map fst rows = map (\<lambda>x. (s, idf x)) (map (\<lambda>(_, row). pay row) rows)"
    using assms(1) by (auto simp: prod_eq_iff split: prod.splits)
  with assms(2) have "distinct (map (\<lambda>x. (s, idf x)) (map (\<lambda>(_, row). pay row) rows))" by simp
  then show ?thesis by (simp only: distinct_map)
qed

lemma mwf_sort_by [simp]: "mwf (sort_by lt m) = mwf m"
  by (metis mset_map mset_sort_by mset_eq_imp_distinct_iff)

lemma pgListTodos_spec:
  assumes "todo_pg_inv db" and "pgListTodos fault db s status = Inr ts"
  shows "distinct ts \<and> set ts = {t. pg_todos db s (td_ID t) = Some t \<and> (status = [] \<or> td_Status t = status)}"
proof -
  let ?rows = "filter (\<lambda>((s', _), row). s' = s \<and> (status = [] \<or> tr_status row = status)) (tt_todos db)"
  from assms(2) have ts: "ts = map (\<lambda>(_, row). tr_payload row) (sort_by todo_row_before ?rows)"
    by (simp add: pgListTodos_def split: option.splits)
  have "mwf ?rows" using assms(1) by (simp add: todo_pg_inv_def)
  then have "distinct ts"
    unfolding ts using todo_rows_spec(1) [OF assms(1)]
    by (intro distinct_payloads [of _ td_ID _ s]) (auto split: prod.splits)
  moreover have "t \<in> set ts \<longleftrightarrow> pg_todos db s (td_ID t) = Some t \<and> (status = [] \<or> td_Status t = status)" for t
  proof -
    have "t \<in> set ts \<longleftrightarrow> (\<exists>k row. ((s, k), row) \<in> set (tt_todos db) \<and> tr_payload row = t \<and>
        (status = [] \<or> tr_status row = status))"
      unfolding ts by (auto simp: image_iff)
    also have "\<dots> \<longleftrightarrow> pg_todos db s (td_ID t) = Some t \<and> (status = [] \<or> td_Status t = status)"
      using todo_rows_spec [OF assms(1)] by metis
    finally show ?thesis .
  qed
  ultimately show ?thesis by blast
qed

lemma pgListSuggestions_spec:
  assumes "todo_pg_inv db" and "pgListSuggestions fault db s status = Inr gs"
  shows "distinct gs \<and>
    set gs = {g. pg_suggestions db s (sg_ID g) = Some g \<and> (status = [] \<or> sg_Status g = status)}"
proof -
  let ?rows = "filter (\<lambda>((s', _), row). s' = s \<and> (status = [] \<or> sr_status row = status)) (tt_suggestions db)"
  from assms(2) have gs: "gs = map (\<lambda>(_, row). sr_payload row) (sort_by suggestion_row_before ?rows)"
    by (simp add: pgListSuggestions_def split: option.splits)
  have "mwf ?rows" using assms(1) by (simp add: todo_pg_inv_def)
  then have "distinct gs"
    unfolding gs using suggestion_rows_spec(1) [OF assms(1)]
    by (intro distinct_payloads [of _ sg_ID _ s]) (auto split: prod.splits)
  moreover have "g \<in> set gs \<longleftrightarrow> pg_suggestions db s (sg_ID g) = Some g \<and> (status = [] \<or> sg_Status g = status)" for g
  proof -
    have "g \<in> set gs \<longleftrightarrow> (\<exists>k row. ((s, k), row) \<in> set (tt_suggestions db) \<and> sr_payload row = g \<and>
        (status = [] \<or> sr_status row = status))"
      unfolding gs by (auto simp: image_iff)
    also have "\<dots> \<longleftrightarrow> pg_suggestions db s (sg_ID g) = Some g \<and> (status = [] \<or> sg_Status g = status)"
      using suggestion_rows_spec [OF assms(1)] by metis
    finally show ?thesis .
  qed
  ultimately show ?thesis by blast
qed

lemma pgFingerprints_spec:
  assumes "todo_pg_inv db" and "pgSuggestionFingerprints fault db s = Inr fs"
  shows "set fs = {sg_Fingerprint g | g k. pg_suggestions db s k = Some g}"
proof -
  have "x \<in> set fs \<longleftrightarrow> (\<exists>k row. ((s, k), row) \<in> set (tt_suggestions db) \<and> sr_fingerprint row = x)" for x
    using assms(2) by (auto simp: pgSuggestionFingerprints_def image_iff split: option.splits) blast+
  also have "\<dots> x \<longleftrightarrow> (\<exists>k g. pg_suggestions db s k = Some g \<and> sg_Fingerprint g = x)" for x
    using suggestion_rows_spec [OF assms(1)] by metis
  finally have "x \<in> set fs \<longleftrightarrow> (\<exists>k g. pg_suggestions db s k = Some g \<and> sg_Fingerprint g = x)" for x .
  then show ?thesis by (auto simp: set_eq_iff)
qed

interpretation pg_store: todo_store postgres_todo_repository todo_pg_inv pg_todos pg_suggestions
proof (unfold_locales, goal_cases)
  case (1 r f s t r' out)
  then show ?case by (intro pgSaveTodo_spec) (simp_all add: postgres_todo_repository_def)
next
  case (2 r f s g r' out)
  then show ?case by (intro pgSaveSuggestion_spec) (simp_all add: postgres_todo_repository_def)
next
  case (3 r f s k)
  then show ?case
    by (simp add: postgres_todo_repository_def pgTodoByID_def pg_todos_def split: option.split)
next
  case (4 r f s k)
  then show ?case
    by (simp add: postgres_todo_repository_def pgSuggestionByID_def pg_suggestions_def split: option.split)
next
  case (5 r s k t)
  then show ?case by (auto dest: todo_rows_spec)
next
  case (6 r s k g)
  then show ?case by (auto dest: suggestion_rows_spec)
next
  case (7 r f s fs)
  then show ?case by (intro pgFingerprints_spec) (simp_all add: postgres_todo_repository_def)
next
  case (8 r f s status ts)
  then show ?case by (intro pgListTodos_spec) (simp_all add: postgres_todo_repository_def)
next
  case (9 r f s status gs)
  then show ?case by (intro pgListSuggestions_spec) (simp_all add: postgres_todo_repository_def)
qed

end
