(* ===== verification/Todo_App.thy ===== *)
theory Todo_App
  imports Todo_Repository Session_Ingest
begin

text \<open>
  The todo application's service (\<open>internal/todoapp/service.go\<close>), its reporter to the evidence lake
  (\<open>report.go\<close>) and the sweep that refreshes suggestions (\<open>scheduler.go\<close>).

  A service is a record of what \<open>NewService\<close> injects.  The calls an operation makes to a dependency are
  numbered from 0, so that each call of the repository may fail in its own way and each call of the clock
  and of the identifier generator has its own value.  The state is the repository, the lake behind the
  reporter and the scopes whose refresh lock is held.  Log lines are not modelled.
\<close>

section \<open>Construction\<close>

type_synonym 'l reporter = "'l \<Rightarrow> string \<Rightarrow> report_event \<Rightarrow> 'l \<times> unit res"
type_synonym note_directory = "string \<Rightarrow> int \<Rightarrow> action_item list res"
type_synonym rewriter = "action_item \<Rightarrow> (string \<times> string) res"

record ('r, 'l) service_config =
  cfg_Repository :: "(nat \<Rightarrow> 'r todo_repository) option"
  cfg_Notes :: "note_directory option"
  cfg_Rewriter :: "(nat \<Rightarrow> rewriter) option"
  cfg_Reporter :: "'l reporter option"
  cfg_Clock :: "(nat \<Rightarrow> time) option"
  cfg_NewID :: "(nat \<Rightarrow> string) option"

record ('r, 'l) todo_service =
  sv_repo :: "nat \<Rightarrow> 'r todo_repository"
  sv_notes :: note_directory
  sv_rewriter :: "(nat \<Rightarrow> rewriter) option"
  sv_report :: "'l reporter"
  sv_clock :: "nat \<Rightarrow> time"
  sv_newID :: "nat \<Rightarrow> string"

record ('r, 'l) todo_world =
  tw_repo :: 'r
  tw_lake :: 'l
  tw_refreshing :: "string list"

text \<open>\<open>systemClock\<close> and \<open>randomID\<close> stand for \<open>time.Now\<close> and \<open>defaultNewID\<close>.\<close>

definition NewService ::
  "(nat \<Rightarrow> time) \<Rightarrow> (nat \<Rightarrow> string) \<Rightarrow> ('r, 'l) service_config \<Rightarrow> ('r, 'l) todo_service res" where
  "NewService systemClock randomID config =
     (let invalid = Inl (wrapf ''new service: '' ErrTodoInvalidInput) in
      case cfg_Repository config of
        None \<Rightarrow> invalid
      | Some repo \<Rightarrow>
      (case cfg_Notes config of
        None \<Rightarrow> invalid
      | Some directory \<Rightarrow>
      (case cfg_Reporter config of
        None \<Rightarrow> invalid
      | Some report \<Rightarrow> Inr
          \<lparr>sv_repo = repo, sv_notes = directory, sv_rewriter = cfg_Rewriter config, sv_report = report,
           sv_clock = (case cfg_Clock config of None \<Rightarrow> systemClock | Some c \<Rightarrow> c),
           sv_newID = (case cfg_NewID config of None \<Rightarrow> randomID | Some f \<Rightarrow> f)\<rparr>)))"

section \<open>Todos\<close>

definition CreateTodo ::
  "('r, 'l) todo_service \<Rightarrow> ('r, 'l) todo_world \<Rightarrow> string \<Rightarrow> string \<Rightarrow> string \<Rightarrow> string \<Rightarrow>
     ('r, 'l) todo_world \<times> todo res" where
  "CreateTodo S w scopeID userID title body =
     (if blank scopeID \<or> blank title \<or> blank userID
      then (w, Inl (wrapf ''create todo: '' ErrTodoInvalidInput))
      else
        let now = sv_clock S 0;
            t = \<lparr>td_ID = sv_newID S 0, td_Title = title, td_Body = body, td_Status = TodoOpen,
                 td_Source = TodoSourceManual, td_SuggestionID = [], td_NoteID = [], td_CreatedBy = userID,
                 td_CreatedAt = now, td_UpdatedAt = now\<rparr> in
        case SaveTodo (sv_repo S 0) (tw_repo w) scopeID t of
          (r, Inl e) \<Rightarrow> (w\<lparr>tw_repo := r\<rparr>, Inl e)
        | (r, Inr _) \<Rightarrow> (w\<lparr>tw_repo := r\<rparr>, Inr t))"

definition completeTodoOnce ::
  "('r, 'l) todo_service \<Rightarrow> 'r \<Rightarrow> string \<Rightarrow> string \<Rightarrow> 'r \<times> (todo \<times> bool) res" where
  "completeTodoOnce S r scopeID todoID =
     (case TodoByID (sv_repo S 0) r scopeID todoID of
        Inl e \<Rightarrow> (r, Inl e)
      | Inr t \<Rightarrow>
          if td_Status t = TodoDone then (r, Inr (t, False))
          else
            let t' = t\<lparr>td_Status := TodoDone, td_UpdatedAt := sv_clock S 0\<rparr> in
            case SaveTodo (sv_repo S 1) r scopeID t' of
              (r', Inl e) \<Rightarrow> (r', Inl e)
            | (r', Inr _) \<Rightarrow> (r', Inr (t', True)))"

definition completionEvent :: "string \<Rightarrow> string \<Rightarrow> todo \<Rightarrow> time \<Rightarrow> report_event" where
  "completionEvent userID todoID t now =
     \<lparr>re_Type = EventTodoCompleted, re_UserID = userID, re_TodoID = todoID, re_SuggestionID = [],
      re_NoteID = td_NoteID t, re_Summary = ''User completed todo '' @ quote (td_Title t) @ ''.'',
      re_OccurredAt = now\<rparr>"

text \<open>The report's failure is only logged.\<close>

definition CompleteTodo ::
  "('r, 'l) todo_service \<Rightarrow> ('r, 'l) todo_world \<Rightarrow> string \<Rightarrow> string \<Rightarrow> string \<Rightarrow>
     ('r, 'l) todo_world \<times> todo res" where
  "CompleteTodo S w scopeID userID todoID =
     (if blank scopeID \<or> blank userID
      then (w, Inl (wrapf ''complete todo: '' ErrTodoInvalidInput))
      else case completeTodoOnce S (tw_repo w) scopeID todoID of
        (r, Inl e) \<Rightarrow> (w\<lparr>tw_repo := r\<rparr>, Inl e)
      | (r, Inr (t, transitioned)) \<Rightarrow>
          if \<not> transitioned then (w\<lparr>tw_repo := r\<rparr>, Inr t)
          else
            let event = completionEvent userID todoID t (sv_clock S 1) in
            (w\<lparr>tw_repo := r, tw_lake := fst (sv_report S (tw_lake w) scopeID event)\<rparr>, Inr t))"

definition ListTodos ::
  "('r, 'l) todo_service \<Rightarrow> ('r, 'l) todo_world \<Rightarrow> string \<Rightarrow> string \<Rightarrow> todo list res" where
  "ListTodos S w scopeID status =
     (if blank scopeID then Inl (wrapf ''list todos: '' ErrTodoInvalidInput)
      else if status \<noteq> [] \<and> status \<noteq> TodoOpen \<and> status \<noteq> TodoDone
      then Inl (wrapf (''list todos: unknown status '' @ quote status @ '': '') ErrTodoInvalidInput)
      else repoListTodos (sv_repo S 0) (tw_repo w) scopeID status)"

section \<open>Suggestions\<close>

definition rewriteItem :: "(nat \<Rightarrow> rewriter) option \<Rightarrow> nat \<Rightarrow> action_item \<Rightarrow> (string \<times> string) res" where
  "rewriteItem rw i item =
     (case rw of None \<Rightarrow> Inr (ai_Subject item, ai_Body item) | Some f \<Rightarrow> f i item)"

definition pendingSuggestion :: "string \<Rightarrow> action_item \<Rightarrow> string \<times> string \<Rightarrow> time \<Rightarrow> suggestion" where
  "pendingSuggestion newID item tb now =
     \<lparr>sg_ID = newID, sg_Fingerprint = ai_NoteID item, sg_NoteID = ai_NoteID item, sg_Kind = ai_Kind item,
      sg_Title = fst tb, sg_Body = snd tb, sg_Status = SuggestionPending, sg_CreatedAt = now,
      sg_UpdatedAt = now\<rparr>"

text \<open>The loop over the action items; \<open>i\<close> numbers them, the fingerprints are those read before it.\<close>

fun refreshItems ::
  "('r, 'l) todo_service \<Rightarrow> string \<Rightarrow> string list \<Rightarrow> time \<Rightarrow> nat \<Rightarrow> action_item list \<Rightarrow> 'r \<Rightarrow> int \<Rightarrow> 'r \<times> int" where
  "refreshItems S scopeID prints now i [] r created = (r, created)"
| "refreshItems S scopeID prints now i (item # items) r created =
     (if ai_NoteID item \<in> set prints
      then refreshItems S scopeID prints now (Suc i) items r created
      else case rewriteItem (sv_rewriter S) i item of
        Inl _ \<Rightarrow> refreshItems S scopeID prints now (Suc i) items r created
      | Inr tb \<Rightarrow>
          (case SaveSuggestion (sv_repo S (Suc i)) r scopeID (pendingSuggestion (sv_newID S i) item tb now) of
             (r', Inl _) \<Rightarrow> refreshItems S scopeID prints now (Suc i) items r' created
           | (r', Inr _) \<Rightarrow> refreshItems S scopeID prints now (Suc i) items r' (created + 1)))"

definition refreshLocked ::
  "('r, 'l) todo_service \<Rightarrow> 'r \<Rightarrow> string \<Rightarrow> 'r \<times> int res" where
  "refreshLocked S r scopeID =
     (case sv_notes S scopeID 50 of
        Inl e \<Rightarrow> (r, Inl (wrapf ''refresh suggestions: '' e))
      | Inr items \<Rightarrow>
          (case SuggestionFingerprints (sv_repo S 0) r scopeID of
             Inl e \<Rightarrow> (r, Inl (wrapf ''refresh suggestions: '' e))
           | Inr prints \<Rightarrow>
               (case refreshItems S scopeID prints (sv_clock S 0) 0 items r 0 of
                  (r', created) \<Rightarrow> (r', Inr created))))"

text \<open>\<open>TryLock\<close> fails while another refresh of the scope holds the lock; the deferred \<open>Unlock\<close> leaves
  the locks as they were.\<close>

definition RefreshSuggestions ::
  "('r, 'l) todo_service \<Rightarrow> ('r, 'l) todo_world \<Rightarrow> string \<Rightarrow> ('r, 'l) todo_world \<times> int res" where
  "RefreshSuggestions S w scopeID =
     (if blank scopeID then (w, Inl (wrapf ''refresh suggestions: '' ErrTodoInvalidInput))
      else if scopeID \<in> set (tw_refreshing w)
      then (w, Inl (wrapf (''refresh suggestions for scope '' @ scopeID @ '': '') ErrRefreshInProgress))
      else case refreshLocked S (tw_repo w) scopeID of (r, out) \<Rightarrow> (w\<lparr>tw_repo := r\<rparr>, out))"

definition PendingSuggestions ::
  "('r, 'l) todo_service \<Rightarrow> ('r, 'l) todo_world \<Rightarrow> string \<Rightarrow> suggestion list res" where
  "PendingSuggestions S w scopeID =
     (if blank scopeID then Inl (wrapf ''pending suggestions: '' ErrTodoInvalidInput)
      else ListSuggestions (sv_repo S 0) (tw_repo w) scopeID SuggestionPending)"

definition acceptedTodoID :: "string \<Rightarrow> string" where
  "acceptedTodoID suggestionID =
     concat (map hex_byte (take 16 (sha256_bytes (''todoapp:accepted-todo:'' @ suggestionID))))"

definition acceptedTodo ::
  "('r, 'l) todo_service \<Rightarrow> 'r \<Rightarrow> string \<Rightarrow> string \<Rightarrow> suggestion \<Rightarrow> time \<Rightarrow> 'r \<times> todo res" where
  "acceptedTodo S r scopeID userID g now =
     (let todoID = acceptedTodoID (sg_ID g) in
      case TodoByID (sv_repo S 1) r scopeID todoID of
        Inr existing \<Rightarrow> (r, Inr existing)
      | Inl e \<Rightarrow>
          if \<not> errors_is e ErrTodoNotFound then (r, Inl e)
          else
            let t = \<lparr>td_ID = todoID, td_Title = sg_Title g, td_Body = sg_Body g, td_Status = TodoOpen,
                     td_Source = TodoSourceSuggestion, td_SuggestionID = sg_ID g, td_NoteID = sg_NoteID g,
                     td_CreatedBy = userID, td_CreatedAt = now, td_UpdatedAt = now\<rparr> in
            case SaveTodo (sv_repo S 2) r scopeID t of
              (r', Inl e') \<Rightarrow> (r', Inl e')
            | (r', Inr _) \<Rightarrow> (r', Inr t))"

definition suggestionEvent :: "string \<Rightarrow> string \<Rightarrow> suggestion \<Rightarrow> string \<Rightarrow> time \<Rightarrow> report_event" where
  "suggestionEvent ty userID g summary now =
     \<lparr>re_Type = ty, re_UserID = userID, re_TodoID = [], re_SuggestionID = sg_ID g,
      re_NoteID = sg_NoteID g, re_Summary = summary, re_OccurredAt = now\<rparr>"

definition AcceptSuggestion ::
  "('r, 'l) todo_service \<Rightarrow> ('r, 'l) todo_world \<Rightarrow> string \<Rightarrow> string \<Rightarrow> string \<Rightarrow>
     ('r, 'l) todo_world \<times> todo res" where
  "AcceptSuggestion S w scopeID userID suggestionID =
     (if blank scopeID \<or> blank userID
      then (w, Inl (wrapf ''accept suggestion: '' ErrTodoInvalidInput))
      else case SuggestionByID (sv_repo S 0) (tw_repo w) scopeID suggestionID of
        Inl e \<Rightarrow> (w, Inl e)
      | Inr g \<Rightarrow>
          if sg_Status g \<noteq> SuggestionPending
          then (w, Inl (wrapf (''accept suggestion '' @ suggestionID @ '': '') ErrTodoInvalidTransition))
          else
            let now = sv_clock S 0 in
            case acceptedTodo S (tw_repo w) scopeID userID g now of
              (r, Inl e) \<Rightarrow> (w\<lparr>tw_repo := r\<rparr>, Inl e)
            | (r, Inr t) \<Rightarrow>
                let g' = g\<lparr>sg_Status := SuggestionAccepted, sg_UpdatedAt := now\<rparr> in
                (case SaveSuggestion (sv_repo S 3) r scopeID g' of
                   (r', Inl e) \<Rightarrow> (w\<lparr>tw_repo := r'\<rparr>, Inl e)
                 | (r', Inr _) \<Rightarrow>
                     let event = suggestionEvent EventSuggestionAccepted userID g'
                           (''User accepted suggested todo '' @ quote (sg_Title g') @ '' from team memory.'') now in
                     (w\<lparr>tw_repo := r', tw_lake := fst (sv_report S (tw_lake w) scopeID event)\<rparr>, Inr t)))"

definition DismissSuggestion ::
  "('r, 'l) todo_service \<Rightarrow> ('r, 'l) todo_world \<Rightarrow> string \<Rightarrow> string \<Rightarrow> string \<Rightarrow>
     ('r, 'l) todo_world \<times> unit res" where
  "DismissSuggestion S w scopeID userID suggestionID =
     (if blank scopeID \<or> blank userID
      then (w, Inl (wrapf ''dismiss suggestion: '' ErrTodoInvalidInput))
      else case SuggestionByID (sv_repo S 0) (tw_repo w) scopeID suggestionID of
        Inl e \<Rightarrow> (w, Inl e)
      | Inr g \<Rightarrow>
          if sg_Status g \<noteq> SuggestionPending
          then (w, Inl (wrapf (''dismiss suggestion '' @ suggestionID @ '': '') ErrTodoInvalidTransition))
          else
            let now = sv_clock S 0;
                g' = g\<lparr>sg_Status := SuggestionDismissed, sg_UpdatedAt := now\<rparr> in
            (case SaveSuggestion (sv_repo S 1) (tw_repo w) scopeID g' of
               (r, Inl e) \<Rightarrow> (w\<lparr>tw_repo := r\<rparr>, Inl e)
             | (r, Inr _) \<Rightarrow>
                 let event = suggestionEvent EventSuggestionDismissed userID g'
                       (''User dismissed suggested todo '' @ quote (sg_Title g') @ '' as not useful.'') now in
                 (w\<lparr>tw_repo := r, tw_lake := fst (sv_report S (tw_lake w) scopeID event)\<rparr>, Inr ())))"

section \<open>Reporting to the evidence lake\<close>

type_synonym 'l evidence_sink = "'l \<Rightarrow> go_context \<Rightarrow> stream_batch \<Rightarrow> 'l \<times> ingest_receipt res"

definition NewLakeReporter ::
  "(unit \<Rightarrow> string) \<Rightarrow> 'l evidence_sink option \<Rightarrow> (unit \<Rightarrow> string) list \<Rightarrow>
     ('l evidence_sink \<times> (unit \<Rightarrow> string)) res" where
  "NewLakeReporter defaultNewID sink newIDOptions =
     (case sink of
        None \<Rightarrow> Inl (wrapf ''new lake reporter: '' ErrTodoInvalidInput)
      | Some s \<Rightarrow> Inr (s, fold (\<lambda>option _. option) newIDOptions defaultNewID))"

definition reportMetadata :: "report_event \<Rightarrow> (string, string) gomap" where
  "reportMetadata event =
     filter (\<lambda>(k, v). v \<noteq> [])
       [(''event_type'', re_Type event), (''todo_id'', re_TodoID event),
        (''suggestion_id'', re_SuggestionID event), (''note_id'', re_NoteID event)]"

definition reportStream :: stream where
  "reportStream = \<lparr>Source = SourceAppTodo, StreamID = ''app-todo''\<rparr>"

definition reportStreamEvent :: "string \<Rightarrow> report_event \<Rightarrow> stream_event" where
  "reportStreamEvent newID event =
     \<lparr>se_ID = ''app-todo-'' @ newID, se_Stream = reportStream,
      se_Author = \<lparr>Kind = ''user'', NativeID = re_UserID event, AuthorUserID = re_UserID event\<rparr>,
      se_Sequence = 0, se_Kind = KindText, se_Type = ''message'', se_Content = re_Summary event,
      se_Media = None, se_ThreadRef = [], se_Visibility = VisibilityTeam,
      se_OccurredAt = re_OccurredAt event, se_CapturedAt = 0, se_Metadata = reportMetadata event\<rparr>"

definition Report :: "'l evidence_sink \<Rightarrow> string \<Rightarrow> go_context \<Rightarrow> 'l reporter" where
  "Report sink newID ctx l scopeID event =
     (let failed = (\<lambda>e. Inl (wrapf (''report todo event '' @ re_Type event @ '': '') e)) in
      if scopeID = [] then (l, failed ErrTodoInvalidInput)
      else case sink l (WithScope ctx scopeID)
                  \<lparr>stb_Events = [reportStreamEvent newID event], stb_Complete = False\<rparr> of
        (l', Inl e) \<Rightarrow> (l', failed e)
      | (l', Inr _) \<Rightarrow> (l', Inr ()))"

section \<open>The sweep\<close>

text \<open>Each refresh of the sweep has its own service behaviour \<open>S i\<close>.\<close>

fun sweepScopes ::
  "(nat \<Rightarrow> ('r, 'l) todo_service) \<Rightarrow> nat \<Rightarrow> string list \<Rightarrow> ('r, 'l) todo_world \<Rightarrow> ('r, 'l) todo_world" where
  "sweepScopes S i [] w = w"
| "sweepScopes S i (scopeID # scopeIDs) w =
     sweepScopes S (Suc i) scopeIDs (fst (RefreshSuggestions (S i) w scopeID))"

definition refreshSuggestions ::
  "(nat \<Rightarrow> ('r, 'l) todo_service) \<Rightarrow> string list res \<Rightarrow> ('r, 'l) todo_world \<Rightarrow> ('r, 'l) todo_world" where
  "refreshSuggestions S listScopes w =
     (case listScopes of
        Inl _ \<Rightarrow> w
      | Inr scopeIDs \<Rightarrow> sweepScopes S 0 (sort_by (<) scopeIDs) w)"

text \<open>What \<open>StartSuggestionRefresh\<close> makes of its interval: one hour when it is not positive.\<close>

definition refreshInterval :: "int \<Rightarrow> int" where
  "refreshInterval interval = (if interval \<le> 0 then 3600000000000 else interval)"

end
