(* ===== verification/Todo_Theorems.thy ===== *)
theory Todo_Theorems
  imports Todo_App
begin

text \<open>
  Correctness of the todo application: the life of todos and suggestions under every sequence of
  operations and failures, the refresh of suggestions, accepting after a partial failure, concurrent
  completion of one todo under the per-scope lock, and the report that reaches the evidence lake.
  Everything about the service is proved once in the locales of its repository.
\<close>

section \<open>Sequences of operations\<close>

text \<open>Every repository call of the service meets one of the behaviours the repository may show.\<close>

definition service_over :: "('f \<Rightarrow> 'r todo_repository) \<Rightarrow> ('r, 'l) todo_service \<Rightarrow> bool" where
  "service_over repo S \<longleftrightarrow> (\<forall>i. \<exists>f. sv_repo S i = repo f)"

text \<open>Identifiers are 16 random bytes: the generator never repeats one and never meets a stored one.\<close>

definition fresh_ids :: "(nat \<Rightarrow> string) \<Rightarrow> 'a scoped_map \<Rightarrow> bool" where
  "fresh_ids newID m \<longleftrightarrow> inj newID \<and> (\<forall>i s. m s (newID i) = None)"

inductive todo_op ::
  "('f \<Rightarrow> 'r todo_repository) \<Rightarrow> ('r \<Rightarrow> todo scoped_map) \<Rightarrow> ('r \<Rightarrow> suggestion scoped_map) \<Rightarrow>
     ('r, 'l) todo_world \<Rightarrow> ('r, 'l) todo_world \<Rightarrow> bool"
  for repo todos suggestions where
  create: "service_over repo S \<Longrightarrow> fresh_ids (sv_newID S) (todos (tw_repo w)) \<Longrightarrow>
     CreateTodo S w s u title body = (w', out) \<Longrightarrow> todo_op repo todos suggestions w w'"
| complete: "service_over repo S \<Longrightarrow> CompleteTodo S w s u k = (w', out) \<Longrightarrow> todo_op repo todos suggestions w w'"
| refresh: "service_over repo S \<Longrightarrow> fresh_ids (sv_newID S) (suggestions (tw_repo w)) \<Longrightarrow>
     RefreshSuggestions S w s = (w', n) \<Longrightarrow> todo_op repo todos suggestions w w'"
| accept: "service_over repo S \<Longrightarrow> AcceptSuggestion S w s u k = (w', out) \<Longrightarrow> todo_op repo todos suggestions w w'"
| dismiss: "service_over repo S \<Longrightarrow> DismissSuggestion S w s u k = (w', done) \<Longrightarrow> todo_op repo todos suggestions w w'"

inductive todo_reaches ::
  "('f \<Rightarrow> 'r todo_repository) \<Rightarrow> ('r \<Rightarrow> todo scoped_map) \<Rightarrow> ('r \<Rightarrow> suggestion scoped_map) \<Rightarrow>
     ('r, 'l) todo_world \<Rightarrow> ('r, 'l) todo_world \<Rightarrow> bool"
  for repo todos suggestions where
  refl: "todo_reaches repo todos suggestions w w"
| step: "todo_reaches repo todos suggestions w m \<Longrightarrow> todo_op repo todos suggestions m w' \<Longrightarrow>
     todo_reaches repo todos suggestions w w'"

section \<open>What never goes back\<close>

definition done_kept :: "todo scoped_map \<Rightarrow> todo scoped_map \<Rightarrow> bool" where
  "done_kept m m' \<longleftrightarrow>
     (\<forall>s k t. m s k = Some t \<longrightarrow> (if td_Status t = TodoDone then m' s k = Some t else m' s k \<noteq> None))"

definition settled_kept :: "suggestion scoped_map \<Rightarrow> suggestion scoped_map \<Rightarrow> bool" where
  "settled_kept m m' \<longleftrightarrow>
     (\<forall>s k g. m s k = Some g \<longrightarrow>
        (if sg_Status g = SuggestionPending
         then \<exists>g'. m' s k = Some g' \<and> sg_Fingerprint g' = sg_Fingerprint g
         else m' s k = Some g))"

definition accepted_backed :: "todo scoped_map \<Rightarrow> suggestion scoped_map \<Rightarrow> bool" where
  "accepted_backed m n \<longleftrightarrow>
     (\<forall>s k g. n s k = Some g \<longrightarrow> sg_Status g = SuggestionAccepted \<longrightarrow> m s (acceptedTodoID k) \<noteq> None)"

lemma done_kept_refl [simp]: "done_kept m m"
  by (simp add: done_kept_def)

lemma settled_kept_refl [simp]: "settled_kept m m"
  by (simp add: settled_kept_def)

lemma done_kept_trans: "done_kept a b \<Longrightarrow> done_kept b c \<Longrightarrow> done_kept a c"
  unfolding done_kept_def by (metis not_None_eq)

lemma settled_kept_trans: "settled_kept a b \<Longrightarrow> settled_kept b c \<Longrightarrow> settled_kept a c"
  unfolding settled_kept_def by metis

lemma done_kept_upsert:
  "(\<And>t'. m s k = Some t' \<Longrightarrow> td_Status t' = TodoDone \<Longrightarrow> t' = t) \<Longrightarrow> done_kept m (upsert m s k t)"
  by (auto simp: done_kept_def upsert_apply)

lemma settled_kept_upsert:
  "(\<And>g'. m s k = Some g' \<Longrightarrow> sg_Status g' = SuggestionPending \<and> sg_Fingerprint g' = sg_Fingerprint g) \<Longrightarrow>
     settled_kept m (upsert m s k g)"
  by (auto simp: settled_kept_def upsert_apply)

lemma accepted_backed_mono:
  "accepted_backed m n \<Longrightarrow> done_kept m m' \<Longrightarrow> accepted_backed m' n"
  unfolding accepted_backed_def done_kept_def by (metis not_None_eq)

lemma accepted_backed_upsert:
  "accepted_backed m n \<Longrightarrow> (sg_Status g = SuggestionAccepted \<Longrightarrow> m s (acceptedTodoID k) \<noteq> None) \<Longrightarrow>
     accepted_backed m (upsert n s k g)"
  by (auto simp: accepted_backed_def upsert_apply)

definition put_all :: "string \<Rightarrow> suggestion list \<Rightarrow> suggestion scoped_map \<Rightarrow> suggestion scoped_map" where
  "put_all s new m = fold (\<lambda>g m. upsert m s (sg_ID g) g) new m"

lemma put_all_simps [simp]:
  "put_all s [] m = m" "put_all s (g # new) m = put_all s new (upsert m s (sg_ID g) g)"
  by (simp_all add: put_all_def)

lemma put_all_other: "s' \<noteq> s \<or> k \<notin> sg_ID ` set new \<Longrightarrow> put_all s new m s' k = m s' k"
  by (induction new arbitrary: m) (auto simp: upsert_apply)

lemma put_all_new: "distinct (map sg_ID new) \<Longrightarrow> g \<in> set new \<Longrightarrow> put_all s new m s (sg_ID g) = Some g"
  by (induction new arbitrary: m) (auto simp: upsert_apply put_all_other)

lemma put_all_stored:
  assumes "\<And>g. g \<in> set new \<Longrightarrow> m s (sg_ID g) = None" and "m s' k = Some g"
  shows "put_all s new m s' k = Some g"
  using put_all_other [of s' s k new m] assms by fastforce

lemma settled_kept_put_all:
  "(\<And>g. g \<in> set new \<Longrightarrow> m s (sg_ID g) = None) \<Longrightarrow> settled_kept m (put_all s new m)"
  by (simp add: settled_kept_def put_all_stored)

lemma accepted_backed_put_all:
  "accepted_backed t m \<Longrightarrow> \<forall>g \<in> set new. sg_Status g = SuggestionPending \<Longrightarrow> accepted_backed t (put_all s new m)"
proof (induction new arbitrary: m)
  case (Cons g new)
  have "accepted_backed t (upsert m s (sg_ID g) g)"
    by (rule accepted_backed_upsert) (use Cons.prems in \<open>auto simp: todo_consts\<close>)
  with Cons show ?case by simp
qed simp

text \<open>A note has a suggestion in the scope, whatever became of it.\<close>

definition suggested :: "suggestion scoped_map \<Rightarrow> string \<Rightarrow> string \<Rightarrow> bool" where
  "suggested m s noteID \<longleftrightarrow> (\<exists>k g. m s k = Some g \<and> sg_Fingerprint g = noteID)"

lemma suggested_put_all:
  assumes "suggested m s f" and "\<And>g. g \<in> set new \<Longrightarrow> m s (sg_ID g) = None"
  shows "suggested (put_all s new m) s f"
proof -
  obtain k g where "m s k = Some g" "sg_Fingerprint g = f" using assms(1) by (auto simp: suggested_def)
  then have "put_all s new m s k = Some g" using assms(2) by (intro put_all_stored)
  with \<open>sg_Fingerprint g = f\<close> show ?thesis by (auto simp: suggested_def)
qed

section \<open>The service over any repository\<close>

context todo_store
begin

lemma over_repo: "service_over repo S \<Longrightarrow> \<exists>f. sv_repo S i = repo f"
  by (simp add: service_over_def)

lemma save_todo_cases:
  assumes "service_over repo S" and "rinv r" and "SaveTodo (sv_repo S i) r s t = (r', out)"
  obtains (saved) "out = Inr ()" "rinv r'" "todos r' = upsert (todos r) s (td_ID t) t" "suggestions r' = suggestions r"
    | (failed) e where "out = Inl e" "r' = r"
proof -
  obtain f where f: "sv_repo S i = repo f" using over_repo [OF assms(1)] by blast
  from save_todo [OF assms(2) assms(3) [unfolded f]] show thesis using saved failed by blast
qed

lemma save_suggestion_cases:
  assumes "service_over repo S" and "rinv r" and "SaveSuggestion (sv_repo S i) r s g = (r', out)"
  obtains (saved) "out = Inr ()" "rinv r'" "suggestions r' = upsert (suggestions r) s (sg_ID g) g" "todos r' = todos r"
    | (failed) e where "out = Inl e" "r' = r"
proof -
  obtain f where f: "sv_repo S i = repo f" using over_repo [OF assms(1)] by blast
  from save_suggestion [OF assms(2) assms(3) [unfolded f]] show thesis using saved failed by blast
qed

lemma todo_read:
  assumes "service_over repo S" and "rinv r" and "TodoByID (sv_repo S i) r s k = out"
  shows "(\<forall>t. out = Inr t \<longrightarrow> todos r s k = Some t \<and> td_ID t = k) \<and>
    (\<forall>e. out = Inl e \<longrightarrow> errors_is e ErrTodoNotFound \<longrightarrow> todos r s k = None)"
proof -
  obtain f where f: "sv_repo S i = repo f" using over_repo [OF assms(1)] by blast
  from todo_by_id [OF assms(2), where f = f and s = s and k = k] todo_ids [OF assms(2)] assms(3) show ?thesis
    by (auto simp: f)
qed

lemma suggestion_read:
  assumes "service_over repo S" and "rinv r" and "SuggestionByID (sv_repo S i) r s k = Inr g"
  shows "suggestions r s k = Some g \<and> sg_ID g = k"
proof -
  obtain f where f: "sv_repo S i = repo f" using over_repo [OF assms(1)] by blast
  from suggestion_by_id [OF assms(2), where f = f and s = s and k = k] suggestion_ids [OF assms(2)] assms(3) show ?thesis
    by (auto simp: f)
qed

text \<open>What one operation may do to the repository.\<close>

definition good_step :: "'r \<Rightarrow> 'r \<Rightarrow> bool" where
  "good_step r r' \<longleftrightarrow>
     rinv r' \<and> done_kept (todos r) (todos r') \<and> settled_kept (suggestions r) (suggestions r') \<and>
     (accepted_backed (todos r) (suggestions r) \<longrightarrow> accepted_backed (todos r') (suggestions r'))"

lemma good_step_refl: "rinv r \<Longrightarrow> good_step r r"
  by (simp add: good_step_def)

lemma good_step_trans: "good_step a b \<Longrightarrow> good_step b c \<Longrightarrow> good_step a c"
  unfolding good_step_def using done_kept_trans settled_kept_trans by blast

lemma good_step_todo:
  assumes "service_over repo S" and "rinv r" and "SaveTodo (sv_repo S i) r s t = (r', out)"
    and "\<And>t'. todos r s (td_ID t) = Some t' \<Longrightarrow> td_Status t' = TodoDone \<Longrightarrow> t' = t"
  shows "good_step r r'"
  using assms(1-3)
proof (cases rule: save_todo_cases)
  case saved
  then have "done_kept (todos r) (todos r')" using assms(4) by (simp add: done_kept_upsert)
  with saved show ?thesis using accepted_backed_mono by (auto simp: good_step_def)
qed (use assms(2) good_step_refl in simp)

lemma good_step_suggestion:
  assumes "service_over repo S" and "rinv r" and "SaveSuggestion (sv_repo S i) r s g = (r', out)"
    and "\<And>g'. suggestions r s (sg_ID g) = Some g' \<Longrightarrow>
      sg_Status g' = SuggestionPending \<and> sg_Fingerprint g' = sg_Fingerprint g"
    and "sg_Status g = SuggestionAccepted \<Longrightarrow> todos r s (acceptedTodoID (sg_ID g)) \<noteq> None"
  shows "good_step r r'"
  using assms(1-3)
proof (cases rule: save_suggestion_cases)
  case saved
  then show ?thesis
    using assms(4,5) by (simp add: good_step_def settled_kept_upsert accepted_backed_upsert)
qed (use assms(2) good_step_refl in simp)

lemma CreateTodo_good:
  assumes "service_over repo S" and "rinv (tw_repo w)" and "fresh_ids (sv_newID S) (todos (tw_repo w))"
    and "CreateTodo S w s u title body = (w', out)"
  shows "good_step (tw_repo w) (tw_repo w')"
proof (cases "blank s \<or> blank title \<or> blank u")
  case False
  let ?t = "\<lparr>td_ID = sv_newID S 0, td_Title = title, td_Body = body, td_Status = TodoOpen,
    td_Source = TodoSourceManual, td_SuggestionID = [], td_NoteID = [], td_CreatedBy = u,
    td_CreatedAt = sv_clock S 0, td_UpdatedAt = sv_clock S 0\<rparr>"
  obtain r' o' where save: "SaveTodo (sv_repo S 0) (tw_repo w) s ?t = (r', o')" by fastforce
  have "good_step (tw_repo w) r'"
    using good_step_todo [OF assms(1,2) save] assms(3) by (simp add: fresh_ids_def)
  moreover have "tw_repo w' = r'"
    using assms(4) False save by (auto simp: CreateTodo_def Let_def split: sum.splits)
  ultimately show ?thesis by simp
qed (use assms good_step_refl in \<open>auto simp: CreateTodo_def\<close>)

lemma completeTodoOnce_good:
  assumes "service_over repo S" and "rinv r" and "completeTodoOnce S r s k = (r', out)"
  shows "good_step r r' \<and> (\<forall>t b. out = Inr (t, b) \<longrightarrow> todos r' s k = Some t \<and> td_Status t = TodoDone \<and>
    (b \<longleftrightarrow> (\<exists>t0. todos r s k = Some t0 \<and> td_Status t0 \<noteq> TodoDone)))"
proof (cases "TodoByID (sv_repo S 0) r s k")
  case (Inr t)
  note read = todo_read [OF assms(1,2) Inr]
  show ?thesis
  proof (cases "td_Status t = TodoDone")
    case False
    let ?t = "t\<lparr>td_Status := TodoDone, td_UpdatedAt := sv_clock S 0\<rparr>"
    obtain r1 o1 where save: "SaveTodo (sv_repo S 1) r s ?t = (r1, o1)" by fastforce
    have "good_step r r1" using good_step_todo [OF assms(1,2) save] read False by simp
    moreover have "r' = r1" using assms(3) Inr False save
      by (auto simp: completeTodoOnce_def Let_def split: sum.splits)
    moreover have "o1 = Inr () \<Longrightarrow> todos r1 s k = Some ?t"
      using read by (cases rule: save_todo_cases [OF assms(1,2) save]) (auto simp: upsert_apply)
    moreover have "out = (case o1 of Inl e \<Rightarrow> Inl e | Inr _ \<Rightarrow> Inr (?t, True))"
      using assms(3) Inr False save by (auto simp: completeTodoOnce_def Let_def split: sum.splits)
    ultimately show ?thesis using read False by (auto split: sum.splits)
  qed (use assms Inr read good_step_refl in \<open>auto simp: completeTodoOnce_def\<close>)
qed (use assms good_step_refl in \<open>auto simp: completeTodoOnce_def\<close>)

lemma CompleteTodo_good:
  assumes "service_over repo S" and "rinv (tw_repo w)" and "CompleteTodo S w s u k = (w', out)"
  shows "good_step (tw_repo w) (tw_repo w')"
proof -
  obtain r' o' where once: "completeTodoOnce S (tw_repo w) s k = (r', o')" by fastforce
  show ?thesis
    using assms completeTodoOnce_good [OF assms(1,2) once] once good_step_refl
    by (auto simp: CompleteTodo_def Let_def split: if_splits sum.splits)
qed

lemma DismissSuggestion_good:
  assumes "service_over repo S" and "rinv (tw_repo w)" and "DismissSuggestion S w s u k = (w', out)"
  shows "good_step (tw_repo w) (tw_repo w')"
proof (cases "blank s \<or> blank u")
  case False
  show ?thesis
  proof (cases "SuggestionByID (sv_repo S 0) (tw_repo w) s k")
    case (Inl e)
    with assms False good_step_refl show ?thesis by (auto simp: DismissSuggestion_def)
  next
    case (Inr g)
    note read = suggestion_read [OF assms(1,2) Inr]
    let ?g = "g\<lparr>sg_Status := SuggestionDismissed, sg_UpdatedAt := sv_clock S 0\<rparr>"
    obtain r1 o1 where save: "SaveSuggestion (sv_repo S 1) (tw_repo w) s ?g = (r1, o1)" by fastforce
    have "sg_Status g = SuggestionPending \<Longrightarrow> good_step (tw_repo w) r1"
      using good_step_suggestion [OF assms(1,2) save] read by (simp add: todo_consts)
    with assms False Inr save good_step_refl show ?thesis
      by (auto simp: DismissSuggestion_def Let_def split: if_splits sum.splits)
  qed
qed (use assms good_step_refl in \<open>auto simp: DismissSuggestion_def\<close>)

lemma acceptedTodo_good:
  assumes "service_over repo S" and "rinv r" and "acceptedTodo S r s u g now = (r', out)"
  shows "good_step r r' \<and> suggestions r' = suggestions r \<and>
    (\<forall>t. out = Inr t \<longrightarrow> todos r' s (acceptedTodoID (sg_ID g)) = Some t \<and>
       (\<forall>t0. todos r s (acceptedTodoID (sg_ID g)) = Some t0 \<longrightarrow> t = t0))"
proof (cases "TodoByID (sv_repo S 1) r s (acceptedTodoID (sg_ID g))")
  case (Inr t)
  with todo_read [OF assms(1,2) Inr] assms good_step_refl show ?thesis
    by (auto simp: acceptedTodo_def Let_def)
next
  case (Inl e)
  note read = todo_read [OF assms(1,2) Inl]
  let ?t = "\<lparr>td_ID = acceptedTodoID (sg_ID g), td_Title = sg_Title g, td_Body = sg_Body g,
    td_Status = TodoOpen, td_Source = TodoSourceSuggestion, td_SuggestionID = sg_ID g,
    td_NoteID = sg_NoteID g, td_CreatedBy = u, td_CreatedAt = now, td_UpdatedAt = now\<rparr>"
  show ?thesis
  proof (cases "errors_is e ErrTodoNotFound")
    case True
    with read have none: "todos r s (acceptedTodoID (sg_ID g)) = None" by blast
    obtain r1 o1 where save: "SaveTodo (sv_repo S 2) r s ?t = (r1, o1)" by fastforce
    have "good_step r r1" using good_step_todo [OF assms(1,2) save] none by simp
    moreover have "suggestions r1 = suggestions r \<and> (o1 = Inr () \<longrightarrow> todos r1 s (td_ID ?t) = Some ?t)"
      by (cases rule: save_todo_cases [OF assms(1,2) save]) (auto simp: upsert_apply)
    moreover have "r' = r1 \<and> out = (case o1 of Inl e \<Rightarrow> Inl e | Inr _ \<Rightarrow> Inr ?t)"
      using assms(3) Inl True save by (auto simp: acceptedTodo_def Let_def split: sum.splits)
    ultimately show ?thesis using none by (auto split: sum.splits)
  qed (use assms Inl good_step_refl in \<open>auto simp: acceptedTodo_def Let_def\<close>)
qed

lemma acceptedTodo_writes:
  assumes "service_over repo S" and "rinv r" and "acceptedTodo S r s u g now = (r', out)"
    and "(s', k') \<noteq> (s, acceptedTodoID (sg_ID g))"
  shows "todos r' s' k' = todos r s' k'"
proof (cases "r' = r")
  case False
  then obtain t o' where "SaveTodo (sv_repo S 2) r s t = (r', o')" "td_ID t = acceptedTodoID (sg_ID g)"
    using assms(3) by (auto simp: acceptedTodo_def Let_def split: sum.splits if_splits prod.splits)
  then show ?thesis
    using assms(4) by (cases rule: save_todo_cases [OF assms(1,2)]) (auto simp: upsert_apply)
qed simp

lemma AcceptSuggestion_good:
  assumes "service_over repo S" and "rinv (tw_repo w)" and "AcceptSuggestion S w s u k = (w', out)"
  shows "good_step (tw_repo w) (tw_repo w')"
proof (cases "blank s \<or> blank u \<or> (\<exists>e. SuggestionByID (sv_repo S 0) (tw_repo w) s k = Inl e)")
  case False
  then obtain g where Inr: "SuggestionByID (sv_repo S 0) (tw_repo w) s k = Inr g"
    by (cases "SuggestionByID (sv_repo S 0) (tw_repo w) s k") auto
  note read = suggestion_read [OF assms(1,2) Inr]
  let ?g = "g\<lparr>sg_Status := SuggestionAccepted, sg_UpdatedAt := sv_clock S 0\<rparr>"
  obtain r1 o1 where acc: "acceptedTodo S (tw_repo w) s u g (sv_clock S 0) = (r1, o1)" by fastforce
  note first = acceptedTodo_good [OF assms(1,2) acc]
  then have r1: "rinv r1" by (simp add: good_step_def)
  obtain r2 o2 where save: "SaveSuggestion (sv_repo S 3) r1 s ?g = (r2, o2)" by fastforce
  have "good_step (tw_repo w) r2" if "sg_Status g = SuggestionPending" "o1 = Inr t" for t
    by (rule good_step_trans [OF conjunct1 [OF first]], rule good_step_suggestion [OF assms(1) r1 save])
      (use first read that in auto)
  with assms(2,3) False Inr acc save first good_step_refl show ?thesis
    by (auto simp: AcceptSuggestion_def Let_def split: if_splits sum.splits)
qed (use assms good_step_refl in \<open>auto simp: AcceptSuggestion_def split: if_splits\<close>)

text \<open>The loop stores some of the items, in their order, each under the identifier of its turn.\<close>

lemma refreshItems_spec:
  assumes "service_over repo S" and "inj (sv_newID S)"
  shows "rinv r \<Longrightarrow> (\<forall>j \<ge> i. suggestions r s (sv_newID S j) = None) \<Longrightarrow>
    refreshItems S s prints now i items r n = (r', n') \<Longrightarrow>
    \<exists>new. rinv r' \<and> todos r' = todos r \<and> suggestions r' = put_all s new (suggestions r) \<and>
      n' = n + int (length new) \<and> distinct (map sg_ID new) \<and>
      (\<forall>g \<in> set new. sg_ID g \<in> sv_newID S ` {i..} \<and> sg_Status g = SuggestionPending \<and>
         sg_Fingerprint g \<notin> set prints) \<and>
      subseq (map sg_Fingerprint new) (map ai_NoteID items)"
proof (induction items arbitrary: i r n)
  case Nil
  then show ?case by (intro exI [of _ "[]"]) simp
next
  case (Cons item items)
  have skip: "\<exists>new. rinv r' \<and> todos r' = todos r \<and> suggestions r' = put_all s new (suggestions r) \<and>
      n' = n + int (length new) \<and> distinct (map sg_ID new) \<and>
      (\<forall>g \<in> set new. sg_ID g \<in> sv_newID S ` {i..} \<and> sg_Status g = SuggestionPending \<and>
         sg_Fingerprint g \<notin> set prints) \<and>
      subseq (map sg_Fingerprint new) (map ai_NoteID (item # items))"
    if run: "refreshItems S s prints now (Suc i) items r n = (r', n')"
  proof -
    have "\<forall>j \<ge> Suc i. suggestions r s (sv_newID S j) = None" using Cons.prems(2) by simp
    from Cons.IH [OF Cons.prems(1) this run] show ?thesis
      by (elim exE, intro exI) (force intro: list_emb_Cons)
  qed
  show ?case
  proof (cases "ai_NoteID item \<in> set prints \<or> (\<exists>e. rewriteItem (sv_rewriter S) i item = Inl e)")
    case True
    then show ?thesis using Cons.prems(3) by (intro skip) (auto split: if_splits)
  next
    case False
    then obtain tb where tb: "rewriteItem (sv_rewriter S) i item = Inr tb"
      by (cases "rewriteItem (sv_rewriter S) i item") auto
    let ?g = "pendingSuggestion (sv_newID S i) item tb now"
    obtain r1 o1 where save: "SaveSuggestion (sv_repo S (Suc i)) r s ?g = (r1, o1)" by fastforce
    from assms(1) Cons.prems(1) save show ?thesis
    proof (cases rule: save_suggestion_cases)
      case (failed e)
      then show ?thesis using Cons.prems(3) False tb save by (intro skip) simp
    next
      case saved
      have run: "refreshItems S s prints now (Suc i) items r1 (n + 1) = (r', n')"
        using Cons.prems(3) False tb save saved(1) by simp
      have g: "sg_ID ?g = sv_newID S i" "sg_Status ?g = SuggestionPending" "sg_Fingerprint ?g = ai_NoteID item"
        by (simp_all add: pendingSuggestion_def)
      have "\<forall>j \<ge> Suc i. suggestions r1 s (sv_newID S j) = None"
        using Cons.prems(2) assms(2) by (auto simp: saved(3) g upsert_apply dest: injD)
      from Cons.IH [OF saved(2) this run] obtain new where new:
        "rinv r'" "todos r' = todos r1" "suggestions r' = put_all s new (suggestions r1)"
        "n' = n + 1 + int (length new)" "distinct (map sg_ID new)"
        "\<forall>g \<in> set new. sg_ID g \<in> sv_newID S ` {Suc i..} \<and> sg_Status g = SuggestionPending \<and>
           sg_Fingerprint g \<notin> set prints"
        "subseq (map sg_Fingerprint new) (map ai_NoteID items)" by blast
      have "sv_newID S i \<notin> sg_ID ` set new" using new(6) assms(2) by (fastforce dest: injD)
      then show ?thesis
        using new saved g False by (intro exI [of _ "?g # new"]) (auto 0 3 simp: image_iff)
    qed
  qed
qed

lemma RefreshSuggestions_spec:
  assumes "service_over repo S" and "rinv (tw_repo w)" and "fresh_ids (sv_newID S) (suggestions (tw_repo w))"
    and "RefreshSuggestions S w s = (w', Inr n)"
  shows "\<exists>new items. sv_notes S s 50 = Inr items \<and> rinv (tw_repo w') \<and> todos (tw_repo w') = todos (tw_repo w) \<and>
    suggestions (tw_repo w') = put_all s new (suggestions (tw_repo w)) \<and> n = int (length new) \<and>
    distinct (map sg_ID new) \<and> subseq (map sg_Fingerprint new) (map ai_NoteID items) \<and>
    (\<forall>g \<in> set new. sg_Status g = SuggestionPending \<and> (\<forall>s'. suggestions (tw_repo w) s' (sg_ID g) = None) \<and>
       (\<forall>k g'. suggestions (tw_repo w) s k = Some g' \<longrightarrow> sg_Fingerprint g' \<noteq> sg_Fingerprint g))"
proof -
  from assms(4) obtain items prints where
    items: "sv_notes S s 50 = Inr items" and
    prints: "SuggestionFingerprints (sv_repo S 0) (tw_repo w) s = Inr prints" and
    run: "refreshItems S s prints (sv_clock S 0) 0 items (tw_repo w) 0 = (tw_repo w', n)"
    by (auto simp: RefreshSuggestions_def refreshLocked_def split: if_splits sum.splits prod.splits)
  obtain f where f: "sv_repo S 0 = repo f" using over_repo [OF assms(1)] by blast
  have set_prints: "set prints = {sg_Fingerprint g | g k. suggestions (tw_repo w) s k = Some g}"
    by (rule fingerprints [OF assms(2) prints [unfolded f]])
  have inj: "inj (sv_newID S)" and none: "\<And>i s. suggestions (tw_repo w) s (sv_newID S i) = None"
    using assms(3) by (simp_all add: fresh_ids_def)
  from refreshItems_spec [OF assms(1) inj assms(2) _ run] none obtain new where
    "rinv (tw_repo w')" "todos (tw_repo w') = todos (tw_repo w)"
    "suggestions (tw_repo w') = put_all s new (suggestions (tw_repo w))" "n = int (length new)"
    "distinct (map sg_ID new)" "subseq (map sg_Fingerprint new) (map ai_NoteID items)"
    and each: "\<forall>g \<in> set new. sg_ID g \<in> range (sv_newID S) \<and> sg_Status g = SuggestionPending \<and>
      sg_Fingerprint g \<notin> set prints" by fastforce
  moreover have "\<forall>g \<in> set new. sg_Status g = SuggestionPending \<and>
      (\<forall>s'. suggestions (tw_repo w) s' (sg_ID g) = None) \<and>
      (\<forall>k g'. suggestions (tw_repo w) s k = Some g' \<longrightarrow> sg_Fingerprint g' \<noteq> sg_Fingerprint g)"
    using each none unfolding set_prints by fastforce
  ultimately show ?thesis using items by blast
qed

lemma RefreshSuggestions_good:
  assumes "service_over repo S" and "rinv (tw_repo w)" and "fresh_ids (sv_newID S) (suggestions (tw_repo w))"
    and "RefreshSuggestions S w s = (w', out)"
  shows "good_step (tw_repo w) (tw_repo w')"
proof (cases out)
  case (Inl e)
  then have "tw_repo w' = tw_repo w"
    using assms(4) by (auto simp: RefreshSuggestions_def refreshLocked_def split: if_splits sum.splits prod.splits)
  with assms(2) good_step_refl show ?thesis by simp
next
  case (Inr n)
  from RefreshSuggestions_spec [OF assms(1-3) assms(4) [unfolded Inr]] show ?thesis
    by (auto simp: good_step_def settled_kept_put_all accepted_backed_put_all)
qed

lemma todo_op_good:
  assumes "todo_op repo todos suggestions w w'" and "rinv (tw_repo w)"
  shows "good_step (tw_repo w) (tw_repo w')"
  using assms
proof (cases rule: todo_op.cases)
  case (create S s u title body out)
  then show ?thesis using CreateTodo_good assms(2) by blast
next
  case (complete S s u k out)
  then show ?thesis using CompleteTodo_good assms(2) by blast
next
  case (refresh S s n)
  then show ?thesis using RefreshSuggestions_good assms(2) by blast
next
  case (accept S s u k out)
  then show ?thesis using AcceptSuggestion_good assms(2) by blast
next
  case (dismiss S s u k out)
  then show ?thesis using DismissSuggestion_good assms(2) by blast
qed

lemma todo_reaches_good:
  "todo_reaches repo todos suggestions w w' \<Longrightarrow> rinv (tw_repo w) \<Longrightarrow> good_step (tw_repo w) (tw_repo w')"
proof (induction rule: todo_reaches.induct)
  case (step w m w')
  from step.IH [OF step.prems] have "good_step (tw_repo w) (tw_repo m)" .
  moreover from this have "good_step (tw_repo m) (tw_repo w')"
    using todo_op_good [OF step.hyps(2)] by (simp add: good_step_def)
  ultimately show ?case by (rule good_step_trans)
qed (rule good_step_refl)

text \<open>An accept that fails has saved its todo or nothing; the suggestion stays pending.\<close>

lemma AcceptSuggestion_failed:
  assumes "service_over repo S" and "rinv (tw_repo w)" and "AcceptSuggestion S w s u k = (w', Inl e)"
  shows "suggestions (tw_repo w') = suggestions (tw_repo w) \<and> tw_lake w' = tw_lake w \<and>
    (\<forall>s' k'. (s', k') \<noteq> (s, acceptedTodoID k) \<longrightarrow> todos (tw_repo w') s' k' = todos (tw_repo w) s' k')"
proof (cases "blank s \<or> blank u \<or> (\<exists>e. SuggestionByID (sv_repo S 0) (tw_repo w) s k = Inl e)")
  case False
  then obtain g where Inr: "SuggestionByID (sv_repo S 0) (tw_repo w) s k = Inr g"
    by (cases "SuggestionByID (sv_repo S 0) (tw_repo w) s k") auto
  note read = suggestion_read [OF assms(1,2) Inr]
  let ?g = "g\<lparr>sg_Status := SuggestionAccepted, sg_UpdatedAt := sv_clock S 0\<rparr>"
  obtain r1 o1 where acc: "acceptedTodo S (tw_repo w) s u g (sv_clock S 0) = (r1, o1)" by fastforce
  note first = acceptedTodo_good [OF assms(1,2) acc]
  then have r1: "rinv r1" "suggestions r1 = suggestions (tw_repo w)" by (simp_all add: good_step_def)
  have todos1: "todos r1 s' k' = todos (tw_repo w) s' k'" if "(s', k') \<noteq> (s, acceptedTodoID k)" for s' k'
    using acceptedTodo_writes [OF assms(1,2) acc] read that by blast
  obtain r2 o2 where save: "SaveSuggestion (sv_repo S 3) r1 s ?g = (r2, o2)" by fastforce
  have "o2 = Inr () \<or> r2 = r1" by (cases rule: save_suggestion_cases [OF assms(1) r1(1) save]) auto
  with assms(3) False Inr acc save r1(2) todos1 show ?thesis
    by (auto simp: AcceptSuggestion_def Let_def split: if_splits sum.splits)
qed (use assms(3) in \<open>auto simp: AcceptSuggestion_def split: if_splits\<close>)

end

section \<open>A repository that does not fail\<close>

locale healthy_todo_store = todo_store +
  fixes ok :: 'f
  assumes ok_todo: "rinv r \<Longrightarrow>
      TodoByID (repo ok) r s k = (case todos r s k of None \<Rightarrow> Inl ErrTodoNotFound | Some t \<Rightarrow> Inr t)"
    and ok_suggestion: "rinv r \<Longrightarrow>
      SuggestionByID (repo ok) r s k = (case suggestions r s k of None \<Rightarrow> Inl ErrTodoNotFound | Some g \<Rightarrow> Inr g)"
    and ok_save_todo: "rinv r \<Longrightarrow> \<exists>r'. SaveTodo (repo ok) r s t = (r', Inr ())"
    and ok_resave: "rinv r \<Longrightarrow> suggestions r s (sg_ID g) = Some g0 \<Longrightarrow> sg_Fingerprint g0 = sg_Fingerprint g \<Longrightarrow>
      \<exists>r'. SaveSuggestion (repo ok) r s g = (r', Inr ())"
    and ok_save_suggestion: "rinv r \<Longrightarrow> SaveSuggestion (repo ok) r s g = (r', Inl e) \<Longrightarrow>
      \<exists>k g'. suggestions r s k = Some g' \<and> sg_Fingerprint g' = sg_Fingerprint g"
    and ok_fingerprints: "rinv r \<Longrightarrow> \<exists>fs. SuggestionFingerprints (repo ok) r s = Inr fs"
begin

lemma over_ok: "\<forall>i. sv_repo S i = repo ok \<Longrightarrow> service_over repo S"
  by (auto simp: service_over_def)

lemma AcceptSuggestion_ok:
  assumes ok: "\<forall>i. sv_repo S i = repo ok" and "rinv (tw_repo w)" and "\<not> blank s" and "\<not> blank u"
    and g: "suggestions (tw_repo w) s k = Some g" and "sg_Status g = SuggestionPending"
  shows "\<exists>w' t. AcceptSuggestion S w s u k = (w', Inr t) \<and>
    todos (tw_repo w') = upsert (todos (tw_repo w)) s (acceptedTodoID k) t \<and>
    (case todos (tw_repo w) s (acceptedTodoID k) of
       Some t0 \<Rightarrow> t = t0
     | None \<Rightarrow> td_Status t = TodoOpen \<and> td_SuggestionID t = k \<and> td_NoteID t = sg_NoteID g \<and> td_CreatedBy t = u) \<and>
    suggestions (tw_repo w') = upsert (suggestions (tw_repo w)) s k
      (g\<lparr>sg_Status := SuggestionAccepted, sg_UpdatedAt := sv_clock S 0\<rparr>)"
proof -
  let ?r = "tw_repo w" and ?id = "acceptedTodoID k"
  let ?g = "g\<lparr>sg_Status := SuggestionAccepted, sg_UpdatedAt := sv_clock S 0\<rparr>"
  have id: "sg_ID g = k" by (rule suggestion_ids [OF assms(2) g])
  have same: "upsert m s ?id t = m" if "m s ?id = Some t" for m :: "todo scoped_map" and t
    using that by (auto simp: upsert_apply fun_eq_iff)
  obtain r1 t where acc: "acceptedTodo S ?r s u g (sv_clock S 0) = (r1, Inr t)"
    and r1: "rinv r1" "suggestions r1 = suggestions ?r" "todos r1 = upsert (todos ?r) s ?id t"
    and t: "case todos ?r s ?id of Some t0 \<Rightarrow> t = t0
      | None \<Rightarrow> td_Status t = TodoOpen \<and> td_SuggestionID t = k \<and> td_NoteID t = sg_NoteID g \<and> td_CreatedBy t = u"
  proof (cases "todos ?r s ?id")
    case (Some t0)
    with that assms(2) same show thesis
      by (auto simp: acceptedTodo_def ok ok_todo [OF assms(2)] id Let_def)
  next
    case None
    let ?t = "\<lparr>td_ID = ?id, td_Title = sg_Title g, td_Body = sg_Body g,
      td_Status = TodoOpen, td_Source = TodoSourceSuggestion, td_SuggestionID = k,
      td_NoteID = sg_NoteID g, td_CreatedBy = u, td_CreatedAt = sv_clock S 0, td_UpdatedAt = sv_clock S 0\<rparr>"
    obtain r1 where save: "SaveTodo (repo ok) ?r s ?t = (r1, Inr ())" using ok_save_todo [OF assms(2)] by blast
    show thesis
      using save_todo [OF assms(2) save] None save
      by (intro that [of r1 ?t]) (auto simp: acceptedTodo_def ok ok_todo [OF assms(2)] id Let_def go_err)
  qed
  have "suggestions r1 s (sg_ID ?g) = Some g" using g r1(2) id by simp
  from ok_resave [OF r1(1) this] obtain r2 where save: "SaveSuggestion (repo ok) r1 s ?g = (r2, Inr ())" by auto
  from save_suggestion [OF r1(1) save] r1 id
  have r2: "todos r2 = upsert (todos ?r) s ?id t" "suggestions r2 = upsert (suggestions ?r) s k ?g" by auto
  have "\<exists>w'. AcceptSuggestion S w s u k = (w', Inr t) \<and> tw_repo w' = r2"
    using assms(3,4,6) by (simp add: AcceptSuggestion_def ok ok_suggestion [OF assms(2)] g acc save Let_def)
  with r2 t show ?thesis by metis
qed

lemma CompleteTodo_ok:
  assumes ok: "\<forall>i. sv_repo S i = repo ok" and inv: "rinv (tw_repo w)" and "\<not> blank s" and "\<not> blank u"
    and t: "todos (tw_repo w) s k = Some t" and "td_Status t \<noteq> TodoDone"
  defines "t' \<equiv> t\<lparr>td_Status := TodoDone, td_UpdatedAt := sv_clock S 0\<rparr>"
  shows "\<exists>w'. CompleteTodo S w s u k = (w', Inr t') \<and> todos (tw_repo w') = upsert (todos (tw_repo w)) s k t' \<and>
    tw_lake w' = fst (sv_report S (tw_lake w) s (completionEvent u k t' (sv_clock S 1)))"
proof -
  obtain r' where save: "SaveTodo (repo ok) (tw_repo w) s t' = (r', Inr ())" using ok_save_todo [OF inv] by blast
  have "td_ID t' = k" using todo_ids [OF inv t] by (simp add: t'_def)
  with save_todo [OF inv save] have "todos r' = upsert (todos (tw_repo w)) s k t'" by auto
  moreover have "completeTodoOnce S (tw_repo w) s k = (r', Inr (t', True))"
    using assms(6) save by (simp add: completeTodoOnce_def ok ok_todo [OF inv] t Let_def t'_def)
  ultimately show ?thesis using assms(3,4) by (simp add: CompleteTodo_def Let_def)
qed

lemma refreshItems_covers:
  assumes ok: "\<forall>i. sv_repo S i = repo ok" and "sv_rewriter S = None" and inj: "inj (sv_newID S)"
  shows "rinv r \<Longrightarrow> (\<forall>j \<ge> i. suggestions r s (sv_newID S j) = None) \<Longrightarrow>
    refreshItems S s prints now i items r n = (r', n') \<Longrightarrow> item \<in> set items \<Longrightarrow>
    ai_NoteID item \<in> set prints \<or> suggested (suggestions r') s (ai_NoteID item)"
proof (induction items arbitrary: i r n)
  case (Cons it items)
  let ?g = "pendingSuggestion (sv_newID S i) it (ai_Subject it, ai_Body it) now"
  obtain r1 o1 where save: "SaveSuggestion (repo ok) r s ?g = (r1, o1)" by fastforce
  have g: "sg_ID ?g = sv_newID S i" "sg_Fingerprint ?g = ai_NoteID it" by (simp_all add: pendingSuggestion_def)
  show ?case
  proof (cases "ai_NoteID it \<in> set prints")
    case True
    then have run: "refreshItems S s prints now (Suc i) items r n = (r', n')" using Cons.prems(3) by simp
    have "\<forall>j \<ge> Suc i. suggestions r s (sv_newID S j) = None" using Cons.prems(2) by simp
    from Cons.IH [OF Cons.prems(1) this run] True Cons.prems(4) show ?thesis by auto
  next
    case False
    obtain m where run: "refreshItems S s prints now (Suc i) items r1 m = (r', n')"
      using Cons.prems(3) False save by (auto simp: ok rewriteItem_def assms(2) split: sum.splits)
    have "rinv r1 \<and> suggested (suggestions r1) s (ai_NoteID it) \<and>
        (\<forall>j \<ge> Suc i. suggestions r1 s (sv_newID S j) = None)"
    proof (cases o1)
      case (Inl e)
      with save_suggestion [OF Cons.prems(1) save] have "r1 = r" by auto
      with ok_save_suggestion [OF Cons.prems(1) save [unfolded Inl]] Cons.prems g show ?thesis
        by (auto simp: suggested_def)
    next
      case (Inr x)
      with save_suggestion [OF Cons.prems(1) save] have "rinv r1" "suggestions r1 = upsert (suggestions r) s (sv_newID S i) ?g"
        by (auto simp: g)
      with Cons.prems(2) inj g show ?thesis by (auto simp: suggested_def upsert_apply dest: injD)
    qed
    then have r1: "rinv r1" "suggested (suggestions r1) s (ai_NoteID it)"
      and free: "\<forall>j \<ge> Suc i. suggestions r1 s (sv_newID S j) = None" by auto
    from refreshItems_spec [OF over_ok [OF ok] inj r1(1) free run] obtain new where
      "suggestions r' = put_all s new (suggestions r1)" "\<forall>g \<in> set new. sg_ID g \<in> sv_newID S ` {Suc i..}" by blast
    with r1(2) free have "suggested (suggestions r') s (ai_NoteID it)"
      by (auto intro!: suggested_put_all)
    with Cons.IH [OF r1(1) free run] Cons.prems(4) show ?thesis by auto
  qed
qed simp

lemma RefreshSuggestions_covers:
  assumes ok: "\<forall>i. sv_repo S i = repo ok" and rw: "sv_rewriter S = None"
    and inv: "rinv (tw_repo w)" and fresh: "fresh_ids (sv_newID S) (suggestions (tw_repo w))"
    and run: "RefreshSuggestions S w s = (w', Inr n)" and items: "sv_notes S s 50 = Inr items"
  shows "\<forall>item \<in> set items. suggested (suggestions (tw_repo w')) s (ai_NoteID item)"
proof
  fix item assume item: "item \<in> set items"
  have inj: "inj (sv_newID S)" and none: "\<And>i s. suggestions (tw_repo w) s (sv_newID S i) = None"
    using fresh by (simp_all add: fresh_ids_def)
  from run obtain prints where
    prints: "SuggestionFingerprints (repo ok) (tw_repo w) s = Inr prints" and
    loop: "refreshItems S s prints (sv_clock S 0) 0 items (tw_repo w) 0 = (tw_repo w', n)"
    by (auto simp: RefreshSuggestions_def refreshLocked_def items ok split: if_splits sum.splits prod.splits)
  from refreshItems_covers [OF ok rw inj inv _ loop item] none
  consider "ai_NoteID item \<in> set prints" | "suggested (suggestions (tw_repo w')) s (ai_NoteID item)" by blast
  then show "suggested (suggestions (tw_repo w')) s (ai_NoteID item)"
  proof cases
    case 1
    then obtain g k where "ai_NoteID item = sg_Fingerprint g" "suggestions (tw_repo w) s k = Some g"
      unfolding fingerprints [OF inv prints] by auto
    then have old: "suggested (suggestions (tw_repo w)) s (ai_NoteID item)"
      unfolding suggested_def by metis
    from RefreshSuggestions_spec [OF over_ok [OF ok] inv fresh run] obtain new where
      "suggestions (tw_repo w') = put_all s new (suggestions (tw_repo w))"
      "\<forall>g \<in> set new. suggestions (tw_repo w) s (sg_ID g) = None" by blast
    with old show ?thesis by (simp add: suggested_put_all)
  qed
qed

end

interpretation mem_healthy: healthy_todo_store "\<lambda>_ :: unit. memory_todo_repository" mem_inv mem_todos mem_suggestions "()"
  by unfold_locales
    (auto simp: memory_todo_repository_def memTodoByID_def mem_todos_def memSuggestionByID_def mem_suggestions_def
      memSaveTodo_def memSaveSuggestion_def memSuggestionFingerprints_def split: option.splits)

definition no_driver_fault :: driver_fault where
  "no_driver_fault = (\<lambda>_. None)"

interpretation pg_healthy: healthy_todo_store postgres_todo_repository todo_pg_inv pg_todos pg_suggestions no_driver_fault
proof (unfold_locales, goal_cases)
  case (4 r s g g0)
  then obtain row where row: "mget (tt_suggestions r) (s, sg_ID g) = Some row" and g0: "sr_payload row = g0"
    by (auto simp: pg_suggestions_def)
  have "sr_fingerprint row = sg_Fingerprint g"
    using suggestion_rows_spec(1) [OF 4(1) map_of_SomeD [OF row]] g0 4(3) by simp
  moreover have uniq: "unique_fingerprints (tt_suggestions r)" and wf: "mwf (tt_suggestions r)"
    using 4(1) by (simp_all add: todo_pg_inv_def)
  ultimately have "k = sg_ID g"
    if "((s, k), row') \<in> set (tt_suggestions r)" and "sr_fingerprint row' = sg_Fingerprint g" for k row'
    using uniq row map_of_is_SomeI [OF wf that(1)] that(2) unfolding unique_fingerprints_def by metis
  then have "\<not> (\<exists>((s', gid), row) \<in> set (tt_suggestions r).
      s' = s \<and> gid \<noteq> sg_ID g \<and> sr_fingerprint row = sg_Fingerprint g)" by blast
  then show ?case
    by (auto simp: postgres_todo_repository_def pgSaveSuggestion_def no_driver_fault_def)
next
  case (5 r s g r' e)
  then obtain k row where "((s, k), row) \<in> set (tt_suggestions r)" "sr_fingerprint row = sg_Fingerprint g"
    by (auto simp: postgres_todo_repository_def pgSaveSuggestion_def no_driver_fault_def split: if_splits)
  with suggestion_rows_spec(1) [OF 5(1)] show ?case by metis
qed (auto simp: postgres_todo_repository_def pgTodoByID_def pg_todos_def pgSuggestionByID_def pg_suggestions_def
      pgSaveTodo_def pgSuggestionFingerprints_def no_driver_fault_def split: option.splits)

section \<open>Concurrent completion\<close>

text \<open>
  Threads that all call \<open>CompleteTodo\<close> for one todo: each waits for the completion lock of the scope,
  reads, checks and writes while it holds the lock, and reports after it has released it.  Between the
  steps any other activity may change the repository, as long as it leaves this todo alone.
\<close>

datatype complete_pc =
    Waiting
  | Holding
  | Loaded todo
  | Released "(todo \<times> bool) res"
  | Returned "todo res"

record 'r complete_conf =
  cc_repo :: 'r
  cc_lock :: "nat option"
  cc_pc :: "nat \<Rightarrow> complete_pc"
  cc_reports :: "nat list"

definition moveTo :: "nat \<Rightarrow> complete_pc \<Rightarrow> 'r complete_conf \<Rightarrow> 'r complete_conf" where
  "moveTo i pc c = c\<lparr>cc_pc := (cc_pc c)(i := pc)\<rparr>"

inductive complete_step ::
  "('f \<Rightarrow> 'r todo_repository) \<Rightarrow> ('r \<Rightarrow> bool) \<Rightarrow> ('r \<Rightarrow> todo scoped_map) \<Rightarrow> string \<Rightarrow> string \<Rightarrow>
     'r complete_conf \<Rightarrow> 'r complete_conf \<Rightarrow> bool"
  for repo rinv todos s k where
  lock: "cc_pc c i = Waiting \<Longrightarrow> cc_lock c = None \<Longrightarrow>
     complete_step repo rinv todos s k c (moveTo i Holding (c\<lparr>cc_lock := Some i\<rparr>))"
| load_fails: "cc_pc c i = Holding \<Longrightarrow> TodoByID (repo f) (cc_repo c) s k = Inl e \<Longrightarrow>
     complete_step repo rinv todos s k c (moveTo i (Released (Inl e)) (c\<lparr>cc_lock := None\<rparr>))"
| load_done: "cc_pc c i = Holding \<Longrightarrow> TodoByID (repo f) (cc_repo c) s k = Inr t \<Longrightarrow> td_Status t = TodoDone \<Longrightarrow>
     complete_step repo rinv todos s k c (moveTo i (Released (Inr (t, False))) (c\<lparr>cc_lock := None\<rparr>))"
| load_open: "cc_pc c i = Holding \<Longrightarrow> TodoByID (repo f) (cc_repo c) s k = Inr t \<Longrightarrow> td_Status t \<noteq> TodoDone \<Longrightarrow>
     complete_step repo rinv todos s k c (moveTo i (Loaded t) c)"
| save: "cc_pc c i = Loaded t \<Longrightarrow> t' = t\<lparr>td_Status := TodoDone, td_UpdatedAt := now\<rparr> \<Longrightarrow>
     SaveTodo (repo f) (cc_repo c) s t' = (r', out) \<Longrightarrow>
     complete_step repo rinv todos s k c
       (moveTo i (Released (case out of Inl e \<Rightarrow> Inl e | Inr _ \<Rightarrow> Inr (t', True)))
         (c\<lparr>cc_repo := r', cc_lock := None\<rparr>))"
| report: "cc_pc c i = Released (Inr (t, True)) \<Longrightarrow>
     complete_step repo rinv todos s k c (moveTo i (Returned (Inr t)) (c\<lparr>cc_reports := cc_reports c @ [i]\<rparr>))"
| return_done: "cc_pc c i = Released (Inr (t, False)) \<Longrightarrow>
     complete_step repo rinv todos s k c (moveTo i (Returned (Inr t)) c)"
| return_error: "cc_pc c i = Released (Inl e) \<Longrightarrow>
     complete_step repo rinv todos s k c (moveTo i (Returned (Inl e)) c)"
| other: "rinv r' \<Longrightarrow> todos r' s k = todos (cc_repo c) s k \<Longrightarrow>
     complete_step repo rinv todos s k c (c\<lparr>cc_repo := r'\<rparr>)"

definition complete_start :: "'r \<Rightarrow> 'r complete_conf" where
  "complete_start r = \<lparr>cc_repo = r, cc_lock = None, cc_pc = (\<lambda>_. Waiting), cc_reports = []\<rparr>"

text \<open>The invariant: a thread inside the critical section holds the lock; as long as the todo is open no
  thread has completed it; once it is done exactly one thread has, and only that one reports.\<close>

definition completes :: "'r complete_conf \<Rightarrow> nat \<Rightarrow> bool" where
  "completes c i \<longleftrightarrow> (\<exists>t. cc_pc c i = Released (Inr (t, True))) \<or> i \<in> set (cc_reports c)"

definition succeeds :: "'r complete_conf \<Rightarrow> nat \<Rightarrow> bool" where
  "succeeds c i \<longleftrightarrow> (\<exists>t b. cc_pc c i = Released (Inr (t, b))) \<or> (\<exists>t. cc_pc c i = Returned (Inr t))"

definition is_done :: "todo option \<Rightarrow> bool" where
  "is_done t \<longleftrightarrow> (\<exists>x. t = Some x \<and> td_Status x = TodoDone)"

definition is_open :: "todo option \<Rightarrow> bool" where
  "is_open t \<longleftrightarrow> (\<exists>x. t = Some x \<and> td_Status x \<noteq> TodoDone)"

definition complete_phase :: "todo option \<Rightarrow> 'r complete_conf \<Rightarrow> bool" where
  "complete_phase t c \<longleftrightarrow>
     is_open t \<and> (\<forall>i. \<not> succeeds c i) \<or> is_done t \<and> (\<exists>i. \<forall>j. completes c j \<longleftrightarrow> j = i)"

definition complete_inv ::
  "('r \<Rightarrow> bool) \<Rightarrow> ('r \<Rightarrow> todo scoped_map) \<Rightarrow> string \<Rightarrow> string \<Rightarrow> 'r complete_conf \<Rightarrow> bool" where
  "complete_inv rinv todos s k c \<longleftrightarrow>
     rinv (cc_repo c) \<and>
     (\<forall>i. cc_lock c = Some i \<longleftrightarrow> cc_pc c i = Holding \<or> (\<exists>t. cc_pc c i = Loaded t)) \<and>
     (\<forall>i t. cc_pc c i = Loaded t \<longrightarrow> todos (cc_repo c) s k = Some t \<and> td_Status t \<noteq> TodoDone) \<and>
     distinct (cc_reports c) \<and> (\<forall>i \<in> set (cc_reports c). \<exists>t. cc_pc c i = Returned (Inr t)) \<and>
     complete_phase (todos (cc_repo c) s k) c"

lemma moveTo_simps [simp]:
  "cc_repo (moveTo i pc c) = cc_repo c" "cc_lock (moveTo i pc c) = cc_lock c"
  "cc_reports (moveTo i pc c) = cc_reports c" "cc_pc (moveTo i pc c) j = (if j = i then pc else cc_pc c j)"
  by (simp_all add: moveTo_def)

lemma completes_succeeds:
  "completes c i \<Longrightarrow> \<forall>i \<in> set (cc_reports c). \<exists>t. cc_pc c i = Returned (Inr t) \<Longrightarrow> succeeds c i"
  by (auto simp: completes_def succeeds_def)

text \<open>A move that neither completes the todo nor comes from completing it leaves the phase alone, unless it
  is a success while the todo is open.\<close>

lemma complete_phase_move:
  assumes "complete_phase t c" and "completes c' = completes c"
    and "\<And>i. succeeds c' i \<Longrightarrow> succeeds c i \<or> is_done t"
  shows "complete_phase t c'"
  using assms unfolding complete_phase_def by (auto simp: is_open_def is_done_def)

lemma completes_move:
  assumes "cc_reports c' = cc_reports c" and "\<And>j. j \<noteq> i \<Longrightarrow> cc_pc c' j = cc_pc c j"
    and "\<And>t. cc_pc c i \<noteq> Released (Inr (t, True))" and "\<And>t. cc_pc c' i \<noteq> Released (Inr (t, True))"
  shows "completes c' = completes c"
proof
  fix j show "completes c' j = completes c j"
    using assms by (cases "j = i") (auto simp: completes_def)
qed

lemma complete_exclusive:
  assumes "complete_inv rinv todos s k c" and "cc_pc c i = Holding \<or> cc_pc c i = Loaded t" and "j \<noteq> i"
  shows "cc_pc c j \<noteq> Holding \<and> cc_pc c j \<noteq> Loaded t'"
  using assms unfolding complete_inv_def by (metis option.inject)

context todo_store
begin

lemma complete_start_inv:
  "rinv r \<Longrightarrow> todos r s k = Some t \<Longrightarrow> td_Status t \<noteq> TodoDone \<Longrightarrow> complete_inv rinv todos s k (complete_start r)"
  by (simp add: complete_inv_def complete_start_def complete_phase_def succeeds_def is_open_def)

lemma complete_load:
  assumes "complete_inv rinv todos s k c" and "TodoByID (repo f) (cc_repo c) s k = Inr t"
  shows "todos (cc_repo c) s k = Some t"
  using todo_by_id [where r = "cc_repo c" and f = f and s = s and k = k] assms by (simp add: complete_inv_def)

lemma complete_step_inv:
  assumes "complete_step repo rinv todos s k c c'" and "complete_inv rinv todos s k c"
  shows "complete_inv rinv todos s k c'"
  using assms
proof (induction rule: complete_step.induct)
  case (lock c i)
  let ?c = "moveTo i Holding (c\<lparr>cc_lock := Some i\<rparr>)"
  have "complete_phase (todos (cc_repo c) s k) ?c"
    by (rule complete_phase_move [OF _ completes_move [of ?c c i]])
      (use lock in \<open>auto simp: complete_inv_def succeeds_def split: if_splits\<close>)
  with lock show ?case by (auto simp: complete_inv_def)
next
  case (load_fails c i f e)
  let ?c = "moveTo i (Released (Inl e)) (c\<lparr>cc_lock := None\<rparr>)"
  have "complete_phase (todos (cc_repo c) s k) ?c"
    by (rule complete_phase_move [OF _ completes_move [of ?c c i]])
      (use load_fails in \<open>auto simp: complete_inv_def succeeds_def split: if_splits\<close>)
  moreover have "cc_pc c j \<noteq> Holding \<and> cc_pc c j \<noteq> Loaded x" if "j \<noteq> i" for j x
    using complete_exclusive [OF load_fails(3) _ that] load_fails(1) by blast
  ultimately show ?case using load_fails(1,3) by (auto simp: complete_inv_def)
next
  case (load_done c i f t)
  let ?c = "moveTo i (Released (Inr (t, False))) (c\<lparr>cc_lock := None\<rparr>)"
  have "is_done (todos (cc_repo c) s k)"
    using complete_load [OF load_done(4) load_done(2)] load_done(3) by (simp add: is_done_def)
  then have "complete_phase (todos (cc_repo c) s k) ?c"
    by (intro complete_phase_move [OF _ completes_move [of ?c c i]])
      (use load_done in \<open>auto simp: complete_inv_def\<close>)
  moreover have "cc_pc c j \<noteq> Holding \<and> cc_pc c j \<noteq> Loaded x" if "j \<noteq> i" for j x
    using complete_exclusive [OF load_done(4) _ that] load_done(1) by blast
  ultimately show ?case using load_done(1,4) by (auto simp: complete_inv_def)
next
  case (load_open c i f t)
  let ?c = "moveTo i (Loaded t) c"
  have "complete_phase (todos (cc_repo c) s k) ?c"
    by (rule complete_phase_move [OF _ completes_move [of ?c c i]])
      (use load_open in \<open>auto simp: complete_inv_def succeeds_def split: if_splits\<close>)
  with load_open complete_load [OF load_open(4) load_open(2)] show ?case by (auto simp: complete_inv_def)
next
  case (save c i t t' now f r' out)
  from save have inv: "rinv (cc_repo c)" and t: "todos (cc_repo c) s k = Some t" "td_Status t \<noteq> TodoDone"
    by (auto simp: complete_inv_def)
  have id: "td_ID t' = k" using todo_ids [OF inv t(1)] save(2) by simp
  from t save(4) have none: "\<not> succeeds c j" for j
    by (auto simp: complete_inv_def complete_phase_def is_done_def)
  have only: "cc_pc c j \<noteq> Holding \<and> cc_pc c j \<noteq> Loaded x" if "j \<noteq> i" for j x
    using complete_exclusive [OF save(4) _ that] save(1) by blast
  from none save(4) have reports: "cc_reports c = []"
    by (cases "cc_reports c") (auto simp: complete_inv_def succeeds_def)
  from save_todo [OF inv save(3)] show ?case
  proof (elim conjE disjE exE)
    assume "rinv r'" "out = Inr ()" "todos r' = upsert (todos (cc_repo c)) s (td_ID t') t'"
    moreover have "completes (moveTo i (Released (Inr (t', True))) (c\<lparr>cc_repo := r', cc_lock := None\<rparr>)) j \<longleftrightarrow> j = i" for j
      using none [of j] reports by (auto simp: completes_def succeeds_def)
    ultimately show ?thesis
      using only reports save(2) id
      by (auto simp: complete_inv_def complete_phase_def is_done_def upsert_apply)
  next
    fix e assume "out = Inl e" "r' = cc_repo c"
    then show ?thesis
      using only reports none t inv
      by (auto simp: complete_inv_def complete_phase_def is_open_def succeeds_def split: if_splits)
  qed
next
  case (report c i t)
  let ?c = "moveTo i (Returned (Inr t)) (c\<lparr>cc_reports := cc_reports c @ [i]\<rparr>)"
  have "completes ?c = completes c" using report(1) by (auto simp: completes_def fun_eq_iff)
  then have "complete_phase (todos (cc_repo c) s k) ?c"
    by (rule complete_phase_move [rotated]) (use report in \<open>auto simp: complete_inv_def succeeds_def split: if_splits\<close>)
  with report show ?case by (auto simp: complete_inv_def)
next
  case (return_done c i t)
  let ?c = "moveTo i (Returned (Inr t)) c"
  have "complete_phase (todos (cc_repo c) s k) ?c"
    by (rule complete_phase_move [OF _ completes_move [of ?c c i]])
      (use return_done in \<open>auto simp: complete_inv_def succeeds_def split: if_splits\<close>)
  with return_done show ?case by (auto simp: complete_inv_def)
next
  case (return_error c i e)
  let ?c = "moveTo i (Returned (Inl e)) c"
  have "complete_phase (todos (cc_repo c) s k) ?c"
    by (rule complete_phase_move [OF _ completes_move [of ?c c i]])
      (use return_error in \<open>auto simp: complete_inv_def succeeds_def split: if_splits\<close>)
  with return_error show ?case by (auto simp: complete_inv_def)
next
  case (other r' c)
  then show ?case by (simp add: complete_inv_def complete_phase_def completes_def succeeds_def)
qed

lemma complete_reports:
  assumes "(complete_step repo rinv todos s k)\<^sup>*\<^sup>* (complete_start r) c"
    and "rinv r" and "todos r s k = Some t" and "td_Status t \<noteq> TodoDone"
  shows "length (cc_reports c) \<le> 1 \<and>
    (\<forall>i t'. cc_pc c i = Returned (Inr t') \<longrightarrow> is_done (todos (cc_repo c) s k) \<and> (\<exists>!j. completes c j))"
proof -
  from assms(1) have inv: "complete_inv rinv todos s k c"
    by (induction rule: rtranclp_induct)
      (use complete_start_inv [OF assms(2-4)] complete_step_inv in blast)+
  have one: "i = j" if "i \<in> set (cc_reports c)" "j \<in> set (cc_reports c)" for i j
  proof -
    have "succeeds c i" using that inv by (auto simp: complete_inv_def succeeds_def)
    with inv have "\<exists>i. \<forall>j. completes c j \<longleftrightarrow> j = i" by (auto simp: complete_inv_def complete_phase_def)
    moreover have "completes c i" "completes c j" using that by (simp_all add: completes_def)
    ultimately show ?thesis by metis
  qed
  have "card (set (cc_reports c)) \<le> Suc 0" using one by (simp add: card_le_Suc0_iff_eq)
  then have "length (cc_reports c) \<le> 1" using inv by (simp add: complete_inv_def distinct_card)
  moreover have "is_done (todos (cc_repo c) s k) \<and> (\<exists>!j. completes c j)" if "cc_pc c i = Returned (Inr t')" for i t'
  proof -
    have "succeeds c i" using that by (auto simp: succeeds_def)
    with inv show ?thesis by (auto simp: complete_inv_def complete_phase_def)
  qed
  ultimately show ?thesis by blast
qed

end

section \<open>Properties\<close>

lemma suggestion_fingerprint_unique:
  assumes "todo_pg_inv db" and "pg_suggestions db s i = Some g" and "pg_suggestions db s j = Some h"
    and "sg_Fingerprint g = sg_Fingerprint h"
  shows "i = j"
proof -
  from assms(2,3) obtain a b where ab: "mget (tt_suggestions db) (s, i) = Some a" "sr_payload a = g"
    "mget (tt_suggestions db) (s, j) = Some b" "sr_payload b = h" by (auto simp: pg_suggestions_def)
  with suggestion_rows_spec(1) [OF assms(1) map_of_SomeD] assms(4)
  have "sr_fingerprint a = sr_fingerprint b" by metis
  with ab assms(1) show ?thesis unfolding todo_pg_inv_def unique_fingerprints_def by metis
qed



text \<open>A refresh adds suggestions only: each is pending, under a new identifier, for a listed note that
  the scope has never suggested before, accepted or dismissed notes included; the returned count is their
  number; todos and the lake are untouched.  On a store that does not fail and without a rewriter every
  listed note has its suggestion afterwards.\<close>

theorem RefreshSuggestions_dedup:
  assumes "service_over postgres_todo_repository S" and "todo_pg_inv (tw_repo w)"
    and "fresh_ids (sv_newID S) (pg_suggestions (tw_repo w))"
    and "RefreshSuggestions S w s = (w', Inr n)"
  shows "\<exists>new items. sv_notes S s 50 = Inr items \<and> n = int (length new) \<and>
    pg_todos (tw_repo w') = pg_todos (tw_repo w) \<and> tw_lake w' = tw_lake w \<and>
    pg_suggestions (tw_repo w') = put_all s new (pg_suggestions (tw_repo w)) \<and> distinct (map sg_ID new) \<and>
    subseq (map sg_Fingerprint new) (map ai_NoteID items) \<and>
    (\<forall>g \<in> set new. sg_Status g = SuggestionPending \<and> pg_suggestions (tw_repo w) s (sg_ID g) = None \<and>
       \<not> suggested (pg_suggestions (tw_repo w)) s (sg_Fingerprint g)) \<and>
    ((\<forall>i. sv_repo S i = postgres_todo_repository no_driver_fault) \<longrightarrow> sv_rewriter S = None \<longrightarrow>
       (\<forall>item \<in> set items. suggested (pg_suggestions (tw_repo w')) s (ai_NoteID item)))"
proof -
  from pg_store.RefreshSuggestions_spec [OF assms] obtain new items where
    spec: "sv_notes S s 50 = Inr items" "pg_todos (tw_repo w') = pg_todos (tw_repo w)"
      "pg_suggestions (tw_repo w') = put_all s new (pg_suggestions (tw_repo w))" "n = int (length new)"
      "distinct (map sg_ID new)" "subseq (map sg_Fingerprint new) (map ai_NoteID items)"
    and each: "\<forall>g \<in> set new. sg_Status g = SuggestionPending \<and>
      (\<forall>s'. pg_suggestions (tw_repo w) s' (sg_ID g) = None) \<and>
      (\<forall>k g'. pg_suggestions (tw_repo w) s k = Some g' \<longrightarrow> sg_Fingerprint g' \<noteq> sg_Fingerprint g)" by blast
  have "tw_lake w' = tw_lake w"
    using assms(4) by (auto simp: RefreshSuggestions_def split: if_splits prod.splits)
  moreover have "\<forall>item \<in> set items. suggested (pg_suggestions (tw_repo w')) s (ai_NoteID item)"
    if "\<forall>i. sv_repo S i = postgres_todo_repository no_driver_fault" "sv_rewriter S = None"
    using pg_healthy.RefreshSuggestions_covers [OF that assms(2-4) spec(1)] by blast
  moreover have "\<forall>g \<in> set new. sg_Status g = SuggestionPending \<and> pg_suggestions (tw_repo w) s (sg_ID g) = None \<and>
       \<not> suggested (pg_suggestions (tw_repo w)) s (sg_Fingerprint g)"
    using each by (auto simp: suggested_def)
  ultimately show ?thesis using spec by (intro exI [of _ new] exI [of _ items]) simp
qed

text \<open>C32. Accepting converges: an accept that fails anywhere leaves the suggestion as it was, reports
  nothing and touches at most the todo under the derived identifier; whatever happens before the retry,
  while the suggestion is pending a retry on a store that does not fail succeeds, keeps a todo that is
  already there unchanged, completed or not, creates it otherwise, and marks the suggestion accepted.\<close>

theorem AcceptSuggestion_converges:
  assumes "service_over postgres_todo_repository S" and "todo_pg_inv (tw_repo w)"
    and "AcceptSuggestion S w s u k = (w1, Inl e)"
    and "todo_reaches postgres_todo_repository pg_todos pg_suggestions w1 w2"
    and "\<forall>i. sv_repo S' i = postgres_todo_repository no_driver_fault" and "\<not> blank s" and "\<not> blank u'"
    and "pg_suggestions (tw_repo w2) s k = Some g" and "sg_Status g = SuggestionPending"
  shows "pg_suggestions (tw_repo w1) = pg_suggestions (tw_repo w) \<and> tw_lake w1 = tw_lake w \<and>
    (\<forall>s' k'. (s', k') \<noteq> (s, acceptedTodoID k) \<longrightarrow> pg_todos (tw_repo w1) s' k' = pg_todos (tw_repo w) s' k') \<and>
    (\<exists>w3 t. AcceptSuggestion S' w2 s u' k = (w3, Inr t) \<and>
       pg_todos (tw_repo w3) = upsert (pg_todos (tw_repo w2)) s (acceptedTodoID k) t \<and>
       (case pg_todos (tw_repo w2) s (acceptedTodoID k) of
          Some t0 \<Rightarrow> t = t0
        | None \<Rightarrow> td_Status t = TodoOpen \<and> td_SuggestionID t = k \<and> td_NoteID t = sg_NoteID g \<and> td_CreatedBy t = u') \<and>
       pg_suggestions (tw_repo w3) = upsert (pg_suggestions (tw_repo w2)) s k
         (g\<lparr>sg_Status := SuggestionAccepted, sg_UpdatedAt := sv_clock S' 0\<rparr>))"
proof -
  have "todo_pg_inv (tw_repo w1)"
    using pg_store.AcceptSuggestion_good [OF assms(1-3)] by (simp add: pg_store.good_step_def)
  then have "todo_pg_inv (tw_repo w2)"
    using pg_store.todo_reaches_good [OF assms(4)] by (simp add: pg_store.good_step_def)
  from pg_healthy.AcceptSuggestion_ok [OF assms(5) this assms(6-9)]
    pg_store.AcceptSuggestion_failed [OF assms(1-3)] show ?thesis by blast
qed

section \<open>From the todo list to the evidence lake\<close>

lemma reportStreamEvent_wf:
  "\<not> blank (re_UserID event) \<Longrightarrow> re_OccurredAt event \<noteq> 0 \<Longrightarrow>
     ValidateStreamBatch \<lparr>stb_Events = [reportStreamEvent nid event], stb_Complete = c\<rparr> = Inr ()"
proof -
  assume user: "\<not> blank (re_UserID event)" and at: "re_OccurredAt event \<noteq> 0"
  have "\<not> blank (''app-todo-'' @ nid)" "\<not> blank ''app-todo''"
    by (rule not_blank; simp add: space_encodings_def)+
  with user at have "wf_stream_event reportStream (reportStreamEvent nid event)"
    by (simp add: wf_stream_event_def reportStreamEvent_def reportStream_def registeredEventTypes_def
        registeredAuthorKinds_def)
  moreover have "se_Stream (reportStreamEvent nid event) = reportStream" by (simp add: reportStreamEvent_def)
  ultimately show ?thesis
    using \<open>\<not> blank ''app-todo''\<close>
    by (simp add: ValidateStreamBatch_def validateStreamEvent_ok reportStream_def
        validateStreamEvent_ok [THEN iffD2])
qed

lemma Report_lands:
  assumes "pg_inv db" and "\<not> blank s" and "\<not> blank (re_UserID event)" and "re_OccurredAt event \<noteq> 0"
    and new: "\<not> event_present (trim_space s) (pg_events db) (''app-todo-'' @ nid)"
  shows "\<exists>db' n. Report (ObserveStream (postgres_repository no_fault now)) nid ctx db s event = (db', Inr ()) \<and>
    pg_inv db' \<and> streamRow (trim_space s) reportStream now n (reportStreamEvent nid event) \<in> set (pg_events db')"
proof -
  let ?b = "\<lparr>stb_Events = [reportStreamEvent nid event], stb_Complete = False\<rparr>"
  have valid: "ValidateStreamBatch ?b = Inr ()" by (rule reportStreamEvent_wf [OF assms(3,4)])
  have stream: "se_Stream (hd (stb_Events ?b)) = reportStream" by (simp add: reportStreamEvent_def)
  have src: "Source reportStream \<noteq> SourceAgentSession"
    by (simp add: reportStream_def SourceAppTodo_def SourceAgentSession_def)
  obtain db' receipt where tx: "appendStreamTx no_fault now db (trim_space s) reportStream ?b = Inr (db', receipt)"
    using appendStreamTx_live [OF assms(1) src] by blast
  have "pgAppendStream no_fault now db (trim_space s) ?b = (db', Inr receipt)"
    using valid tx by (simp add: pgAppendStream_def stream step_def no_fault_def reportStreamEvent_def)
  moreover have "s \<noteq> []" using assms(2) by auto
  ultimately have run: "Report (ObserveStream (postgres_repository no_fault now)) nid ctx db s event = (db', Inr ())"
    using valid assms(2) by (simp add: Report_def ObserveStream_def ScopeFromContext_WithScope postgres_repository_def)
  from appendStreamTx_spec [OF tx assms(1) src] obtain rows where
    inv: "pg_inv db'" and rows: "pg_events db' = pg_events db @ rows"
      "\<forall>r \<in> set rows. r = streamRow (trim_space s) reportStream now (row_sequence r) (reportStreamEvent nid event)"
    and "event_present (trim_space s) (pg_events db') (''app-todo-'' @ nid)"
    by (auto simp: reportStreamEvent_def)
  with new obtain r where "r \<in> set rows" by (auto simp: event_present_def)
  with rows have "streamRow (trim_space s) reportStream now (row_sequence r) (reportStreamEvent nid event) \<in> set (pg_events db')"
    by (metis Un_iff set_append)
  with run inv show ?thesis by blast
qed

text \<open>C33. Completing a todo becomes team evidence: on stores that do not fail, completing an open todo
  leaves it done and stores in the evidence lake, in the stream of the todo application of that scope, a
  text event authored by the completing user that quotes the todo's title and names the todo.\<close>

theorem CompleteTodo_evidence:
  assumes "\<forall>i. sv_repo S i = postgres_todo_repository no_driver_fault"
    and "sv_report S = Report (ObserveStream (postgres_repository no_fault now)) nid ctx"
    and "todo_pg_inv (tw_repo w)" and "pg_inv (tw_lake w)" and "\<not> blank s" and "\<not> blank u"
    and "pg_todos (tw_repo w) s k = Some t" and "td_Status t \<noteq> TodoDone" and "sv_clock S 1 \<noteq> 0"
    and "\<not> event_present (trim_space s) (pg_events (tw_lake w)) (''app-todo-'' @ nid)"
  shows "\<exists>w' t' row. CompleteTodo S w s u k = (w', Inr t') \<and> td_Status t' = TodoDone \<and>
    pg_todos (tw_repo w') s k = Some t' \<and> row \<in> set (pg_events (tw_lake w')) \<and> pg_inv (tw_lake w') \<and>
    row_scope row = trim_space s \<and> row_source row = SourceAppTodo \<and>
    row_content row = ''User completed todo '' @ quote (td_Title t) @ ''.'' \<and>
    Kind (row_author row) = ''user'' \<and> AuthorUserID (row_author row) = u \<and>
    mget (row_metadata row) ''event_type'' = Some EventTodoCompleted"
proof -
  let ?t = "t\<lparr>td_Status := TodoDone, td_UpdatedAt := sv_clock S 0\<rparr>"
  let ?e = "completionEvent u k ?t (sv_clock S 1)"
  from pg_healthy.CompleteTodo_ok [OF assms(1,3,5-8)] obtain w' where
    run: "CompleteTodo S w s u k = (w', Inr ?t)" and todos: "pg_todos (tw_repo w') s k = Some ?t"
    and lake: "tw_lake w' = fst (sv_report S (tw_lake w) s ?e)" by (auto simp: upsert_apply)
  have "\<not> blank (re_UserID ?e)" "re_OccurredAt ?e \<noteq> 0" using assms(6,9) by (simp_all add: completionEvent_def)
  from Report_lands [OF assms(4,5) this assms(10), of now ctx] lake obtain n where
    "streamRow (trim_space s) reportStream now n (reportStreamEvent nid ?e) \<in> set (pg_events (tw_lake w'))"
    "pg_inv (tw_lake w')" by (auto simp: assms(2))
  with run todos show ?thesis
    by (intro exI [of _ w'] exI [of _ ?t] exI [of _ "streamRow (trim_space s) reportStream now n (reportStreamEvent nid ?e)"])
      (simp add: streamRow_def reportStream_def reportStreamEvent_def completionEvent_def reportMetadata_def
        EventTodoCompleted_def)
qed

section \<open>Witnesses\<close>

definition demo_todo :: todo where
  "demo_todo = \<lparr>td_ID = ''t1'', td_Title = ''Ship'', td_Body = [], td_Status = TodoOpen,
     td_Source = TodoSourceManual, td_SuggestionID = [], td_NoteID = [], td_CreatedBy = ''ann'',
     td_CreatedAt = 5, td_UpdatedAt = 5\<rparr>"

definition demo_suggestion :: suggestion where
  "demo_suggestion = \<lparr>sg_ID = ''g1'', sg_Fingerprint = ''n1'', sg_NoteID = ''n1'', sg_Kind = ''blocker'',
     sg_Title = ''Unblock'', sg_Body = [], sg_Status = SuggestionPending, sg_CreatedAt = 5, sg_UpdatedAt = 5\<rparr>"

definition demo_tables :: todo_tables where
  "demo_tables = fst (pgSaveSuggestion no_driver_fault (fst (pgSaveTodo no_driver_fault emptyTodoTables ''team'' demo_todo))
     ''team'' demo_suggestion)"

definition demo_item :: "string \<Rightarrow> action_item" where
  "demo_item n = \<lparr>ai_NoteID = n, ai_Kind = ''blocker'', ai_Subject = ''Fix'', ai_Body = [], ai_UpdatedAt = 4\<rparr>"

text \<open>A service over the tables whose repository calls fail as \<open>fault\<close> says and that reports to a database.\<close>

definition demo_service :: "(nat \<Rightarrow> driver_fault) \<Rightarrow> (todo_tables, pg) todo_service" where
  "demo_service fault = \<lparr>sv_repo = (\<lambda>i. postgres_todo_repository (fault i)),
     sv_notes = (\<lambda>_ _. Inr [demo_item ''n1'', demo_item ''n2'']), sv_rewriter = None,
     sv_report = Report (ObserveStream (postgres_repository no_fault 90)) ''r1'' \<lparr>ctx_scope = None, ctx_err = None\<rparr>,
     sv_clock = (\<lambda>i. 10 + int i), sv_newID = (\<lambda>i. CHR ''x'' # replicate i CHR ''i'')\<rparr>"

definition demo_world :: "(todo_tables, pg) todo_world" where
  "demo_world = \<lparr>tw_repo = demo_tables, tw_lake = emptyDatabase, tw_refreshing = []\<rparr>"

lemma demo_tables_eq:
  "demo_tables = \<lparr>tt_todos = [((''team'', ''t1''), \<lparr>tr_status = TodoOpen, tr_payload = demo_todo, tr_updated = 0\<rparr>)],
     tt_suggestions = [((''team'', ''g1''), \<lparr>sr_fingerprint = ''n1'', sr_status = SuggestionPending,
       sr_payload = demo_suggestion, sr_updated = 0\<rparr>)]\<rparr>"
  by (simp add: demo_tables_def pgSaveTodo_def pgSaveSuggestion_def no_driver_fault_def emptyTodoTables_def
      demo_todo_def demo_suggestion_def timestamptz_def)

lemma demo_tables_inv: "todo_pg_inv demo_tables"
  by (simp add: demo_tables_eq todo_pg_inv_def unique_fingerprints_def demo_todo_def demo_suggestion_def
      timestamptz_def)

lemma demo_lookups:
  "pg_todos demo_tables s k = (if s = ''team'' \<and> k = ''t1'' then Some demo_todo else None)"
  "pg_suggestions demo_tables s k = (if s = ''team'' \<and> k = ''g1'' then Some demo_suggestion else None)"
  by (simp_all add: pg_todos_def pg_suggestions_def demo_tables_eq)

lemma demo_service_over: "service_over postgres_todo_repository (demo_service fault)"
  by (auto simp: service_over_def demo_service_def)

lemma demo_backed: "accepted_backed (pg_todos demo_tables) (pg_suggestions demo_tables)"
  by (simp add: accepted_backed_def demo_lookups demo_suggestion_def todo_consts)

lemma demo_not_blank: "\<not> blank ''team''" "\<not> blank ''ann''"
  by (rule not_blank; simp add: space_encodings_def)+

lemma demo_status: "td_Status demo_todo \<noteq> TodoDone" "sg_Status demo_suggestion = SuggestionPending"
  by (simp_all add: demo_todo_def demo_suggestion_def todo_consts)

text \<open>Two threads: the first loads, completes and reports, the second finds the todo done.\<close>

definition demo_done :: todo where
  "demo_done = demo_todo\<lparr>td_Status := TodoDone, td_UpdatedAt := 7\<rparr>"

definition demo_conf :: "todo_tables complete_conf" where
  "demo_conf = \<lparr>cc_repo = fst (pgSaveTodo no_driver_fault demo_tables ''team'' demo_done), cc_lock = None,
     cc_pc = (\<lambda>_. Waiting)(0 := Returned (Inr demo_done), 1 := Returned (Inr demo_done)), cc_reports = [0]\<rparr>"

lemma demo_conf_reached:
  "(complete_step postgres_todo_repository todo_pg_inv pg_todos ''team'' ''t1'')\<^sup>*\<^sup>* (complete_start demo_tables) demo_conf"
proof -
  let ?step = "complete_step postgres_todo_repository todo_pg_inv pg_todos ''team'' ''t1''"
  let ?f = no_driver_fault
  define db where "db = fst (pgSaveTodo ?f demo_tables ''team'' demo_done)"
  have save: "SaveTodo (postgres_todo_repository ?f) demo_tables ''team'' demo_done = (db, Inr ())"
    by (simp add: db_def postgres_todo_repository_def pgSaveTodo_def no_driver_fault_def)
  have load: "TodoByID (postgres_todo_repository ?f) demo_tables ''team'' ''t1'' = Inr demo_todo"
    by (simp add: postgres_todo_repository_def pgTodoByID_def no_driver_fault_def demo_tables_eq)
  have load': "TodoByID (postgres_todo_repository ?f) db ''team'' ''t1'' = Inr demo_done"
    by (simp add: postgres_todo_repository_def pgTodoByID_def no_driver_fault_def db_def pgSaveTodo_def
        demo_tables_eq demo_done_def demo_todo_def)
  let ?conf = "\<lambda>r l p0 p1 n. \<lparr>cc_repo = r, cc_lock = l, cc_pc = (\<lambda>_. Waiting)(0 := p0, 1 := p1), cc_reports = n\<rparr>"
  have start: "complete_start demo_tables = ?conf demo_tables None Waiting Waiting []"
    by (simp add: complete_start_def fun_eq_iff)
  have 1: "?step (?conf demo_tables None Waiting Waiting []) (?conf demo_tables (Some 0) Holding Waiting [])"
    by (rule back_subst [of "?step _", OF complete_step.lock [of _ 0]]) (simp_all add: moveTo_def fun_upd_twist)
  have 2: "?step (?conf demo_tables (Some 0) Holding Waiting []) (?conf demo_tables (Some 0) (Loaded demo_todo) Waiting [])"
    by (rule back_subst [of "?step _", OF complete_step.load_open [of _ 0 _ ?f _ _ demo_todo]])
      (simp_all add: moveTo_def load demo_status fun_upd_twist)
  have 3: "?step (?conf demo_tables (Some 0) (Loaded demo_todo) Waiting [])
      (?conf db None (Released (Inr (demo_done, True))) Waiting [])"
    by (rule back_subst [of "?step _", OF complete_step.save [of _ 0 demo_todo demo_done 7 _ ?f _ db "Inr ()"]])
      (simp_all add: moveTo_def save fun_upd_twist, simp add: demo_done_def)
  have 4: "?step (?conf db None (Released (Inr (demo_done, True))) Waiting [])
      (?conf db None (Returned (Inr demo_done)) Waiting [0])"
    by (rule back_subst [of "?step _", OF complete_step.report [of _ 0 demo_done]]) (simp_all add: moveTo_def fun_upd_twist)
  have 5: "?step (?conf db None (Returned (Inr demo_done)) Waiting [0])
      (?conf db (Some 1) (Returned (Inr demo_done)) Holding [0])"
    by (rule back_subst [of "?step _", OF complete_step.lock [of _ 1]]) (simp_all add: moveTo_def)
  have 6: "?step (?conf db (Some 1) (Returned (Inr demo_done)) Holding [0])
      (?conf db None (Returned (Inr demo_done)) (Released (Inr (demo_done, False))) [0])"
    by (rule back_subst [of "?step _", OF complete_step.load_done [of _ 1 _ ?f _ _ demo_done]])
      (simp_all add: moveTo_def load', simp add: demo_done_def)
  have 7: "?step (?conf db None (Returned (Inr demo_done)) (Released (Inr (demo_done, False))) [0])
      (?conf db None (Returned (Inr demo_done)) (Returned (Inr demo_done)) [0])"
    by (rule back_subst [of "?step _", OF complete_step.return_done [of _ 1 demo_done]]) (simp_all add: moveTo_def)
  show ?thesis
    unfolding start demo_conf_def db_def [symmetric]
    using 1 2 3 4 5 6 7 by (meson converse_rtranclp_into_rtranclp rtranclp.rtrancl_refl)
qed


lemma demo_fresh:
  "fresh_ids (sv_newID (demo_service fault)) (pg_todos demo_tables)"
  "fresh_ids (sv_newID (demo_service fault)) (pg_suggestions demo_tables)"
  by (auto simp: fresh_ids_def demo_service_def demo_lookups inj_def dest: arg_cong [where f = length])

abbreviation healthy :: "(todo_tables, pg) todo_service" where
  "healthy \<equiv> demo_service (\<lambda>_. no_driver_fault)"

lemma demo_healthy: "\<forall>i. sv_repo healthy i = postgres_todo_repository no_driver_fault"
  by (simp add: demo_service_def)


theorem RefreshSuggestions_dedup_witness:
  "\<exists>w'. RefreshSuggestions healthy demo_world ''team'' = (w', Inr 1) \<and>
     (\<exists>g. pg_suggestions (tw_repo w') = put_all ''team'' [g] (pg_suggestions demo_tables) \<and>
        sg_Status g = SuggestionPending \<and> \<not> suggested (pg_suggestions demo_tables) ''team'' (sg_Fingerprint g)) \<and>
     suggested (pg_suggestions (tw_repo w')) ''team'' ''n2''"
proof -
  have "snd (RefreshSuggestions healthy demo_world ''team'') = Inr 1"
    using demo_not_blank
    by (simp add: RefreshSuggestions_def refreshLocked_def demo_world_def demo_service_def demo_tables_eq
        postgres_todo_repository_def pgSuggestionFingerprints_def no_driver_fault_def demo_item_def
        rewriteItem_def pgSaveSuggestion_def pendingSuggestion_def split: prod.splits)
  then obtain w' where run: "RefreshSuggestions healthy demo_world ''team'' = (w', Inr 1)" by (metis prod.collapse)
  have inv: "todo_pg_inv (tw_repo demo_world)" and fresh: "fresh_ids (sv_newID healthy) (pg_suggestions (tw_repo demo_world))"
    by (simp_all add: demo_world_def demo_tables_inv demo_fresh)
  from RefreshSuggestions_dedup [OF demo_service_over inv fresh run] obtain new items where
    new: "sv_notes healthy ''team'' 50 = Inr items" "(1 :: int) = int (length new)"
      "pg_suggestions (tw_repo w') = put_all ''team'' new (pg_suggestions (tw_repo demo_world))"
      "\<forall>g \<in> set new. sg_Status g = SuggestionPending \<and>
         \<not> suggested (pg_suggestions (tw_repo demo_world)) ''team'' (sg_Fingerprint g)"
    and all: "\<forall>item \<in> set items. suggested (pg_suggestions (tw_repo w')) ''team'' (ai_NoteID item)"
    using demo_healthy by (auto simp: demo_service_def)
  from new(2) obtain g where "new = [g]" by (cases new) auto
  moreover have "demo_item ''n2'' \<in> set items" using new(1) by (auto simp: demo_service_def)
  then have "suggested (pg_suggestions (tw_repo w')) ''team'' ''n2''" using all by (auto simp: demo_item_def)
  ultimately show ?thesis using run new by (auto simp: demo_world_def)
qed

text \<open>The accept saves its todo, then the update of the suggestion fails; the retry keeps the todo.\<close>

definition demo_accept_fault :: "nat \<Rightarrow> driver_fault" where
  "demo_accept_fault i l = (if i = 3 then Some DriverDeadline else None)"

theorem AcceptSuggestion_converges_witness:
  "\<exists>w1 e w3 t. AcceptSuggestion (demo_service demo_accept_fault) demo_world ''team'' ''ann'' ''g1'' = (w1, Inl e) \<and>
     pg_todos (tw_repo w1) ''team'' (acceptedTodoID ''g1'') = Some t \<and>
     AcceptSuggestion healthy w1 ''team'' ''ann'' ''g1'' = (w3, Inr t) \<and>
     (\<exists>g. pg_suggestions (tw_repo w3) ''team'' ''g1'' = Some g \<and> sg_Status g = SuggestionAccepted)"
proof -
  let ?S = "demo_service demo_accept_fault"
  have inv: "todo_pg_inv (tw_repo demo_world)" by (simp add: demo_world_def demo_tables_inv)
  obtain r1 t where acc: "acceptedTodo ?S demo_tables ''team'' ''ann'' demo_suggestion 10 = (r1, Inr t)"
  proof (cases "acceptedTodoID ''g1'' = ''t1''")
    case True
    then show thesis
      by (intro that) (simp add: acceptedTodo_def demo_service_def demo_accept_fault_def postgres_todo_repository_def
          pgTodoByID_def demo_tables_eq demo_suggestion_def Let_def)
  next
    case False
    then show thesis
      by (intro that) (simp add: acceptedTodo_def demo_service_def demo_accept_fault_def postgres_todo_repository_def
          pgTodoByID_def pgSaveTodo_def demo_tables_eq demo_suggestion_def Let_def go_err)
  qed
  have "\<exists>w1 e. AcceptSuggestion ?S demo_world ''team'' ''ann'' ''g1'' = (w1, Inl e) \<and> tw_repo w1 = r1"
  proof -
    have "SuggestionByID (sv_repo ?S 0) demo_tables ''team'' ''g1'' = Inr demo_suggestion"
      by (simp add: demo_service_def demo_accept_fault_def postgres_todo_repository_def pgSuggestionByID_def demo_tables_eq)
    moreover obtain e where "SaveSuggestion (sv_repo ?S 3) r1 ''team''
        (demo_suggestion\<lparr>sg_Status := SuggestionAccepted, sg_UpdatedAt := 10\<rparr>) = (r1, Inl e)"
      by (simp add: demo_service_def demo_accept_fault_def postgres_todo_repository_def pgSaveSuggestion_def Let_def)
    moreover have "sv_clock ?S 0 = 10" by (simp add: demo_service_def)
    ultimately show ?thesis
      using acc demo_not_blank demo_status(2)
      by (simp add: AcceptSuggestion_def demo_world_def Let_def)
  qed
  then obtain w1 e where w1: "AcceptSuggestion ?S demo_world ''team'' ''ann'' ''g1'' = (w1, Inl e)" and r1: "tw_repo w1 = r1"
    by blast
  from pg_store.acceptedTodo_good [OF demo_service_over demo_tables_inv acc]
  have t: "pg_todos (tw_repo w1) ''team'' (acceptedTodoID ''g1'') = Some t" by (simp add: r1 demo_suggestion_def)
  have sg: "pg_suggestions (tw_repo w1) ''team'' ''g1'' = Some demo_suggestion"
    using pg_store.AcceptSuggestion_failed [OF demo_service_over inv w1] by (simp add: demo_world_def demo_lookups)
  from AcceptSuggestion_converges [OF demo_service_over inv w1 todo_reaches.refl demo_healthy demo_not_blank sg demo_status(2)]
    w1 t show ?thesis by (auto simp: upsert_apply)
qed

theorem CompleteTodo_evidence_witness:
  "\<exists>w' t' row. CompleteTodo healthy demo_world ''team'' ''ann'' ''t1'' = (w', Inr t') \<and> td_Status t' = TodoDone \<and>
     row \<in> set (pg_events (tw_lake w')) \<and> row_source row = SourceAppTodo \<and> AuthorUserID (row_author row) = ''ann''"
proof -
  have inv: "todo_pg_inv (tw_repo demo_world)" "pg_inv (tw_lake demo_world)"
    by (simp_all add: demo_world_def demo_tables_inv pg_inv_empty)
  have todo: "pg_todos (tw_repo demo_world) ''team'' ''t1'' = Some demo_todo"
    by (simp add: demo_world_def demo_lookups)
  have report: "sv_report healthy =
      Report (ObserveStream (postgres_repository no_fault 90)) ''r1'' \<lparr>ctx_scope = None, ctx_err = None\<rparr>"
    and clock: "sv_clock healthy 1 \<noteq> 0" by (simp_all add: demo_service_def)
  have "\<not> event_present (trim_space ''team'') (pg_events (tw_lake demo_world)) (''app-todo-'' @ ''r1'')"
    by (simp add: event_present_def demo_world_def emptyDatabase_def)
  from CompleteTodo_evidence [OF demo_healthy report inv demo_not_blank todo demo_status(1) clock this]
  show ?thesis by blast
qed

end
