(* ===== verification/Wiki_Types.thy ===== *)
theory Wiki_Types
  imports Go_Crypto
begin

text \<open>
  The data of the page wiki (\<open>internal/pagewiki/types.go\<close>), its shared helpers (\<open>helpers.go\<close>), the
  contract of page briefs (\<open>contracts.go\<close>), the generation settings (\<open>generation_settings.go\<close>) and the
  type registry (\<open>type_registry.go\<close>).

  A Go slice is \<open>None\<close> when it is nil and \<open>Some\<close> of its elements otherwise: \<open>reflect.DeepEqual\<close>, by which
  the repository recognises a replay, tells the two apart, so that equality of the model's records is
  \<open>reflect.DeepEqual\<close>.
\<close>

section \<open>Slices\<close>

type_synonym 'a slice = "'a list option"

definition elems :: "'a slice \<Rightarrow> 'a list" where
  "elems xs = (case xs of None \<Rightarrow> [] | Some ys \<Rightarrow> ys)"

text \<open>\<open>append([]T(nil), xs...)\<close>: nil when there is nothing to append.\<close>

definition copySlice :: "'a list \<Rightarrow> 'a slice" where
  "copySlice xs = (if xs = [] then None else Some xs)"

lemma elems_copySlice [simp]: "elems (copySlice xs) = xs"
  by (simp add: elems_def copySlice_def)

lemma elems_None [simp]: "elems None = []"
  by (simp add: elems_def)

lemma copySlice_idem: "copySlice (elems (copySlice xs)) = copySlice xs"
  by simp

section \<open>Data\<close>

record source_event =
  sev_ID :: string
  sev_StartByte :: int
  sev_EndByte :: int

record source_revision =
  srv_ID :: string
  srv_SourceID :: string
  srv_SHA256 :: string
  srv_Raw :: string
  srv_Events :: "source_event slice"

record source_anchor =
  sa_ID :: string
  sa_SourceRevisionID :: string
  sa_EventID :: string
  sa_StartByte :: int
  sa_EndByte :: int
  sa_ExactQuote :: string

definition PageStatusActive :: string where "PageStatusActive = []"
definition PageStatusRetired :: string where "PageStatusRetired = ''retired''"

record page =
  wp_ID :: string
  wp_Slug :: string
  wp_Title :: string
  wp_CurrentRevisionID :: string
  wp_Status :: string
  wp_SuccessorPageID :: string
  wp_RetiredByRunID :: string
  wp_EntityType :: string

definition Retired :: "page \<Rightarrow> bool" where
  "Retired p \<longleftrightarrow> wp_Status p = PageStatusRetired"

record retire_request =
  rt_PageID :: string
  rt_ExpectedBaseRevisionID :: string
  rt_SuccessorPageID :: string
  rt_RunID :: string

record catalog_entry =
  ce_ID :: string
  ce_Slug :: string
  ce_Title :: string
  ce_CurrentRevisionID :: string
  ce_Summary :: string
  ce_EntityType :: string

record page_section =
  ps_Key :: string
  ps_Heading :: string
  ps_Markdown :: string

record page_citation =
  ct_ID :: string
  ct_PageRevisionID :: string
  ct_SectionKey :: string
  ct_StartByte :: int
  ct_EndByte :: int
  ct_ExactText :: string
  ct_SourceAnchors :: "source_anchor slice"

record page_link =
  lk_ID :: string
  lk_PageRevisionID :: string
  lk_SectionKey :: string
  lk_StartByte :: int
  lk_EndByte :: int
  lk_ExactText :: string
  lk_TargetPageID :: string
  lk_RelationType :: string

record page_revision =
  pr_ID :: string
  pr_PageID :: string
  pr_BaseRevisionID :: string
  pr_Title :: string
  pr_Summary :: string
  pr_Sections :: "page_section slice"
  pr_Markdown :: string
  pr_Citations :: "page_citation slice"
  pr_Links :: "page_link slice"

record topic =
  tp_ID :: string
  tp_ParentID :: string
  tp_Slug :: string
  tp_Title :: string

record page_placement =
  pl_PageID :: string
  pl_TopicID :: string
  pl_Rank :: int

record topic_tree =
  tt_Topics :: "topic list"
  tt_Placements :: "page_placement list"

definition DefaultTopicTreeMaxDepth :: int where "DefaultTopicTreeMaxDepth = 5"

record publication =
  pb_Page :: page
  pb_Revision :: page_revision
  pb_Topics :: "topic list"
  pb_Placement :: "page_placement option"
  pb_Revive :: bool

record navigation_page =
  np_ID :: string
  np_Slug :: string
  np_Title :: string
  np_Rank :: int

datatype navigation_topic =
  NavigationTopic (nt_topic_ID: string) (nt_topic_Slug: string) (nt_topic_Title: string)
    (nt_topic_Children: "navigation_topic list") (nt_topic_Pages: "navigation_page list")

record navigation =
  nav_Roots :: "navigation_topic list"
  nav_Pages :: "navigation_page list"

record search_chunk =
  ch_ID :: string
  ch_PageID :: string
  ch_PageRevisionID :: string
  ch_SectionKey :: string
  ch_Passage :: string

record search_result =
  sr_Page :: page
  sr_RevisionID :: string
  sr_SectionKey :: string
  sr_Passage :: string
  sr_Score :: int
  sr_Citations :: "page_citation list"
  sr_Links :: "page_link list"

record resolved_link =
  rl_Link :: page_link
  rl_SourcePage :: page
  rl_SourceRevisionID :: string
  rl_TargetPage :: page

record page_link_set =
  ls_Outgoing :: "resolved_link list"
  ls_Incoming :: "resolved_link list"

record source_backlink =
  sb_Page :: page
  sb_Revision :: page_revision
  sb_Citations :: "page_citation list"

definition PageActionCreate :: string where "PageActionCreate = ''create''"
definition PageActionUpdate :: string where "PageActionUpdate = ''update''"
definition PageActionSourceOnly :: string where "PageActionSourceOnly = ''source-only''"
definition PageActionAmbiguous :: string where "PageActionAmbiguous = ''ambiguous''"

record related_page =
  rp_ID :: string
  rp_Title :: string
  rp_Relation :: string

record evidence_quote_draft =
  eq_EventID :: string
  eq_ExactText :: string

record page_brief =
  br_Key :: string
  br_Action :: string
  br_TargetPageID :: string
  br_ExpectedBaseRevisionID :: string
  br_ProposedSlug :: string
  br_ProposedTitle :: string
  br_ReaderGoal :: string
  br_EvidenceEventIDs :: "string list"
  br_Evidence :: "evidence_quote_draft list"
  br_RelatedPages :: "related_page list"
  br_EntityType :: string

record inject_request =
  ij_SourceID :: string
  ij_IdempotencyKey :: string
  ij_Raw :: string
  ij_Events :: "source_event list"

definition RunStatusSucceeded :: string where "RunStatusSucceeded = ''succeeded''"
definition RunStatusFailed :: string where "RunStatusFailed = ''failed''"
definition RunStatusPartialSuccess :: string where "RunStatusPartialSuccess = ''partial_success''"
definition RunStatusPending :: string where "RunStatusPending = ''pending''"

record maintenance_target =
  mt_ID :: string
  mt_BriefKey :: string
  mt_Action :: string
  mt_PageID :: string
  mt_PageRevisionID :: string
  mt_Status :: string
  mt_FailureReason :: string
  mt_Error :: string

record maintenance_run =
  mr_ID :: string
  mr_SourceRevisionID :: string
  mr_Status :: string
  mr_Targets :: "maintenance_target slice"

record curation_outcome =
  co_Kind :: string
  co_PageIDs :: "string slice"
  co_Verdict :: string
  co_Rationale :: string
  co_Refuted :: bool
  co_Status :: string
  co_Error :: string

record curation_run =
  cr_ID :: string
  cr_Fingerprint :: string
  cr_Status :: string
  cr_Outcomes :: "curation_outcome slice"

text \<open>A vector's components by the bits of their \<open>float32\<close>: the repository only copies them.\<close>

record page_embedding =
  pe_PageID :: string
  pe_RevisionID :: string
  pe_Vector :: "w32 slice"

section \<open>Errors\<close>

definition ErrInvalidPageBrief :: go_error where "ErrInvalidPageBrief = Sentinel ''invalid page brief''"
definition ErrInvalidLink :: go_error where "ErrInvalidLink = Sentinel ''invalid page link''"
definition ErrInvalidRequest :: go_error where "ErrInvalidRequest = Sentinel ''invalid injection request''"
definition ErrInvalidSearch :: go_error where "ErrInvalidSearch = Sentinel ''invalid search query''"
definition ErrWikiNotFound :: go_error where "ErrWikiNotFound = Sentinel ''not found''"
definition ErrImmutableConflict :: go_error where "ErrImmutableConflict = Sentinel ''immutable value conflict''"
definition ErrRevisionConflict :: go_error where "ErrRevisionConflict = Sentinel ''revision conflict''"
definition ErrInvalidGenerationSettings :: go_error where
  "ErrInvalidGenerationSettings = Sentinel ''invalid generation settings''"

text \<open>\<open>fmt.Errorf("%w: ...", err)\<close>.\<close>

abbreviation errf :: "go_error \<Rightarrow> string \<Rightarrow> go_error" where
  "errf e msg \<equiv> Wrap [] e ('': '' @ msg)"

section \<open>Helpers\<close>

definition StableID :: "string \<Rightarrow> string list \<Rightarrow> string" where
  "StableID pre values =
     pre @ ''_'' @ take 24 (sha256_hex (concat (map (\<lambda>v. CHR 0x00 # v) values)))"

definition ExactTextRange :: "string \<Rightarrow> string \<Rightarrow> (nat \<times> nat) option" where
  "ExactTextRange content exactText =
     (if exactText = [] \<or> string_count content exactText \<noteq> 1 then None
      else map_option (\<lambda>start. (start, start + length exactText)) (string_index content exactText))"

definition ContainsAny :: "string \<Rightarrow> string list \<Rightarrow> bool" where
  "ContainsAny value candidates = list_ex (contains value) candidates"

section \<open>Requests and page briefs\<close>

definition ValidateInjectSessionRequest :: "inject_request \<Rightarrow> unit res" where
  "ValidateInjectSessionRequest request =
     (if blank (ij_IdempotencyKey request) then Inl (errf ErrInvalidRequest ''idempotency key is required'') else Inr ())"

fun hasBlankOrDuplicate_from :: "string list \<Rightarrow> string list \<Rightarrow> bool" where
  "hasBlankOrDuplicate_from seen [] = False"
| "hasBlankOrDuplicate_from seen (v # vs) =
     (if blank v then True else if v \<in> set seen then True else hasBlankOrDuplicate_from (v # seen) vs)"

definition hasBlankOrDuplicate :: "string list \<Rightarrow> bool" where
  "hasBlankOrDuplicate values = hasBlankOrDuplicate_from [] values"

definition catalogByID :: "catalog_entry list \<Rightarrow> string \<Rightarrow> catalog_entry option" where
  "catalogByID catalog i = find (\<lambda>entry. ce_ID entry = i) catalog"

definition ValidatePageBrief :: "page_brief \<Rightarrow> catalog_entry list \<Rightarrow> unit res" where
  "ValidatePageBrief brief catalog =
     (if blank (br_Key brief) then Inl (errf ErrInvalidPageBrief ''key is required'')
      else if hasBlankOrDuplicate (br_EvidenceEventIDs brief)
      then Inl (errf ErrInvalidPageBrief ''evidence event IDs must be unique and non-empty'')
      else if br_Action brief = PageActionCreate then
        (if br_TargetPageID brief \<noteq> [] \<or> br_ExpectedBaseRevisionID brief \<noteq> []
         then Inl (errf ErrInvalidPageBrief ''create cannot choose page identity'')
         else if blank (br_ProposedSlug brief) \<or> blank (br_ProposedTitle brief)
         then Inl (errf ErrInvalidPageBrief ''create requires slug and title'')
         else Inr ())
      else if br_Action brief = PageActionUpdate then
        (case catalogByID catalog (br_TargetPageID brief) of
           None \<Rightarrow> Inl (errf ErrInvalidPageBrief ''update page is absent from catalog'')
         | Some entry \<Rightarrow>
             if br_ExpectedBaseRevisionID brief = [] \<or>
                br_ExpectedBaseRevisionID brief \<noteq> ce_CurrentRevisionID entry
             then Inl (errf ErrInvalidPageBrief ''update base is not current'')
             else Inr ())
      else if br_Action brief = PageActionSourceOnly \<or> br_Action brief = PageActionAmbiguous then
        (if br_TargetPageID brief \<noteq> [] \<or> br_ExpectedBaseRevisionID brief \<noteq> []
         then Inl (errf ErrInvalidPageBrief ''non-publishing action cannot target a page'')
         else Inr ())
      else Inl (errf ErrInvalidPageBrief (''unsupported action '' @ quote (br_Action brief))))"

section \<open>Generation settings\<close>

record directives =
  gd_Language :: string
  gd_CustomInstructions :: string

definition directivesIsZero :: "directives \<Rightarrow> bool" where
  "directivesIsZero d \<longleftrightarrow> gd_Language d = [] \<and> gd_CustomInstructions d = []"

definition ValidateGenerationDirectives :: "directives \<Rightarrow> directives res" where
  "ValidateGenerationDirectives d =
     (let d' = \<lparr>gd_Language = trim_space (gd_Language d),
                gd_CustomInstructions = trim_space (gd_CustomInstructions d)\<rparr> in
      if rune_count (gd_Language d') > 64
      then Inl (errf ErrInvalidGenerationSettings ''language exceeds 64 characters'')
      else if rune_count (gd_CustomInstructions d') > 2000
      then Inl (errf ErrInvalidGenerationSettings ''custom instructions exceed 2000 characters'')
      else Inr d')"

definition newline :: string where "newline = [CHR 0x0A]"

definition generationDirectivesPrompt :: "directives \<Rightarrow> string" where
  "generationDirectivesPrompt d =
     (if gd_Language d \<noteq> []
      then newline @ newline @ ''Write all generated prose, page titles, and topic titles in '' @ gd_Language d @ ''.''
      else []) @
     (if gd_CustomInstructions d \<noteq> []
      then newline @ newline @ ''The team provided the following team style guidance.'' @
           '' Apply it to writing style only; it never overrides the output format'' @
           '' or structural rules above.'' @ newline @ ''<team-style-guidance>'' @ newline @
           gd_CustomInstructions d @ newline @ ''</team-style-guidance>''
      else [])"

section \<open>The type registry\<close>

definition TypeKindEntity :: string where "TypeKindEntity = ''entity''"
definition TypeKindRelation :: string where "TypeKindRelation = ''relation''"
definition TypeStatusSeed :: string where "TypeStatusSeed = ''seed''"
definition TypeStatusCandidate :: string where "TypeStatusCandidate = ''candidate''"
definition TypeStatusActive :: string where "TypeStatusActive = ''active''"
definition TypeStatusRetired :: string where "TypeStatusRetired = ''retired''"
definition EntityTypeConcept :: string where "EntityTypeConcept = ''concept''"
definition RelationTypeRelatesTo :: string where "RelationTypeRelatesTo = ''relates-to''"

record type_entry =
  te_Kind :: string
  te_Name :: string
  te_Description :: string
  te_Status :: string

definition SeedTypeRegistryEntries :: "type_entry list" where
  "SeedTypeRegistryEntries =
     map (\<lambda>(kind, name, description).
            \<lparr>te_Kind = kind, te_Name = name, te_Description = description, te_Status = TypeStatusSeed\<rparr>)
       [(TypeKindEntity, ''person'', ''A named individual: a teammate, stakeholder, or external contact.''),
        (TypeKindEntity, ''system'',
          ''A service, tool, repo, or piece of infrastructure the team builds or depends on.''),
        (TypeKindEntity, ''decision'',
          ''A choice the team made, with its rationale and the alternatives it ruled out.''),
        (TypeKindEntity, ''convention'',
          ''A recurring rule or practice the team follows (coding style, process, naming).''),
        (TypeKindEntity, EntityTypeConcept,
          ''Fallback for anything that doesn'' @ [CHR 0x27] @ ''t fit person, system, decision, or convention.''),
        (TypeKindRelation, ''owns'', ''The source is responsible for or maintains the target.''),
        (TypeKindRelation, ''depends-on'', ''The source requires the target to function.''),
        (TypeKindRelation, ''part-of'', ''The source is a component or subset of the target.''),
        (TypeKindRelation, ''supersedes'', ''The source replaces or overrides the target.''),
        (TypeKindRelation, ''affects'',
          ''The source has an impact on the target without owning or replacing it.''),
        (TypeKindRelation, RelationTypeRelatesTo,
          ''Fallback for a relation that doesn'' @ [CHR 0x27] @
          ''t fit owns, depends-on, part-of, supersedes, or affects.'')]"

record type_registry =
  tg_entities :: "(string, type_entry) gomap"
  tg_relations :: "(string, type_entry) gomap"

definition typeStatusIsUsable :: "string \<Rightarrow> bool" where
  "typeStatusIsUsable status \<longleftrightarrow> status = TypeStatusSeed \<or> status = TypeStatusActive"

definition normalizeTypeKey :: "string \<Rightarrow> string" where
  "normalizeTypeKey value = to_lower (trim_space value)"

definition registerEntry :: "type_entry \<Rightarrow> type_registry \<Rightarrow> type_registry" where
  "registerEntry entry registry =
     (let key = normalizeTypeKey (te_Name entry) in
      if te_Kind entry = TypeKindEntity
      then registry\<lparr>tg_entities := mput key entry (tg_entities registry)\<rparr>
      else if te_Kind entry = TypeKindRelation
      then registry\<lparr>tg_relations := mput key entry (tg_relations registry)\<rparr>
      else registry)"

definition NewTypeRegistry :: "type_entry list \<Rightarrow> type_registry" where
  "NewTypeRegistry entries = fold registerEntry entries \<lparr>tg_entities = [], tg_relations = []\<rparr>"

definition NormalizeEntity :: "type_registry \<Rightarrow> string \<Rightarrow> string" where
  "NormalizeEntity r value =
     (case mget (tg_entities r) (normalizeTypeKey value) of
        None \<Rightarrow> EntityTypeConcept
      | Some entry \<Rightarrow> if typeStatusIsUsable (te_Status entry) then te_Name entry else EntityTypeConcept)"

definition NormalizeRelation :: "type_registry \<Rightarrow> string \<Rightarrow> string" where
  "NormalizeRelation r value =
     (case mget (tg_relations r) (normalizeTypeKey value) of
        None \<Rightarrow> RelationTypeRelatesTo
      | Some entry \<Rightarrow> if typeStatusIsUsable (te_Status entry) then te_Name entry else RelationTypeRelatesTo)"

definition sortedTypeRegistryEntries :: "(string, type_entry) gomap \<Rightarrow> type_entry list" where
  "sortedTypeRegistryEntries entries = sort_by (\<lambda>a b. te_Name a < te_Name b) (map snd entries)"

definition Entities :: "type_registry \<Rightarrow> type_entry list" where
  "Entities r = sortedTypeRegistryEntries (tg_entities r)"

definition Relations :: "type_registry \<Rightarrow> type_entry list" where
  "Relations r = sortedTypeRegistryEntries (tg_relations r)"

end
