(* ===== verification/Wiki_Repository.thy ===== *)
theory Wiki_Repository
  imports Wiki_Types
begin

text \<open>
  The in-memory page wiki repository (\<open>internal/pagewiki/memory/repository.go\<close>): its maps, every
  operation with every error it returns, and the loops of the code as recursions.  The mutex makes each
  operation one step on the state.  Runes outside ASCII count as letters when text is split into tokens.
\<close>

section \<open>State\<close>

record wiki =
  wk_sourceRevisions :: "(string, source_revision) gomap"
  wk_pages :: "(string, page) gomap"
  wk_pageIDsBySlug :: "(string, string) gomap"
  wk_pageRevisions :: "(string, page_revision) gomap"
  wk_topics :: "(string, topic) gomap"
  wk_placements :: "(string, page_placement) gomap"
  wk_searchChunks :: "(string, search_chunk) gomap"
  wk_runs :: "(string, maintenance_run) gomap"
  wk_generation :: directives
  wk_curationRuns :: "(string, curation_run) gomap"
  wk_pageEmbeddings :: "(string, page_embedding) gomap"
  wk_sourceOrder :: "(string, nat) gomap"
  wk_typeRegistry :: "(string \<times> string, type_entry) gomap"
  wk_maxTopicDepth :: int

definition ResetWiki :: "wiki \<Rightarrow> wiki" where
  "ResetWiki r =
     \<lparr>wk_sourceRevisions = [], wk_pages = [], wk_pageIDsBySlug = [], wk_pageRevisions = [], wk_topics = [],
      wk_placements = [], wk_searchChunks = [], wk_runs = [],
      wk_generation = \<lparr>gd_Language = [], gd_CustomInstructions = []\<rparr>, wk_curationRuns = [],
      wk_pageEmbeddings = [], wk_sourceOrder = [],
      wk_typeRegistry = fold (\<lambda>entry. mput (te_Kind entry, te_Name entry) entry) SeedTypeRegistryEntries [],
      wk_maxTopicDepth = wk_maxTopicDepth r\<rparr>"

definition zeroWiki :: wiki where
  "zeroWiki =
     \<lparr>wk_sourceRevisions = [], wk_pages = [], wk_pageIDsBySlug = [], wk_pageRevisions = [], wk_topics = [],
      wk_placements = [], wk_searchChunks = [], wk_runs = [],
      wk_generation = \<lparr>gd_Language = [], gd_CustomInstructions = []\<rparr>, wk_curationRuns = [],
      wk_pageEmbeddings = [], wk_sourceOrder = [], wk_typeRegistry = [], wk_maxTopicDepth = 0\<rparr>"

definition WithTopicTreeMaxDepth :: "int \<Rightarrow> wiki \<Rightarrow> wiki" where
  "WithTopicTreeMaxDepth depth r = (if depth \<ge> 1 then r\<lparr>wk_maxTopicDepth := depth\<rparr> else r)"

definition NewWiki :: "(wiki \<Rightarrow> wiki) list \<Rightarrow> wiki" where
  "NewWiki options =
     fold (\<lambda>option r. option r) options
       ((ResetWiki zeroWiki)\<lparr>wk_maxTopicDepth := DefaultTopicTreeMaxDepth\<rparr>)"

section \<open>Copies\<close>

definition cloneSourceRevision :: "source_revision \<Rightarrow> source_revision" where
  "cloneSourceRevision v = v\<lparr>srv_Events := copySlice (elems (srv_Events v))\<rparr>"

definition cloneCitation :: "page_citation \<Rightarrow> page_citation" where
  "cloneCitation c = c\<lparr>ct_SourceAnchors := copySlice (elems (ct_SourceAnchors c))\<rparr>"

definition clonePageRevision :: "page_revision \<Rightarrow> page_revision" where
  "clonePageRevision v =
     v\<lparr>pr_Sections := copySlice (elems (pr_Sections v)),
       pr_Citations := copySlice (map cloneCitation (elems (pr_Citations v))),
       pr_Links := copySlice (elems (pr_Links v))\<rparr>"

definition cloneRun :: "maintenance_run \<Rightarrow> maintenance_run" where
  "cloneRun run = run\<lparr>mr_Targets := copySlice (elems (mr_Targets run))\<rparr>"

definition cloneCurationRun :: "curation_run \<Rightarrow> curation_run" where
  "cloneCurationRun run =
     run\<lparr>cr_Outcomes := copySlice (map (\<lambda>out. out\<lparr>co_PageIDs := copySlice (elems (co_PageIDs out))\<rparr>)
           (elems (cr_Outcomes run)))\<rparr>"

definition clonePageEmbedding :: "page_embedding \<Rightarrow> page_embedding" where
  "clonePageEmbedding e = e\<lparr>pe_Vector := copySlice (elems (pe_Vector e))\<rparr>"

section \<open>Sources\<close>

definition sourceRevisionsEqual :: "source_revision \<Rightarrow> source_revision \<Rightarrow> bool" where
  "sourceRevisionsEqual a b \<longleftrightarrow>
     srv_ID a = srv_ID b \<and> srv_SourceID a = srv_SourceID b \<and> srv_SHA256 a = srv_SHA256 b \<and>
     srv_Raw a = srv_Raw b \<and> srv_Events a = srv_Events b"

definition SaveSourceRevision :: "wiki \<Rightarrow> source_revision \<Rightarrow> wiki \<times> unit res" where
  "SaveSourceRevision r v =
     (case mget (wk_sourceRevisions r) (srv_ID v) of
        Some existing \<Rightarrow>
          if \<not> sourceRevisionsEqual existing v
          then (r, Inl (errf ErrImmutableConflict (''SourceRevision '' @ quote (srv_ID v))))
          else (r, Inr ())
      | None \<Rightarrow>
          (r\<lparr>wk_sourceRevisions := mput (srv_ID v) (cloneSourceRevision v) (wk_sourceRevisions r),
             wk_sourceOrder := (case mget (wk_sourceOrder r) (srv_ID v) of
                Some _ \<Rightarrow> wk_sourceOrder r
              | None \<Rightarrow> mput (srv_ID v) (length (wk_sourceOrder r)) (wk_sourceOrder r))\<rparr>, Inr ()))"

definition SourceRevision :: "wiki \<Rightarrow> string \<Rightarrow> source_revision res" where
  "SourceRevision r i =
     (case mget (wk_sourceRevisions r) i of
        None \<Rightarrow> Inl (errf ErrWikiNotFound (''SourceRevision '' @ quote i))
      | Some v \<Rightarrow> Inr (cloneSourceRevision v))"

section \<open>Pages\<close>

definition zeroRevision :: page_revision where
  "zeroRevision = \<lparr>pr_ID = [], pr_PageID = [], pr_BaseRevisionID = [], pr_Title = [], pr_Summary = [],
     pr_Sections = None, pr_Markdown = [], pr_Citations = None, pr_Links = None\<rparr>"

definition zeroPage :: page where
  "zeroPage = \<lparr>wp_ID = [], wp_Slug = [], wp_Title = [], wp_CurrentRevisionID = [], wp_Status = [],
     wp_SuccessorPageID = [], wp_RetiredByRunID = [], wp_EntityType = []\<rparr>"

text \<open>\<open>m[k]\<close> of a map whose missing keys give the zero value.\<close>

definition revisionAt :: "wiki \<Rightarrow> string \<Rightarrow> page_revision" where
  "revisionAt r i = (case mget (wk_pageRevisions r) i of None \<Rightarrow> zeroRevision | Some v \<Rightarrow> v)"

definition pageAt :: "wiki \<Rightarrow> string \<Rightarrow> page" where
  "pageAt r i = (case mget (wk_pages r) i of None \<Rightarrow> zeroPage | Some p \<Rightarrow> p)"

definition catalogEntry :: "wiki \<Rightarrow> page \<Rightarrow> catalog_entry" where
  "catalogEntry r p =
     \<lparr>ce_ID = wp_ID p, ce_Slug = wp_Slug p, ce_Title = wp_Title p,
      ce_CurrentRevisionID = wp_CurrentRevisionID p,
      ce_Summary = pr_Summary (revisionAt r (wp_CurrentRevisionID p)), ce_EntityType = wp_EntityType p\<rparr>"

definition PageCatalog :: "wiki \<Rightarrow> catalog_entry list res" where
  "PageCatalog r =
     Inr (sort_by (\<lambda>a b. ce_Slug a < ce_Slug b)
       (map (catalogEntry r) (filter (\<lambda>p. \<not> Retired p) (map snd (wk_pages r)))))"

definition PageByID :: "wiki \<Rightarrow> string \<Rightarrow> page res" where
  "PageByID r i =
     (case mget (wk_pages r) i of
        None \<Rightarrow> Inl (errf ErrWikiNotFound (''Page '' @ quote i))
      | Some p \<Rightarrow> Inr p)"

definition PageBySlug :: "wiki \<Rightarrow> string \<Rightarrow> page res" where
  "PageBySlug r slug =
     (case mget (wk_pageIDsBySlug r) slug of
        None \<Rightarrow> Inl (errf ErrWikiNotFound (''Page slug '' @ quote slug))
      | Some i \<Rightarrow> Inr (pageAt r i))"

definition PageRevision :: "wiki \<Rightarrow> string \<Rightarrow> page_revision res" where
  "PageRevision r i =
     (case mget (wk_pageRevisions r) i of
        None \<Rightarrow> Inl (errf ErrWikiNotFound (''PageRevision '' @ quote i))
      | Some v \<Rightarrow> Inr (clonePageRevision v))"

text \<open>The walk along the base revisions, newest first; \<open>seen\<close> are the revisions it has met.  The walk
  ends because it stops at a revision it has seen and every other one is stored.\<close>

function historyFrom ::
  "(string, page_revision) gomap \<Rightarrow> string \<Rightarrow> string list \<Rightarrow> string \<Rightarrow> page_revision list res" where
  "historyFrom revisions pageID seen revisionID =
     (if revisionID = [] then Inr []
      else if revisionID \<in> set seen
      then Inl (errf ErrRevisionConflict (''Page '' @ quote pageID @ '' revision lineage is cyclic''))
      else case mget revisions revisionID of
        None \<Rightarrow> Inl (errf ErrRevisionConflict (''Page '' @ quote pageID @ '' revision lineage is incomplete''))
      | Some v \<Rightarrow>
          if pr_PageID v \<noteq> pageID
          then Inl (errf ErrRevisionConflict (''Page '' @ quote pageID @ '' revision lineage is incomplete''))
          else (case historyFrom revisions pageID (revisionID # seen) (pr_BaseRevisionID v) of
                  Inl e \<Rightarrow> Inl e
                | Inr rest \<Rightarrow> Inr (clonePageRevision v # rest)))"
  by pat_completeness auto
termination
proof (relation "measure (\<lambda>(revisions, pageID, seen, revisionID). card (fst ` set revisions - set seen))", goal_cases)
  case (2 revisions pageID seen revisionID v)
  then have "revisionID \<in> fst ` set revisions - set seen" by (force dest: map_of_SomeD)
  then have "card (fst ` set revisions - set seen - {revisionID}) < card (fst ` set revisions - set seen)"
    by (intro card_Diff1_less) auto
  moreover have "fst ` set revisions - set (revisionID # seen) = fst ` set revisions - set seen - {revisionID}"
    by auto
  ultimately show ?case by simp
qed simp

declare historyFrom.simps [simp del]

definition PageRevisionHistory :: "wiki \<Rightarrow> string \<Rightarrow> page_revision list res" where
  "PageRevisionHistory r pageID =
     (case mget (wk_pages r) pageID of
        None \<Rightarrow> Inl (errf ErrWikiNotFound (''Page '' @ quote pageID))
      | Some p \<Rightarrow>
          (case historyFrom (wk_pageRevisions r) pageID [] (wp_CurrentRevisionID p) of
             Inl e \<Rightarrow> Inl e
           | Inr history \<Rightarrow> Inr (rev history)))"

definition RetirePage :: "wiki \<Rightarrow> retire_request \<Rightarrow> wiki \<times> unit res" where
  "RetirePage r request =
     (let pre = ''retire Page '' @ quote (rt_PageID request) @ '': '' in
      case mget (wk_pages r) (rt_PageID request) of
        None \<Rightarrow> (r, Inl (errf ErrWikiNotFound (''Page '' @ quote (rt_PageID request))))
      | Some p \<Rightarrow>
          if Retired p
          then (r, Inl (Wrap pre ErrRevisionConflict '': page is already retired''))
          else if wp_CurrentRevisionID p \<noteq> rt_ExpectedBaseRevisionID request
          then (r, Inl (Wrap pre ErrRevisionConflict '': revision changed''))
          else (r\<lparr>wk_pages := mput (rt_PageID request)
                    (p\<lparr>wp_Status := PageStatusRetired, wp_SuccessorPageID := rt_SuccessorPageID request,
                       wp_RetiredByRunID := rt_RunID request\<rparr>) (wk_pages r)\<rparr>, Inr ()))"

section \<open>Validation of a publication\<close>

definition validateExistingPage :: "wiki \<Rightarrow> page \<Rightarrow> page_revision \<Rightarrow> bool \<Rightarrow> unit res" where
  "validateExistingPage r p v revive =
     (case mget (wk_pages r) (wp_ID p) of
        None \<Rightarrow>
          if pr_BaseRevisionID v \<noteq> []
          then Inl (errf ErrRevisionConflict (''new Page '' @ quote (wp_ID p) @ '' has a base revision''))
          else Inr ()
      | Some existing \<Rightarrow>
          if Retired existing \<and> \<not> revive then Inl (errf ErrRevisionConflict ''page is retired'')
          else if wp_CurrentRevisionID existing \<noteq> pr_BaseRevisionID v
          then Inl (errf ErrRevisionConflict (''Page '' @ quote (wp_ID p) @ '' base is stale''))
          else Inr ())"

definition validatePlacement :: "(string, topic) gomap \<Rightarrow> page \<Rightarrow> page_placement option \<Rightarrow> unit res" where
  "validatePlacement topics p placement =
     (case placement of
        None \<Rightarrow> Inr ()
      | Some pl \<Rightarrow>
          if pl_PageID pl \<noteq> wp_ID p \<or> pl_Rank pl < 0
          then Inl (errf ErrRevisionConflict ''invalid Page placement'')
          else if mget topics (pl_TopicID pl) = None
          then Inl (errf ErrRevisionConflict (''placement Topic '' @ quote (pl_TopicID pl) @ '' is missing''))
          else Inr ())"

definition validateLink ::
  "wiki \<Rightarrow> page \<Rightarrow> page_revision \<Rightarrow> string list \<Rightarrow> (string, page_section) gomap \<Rightarrow> page_link \<Rightarrow> unit res" where
  "validateLink r p v pending sections lk =
     (if lk_PageRevisionID lk \<noteq> pr_ID v then Inl (errf ErrInvalidLink ''Link revision identity differs'')
      else case mget sections (lk_SectionKey lk) of
        None \<Rightarrow> Inl (errf ErrInvalidLink (''Link Section '' @ quote (lk_SectionKey lk) @ '' is missing''))
      | Some sec \<Rightarrow>
          if (case ExactTextRange (ps_Markdown sec) (lk_ExactText lk) of
                None \<Rightarrow> True
              | Some (start, stop) \<Rightarrow> int start \<noteq> lk_StartByte lk \<or> int stop \<noteq> lk_EndByte lk)
          then Inl (errf ErrInvalidLink ''Link exact text is not uniquely grounded'')
          else if lk_TargetPageID lk \<noteq> wp_ID p \<and> mget (wk_pages r) (lk_TargetPageID lk) = None \<and>
                  lk_TargetPageID lk \<notin> set pending
          then Inl (errf ErrInvalidLink (''target Page '' @ quote (lk_TargetPageID lk) @ '' is missing''))
          else Inr ())"

fun validateEach :: "('a \<Rightarrow> unit res) \<Rightarrow> 'a list \<Rightarrow> unit res" where
  "validateEach check [] = Inr ()"
| "validateEach check (x # xs) = (case check x of Inl e \<Rightarrow> Inl e | Inr _ \<Rightarrow> validateEach check xs)"

definition sectionMap :: "page_revision \<Rightarrow> (string, page_section) gomap" where
  "sectionMap v = fold (\<lambda>sec. mput (ps_Key sec) sec) (elems (pr_Sections v)) []"

definition validateLinks :: "wiki \<Rightarrow> page \<Rightarrow> page_revision \<Rightarrow> string list \<Rightarrow> unit res" where
  "validateLinks r p v pending =
     validateEach (validateLink r p v pending (sectionMap v)) (elems (pr_Links v))"

text \<open>The depth of a topic, one more than the maximum when its ancestors form a cycle.  \<open>topics[id]\<close> of a
  missing topic is the zero topic, whose parent is empty.\<close>

definition parentOf :: "(string, topic) gomap \<Rightarrow> string \<Rightarrow> string" where
  "parentOf topics i = (case mget topics i of None \<Rightarrow> [] | Some t \<Rightarrow> tp_ParentID t)"

function topicDepthFrom :: "(string, topic) gomap \<Rightarrow> int \<Rightarrow> string list \<Rightarrow> int \<Rightarrow> string \<Rightarrow> int" where
  "topicDepthFrom topics maxDepth visited depth i =
     (if i = [] then depth
      else if i \<in> set visited then maxDepth + 1
      else topicDepthFrom topics maxDepth (i # visited) (depth + 1) (parentOf topics i))"
  by pat_completeness auto
termination
proof (relation "measure (\<lambda>(topics, maxDepth, visited, depth, i).
    if i = [] then 0 else 2 + card (fst ` set topics - set visited) - (if i \<in> fst ` set topics then 0 else 1))",
    goal_cases)
  case (2 topics maxDepth visited depth i)
  show ?case
  proof (cases "i \<in> fst ` set topics")
    case True
    with 2 have "card (fst ` set topics - set visited - {i}) < card (fst ` set topics - set visited)"
      by (intro card_Diff1_less) auto
    moreover have "fst ` set topics - set (i # visited) = fst ` set topics - set visited - {i}" by auto
    ultimately show ?thesis using 2 True by auto
  next
    case False
    then have "mget topics i = None" by (simp add: map_of_eq_None_iff)
    with 2 show ?thesis by (simp add: parentOf_def)
  qed
qed simp

declare topicDepthFrom.simps [simp del]

definition topicDepth :: "string \<Rightarrow> (string, topic) gomap \<Rightarrow> int \<Rightarrow> int" where
  "topicDepth i topics maxDepth = topicDepthFrom topics maxDepth [] 0 i"

text \<open>The first loop of \<open>validateTopics\<close>: \<open>stored\<close> are the repository's topics, \<open>topics\<close> the copy it extends.\<close>

fun mergeTopics ::
  "(string, topic) gomap \<Rightarrow> string list \<Rightarrow> (string, topic) gomap \<Rightarrow> topic list \<Rightarrow> (string, topic) gomap res" where
  "mergeTopics stored seen topics [] = Inr topics"
| "mergeTopics stored seen topics (t # ts) =
     (if tp_ID t = [] \<or> tp_Slug t = [] \<or> tp_Title t = [] then Inl (errf ErrRevisionConflict ''invalid Topic'')
      else if tp_ID t \<in> set seen
      then Inl (errf ErrRevisionConflict (''duplicate Topic '' @ quote (tp_ID t)))
      else if (case mget stored (tp_ID t) of None \<Rightarrow> False | Some existing \<Rightarrow> existing \<noteq> t)
      then Inl (errf ErrImmutableConflict (''Topic '' @ quote (tp_ID t)))
      else mergeTopics stored (tp_ID t # seen) (mput (tp_ID t) t topics) ts)"

definition validateTopic :: "(string, topic) gomap \<Rightarrow> int \<Rightarrow> topic \<Rightarrow> unit res" where
  "validateTopic topics maxDepth t =
     (if tp_ParentID t \<noteq> [] \<and> mget topics (tp_ParentID t) = None
      then Inl (errf ErrRevisionConflict (''parent Topic '' @ quote (tp_ParentID t) @ '' is missing''))
      else if topicDepth (tp_ID t) topics maxDepth > maxDepth
      then Inl (errf ErrRevisionConflict
             (''Topic '' @ quote (tp_ID t) @ '' exceeds '' @ show_int maxDepth @ '' levels''))
      else Inr ())"

definition validateTopics :: "wiki \<Rightarrow> topic list \<Rightarrow> (string, topic) gomap res" where
  "validateTopics r publicationTopics =
     (case mergeTopics (wk_topics r) [] (wk_topics r) publicationTopics of
        Inl e \<Rightarrow> Inl e
      | Inr topics \<Rightarrow>
          (case validateEach (validateTopic topics (wk_maxTopicDepth r)) publicationTopics of
             Inl e \<Rightarrow> Inl e
           | Inr _ \<Rightarrow> Inr topics))"

definition validatePublication :: "wiki \<Rightarrow> publication \<Rightarrow> string list \<Rightarrow> unit res" where
  "validatePublication r pub pending =
     (let p = pb_Page pub; v = pb_Revision pub in
      if wp_ID p = [] \<or> wp_Slug p = [] \<or> pr_ID v = []
      then Inl (errf ErrRevisionConflict ''Page identity is incomplete'')
      else if wp_CurrentRevisionID p \<noteq> pr_ID v \<or> wp_ID p \<noteq> pr_PageID v
      then Inl (errf ErrRevisionConflict ''Page and revision identities differ'')
      else if (case mget (wk_pageIDsBySlug r) (wp_Slug p) of None \<Rightarrow> False | Some i \<Rightarrow> i \<noteq> wp_ID p)
      then Inl (errf ErrRevisionConflict (''slug '' @ quote (wp_Slug p) @ '' is already published''))
      else case validateExistingPage r p v (pb_Revive pub) of
        Inl e \<Rightarrow> Inl e
      | Inr _ \<Rightarrow>
      if (case mget (wk_pageRevisions r) (pr_ID v) of None \<Rightarrow> False | Some existing \<Rightarrow> existing \<noteq> v)
      then Inl (errf ErrImmutableConflict (''PageRevision '' @ quote (pr_ID v)))
      else case validateLinks r p v pending of
        Inl e \<Rightarrow> Inl e
      | Inr _ \<Rightarrow>
          (case validateTopics r (pb_Topics pub) of
             Inl e \<Rightarrow> Inl e
           | Inr topics \<Rightarrow> validatePlacement topics p (pb_Placement pub)))"

section \<open>Publication\<close>

definition buildSearchChunks :: "page_revision \<Rightarrow> search_chunk list" where
  "buildSearchChunks v =
     map (\<lambda>sec. \<lparr>ch_ID = pr_ID v @ '':'' @ ps_Key sec, ch_PageID = pr_PageID v, ch_PageRevisionID = pr_ID v,
                 ch_SectionKey = ps_Key sec, ch_Passage = ps_Markdown sec\<rparr>) (elems (pr_Sections v))"

text \<open>The exact publication already landed.\<close>

definition isApplied :: "wiki \<Rightarrow> publication \<Rightarrow> bool" where
  "isApplied r pub \<longleftrightarrow>
     mget (wk_pages r) (wp_ID (pb_Page pub)) = Some (pb_Page pub) \<and>
     mget (wk_pageRevisions r) (pr_ID (pb_Revision pub)) = Some (pb_Revision pub)"

definition publishedPage :: "publication \<Rightarrow> page" where
  "publishedPage pub =
     (if pb_Revive pub
      then (pb_Page pub)\<lparr>wp_Status := PageStatusActive, wp_SuccessorPageID := [], wp_RetiredByRunID := []\<rparr>
      else pb_Page pub)"

definition applyPublication :: "publication \<Rightarrow> wiki \<Rightarrow> wiki" where
  "applyPublication pub r =
     (let p = publishedPage pub; v = pb_Revision pub;
          slugs = (case mget (wk_pages r) (wp_ID p) of
                     Some previous \<Rightarrow> if wp_Slug previous \<noteq> wp_Slug p then mdel (wp_Slug previous) (wk_pageIDsBySlug r)
                                     else wk_pageIDsBySlug r
                   | None \<Rightarrow> wk_pageIDsBySlug r) in
      r\<lparr>wk_pageRevisions := mput (pr_ID v) (clonePageRevision v) (wk_pageRevisions r),
        wk_pages := mput (wp_ID p) p (wk_pages r),
        wk_pageIDsBySlug := mput (wp_Slug p) (wp_ID p) slugs,
        wk_topics := fold (\<lambda>t. mput (tp_ID t) t) (pb_Topics pub) (wk_topics r),
        wk_placements := (case pb_Placement pub of
           None \<Rightarrow> wk_placements r | Some pl \<Rightarrow> mput (wp_ID p) pl (wk_placements r)),
        wk_searchChunks := fold (\<lambda>c. mput (ch_ID c) c) (buildSearchChunks v)
           (filter (\<lambda>(_, c). ch_PageID c \<noteq> wp_ID p) (wk_searchChunks r))\<rparr>)"

text \<open>The loop that validates the batch against the repository as it was: the publications still to apply.\<close>

fun pendingPublications ::
  "wiki \<Rightarrow> string list \<Rightarrow> (string, string) gomap \<Rightarrow> publication list \<Rightarrow> publication list res" where
  "pendingPublications r batchPageIDs batchSlugs [] = Inr []"
| "pendingPublications r batchPageIDs batchSlugs (pub # pubs) =
     (if isApplied r pub then pendingPublications r batchPageIDs batchSlugs pubs
      else case validatePublication r pub batchPageIDs of
        Inl e \<Rightarrow> Inl e
      | Inr _ \<Rightarrow>
          if (case mget batchSlugs (wp_Slug (pb_Page pub)) of None \<Rightarrow> False | Some i \<Rightarrow> i \<noteq> wp_ID (pb_Page pub))
          then Inl (errf ErrRevisionConflict
                 (''slug '' @ quote (wp_Slug (pb_Page pub)) @ '' is already published in this batch''))
          else (case pendingPublications r batchPageIDs
                       (mput (wp_Slug (pb_Page pub)) (wp_ID (pb_Page pub)) batchSlugs) pubs of
                  Inl e \<Rightarrow> Inl e
                | Inr pending \<Rightarrow> Inr (pub # pending)))"

definition PublishPages :: "wiki \<Rightarrow> publication list \<Rightarrow> wiki \<times> unit res" where
  "PublishPages r publications =
     (case pendingPublications r (map (\<lambda>pub. wp_ID (pb_Page pub)) publications) [] publications of
        Inl e \<Rightarrow> (r, Inl e)
      | Inr pending \<Rightarrow> (fold applyPublication pending r, Inr ()))"

definition PublishPage :: "wiki \<Rightarrow> publication \<Rightarrow> wiki \<times> unit res" where
  "PublishPage r pub = PublishPages r [pub]"

section \<open>Navigation\<close>

definition childTopics :: "wiki \<Rightarrow> string \<Rightarrow> topic list" where
  "childTopics r parentID =
     sort_by (\<lambda>a b. if tp_Slug a = tp_Slug b then tp_ID a < tp_ID b else tp_Slug a < tp_Slug b)
       (filter (\<lambda>t. tp_ParentID t = parentID) (map snd (wk_topics r)))"

definition navPage :: "page \<Rightarrow> int \<Rightarrow> navigation_page" where
  "navPage p rank = \<lparr>np_ID = wp_ID p, np_Slug = wp_Slug p, np_Title = wp_Title p, np_Rank = rank\<rparr>"

definition topicPages :: "wiki \<Rightarrow> string \<Rightarrow> navigation_page list" where
  "topicPages r topicID =
     sort_by (\<lambda>a b. if np_Rank a = np_Rank b then np_Slug a < np_Slug b else np_Rank a < np_Rank b)
       (map (\<lambda>(pageID, pl). navPage (pageAt r pageID) (pl_Rank pl))
         (filter (\<lambda>(pageID, pl). pl_TopicID pl = topicID \<and>
            (case mget (wk_pages r) pageID of None \<Rightarrow> False | Some p \<Rightarrow> \<not> Retired p)) (wk_placements r)))"

text \<open>The recursion over the topics below a parent; \<open>fuel\<close> bounds its depth, \<open>None\<close> when it is not enough.\<close>

primrec map_opt :: "('a \<Rightarrow> 'b option) \<Rightarrow> 'a list \<Rightarrow> 'b list option" where
  "map_opt f [] = Some []"
| "map_opt f (x # xs) =
     (case f x of None \<Rightarrow> None | Some y \<Rightarrow> (case map_opt f xs of None \<Rightarrow> None | Some ys \<Rightarrow> Some (y # ys)))"

primrec buildNavigationTopics :: "nat \<Rightarrow> wiki \<Rightarrow> string \<Rightarrow> navigation_topic list option" where
  "buildNavigationTopics 0 r parentID = None"
| "buildNavigationTopics (Suc fuel) r parentID =
     map_opt (\<lambda>t. case buildNavigationTopics fuel r (tp_ID t) of
         None \<Rightarrow> None
       | Some children \<Rightarrow>
           Some (NavigationTopic (tp_ID t) (tp_Slug t) (tp_Title t) children (topicPages r (tp_ID t))))
       (childTopics r parentID)"

definition rootPages :: "wiki \<Rightarrow> navigation_page list" where
  "rootPages r =
     sort_by (\<lambda>a b. np_Slug a < np_Slug b)
       (map (\<lambda>(_, p). navPage p 0)
         (filter (\<lambda>(i, p). \<not> Retired p \<and> mget (wk_placements r) i = None) (wk_pages r)))"

definition Navigation :: "wiki \<Rightarrow> navigation option" where
  "Navigation r =
     (case buildNavigationTopics (Suc (length (wk_topics r))) r [] of
        None \<Rightarrow> None
      | Some roots \<Rightarrow> Some \<lparr>nav_Roots = roots, nav_Pages = rootPages r\<rparr>)"

section \<open>Search\<close>

definition tokenSeparator :: "char \<Rightarrow> bool" where
  "tokenSeparator c \<longleftrightarrow> c < CHR 0x80 \<and> \<not> ascii_letter c \<and> \<not> ascii_digit c"

definition tokenize :: "string \<Rightarrow> string list" where
  "tokenize value = fields_func tokenSeparator (to_lower value)"

definition lexicalScore :: "string list \<Rightarrow> string list \<Rightarrow> int" where
  "lexicalScore queryTokens passageTokens =
     sum_list (map (\<lambda>token. int (count_list passageTokens token)) (dedup_from [] queryTokens))"

definition citationsForSection :: "page_revision \<Rightarrow> string \<Rightarrow> page_citation list" where
  "citationsForSection v key = map cloneCitation (filter (\<lambda>c. ct_SectionKey c = key) (elems (pr_Citations v)))"

definition linksForSection :: "page_revision \<Rightarrow> string \<Rightarrow> page_link list" where
  "linksForSection v key = filter (\<lambda>lk. lk_SectionKey lk = key) (elems (pr_Links v))"

text \<open>What one chunk of the index contributes to the results.\<close>

definition searchChunk :: "wiki \<Rightarrow> string list \<Rightarrow> search_chunk \<Rightarrow> search_result option" where
  "searchChunk r queryTokens chunk =
     (let score = lexicalScore queryTokens (tokenize (ch_Passage chunk)) in
      if score = 0 then None
      else case (mget (wk_pages r) (ch_PageID chunk), mget (wk_pageRevisions r) (ch_PageRevisionID chunk)) of
        (Some p, Some v) \<Rightarrow>
          if wp_CurrentRevisionID p \<noteq> pr_ID v \<or> Retired p then None
          else Some \<lparr>sr_Page = p, sr_RevisionID = pr_ID v, sr_SectionKey = ch_SectionKey chunk,
                     sr_Passage = ch_Passage chunk, sr_Score = score,
                     sr_Citations = citationsForSection v (ch_SectionKey chunk),
                     sr_Links = linksForSection v (ch_SectionKey chunk)\<rparr>
      | _ \<Rightarrow> None)"

definition resultOrder :: "search_result \<Rightarrow> search_result \<Rightarrow> bool" where
  "resultOrder a b \<longleftrightarrow>
     (if sr_Score a \<noteq> sr_Score b then sr_Score a > sr_Score b
      else if wp_Slug (sr_Page a) \<noteq> wp_Slug (sr_Page b) then wp_Slug (sr_Page a) < wp_Slug (sr_Page b)
      else sr_SectionKey a < sr_SectionKey b)"

definition Search :: "wiki \<Rightarrow> string \<Rightarrow> search_result list res" where
  "Search r query =
     (let queryTokens = tokenize query in
      if queryTokens = [] then Inl (errf ErrInvalidSearch ''at least one token is required'')
      else Inr (sort_by resultOrder (List.map_filter (\<lambda>(_, chunk). searchChunk r queryTokens chunk) (wk_searchChunks r))))"

section \<open>Links and backlinks\<close>

definition linkOrder :: "bool \<Rightarrow> resolved_link \<Rightarrow> resolved_link \<Rightarrow> bool" where
  "linkOrder outgoing a b \<longleftrightarrow>
     (let pa = (if outgoing then rl_TargetPage a else rl_SourcePage a);
          pb = (if outgoing then rl_TargetPage b else rl_SourcePage b) in
      if wp_Slug pa \<noteq> wp_Slug pb then wp_Slug pa < wp_Slug pb
      else lk_ExactText (rl_Link a) < lk_ExactText (rl_Link b))"

definition sortResolvedLinks :: "bool \<Rightarrow> resolved_link list \<Rightarrow> resolved_link list" where
  "sortResolvedLinks outgoing links = sort_by (linkOrder outgoing) links"

definition PageLinks :: "wiki \<Rightarrow> string \<Rightarrow> page_link_set res" where
  "PageLinks r pageID =
     (case mget (wk_pages r) pageID of
        None \<Rightarrow> Inl (errf ErrWikiNotFound (''Page '' @ quote pageID))
      | Some p \<Rightarrow>
          let current = revisionAt r (wp_CurrentRevisionID p);
              outgoing = map (\<lambda>lk. \<lparr>rl_Link = lk, rl_SourcePage = p, rl_SourceRevisionID = pr_ID current,
                rl_TargetPage = pageAt r (lk_TargetPageID lk)\<rparr>) (elems (pr_Links current));
              incoming = concat (map (\<lambda>(_, src).
                let v = revisionAt r (wp_CurrentRevisionID src) in
                map (\<lambda>lk. \<lparr>rl_Link = lk, rl_SourcePage = src, rl_SourceRevisionID = pr_ID v, rl_TargetPage = p\<rparr>)
                  (filter (\<lambda>lk. lk_TargetPageID lk = pageID) (elems (pr_Links v)))) (wk_pages r)) in
          Inr \<lparr>ls_Outgoing = sortResolvedLinks True outgoing, ls_Incoming = sortResolvedLinks False incoming\<rparr>)"

definition citationsForSource :: "page_revision \<Rightarrow> string \<Rightarrow> page_citation list" where
  "citationsForSource v sourceRevisionID =
     map cloneCitation (filter (\<lambda>c. list_ex (\<lambda>a. sa_SourceRevisionID a = sourceRevisionID)
       (elems (ct_SourceAnchors c))) (elems (pr_Citations v)))"

definition SourceBacklinks :: "wiki \<Rightarrow> string \<Rightarrow> source_backlink list res" where
  "SourceBacklinks r sourceRevisionID =
     (case mget (wk_sourceRevisions r) sourceRevisionID of
        None \<Rightarrow> Inl (errf ErrWikiNotFound (''SourceRevision '' @ quote sourceRevisionID))
      | Some _ \<Rightarrow>
          Inr (sort_by (\<lambda>a b. wp_Slug (sb_Page a) < wp_Slug (sb_Page b))
            (List.map_filter (\<lambda>(_, p).
               let v = revisionAt r (wp_CurrentRevisionID p); cs = citationsForSource v sourceRevisionID in
               if cs = [] then None
               else Some \<lparr>sb_Page = p, sb_Revision = clonePageRevision v, sb_Citations = cs\<rparr>) (wk_pages r))))"

section \<open>The search index\<close>

fun rebuildChunks ::
  "wiki \<Rightarrow> (string, search_chunk) gomap \<Rightarrow> (string \<times> page) list \<Rightarrow> (string, search_chunk) gomap res" where
  "rebuildChunks r chunks [] = Inr chunks"
| "rebuildChunks r chunks ((_, p) # ps) =
     (case mget (wk_pageRevisions r) (wp_CurrentRevisionID p) of
        None \<Rightarrow> Inl (errf ErrRevisionConflict (''current PageRevision '' @ quote (wp_CurrentRevisionID p)))
      | Some v \<Rightarrow> rebuildChunks r (fold (\<lambda>c. mput (ch_ID c) c) (buildSearchChunks v) chunks) ps)"

definition RebuildSearchIndex :: "wiki \<Rightarrow> wiki \<times> unit res" where
  "RebuildSearchIndex r =
     (case rebuildChunks r [] (wk_pages r) of
        Inl e \<Rightarrow> (r, Inl e)
      | Inr chunks \<Rightarrow> (r\<lparr>wk_searchChunks := chunks\<rparr>, Inr ()))"

definition ClearSearchChunks :: "wiki \<Rightarrow> wiki" where
  "ClearSearchChunks r = r\<lparr>wk_searchChunks := []\<rparr>"

section \<open>Runs, embeddings, ordinals, types, settings\<close>

definition SaveMaintenanceRun :: "wiki \<Rightarrow> maintenance_run \<Rightarrow> wiki \<times> unit res" where
  "SaveMaintenanceRun r run =
     (if (case mget (wk_runs r) (mr_ID run) of
            None \<Rightarrow> False | Some existing \<Rightarrow> mr_Status existing = RunStatusSucceeded \<and> existing \<noteq> run)
      then (r, Inl (errf ErrImmutableConflict (''MaintenanceRun '' @ quote (mr_ID run))))
      else (r\<lparr>wk_runs := mput (mr_ID run) (cloneRun run) (wk_runs r)\<rparr>, Inr ()))"

definition RollbackMaintenanceRun :: "wiki \<Rightarrow> string \<Rightarrow> maintenance_run \<Rightarrow> bool \<Rightarrow> wiki" where
  "RollbackMaintenanceRun r i previous existed =
     (if \<not> existed then r\<lparr>wk_runs := mdel i (wk_runs r)\<rparr>
      else r\<lparr>wk_runs := mput i (cloneRun previous) (wk_runs r)\<rparr>)"

definition MaintenanceRun :: "wiki \<Rightarrow> string \<Rightarrow> maintenance_run res" where
  "MaintenanceRun r i =
     (case mget (wk_runs r) i of
        None \<Rightarrow> Inl (errf ErrWikiNotFound (''MaintenanceRun '' @ quote i))
      | Some run \<Rightarrow> Inr (cloneRun run))"

definition SaveCurationRun :: "wiki \<Rightarrow> curation_run \<Rightarrow> wiki \<times> unit res" where
  "SaveCurationRun r run =
     (if (case mget (wk_curationRuns r) (cr_ID run) of
            None \<Rightarrow> False | Some existing \<Rightarrow> cr_Status existing \<noteq> RunStatusFailed \<and> existing \<noteq> run)
      then (r, Inl (errf ErrImmutableConflict (''CurationRun '' @ quote (cr_ID run))))
      else (r\<lparr>wk_curationRuns := mput (cr_ID run) (cloneCurationRun run) (wk_curationRuns r)\<rparr>, Inr ()))"

definition CurationRun :: "wiki \<Rightarrow> string \<Rightarrow> curation_run res" where
  "CurationRun r i =
     (case mget (wk_curationRuns r) i of
        None \<Rightarrow> Inl (errf ErrWikiNotFound (''CurationRun '' @ quote i))
      | Some run \<Rightarrow> Inr (cloneCurationRun run))"

definition PageEmbeddings :: "wiki \<Rightarrow> page_embedding list res" where
  "PageEmbeddings r =
     Inr (sort_by (\<lambda>a b. pe_PageID a < pe_PageID b) (map (\<lambda>(_, e). clonePageEmbedding e) (wk_pageEmbeddings r)))"

definition SavePageEmbedding :: "wiki \<Rightarrow> page_embedding \<Rightarrow> wiki \<times> unit res" where
  "SavePageEmbedding r e =
     (r\<lparr>wk_pageEmbeddings := mput (pe_PageID e) (clonePageEmbedding e) (wk_pageEmbeddings r)\<rparr>, Inr ())"

definition SourceRevisionOrdinals :: "wiki \<Rightarrow> (string, nat) gomap res" where
  "SourceRevisionOrdinals r = Inr (wk_sourceOrder r)"

definition typeOrder :: "type_entry \<Rightarrow> type_entry \<Rightarrow> bool" where
  "typeOrder a b \<longleftrightarrow>
     (if te_Kind a \<noteq> te_Kind b then te_Kind a < te_Kind b else te_Name a < te_Name b)"

definition TypeRegistry :: "wiki \<Rightarrow> type_entry list res" where
  "TypeRegistry r = Inr (sort_by typeOrder (map snd (wk_typeRegistry r)))"

definition SaveTypeRegistryEntry :: "wiki \<Rightarrow> type_entry \<Rightarrow> wiki \<times> unit res" where
  "SaveTypeRegistryEntry r entry =
     (r\<lparr>wk_typeRegistry := mput (te_Kind entry, te_Name entry) entry (wk_typeRegistry r)\<rparr>, Inr ())"

definition GenerationSettings :: "wiki \<Rightarrow> directives res" where
  "GenerationSettings r = Inr (wk_generation r)"

definition SetGenerationSettings :: "wiki \<Rightarrow> directives \<Rightarrow> wiki \<times> unit res" where
  "SetGenerationSettings r d = (r\<lparr>wk_generation := d\<rparr>, Inr ())"

section \<open>The topic tree\<close>

definition TopicTree :: "wiki \<Rightarrow> topic_tree res" where
  "TopicTree r =
     Inr \<lparr>tt_Topics = sort_by (\<lambda>a b. if tp_ParentID a \<noteq> tp_ParentID b then tp_ParentID a < tp_ParentID b
            else tp_Slug a < tp_Slug b) (map snd (wk_topics r)),
          tt_Placements = sort_by (\<lambda>a b. pl_PageID a < pl_PageID b) (map snd (wk_placements r))\<rparr>"

fun indexTopics :: "(string, topic) gomap \<Rightarrow> topic list \<Rightarrow> (string, topic) gomap res" where
  "indexTopics topics [] = Inr topics"
| "indexTopics topics (t # ts) =
     (if tp_ID t = [] \<or> tp_Slug t = [] \<or> tp_Title t = [] then Inl (errf ErrRevisionConflict ''invalid Topic'')
      else if mget topics (tp_ID t) \<noteq> None
      then Inl (errf ErrRevisionConflict (''duplicate Topic '' @ quote (tp_ID t)))
      else indexTopics (mput (tp_ID t) t topics) ts)"

fun indexPlacements ::
  "wiki \<Rightarrow> (string, topic) gomap \<Rightarrow> (string, page_placement) gomap \<Rightarrow> page_placement list \<Rightarrow>
     (string, page_placement) gomap res" where
  "indexPlacements r topics placements [] = Inr placements"
| "indexPlacements r topics placements (pl # pls) =
     (if mget (wk_pages r) (pl_PageID pl) = None
      then Inl (errf ErrRevisionConflict (''placed Page '' @ quote (pl_PageID pl) @ '' is missing''))
      else if mget topics (pl_TopicID pl) = None
      then Inl (errf ErrRevisionConflict (''placement Topic '' @ quote (pl_TopicID pl) @ '' is missing''))
      else if mget placements (pl_PageID pl) \<noteq> None
      then Inl (errf ErrRevisionConflict (''Page '' @ quote (pl_PageID pl) @ '' is placed twice''))
      else if pl_Rank pl < 0 then Inl (errf ErrRevisionConflict ''invalid Page placement'')
      else indexPlacements r topics (mput (pl_PageID pl) pl placements) pls)"

definition ReplaceTopicTree :: "wiki \<Rightarrow> topic_tree \<Rightarrow> wiki \<times> unit res" where
  "ReplaceTopicTree r tree =
     (case indexTopics [] (tt_Topics tree) of
        Inl e \<Rightarrow> (r, Inl e)
      | Inr topics \<Rightarrow>
          (case validateEach (validateTopic topics (wk_maxTopicDepth r)) (tt_Topics tree) of
             Inl e \<Rightarrow> (r, Inl e)
           | Inr _ \<Rightarrow>
               (case indexPlacements r topics [] (tt_Placements tree) of
                  Inl e \<Rightarrow> (r, Inl e)
                | Inr placements \<Rightarrow> (r\<lparr>wk_topics := topics, wk_placements := placements\<rparr>, Inr ()))))"

section \<open>Counts\<close>

definition PageCount :: "wiki \<Rightarrow> nat" where "PageCount r = length (wk_pages r)"
definition PageRevisionCount :: "wiki \<Rightarrow> nat" where "PageRevisionCount r = length (wk_pageRevisions r)"
definition TopicCount :: "wiki \<Rightarrow> nat" where "TopicCount r = length (wk_topics r)"
definition PlacementCount :: "wiki \<Rightarrow> nat" where "PlacementCount r = length (wk_placements r)"
definition SourceRevisionCount :: "wiki \<Rightarrow> nat" where "SourceRevisionCount r = length (wk_sourceRevisions r)"
definition MaintenanceRunCount :: "wiki \<Rightarrow> nat" where "MaintenanceRunCount r = length (wk_runs r)"
definition SearchChunkCount :: "wiki \<Rightarrow> nat" where "SearchChunkCount r = length (wk_searchChunks r)"

end
