(* ===== verification/Wiki_Invariant.thy ===== *)
theory Wiki_Invariant
  imports Wiki_Repository
begin

text \<open>
  The page wiki repository keeps its maps consistent: the slug index is exact, every page has a complete
  and acyclic revision lineage, topics form a forest, placements are resolvable and the search index is
  what a rebuild computes.  \<open>fits_page\<close> and \<open>fits_topics\<close> say what a state must offer for a publication to
  be applied to it; validation gives them for the whole batch, although it looks only at the state before it.
\<close>

section \<open>Lineages\<close>

inductive lineage :: "(string, page_revision) gomap \<Rightarrow> string \<Rightarrow> string \<Rightarrow> page_revision list \<Rightarrow> bool"
  for revs pageID where
  root: "lineage revs pageID [] []"
| base: "rid \<noteq> [] \<Longrightarrow> mget revs rid = Some v \<Longrightarrow> pr_PageID v = pageID \<Longrightarrow> lineage revs pageID (pr_BaseRevisionID v) vs \<Longrightarrow>
     lineage revs pageID rid (v # vs)"

inductive_cases lineage_NilE [elim!]: "lineage revs pageID rid []"
inductive_cases lineage_ConsE: "lineage revs pageID rid (v # vs)"
inductive_cases lineage_rootE: "lineage revs pageID [] vs"

lemma lineage_unique: "lineage revs pageID rid vs \<Longrightarrow> lineage revs pageID rid ws \<Longrightarrow> vs = ws"
proof (induction arbitrary: ws rule: lineage.induct)
  case root
  then show ?case by (auto elim: lineage_rootE)
next
  case (base rid v vs)
  from base.prems base.hyps(1,2) obtain us where "ws = v # us" "lineage revs pageID (pr_BaseRevisionID v) us"
    by (auto elim: lineage.cases)
  with base.IH show ?case by blast
qed

text \<open>Every member of a lineage has a lineage of its own, a suffix of the whole.\<close>

lemma lineage_suffix:
  "lineage revs pageID rid vs \<Longrightarrow> v \<in> set vs \<Longrightarrow> \<forall>i w. mget revs i = Some w \<longrightarrow> pr_ID w = i \<Longrightarrow>
     \<exists>us. lineage revs pageID (pr_ID v) us \<and> length us \<le> length vs \<and> mget revs (pr_ID v) = Some v"
proof (induction rule: lineage.induct)
  case (base rid w vs)
  show ?case
  proof (cases "v = w")
    case True
    with base.hyps base.prems(2) have "pr_ID v = rid" by blast
    moreover have "lineage revs pageID rid (w # vs)" using base.hyps by (intro lineage.base)
    ultimately show ?thesis using True base.hyps(2) by (intro exI [of _ "w # vs"]) simp
  next
    case False
    with base.prems(1) have "v \<in> set vs" by simp
    from base.IH [OF this base.prems(2)] obtain us where
      "lineage revs pageID (pr_ID v) us" "length us \<le> length vs" "mget revs (pr_ID v) = Some v" by blast
    then show ?thesis by (intro exI [of _ us]) simp
  qed
qed simp

lemma lineage_fresh:
  assumes "lineage revs pageID (pr_BaseRevisionID v) vs" and "mget revs rid = Some v" and "rid \<noteq> []"
    and "pr_PageID v = pageID" and keys: "\<forall>i w. mget revs i = Some w \<longrightarrow> pr_ID w = i"
  shows "rid \<notin> pr_ID ` set vs"
proof
  assume "rid \<in> pr_ID ` set vs"
  then obtain w where w: "w \<in> set vs" "pr_ID w = rid" by auto
  from lineage_suffix [OF assms(1) w(1) keys] obtain us where
    us: "lineage revs pageID rid us" "length us \<le> length vs" using w(2) by auto
  have "lineage revs pageID rid (v # vs)" using assms by (intro lineage.base)
  from lineage_unique [OF us(1) this] us(2) show False by simp
qed

lemma lineage_distinct:
  "lineage revs pageID rid vs \<Longrightarrow> \<forall>i w. mget revs i = Some w \<longrightarrow> pr_ID w = i \<Longrightarrow> distinct (map pr_ID vs)"
proof (induction rule: lineage.induct)
  case (base rid v vs)
  from base.hyps(2) base.prems have "pr_ID v = rid" by blast
  with base lineage_fresh [OF base.hyps(4,2,1,3) base.prems] show ?case by simp
qed simp

lemma lineage_mono:
  "lineage revs pageID rid vs \<Longrightarrow> (\<And>i v. mget revs i = Some v \<Longrightarrow> mget revs' i = Some v) \<Longrightarrow>
     lineage revs' pageID rid vs"
  by (induction rule: lineage.induct) (auto intro: lineage.intros)

text \<open>The walk of \<open>PageRevisionHistory\<close> follows the lineage.\<close>

lemma historyFrom_lineage:
  assumes "lineage revs pageID rid vs" and "distinct (map pr_ID vs)" and "set seen \<inter> pr_ID ` set vs = {}"
    and keys: "\<forall>i w. mget revs i = Some w \<longrightarrow> pr_ID w = i"
  shows "historyFrom revs pageID seen rid = Inr (map clonePageRevision vs)"
  using assms(1-3)
proof (induction arbitrary: seen rule: lineage.induct)
  case root
  then show ?case by (simp add: historyFrom.simps)
next
  case (base rid v vs)
  from base.hyps(2) keys have "pr_ID v = rid" by blast
  with base.prems have "rid \<notin> set seen" "set (rid # seen) \<inter> pr_ID ` set vs = {}" by auto
  with base show ?case by (simp add: historyFrom.simps)
qed

section \<open>Forests of topics\<close>

inductive rooted :: "(string, topic) gomap \<Rightarrow> string \<Rightarrow> bool" for topics where
  top: "rooted topics []"
| below: "mget topics i = Some t \<Longrightarrow> rooted topics (tp_ParentID t) \<Longrightarrow> rooted topics i"

text \<open>Overlaying some topics keeps the forest when the overlaid ones are rooted in the result.\<close>

lemma rooted_overlay:
  assumes "rooted topics i" and "\<And>j. j \<in> own \<Longrightarrow> rooted topics' j"
    and "\<And>j. j \<notin> own \<Longrightarrow> mget topics' j = mget topics j"
  shows "rooted topics' i"
  using assms(1)
proof (induction rule: rooted.induct)
  case (below i t)
  show ?case
  proof (cases "i \<in> own")
    case False
    then have "mget topics' i = Some t" using assms(3) below.hyps(1) by simp
    then show ?thesis using below.IH by (rule rooted.below)
  qed (use assms(2) in blast)
qed (rule rooted.top)

lemma topicDepthFrom_rooted:
  "topicDepthFrom topics maxDepth visited depth i \<le> maxDepth \<Longrightarrow>
     (\<forall>j t. mget topics j = Some t \<longrightarrow> tp_ParentID t = [] \<or> mget topics (tp_ParentID t) \<noteq> None) \<Longrightarrow>
     i = [] \<or> mget topics i \<noteq> None \<Longrightarrow> rooted topics i"
proof (induction topics maxDepth visited depth i rule: topicDepthFrom.induct)
  case (1 topics maxDepth visited depth i)
  show ?case
  proof (cases "i = []")
    case True
    then show ?thesis by (simp add: rooted.top)
  next
    case False
    with "1.prems"(1) have nv: "i \<notin> set visited"
      by (auto simp: topicDepthFrom.simps [of topics maxDepth visited depth i] split: if_splits)
    from False "1.prems"(3) obtain t where t: "mget topics i = Some t" by auto
    then have parent: "parentOf topics i = tp_ParentID t" by (simp add: parentOf_def)
    have "topicDepthFrom topics maxDepth (i # visited) (depth + 1) (parentOf topics i) \<le> maxDepth"
      using "1.prems"(1) False nv by (simp add: topicDepthFrom.simps [of topics maxDepth visited depth i])
    then have "rooted topics (tp_ParentID t)"
      using "1.IH" [OF False nv] "1.prems"(2) t parent by metis
    with t show ?thesis by (rule rooted.below)
  qed
qed

section \<open>The invariant\<close>

definition slugs_ok :: "wiki \<Rightarrow> bool" where
  "slugs_ok r \<longleftrightarrow>
     (\<forall>i p. mget (wk_pages r) i = Some p \<longrightarrow> wp_ID p = i \<and> wp_Slug p \<noteq> []) \<and>
     (\<forall>slug i. mget (wk_pageIDsBySlug r) slug = Some i \<longleftrightarrow>
        (\<exists>p. mget (wk_pages r) i = Some p \<and> wp_Slug p = slug))"

definition revisions_ok :: "wiki \<Rightarrow> bool" where
  "revisions_ok r \<longleftrightarrow>
     (\<forall>i v. mget (wk_pageRevisions r) i = Some v \<longrightarrow> pr_ID v = i \<and> clonePageRevision v = v) \<and>
     (\<forall>i p. mget (wk_pages r) i = Some p \<longrightarrow> wp_CurrentRevisionID p \<noteq> [] \<and>
        (\<exists>vs. lineage (wk_pageRevisions r) i (wp_CurrentRevisionID p) vs))"

definition topics_ok :: "wiki \<Rightarrow> bool" where
  "topics_ok r \<longleftrightarrow>
     (\<forall>i t. mget (wk_topics r) i = Some t \<longrightarrow> tp_ID t = i \<and> i \<noteq> [] \<and> rooted (wk_topics r) i)"

definition placements_ok :: "wiki \<Rightarrow> bool" where
  "placements_ok r \<longleftrightarrow>
     (\<forall>i pl. mget (wk_placements r) i = Some pl \<longrightarrow>
        pl_PageID pl = i \<and> mget (wk_pages r) i \<noteq> None \<and> mget (wk_topics r) (pl_TopicID pl) \<noteq> None)"

text \<open>The chunk a map of chunks holds under \<open>k\<close> after the chunks of \<open>v\<close> were put into it.\<close>

definition chunkOf :: "page_revision \<Rightarrow> string \<Rightarrow> search_chunk option" where
  "chunkOf v k = mget (fold (\<lambda>c. mput (ch_ID c) c) (buildSearchChunks v) []) k"

definition indexed :: "wiki \<Rightarrow> string \<Rightarrow> search_chunk \<Rightarrow> bool" where
  "indexed r k c \<longleftrightarrow>
     (\<exists>i p v. mget (wk_pages r) i = Some p \<and> mget (wk_pageRevisions r) (wp_CurrentRevisionID p) = Some v \<and>
        chunkOf v k = Some c)"

definition index_ok :: "wiki \<Rightarrow> bool" where
  "index_ok r \<longleftrightarrow>
     (\<forall>i v. mget (wk_pageRevisions r) i = Some v \<longrightarrow> CHR '':'' \<notin> set i) \<and>
     (\<forall>k c. mget (wk_searchChunks r) k = Some c \<longleftrightarrow> indexed r k c)"

definition wiki_maps :: "wiki \<Rightarrow> bool" where
  "wiki_maps r \<longleftrightarrow>
     mwf (wk_pages r) \<and> mwf (wk_pageIDsBySlug r) \<and> mwf (wk_pageRevisions r) \<and> mwf (wk_topics r) \<and>
     mwf (wk_placements r) \<and> mwf (wk_searchChunks r)"

definition wiki_inv :: "wiki \<Rightarrow> bool" where
  "wiki_inv r \<longleftrightarrow>
     wiki_maps r \<and> slugs_ok r \<and> revisions_ok r \<and> topics_ok r \<and> placements_ok r \<and> index_ok r"

lemma wiki_inv_new: "wiki_inv (NewWiki options)" if "set options \<subseteq> range WithTopicTreeMaxDepth"
proof -
  let ?empty = "(ResetWiki zeroWiki)\<lparr>wk_maxTopicDepth := DefaultTopicTreeMaxDepth\<rparr>"
  have "\<exists>d. fold (\<lambda>option r. option r) options (?empty\<lparr>wk_maxTopicDepth := d0\<rparr>) = ?empty\<lparr>wk_maxTopicDepth := d\<rparr>"
    for d0
    using that
  proof (induction options arbitrary: d0)
    case Nil
    show ?case by (intro exI [of _ d0]) simp
  next
    case (Cons f fs)
    then obtain d where f: "f = WithTopicTreeMaxDepth d" by auto
    have "\<exists>d'. f (?empty\<lparr>wk_maxTopicDepth := d0\<rparr>) = ?empty\<lparr>wk_maxTopicDepth := d'\<rparr>"
      by (auto simp: f WithTopicTreeMaxDepth_def)
    with Cons show ?case by auto
  qed
  from this [of DefaultTopicTreeMaxDepth] obtain d where "NewWiki options = ?empty\<lparr>wk_maxTopicDepth := d\<rparr>"
    by (auto simp: NewWiki_def)
  then show ?thesis
    by (simp add: ResetWiki_def wiki_inv_def wiki_maps_def slugs_ok_def revisions_ok_def topics_ok_def
        placements_ok_def index_ok_def indexed_def)
qed

lemma inv_current:
  assumes "wiki_inv r" and "mget (wk_pages r) i = Some p"
  obtains v vs where "mget (wk_pageRevisions r) (wp_CurrentRevisionID p) = Some v"
    "pr_ID v = wp_CurrentRevisionID p" "pr_PageID v = i" "wp_ID p = i"
    "lineage (wk_pageRevisions r) i (wp_CurrentRevisionID p) (v # vs)"
proof -
  have ok: "revisions_ok r" "slugs_ok r" using assms(1) by (simp_all add: wiki_inv_def)
  from ok(1) assms(2) obtain us where us: "lineage (wk_pageRevisions r) i (wp_CurrentRevisionID p) us"
    and "wp_CurrentRevisionID p \<noteq> []" unfolding revisions_ok_def by blast
  then obtain v vs where "us = v # vs" by (cases us) auto
  with us have v: "lineage (wk_pageRevisions r) i (wp_CurrentRevisionID p) (v # vs)" by simp
  then have "mget (wk_pageRevisions r) (wp_CurrentRevisionID p) = Some v" "pr_PageID v = i" by (blast elim: lineage_ConsE)+
  moreover from this have "pr_ID v = wp_CurrentRevisionID p" using ok(1) by (simp add: revisions_ok_def)
  moreover have "wp_ID p = i" using ok(2) assms(2) by (simp add: slugs_ok_def)
  ultimately show thesis using that v by blast
qed

section \<open>Filling maps\<close>

definition fill :: "('a \<Rightarrow> 'k) \<Rightarrow> 'a list \<Rightarrow> ('k, 'a) gomap \<Rightarrow> ('k, 'a) gomap" where
  "fill key xs m = fold (\<lambda>x. mput (key x) x) xs m"

definition latest :: "('a \<Rightarrow> 'k) \<Rightarrow> 'a list \<Rightarrow> 'k \<Rightarrow> 'a option" where
  "latest key xs = map_of (rev (map (\<lambda>x. (key x, x)) xs))"

lemma mget_fill: "mget (fill key xs m) k = (case latest key xs k of None \<Rightarrow> mget m k | Some x \<Rightarrow> Some x)"
  by (induction xs arbitrary: m) (auto simp: fill_def latest_def mget_mput map_add_def split: option.splits)

lemma mwf_fill [simp]: "mwf m \<Longrightarrow> mwf (fill key xs m)"
  by (induction xs arbitrary: m) (simp_all add: fill_def)

lemma latest_Some: "latest key xs k = Some x \<Longrightarrow> x \<in> set xs \<and> key x = k"
  by (auto simp: latest_def dest!: map_of_SomeD)

lemma latest_None: "latest key xs k = None \<longleftrightarrow> k \<notin> key ` set xs"
  by (simp add: latest_def map_of_eq_None_iff image_image)

lemma latest_distinct: "distinct (map key xs) \<Longrightarrow> x \<in> set xs \<Longrightarrow> latest key xs (key x) = Some x"
proof (cases "latest key xs (key x)")
  case (Some y)
  assume "distinct (map key xs)" "x \<in> set xs"
  with latest_Some [OF Some] Some show ?thesis by (auto simp: distinct_map inj_on_def)
qed (use latest_None [of key xs "key x"] in auto)

lemma chunkOf_latest: "chunkOf v k = latest ch_ID (buildSearchChunks v) k"
  using mget_fill [of ch_ID "buildSearchChunks v" "[]" k]
  by (simp add: chunkOf_def fill_def split: option.splits)

lemma chunkOf_Some:
  "chunkOf v k = Some c \<Longrightarrow> ch_PageID c = pr_PageID v \<and> ch_PageRevisionID c = pr_ID v \<and> ch_ID c = k \<and>
     (\<exists>key. k = pr_ID v @ '':'' @ key)"
  by (auto simp: chunkOf_latest buildSearchChunks_def dest!: latest_Some)

lemma clone_fields [simp]:
  "pr_ID (clonePageRevision v) = pr_ID v" "pr_PageID (clonePageRevision v) = pr_PageID v"
  "pr_BaseRevisionID (clonePageRevision v) = pr_BaseRevisionID v"
  "buildSearchChunks (clonePageRevision v) = buildSearchChunks v"
  by (simp_all add: clonePageRevision_def buildSearchChunks_def)

lemma chunkOf_clone [simp]: "chunkOf (clonePageRevision v) = chunkOf v"
  by (rule ext) (simp add: chunkOf_def)

lemma cloneCitation_idem: "cloneCitation \<circ> cloneCitation = cloneCitation"
  by (rule ext) (simp add: cloneCitation_def)

lemma clone_clone [simp]: "clonePageRevision (clonePageRevision v) = clonePageRevision v"
  by (simp add: clonePageRevision_def cloneCitation_idem)

lemma publishedPage_fields [simp]:
  "wp_ID (publishedPage pub) = wp_ID (pb_Page pub)" "wp_Slug (publishedPage pub) = wp_Slug (pb_Page pub)"
  "wp_CurrentRevisionID (publishedPage pub) = wp_CurrentRevisionID (pb_Page pub)"
  by (simp_all add: publishedPage_def)

section \<open>Applying one publication\<close>

text \<open>What a state must offer for a publication to be applied to it.\<close>

definition topicsAfter :: "wiki \<Rightarrow> publication \<Rightarrow> (string, topic) gomap" where
  "topicsAfter r pub = fill tp_ID (pb_Topics pub) (wk_topics r)"

definition fits_page :: "wiki \<Rightarrow> publication \<Rightarrow> bool" where
  "fits_page r pub \<longleftrightarrow>
     wp_ID (pb_Page pub) \<noteq> [] \<and> wp_Slug (pb_Page pub) \<noteq> [] \<and> pr_ID (pb_Revision pub) \<noteq> [] \<and>
     wp_CurrentRevisionID (pb_Page pub) = pr_ID (pb_Revision pub) \<and> wp_ID (pb_Page pub) = pr_PageID (pb_Revision pub) \<and>
     (\<forall>i. mget (wk_pageIDsBySlug r) (wp_Slug (pb_Page pub)) = Some i \<longrightarrow> i = wp_ID (pb_Page pub)) \<and>
     (case mget (wk_pages r) (wp_ID (pb_Page pub)) of
        None \<Rightarrow> pr_BaseRevisionID (pb_Revision pub) = []
      | Some e \<Rightarrow> wp_CurrentRevisionID e = pr_BaseRevisionID (pb_Revision pub)) \<and>
     (\<forall>e. mget (wk_pageRevisions r) (pr_ID (pb_Revision pub)) = Some e \<longrightarrow> e = pb_Revision pub)"

definition fits_topics :: "wiki \<Rightarrow> publication \<Rightarrow> bool" where
  "fits_topics r pub \<longleftrightarrow>
     distinct (map tp_ID (pb_Topics pub)) \<and>
     (\<forall>t \<in> set (pb_Topics pub). tp_ID t \<noteq> [] \<and> rooted (topicsAfter r pub) (tp_ID t)) \<and>
     (\<forall>pl. pb_Placement pub = Some pl \<longrightarrow>
        pl_PageID pl = wp_ID (pb_Page pub) \<and> mget (topicsAfter r pub) (pl_TopicID pl) \<noteq> None)"

lemma apply_fields:
  "wk_pages (applyPublication pub r) = mput (wp_ID (pb_Page pub)) (publishedPage pub) (wk_pages r)"
  "wk_pageRevisions (applyPublication pub r) =
     mput (pr_ID (pb_Revision pub)) (clonePageRevision (pb_Revision pub)) (wk_pageRevisions r)"
  "wk_topics (applyPublication pub r) = topicsAfter r pub"
  "wk_placements (applyPublication pub r) = (case pb_Placement pub of
     None \<Rightarrow> wk_placements r | Some pl \<Rightarrow> mput (wp_ID (pb_Page pub)) pl (wk_placements r))"
  "wk_searchChunks (applyPublication pub r) =
     fill ch_ID (buildSearchChunks (pb_Revision pub))
       (filter (\<lambda>(_, c). ch_PageID c \<noteq> wp_ID (pb_Page pub)) (wk_searchChunks r))"
  "wk_maxTopicDepth (applyPublication pub r) = wk_maxTopicDepth r"
  by (simp_all add: applyPublication_def Let_def topicsAfter_def fill_def split: option.split)

lemma apply_slug_index:
  "mget (wk_pageIDsBySlug (applyPublication pub r)) slug =
     (if slug = wp_Slug (pb_Page pub) then Some (wp_ID (pb_Page pub))
      else if \<exists>e. mget (wk_pages r) (wp_ID (pb_Page pub)) = Some e \<and> wp_Slug e = slug then None
      else mget (wk_pageIDsBySlug r) slug)"
  by (auto simp: applyPublication_def Let_def go_map split: option.splits)

lemma apply_maps: "wiki_maps r \<Longrightarrow> wiki_maps (applyPublication pub r)"
  by (simp add: wiki_maps_def apply_fields topicsAfter_def split: option.split)
    (simp add: applyPublication_def Let_def split: option.split)

lemma apply_slugs:
  assumes "slugs_ok r" and "fits_page r pub"
  shows "slugs_ok (applyPublication pub r)"
proof -
  let ?id = "wp_ID (pb_Page pub)" and ?slug = "wp_Slug (pb_Page pub)"
  have exact: "mget (wk_pageIDsBySlug r) s = Some i \<longleftrightarrow> (\<exists>p. mget (wk_pages r) i = Some p \<and> wp_Slug p = s)" for s i
    using assms(1) by (simp add: slugs_ok_def)
  have free: "mget (wk_pageIDsBySlug r) ?slug = Some i \<Longrightarrow> i = ?id" for i
    using assms(2) by (simp add: fits_page_def)
  have "mget (wk_pageIDsBySlug (applyPublication pub r)) s = Some i \<longleftrightarrow>
      (\<exists>p. mget (wk_pages (applyPublication pub r)) i = Some p \<and> wp_Slug p = s)" for s i
  proof (cases "i = ?id")
    case True
    then show ?thesis using exact [of s ?id] by (auto simp: apply_slug_index apply_fields go_map)
  next
    case False
    then show ?thesis using exact [of s i] exact [of s ?id] free [of i]
      by (auto simp: apply_slug_index apply_fields go_map)
  qed
  moreover have "wp_ID p = i \<and> wp_Slug p \<noteq> []" if "mget (wk_pages (applyPublication pub r)) i = Some p" for i p
    using that assms by (auto simp: apply_fields go_map slugs_ok_def fits_page_def split: if_splits)
  ultimately show ?thesis unfolding slugs_ok_def by blast
qed

lemma apply_revision_get:
  assumes "revisions_ok r" and "fits_page r pub"
  shows "mget (wk_pageRevisions (applyPublication pub r)) i =
      (if i = pr_ID (pb_Revision pub) then Some (clonePageRevision (pb_Revision pub)) else mget (wk_pageRevisions r) i)"
    and "mget (wk_pageRevisions r) i = Some v \<Longrightarrow> mget (wk_pageRevisions (applyPublication pub r)) i = Some v"
proof -
  show get: "mget (wk_pageRevisions (applyPublication pub r)) i =
      (if i = pr_ID (pb_Revision pub) then Some (clonePageRevision (pb_Revision pub)) else mget (wk_pageRevisions r) i)"
    by (simp add: apply_fields go_map)
  assume v: "mget (wk_pageRevisions r) i = Some v"
  have "clonePageRevision v = v" using v assms(1) unfolding revisions_ok_def by blast
  moreover have "i = pr_ID (pb_Revision pub) \<Longrightarrow> v = pb_Revision pub"
    using v assms(2) unfolding fits_page_def by blast
  ultimately show "mget (wk_pageRevisions (applyPublication pub r)) i = Some v" using get v by auto
qed

lemma apply_lineage:
  assumes "revisions_ok r" and "fits_page r pub"
  shows "\<exists>vs. lineage (wk_pageRevisions (applyPublication pub r)) (wp_ID (pb_Page pub)) (pr_ID (pb_Revision pub))
      (clonePageRevision (pb_Revision pub) # vs) \<and>
    (case mget (wk_pages r) (wp_ID (pb_Page pub)) of
       None \<Rightarrow> vs = []
     | Some e \<Rightarrow> lineage (wk_pageRevisions r) (wp_ID (pb_Page pub)) (wp_CurrentRevisionID e) vs)"
proof -
  let ?r = "applyPublication pub r" and ?v = "pb_Revision pub" and ?id = "wp_ID (pb_Page pub)"
  note get = apply_revision_get [OF assms]
  obtain vs where vs: "lineage (wk_pageRevisions ?r) ?id (pr_BaseRevisionID ?v) vs"
    and old: "case mget (wk_pages r) ?id of None \<Rightarrow> vs = []
      | Some e \<Rightarrow> lineage (wk_pageRevisions r) ?id (wp_CurrentRevisionID e) vs"
  proof (cases "mget (wk_pages r) ?id")
    case None
    with assms(2) have "pr_BaseRevisionID ?v = []" by (simp add: fits_page_def)
    then show thesis using that [of "[]"] None by (simp add: lineage.root)
  next
    case (Some e)
    with assms(2) have base: "wp_CurrentRevisionID e = pr_BaseRevisionID ?v" by (simp add: fits_page_def)
    from Some assms(1) obtain vs where vs: "lineage (wk_pageRevisions r) ?id (wp_CurrentRevisionID e) vs"
      unfolding revisions_ok_def by blast
    then have "lineage (wk_pageRevisions ?r) ?id (wp_CurrentRevisionID e) vs"
      by (rule lineage_mono) (use get(2) in blast)
    then show thesis using that [of vs] Some vs base by simp
  qed
  have "lineage (wk_pageRevisions ?r) ?id (pr_ID ?v) (clonePageRevision ?v # vs)"
    by (rule lineage.base) (use assms(2) get(1) vs in \<open>auto simp: fits_page_def\<close>)
  with old show ?thesis by blast
qed

lemma apply_revisions:
  assumes "revisions_ok r" and "fits_page r pub"
  shows "revisions_ok (applyPublication pub r)"
proof -
  let ?r = "applyPublication pub r" and ?id = "wp_ID (pb_Page pub)"
  note get = apply_revision_get [OF assms]
  have "wp_CurrentRevisionID p \<noteq> [] \<and> (\<exists>vs. lineage (wk_pageRevisions ?r) i (wp_CurrentRevisionID p) vs)"
    if page: "mget (wk_pages ?r) i = Some p" for i p
  proof (cases "i = ?id")
    case True
    with page have "p = publishedPage pub" by (simp add: apply_fields go_map)
    then have "wp_CurrentRevisionID p = pr_ID (pb_Revision pub)" "pr_ID (pb_Revision pub) \<noteq> []"
      using assms(2) by (simp_all add: fits_page_def)
    then show ?thesis using apply_lineage [OF assms] True by metis
  next
    case False
    with page have "mget (wk_pages r) i = Some p" by (simp add: apply_fields go_map)
    with assms(1) obtain vs where "wp_CurrentRevisionID p \<noteq> []" "lineage (wk_pageRevisions r) i (wp_CurrentRevisionID p) vs"
      unfolding revisions_ok_def by blast
    then show ?thesis using lineage_mono [of "wk_pageRevisions r"] get(2) by blast
  qed
  moreover have "pr_ID v = i \<and> clonePageRevision v = v" if "mget (wk_pageRevisions ?r) i = Some v" for i v
    using that assms(1) by (auto simp: get(1) revisions_ok_def split: if_splits)
  ultimately show ?thesis unfolding revisions_ok_def by blast
qed

lemma topicsAfter_get:
  assumes "mget (topicsAfter r pub) i = Some t"
  shows "t \<in> set (pb_Topics pub) \<and> tp_ID t = i \<or> i \<notin> tp_ID ` set (pb_Topics pub) \<and> mget (wk_topics r) i = Some t"
proof (cases "latest tp_ID (pb_Topics pub) i")
  case None
  with assms show ?thesis using latest_None [of tp_ID "pb_Topics pub" i] by (simp add: topicsAfter_def mget_fill)
next
  case (Some u)
  with assms show ?thesis using latest_Some [OF Some] by (simp add: topicsAfter_def mget_fill)
qed

lemma topicsAfter_keeps: "mget (wk_topics r) i \<noteq> None \<Longrightarrow> mget (topicsAfter r pub) i \<noteq> None"
  by (auto simp: topicsAfter_def mget_fill split: option.splits)

lemma apply_topics:
  assumes "topics_ok r" and "fits_topics r pub"
  shows "topics_ok (applyPublication pub r)"
proof -
  let ?own = "tp_ID ` set (pb_Topics pub)"
  have own: "i \<in> ?own \<Longrightarrow> rooted (topicsAfter r pub) i" for i using assms(2) by (auto simp: fits_topics_def)
  have same: "i \<notin> ?own \<Longrightarrow> mget (topicsAfter r pub) i = mget (wk_topics r) i" for i
    using latest_None [of tp_ID "pb_Topics pub" i] by (simp add: topicsAfter_def mget_fill)
  have "tp_ID t = i \<and> i \<noteq> [] \<and> rooted (topicsAfter r pub) i" if "mget (topicsAfter r pub) i = Some t" for i t
  proof (cases "i \<in> ?own")
    case True
    then show ?thesis using own topicsAfter_get [OF that] assms(2) by (auto simp: fits_topics_def)
  next
    case False
    with that same have "mget (wk_topics r) i = Some t" by simp
    with assms(1) have "tp_ID t = i" "i \<noteq> []" "rooted (wk_topics r) i" by (auto simp: topics_ok_def)
    with rooted_overlay [OF _ own same] show ?thesis by blast
  qed
  then show ?thesis by (simp add: topics_ok_def apply_fields)
qed

lemma apply_placements:
  assumes "placements_ok r" and "fits_topics r pub"
  shows "placements_ok (applyPublication pub r)"
  using assms topicsAfter_keeps [of r _ pub]
  by (auto simp: placements_ok_def fits_topics_def apply_fields go_map split: option.splits if_splits)

text \<open>Chunk identifiers start with the revision identifier and a colon, so chunks of different revisions
  never collide as long as revision identifiers have no colon of their own.\<close>

lemma chunk_ids_separate:
  assumes "chunkOf v k = Some c" and "chunkOf w k = Some d" and "CHR '':'' \<notin> set (pr_ID v)" and "CHR '':'' \<notin> set (pr_ID w)"
  shows "pr_ID v = pr_ID w"
proof -
  from chunkOf_Some [OF assms(1)] chunkOf_Some [OF assms(2)] obtain x y where
    "pr_ID v @ '':'' @ x = pr_ID w @ '':'' @ y" by metis
  moreover have "takeWhile (\<lambda>a. a \<noteq> CHR '':'') (u @ '':'' @ z) = u" if "CHR '':'' \<notin> set u" for u z
    using that by (subst takeWhile_append2) auto
  ultimately show ?thesis using assms(3,4) by metis
qed

lemma apply_chunk_get:
  assumes "mwf (wk_searchChunks r)"
  shows "mget (wk_searchChunks (applyPublication pub r)) k =
    (case chunkOf (pb_Revision pub) k of
       Some c \<Rightarrow> Some c
     | None \<Rightarrow> (case mget (wk_searchChunks r) k of
          None \<Rightarrow> None | Some c \<Rightarrow> if ch_PageID c \<noteq> wp_ID (pb_Page pub) then Some c else None))"
  by (simp add: apply_fields mget_fill chunkOf_latest mget_filter_vals [OF assms] split: option.split)

lemma index_get: "wiki_inv r \<Longrightarrow> mget (wk_searchChunks r) k = Some c \<longleftrightarrow> indexed r k c"
  by (simp add: wiki_inv_def index_ok_def)

lemma indexed_page:
  assumes "wiki_inv r" and "indexed r k c"
  obtains p v where "mget (wk_pages r) (ch_PageID c) = Some p" "mget (wk_pageRevisions r) (wp_CurrentRevisionID p) = Some v"
    "chunkOf v k = Some c" "pr_ID v = wp_CurrentRevisionID p" "pr_PageID v = ch_PageID c"
proof -
  from assms(2) obtain i p v where *: "mget (wk_pages r) i = Some p"
    "mget (wk_pageRevisions r) (wp_CurrentRevisionID p) = Some v" "chunkOf v k = Some c"
    unfolding indexed_def by blast
  from inv_current [OF assms(1) *(1)] *(2) have "pr_PageID v = i" "pr_ID v = wp_CurrentRevisionID p" by auto
  with * chunkOf_Some [OF *(3)] show thesis using that by metis
qed

lemma apply_index:
  assumes inv: "wiki_inv r" and fits: "fits_page r pub" and free: "CHR '':'' \<notin> set (pr_ID (pb_Revision pub))"
  shows "index_ok (applyPublication pub r)"
proof -
  let ?r = "applyPublication pub r" and ?v = "pb_Revision pub" and ?id = "wp_ID (pb_Page pub)"
  have ok: "revisions_ok r" "mwf (wk_searchChunks r)" and colons: "\<And>i v. mget (wk_pageRevisions r) i = Some v \<Longrightarrow> CHR '':'' \<notin> set i"
    using inv by (auto simp: wiki_inv_def wiki_maps_def index_ok_def)
  note get = apply_revision_get [OF ok(1) fits] and chunk = apply_chunk_get [OF ok(2), of pub]
  have ids: "wp_CurrentRevisionID (pb_Page pub) = pr_ID ?v" "pr_PageID ?v = ?id" using fits by (simp_all add: fits_page_def)
  have own: "indexed ?r k c" if "chunkOf ?v k = Some c" for k c
    unfolding indexed_def using that ids get(1)
    by (intro exI [of _ ?id] exI [of _ "publishedPage pub"] exI [of _ "clonePageRevision ?v"]) (simp add: apply_fields go_map)
  have "mget (wk_searchChunks ?r) k = Some c \<longleftrightarrow> indexed ?r k c" for k c
  proof
    assume L: "mget (wk_searchChunks ?r) k = Some c"
    show "indexed ?r k c"
    proof (cases "chunkOf ?v k")
      case None
      with L have "mget (wk_searchChunks r) k = Some c" "ch_PageID c \<noteq> ?id"
        by (auto simp: chunk split: option.splits if_splits)
      with index_get [OF inv] have "indexed r k c" by blast
      with inv obtain p v where "mget (wk_pages r) (ch_PageID c) = Some p"
        "mget (wk_pageRevisions r) (wp_CurrentRevisionID p) = Some v" "chunkOf v k = Some c" by (rule indexed_page)
      with \<open>ch_PageID c \<noteq> ?id\<close> get(2) show ?thesis
        unfolding indexed_def by (intro exI [of _ "ch_PageID c"] exI [of _ p] exI [of _ v]) (simp add: apply_fields go_map)
    qed (use L own in \<open>simp add: chunk\<close>)
  next
    assume "indexed ?r k c"
    then obtain i p v where page: "mget (wk_pages ?r) i = Some p"
      and v: "mget (wk_pageRevisions ?r) (wp_CurrentRevisionID p) = Some v" "chunkOf v k = Some c"
      unfolding indexed_def by blast
    show "mget (wk_searchChunks ?r) k = Some c"
    proof (cases "i = ?id")
      case True
      with page have "p = publishedPage pub" by (simp add: apply_fields go_map)
      with v get(1) ids have "chunkOf ?v k = Some c" by auto
      then show ?thesis by (simp add: chunk)
    next
      case False
      with page have old: "mget (wk_pages r) i = Some p" by (simp add: apply_fields go_map)
      from inv old obtain w vs where w: "mget (wk_pageRevisions r) (wp_CurrentRevisionID p) = Some w"
        "pr_ID w = wp_CurrentRevisionID p" "pr_PageID w = i" "wp_ID p = i"
        "lineage (wk_pageRevisions r) i (wp_CurrentRevisionID p) (w # vs)" by (rule inv_current)
      then have "v = w" using get(2) v(1) by auto
      have "chunkOf ?v k = None"
      proof (cases "chunkOf ?v k")
        case (Some d)
        with v(2) \<open>v = w\<close> have "pr_ID w = pr_ID ?v" using chunk_ids_separate [of w k c ?v d] colons [OF w(1)] w(2) free by simp
        with get(1) v(1) w(2) \<open>v = w\<close> have "w = clonePageRevision ?v" by auto
        with w(3) ids False show ?thesis by simp
      qed
      moreover have "mget (wk_searchChunks r) k = Some c"
        using index_get [OF inv] old w(1) v(2) \<open>v = w\<close> unfolding indexed_def by blast
      moreover have "ch_PageID c = i" using chunkOf_Some [OF v(2)] \<open>v = w\<close> w(3) by simp
      ultimately show ?thesis using False by (simp add: chunk)
    qed
  qed
  moreover have "CHR '':'' \<notin> set i" if "mget (wk_pageRevisions ?r) i = Some v" for i v
    using that free colons by (auto simp: get(1) split: if_splits)
  ultimately show ?thesis unfolding index_ok_def by blast
qed

lemma apply_inv:
  assumes "wiki_inv r" "fits_page r pub" "fits_topics r pub" "CHR '':'' \<notin> set (pr_ID (pb_Revision pub))"
  shows "wiki_inv (applyPublication pub r)"
  using assms apply_maps apply_slugs apply_revisions apply_topics apply_placements apply_index
  by (simp add: wiki_inv_def [of "applyPublication pub r"]) (simp add: wiki_inv_def)

section \<open>Batches of publications\<close>

lemma validateEach_ok: "validateEach check xs = Inr u \<longleftrightarrow> (\<forall>x \<in> set xs. check x = Inr ())"
  by (induction xs) (auto split: sum.splits)

lemma validateTopic_ok:
  "validateTopic topics maxDepth t = Inr u \<longleftrightarrow>
     (tp_ParentID t \<noteq> [] \<longrightarrow> mget topics (tp_ParentID t) \<noteq> None) \<and> topicDepth (tp_ID t) topics maxDepth \<le> maxDepth"
  by (auto simp: validateTopic_def)

definition keeps_topics :: "wiki \<Rightarrow> topic list \<Rightarrow> bool" where
  "keeps_topics r ts \<longleftrightarrow> (\<forall>t \<in> set ts. \<forall>u. mget (wk_topics r) (tp_ID t) = Some u \<longrightarrow> u = t)"

lemma mergeTopics_ok:
  "mergeTopics (wk_topics r) seen topics ts = Inr topics' \<Longrightarrow>
     topics' = fill tp_ID ts topics \<and> distinct (map tp_ID ts) \<and> set seen \<inter> tp_ID ` set ts = {} \<and>
     (\<forall>t \<in> set ts. tp_ID t \<noteq> []) \<and> keeps_topics r ts"
proof (induction "wk_topics r" seen topics ts rule: mergeTopics.induct)
  case (1 seen topics)
  then show ?case by (simp add: fill_def keeps_topics_def)
next
  case (2 seen topics t ts)
  from "2.prems" have "mergeTopics (wk_topics r) (tp_ID t # seen) (mput (tp_ID t) t topics) ts = Inr topics'"
    and t: "tp_ID t \<noteq> []" "tp_ID t \<notin> set seen" "\<And>u. mget (wk_topics r) (tp_ID t) = Some u \<Longrightarrow> u = t"
    by (auto split: if_splits option.splits)
  from "2.hyps" [OF _ _ _ this(1)] "2.prems"
  have "topics' = fill tp_ID ts (mput (tp_ID t) t topics)" "distinct (map tp_ID ts)"
    "set (tp_ID t # seen) \<inter> tp_ID ` set ts = {}" "\<forall>t \<in> set ts. tp_ID t \<noteq> []" "keeps_topics r ts"
    by (auto split: if_splits)
  moreover have "keeps_topics r (t # ts)" using \<open>keeps_topics r ts\<close> t(3) unfolding keeps_topics_def by simp
  moreover have "fill tp_ID (t # ts) topics = fill tp_ID ts (mput (tp_ID t) t topics)" by (simp add: fill_def)
  ultimately show ?case using t(1,2) by simp
qed

lemma rooted_parent: "rooted topics i \<Longrightarrow> i = [] \<or> mget topics i \<noteq> None"
  by (auto elim: rooted.cases)

lemma validateTopics_ok:
  assumes "topics_ok r" and "validateTopics r (pb_Topics pub) = Inr topics"
  shows "topics = topicsAfter r pub" "distinct (map tp_ID (pb_Topics pub))" "keeps_topics r (pb_Topics pub)"
    "\<forall>t \<in> set (pb_Topics pub). tp_ID t \<noteq> [] \<and> rooted (topicsAfter r pub) (tp_ID t)"
proof -
  from assms(2) have merged: "mergeTopics (wk_topics r) [] (wk_topics r) (pb_Topics pub) = Inr topics"
    and each: "validateEach (validateTopic topics (wk_maxTopicDepth r)) (pb_Topics pub) = Inr ()"
    by (auto simp: validateTopics_def split: sum.splits)
  note m = mergeTopics_ok [OF merged]
  then show eq: "topics = topicsAfter r pub" and dist: "distinct (map tp_ID (pb_Topics pub))"
    and "keeps_topics r (pb_Topics pub)" by (auto simp: topicsAfter_def)
  have parents: "tp_ParentID t = [] \<or> mget topics (tp_ParentID t) \<noteq> None" if "mget topics j = Some t" for j t
  proof (cases "t \<in> set (pb_Topics pub)")
    case True
    with each show ?thesis by (auto simp: validateEach_ok validateTopic_ok)
  next
    case False
    with that eq topicsAfter_get have j: "mget (wk_topics r) j = Some t" by blast
    with assms(1) have "rooted (wk_topics r) j" "j \<noteq> []" by (auto simp: topics_ok_def)
    with j have "rooted (wk_topics r) (tp_ParentID t)" by (auto elim: rooted.cases)
    then show ?thesis using rooted_parent topicsAfter_keeps eq by blast
  qed
  show "\<forall>t \<in> set (pb_Topics pub). tp_ID t \<noteq> [] \<and> rooted (topicsAfter r pub) (tp_ID t)"
  proof
    fix t assume t: "t \<in> set (pb_Topics pub)"
    with each have "topicDepthFrom topics (wk_maxTopicDepth r) [] 0 (tp_ID t) \<le> wk_maxTopicDepth r"
      by (auto simp: validateEach_ok validateTopic_ok topicDepth_def)
    moreover have "mget topics (tp_ID t) \<noteq> None"
      using t latest_distinct [OF dist t] by (simp add: eq topicsAfter_def mget_fill)
    ultimately have "rooted topics (tp_ID t)"
      using topicDepthFrom_rooted [of topics "wk_maxTopicDepth r" "[]" 0 "tp_ID t"] parents by fast
    moreover have "tp_ID t \<noteq> []" using m t by simp
    ultimately show "tp_ID t \<noteq> [] \<and> rooted (topicsAfter r pub) (tp_ID t)" using eq by simp
  qed
qed

lemma validatePublication_ok:
  assumes "topics_ok r" and "validatePublication r pub pending = Inr ()"
  shows "fits_page r pub" "fits_topics r pub" "keeps_topics r (pb_Topics pub)"
proof -
  from assms(2) obtain topics where
    topics: "validateTopics r (pb_Topics pub) = Inr topics" "validatePlacement topics (pb_Page pub) (pb_Placement pub) = Inr ()"
    and page: "wp_ID (pb_Page pub) \<noteq> []" "wp_Slug (pb_Page pub) \<noteq> []" "pr_ID (pb_Revision pub) \<noteq> []"
      "wp_CurrentRevisionID (pb_Page pub) = pr_ID (pb_Revision pub)" "wp_ID (pb_Page pub) = pr_PageID (pb_Revision pub)"
      "\<not> (case mget (wk_pageIDsBySlug r) (wp_Slug (pb_Page pub)) of None \<Rightarrow> False | Some i \<Rightarrow> i \<noteq> wp_ID (pb_Page pub))"
      "validateExistingPage r (pb_Page pub) (pb_Revision pub) (pb_Revive pub) = Inr ()"
      "\<not> (case mget (wk_pageRevisions r) (pr_ID (pb_Revision pub)) of None \<Rightarrow> False | Some existing \<Rightarrow> existing \<noteq> pb_Revision pub)"
    by (simp add: validatePublication_def Let_def split: if_splits sum.splits)
  note t = validateTopics_ok [OF assms(1) topics(1)]
  show "fits_page r pub"
    using page by (auto simp: fits_page_def validateExistingPage_def split: option.splits if_splits)
  show "keeps_topics r (pb_Topics pub)" by (rule t(3))
  show "fits_topics r pub"
    using t topics(2) by (auto simp: fits_topics_def validatePlacement_def split: option.splits if_splits)
qed

abbreviation pubID :: "publication \<Rightarrow> string" where "pubID pub \<equiv> wp_ID (pb_Page pub)"
abbreviation pubSlug :: "publication \<Rightarrow> string" where "pubSlug pub \<equiv> wp_Slug (pb_Page pub)"
abbreviation pubRevision :: "publication \<Rightarrow> string" where "pubRevision pub \<equiv> pr_ID (pb_Revision pub)"

text \<open>A batch that names every page once and mints its revision identifiers the way \<open>StableID\<close> does: one per
  publication, without colons.\<close>

definition batch_ok :: "publication list \<Rightarrow> bool" where
  "batch_ok pubs \<longleftrightarrow>
     distinct (map pubID pubs) \<and> distinct (map pubRevision pubs) \<and> list_all (\<lambda>pub. CHR '':'' \<notin> set (pubRevision pub)) pubs"

lemma pendingPublications_ok:
  "pendingPublications r ids slugs pubs = Inr pending \<Longrightarrow>
     pending = filter (\<lambda>pub. \<not> isApplied r pub) pubs \<and>
     (\<forall>pub \<in> set pending. validatePublication r pub ids = Inr () \<and>
        (\<forall>i. mget slugs (pubSlug pub) = Some i \<longrightarrow> i = pubID pub)) \<and>
     (\<forall>a \<in> set pending. \<forall>b \<in> set pending. pubSlug a = pubSlug b \<longrightarrow> pubID a = pubID b)"
proof (induction pubs arbitrary: slugs pending)
  case (Cons pub pubs)
  show ?case
  proof (cases "isApplied r pub")
    case False
    with Cons.prems obtain rest where
      rest: "pendingPublications r ids (mput (pubSlug pub) (pubID pub) slugs) pubs = Inr rest" "pending = pub # rest"
      and pub: "validatePublication r pub ids = Inr ()" "\<forall>i. mget slugs (pubSlug pub) = Some i \<longrightarrow> i = pubID pub"
      by (auto split: sum.splits if_splits option.splits)
    note IH = Cons.IH [OF rest(1)]
    have rest_slugs: "pubSlug q = pubSlug pub \<Longrightarrow> pubID q = pubID pub"
      "\<And>i. mget slugs (pubSlug q) = Some i \<Longrightarrow> i = pubID q" if "q \<in> set rest" for q
    proof -
      have "\<forall>i. mget (mput (pubSlug pub) (pubID pub) slugs) (pubSlug q) = Some i \<longrightarrow> i = pubID q"
        using IH that by blast
      then show "pubSlug q = pubSlug pub \<Longrightarrow> pubID q = pubID pub" "\<And>i. mget slugs (pubSlug q) = Some i \<Longrightarrow> i = pubID q"
        using pub(2) by (auto simp: go_map split: if_splits)
    qed
    have "pubSlug a = pubSlug b \<longrightarrow> pubID a = pubID b" if "a \<in> set pending" "b \<in> set pending" for a b
      using that IH rest(2) rest_slugs(1) by (metis set_ConsD)
    moreover have "validatePublication r q ids = Inr () \<and> (\<forall>i. mget slugs (pubSlug q) = Some i \<longrightarrow> i = pubID q)"
      if "q \<in> set pending" for q
      using that IH rest(2) pub rest_slugs(2) by (metis set_ConsD)
    moreover have "rest = filter (\<lambda>pub. \<not> isApplied r pub) pubs" using IH by (rule conjunct1)
    then have "pending = filter (\<lambda>pub. \<not> isApplied r pub) (pub # pubs)" using rest(2) False by simp
    ultimately show ?thesis by blast
  next
    case True
    then have rest: "pendingPublications r ids slugs pubs = Inr pending" using Cons.prems by simp
    have same: "filter (\<lambda>pub. \<not> isApplied r pub) (pub # pubs) = filter (\<lambda>pub. \<not> isApplied r pub) pubs"
      using True by simp
    show ?thesis unfolding same by (rule Cons.IH [OF rest])
  qed
qed simp

lemma pending_distinct:
  assumes "\<forall>a \<in> set ps. \<forall>b \<in> set ps. pubSlug a = pubSlug b \<longrightarrow> pubID a = pubID b" and "distinct (map pubID ps)"
  shows "distinct (map pubSlug ps)"
proof -
  have "distinct ps" "inj_on pubID (set ps)" using assms(2) by (simp_all add: distinct_map)
  then show ?thesis using assms(1) unfolding distinct_map inj_on_def by blast
qed

text \<open>The publications still to be applied fit the state at their turn: \<open>r0\<close> is the state the batch was
  validated against, \<open>r\<close> the state after the publications before them.\<close>

definition ready :: "wiki \<Rightarrow> publication list \<Rightarrow> wiki \<Rightarrow> bool" where
  "ready r0 ps r \<longleftrightarrow>
     wiki_inv r \<and> (\<forall>i t. mget (wk_topics r0) i = Some t \<longrightarrow> mget (wk_topics r) i = Some t) \<and>
     (\<forall>pub \<in> set ps. fits_page r pub \<and> fits_topics r0 pub \<and> keeps_topics r0 (pb_Topics pub) \<and>
        CHR '':'' \<notin> set (pubRevision pub))"

lemma rooted_mono:
  "rooted topics i \<Longrightarrow> (\<And>j t. mget topics j = Some t \<Longrightarrow> mget topics' j = Some t) \<Longrightarrow> rooted topics' i"
  by (induction rule: rooted.induct) (auto intro: rooted.intros)

lemma topicsAfter_mono:
  assumes "\<And>i t. mget (wk_topics r0) i = Some t \<Longrightarrow> mget (wk_topics r) i = Some t"
    and "mget (topicsAfter r0 pub) j = Some t"
  shows "mget (topicsAfter r pub) j = Some t"
  using assms by (auto simp: topicsAfter_def mget_fill split: option.splits)

lemma fits_topics_mono:
  assumes "\<And>i t. mget (wk_topics r0) i = Some t \<Longrightarrow> mget (wk_topics r) i = Some t" and "fits_topics r0 pub"
  shows "fits_topics r pub"
proof -
  note mono = topicsAfter_mono [OF assms(1)]
  have "rooted (topicsAfter r pub) (tp_ID t)" if "t \<in> set (pb_Topics pub)" for t
    using assms(2) that rooted_mono [of "topicsAfter r0 pub" "tp_ID t" "topicsAfter r pub"] mono
    unfolding fits_topics_def by blast
  moreover have "mget (topicsAfter r pub) (pl_TopicID pl) \<noteq> None" if "pb_Placement pub = Some pl" for pl
    using assms(2) that mono unfolding fits_topics_def by blast
  ultimately show ?thesis using assms(2) unfolding fits_topics_def by blast
qed

lemma fits_page_other:
  assumes "fits_page r q" and "pubID q \<noteq> pubID pub" and "pubSlug q \<noteq> pubSlug pub" and "pubRevision q \<noteq> pubRevision pub"
  shows "fits_page (applyPublication pub r) q"
  using assms by (auto simp: fits_page_def apply_slug_index apply_fields go_map split: if_splits)

lemma ready_step:
  assumes "ready r0 (pub # ps) r" and "pubID pub \<notin> pubID ` set ps" and "pubSlug pub \<notin> pubSlug ` set ps"
    and "pubRevision pub \<notin> pubRevision ` set ps"
  shows "ready r0 ps (applyPublication pub r)"
proof -
  have pub: "wiki_inv r" "fits_page r pub" "fits_topics r0 pub" "keeps_topics r0 (pb_Topics pub)" "CHR '':'' \<notin> set (pubRevision pub)"
    and kept: "\<And>i t. mget (wk_topics r0) i = Some t \<Longrightarrow> mget (wk_topics r) i = Some t"
    using assms(1) by (auto simp: ready_def)
  have "wiki_inv (applyPublication pub r)"
    using apply_inv [OF pub(1,2) fits_topics_mono [OF kept pub(3)] pub(5)] by blast
  moreover have "mget (wk_topics (applyPublication pub r)) i = Some t" if t: "mget (wk_topics r0) i = Some t" for i t
  proof (cases "latest tp_ID (pb_Topics pub) i")
    case None
    then show ?thesis using kept [OF t] by (simp add: apply_fields topicsAfter_def mget_fill)
  next
    case (Some u)
    with latest_Some [OF Some] pub(4) t have "u = t" unfolding keeps_topics_def by auto
    with Some show ?thesis by (simp add: apply_fields topicsAfter_def mget_fill)
  qed
  moreover have "fits_page (applyPublication pub r) q" if "q \<in> set ps" for q
    using that assms by (intro fits_page_other) (simp_all add: ready_def image_iff, metis+)
  ultimately show ?thesis using assms(1) by (auto simp: ready_def)
qed

lemma ready_fold:
  "ready r0 ps r \<Longrightarrow> distinct (map pubID ps) \<Longrightarrow> distinct (map pubSlug ps) \<Longrightarrow> distinct (map pubRevision ps) \<Longrightarrow>
     wiki_inv (fold applyPublication ps r)"
proof (induction ps arbitrary: r)
  case Nil
  then show ?case by (simp add: ready_def)
next
  case (Cons pub ps)
  then show ?case using ready_step [OF Cons.prems(1)] by simp
qed

lemma PublishPages_ok:
  assumes inv: "wiki_inv r" and "batch_ok pubs" and "PublishPages r pubs = (r', Inr ())"
  obtains ps where "ps = filter (\<lambda>pub. \<not> isApplied r pub) pubs" "r' = fold applyPublication ps r"
    "ready r ps r" "distinct (map pubID ps)" "distinct (map pubSlug ps)" "distinct (map pubRevision ps)"
proof -
  from assms(3) obtain ps where ps: "pendingPublications r (map pubID pubs) [] pubs = Inr ps"
    and r': "r' = fold applyPublication ps r"
    by (auto simp: PublishPages_def split: sum.splits)
  note ok = pendingPublications_ok [OF ps]
  then have filtered: "ps = filter (\<lambda>pub. \<not> isApplied r pub) pubs" by (rule conjunct1)
  with assms(2) have dist: "distinct (map pubID ps)" "distinct (map pubRevision ps)"
    and free: "\<And>pub. pub \<in> set ps \<Longrightarrow> CHR '':'' \<notin> set (pubRevision pub)"
    by (auto simp: batch_ok_def list_all_iff distinct_map inj_on_def)
  moreover have "distinct (map pubSlug ps)" using ok dist(1) by (intro pending_distinct) blast+
  moreover have "topics_ok r" using inv by (simp add: wiki_inv_def)
  then have "fits_page r pub \<and> fits_topics r pub \<and> keeps_topics r (pb_Topics pub)" if "pub \<in> set ps" for pub
    using validatePublication_ok ok that by blast
  then have "ready r ps r" using inv free by (simp add: ready_def)
  ultimately show thesis using that filtered r' by blast
qed

lemma PublishPages_inv: "wiki_inv r \<Longrightarrow> batch_ok pubs \<Longrightarrow> wiki_inv (fst (PublishPages r pubs))"
proof (cases "PublishPages r pubs")
  case (Pair r' res)
  assume *: "wiki_inv r" "batch_ok pubs"
  show ?thesis
  proof (cases res)
    case (Inl e)
    with Pair have "r' = r" by (auto simp: PublishPages_def split: sum.splits)
    with * Pair show ?thesis by simp
  next
    case (Inr u)
    with Pair * PublishPages_ok [of r pubs r'] ready_fold [of r _ r] show ?thesis by auto
  qed
qed

lemma latest_Cons: "latest key (x # xs) k = (case latest key xs k of None \<Rightarrow> if key x = k then Some x else None | Some y \<Rightarrow> Some y)"
  by (auto simp: latest_def map_add_def split: option.splits)

lemma fold_apply_get:
  "mget (wk_pages (fold applyPublication ps r)) i =
     (case latest pubID ps i of None \<Rightarrow> mget (wk_pages r) i | Some pub \<Rightarrow> Some (publishedPage pub))"
  "mget (wk_pageRevisions (fold applyPublication ps r)) i =
     (case latest pubRevision ps i of
        None \<Rightarrow> mget (wk_pageRevisions r) i | Some pub \<Rightarrow> Some (clonePageRevision (pb_Revision pub)))"
  by (induction ps arbitrary: r)
    (simp_all add: latest_Cons apply_fields go_map latest_def [where xs = "[]"] split: option.split)

lemma ready_revision_mono:
  assumes "ready r ps r" and "mget (wk_pageRevisions r) i = Some v"
  shows "mget (wk_pageRevisions (fold applyPublication ps r)) i = Some v"
proof (cases "latest pubRevision ps i")
  case (Some pub)
  with latest_Some [OF Some] assms(1) have "fits_page r pub" "pubRevision pub = i" by (auto simp: ready_def)
  with assms(2) have "v = pb_Revision pub" by (simp add: fits_page_def)
  moreover have "clonePageRevision v = v" using assms by (auto simp: ready_def wiki_inv_def revisions_ok_def)
  ultimately show ?thesis using Some by (simp add: fold_apply_get)
qed (simp add: fold_apply_get assms(2))

section \<open>The revision history\<close>

lemma history_lineage:
  assumes "wiki_inv r" and "mget (wk_pages r) i = Some p" and "lineage (wk_pageRevisions r) i (wp_CurrentRevisionID p) vs"
  shows "PageRevisionHistory r i = Inr (rev (map clonePageRevision vs))"
proof -
  have keys: "\<forall>i w. mget (wk_pageRevisions r) i = Some w \<longrightarrow> pr_ID w = i"
    using assms(1) unfolding wiki_inv_def revisions_ok_def by blast
  from historyFrom_lineage [OF assms(3) lineage_distinct [OF assms(3) keys] _ keys, of "[]"] assms(2)
  show ?thesis by (simp add: PageRevisionHistory_def)
qed

lemma published_history:
  assumes inv: "wiki_inv r" and pubs: "batch_ok pubs" "PublishPages r pubs = (r', Inr ())"
    and pub: "pub \<in> set pubs" "\<not> isApplied r pub"
  shows "PageRevisionHistory r' (pubID pub) =
    Inr ((case PageRevisionHistory r (pubID pub) of Inl _ \<Rightarrow> [] | Inr h \<Rightarrow> h) @ [clonePageRevision (pb_Revision pub)])"
proof -
  from PublishPages_ok [OF inv pubs] obtain ps where ps: "ps = filter (\<lambda>pub. \<not> isApplied r pub) pubs"
    "r' = fold applyPublication ps r" "ready r ps r" "distinct (map pubID ps)" "distinct (map pubRevision ps)" by metis
  have inv': "wiki_inv r'" using PublishPages_inv [OF inv pubs(1)] pubs(2) by simp
  have mem: "pub \<in> set ps" using pub ps(1) by simp
  then have fits: "fits_page r pub" using ps(3) by (simp add: ready_def)
  let ?v = "pb_Revision pub" and ?id = "pubID pub"
  have page: "mget (wk_pages r') ?id = Some (publishedPage pub)"
    and rev: "mget (wk_pageRevisions r') (pr_ID ?v) = Some (clonePageRevision ?v)"
    using latest_distinct [OF ps(4) mem] latest_distinct [OF ps(5) mem] by (simp_all add: ps(2) fold_apply_get)
  have lin: "lineage (wk_pageRevisions r') ?id (wp_CurrentRevisionID (publishedPage pub)) (clonePageRevision ?v # vs)"
    if "lineage (wk_pageRevisions r') ?id (pr_BaseRevisionID ?v) vs" for vs
    using lineage.base [of "pr_ID ?v" "wk_pageRevisions r'" "clonePageRevision ?v" ?id vs] rev that fits by (simp add: fits_page_def)
  show ?thesis
  proof (cases "mget (wk_pages r) ?id")
    case None
    with fits have "pr_BaseRevisionID ?v = []" by (simp add: fits_page_def)
    then have "lineage (wk_pageRevisions r') ?id (wp_CurrentRevisionID (publishedPage pub)) [clonePageRevision ?v]"
      by (intro lin) (simp add: lineage.root)
    from history_lineage [OF inv' page this] None show ?thesis by (simp add: PageRevisionHistory_def)
  next
    case (Some e)
    with fits have base: "wp_CurrentRevisionID e = pr_BaseRevisionID ?v" by (simp add: fits_page_def)
    from inv Some obtain v vs where vs: "lineage (wk_pageRevisions r) ?id (wp_CurrentRevisionID e) (v # vs)" by (rule inv_current)
    then have "lineage (wk_pageRevisions r') ?id (pr_BaseRevisionID ?v) (v # vs)"
      using lineage_mono ready_revision_mono [OF ps(3)] unfolding base ps(2) by blast
    from history_lineage [OF inv' page lin [OF this]] history_lineage [OF inv Some vs] show ?thesis by simp
  qed
qed

section \<open>The search index\<close>

lemma indexed_cong:
  "wk_pages r' = wk_pages r \<Longrightarrow> wk_pageRevisions r' = wk_pageRevisions r \<Longrightarrow> indexed r' = indexed r"
  by (intro ext) (simp add: indexed_def)

lemma indexed_current:
  "indexed r k c \<longleftrightarrow>
     (\<exists>i rid v. map_option wp_CurrentRevisionID (mget (wk_pages r) i) = Some rid \<and>
        mget (wk_pageRevisions r) rid = Some v \<and> chunkOf v k = Some c)"
  unfolding indexed_def by (auto; metis)

lemma indexed_unique: "wiki_inv r \<Longrightarrow> indexed r k c \<Longrightarrow> indexed r k d \<Longrightarrow> c = d"
  using index_get [of r k c] index_get [of r k d] by simp

lemma rebuild_get:
  assumes inv: "wiki_inv r" and revs: "wk_pageRevisions s = wk_pageRevisions r"
  shows "set ps \<subseteq> set (wk_pages r) \<Longrightarrow> mwf m \<Longrightarrow> (\<And>k c. mget m k = Some c \<Longrightarrow> indexed r k c) \<Longrightarrow>
    \<exists>m'. rebuildChunks s m ps = Inr m' \<and> mwf m' \<and> (\<forall>k c. mget m' k = Some c \<longrightarrow> indexed r k c) \<and>
      (\<forall>k. mget m k \<noteq> None \<longrightarrow> mget m' k \<noteq> None) \<and>
      (\<forall>i p v k. (i, p) \<in> set ps \<longrightarrow> mget (wk_pageRevisions r) (wp_CurrentRevisionID p) = Some v \<longrightarrow>
         chunkOf v k \<noteq> None \<longrightarrow> mget m' k \<noteq> None)"
proof (induction ps arbitrary: m)
  case (Cons ip ps)
  obtain i p where ip: "ip = (i, p)" by force
  have maps: "mwf (wk_pages r)" using inv by (simp add: wiki_inv_def wiki_maps_def)
  have page: "mget (wk_pages r) i = Some p" using Cons.prems(1) ip map_of_is_SomeI [OF maps] by simp
  from inv page obtain v vs where v: "mget (wk_pageRevisions r) (wp_CurrentRevisionID p) = Some v" by (rule inv_current)
  let ?m = "fill ch_ID (buildSearchChunks v) m"
  have get: "mget ?m k = (case chunkOf v k of None \<Rightarrow> mget m k | Some c \<Rightarrow> Some c)" for k
    by (simp add: mget_fill chunkOf_latest)
  have good: "indexed r k c" if "mget ?m k = Some c" for k c
    using that page v Cons.prems(3) by (auto simp: get indexed_def split: option.splits)
  have "set ps \<subseteq> set (wk_pages r)" "mwf ?m" using Cons.prems by simp_all
  from Cons.IH [OF this good] obtain m' where m': "rebuildChunks s ?m ps = Inr m'" "mwf m'"
    "\<forall>k c. mget m' k = Some c \<longrightarrow> indexed r k c" "\<forall>k. mget ?m k \<noteq> None \<longrightarrow> mget m' k \<noteq> None"
    "\<forall>i p v k. (i, p) \<in> set ps \<longrightarrow> mget (wk_pageRevisions r) (wp_CurrentRevisionID p) = Some v \<longrightarrow>
       chunkOf v k \<noteq> None \<longrightarrow> mget m' k \<noteq> None" by blast
  have "rebuildChunks s m (ip # ps) = Inr m'" using m'(1) v by (simp add: ip revs fill_def)
  moreover have "mget m' k \<noteq> None" if "mget m k \<noteq> None \<or> chunkOf v k \<noteq> None" for k
  proof -
    have "mget ?m k \<noteq> None" using that by (auto simp: get split: option.splits)
    with m'(4) show ?thesis by blast
  qed
  moreover have "mget m' k \<noteq> None" if "(j, q) \<in> set (ip # ps)" "mget (wk_pageRevisions r) (wp_CurrentRevisionID q) = Some w"
    "chunkOf w k \<noteq> None" for j q w k
  proof (cases "(j, q) \<in> set ps")
    case False
    with that(1) ip have "q = p" by simp
    with that v calculation(2) show ?thesis by simp
  qed (use that m'(5) in blast)
  ultimately show ?case using m'(2,3) by blast
qed simp

lemma rebuild_index:
  assumes inv: "wiki_inv r" and same: "wk_pages s = wk_pages r" "wk_pageRevisions s = wk_pageRevisions r"
  obtains m where "RebuildSearchIndex s = (s\<lparr>wk_searchChunks := m\<rparr>, Inr ())" "mwf m" "mget m = mget (wk_searchChunks r)"
proof -
  from rebuild_get [OF inv same(2), of "wk_pages s" "[]"] same(1) obtain m where
    m: "rebuildChunks s [] (wk_pages s) = Inr m" "mwf m" "\<And>k c. mget m k = Some c \<Longrightarrow> indexed r k c"
      "\<And>i p v k. (i, p) \<in> set (wk_pages r) \<Longrightarrow> mget (wk_pageRevisions r) (wp_CurrentRevisionID p) = Some v \<Longrightarrow>
         chunkOf v k \<noteq> None \<Longrightarrow> mget m k \<noteq> None" by auto
  have "mget m k = Some c \<longleftrightarrow> mget (wk_searchChunks r) k = Some c" for k c
  proof
    assume "mget (wk_searchChunks r) k = Some c"
    then have c: "indexed r k c" using index_get [OF inv] by blast
    then obtain i p v where "mget (wk_pages r) i = Some p" "mget (wk_pageRevisions r) (wp_CurrentRevisionID p) = Some v"
      "chunkOf v k = Some c" unfolding indexed_def by blast
    then have "mget m k \<noteq> None" using m(4) [of i p v k] by (simp add: map_of_SomeD)
    then obtain d where "mget m k = Some d" by blast
    with m(3) c indexed_unique [OF inv] show "mget m k = Some c" by metis
  qed (use m(3) index_get [OF inv] in blast)
  then have "mget m = mget (wk_searchChunks r)" by (intro ext) (metis not_Some_eq)
  with m that show thesis by (simp add: RebuildSearchIndex_def)
qed

section \<open>The topic tree\<close>

lemma indexTopics_ok:
  "indexTopics topics ts = Inr topics' \<Longrightarrow> mwf topics \<Longrightarrow> (\<And>i t. mget topics i = Some t \<Longrightarrow> tp_ID t = i \<and> i \<noteq> []) \<Longrightarrow>
     mwf topics' \<and> (\<forall>i t. mget topics' i = Some t \<longleftrightarrow> mget topics i = Some t \<or> t \<in> set ts \<and> tp_ID t = i) \<and>
     (\<forall>i t. mget topics' i = Some t \<longrightarrow> tp_ID t = i \<and> i \<noteq> [])"
proof (induction topics ts rule: indexTopics.induct)
  case (2 topics t ts)
  let ?m = "mput (tp_ID t) t topics"
  from "2.prems"(1) have t: "tp_ID t \<noteq> []" "mget topics (tp_ID t) = None" "indexTopics ?m ts = Inr topics'"
    and guards: "\<not> (tp_ID t = [] \<or> tp_Slug t = [] \<or> tp_Title t = [])" "\<not> mget topics (tp_ID t) \<noteq> None"
    by (auto split: if_splits)
  have get: "mget ?m i = Some u \<longleftrightarrow> i = tp_ID t \<and> u = t \<or> mget topics i = Some u" for i u
    using t(2) by (auto simp: go_map)
  have keys: "tp_ID u = i \<and> i \<noteq> []" if "mget ?m i = Some u" for i u
    using that t(1) "2.prems"(3) unfolding get by metis
  have "mwf ?m" using "2.prems"(2) by simp
  from "2.IH" [OF guards t(3) this keys] show ?case unfolding get set_simps insert_iff by metis
qed simp

lemma indexPlacements_ok:
  "indexPlacements r topics pls xs = Inr pls' \<Longrightarrow> mwf pls \<Longrightarrow>
     (\<And>i pl. mget pls i = Some pl \<Longrightarrow> pl_PageID pl = i \<and> mget (wk_pages r) i \<noteq> None \<and> mget topics (pl_TopicID pl) \<noteq> None) \<Longrightarrow>
     mwf pls' \<and> (\<forall>i pl. mget pls' i = Some pl \<longrightarrow>
       pl_PageID pl = i \<and> mget (wk_pages r) i \<noteq> None \<and> mget topics (pl_TopicID pl) \<noteq> None)"
proof (induction r topics pls xs rule: indexPlacements.induct)
  case (2 r topics pls pl xs)
  from "2.prems"(1) have guards: "\<not> mget (wk_pages r) (pl_PageID pl) = None" "\<not> mget topics (pl_TopicID pl) = None"
    "\<not> mget pls (pl_PageID pl) \<noteq> None" "\<not> pl_Rank pl < 0"
    and rest: "indexPlacements r topics (mput (pl_PageID pl) pl pls) xs = Inr pls'"
    by (auto split: if_splits)
  have "pl_PageID q = i \<and> mget (wk_pages r) i \<noteq> None \<and> mget topics (pl_TopicID q) \<noteq> None"
    if "mget (mput (pl_PageID pl) pl pls) i = Some q" for i q
  proof (cases "i = pl_PageID pl")
    case True
    with that guards(1,2) show ?thesis by (simp add: go_map)
  next
    case False
    with that "2.prems"(3) [of i q] show ?thesis by (simp add: go_map)
  qed
  from "2.IH" [OF guards rest _ this] "2.prems"(2) show ?case by simp
qed simp

lemma ReplaceTopicTree_inv: "wiki_inv r \<Longrightarrow> wiki_inv (fst (ReplaceTopicTree r tree))"
proof (cases "ReplaceTopicTree r tree")
  case (Pair r' res)
  assume inv: "wiki_inv r"
  show ?thesis
  proof (cases "r' = r")
    case False
    with Pair obtain topics pls where topics: "indexTopics [] (tt_Topics tree) = Inr topics"
      and each: "validateEach (validateTopic topics (wk_maxTopicDepth r)) (tt_Topics tree) = Inr ()"
      and pls: "indexPlacements r topics [] (tt_Placements tree) = Inr pls"
      and r': "r' = r\<lparr>wk_topics := topics, wk_placements := pls\<rparr>"
      by (auto simp: ReplaceTopicTree_def split: sum.splits)
    have indexed: "mwf topics \<and> (\<forall>i t. mget topics i = Some t \<longleftrightarrow> mget [] i = Some t \<or> t \<in> set (tt_Topics tree) \<and> tp_ID t = i) \<and>
        (\<forall>i t. mget topics i = Some t \<longrightarrow> tp_ID t = i \<and> i \<noteq> [])"
      by (rule indexTopics_ok [OF topics]) simp_all
    then have t: "mwf topics" "\<And>i t. mget topics i = Some t \<Longrightarrow> t \<in> set (tt_Topics tree)"
      "\<And>i t. mget topics i = Some t \<Longrightarrow> tp_ID t = i \<and> i \<noteq> []" by (blast, metis map_of.simps(1) option.distinct(1), blast)
    have placed: "mwf pls \<and> (\<forall>i pl. mget pls i = Some pl \<longrightarrow>
        pl_PageID pl = i \<and> mget (wk_pages r) i \<noteq> None \<and> mget topics (pl_TopicID pl) \<noteq> None)"
      by (rule indexPlacements_ok [OF pls]) simp_all
    then have p: "mwf pls" "\<And>i pl. mget pls i = Some pl \<Longrightarrow>
      pl_PageID pl = i \<and> mget (wk_pages r) i \<noteq> None \<and> mget topics (pl_TopicID pl) \<noteq> None" by blast+
    have valid: "validateTopic topics (wk_maxTopicDepth r) t = Inr ()" if "mget topics i = Some t" for i t
      using each t(2) [OF that] by (simp add: validateEach_ok)
    have "rooted topics i" if i: "mget topics i = Some t" for i t
    proof (rule topicDepthFrom_rooted)
      show "topicDepthFrom topics (wk_maxTopicDepth r) [] 0 i \<le> wk_maxTopicDepth r"
        using valid [OF i] t(3) [OF i] by (auto simp: validateTopic_ok topicDepth_def)
      show "\<forall>j t. mget topics j = Some t \<longrightarrow> tp_ParentID t = [] \<or> mget topics (tp_ParentID t) \<noteq> None"
        using valid by (auto simp: validateTopic_ok)
    qed (use i in simp)
    then have "topics_ok r'" "placements_ok r'" using t(3) p(2) by (auto simp: topics_ok_def placements_ok_def r')
    moreover have "slugs_ok r'" "revisions_ok r'" "index_ok r'" "wiki_maps r'"
      using inv t(1) p(1) indexed_cong [of r' r]
      by (simp_all add: wiki_inv_def slugs_ok_def revisions_ok_def index_ok_def wiki_maps_def r')
    ultimately show ?thesis using Pair by (simp add: wiki_inv_def)
  qed (use inv Pair in simp)
qed

section \<open>Reachable states\<close>

lemma wiki_inv_cong:
  assumes "wk_pages r' = wk_pages r" "wk_pageIDsBySlug r' = wk_pageIDsBySlug r" "wk_pageRevisions r' = wk_pageRevisions r"
    "wk_topics r' = wk_topics r" "wk_placements r' = wk_placements r" "wk_searchChunks r' = wk_searchChunks r"
  shows "wiki_inv r' = wiki_inv r"
  using assms indexed_cong [of r' r]
  by (simp add: wiki_inv_def wiki_maps_def slugs_ok_def revisions_ok_def topics_ok_def placements_ok_def index_ok_def)

lemma ResetWiki_inv: "wiki_inv (ResetWiki r)"
  by (simp add: ResetWiki_def wiki_inv_def wiki_maps_def slugs_ok_def revisions_ok_def topics_ok_def
      placements_ok_def index_ok_def indexed_def)

lemma RetirePage_cases:
  obtains (error) e where "RetirePage r request = (r, Inl e)"
  | (retired) p where "mget (wk_pages r) (rt_PageID request) = Some p" "\<not> Retired p"
      "wp_CurrentRevisionID p = rt_ExpectedBaseRevisionID request"
      "RetirePage r request = (r\<lparr>wk_pages := mput (rt_PageID request)
         (p\<lparr>wp_Status := PageStatusRetired, wp_SuccessorPageID := rt_SuccessorPageID request,
            wp_RetiredByRunID := rt_RunID request\<rparr>) (wk_pages r)\<rparr>, Inr ())"
proof (cases "mget (wk_pages r) (rt_PageID request)")
  case None
  then show thesis using error by (simp add: RetirePage_def)
next
  case (Some p)
  show thesis
  proof (cases "Retired p \<or> wp_CurrentRevisionID p \<noteq> rt_ExpectedBaseRevisionID request")
    case True
    then have "\<exists>e. RetirePage r request = (r, Inl e)"
      using Some by (cases "Retired p") (simp_all add: RetirePage_def Let_def)
    then show thesis using error by blast
  next
    case False
    then show thesis using retired Some by (simp add: RetirePage_def Let_def)
  qed
qed

lemma RetirePage_inv: "wiki_inv r \<Longrightarrow> wiki_inv (fst (RetirePage r request))"
proof (cases rule: RetirePage_cases [of r request])
  case (retired p)
  assume inv: "wiki_inv r"
  let ?i = "rt_PageID request"
  let ?q = "p\<lparr>wp_Status := PageStatusRetired, wp_SuccessorPageID := rt_SuccessorPageID request,
    wp_RetiredByRunID := rt_RunID request\<rparr>"
  let ?r = "r\<lparr>wk_pages := mput ?i ?q (wk_pages r)\<rparr>"
  have pages: "mget (wk_pages ?r) j = Some q \<longleftrightarrow> (if j = ?i then q = ?q else mget (wk_pages r) j = Some q)" for j q
    by (auto simp: go_map)
  have slugs: "\<And>j q. mget (wk_pages r) j = Some q \<Longrightarrow> wp_ID q = j \<and> wp_Slug q \<noteq> []"
    and exact: "mget (wk_pageIDsBySlug r) slug = Some j \<longleftrightarrow> (\<exists>q. mget (wk_pages r) j = Some q \<and> wp_Slug q = slug)" for slug j
    using inv by (simp_all add: wiki_inv_def slugs_ok_def)
  have "slugs_ok ?r"
    unfolding slugs_ok_def
  proof (intro conjI allI impI)
    fix j q assume "mget (wk_pages ?r) j = Some q"
    then show "wp_ID q = j" "wp_Slug q \<noteq> []" using slugs [OF retired(1)] slugs [of j q] unfolding pages by (auto split: if_splits)
  next
    fix slug j
    show "mget (wk_pageIDsBySlug ?r) slug = Some j \<longleftrightarrow> (\<exists>q. mget (wk_pages ?r) j = Some q \<and> wp_Slug q = slug)"
      unfolding pages using exact [of slug j] retired(1) by (cases "j = ?i") simp_all
  qed
  moreover have "revisions_ok ?r" using inv retired(1) unfolding wiki_inv_def revisions_ok_def pages by simp
  moreover have "placements_ok ?r"
    using inv unfolding wiki_inv_def placements_ok_def by (auto simp: go_map)
  moreover have "indexed ?r k c = indexed r k c" for k c
  proof -
    have "map_option wp_CurrentRevisionID (mget (wk_pages ?r) j) = map_option wp_CurrentRevisionID (mget (wk_pages r) j)" for j
      using retired(1) by (simp add: go_map)
    then show ?thesis by (simp add: indexed_current)
  qed
  then have "index_ok ?r" using inv by (simp add: wiki_inv_def index_ok_def)
  moreover have "wiki_maps ?r" "topics_ok ?r" using inv by (simp_all add: wiki_inv_def wiki_maps_def topics_ok_def)
  ultimately show ?thesis by (simp add: retired(4) wiki_inv_def)
qed simp

lemma RebuildSearchIndex_inv: "wiki_inv r \<Longrightarrow> wiki_inv (fst (RebuildSearchIndex r))"
proof -
  assume inv: "wiki_inv r"
  from rebuild_index [OF inv refl refl] obtain m where
    m: "RebuildSearchIndex r = (r\<lparr>wk_searchChunks := m\<rparr>, Inr ())" "mwf m" "mget m = mget (wk_searchChunks r)" by metis
  have "indexed (r\<lparr>wk_searchChunks := m\<rparr>) = indexed r" by (rule indexed_cong) simp_all
  then have "index_ok (r\<lparr>wk_searchChunks := m\<rparr>)" using inv by (simp add: wiki_inv_def index_ok_def m(3))
  moreover have "wiki_maps (r\<lparr>wk_searchChunks := m\<rparr>)" using inv by (simp add: wiki_inv_def wiki_maps_def m(2))
  moreover have "slugs_ok (r\<lparr>wk_searchChunks := m\<rparr>)" "revisions_ok (r\<lparr>wk_searchChunks := m\<rparr>)"
    "topics_ok (r\<lparr>wk_searchChunks := m\<rparr>)" "placements_ok (r\<lparr>wk_searchChunks := m\<rparr>)"
    using inv by (simp_all add: wiki_inv_def slugs_ok_def revisions_ok_def topics_ok_def placements_ok_def)
  ultimately show ?thesis by (simp add: wiki_inv_def m(1))
qed

inductive wiki_step :: "wiki \<Rightarrow> wiki \<Rightarrow> bool" where
  source: "wiki_step r (fst (SaveSourceRevision r v))"
| publish: "batch_ok pubs \<Longrightarrow> wiki_step r (fst (PublishPages r pubs))"
| retire: "wiki_step r (fst (RetirePage r request))"
| rebuild: "wiki_step r (fst (RebuildSearchIndex r))"
| tree: "wiki_step r (fst (ReplaceTopicTree r tree))"
| run: "wiki_step r (fst (SaveMaintenanceRun r mrun))"
| rollback: "wiki_step r (RollbackMaintenanceRun r i previous existed)"
| curation: "wiki_step r (fst (SaveCurationRun r crun))"
| embedding: "wiki_step r (fst (SavePageEmbedding r e))"
| type_entry: "wiki_step r (fst (SaveTypeRegistryEntry r entry))"
| settings: "wiki_step r (fst (SetGenerationSettings r d))"

inductive wiki_reachable :: "wiki \<Rightarrow> bool" where
  start: "set options \<subseteq> range WithTopicTreeMaxDepth \<Longrightarrow> wiki_reachable (NewWiki options)"
| step: "wiki_reachable r \<Longrightarrow> wiki_step r r' \<Longrightarrow> wiki_reachable r'"
| reset: "wiki_reachable r \<Longrightarrow> wiki_reachable (ResetWiki r)"

text \<open>The operations that leave pages, revisions, topics and the index alone.\<close>

lemma side_operations:
  "wiki_inv (fst (SaveSourceRevision r v)) = wiki_inv r" "wiki_inv (fst (SaveMaintenanceRun r mrun)) = wiki_inv r"
  "wiki_inv (RollbackMaintenanceRun r i previous existed) = wiki_inv r" "wiki_inv (fst (SaveCurationRun r crun)) = wiki_inv r"
  "wiki_inv (fst (SavePageEmbedding r e)) = wiki_inv r" "wiki_inv (fst (SaveTypeRegistryEntry r entry)) = wiki_inv r"
  "wiki_inv (fst (SetGenerationSettings r d)) = wiki_inv r"
  by (rule wiki_inv_cong;
      simp add: SaveSourceRevision_def SaveMaintenanceRun_def RollbackMaintenanceRun_def SaveCurationRun_def
        SavePageEmbedding_def SaveTypeRegistryEntry_def SetGenerationSettings_def split: option.split)+

lemma wiki_step_inv: "wiki_step r r' \<Longrightarrow> wiki_inv r \<Longrightarrow> wiki_inv r'"
  by (induction rule: wiki_step.induct)
    (simp_all add: side_operations PublishPages_inv RetirePage_inv RebuildSearchIndex_inv ReplaceTopicTree_inv)

lemma reachable_inv: "wiki_reachable r \<Longrightarrow> wiki_inv r"
  by (induction rule: wiki_reachable.induct) (simp_all add: wiki_inv_new wiki_step_inv ResetWiki_inv)

end
