(* ===== verification/Wiki_Theorems.thy ===== *)
theory Wiki_Theorems
  imports Wiki_Invariant
begin

text \<open>
  What a client of the page wiki repository sees in every reachable state: batches of publications are
  atomic and extend histories, retired pages disappear from the catalogue, navigation and search but stay
  resolvable, a rebuilt index answers searches as the incremental one, search returns exactly the matching
  sections of active pages, and navigation ends and shows every active page once.
\<close>

section \<open>Navigation\<close>

text \<open>The depth of a topic below the root, and that a forest of \<open>n\<close> topics is at most \<open>n\<close> deep.\<close>

inductive depthAt :: "(string, topic) gomap \<Rightarrow> nat \<Rightarrow> string \<Rightarrow> bool" for topics where
  top: "depthAt topics 0 []"
| below: "mget topics i = Some t \<Longrightarrow> i \<noteq> [] \<Longrightarrow> depthAt topics n (tp_ParentID t) \<Longrightarrow> depthAt topics (Suc n) i"

inductive_cases depthAt_topE: "depthAt topics n []"
inductive_cases depthAt_SucE: "depthAt topics (Suc n) i"

lemma depthAt_unique: "depthAt topics n i \<Longrightarrow> depthAt topics m i \<Longrightarrow> n = m"
proof (induction arbitrary: m rule: depthAt.induct)
  case top
  then show ?case by (auto elim: depthAt_topE)
next
  case (below i t n)
  from below.prems below.hyps(1,2) obtain k where "m = Suc k" "depthAt topics k (tp_ParentID t)"
    by (auto elim: depthAt.cases)
  with below.IH show ?case by blast
qed

lemma depthAt_path:
  "depthAt topics n i \<Longrightarrow> \<exists>xs. length xs = n \<and> (\<forall>k < n. depthAt topics (Suc k) (xs ! k) \<and> xs ! k \<in> fst ` set topics)"
proof (induction rule: depthAt.induct)
  case (below i t n)
  then obtain xs where xs: "length xs = n" "\<forall>k < n. depthAt topics (Suc k) (xs ! k) \<and> xs ! k \<in> fst ` set topics" by blast
  have "depthAt topics (Suc n) i" using below by (intro depthAt.below)
  moreover have "i \<in> fst ` set topics" using below.hyps(1) by (force dest: map_of_SomeD)
  ultimately have "\<forall>k < Suc n. depthAt topics (Suc k) ((xs @ [i]) ! k) \<and> (xs @ [i]) ! k \<in> fst ` set topics"
    using xs by (auto simp: nth_append less_Suc_eq)
  with xs(1) show ?case by (intro exI [of _ "xs @ [i]"]) simp
qed simp

lemma depthAt_bound: "depthAt topics n i \<Longrightarrow> n \<le> length topics"
proof -
  assume "depthAt topics n i"
  from depthAt_path [OF this] obtain xs where
    xs: "length xs = n" "\<forall>k < n. depthAt topics (Suc k) (xs ! k) \<and> xs ! k \<in> fst ` set topics" by blast
  have "distinct xs" unfolding distinct_conv_nth using xs depthAt_unique by (metis nat.inject)
  moreover have "set xs \<subseteq> fst ` set topics" using xs by (auto simp: in_set_conv_nth)
  ultimately have "n \<le> card (fst ` set topics)" using xs(1) by (metis List.finite_set card_mono distinct_card finite_imageI)
  also have "\<dots> \<le> length topics" using card_image_le [of "set topics" fst] card_length [of topics] by simp
  finally show ?thesis .
qed

lemma rooted_depth:
  "rooted topics i \<Longrightarrow> \<exists>n. depthAt topics n i"
proof (induction rule: rooted.induct)
  case top
  show ?case using depthAt.top by blast
next
  case (below i t)
  show ?case
  proof (cases "i = []")
    case False
    then show ?thesis using below depthAt.below by blast
  qed (use depthAt.top in blast)
qed

lemma set_childTopics: "mwf (wk_topics r) \<Longrightarrow> t \<in> set (childTopics r parent) \<longleftrightarrow>
    (\<exists>i. mget (wk_topics r) i = Some t) \<and> tp_ParentID t = parent"
  by (force simp: childTopics_def mem_mget [symmetric])

lemma map_opt_total: "(\<And>x. x \<in> set xs \<Longrightarrow> f x = Some (g x)) \<Longrightarrow> map_opt f xs = Some (map g xs)"
  by (induction xs) simp_all

abbreviation subtree :: "nat \<Rightarrow> wiki \<Rightarrow> topic \<Rightarrow> navigation_topic option" where
  "subtree fuel r t \<equiv>
     (case buildNavigationTopics fuel r (tp_ID t) of
        None \<Rightarrow> None
      | Some children \<Rightarrow> Some (NavigationTopic (tp_ID t) (tp_Slug t) (tp_Title t) children (topicPages r (tp_ID t))))"

lemma child_depth:
  assumes "wiki_inv r" and "depthAt (wk_topics r) n parent" and "t \<in> set (childTopics r parent)"
  shows "depthAt (wk_topics r) (Suc n) (tp_ID t)"
proof -
  have "mwf (wk_topics r)" using assms(1) by (simp add: wiki_inv_def wiki_maps_def)
  with assms(3) obtain i where "mget (wk_topics r) i = Some t" "tp_ParentID t = parent" using set_childTopics by blast
  moreover from this have "tp_ID t = i" "i \<noteq> []" using assms(1) by (auto simp: wiki_inv_def topics_ok_def)
  ultimately show ?thesis using assms(2) depthAt.below by blast
qed

text \<open>As much fuel as there are topics, and one more for the root, is enough.\<close>

lemma navigation_fuel:
  "wiki_inv r \<Longrightarrow> depthAt (wk_topics r) n parent \<Longrightarrow> length (wk_topics r) < fuel + n \<Longrightarrow>
     \<exists>ns. buildNavigationTopics fuel r parent = Some ns"
proof (induction fuel arbitrary: n parent)
  case 0
  then show ?case using depthAt_bound by fastforce
next
  case (Suc fuel)
  have "subtree fuel r t = Some (the (subtree fuel r t))" if "t \<in> set (childTopics r parent)" for t
    using Suc.IH [OF Suc.prems(1) child_depth [OF Suc.prems(1,2) that]] Suc.prems(3) by auto
  from map_opt_total [of _ "subtree fuel r", OF this] show ?case by auto
qed

lemma navigation_Suc:
  assumes "wiki_inv r" and "depthAt (wk_topics r) n parent" and "length (wk_topics r) < Suc fuel + n"
  obtains children where "\<And>t. t \<in> set (childTopics r parent) \<Longrightarrow> buildNavigationTopics fuel r (tp_ID t) = Some (children t)"
    "buildNavigationTopics (Suc fuel) r parent =
       Some (map (\<lambda>t. NavigationTopic (tp_ID t) (tp_Slug t) (tp_Title t) (children t) (topicPages r (tp_ID t))) (childTopics r parent))"
proof -
  have "\<forall>t \<in> set (childTopics r parent). \<exists>ns. buildNavigationTopics fuel r (tp_ID t) = Some ns"
    using navigation_fuel [OF assms(1) child_depth [OF assms(1,2)]] assms(3) by auto
  then obtain children where some: "\<And>t. t \<in> set (childTopics r parent) \<Longrightarrow>
      buildNavigationTopics fuel r (tp_ID t) = Some (children t)" by metis
  have "buildNavigationTopics (Suc fuel) r parent =
      Some (map (\<lambda>t. NavigationTopic (tp_ID t) (tp_Slug t) (tp_Title t) (children t) (topicPages r (tp_ID t))) (childTopics r parent))"
    unfolding buildNavigationTopics.simps by (rule map_opt_total) (simp add: some)
  with some show thesis by (rule that)
qed

text \<open>The identifiers of the pages a navigation shows.\<close>

fun topicShown :: "navigation_topic \<Rightarrow> string list" where
  "topicShown (NavigationTopic i slug title children pages) = map np_ID pages @ concat (map topicShown children)"

definition shownPages :: "navigation \<Rightarrow> string list" where
  "shownPages nav = concat (map topicShown (nav_Roots nav)) @ map np_ID (nav_Pages nav)"

text \<open>Topic \<open>i\<close> is below \<open>a\<close>.\<close>

inductive under :: "(string, topic) gomap \<Rightarrow> string \<Rightarrow> string \<Rightarrow> bool" for topics a where
  child: "mget topics i = Some t \<Longrightarrow> tp_ParentID t = a \<Longrightarrow> under topics a i"
| deeper: "mget topics i = Some t \<Longrightarrow> under topics a (tp_ParentID t) \<Longrightarrow> under topics a i"

lemma under_trans: "under topics i x \<Longrightarrow> mget topics i = Some t \<Longrightarrow> under topics (tp_ParentID t) x"
proof (induction rule: under.induct)
  case (child j u)
  have "under topics (tp_ParentID t) (tp_ParentID u)" using child by (intro under.child) simp_all
  with child.hyps(1) show ?case by (rule under.deeper)
next
  case (deeper j u)
  from deeper.hyps(1) deeper.IH [OF deeper.prems] show ?case by (rule under.deeper)
qed

lemma under_first:
  "under topics a x \<Longrightarrow> \<exists>i t. mget topics i = Some t \<and> tp_ParentID t = a \<and> (x = i \<or> under topics i x)"
proof (induction rule: under.induct)
  case (child i t)
  then show ?case by blast
next
  case (deeper i t)
  then obtain j u where u: "mget topics j = Some u" "tp_ParentID u = a" "tp_ParentID t = j \<or> under topics j (tp_ParentID t)"
    by blast
  have "under topics j i" using deeper.hyps(1) u(3) by (blast intro: under.intros)
  with u show ?case by blast
qed

lemma depthAt_parent:
  "mget topics i = Some t \<Longrightarrow> i \<noteq> [] \<Longrightarrow> depthAt topics m i \<Longrightarrow> \<exists>k. m = Suc k \<and> depthAt topics k (tp_ParentID t)"
  by (erule depthAt.cases) auto

lemma under_depth:
  "under topics a i \<Longrightarrow> mget topics [] = None \<Longrightarrow> depthAt topics n a \<Longrightarrow> depthAt topics m i \<Longrightarrow> n < m"
proof (induction arbitrary: m rule: under.induct)
  case (child i t)
  then have "i \<noteq> []" by auto
  from depthAt_parent [OF child.hyps(1) this child.prems(3)] child.hyps(2) child.prems(2) show ?case
    using depthAt_unique by blast
next
  case (deeper i t)
  then have "i \<noteq> []" by auto
  from depthAt_parent [OF deeper.hyps(1) this deeper.prems(3)] obtain k where
    k: "m = Suc k" "depthAt topics k (tp_ParentID t)" by blast
  from deeper.IH [OF deeper.prems(1,2) k(2)] k(1) show ?case by simp
qed

lemma under_unique:
  "under topics a x \<Longrightarrow> under topics b x \<Longrightarrow> mget topics [] = None \<Longrightarrow> depthAt topics n a \<Longrightarrow> depthAt topics n b \<Longrightarrow> a = b"
proof (induction rule: under.induct)
  case (child i t)
  have "\<not> under topics b a" using under_depth child.prems(2,3,4) by blast
  with child show ?case by (auto elim: under.cases)
next
  case (deeper i t)
  from deeper.prems(1) deeper.hyps(1) consider "tp_ParentID t = b" | "under topics b (tp_ParentID t)"
    by (auto elim: under.cases)
  then show ?case
  proof cases
    case 1
    with under_depth [of topics a b n n] deeper show ?thesis by blast
  next
    case 2
    with deeper show ?thesis by blast
  qed
qed

lemma rooted_under: "rooted topics i \<Longrightarrow> i \<noteq> [] \<Longrightarrow> under topics [] i"
proof (induction rule: rooted.induct)
  case (below i t)
  then show ?case by (cases "tp_ParentID t = []") (blast intro: under.intros)+
qed simp

text \<open>Active page \<open>i\<close> is placed in a topic that satisfies \<open>P\<close>.\<close>

definition placedIn :: "wiki \<Rightarrow> (string \<Rightarrow> bool) \<Rightarrow> string \<Rightarrow> bool" where
  "placedIn r P i \<longleftrightarrow>
     (\<exists>pl p. mget (wk_placements r) i = Some pl \<and> mget (wk_pages r) i = Some p \<and> \<not> Retired p \<and> P (pl_TopicID pl))"

lemma inv_maps: "wiki_inv r \<Longrightarrow> mwf (wk_pages r) \<and> mwf (wk_placements r) \<and> mwf (wk_topics r) \<and> mwf (wk_searchChunks r)"
  by (simp add: wiki_inv_def wiki_maps_def)

lemma page_key: "wiki_inv r \<Longrightarrow> mget (wk_pages r) i = Some p \<Longrightarrow> wp_ID p = i"
  by (auto simp: wiki_inv_def slugs_ok_def)

lemma mset_map_sort_by: "mset (map f (sort_by lt xs)) = mset (map f xs)"
  by (simp only: mset_map mset_sort_by)

lemma topicPages_ids:
  assumes "wiki_inv r"
  shows "set (map np_ID (topicPages r a)) = {i. placedIn r (\<lambda>x. x = a) i}" "distinct (map np_ID (topicPages r a))"
proof -
  let ?placed = "filter (\<lambda>(pageID, pl). pl_TopicID pl = a \<and>
    (case mget (wk_pages r) pageID of None \<Rightarrow> False | Some p \<Rightarrow> \<not> Retired p)) (wk_placements r)"
  have wf: "mwf (wk_placements r)" using inv_maps [OF assms] by blast
  have id: "np_ID (navPage (pageAt r i) (pl_Rank pl)) = i" if "(i, pl) \<in> set ?placed" for i pl
    using that page_key [OF assms] by (auto simp: navPage_def pageAt_def split: option.splits)
  have same: "map np_ID (map (\<lambda>(i, pl). navPage (pageAt r i) (pl_Rank pl)) ?placed) = map fst ?placed"
    unfolding map_map by (rule map_cong [OF refl]) (use id in force)
  have perm: "mset (map np_ID (topicPages r a)) = mset (map fst ?placed)"
    unfolding topicPages_def mset_map_sort_by same ..
  have "i \<in> set (map fst ?placed) \<longleftrightarrow> (\<exists>pl. (i, pl) \<in> set (wk_placements r) \<and> pl_TopicID pl = a \<and>
      (case mget (wk_pages r) i of None \<Rightarrow> False | Some p \<Rightarrow> \<not> Retired p))" for i
    by (auto simp: image_iff split_def)
  then have "i \<in> set (map fst ?placed) \<longleftrightarrow> placedIn r (\<lambda>x. x = a) i" for i
    unfolding placedIn_def mem_mget [OF wf] by (cases "mget (wk_pages r) i") (simp_all add: conj_commute)
  then show "set (map np_ID (topicPages r a)) = {i. placedIn r (\<lambda>x. x = a) i}"
    using mset_eq_setD [OF perm] by blast
  show "distinct (map np_ID (topicPages r a))" using perm mwf_filter [OF wf] mset_eq_imp_distinct_iff by blast
qed

lemma rootPages_ids:
  assumes "wiki_inv r"
  shows "set (map np_ID (rootPages r)) =
      {i. \<exists>p. mget (wk_pages r) i = Some p \<and> \<not> Retired p \<and> mget (wk_placements r) i = None}"
    "distinct (map np_ID (rootPages r))"
proof -
  let ?free = "filter (\<lambda>(i, p). \<not> Retired p \<and> mget (wk_placements r) i = None) (wk_pages r)"
  have wf: "mwf (wk_pages r)" using inv_maps [OF assms] by blast
  have "wp_ID p = i" if "(i, p) \<in> set ?free" for i p using that mem_mget [OF wf] page_key [OF assms] by auto
  then have same: "map np_ID (map (\<lambda>(_, p). navPage p 0) ?free) = map fst ?free"
    unfolding map_map by (intro map_cong [OF refl]) (force simp: navPage_def)
  have perm: "mset (map np_ID (rootPages r)) = mset (map fst ?free)"
    unfolding rootPages_def mset_map_sort_by same ..
  have "i \<in> set (map fst ?free) \<longleftrightarrow>
      (\<exists>p. mget (wk_pages r) i = Some p \<and> \<not> Retired p \<and> mget (wk_placements r) i = None)" for i
    using mem_mget [OF wf] by force
  then show "set (map np_ID (rootPages r)) =
      {i. \<exists>p. mget (wk_pages r) i = Some p \<and> \<not> Retired p \<and> mget (wk_placements r) i = None}"
    using mset_eq_setD [OF perm] by blast
  show "distinct (map np_ID (rootPages r))" using perm mwf_filter [OF wf] mset_eq_imp_distinct_iff by blast
qed

lemma distinct_concat_map:
  "distinct xs \<Longrightarrow> (\<And>x. x \<in> set xs \<Longrightarrow> distinct (f x)) \<Longrightarrow>
     (\<And>x y. x \<in> set xs \<Longrightarrow> y \<in> set xs \<Longrightarrow> x \<noteq> y \<Longrightarrow> set (f x) \<inter> set (f y) = {}) \<Longrightarrow> distinct (concat (map f xs))"
  by (induction xs) (simp, fastforce)

lemma childTopics_distinct:
  assumes "wiki_inv r"
  shows "distinct (childTopics r parent)"
proof -
  have wf: "mwf (wk_topics r)" using inv_maps [OF assms] by blast
  have key: "tp_ID t = i" if "(i, t) \<in> set (wk_topics r)" for i t
    using that assms mem_mget [OF wf, of i t] by (simp add: wiki_inv_def topics_ok_def)
  have "inj_on snd (set (wk_topics r))"
  proof (rule inj_onI)
    fix x y assume "x \<in> set (wk_topics r)" "y \<in> set (wk_topics r)" "snd x = snd y"
    then show "x = y" using key by (metis prod.collapse)
  qed
  then have "distinct (map snd (wk_topics r))" using mwf_distinct [OF wf] by (simp add: distinct_map)
  then show ?thesis by (simp add: childTopics_def)
qed

lemma placedIn_disjoint: "(\<And>x. \<not> (P x \<and> Q x)) \<Longrightarrow> {i. placedIn r P i} \<inter> {i. placedIn r Q i} = {}"
  unfolding placedIn_def by fastforce

text \<open>A subtree shows, once, the active pages placed in its topic and in the topics below it.\<close>

lemma subtree_shown:
  assumes "wiki_inv r"
  shows "depthAt (wk_topics r) n parent \<Longrightarrow> length (wk_topics r) < fuel + n \<Longrightarrow>
    buildNavigationTopics fuel r parent = Some ns \<Longrightarrow>
    set (concat (map topicShown ns)) = {i. placedIn r (under (wk_topics r) parent) i} \<and> distinct (concat (map topicShown ns))"
proof (induction fuel arbitrary: n parent ns)
  case (Suc fuel)
  let ?T = "wk_topics r"
  have wf: "mwf ?T" using inv_maps [OF assms] by blast
  have keys: "tp_ID t = i \<and> i \<noteq> []" if "mget ?T i = Some t" for i t using that assms by (auto simp: wiki_inv_def topics_ok_def)
  then have top: "mget ?T [] = None" by (cases "mget ?T []") auto
  obtain children where ch: "\<And>t. t \<in> set (childTopics r parent) \<Longrightarrow> buildNavigationTopics fuel r (tp_ID t) = Some (children t)"
    and ns: "buildNavigationTopics (Suc fuel) r parent =
       Some (map (\<lambda>t. NavigationTopic (tp_ID t) (tp_Slug t) (tp_Title t) (children t) (topicPages r (tp_ID t))) (childTopics r parent))"
    using navigation_Suc [OF assms Suc.prems(1,2)] by blast
  define shown where "shown = (\<lambda>t. map np_ID (topicPages r (tp_ID t)) @ concat (map topicShown (children t)))"
  have all: "concat (map topicShown ns) = concat (map shown (childTopics r parent))"
    using Suc.prems(3) unfolding ns by (auto simp: shown_def comp_def)
  have kids: "set (concat (map topicShown (children t))) = {i. placedIn r (under ?T (tp_ID t)) i}"
      "distinct (concat (map topicShown (children t)))" if "t \<in> set (childTopics r parent)" for t
    using Suc.IH [OF child_depth [OF assms Suc.prems(1) that] _ ch [OF that]] Suc.prems(2) by simp_all
  have shown: "set (shown t) = {i. placedIn r (\<lambda>x. x = tp_ID t \<or> under ?T (tp_ID t) x) i}"
    if "t \<in> set (childTopics r parent)" for t
    using kids(1) [OF that] topicPages_ids(1) [OF assms, of "tp_ID t"] unfolding shown_def by (auto simp: placedIn_def)
  have "set (concat (map shown (childTopics r parent))) = {i. placedIn r (under ?T parent) i}"
  proof -
    have "under ?T parent x \<longleftrightarrow> (\<exists>t \<in> set (childTopics r parent). x = tp_ID t \<or> under ?T (tp_ID t) x)" for x
    proof
      assume "under ?T parent x"
      from under_first [OF this] obtain i t where t: "mget ?T i = Some t" "tp_ParentID t = parent" "x = i \<or> under ?T i x" by blast
      with keys [OF t(1)] set_childTopics [OF wf] show "\<exists>t \<in> set (childTopics r parent). x = tp_ID t \<or> under ?T (tp_ID t) x"
        by (intro bexI [of _ t]) auto
    next
      assume "\<exists>t \<in> set (childTopics r parent). x = tp_ID t \<or> under ?T (tp_ID t) x"
      then obtain t i where t: "x = tp_ID t \<or> under ?T (tp_ID t) x" "mget ?T i = Some t" "tp_ParentID t = parent"
        using set_childTopics [OF wf] by blast
      then show "under ?T parent x" using keys [OF t(2)] under.child [OF t(2,3)] under_trans [of ?T i x t] by auto
    qed
    then show ?thesis using shown by (auto simp: placedIn_def)
  qed
  moreover have "distinct (concat (map shown (childTopics r parent)))"
  proof (rule distinct_concat_map [OF childTopics_distinct [OF assms]])
    fix t assume t: "t \<in> set (childTopics r parent)"
    have "\<not> under ?T (tp_ID t) (tp_ID t)" using under_depth [OF _ top] child_depth [OF assms Suc.prems(1) t] by blast
    then have "set (map np_ID (topicPages r (tp_ID t))) \<inter> set (concat (map topicShown (children t))) = {}"
      unfolding kids(1) [OF t] topicPages_ids(1) [OF assms] by (intro placedIn_disjoint) blast
    then show "distinct (shown t)" using kids(2) [OF t] topicPages_ids(2) [OF assms] unfolding shown_def by simp
  next
    fix t u assume tu: "t \<in> set (childTopics r parent)" "u \<in> set (childTopics r parent)" "t \<noteq> u"
    note d = child_depth [OF assms Suc.prems(1) tu(1)] child_depth [OF assms Suc.prems(1) tu(2)]
    have "tp_ID t \<noteq> tp_ID u" using tu keys set_childTopics [OF wf] by (metis option.inject)
    then have apart: "\<not> ((x = tp_ID t \<or> under ?T (tp_ID t) x) \<and> (x = tp_ID u \<or> under ?T (tp_ID u) x))" for x
      using under_unique [of ?T "tp_ID t" x "tp_ID u", OF _ _ top d] under_depth [of ?T "tp_ID t" "tp_ID u", OF _ top d]
        under_depth [of ?T "tp_ID u" "tp_ID t", OF _ top d(2) d(1)] by auto
    show "set (shown t) \<inter> set (shown u) = {}"
      unfolding shown [OF tu(1)] shown [OF tu(2)] by (rule placedIn_disjoint) (rule apart)
  qed
  ultimately show ?case unfolding all by blast
qed simp

lemma navigation_shown:
  assumes "wiki_inv r"
  obtains nav where "Navigation r = Some nav" "distinct (shownPages nav)"
    "set (shownPages nav) = {i. \<exists>p. mget (wk_pages r) i = Some p \<and> \<not> Retired p}"
proof -
  let ?fuel = "Suc (length (wk_topics r))"
  have d: "depthAt (wk_topics r) 0 []" "length (wk_topics r) < ?fuel + 0" by (simp_all add: depthAt.top)
  from navigation_fuel [OF assms d] obtain ns where ns: "buildNavigationTopics ?fuel r [] = Some ns" by blast
  note shown = subtree_shown [OF assms d ns]
  have "under (wk_topics r) [] (pl_TopicID pl)" if "mget (wk_placements r) i = Some pl" for i pl
  proof -
    from that assms obtain t where "mget (wk_topics r) (pl_TopicID pl) = Some t" by (auto simp: wiki_inv_def placements_ok_def)
    then have "rooted (wk_topics r) (pl_TopicID pl)" "pl_TopicID pl \<noteq> []" using assms by (auto simp: wiki_inv_def topics_ok_def)
    then show ?thesis by (rule rooted_under)
  qed
  then have placed: "placedIn r (under (wk_topics r) []) i \<longleftrightarrow>
      (\<exists>p. mget (wk_pages r) i = Some p \<and> \<not> Retired p \<and> mget (wk_placements r) i \<noteq> None)" for i
    by (auto simp: placedIn_def)
  let ?nav = "\<lparr>nav_Roots = ns, nav_Pages = rootPages r\<rparr>"
  have "Navigation r = Some ?nav" using ns by (simp add: Navigation_def del: buildNavigationTopics.simps)
  moreover have "distinct (shownPages ?nav)"
    using shown rootPages_ids [OF assms] unfolding shownPages_def placed by auto
  moreover have "set (shownPages ?nav) = {i. \<exists>p. mget (wk_pages r) i = Some p \<and> \<not> Retired p}"
    using shown rootPages_ids(1) [OF assms] unfolding shownPages_def placed by auto
  ultimately show thesis by (rule that)
qed

section \<open>Search\<close>

lemma weak_order_resultOrder: "weak_order resultOrder"
  unfolding weak_order_def resultOrder_def by (auto split: if_splits)

abbreviation chunkFor :: "page_revision \<Rightarrow> page_section \<Rightarrow> search_chunk" where
  "chunkFor v sec \<equiv> \<lparr>ch_ID = pr_ID v @ '':'' @ ps_Key sec, ch_PageID = pr_PageID v, ch_PageRevisionID = pr_ID v,
     ch_SectionKey = ps_Key sec, ch_Passage = ps_Markdown sec\<rparr>"

lemma latest_map:
  assumes "\<And>x y. key (f x) = key (f y) \<longleftrightarrow> sub x = sub y"
  shows "latest key (map f xs) (key (f x)) = map_option f (latest sub xs (sub x))"
proof (induction xs)
  case Nil
  then show ?case by (simp add: latest_def)
next
  case (Cons y ys)
  then show ?case using assms by (auto simp: latest_Cons split: option.split)
qed

lemma sectionMap_latest: "mget (sectionMap v) = latest ps_Key (elems (pr_Sections v))"
  by (rule ext) (simp add: sectionMap_def mget_fill [unfolded fill_def] split: option.split)

lemma chunkOf_section:
  "chunkOf v k = Some c \<longleftrightarrow>
     (\<exists>sec. mget (sectionMap v) (ps_Key sec) = Some sec \<and> k = pr_ID v @ '':'' @ ps_Key sec \<and> c = chunkFor v sec)"
proof -
  have at: "latest ch_ID (buildSearchChunks v) (pr_ID v @ '':'' @ ps_Key sec) =
      map_option (chunkFor v) (mget (sectionMap v) (ps_Key sec))" for sec :: page_section
    using latest_map [of ch_ID "chunkFor v" ps_Key "elems (pr_Sections v)" sec]
    by (simp add: buildSearchChunks_def sectionMap_latest)
  have same: "ps_Key u = ps_Key sec" if "mget (sectionMap v) (ps_Key sec) = Some u" for u sec :: page_section
    using that latest_Some unfolding sectionMap_latest by metis
  show ?thesis
  proof
    assume c: "chunkOf v k = Some c"
    then have "c \<in> set (buildSearchChunks v)" "ch_ID c = k" by (auto simp: chunkOf_latest dest: latest_Some)
    then obtain sec :: page_section where k: "k = pr_ID v @ '':'' @ ps_Key sec" by (auto simp: buildSearchChunks_def)
    from c k at [of sec] have "map_option (chunkFor v) (mget (sectionMap v) (ps_Key sec)) = Some c" by (simp add: chunkOf_latest)
    then obtain u where "mget (sectionMap v) (ps_Key sec) = Some u" "c = chunkFor v u" by (auto simp: map_option_eq_Some)
    with k same [of sec u] show "\<exists>sec. mget (sectionMap v) (ps_Key sec) = Some sec \<and> k = pr_ID v @ '':'' @ ps_Key sec \<and> c = chunkFor v sec"
      by (intro exI [of _ u]) simp
  qed (use at in \<open>auto simp: chunkOf_latest\<close>)
qed

lemma set_map_filter: "set (List.map_filter f xs) = {y. \<exists>x \<in> set xs. f x = Some y}"
  by (force simp: List.map_filter_def)

text \<open>The result for section \<open>sec\<close> of the current revision \<open>v\<close> of page \<open>p\<close>.\<close>

definition sectionResult :: "string \<Rightarrow> page \<Rightarrow> page_revision \<Rightarrow> page_section \<Rightarrow> search_result" where
  "sectionResult query p v sec =
     \<lparr>sr_Page = p, sr_RevisionID = wp_CurrentRevisionID p, sr_SectionKey = ps_Key sec, sr_Passage = ps_Markdown sec,
      sr_Score = lexicalScore (tokenize query) (tokenize (ps_Markdown sec)),
      sr_Citations = citationsForSection v (ps_Key sec), sr_Links = linksForSection v (ps_Key sec)\<rparr>"

lemma searchChunk_section:
  assumes "wiki_inv r" and "mget (wk_pages r) i = Some p" and "mget (wk_pageRevisions r) (wp_CurrentRevisionID p) = Some v"
  shows "searchChunk r (tokenize q) (chunkFor v sec) =
    (if lexicalScore (tokenize q) (tokenize (ps_Markdown sec)) = 0 \<or> Retired p then None else Some (sectionResult q p v sec))"
proof -
  from assms(1,2) have "pr_ID v = wp_CurrentRevisionID p" "pr_PageID v = i"
    by (rule inv_current, use assms(3) in simp)+
  with assms(2,3) show ?thesis by (simp add: searchChunk_def Let_def sectionResult_def)
qed

lemma search_set:
  assumes inv: "wiki_inv r" and "Search r q = Inr rs"
  shows "set rs = {res. \<exists>i p v sec. mget (wk_pages r) i = Some p \<and> \<not> Retired p \<and>
    mget (wk_pageRevisions r) (wp_CurrentRevisionID p) = Some v \<and> mget (sectionMap v) (ps_Key sec) = Some sec \<and>
    lexicalScore (tokenize q) (tokenize (ps_Markdown sec)) \<noteq> 0 \<and> res = sectionResult q p v sec}" (is "_ = ?hits")
proof -
  have wf: "mwf (wk_searchChunks r)" using inv_maps [OF inv] by blast
  have "set rs = {res. \<exists>kc \<in> set (wk_searchChunks r). (case kc of (_, c) \<Rightarrow> searchChunk r (tokenize q) c) = Some res}"
    using assms(2) by (simp add: Search_def Let_def set_map_filter [symmetric] split: if_splits) (metis set_sort_by)
  also have "\<dots> = {res. \<exists>k c. (k, c) \<in> set (wk_searchChunks r) \<and> searchChunk r (tokenize q) c = Some res}"
    by (simp add: Bex_def split_paired_Ex)
  also have "\<dots> = {res. \<exists>k c. indexed r k c \<and> searchChunk r (tokenize q) c = Some res}"
    unfolding mem_mget [OF wf] index_get [OF inv] ..
  also have "\<dots> = ?hits" (is "?left = _")
  proof (intro equalityI subsetI)
    fix res assume "res \<in> ?left"
    then obtain k c where kc: "indexed r k c" "searchChunk r (tokenize q) c = Some res" by blast
    then obtain i p v sec where pv: "mget (wk_pages r) i = Some p" "mget (wk_pageRevisions r) (wp_CurrentRevisionID p) = Some v"
      and sec: "mget (sectionMap v) (ps_Key sec) = Some sec" "c = chunkFor v sec"
      unfolding indexed_def chunkOf_section by blast
    from kc(2) searchChunk_section [OF inv pv, of q sec] sec(2) have
      "lexicalScore (tokenize q) (tokenize (ps_Markdown sec)) \<noteq> 0" "\<not> Retired p" "res = sectionResult q p v sec"
      by (simp_all split: if_splits)
    with pv sec(1) show "res \<in> ?hits" by blast
  next
    fix res assume "res \<in> ?hits"
    then obtain i p v sec where pv: "mget (wk_pages r) i = Some p" "mget (wk_pageRevisions r) (wp_CurrentRevisionID p) = Some v"
      and sec: "\<not> Retired p" "mget (sectionMap v) (ps_Key sec) = Some sec"
        "lexicalScore (tokenize q) (tokenize (ps_Markdown sec)) \<noteq> 0" "res = sectionResult q p v sec" by blast
    have "indexed r (pr_ID v @ '':'' @ ps_Key sec) (chunkFor v sec)"
      unfolding indexed_def chunkOf_section using pv sec(2) by blast
    moreover have "searchChunk r (tokenize q) (chunkFor v sec) = Some res"
      using searchChunk_section [OF inv pv, of q sec] sec by simp
    ultimately show "res \<in> ?left" by blast
  qed
  finally show ?thesis .
qed

text \<open>Two results with one slug and one section key are one result: the comparison separates the results.\<close>

lemma search_separates:
  assumes inv: "wiki_inv r" and rs: "Search r q = Inr rs" and ab: "a \<in> set rs" "b \<in> set rs" "a \<noteq> b"
  shows "resultOrder a b \<or> resultOrder b a"
proof (rule ccontr)
  assume "\<not> (resultOrder a b \<or> resultOrder b a)"
  then have eq: "wp_Slug (sr_Page a) = wp_Slug (sr_Page b)" "sr_SectionKey a = sr_SectionKey b"
    by (auto simp: resultOrder_def split: if_splits)
  from ab(1) obtain i p v sec where a: "mget (wk_pages r) i = Some p" "mget (wk_pageRevisions r) (wp_CurrentRevisionID p) = Some v"
    "mget (sectionMap v) (ps_Key sec) = Some sec" "a = sectionResult q p v sec"
    unfolding search_set [OF inv rs] by blast
  from ab(2) obtain j p' v' sec' where b: "mget (wk_pages r) j = Some p'" "mget (wk_pageRevisions r) (wp_CurrentRevisionID p') = Some v'"
    "mget (sectionMap v') (ps_Key sec') = Some sec'" "b = sectionResult q p' v' sec'"
    unfolding search_set [OF inv rs] by blast
  have "slugs_ok r" using inv by (simp add: wiki_inv_def)
  then have "mget (wk_pageIDsBySlug r) (wp_Slug p) = Some i" "mget (wk_pageIDsBySlug r) (wp_Slug p') = Some j"
    using a(1) b(1) unfolding slugs_ok_def by blast+
  moreover have "wp_Slug p = wp_Slug p'" using eq(1) a(4) b(4) by (simp add: sectionResult_def)
  ultimately have "i = j" by simp
  with a(1) b(1) have p: "p = p'" by simp
  with a(2) b(2) have v: "v = v'" by simp
  have "ps_Key sec = ps_Key sec'" using eq(2) a(4) b(4) by (simp add: sectionResult_def)
  with a(3) b(3) v have "Some sec = Some sec'" by metis
  with a(4) b(4) p v have "a = b" by simp
  with ab(3) show False by simp
qed

lemma distinct_map_filter:
  "distinct xs \<Longrightarrow> (\<And>x y z. x \<in> set xs \<Longrightarrow> y \<in> set xs \<Longrightarrow> f x = Some z \<Longrightarrow> f y = Some z \<Longrightarrow> x = y) \<Longrightarrow>
     distinct (List.map_filter f xs)"
  by (induction xs) (auto simp: set_map_filter List.map_filter_simps split: option.split)

lemma search_distinct:
  assumes inv: "wiki_inv r" and rs: "Search r q = Inr rs"
  shows "distinct rs"
proof -
  have wf: "mwf (wk_searchChunks r)" using inv_maps [OF inv] by blast
  have from_section: "\<exists>v sec. mget (wk_pageRevisions r) (sr_RevisionID res) = Some v \<and> sr_SectionKey res = ps_Key sec \<and>
      mget (sectionMap v) (ps_Key sec) = Some sec \<and> kc = (pr_ID v @ '':'' @ ps_Key sec, chunkFor v sec)"
    if "kc \<in> set (wk_searchChunks r)" "(case kc of (_, c) \<Rightarrow> searchChunk r (tokenize q) c) = Some res" for kc res
  proof -
    obtain k c where kc: "kc = (k, c)" by force
    with that have "indexed r k c" using mem_mget [OF wf] index_get [OF inv] by blast
    then obtain i p v sec where pv: "mget (wk_pages r) i = Some p" "mget (wk_pageRevisions r) (wp_CurrentRevisionID p) = Some v"
      and sec: "mget (sectionMap v) (ps_Key sec) = Some sec" "c = chunkFor v sec" "k = pr_ID v @ '':'' @ ps_Key sec"
      unfolding indexed_def chunkOf_section by blast
    from that(2) kc sec(2) searchChunk_section [OF inv pv, of q sec] have "res = sectionResult q p v sec" by (simp split: if_splits)
    with pv sec kc show ?thesis by (intro exI [of _ v] exI [of _ sec]) (simp add: sectionResult_def)
  qed
  have "distinct (List.map_filter (\<lambda>(_, c). searchChunk r (tokenize q) c) (wk_searchChunks r))"
    by (rule distinct_map_filter [OF mwf_distinct [OF wf]]) (use from_section in \<open>metis option.inject\<close>)
  with rs show ?thesis by (auto simp: Search_def Let_def split: if_splits)
qed

lemma search_cong:
  assumes inv: "wiki_inv r" and same: "wk_pages s = wk_pages r" "wk_pageRevisions s = wk_pageRevisions r"
    and chunks: "mwf (wk_searchChunks s)" "mget (wk_searchChunks s) = mget (wk_searchChunks r)"
  shows "Search s q = Search r q"
proof (cases "tokenize q = []")
  case False
  let ?found = "\<lambda>m. List.map_filter (\<lambda>(_, chunk). searchChunk r (tokenize q) chunk) m"
  have wf: "mwf (wk_searchChunks r)" using inv_maps [OF inv] by blast
  have "searchChunk s = searchChunk r" unfolding searchChunk_def same by (rule refl)
  then have s: "Search s q = Inr (sort_by resultOrder (?found (wk_searchChunks s)))"
    and r: "Search r q = Inr (sort_by resultOrder (?found (wk_searchChunks r)))"
    using False by (simp_all add: Search_def Let_def)
  have "mset (wk_searchChunks r) = mset (wk_searchChunks s)" using mget_same_perm [OF wf chunks(1)] chunks(2) by simp
  then have "mset (?found (wk_searchChunks r)) = mset (?found (wk_searchChunks s))"
    by (simp add: List.map_filter_def)
  moreover have "\<forall>x \<in> set (?found (wk_searchChunks r)). \<forall>y \<in> set (?found (wk_searchChunks r)). x \<noteq> y \<longrightarrow>
      resultOrder x y \<or> resultOrder y x"
    using search_separates [OF inv r] by simp
  ultimately show ?thesis unfolding s r using sort_by_perm [OF weak_order_resultOrder] by fastforce
qed (simp add: Search_def)

section \<open>Histories across operations\<close>

lemma history_same:
  assumes "wiki_inv r" and "wiki_inv r'"
    and "map_option wp_CurrentRevisionID (mget (wk_pages r') i) = map_option wp_CurrentRevisionID (mget (wk_pages r) i)"
    and mono: "\<And>j v. mget (wk_pageRevisions r) j = Some v \<Longrightarrow> mget (wk_pageRevisions r') j = Some v"
  shows "PageRevisionHistory r' i = PageRevisionHistory r i"
proof (cases "mget (wk_pages r) i")
  case None
  with assms(3) show ?thesis by (simp add: PageRevisionHistory_def)
next
  case (Some p)
  with assms(3) obtain q where q: "mget (wk_pages r') i = Some q" "wp_CurrentRevisionID q = wp_CurrentRevisionID p"
    by (auto simp: map_option_eq_Some)
  from assms(1) Some obtain v vs where vs: "lineage (wk_pageRevisions r) i (wp_CurrentRevisionID p) (v # vs)" by (rule inv_current)
  then have "lineage (wk_pageRevisions r') i (wp_CurrentRevisionID q) (v # vs)" unfolding q(2) by (rule lineage_mono) (rule mono)
  from history_lineage [OF assms(2) q(1) this] history_lineage [OF assms(1) Some vs] show ?thesis by simp
qed

text \<open>What one publication of a successful batch leaves behind.\<close>

definition published :: "wiki \<Rightarrow> wiki \<Rightarrow> publication \<Rightarrow> bool" where
  "published r r' pub \<longleftrightarrow>
     (let p = (if isApplied r pub then pb_Page pub else publishedPage pub) in
      PageByID r' (pubID pub) = Inr p \<and> PageBySlug r' (pubSlug pub) = Inr p \<and>
      PageRevision r' (pubRevision pub) = Inr (clonePageRevision (pb_Revision pub)) \<and>
      PageRevisionHistory r' (pubID pub) =
        (if isApplied r pub then PageRevisionHistory r (pubID pub)
         else Inr ((case PageRevisionHistory r (pubID pub) of Inl _ \<Rightarrow> [] | Inr h \<Rightarrow> h) @ [clonePageRevision (pb_Revision pub)])))"

lemma slug_of_page: "wiki_inv r \<Longrightarrow> mget (wk_pages r) i = Some p \<Longrightarrow> PageBySlug r (wp_Slug p) = Inr p"
proof -
  assume inv: "wiki_inv r" and p: "mget (wk_pages r) i = Some p"
  then have "mget (wk_pageIDsBySlug r) (wp_Slug p) = Some i" unfolding wiki_inv_def slugs_ok_def by blast
  with p show ?thesis by (simp add: PageBySlug_def pageAt_def)
qed

lemma batch_mono:
  assumes inv: "wiki_inv r" and pubs: "batch_ok pubs" "PublishPages r pubs = (r', Inr ())"
    and v: "mget (wk_pageRevisions r) j = Some v"
  shows "mget (wk_pageRevisions r') j = Some v"
proof -
  from PublishPages_ok [OF inv pubs] obtain ps where "r' = fold applyPublication ps r" "ready r ps r" by metis
  with ready_revision_mono [OF _ v] show ?thesis by simp
qed

lemma batch_outside:
  assumes inv: "wiki_inv r" and pubs: "batch_ok pubs" "PublishPages r pubs = (r', Inr ())"
    and out: "\<And>pub. pub \<in> set pubs \<Longrightarrow> \<not> isApplied r pub \<Longrightarrow> pubID pub \<noteq> i"
  shows "mget (wk_pages r') i = mget (wk_pages r) i" "PageRevisionHistory r' i = PageRevisionHistory r i"
proof -
  from PublishPages_ok [OF inv pubs] obtain ps where ps: "ps = filter (\<lambda>pub. \<not> isApplied r pub) pubs"
    "r' = fold applyPublication ps r" by metis
  have "latest pubID ps i = None" unfolding latest_None ps(1) using out by auto
  then show same: "mget (wk_pages r') i = mget (wk_pages r) i" by (simp add: ps(2) fold_apply_get)
  have "wiki_inv r'" using PublishPages_inv [OF inv pubs(1)] pubs(2) by simp
  from history_same [OF inv this _ batch_mono [OF inv pubs], of i] show "PageRevisionHistory r' i = PageRevisionHistory r i" by (simp add: same)
qed

lemma batch_published:
  assumes inv: "wiki_inv r" and pubs: "batch_ok pubs" "PublishPages r pubs = (r', Inr ())" and pub: "pub \<in> set pubs"
  shows "published r r' pub"
proof -
  have inv': "wiki_inv r'" using PublishPages_inv [OF inv pubs(1)] pubs(2) by simp
  let ?p = "if isApplied r pub then pb_Page pub else publishedPage pub"
  have "mget (wk_pages r') (pubID pub) = Some ?p \<and> mget (wk_pageRevisions r') (pubRevision pub) = Some (clonePageRevision (pb_Revision pub))
    \<and> (isApplied r pub \<longrightarrow> PageRevisionHistory r' (pubID pub) = PageRevisionHistory r (pubID pub))"
  proof (cases "isApplied r pub")
    case True
    have "q = pub" if "q \<in> set pubs" "pubID q = pubID pub" for q
      using that pub pubs(1) unfolding batch_ok_def distinct_map inj_on_def by blast
    with True have other: "\<And>q. q \<in> set pubs \<Longrightarrow> \<not> isApplied r q \<Longrightarrow> pubID q \<noteq> pubID pub" by blast
    note out = batch_outside [OF inv pubs other]
    from True have page: "mget (wk_pages r) (pubID pub) = Some (pb_Page pub)"
      and v: "mget (wk_pageRevisions r) (pubRevision pub) = Some (pb_Revision pub)" by (simp_all add: isApplied_def)
    have "clonePageRevision (pb_Revision pub) = pb_Revision pub"
      using inv v unfolding wiki_inv_def revisions_ok_def by blast
    with True page out batch_mono [OF inv pubs v] show ?thesis by simp
  next
    case False
    from PublishPages_ok [OF inv pubs] obtain ps where ps: "ps = filter (\<lambda>pub. \<not> isApplied r pub) pubs"
      "r' = fold applyPublication ps r" "distinct (map pubID ps)" "distinct (map pubRevision ps)" by metis
    with pub False have "pub \<in> set ps" by simp
    with False latest_distinct [OF ps(3)] latest_distinct [OF ps(4)] show ?thesis by (simp add: ps(2) fold_apply_get)
  qed
  moreover from this slug_of_page [OF inv', of "pubID pub" ?p] have "PageBySlug r' (pubSlug pub) = Inr ?p" by auto
  ultimately show ?thesis
    using published_history [OF inv pubs pub] by (simp add: published_def Let_def PageByID_def PageRevision_def)
qed

section \<open>The consistency of every reachable state\<close>

definition wiki_demo_revision :: page_revision where
  "wiki_demo_revision = zeroRevision\<lparr>pr_ID := ''r1'', pr_PageID := ''p1'', pr_Summary := ''sum'',
     pr_Sections := Some [\<lparr>ps_Key = ''intro'', ps_Heading = ''Intro'', ps_Markdown = ''hello wiki''\<rparr>]\<rparr>"

definition wiki_demo_publication :: publication where
  "wiki_demo_publication =
     \<lparr>pb_Page = zeroPage\<lparr>wp_ID := ''p1'', wp_Slug := ''alpha'', wp_Title := ''Alpha'', wp_CurrentRevisionID := ''r1''\<rparr>,
      pb_Revision = wiki_demo_revision,
      pb_Topics = [\<lparr>tp_ID = ''t1'', tp_ParentID = [], tp_Slug = ''team'', tp_Title = ''Team''\<rparr>],
      pb_Placement = Some \<lparr>pl_PageID = ''p1'', pl_TopicID = ''t1'', pl_Rank = 0\<rparr>, pb_Revive = False\<rparr>"

definition demo_wiki :: wiki where
  "demo_wiki = fst (PublishPages (NewWiki []) [wiki_demo_publication])"

lemma wiki_demo_PublishPages: "\<exists>r. PublishPages (NewWiki []) [wiki_demo_publication] = (r, Inr ())"
  by (simp add: PublishPages_def isApplied_def validatePublication_def wiki_demo_publication_def wiki_demo_revision_def NewWiki_def
      ResetWiki_def zeroRevision_def zeroPage_def validateExistingPage_def validateLinks_def validateTopics_def validateTopic_def
      topicDepth_def topicDepthFrom.simps parentOf_def validatePlacement_def DefaultTopicTreeMaxDepth_def elems_def Let_def)

lemma wiki_demo_published: "PublishPages (NewWiki []) [wiki_demo_publication] = (demo_wiki, Inr ())"
  using wiki_demo_PublishPages by (auto simp: demo_wiki_def)

lemma wiki_demo_batch: "batch_ok [wiki_demo_publication]"
  by (simp add: batch_ok_def wiki_demo_publication_def wiki_demo_revision_def)

lemma wiki_demo_start: "wiki_reachable (NewWiki [])"
  by (rule wiki_reachable.start) simp

lemma wiki_demo_reachable: "wiki_reachable demo_wiki"
  unfolding demo_wiki_def by (rule wiki_reachable.step [OF wiki_demo_start wiki_step.publish [OF wiki_demo_batch]])

lemma wiki_demo_pages: "mget (wk_pages demo_wiki) ''p1'' = Some (pb_Page wiki_demo_publication)"
  using batch_published [OF reachable_inv [OF wiki_demo_start] wiki_demo_batch wiki_demo_published, of wiki_demo_publication]
  by (simp add: published_def Let_def PageByID_def publishedPage_def wiki_demo_publication_def split: option.splits)



section \<open>Publication\<close>



section \<open>History\<close>

primrec chained :: "string \<Rightarrow> page_revision list \<Rightarrow> bool" where
  "chained base [] \<longleftrightarrow> True"
| "chained base (v # vs) \<longleftrightarrow> pr_BaseRevisionID v = base \<and> chained (pr_ID v) vs"

lemma chained_snoc:
  "chained base (vs @ [v]) \<longleftrightarrow> chained base vs \<and> pr_BaseRevisionID v = (if vs = [] then base else pr_ID (last vs))"
  by (induction vs arbitrary: base) auto

lemma lineage_head: "lineage revs i rid vs \<Longrightarrow> rid = (if vs = [] then [] else rid) \<and> (\<forall>v \<in> set vs. pr_PageID v = i)"
  by (induction rule: lineage.induct) auto

lemma lineage_chained:
  "lineage revs i rid vs \<Longrightarrow> \<forall>j w. mget revs j = Some w \<longrightarrow> pr_ID w = j \<Longrightarrow>
     chained [] (rev vs) \<and> (vs \<noteq> [] \<longrightarrow> pr_ID (hd vs) = rid) \<and> (vs = [] \<longrightarrow> rid = [])"
proof (induction rule: lineage.induct)
  case (base rid v vs)
  from base.hyps(2) base.prems have "pr_ID v = rid" by blast
  with base show ?case by (auto simp: chained_snoc last_rev)
qed simp

text \<open>The history of a stored page is total: it starts at a revision without base, every revision builds on
  the one before it, all belong to the page, no revision occurs twice, and the last one is the current revision.\<close>

theorem PageRevisionHistory_total:
  assumes "wiki_reachable r" and "PageByID r i = Inr p"
  shows "\<exists>h v. PageRevisionHistory r i = Inr (h @ [v]) \<and> pr_ID v = wp_CurrentRevisionID p \<and>
    PageRevision r (wp_CurrentRevisionID p) = Inr v \<and> chained [] (h @ [v]) \<and> distinct (map pr_ID (h @ [v])) \<and>
    list_all (\<lambda>w. pr_PageID w = i) (h @ [v])"
proof -
  have inv: "wiki_inv r" using assms(1) by (rule reachable_inv)
  have page: "mget (wk_pages r) i = Some p" using assms(2) by (simp add: PageByID_def split: option.splits)
  from inv page obtain v vs where v: "mget (wk_pageRevisions r) (wp_CurrentRevisionID p) = Some v" "pr_ID v = wp_CurrentRevisionID p"
    and lin: "lineage (wk_pageRevisions r) i (wp_CurrentRevisionID p) (v # vs)" by (rule inv_current)
  have keys: "\<forall>j w. mget (wk_pageRevisions r) j = Some w \<longrightarrow> pr_ID w = j"
    using inv unfolding wiki_inv_def revisions_ok_def by blast
  have chain: "chained base (map clonePageRevision ws) = chained base ws" for base ws
    by (induction ws arbitrary: base) simp_all
  have "PageRevisionHistory r i = Inr (map clonePageRevision (rev vs) @ [clonePageRevision v])"
    using history_lineage [OF inv page lin] by (simp add: rev_map)
  moreover have "chained [] (map clonePageRevision (rev vs) @ [clonePageRevision v])"
    using lineage_chained [OF lin keys] chain [of "[]" "rev vs @ [v]"] by simp
  moreover have "distinct (map pr_ID (map clonePageRevision (rev vs) @ [clonePageRevision v]))"
    using lineage_distinct [OF lin keys] by (simp add: comp_def rev_map [symmetric])
  moreover have "list_all (\<lambda>w. pr_PageID w = i) (map clonePageRevision (rev vs) @ [clonePageRevision v])"
    using lineage_head [OF lin] by (auto simp: list_all_iff)
  ultimately show ?thesis using v
    by (intro exI [of _ "map clonePageRevision (rev vs)"] exI [of _ "clonePageRevision v"]) (simp add: PageRevision_def)
qed

theorem PageRevisionHistory_total_witness:
  "wiki_reachable demo_wiki \<and> PageByID demo_wiki ''p1'' = Inr (pb_Page wiki_demo_publication) \<and>
   (\<exists>h v. PageRevisionHistory demo_wiki ''p1'' = Inr (h @ [v]) \<and> pr_ID v = ''r1'')"
proof -
  have page: "PageByID demo_wiki ''p1'' = Inr (pb_Page wiki_demo_publication)" by (simp add: PageByID_def wiki_demo_pages)
  from PageRevisionHistory_total [OF wiki_demo_reachable page] obtain h v where
    "PageRevisionHistory demo_wiki ''p1'' = Inr (h @ [v])" "pr_ID v = wp_CurrentRevisionID (pb_Page wiki_demo_publication)" by blast
  then show ?thesis using page wiki_demo_reachable by (auto simp: wiki_demo_publication_def)
qed

lemma side_same:
  assumes "\<And>i. map_option wp_CurrentRevisionID (mget (wk_pages r') i) = map_option wp_CurrentRevisionID (mget (wk_pages r) i)"
    and "wk_pageRevisions r' = wk_pageRevisions r" and "wiki_inv r" and "wiki_inv r'"
  shows "PageRevisionHistory r' i = PageRevisionHistory r i"
  using history_same [OF assms(3,4,1)] assms(2) by simp

lemma retire_current:
  "map_option wp_CurrentRevisionID (mget (wk_pages (fst (RetirePage r request))) i) =
     map_option wp_CurrentRevisionID (mget (wk_pages r) i)" "wk_pageRevisions (fst (RetirePage r request)) = wk_pageRevisions r"
  by (cases rule: RetirePage_cases [of r request]; simp add: go_map)+

lemma step_pages:
  assumes "wiki_step r r'" and "\<nexists>pubs. batch_ok pubs \<and> r' = fst (PublishPages r pubs)"
  shows "map_option wp_CurrentRevisionID (mget (wk_pages r') i) = map_option wp_CurrentRevisionID (mget (wk_pages r) i) \<and>
    wk_pageRevisions r' = wk_pageRevisions r"
  using assms
proof cases
  case (publish pubs)
  with assms(2) show ?thesis by blast
next
  case (retire request)
  then show ?thesis using retire_current by simp
qed (auto simp: SaveSourceRevision_def RebuildSearchIndex_def ReplaceTopicTree_def SaveMaintenanceRun_def
    RollbackMaintenanceRun_def SaveCurationRun_def SavePageEmbedding_def SaveTypeRegistryEntry_def
    SetGenerationSettings_def split: option.split sum.split)

text \<open>Histories only grow: whatever operation runs, a page that has a history keeps it as a prefix, extended
  by at most one revision; a retirement, a new topic tree or an index rebuild does not touch it.\<close>

theorem history_append_only:
  assumes "wiki_reachable r" and "wiki_step r r'" and "PageRevisionHistory r i = Inr h"
  shows "\<exists>h'. PageRevisionHistory r' i = Inr (h @ h') \<and> length h' \<le> 1"
proof -
  have inv: "wiki_inv r" "wiki_inv r'" using reachable_inv assms(1) wiki_step_inv [OF assms(2)] by blast+
  have "PageRevisionHistory r' i = Inr h \<or> (\<exists>v. PageRevisionHistory r' i = Inr (h @ [v]))"
  proof (cases "\<exists>pubs. batch_ok pubs \<and> r' = fst (PublishPages r pubs)")
    case False
    with step_pages [OF assms(2)] side_same [OF _ _ inv] assms(3) show ?thesis by metis
  next
    case True
    then obtain pubs res where pubs: "batch_ok pubs" "PublishPages r pubs = (r', res)" by (metis prod.collapse)
    show ?thesis
    proof (cases res)
      case (Inl e)
      with pubs(2) have "r' = r" by (auto simp: PublishPages_def split: sum.splits)
      with assms(3) show ?thesis by simp
    next
      case (Inr u)
      with pubs(2) have ok: "PublishPages r pubs = (r', Inr ())" by simp
      show ?thesis
      proof (cases "\<exists>pub \<in> set pubs. \<not> isApplied r pub \<and> pubID pub = i")
        case True
        then obtain pub where "pub \<in> set pubs" "\<not> isApplied r pub" "pubID pub = i" by blast
        with published_history [OF inv(1) pubs(1) ok] assms(3) show ?thesis by auto
      next
        case False
        then have "\<And>pub. pub \<in> set pubs \<Longrightarrow> \<not> isApplied r pub \<Longrightarrow> pubID pub \<noteq> i" by blast
        from batch_outside(2) [OF inv(1) pubs(1) ok this] assms(3) show ?thesis by simp
      qed
    qed
  qed
  then show ?thesis
  proof
    assume "PageRevisionHistory r' i = Inr h"
    then show ?thesis by (intro exI [of _ "[]"]) simp
  next
    assume "\<exists>v. PageRevisionHistory r' i = Inr (h @ [v])"
    then obtain v where "PageRevisionHistory r' i = Inr (h @ [v])" by blast
    then show ?thesis by (intro exI [of _ "[v]"]) simp
  qed
qed

definition wiki_demo_retirement :: retire_request where
  "wiki_demo_retirement = \<lparr>rt_PageID = ''p1'', rt_ExpectedBaseRevisionID = ''r1'', rt_SuccessorPageID = [], rt_RunID = ''run''\<rparr>"

lemma wiki_demo_history: "\<exists>h. PageRevisionHistory demo_wiki ''p1'' = Inr h"
  using batch_published [OF reachable_inv [OF wiki_demo_start] wiki_demo_batch wiki_demo_published, of wiki_demo_publication]
  by (auto simp: published_def Let_def isApplied_def NewWiki_def ResetWiki_def wiki_demo_publication_def)

theorem history_append_only_witness:
  "wiki_reachable demo_wiki \<and> wiki_step demo_wiki (fst (RetirePage demo_wiki wiki_demo_retirement)) \<and>
   (\<exists>h h'. PageRevisionHistory demo_wiki ''p1'' = Inr h \<and>
      PageRevisionHistory (fst (RetirePage demo_wiki wiki_demo_retirement)) ''p1'' = Inr (h @ h'))"
proof -
  obtain h where h: "PageRevisionHistory demo_wiki ''p1'' = Inr h" using wiki_demo_history by blast
  have step: "wiki_step demo_wiki (fst (RetirePage demo_wiki wiki_demo_retirement))" by (rule wiki_step.retire)
  from history_append_only [OF wiki_demo_reachable step h] h step wiki_demo_reachable show ?thesis by blast
qed

section \<open>Retirement\<close>

text \<open>Page \<open>i\<close> appears in no listing.\<close>

definition hidden :: "wiki \<Rightarrow> string \<Rightarrow> bool" where
  "hidden r i \<longleftrightarrow>
     (\<forall>c. PageCatalog r = Inr c \<longrightarrow> i \<notin> ce_ID ` set c) \<and>
     (\<forall>nav. Navigation r = Some nav \<longrightarrow> i \<notin> set (shownPages nav)) \<and>
     (\<forall>q rs. Search r q = Inr rs \<longrightarrow> i \<notin> (\<lambda>res. wp_ID (sr_Page res)) ` set rs)"

lemma retired_hidden:
  assumes inv: "wiki_inv r" and p: "mget (wk_pages r) i = Some p" "Retired p"
  shows "hidden r i"
proof -
  have wf: "mwf (wk_pages r)" using inv_maps [OF inv] by blast
  have only: "q = p" if "mget (wk_pages r) j = Some q" "wp_ID q = i" for j q
    using that page_key [OF inv that(1)] p(1) by simp
  have "i \<notin> ce_ID ` set c" if "PageCatalog r = Inr c" for c
  proof
    assume "i \<in> ce_ID ` set c"
    with that obtain j q where "(j, q) \<in> set (wk_pages r)" "\<not> Retired q" "wp_ID q = i"
      by (auto simp: PageCatalog_def catalogEntry_def)
    with only mem_mget [OF wf] p(2) show False by blast
  qed
  moreover have "i \<notin> set (shownPages nav)" if "Navigation r = Some nav" for nav
  proof -
    obtain nav' where "Navigation r = Some nav'" "distinct (shownPages nav')"
      "set (shownPages nav') = {i. \<exists>p. mget (wk_pages r) i = Some p \<and> \<not> Retired p}" by (rule navigation_shown [OF inv])
    with that p show ?thesis by simp
  qed
  moreover have "i \<notin> (\<lambda>res. wp_ID (sr_Page res)) ` set rs" if found: "Search r q = Inr rs" for q rs
  proof
    assume "i \<in> (\<lambda>res. wp_ID (sr_Page res)) ` set rs"
    then obtain res where res: "res \<in> set rs" "wp_ID (sr_Page res) = i" by blast
    from res(1) obtain j u v sec where "mget (wk_pages r) j = Some u" "\<not> Retired u" "res = sectionResult q u v sec"
      unfolding search_set [OF inv found] by blast
    with res(2) only p(2) show False by (auto simp: sectionResult_def)
  qed
  ultimately show ?thesis unfolding hidden_def by blast
qed

text \<open>Retirement is a compare-and-set on the current revision: it succeeds exactly for an active page whose
  current revision is the expected one, and changes nothing otherwise.  A retired page appears neither in the
  catalogue nor in navigation nor in search results, but it still resolves by identifier and by slug, keeps its
  history, and no publication revises it without asking for its revival.\<close>

theorem RetirePage_hides:
  assumes "wiki_reachable r" and "RetirePage r request = (r', res)"
  shows "case res of
      Inl _ \<Rightarrow> r' = r \<and> \<not> (\<exists>p. PageByID r (rt_PageID request) = Inr p \<and> \<not> Retired p \<and>
        wp_CurrentRevisionID p = rt_ExpectedBaseRevisionID request)
    | Inr _ \<Rightarrow> (\<exists>p q. PageByID r (rt_PageID request) = Inr p \<and> \<not> Retired p \<and>
          wp_CurrentRevisionID p = rt_ExpectedBaseRevisionID request \<and>
          q = p\<lparr>wp_Status := PageStatusRetired, wp_SuccessorPageID := rt_SuccessorPageID request,
                wp_RetiredByRunID := rt_RunID request\<rparr> \<and>
          PageByID r' (rt_PageID request) = Inr q \<and> PageBySlug r' (wp_Slug p) = Inr q) \<and>
        hidden r' (rt_PageID request) \<and>
        PageRevisionHistory r' (rt_PageID request) = PageRevisionHistory r (rt_PageID request) \<and>
        (\<forall>pub pending. pubID pub = rt_PageID request \<and> \<not> pb_Revive pub \<longrightarrow> validatePublication r' pub pending \<noteq> Inr ())"
proof (cases rule: RetirePage_cases [of r request])
  case (error e)
  with assms(2) show ?thesis
    by (auto simp: RetirePage_def Let_def PageByID_def split: option.splits if_splits)
next
  case (retired p)
  let ?i = "rt_PageID request"
  let ?q = "p\<lparr>wp_Status := PageStatusRetired, wp_SuccessorPageID := rt_SuccessorPageID request, wp_RetiredByRunID := rt_RunID request\<rparr>"
  have inv: "wiki_inv r" "wiki_inv r'" using reachable_inv [OF assms(1)] RetirePage_inv [of r request] assms(2) by simp_all
  have r': "r' = fst (RetirePage r request)" and res: "res = Inr ()" using retired(4) assms(2) by simp_all
  have q: "mget (wk_pages r') ?i = Some ?q" using retired(4) by (simp add: r' go_map)
  have "hidden r' ?i" using retired_hidden [OF inv(2) q] by (simp add: Retired_def)
  moreover have "PageRevisionHistory r' ?i = PageRevisionHistory r ?i"
    unfolding r' by (rule side_same [OF retire_current]) (use inv r' in simp_all)
  moreover have "validatePublication r' pub pending \<noteq> Inr ()" if "pubID pub = ?i" "\<not> pb_Revive pub" for pub pending
  proof -
    have "validateExistingPage r' (pb_Page pub) (pb_Revision pub) (pb_Revive pub) = Inl (errf ErrRevisionConflict ''page is retired'')"
      using that q by (simp add: validateExistingPage_def Retired_def)
    then show ?thesis by (simp add: validatePublication_def Let_def)
  qed
  moreover have "PageBySlug r' (wp_Slug p) = Inr ?q" using slug_of_page [OF inv(2) q] by simp
  ultimately show ?thesis using retired(1-3) q by (simp add: res PageByID_def)
qed

theorem RetirePage_hides_witness:
  "wiki_reachable demo_wiki \<and>
   (\<exists>r'. RetirePage demo_wiki wiki_demo_retirement = (r', Inr ()) \<and> hidden r' ''p1'')"
proof -
  have "\<exists>r'. RetirePage demo_wiki wiki_demo_retirement = (r', Inr ())"
    using wiki_demo_pages by (simp add: RetirePage_def wiki_demo_retirement_def wiki_demo_publication_def Retired_def PageStatusRetired_def zeroPage_def)
  then obtain r' where r': "RetirePage demo_wiki wiki_demo_retirement = (r', Inr ())" by blast
  from RetirePage_hides [OF wiki_demo_reachable this] r' wiki_demo_reachable show ?thesis by (auto simp: wiki_demo_retirement_def)
qed

section \<open>Index, search and navigation\<close>

text \<open>C34. Rebuilding the search index from the current revisions, even after it was cleared, never fails and
  gives the index the publications had maintained incrementally: it has as many chunks, holds the same chunk
  under every identifier, and every query has the same results in the same order.\<close>

theorem RebuildSearchIndex_equivalent:
  assumes "wiki_reachable r"
  shows "\<exists>m. RebuildSearchIndex (ClearSearchChunks r) = (r\<lparr>wk_searchChunks := m\<rparr>, Inr ()) \<and>
    mget m = mget (wk_searchChunks r) \<and> SearchChunkCount (r\<lparr>wk_searchChunks := m\<rparr>) = SearchChunkCount r \<and>
    Search (r\<lparr>wk_searchChunks := m\<rparr>) q = Search r q"
proof -
  have inv: "wiki_inv r" using assms by (rule reachable_inv)
  have "wk_pages (ClearSearchChunks r) = wk_pages r" "wk_pageRevisions (ClearSearchChunks r) = wk_pageRevisions r"
    by (simp_all add: ClearSearchChunks_def)
  from rebuild_index [OF inv this] obtain m where m: "mwf m" "mget m = mget (wk_searchChunks r)"
    and rebuilt: "RebuildSearchIndex (ClearSearchChunks r) = ((ClearSearchChunks r)\<lparr>wk_searchChunks := m\<rparr>, Inr ())" by metis
  have "mset m = mset (wk_searchChunks r)" using mget_same_perm [OF m(1) _ m(2)] inv_maps [OF inv] by blast
  then have "length m = length (wk_searchChunks r)" by (rule mset_eq_length)
  moreover have "Search (r\<lparr>wk_searchChunks := m\<rparr>) q = Search r q" by (rule search_cong [OF inv]) (simp_all add: m)
  ultimately show ?thesis using m(2) rebuilt
    by (intro exI [of _ m]) (simp add: SearchChunkCount_def ClearSearchChunks_def)
qed

theorem RebuildSearchIndex_equivalent_witness:
  "wiki_reachable demo_wiki \<and>
   (\<exists>m. RebuildSearchIndex (ClearSearchChunks demo_wiki) = (demo_wiki\<lparr>wk_searchChunks := m\<rparr>, Inr ()) \<and>
     mget m = mget (wk_searchChunks demo_wiki))"
  using RebuildSearchIndex_equivalent [OF wiki_demo_reachable, of "''wiki''"] wiki_demo_reachable by blast

lemma lexicalScore_nonneg: "0 \<le> lexicalScore qs ps"
  unfolding lexicalScore_def by (rule sum_list_nonneg) auto

text \<open>C35. A search with at least one token returns exactly the sections of the current revisions of active pages
  that contain a query token, each once, best score first and then by slug and section key; a section key used
  twice counts for its last section.  Without a token the search is refused.\<close>

theorem Search_exact:
  assumes "wiki_reachable r"
  shows "case Search r q of
      Inl _ \<Rightarrow> tokenize q = []
    | Inr rs \<Rightarrow> tokenize q \<noteq> [] \<and> sorted_wrt (\<lambda>a b. \<not> resultOrder b a) rs \<and> distinct rs \<and>
        set rs = {res. \<exists>i p v sec. PageByID r i = Inr p \<and> \<not> Retired p \<and>
          mget (wk_pageRevisions r) (wp_CurrentRevisionID p) = Some v \<and> mget (sectionMap v) (ps_Key sec) = Some sec \<and>
          0 < lexicalScore (tokenize q) (tokenize (ps_Markdown sec)) \<and> res = sectionResult q p v sec}"
proof (cases "Search r q")
  case (Inl e)
  then show ?thesis by (simp add: Search_def Let_def split: if_splits)
next
  case (Inr rs)
  then have "tokenize q \<noteq> []" "sorted_wrt (\<lambda>a b. \<not> resultOrder b a) rs"
    using sorted_sort_by [OF weak_order_resultOrder] by (auto simp: Search_def Let_def split: if_splits)
  moreover have "PageByID r i = Inr p \<longleftrightarrow> mget (wk_pages r) i = Some p" for i p
    by (simp add: PageByID_def split: option.splits)
  moreover have "0 < lexicalScore xs ys \<longleftrightarrow> lexicalScore xs ys \<noteq> 0" for xs ys
    using lexicalScore_nonneg [of xs ys] by linarith
  ultimately show ?thesis
    using search_set [OF reachable_inv [OF assms] Inr] search_distinct [OF reachable_inv [OF assms] Inr] by (simp add: Inr)
qed

theorem Search_exact_witness:
  "wiki_reachable demo_wiki \<and> (\<exists>rs. Search demo_wiki ''wiki'' = Inr rs \<and> distinct rs)"
proof -
  have "tokenize ''wiki'' \<noteq> []" by code_simp
  with Search_exact [OF wiki_demo_reachable, of "''wiki''"] wiki_demo_reachable show ?thesis by (auto split: sum.splits)
qed

text \<open>C9. Navigation terminates in every reachable state, at most one level of recursion per topic, and shows
  every active page exactly once, in its topic or among the pages without one, and no other page.\<close>

theorem Navigation_total:
  assumes "wiki_reachable r"
  shows "\<exists>nav. Navigation r = Some nav \<and> distinct (shownPages nav) \<and>
    set (shownPages nav) = {i. \<exists>p. PageByID r i = Inr p \<and> \<not> Retired p}"
proof -
  have "PageByID r i = Inr p \<longleftrightarrow> mget (wk_pages r) i = Some p" for i p
    by (simp add: PageByID_def split: option.splits)
  moreover obtain nav where "Navigation r = Some nav" "distinct (shownPages nav)"
    "set (shownPages nav) = {i. \<exists>p. mget (wk_pages r) i = Some p \<and> \<not> Retired p}"
    by (rule navigation_shown [OF reachable_inv [OF assms]])
  ultimately show ?thesis by (intro exI [of _ nav]) simp
qed

theorem Navigation_total_witness:
  "wiki_reachable demo_wiki \<and> (\<exists>nav. Navigation demo_wiki = Some nav \<and> ''p1'' \<in> set (shownPages nav))"
proof -
  have "PageByID demo_wiki ''p1'' = Inr (pb_Page wiki_demo_publication)" "\<not> Retired (pb_Page wiki_demo_publication)"
    by (simp_all add: PageByID_def wiki_demo_pages wiki_demo_publication_def Retired_def PageStatusRetired_def zeroPage_def)
  with Navigation_total [OF wiki_demo_reachable] wiki_demo_reachable show ?thesis by auto
qed

section \<open>Where the repository falls short of its comments\<close>

text \<open>A replay is not recognised when the publication carried an empty slice that is not nil: the stored copy has
  nil there, \<open>reflect.DeepEqual\<close> tells them apart, and the second delivery is refused as stale.\<close>

definition empty_slice_publication :: publication where
  "empty_slice_publication =
     wiki_demo_publication\<lparr>pb_Revision := wiki_demo_revision\<lparr>pr_Citations := Some []\<rparr>\<rparr>"

lemma replay_with_empty_slice_refused:
  "case PublishPage (NewWiki []) empty_slice_publication of (r, res) \<Rightarrow>
     res = Inr () \<and> PublishPage r empty_slice_publication = (r, Inl (errf ErrRevisionConflict (''Page '' @ quote ''p1'' @ '' base is stale'')))"
  by code_simp

text \<open>Two publications of one batch may define one new topic differently: each is checked against the topics
  stored before the batch, the last definition wins, and the tree may grow deeper than the configured maximum.\<close>

definition topicNamed :: "string \<Rightarrow> string \<Rightarrow> topic" where
  "topicNamed i parent = \<lparr>tp_ID = i, tp_ParentID = parent, tp_Slug = i, tp_Title = i\<rparr>"

definition deep_batch :: "publication list" where
  "deep_batch =
     [wiki_demo_publication\<lparr>pb_Topics := [topicNamed ''a'' [], topicNamed ''b'' ''a''], pb_Placement := None\<rparr>,
      wiki_demo_publication\<lparr>pb_Page := zeroPage\<lparr>wp_ID := ''p2'', wp_Slug := ''beta'', wp_CurrentRevisionID := ''r2''\<rparr>,
        pb_Revision := zeroRevision\<lparr>pr_ID := ''r2'', pr_PageID := ''p2''\<rparr>,
        pb_Topics := [topicNamed ''x'' [], topicNamed ''a'' ''x''], pb_Placement := None\<rparr>]"

lemma batch_exceeds_topic_depth:
  "case PublishPages (NewWiki [WithTopicTreeMaxDepth 2]) deep_batch of (r, res) \<Rightarrow>
     res = Inr () \<and> wk_maxTopicDepth r = 2 \<and> topicDepth ''b'' (wk_topics r) (wk_maxTopicDepth r) = 3"
  by code_simp

text \<open>\<open>StableID\<close> separates its values by a byte instead of delimiting them by their lengths.\<close>

lemma StableID_collides: "StableID pre [''a'' @ CHR 0x00 # ''b''] = StableID pre [''a'', ''b'']"
  by (simp add: StableID_def)

end
