(* ===== verification/Sql_Transactions.thy ===== *)
theory Sql_Transactions
  imports Session_Repository
begin

text \<open>
  Transactions of PostgreSQL as the adapters use them: a transaction is a computation on the tables that fails or returns
  the new tables with a value; it is kept only when it is committed.  Every statement may fail.  A \<open>timestamptz\<close> has
  microseconds, an \<open>INTEGER\<close> 32 bits.  The steps of a transaction are inverted by the collection \<open>tx_ok\<close>.
\<close>

named_theorems tx_ok \<open>when a step of a transaction succeeds\<close>

section \<open>Columns\<close>

definition pg_time :: "time \<Rightarrow> time" where
  "pg_time t = t div 1000 * 1000"

definition fits_int4 :: "int \<Rightarrow> bool" where
  "fits_int4 n \<longleftrightarrow> - (2 ^ 31) \<le> n \<and> n < 2 ^ 31"

definition foreignKeyViolation :: go_error where
  "foreignKeyViolation = ErrorNew ''insert or update violates foreign key constraint''"

definition notNullViolation :: go_error where
  "notNullViolation = ErrorNew ''null value violates not-null constraint''"

definition numericOutOfRange :: go_error where
  "numericOutOfRange = ErrorNew ''value is out of range for type integer''"

definition ErrNoRows :: go_error where
  "ErrNoRows = Sentinel ''no rows in result set''"

section \<open>Transactions\<close>

type_synonym ('d, 'a) sql = "'d \<Rightarrow> ('d \<times> 'a) res"

definition tx_return :: "'a \<Rightarrow> ('d, 'a) sql" where
  "tx_return a db = Inr (db, a)"

definition tx_fail :: "go_error \<Rightarrow> ('d, 'a) sql" where
  "tx_fail e db = Inl e"

definition tx_bind :: "('d, 'a) sql \<Rightarrow> ('a \<Rightarrow> ('d, 'b) sql) \<Rightarrow> ('d, 'b) sql" where
  "tx_bind m f db = (case m db of Inl e \<Rightarrow> Inl e | Inr (db', a) \<Rightarrow> f a db')"

definition tx_lift :: "'a res \<Rightarrow> ('d, 'a) sql" where
  "tx_lift r = (case r of Inl e \<Rightarrow> tx_fail e | Inr a \<Rightarrow> tx_return a)"

text \<open>One statement: it fails when the database says so, at a \<open>point\<close> that names the statement and its row, or when the
  tables refuse it; either way the code wraps the error with its message.\<close>

definition statement :: "db_fault \<Rightarrow> string \<Rightarrow> string \<Rightarrow> ('d, 'a) sql \<Rightarrow> ('d, 'a) sql" where
  "statement fault message point sql db =
     (case fault (message @ point) of
        Some e \<Rightarrow> Inl (wrapf (message @ '': '') e)
      | None \<Rightarrow> (case sql db of Inl e \<Rightarrow> Inl (wrapf (message @ '': '') e) | Inr r \<Rightarrow> Inr r))"

text \<open>A transaction from its begin to its commit, with the messages the code gives them.  Leaving it with
  an error rolls it back, and the rollback may add its own error.\<close>

definition transaction :: "db_fault \<Rightarrow> string \<Rightarrow> string \<Rightarrow> string \<Rightarrow> ('d, 'a) sql \<Rightarrow> 'd \<Rightarrow> 'd \<times> 'a res" where
  "transaction fault beginning rollback commit work db =
     (case step fault beginning of
        Inl e \<Rightarrow> (db, Inl e)
      | Inr _ \<Rightarrow>
      case work db of
        Inl e \<Rightarrow> (db, Inl (abort fault rollback e))
      | Inr (db', a) \<Rightarrow>
          (case step fault commit of
             Inl e \<Rightarrow> (db, Inl (abort fault rollback e))
           | Inr _ \<Rightarrow> (db', Inr a)))"

text \<open>A statement outside a transaction is its own transaction.\<close>

definition autocommit :: "('d, 'a) sql \<Rightarrow> 'd \<Rightarrow> 'd \<times> 'a res" where
  "autocommit sql db = (case sql db of Inl e \<Rightarrow> (db, Inl e) | Inr (db', a) \<Rightarrow> (db', Inr a))"

section \<open>Steps that succeed\<close>

lemma tx_bind_ok [tx_ok]: "tx_bind m f db = Inr (db', b) \<longleftrightarrow> (\<exists>db1 a. m db = Inr (db1, a) \<and> f a db1 = Inr (db', b))"
  by (auto simp: tx_bind_def split: sum.splits)

lemma statement_ok [tx_ok]: "statement fault message point sql db = Inr r \<longleftrightarrow> fault (message @ point) = None \<and> sql db = Inr r"
  by (auto simp: statement_def split: option.splits sum.splits)

lemma tx_return_ok [tx_ok]: "tx_return a db = Inr (db', b) \<longleftrightarrow> db' = db \<and> b = a"
  by (auto simp: tx_return_def)

lemma tx_lift_ok [tx_ok]: "tx_lift r db = Inr (db', b) \<longleftrightarrow> db' = db \<and> r = Inr b"
  by (auto simp: tx_lift_def tx_return_def tx_fail_def split: sum.splits)

lemma step_ok [tx_ok]: "step fault label = Inr () \<longleftrightarrow> fault label = None"
  by (auto simp: step_def split: option.splits)

lemma transaction_ok: "transaction fault b r c work db = (db', Inr a) \<Longrightarrow> work db = Inr (db', a)"
  by (auto simp: transaction_def split: sum.splits prod.splits)

lemma transaction_error: "transaction fault b r c work db = (db', Inl e) \<Longrightarrow> db' = db"
  by (auto simp: transaction_def split: sum.splits prod.splits)

lemma autocommit_ok: "autocommit sql db = (db', Inr a) \<longleftrightarrow> sql db = Inr (db', a)"
  by (auto simp: autocommit_def split: sum.splits prod.splits)

lemma autocommit_error: "autocommit sql db = (db', Inl e) \<Longrightarrow> db' = db"
  by (auto simp: autocommit_def split: sum.splits prod.splits)

end
