(* ===== verification/Note_Tables.thy ===== *)
theory Note_Tables
  imports Sql_Transactions Note_Ledger
begin

text \<open>
  The tables behind the PostgreSQL note store (\<open>internal/platform/postgres/migrations\<close>, \<open>001_init.sql\<close> to
  \<open>014_recall_hint_deliveries.sql\<close>) and the statements of \<open>notes.go\<close> that write them, with the keys, foreign keys and
  column types that can make a statement fail.
  The tables of the sessions (\<open>Session_Repository\<close>) are part of the same database.
\<close>

section \<open>Rows\<close>

record run_row =
  xr_Actor :: actor
  xr_FromSequence :: int
  xr_ToSequence :: int
  xr_InputChecksum :: string
  xr_CandidateChecksum :: string
  xr_Model :: string
  xr_PromptVersion :: string
  xr_Status :: string
  xr_InputTokens :: int
  xr_OutputTokens :: int
  xr_Error :: string
  xr_Result :: string
  xr_CreatedAt :: time
  xr_CompletedAt :: "time option"

record candidate_row =
  cr_RunID :: string
  cr_Action :: string
  cr_Kind :: string
  cr_Subject :: string
  cr_IdentityRef :: string
  cr_Body :: string
  cr_TaskRef :: string
  cr_ThreadRef :: string
  cr_Origin :: actor
  cr_AudienceAgentIDs :: "string list"
  cr_RelatedSubjects :: "string list"
  cr_EvidenceEventIDs :: "string list"
  cr_ValidAt :: "time option"
  cr_InvalidAt :: "time option"
  cr_SourceOccurredAt :: "time option"
  cr_AdmissionStatus :: string
  cr_RejectionReason :: string

record note_row =
  tn_Key :: string
  tn_Kind :: string
  tn_Subject :: string
  tn_Body :: string
  tn_TaskRef :: string
  tn_ThreadRef :: string
  tn_Origin :: actor
  tn_AudienceAgentIDs :: "string list"
  tn_RelatedSubjects :: "string list"
  tn_State :: string
  tn_CurrentRevision :: int
  tn_SoftExpiresAt :: time
  tn_HardExpiresAt :: time
  tn_CreatedAt :: time
  tn_UpdatedAt :: time
  tn_ValidAt :: "time option"
  tn_InvalidAt :: "time option"
  tn_SourceOccurredAt :: "time option"
  tn_Embedding :: "string option"
  tn_EmbeddingModel :: string
  tn_EmbeddingRevision :: "int option"
  tn_EmbeddingError :: string

record revision_row =
  rv_CandidateID :: string
  rv_Operation :: string
  rv_Body :: string
  rv_RelatedSubjects :: "string list"
  rv_ValidAt :: "time option"
  rv_InvalidAt :: "time option"
  rv_CreatedAt :: time
  rv_ExpiredAt :: "time option"

record delivery_row =
  dl_Recipient :: actor
  dl_ContextTokens :: int
  dl_DeliveredAt :: time

record hint_row =
  hd_LeadNoteID :: string
  hd_Recipient :: actor
  hd_ContextTokens :: int
  hd_DeliveredAt :: time

record observation_row =
  ob_ID :: int
  ob_Scope :: string
  ob_Recipient :: actor
  ob_TaskRef :: string
  ob_ThreadRef :: string
  ob_QueryDigest :: "nat list"
  ob_TokenBudget :: int
  ob_MaxItems :: int
  ob_Snapshot :: string
  ob_Provenance :: string
  ob_Envelope :: string
  ob_Trace :: string
  ob_DurationMS :: int
  ob_CreatedAt :: time
  ob_ExpiresAt :: time

type_synonym row_key = "string \<times> string"
type_synonym revision_key = "string \<times> string \<times> int"
type_synonym delivery_key = "string \<times> string \<times> int \<times> string"

record note_db =
  nd_runs :: "(row_key, run_row) gomap"
  nd_candidates :: "(row_key, candidate_row) gomap"
  nd_notes :: "(row_key, note_row) gomap"
  nd_revisions :: "(revision_key, revision_row) gomap"
  nd_evidence :: "(string \<times> string \<times> int \<times> string) list"
  nd_deliveries :: "(delivery_key, delivery_row) gomap"
  nd_hints :: "(row_key, hint_row) gomap"
  nd_observations :: "observation_row list"
  nd_session :: pg

definition emptyNoteDB :: "pg \<Rightarrow> note_db" where
  "emptyNoteDB session = \<lparr>nd_runs = [], nd_candidates = [], nd_notes = [], nd_revisions = [], nd_evidence = [],
     nd_deliveries = [], nd_hints = [], nd_observations = [], nd_session = session\<rparr>"

type_synonym 'a tx = "(note_db, 'a) sql"

section \<open>Statements\<close>

text \<open>\<open>INSERT INTO extraction_runs ... ON CONFLICT (scope_id, run_id) DO NOTHING\<close>: the rows it affected.  The table has
  a second key, \<open>UNIQUE (scope_id, agent_id, session_id, input_checksum)\<close>, which the conflict clause does not cover.\<close>

definition sameRunInput :: "string \<Rightarrow> run_row \<Rightarrow> row_key \<times> run_row \<Rightarrow> bool" where
  "sameRunInput scopeID row kr \<longleftrightarrow> fst (fst kr) = scopeID \<and> AgentID (xr_Actor (snd kr)) = AgentID (xr_Actor row) \<and>
     SessionID (xr_Actor (snd kr)) = SessionID (xr_Actor row) \<and> xr_InputChecksum (snd kr) = xr_InputChecksum row"

definition insertRunRow :: "string \<Rightarrow> string \<Rightarrow> run_row \<Rightarrow> nat tx" where
  "insertRunRow scopeID runID row db =
     (if mget (nd_runs db) (scopeID, runID) \<noteq> None then Inr (db, 0)
      else if list_ex (sameRunInput scopeID row) (nd_runs db) then Inl uniqueViolation
      else Inr (db\<lparr>nd_runs := mput (scopeID, runID) row (nd_runs db)\<rparr>, 1))"

text \<open>\<open>UPDATE extraction_runs SET status = 'completed', result = ..., completed_at = NOW() WHERE ...\<close>.\<close>

definition completeRunRow :: "time \<Rightarrow> string \<Rightarrow> string \<Rightarrow> string \<Rightarrow> unit tx" where
  "completeRunRow now scopeID runID result db =
     (case mget (nd_runs db) (scopeID, runID) of
        None \<Rightarrow> Inr (db, ())
      | Some row \<Rightarrow> Inr (db\<lparr>nd_runs := mput (scopeID, runID)
          (row\<lparr>xr_Status := ExtractionRunCompleted, xr_Result := result, xr_CompletedAt := Some (pg_time now)\<rparr>) (nd_runs db)\<rparr>, ()))"

text \<open>\<open>INSERT INTO note_candidates ... ON CONFLICT (scope_id, candidate_id) DO NOTHING\<close>.  A nil slice of evidence is sent
  as \<open>NULL\<close>, which the column refuses.\<close>

definition insertCandidateRow :: "bool \<Rightarrow> string \<Rightarrow> string \<Rightarrow> candidate_row \<Rightarrow> nat tx" where
  "insertCandidateRow nullEvidence scopeID candidateID row db =
     (if nullEvidence then Inl notNullViolation
      else if mget (nd_candidates db) (scopeID, candidateID) \<noteq> None then Inr (db, 0)
      else if mget (nd_runs db) (scopeID, cr_RunID row) = None then Inl foreignKeyViolation
      else Inr (db\<lparr>nd_candidates := mput (scopeID, candidateID) row (nd_candidates db)\<rparr>, 1))"

definition updateCandidateRow :: "string \<Rightarrow> string \<Rightarrow> (candidate_row \<Rightarrow> candidate_row) \<Rightarrow> unit tx" where
  "updateCandidateRow scopeID candidateID f db =
     (case mget (nd_candidates db) (scopeID, candidateID) of
        None \<Rightarrow> Inr (db, ())
      | Some row \<Rightarrow> Inr (db\<lparr>nd_candidates := mput (scopeID, candidateID) (f row) (nd_candidates db)\<rparr>, ()))"

text \<open>\<open>INSERT INTO team_notes ... ON CONFLICT (scope_id, note_id) DO UPDATE SET ...\<close>: the key, the kind, the subject, the
  references, the hard expiry and the creation time of a stored note stay, its embedding is dropped.\<close>

definition upsertNoteRow :: "string \<Rightarrow> string \<Rightarrow> note_row \<Rightarrow> unit tx" where
  "upsertNoteRow scopeID noteID row db =
     (if \<not> fits_int4 (tn_CurrentRevision row) then Inl numericOutOfRange
      else
      case mget (nd_notes db) (scopeID, noteID) of
        None \<Rightarrow>
          if list_ex (\<lambda>((scope, _), r). scope = scopeID \<and> tn_Key r = tn_Key row) (nd_notes db) then Inl uniqueViolation
          else Inr (db\<lparr>nd_notes := mput (scopeID, noteID) row (nd_notes db)\<rparr>, ())
      | Some old \<Rightarrow> Inr (db\<lparr>nd_notes := mput (scopeID, noteID)
          (old\<lparr>tn_Body := tn_Body row, tn_Origin := tn_Origin row, tn_AudienceAgentIDs := tn_AudienceAgentIDs row,
             tn_RelatedSubjects := tn_RelatedSubjects row, tn_State := tn_State row,
             tn_CurrentRevision := tn_CurrentRevision row, tn_SoftExpiresAt := tn_SoftExpiresAt row,
             tn_ValidAt := tn_ValidAt row, tn_InvalidAt := tn_InvalidAt row,
             tn_SourceOccurredAt := tn_SourceOccurredAt row, tn_UpdatedAt := tn_UpdatedAt row,
             tn_Embedding := None, tn_EmbeddingModel := [], tn_EmbeddingRevision := None, tn_EmbeddingError := []\<rparr>)
          (nd_notes db)\<rparr>, ()))"

text \<open>\<open>UPDATE note_revisions SET expired_at = ..., invalid_at = COALESCE(invalid_at, ...) WHERE ... expired_at IS NULL\<close>.\<close>

definition expireRevision :: "time \<Rightarrow> time \<Rightarrow> revision_row \<Rightarrow> revision_row" where
  "expireRevision expiredAt boundary r =
     (if rv_ExpiredAt r = None
      then r\<lparr>rv_ExpiredAt := Some expiredAt,
        rv_InvalidAt := (case rv_InvalidAt r of None \<Rightarrow> Some boundary | Some t \<Rightarrow> Some t)\<rparr>
      else r)"

definition expireRevisionRows :: "string \<Rightarrow> string \<Rightarrow> time \<Rightarrow> time \<Rightarrow> unit tx" where
  "expireRevisionRows scopeID noteID expiredAt boundary db =
     Inr (db\<lparr>nd_revisions := map (\<lambda>((scope, note, revision), r).
       ((scope, note, revision), if scope = scopeID \<and> note = noteID then expireRevision expiredAt boundary r else r))
       (nd_revisions db)\<rparr>, ())"

definition insertRevisionRow :: "string \<Rightarrow> string \<Rightarrow> int \<Rightarrow> revision_row \<Rightarrow> unit tx" where
  "insertRevisionRow scopeID noteID revision row db =
     (if \<not> fits_int4 revision then Inl numericOutOfRange
      else if mget (nd_revisions db) (scopeID, noteID, revision) \<noteq> None then Inl uniqueViolation
      else if list_ex (\<lambda>((scope, _), r). scope = scopeID \<and> rv_CandidateID r = rv_CandidateID row) (nd_revisions db)
      then Inl uniqueViolation
      else if mget (nd_notes db) (scopeID, noteID) = None \<or> mget (nd_candidates db) (scopeID, rv_CandidateID row) = None
      then Inl foreignKeyViolation
      else Inr (db\<lparr>nd_revisions := mput (scopeID, noteID, revision) row (nd_revisions db)\<rparr>, ()))"

definition eventStored :: "pg \<Rightarrow> string \<Rightarrow> string \<Rightarrow> bool" where
  "eventStored session scopeID eventID = list_ex (\<lambda>r. row_scope r = scopeID \<and> row_event_id r = eventID) (pg_events session)"

definition insertEvidenceRow :: "string \<Rightarrow> string \<Rightarrow> int \<Rightarrow> string \<Rightarrow> unit tx" where
  "insertEvidenceRow scopeID noteID revision eventID db =
     (if (scopeID, noteID, revision, eventID) \<in> set (nd_evidence db) then Inl uniqueViolation
      else if mget (nd_revisions db) (scopeID, noteID, revision) = None \<or> \<not> eventStored (nd_session db) scopeID eventID
      then Inl foreignKeyViolation
      else Inr (db\<lparr>nd_evidence := nd_evidence db @ [(scopeID, noteID, revision, eventID)]\<rparr>, ()))"

text \<open>\<open>INSERT INTO note_deliveries ... ON CONFLICT DO NOTHING\<close>, \<open>INSERT INTO recall_hint_deliveries ... ON CONFLICT DO
  NOTHING\<close>: whether the row is new.\<close>

definition insertDeliveryRow :: "delivery_key \<Rightarrow> delivery_row \<Rightarrow> bool tx" where
  "insertDeliveryRow key row db =
     (case key of (scopeID, noteID, revision, session) \<Rightarrow>
        if \<not> fits_int4 revision \<or> \<not> fits_int4 (dl_ContextTokens row) then Inl numericOutOfRange
        else if mget (nd_deliveries db) key \<noteq> None then Inr (db, False)
        else if mget (nd_revisions db) (scopeID, noteID, revision) = None then Inl foreignKeyViolation
        else Inr (db\<lparr>nd_deliveries := mput key row (nd_deliveries db)\<rparr>, True))"

definition insertHintRow :: "row_key \<Rightarrow> hint_row \<Rightarrow> bool tx" where
  "insertHintRow key row db =
     (if \<not> fits_int4 (hd_ContextTokens row) then Inl numericOutOfRange
      else if mget (nd_hints db) key \<noteq> None then Inr (db, False)
      else Inr (db\<lparr>nd_hints := mput key row (nd_hints db)\<rparr>, True))"

definition insertObservationRow :: "observation_row \<Rightarrow> int tx" where
  "insertObservationRow row db =
     (if \<not> fits_int4 (ob_TokenBudget row) \<or> \<not> fits_int4 (ob_MaxItems row) then Inl numericOutOfRange
      else if ob_ID row \<in> ob_ID ` set (nd_observations db) then Inl uniqueViolation
      else Inr (db\<lparr>nd_observations := nd_observations db @ [row]\<rparr>, ob_ID row))"

definition deleteExpiredObservations :: "string \<Rightarrow> time \<Rightarrow> unit tx" where
  "deleteExpiredObservations scopeID now db =
     Inr (db\<lparr>nd_observations := filter (\<lambda>row. \<not> (ob_Scope row = scopeID \<and> ob_ExpiresAt row \<le> now)) (nd_observations db)\<rparr>, ())"

end
