(* ===== verification/Note_Query.thy ===== *)
theory Note_Query
  imports Note_Ledger
begin

text \<open>
  How a query is matched against notes and how a note is printed for recall (the query helpers of
  \<open>internal/teamnote/ledger.go\<close>).  \<open>rfc3339\<close> stands for \<open>Time.UTC().Format(time.RFC3339)\<close>.
  \<open>QueryRelevance\<close>, the quotient of two counts in \<open>float64\<close>, is in \<open>Recall_Intent\<close>.
\<close>

definition temporalStopWords :: "string list" where
  "temporalStopWords =
     [''and'', ''are'', ''for'', ''from'', ''has'', ''the'', ''this'', ''was'', ''what'', ''when'', ''which'',
      ''with'', ''answer'', ''available'', ''conversation'', ''count'', ''date'', ''exact'', ''information'',
      ''name'', ''number'', ''owner'', ''owners'', ''owns'', ''should'', ''target'', ''time'', ''timestamp'',
      ''value'', ''version'', ''who'']"

definition searchable :: "string \<Rightarrow> bool" where
  "searchable word \<longleftrightarrow> 3 \<le> length word \<and> word \<notin> set temporalStopWords"

text \<open>The set of searchable terms, as the list of its elements.\<close>

definition searchableTerms :: "string \<Rightarrow> string list" where
  "searchableTerms text =
     dedup_from [] (filter searchable (fields_func (\<lambda>c. \<not> ascii_letter c) (to_lower text)))"

definition SearchQuery :: "string \<Rightarrow> string" where
  "SearchQuery query = join '' '' (sort_by (<) (searchableTerms query))"

definition QueryRequestsOwnContext :: "string \<Rightarrow> bool" where
  "QueryRequestsOwnContext query =
     list_ex (\<lambda>word. word \<in> set [''i'', ''me'', ''my'', ''mine'', ''we'', ''our'', ''ours''])
       (fields_func (\<lambda>c. \<not> ascii_letter c) (to_lower query))"

definition queryRequestsCurrentState :: "string \<Rightarrow> bool" where
  "queryRequestsCurrentState query =
     list_ex (\<lambda>word. word \<in> set [''current'', ''currently'', ''latest'', ''now'', ''present''])
       (searchableTerms query)"

definition noteText :: "team_note \<Rightarrow> string" where
  "noteText n = nt_Subject n @ '' '' @ nt_Body n"

definition QueryScore :: "team_note \<Rightarrow> string \<Rightarrow> int" where
  "QueryScore n query =
     (let queryTerms = searchableTerms query in
      if queryTerms = [] then 0
      else let noteTerms = searchableTerms (noteText n) in
        int (length (filter (\<lambda>word. word \<in> set noteTerms) queryTerms)))"

definition containsDigit :: "string \<Rightarrow> bool" where
  "containsDigit value = list_ex ascii_digit value"

definition slotCompatible :: "string \<Rightarrow> string \<Rightarrow> bool" where
  "slotCompatible noteText0 query0 =
     (let text = to_lower noteText0; query = to_lower query0;
          whenAsked = containsAny query [''when'', '' date'', ''deadline'', '' timestamp'', '' time''];
          countAsked = containsAny query [''version'', '' count'', '' number'', '' value'', ''how many''];
          ownerAsked = containsAny query [''who'', '' owner'', '' owns'', ''designated'', ''responsible''];
          whenGiven = containsDigit text \<or> containsAny text
            [''january'', ''february'', ''march'', ''april'', ''may'', ''june'', ''july'', ''august'',
             ''september'', ''october'', ''november'', ''december'', ''today'', ''tomorrow'', ''eod'',
             ''before'', ''after'', '' by '', ''monday'', ''tuesday'', ''wednesday'', ''thursday'', ''friday''];
          ownerGiven = containsAny text
            ['' owns '', '' owner'', ''assigned'', ''responsible'', ''designated'', ''@'', ''user_'']
      in \<not> (whenAsked \<or> countAsked \<or> ownerAsked) \<or>
         whenAsked \<and> whenGiven \<or> countAsked \<and> containsDigit text \<or> ownerAsked \<and> ownerGiven)"

definition scalarSlotRequested :: "string \<Rightarrow> bool" where
  "scalarSlotRequested query =
     containsAny (to_lower query)
       [''when'', '' date'', ''deadline'', '' timestamp'', '' time'', ''version'', '' count'', '' number'',
        '' value'', ''how many'', ''who'', '' owner'', '' owns'', ''designated'', ''responsible'']"

definition QueryRelevant :: "team_note \<Rightarrow> string \<Rightarrow> bool" where
  "QueryRelevant n query =
     (if blank query then True
      else let queryTerms = searchableTerms query in
        if scalarSlotRequested query \<and> length queryTerms < 2 then False
        else if QueryScore n query < min 2 (int (length queryTerms)) then False
        else slotCompatible (noteText n) query)"

definition QuerySemanticallyRelevant :: "team_note \<Rightarrow> string \<Rightarrow> bool" where
  "QuerySemanticallyRelevant n query =
     (if blank query then True
      else if contains (to_lower query) ''exact'' then False
      else if scalarSlotRequested query \<and> length (searchableTerms query) < 2 then False
      else slotCompatible (noteText n) query)"

definition QueryRelated :: "team_note \<Rightarrow> string \<Rightarrow> bool" where
  "QueryRelated n query =
     (if blank query then True
      else if contains (to_lower query) ''exact'' then QueryRelevant n query
      else 0 < QueryScore n query \<and> slotCompatible (noteText n) query)"

definition relatedOrder :: "string \<Rightarrow> team_note \<Rightarrow> team_note \<Rightarrow> bool" where
  "relatedOrder query l r =
     (if nt_SourceOccurredAt l \<noteq> nt_SourceOccurredAt r then nt_SourceOccurredAt r < nt_SourceOccurredAt l
      else if QueryScore l query \<noteq> QueryScore r query then QueryScore r query < QueryScore l query
      else nt_ID l < nt_ID r)"

definition relevantRelatedNotes :: "team_note list \<Rightarrow> string \<Rightarrow> team_note list" where
  "relevantRelatedNotes ns query =
     (let result = filter (\<lambda>n. QueryRelated n query) ns in
      if queryRequestsCurrentState query then sort_by (relatedOrder query) result else result)"

definition relatedTo :: "team_note \<Rightarrow> team_note \<Rightarrow> bool" where
  "relatedTo n c \<longleftrightarrow> to_lower (nt_Subject c) \<in> set (map to_lower (nt_RelatedSubjects n)) \<or>
     list_ex (\<lambda>related. equal_fold related (nt_Subject n)) (nt_RelatedSubjects c)"

definition relatedNotes :: "team_note \<Rightarrow> team_note list \<Rightarrow> team_note list" where
  "relatedNotes n ns = filter (\<lambda>c. nt_ID c \<noteq> nt_ID n \<and> relatedTo n c) ns"

section \<open>Printing\<close>

definition CertaintyForKind :: "string \<Rightarrow> string" where
  "CertaintyForKind kind =
     (if kind = KindBlocker then ''unresolved''
      else if kind = KindHandoff \<or> kind = KindSourceSpan then ''proposed'' else ''confirmed'')"

definition FormatForRecallWithRelated :: "(time \<Rightarrow> string) \<Rightarrow> team_note \<Rightarrow> team_note list \<Rightarrow> string" where
  "FormatForRecallWithRelated rfc3339 n related =
     (let text0 = ''['' @ nt_Kind n @ '' certainty='' @ CertaintyForKind (nt_Kind n) @ ''] '' @ nt_Body n;
          text = (if related = [] then text0
            else text0 @ '' [related: '' @ join ''; '' (map (\<lambda>c. ''[certainty='' @ CertaintyForKind (nt_Kind c) @
              ''] '' @ nt_Subject c @ '': '' @ nt_Body c) related) @ '']'')
      in if nt_ValidAt n = None \<and> nt_InvalidAt n = None then text
         else text @ '' [valid: '' @ (case nt_ValidAt n of None \<Rightarrow> ''unknown'' | Some t \<Rightarrow> rfc3339 t) @ '' to '' @
           (case nt_InvalidAt n of None \<Rightarrow> ''present'' | Some t \<Rightarrow> rfc3339 t) @ '']'')"

definition FormatForRecall :: "(time \<Rightarrow> string) \<Rightarrow> team_note \<Rightarrow> string" where
  "FormatForRecall rfc3339 n = FormatForRecallWithRelated rfc3339 n []"

definition notePriority :: "string \<Rightarrow> int" where
  "notePriority kind =
     (if kind = KindHandoff then 0 else if kind = KindBlocker then 1 else if kind = KindStatus then 2
      else if kind = KindArtifactReference then 3 else 4)"

definition estimateTokens :: "string \<Rightarrow> int" where
  "estimateTokens text = max 1 ((int (length text) + 3) div 4)"

section \<open>Search terms read back\<close>

lemma fields_func_word:
  "w \<noteq> [] \<or> cur \<noteq> [] \<Longrightarrow> \<forall>c \<in> set w. \<not> sep c \<Longrightarrow> fields_func_from sep cur w = [rev cur @ w]"
  by (induction w arbitrary: cur) auto

lemma fields_func_word_sep:
  "\<forall>c \<in> set w. \<not> sep c \<Longrightarrow> sep d \<Longrightarrow> w \<noteq> [] \<or> cur \<noteq> [] \<Longrightarrow>
     fields_func_from sep cur (w @ d # s) = (rev cur @ w) # fields_func_from sep [] s"
  by (induction w arbitrary: cur) auto

lemma fields_func_join:
  assumes "\<forall>w \<in> set ws. w \<noteq> [] \<and> (\<forall>c \<in> set w. \<not> sep c)" and "sep d"
  shows "fields_func sep (join [d] ws) = ws"
  using assms(1)
proof (induction "[d]" ws rule: join.induct)
  case (2 x)
  then show ?case by (simp add: fields_func_def fields_func_word)
next
  case (3 x y xs)
  then show ?case using assms(2) by (simp add: fields_func_def fields_func_word_sep)
qed (simp add: fields_func_def)

lemma fields_func_words:
  "w \<in> set (fields_func_from sep cur s) \<Longrightarrow> \<forall>c \<in> set cur. \<not> sep c \<Longrightarrow>
     w \<noteq> [] \<and> (\<forall>c \<in> set w. \<not> sep c \<and> c \<in> set cur \<union> set s)"
  by (induction sep cur s rule: fields_func_from.induct) (auto split: if_splits)

lemma dedup_distinct: "distinct xs \<Longrightarrow> set xs \<inter> set seen = {} \<Longrightarrow> dedup_from seen xs = xs"
  by (induction xs arbitrary: seen) auto

lemma lower_letter: "ascii_letter c \<Longrightarrow> lower_char c = c"
  by (auto simp: ascii_letter_def lower_char_def less_eq_char_def)

lemma lower_space: "lower_char (CHR '' '') = CHR '' ''"
  by (simp add: lower_char_def less_eq_char_def)

lemma to_lower_letters: "\<forall>c \<in> set s. ascii_letter c \<or> c = CHR '' '' \<Longrightarrow> to_lower s = s"
  by (induction s) (auto simp: to_lower_def lower_letter lower_space)

lemma searchableTerms_words:
  "w \<in> set (searchableTerms q) \<Longrightarrow> w \<noteq> [] \<and> (\<forall>c \<in> set w. ascii_letter c) \<and> searchable w"
  unfolding searchableTerms_def fields_func_def by (auto dest: fields_func_words)

lemma distinct_searchableTerms [simp]: "distinct (searchableTerms q)"
  by (simp add: searchableTerms_def)

lemma set_join: "set (join sep ws) \<subseteq> set sep \<union> \<Union> (set ` set ws)"
  by (induction sep ws rule: join.induct) auto

lemma weak_order_less: "weak_order ((<) :: 'a::linorder \<Rightarrow> 'a \<Rightarrow> bool)"
  by (auto simp: weak_order_def)

lemma searchableTerms_SearchQuery: "searchableTerms (SearchQuery q) = sort_by (<) (searchableTerms q)"
proof -
  let ?ws = "sort_by (<) (searchableTerms q)"
  have words: "\<forall>w \<in> set ?ws. w \<noteq> [] \<and> (\<forall>c \<in> set w. \<not> \<not> ascii_letter c)"
    and search: "\<forall>w \<in> set ?ws. searchable w"
    using searchableTerms_words by auto
  have "to_lower (join '' '' ?ws) = join '' '' ?ws"
    by (rule to_lower_letters) (use words set_join [of "'' ''" ?ws] in fastforce)
  moreover have "fields_func (\<lambda>c. \<not> ascii_letter c) (join '' '' ?ws) = ?ws"
    by (rule fields_func_join) (use words in \<open>auto simp: ascii_letter_def less_eq_char_def\<close>)
  moreover have "filter searchable ?ws = ?ws" using search by (simp only: filter_id_conv)
  moreover have "dedup_from [] ?ws = ?ws" by (rule dedup_distinct) (simp_all add: distinct_sort_by)
  ultimately show ?thesis
    by (simp add: SearchQuery_def searchableTerms_def [of "join '' '' ?ws"])
qed

text \<open>The search query is a normal form: building it again from its own text changes nothing, its terms
  are exactly the searchable terms of the query, and queries with the same terms, in whatever order
  and case, give the same search query.\<close>

theorem SearchQuery_normal_form:
  "SearchQuery (SearchQuery q) = SearchQuery q \<and>
   set (searchableTerms (SearchQuery q)) = set (searchableTerms q) \<and>
   (set (searchableTerms p) = set (searchableTerms q)) = (SearchQuery p = SearchQuery q)"
proof -
  have perm: "sort_by (<) xs = sort_by (<) ys"
    if "distinct xs" "distinct ys" "set xs = set ys" for xs ys :: "string list"
    by (rule sort_by_perm [OF weak_order_less]) (use that in \<open>auto simp: set_eq_iff_mset_eq_distinct [symmetric]\<close>)
  have "SearchQuery (SearchQuery q) = SearchQuery q"
    unfolding SearchQuery_def [of "SearchQuery q"] searchableTerms_SearchQuery
    by (simp add: SearchQuery_def perm [of "sort_by (<) (searchableTerms q)" "searchableTerms q"] distinct_sort_by)
  moreover have "set (searchableTerms p) = set (searchableTerms q)" if "SearchQuery p = SearchQuery q"
    using searchableTerms_SearchQuery [of p] searchableTerms_SearchQuery [of q] that
    by (metis set_sort_by)
  moreover have "SearchQuery p = SearchQuery q" if "set (searchableTerms p) = set (searchableTerms q)"
    using perm [OF _ _ that] by (simp add: SearchQuery_def)
  ultimately show ?thesis by (auto simp: searchableTerms_SearchQuery)
qed

lemma QueryScore_bounds: "0 \<le> QueryScore n q \<and> QueryScore n q \<le> int (length (searchableTerms q))"
  by (simp add: QueryScore_def Let_def)

lemma relatedTo_sym: "relatedTo a b = relatedTo b a"
  by (force simp: relatedTo_def list_ex_iff equal_fold_def image_iff)

lemma estimateTokens_pos: "1 \<le> estimateTokens s"
  by (simp add: estimateTokens_def)

end
