(* ===== verification/Go_Float.thy ===== *)
theory Go_Float
  imports Go_Prelude "HOL-Library.Word"
begin

text \<open>
  \<open>float64\<close> as Go computes with it: a value is its IEEE 754 binary64 pattern, an operation computes the exact
  result and rounds it to nearest, ties to even.  The exact results are ratios of integers, so that every
  operation evaluates.  Products and sums are rounded one by one, as on amd64, where Go does not fuse them; every
  result that is not a number is the canonical \<open>NaN\<close>.
\<close>

unbundle bit_operations_syntax

type_synonym float64 = "64 word"

named_theorems float_nonneg \<open>operations that stay non-negative numbers\<close>

section \<open>Patterns\<close>

definition fl_inf :: int where "fl_inf = 0x7FF0000000000000"

definition fl_neg :: "float64 \<Rightarrow> bool" where
  "fl_neg w \<longleftrightarrow> 2 ^ 63 \<le> uint w"

definition fl_mag :: "float64 \<Rightarrow> int" where
  "fl_mag w = uint w mod 2 ^ 63"

definition fl_make :: "bool \<Rightarrow> int \<Rightarrow> float64" where
  "fl_make neg mag = word_of_int ((if neg then 2 ^ 63 else 0) + mag)"

definition fl_isNaN :: "float64 \<Rightarrow> bool" where
  "fl_isNaN w \<longleftrightarrow> fl_inf < fl_mag w"

definition fl_isInf :: "float64 \<Rightarrow> bool" where
  "fl_isInf w \<longleftrightarrow> fl_mag w = fl_inf"

definition fl_NaN :: float64 where "fl_NaN = 0x7FF8000000000001"

text \<open>A finite value is its significand times a power of two.\<close>

definition fl_sig :: "float64 \<Rightarrow> int" where
  "fl_sig w = (let e = fl_mag w div 2 ^ 52 in fl_mag w mod 2 ^ 52 + (if e = 0 then 0 else 2 ^ 52))"

definition fl_exp :: "float64 \<Rightarrow> int" where
  "fl_exp w = (let e = fl_mag w div 2 ^ 52 in (if e = 0 then 1 else e) - 1075)"

section \<open>Rounding\<close>

function bit_length :: "int \<Rightarrow> int" where
  "bit_length n = (if n \<le> 0 then 0 else 1 + bit_length (n div 2))"
  by pat_completeness auto
termination
  by (relation "measure nat") auto

declare bit_length.simps [simp del]

text \<open>The ratio \<open>p / q\<close> scaled by \<open>2 ^ - k\<close>, as a ratio again.\<close>

definition scaled :: "int \<Rightarrow> int \<Rightarrow> int \<Rightarrow> int \<times> int" where
  "scaled p q k = (if 0 \<le> k then (p, q * 2 ^ nat k) else (p * 2 ^ nat (- k), q))"

definition binary_exponent :: "int \<Rightarrow> int \<Rightarrow> int" where
  "binary_exponent p q =
     (let k = bit_length p - bit_length q; (n, d) = scaled p q k in if d \<le> n then k else k - 1)"

definition round_half_even :: "int \<Rightarrow> int \<Rightarrow> int" where
  "round_half_even n d =
     (let m = n div d; r = n mod d in if d < 2 * r \<or> 2 * r = d \<and> odd m then m + 1 else m)"

definition fl_round :: "bool \<Rightarrow> int \<Rightarrow> int \<Rightarrow> float64" where
  "fl_round neg p q =
     (if p = 0 then fl_make neg 0
      else
        let e = max (binary_exponent p q) (- 1022); (n, d) = scaled p q (e - 52)
        in fl_make neg (min fl_inf ((e + 1022) * 2 ^ 52 + round_half_even n d)))"

text \<open>The constant with decimal digits \<open>p\<close> over \<open>q\<close>, and \<open>float64(n)\<close> of an integer.\<close>

definition fl_const :: "int \<Rightarrow> int \<Rightarrow> float64" where
  "fl_const p q = fl_round False p q"

definition fl_int :: "int \<Rightarrow> float64" where
  "fl_int n = fl_round (n < 0) \<bar>n\<bar> 1"

section \<open>Arithmetic\<close>

definition fl_signed :: "float64 \<Rightarrow> int" where
  "fl_signed w = (if fl_neg w then - fl_sig w else fl_sig w)"

definition fl_add :: "float64 \<Rightarrow> float64 \<Rightarrow> float64" where
  "fl_add x y =
     (if fl_isNaN x \<or> fl_isNaN y \<or> fl_isInf x \<and> fl_isInf y \<and> fl_neg x \<noteq> fl_neg y then fl_NaN
      else if fl_isInf x then x
      else if fl_isInf y then y
      else if fl_mag x = 0 \<and> fl_mag y \<noteq> 0 then y
      else if fl_mag y = 0 \<and> fl_mag x \<noteq> 0 then x
      else
        let k = min (fl_exp x) (fl_exp y);
            s = fl_signed x * 2 ^ nat (fl_exp x - k) + fl_signed y * 2 ^ nat (fl_exp y - k);
            (d, n) = scaled 1 \<bar>s\<bar> k
        in fl_round (if s = 0 then fl_neg x \<and> fl_neg y else s < 0) n d)"

definition fl_mul :: "float64 \<Rightarrow> float64 \<Rightarrow> float64" where
  "fl_mul x y =
     (let neg = (fl_neg x \<noteq> fl_neg y) in
      if fl_isNaN x \<or> fl_isNaN y \<or> fl_isInf x \<and> fl_sig y = 0 \<or> fl_isInf y \<and> fl_sig x = 0 then fl_NaN
      else if fl_isInf x \<or> fl_isInf y then fl_make neg fl_inf
      else let (d, n) = scaled 1 (fl_sig x * fl_sig y) (fl_exp x + fl_exp y) in fl_round neg n d)"

definition fl_div :: "float64 \<Rightarrow> float64 \<Rightarrow> float64" where
  "fl_div x y =
     (let neg = (fl_neg x \<noteq> fl_neg y) in
      if fl_isNaN x \<or> fl_isNaN y \<or> fl_isInf x \<and> fl_isInf y \<or> fl_mag x = 0 \<and> fl_mag y = 0 then fl_NaN
      else if fl_isInf x \<or> fl_mag y = 0 then fl_make neg fl_inf
      else if fl_isInf y then fl_make neg 0
      else let (n, d) = scaled (fl_sig x) (fl_sig y) (fl_exp y - fl_exp x) in fl_round neg n d)"

section \<open>Comparison\<close>

text \<open>Magnitudes are ordered as their patterns; both zeros are equal.\<close>

definition fl_key :: "float64 \<Rightarrow> int" where
  "fl_key w = (if fl_neg w then - fl_mag w else fl_mag w)"

definition fl_less :: "float64 \<Rightarrow> float64 \<Rightarrow> bool" where
  "fl_less x y \<longleftrightarrow> \<not> fl_isNaN x \<and> \<not> fl_isNaN y \<and> fl_key x < fl_key y"

definition fl_le :: "float64 \<Rightarrow> float64 \<Rightarrow> bool" where
  "fl_le x y \<longleftrightarrow> \<not> fl_isNaN x \<and> \<not> fl_isNaN y \<and> fl_key x \<le> fl_key y"

definition fl_eq :: "float64 \<Rightarrow> float64 \<Rightarrow> bool" where
  "fl_eq x y \<longleftrightarrow> \<not> fl_isNaN x \<and> \<not> fl_isNaN y \<and> fl_key x = fl_key y"

text \<open>\<open>math.Min\<close>.\<close>

definition fl_min :: "float64 \<Rightarrow> float64 \<Rightarrow> float64" where
  "fl_min x y =
     (if fl_isInf x \<and> fl_neg x \<or> fl_isInf y \<and> fl_neg y then fl_make True fl_inf
      else if fl_isNaN x \<or> fl_isNaN y then fl_NaN
      else if fl_mag x = 0 \<and> fl_mag y = 0 then (if fl_neg x then x else y)
      else if fl_less x y then x else y)"

section \<open>Non-negative numbers\<close>

definition fl_nonneg :: "float64 \<Rightarrow> bool" where
  "fl_nonneg x \<longleftrightarrow> \<not> fl_neg x \<and> \<not> fl_isNaN x"

lemma fl_make_simps:
  assumes "0 \<le> mag" and "mag \<le> fl_inf"
  shows "fl_neg (fl_make neg mag) = neg" and "fl_mag (fl_make neg mag) = mag"
proof -
  have small: "mag < 2 ^ 63" using assms by (simp add: fl_inf_def)
  then have "uint (fl_make neg mag) = (if neg then 2 ^ 63 else 0) + mag"
    using assms(1) unfolding fl_make_def uint_word_of_int_eq by (intro take_bit_int_eq_self) auto
  then show "fl_neg (fl_make neg mag) = neg" "fl_mag (fl_make neg mag) = mag"
    using small assms(1) by (simp_all add: fl_neg_def fl_mag_def)
qed

lemma fl_sig_nonneg [simp]: "0 \<le> fl_sig w"
  by (simp add: fl_sig_def Let_def)

lemma fl_mag_nonneg [simp]: "0 \<le> fl_mag w"
  by (simp add: fl_mag_def)

lemma scaled_nonneg: "0 \<le> p \<Longrightarrow> 0 \<le> q \<Longrightarrow> 0 \<le> fst (scaled p q k) \<and> 0 \<le> snd (scaled p q k)"
  by (simp add: scaled_def)

lemma round_half_even_nonneg: "0 \<le> n \<Longrightarrow> 0 \<le> d \<Longrightarrow> 0 \<le> round_half_even n d"
  by (simp add: round_half_even_def Let_def pos_imp_zdiv_nonneg_iff div_int_pos_iff)

lemma fl_round_make:
  assumes "0 \<le> p" and "0 \<le> q"
  shows "\<exists>mag. 0 \<le> mag \<and> mag \<le> fl_inf \<and> fl_round neg p q = fl_make neg mag"
proof (cases "p = 0")
  case True
  then show ?thesis by (intro exI [of _ 0]) (simp add: fl_round_def fl_inf_def)
next
  case False
  define e where "e = max (binary_exponent p q) (- 1022)"
  define mag where
    "mag = min fl_inf ((e + 1022) * 2 ^ 52 + round_half_even (fst (scaled p q (e - 52))) (snd (scaled p q (e - 52))))"
  have "fl_round neg p q = fl_make neg mag"
    by (simp only: fl_round_def if_not_P [OF False] Let_def split_def e_def [symmetric] mag_def [symmetric])
  moreover have "0 \<le> round_half_even (fst (scaled p q (e - 52))) (snd (scaled p q (e - 52)))"
    using scaled_nonneg [OF assms] round_half_even_nonneg by blast
  then have "0 \<le> mag" by (simp add: mag_def fl_inf_def e_def)
  moreover have "mag \<le> fl_inf" by (simp add: mag_def)
  ultimately show ?thesis by blast
qed

lemma fl_round_nonneg [float_nonneg]: "0 \<le> p \<Longrightarrow> 0 \<le> q \<Longrightarrow> fl_nonneg (fl_round False p q)"
  using fl_round_make [of p q False] by (auto simp: fl_nonneg_def fl_isNaN_def fl_make_simps)

lemma fl_const_nonneg [float_nonneg]: "0 \<le> p \<Longrightarrow> 0 \<le> q \<Longrightarrow> fl_nonneg (fl_const p q)"
  by (simp add: fl_const_def fl_round_nonneg)

lemma fl_int_nonneg [float_nonneg]: "0 \<le> n \<Longrightarrow> fl_nonneg (fl_int n)"
  by (simp add: fl_int_def fl_round_nonneg)

lemma fl_inf_nonneg: "fl_nonneg (fl_make False fl_inf)"
  by (simp add: fl_nonneg_def fl_isNaN_def fl_make_simps fl_inf_def)

lemma fl_zero_nonneg: "fl_nonneg (fl_make False 0)"
  by (simp add: fl_nonneg_def fl_isNaN_def fl_make_simps fl_inf_def)

lemma fl_add_nonneg [float_nonneg]:
  assumes "fl_nonneg x" and "fl_nonneg y"
  shows "fl_nonneg (fl_add x y)"
proof (cases "fl_isInf x \<or> fl_isInf y")
  case True
  with assms show ?thesis by (auto simp: fl_add_def fl_nonneg_def)
next
  case False
  let ?k = "min (fl_exp x) (fl_exp y)"
  let ?s = "fl_signed x * 2 ^ nat (fl_exp x - ?k) + fl_signed y * 2 ^ nat (fl_exp y - ?k)"
  have "0 \<le> ?s" using assms by (simp add: fl_signed_def fl_nonneg_def)
  then show ?thesis
    using assms False
    by (auto simp: fl_add_def fl_nonneg_def [of x] fl_nonneg_def [of y] Let_def split_def fl_round_nonneg scaled_nonneg)
qed

lemma fl_mul_nonneg [float_nonneg]:
  assumes "fl_nonneg x" and "fl_nonneg y" and "\<not> fl_isInf x" and "\<not> fl_isInf y"
  shows "fl_nonneg (fl_mul x y)"
  using assms by (simp add: fl_mul_def fl_nonneg_def [of x] fl_nonneg_def [of y] Let_def split_def fl_round_nonneg scaled_nonneg)

lemma fl_div_nonneg [float_nonneg]:
  assumes "fl_nonneg x" and "fl_nonneg y" and "fl_mag y \<noteq> 0" and "\<not> fl_isInf y"
  shows "fl_nonneg (fl_div x y)"
  using assms
  by (simp add: fl_div_def fl_nonneg_def [of x] fl_nonneg_def [of y] Let_def split_def fl_round_nonneg scaled_nonneg fl_inf_nonneg)

lemma fl_min_nonneg [float_nonneg]: "fl_nonneg x \<Longrightarrow> fl_nonneg y \<Longrightarrow> fl_nonneg (fl_min x y)"
  by (simp add: fl_min_def fl_nonneg_def)

lemma fl_min_le:
  assumes "fl_nonneg x" and "fl_nonneg y"
  shows "fl_le (fl_min x y) y"
  using assms by (auto simp: fl_min_def fl_nonneg_def fl_le_def fl_less_def fl_key_def)

lemma fl_nonneg_le: "fl_nonneg x \<longleftrightarrow> \<not> fl_neg x \<and> fl_le (fl_make False 0) x"
  using fl_zero_nonneg by (auto simp: fl_nonneg_def fl_le_def fl_key_def fl_make_simps fl_inf_def)

lemma fl_less_irrefl [simp]: "\<not> fl_less x x"
  by (simp add: fl_less_def)

lemma fl_less_trans: "fl_less x y \<Longrightarrow> fl_less y z \<Longrightarrow> fl_less x z"
  by (auto simp: fl_less_def)

lemma fl_less_asym: "fl_less x y \<Longrightarrow> \<not> fl_less y x"
  by (auto simp: fl_less_def)

section \<open>Integers\<close>

lemma bit_length_bounds: "0 < n \<Longrightarrow> 0 < bit_length n \<and> 2 ^ nat (bit_length n - 1) \<le> n \<and> n < 2 ^ nat (bit_length n)"
proof (induction n rule: bit_length.induct)
  case (1 n)
  have step: "bit_length n = 1 + bit_length (n div 2)" using 1(2) by (simp add: bit_length.simps [of n])
  show ?case
  proof (cases "n div 2 = 0")
    case True
    then have "n = 1" using 1(2) by linarith
    then show ?thesis using step by (simp add: bit_length.simps [of 0])
  next
    case False
    then have half: "0 < n div 2" using 1(2) by linarith
    define b where "b = nat (bit_length (n div 2) - 1)"
    from 1(1) [OF _ half] 1(2) half have ih: "0 < bit_length (n div 2)" "2 ^ b \<le> n div 2" "n div 2 < 2 ^ Suc b"
      by (auto simp: b_def Suc_nat_eq_nat_zadd1)
    have "nat (bit_length n - 1) = Suc b" "nat (bit_length n) = Suc (Suc b)"
      using ih(1) by (simp_all add: step b_def)
    moreover have "2 ^ Suc b \<le> n" "n < 2 ^ Suc (Suc b)" using ih(2,3) by simp_all
    ultimately show ?thesis using ih(1) step by simp
  qed
qed

lemma bit_length_le: "0 < n \<Longrightarrow> n < 2 ^ b \<Longrightarrow> bit_length n \<le> int b"
proof -
  assume "0 < n" "n < 2 ^ b"
  then have "(2 :: int) ^ nat (bit_length n - 1) < 2 ^ b" using bit_length_bounds by (meson order_le_less_trans)
  then have "nat (bit_length n - 1) < b" by (simp add: power_strict_increasing_iff)
  then show ?thesis by linarith
qed

lemma round_half_even_le:
  assumes "0 < d" and "n < d * m"
  shows "round_half_even n d \<le> m"
proof -
  have "n div d < m"
  proof (rule ccontr)
    assume "\<not> n div d < m"
    then have "d * m \<le> d * (n div d)" using assms(1) by simp
    also have "\<dots> \<le> n" using assms(1) by (simp add: mult_div_mod_eq [symmetric] flip: minus_mod_eq_mult_div)
    finally show False using assms(2) by simp
  qed
  then show ?thesis by (simp add: round_half_even_def Let_def)
qed

text \<open>The positive integers of 64 bits are finite and positive as \<open>float64\<close>.\<close>

lemma fl_int_finite:
  assumes "0 < n" and "n < 2 ^ 63"
  shows "fl_mag (fl_int n) \<noteq> 0" and "\<not> fl_isInf (fl_int n)"
proof -
  define k where "k = bit_length n - 1"
  have bounds: "0 \<le> k" "2 ^ nat k \<le> n" "n < 2 ^ nat (k + 1)" "k \<le> 62"
    using bit_length_bounds [OF assms(1)] bit_length_le [OF assms] by (auto simp: k_def)
  have one: "bit_length 1 = 1" by (simp add: bit_length.simps)
  have e: "binary_exponent n 1 = k" using bounds by (simp add: binary_exponent_def one k_def [symmetric] scaled_def)
  obtain p q where pq: "scaled n 1 (k - 52) = (p, q)" by fastforce
  have pos: "0 < p" "0 < q" "p < q * 2 ^ 53"
  proof -
    show "0 < p" "0 < q" using pq assms(1) by (auto simp: scaled_def split: if_splits)
    show "p < q * 2 ^ 53"
    proof (cases "0 \<le> k - 52")
      case True
      then have "p = n" "q = 2 ^ nat (k - 52)" using pq by (auto simp: scaled_def)
      moreover have "(2 :: int) ^ nat (k - 52) * 2 ^ 53 = 2 ^ nat (k + 1)"
      proof -
        have "nat (k + 1) = nat (k - 52) + 53" using True by linarith
        then show ?thesis by (simp add: power_add)
      qed
      ultimately show ?thesis using bounds(3) by simp
    next
      case False
      then have "p = n * 2 ^ nat (52 - k)" "q = 1" using pq by (auto simp: scaled_def)
      moreover have "(2 :: int) ^ nat (k + 1) * 2 ^ nat (52 - k) = 2 ^ 53"
        using False bounds(1) by (simp flip: power_add nat_add_distrib)
      then have "n * 2 ^ nat (52 - k) < 2 ^ 53"
        using mult_strict_right_mono [OF bounds(3), of "2 ^ nat (52 - k)"] by simp
      ultimately show ?thesis by simp
    qed
  qed
  define mag where "mag = (k + 1022) * 2 ^ 52 + round_half_even p q"
  have r: "0 \<le> round_half_even p q" "round_half_even p q \<le> 2 ^ 53"
    using round_half_even_nonneg [of p q] round_half_even_le [OF pos(2,3)] pos by simp_all
  have mag: "0 < mag" "mag < fl_inf" using r bounds(1,4) by (simp_all add: mag_def fl_inf_def)
  have "max k (- 1022) = k" using bounds(1) by simp
  then have "fl_int n = fl_make False mag"
    using assms(1) mag pq by (simp add: fl_int_def fl_round_def e mag_def min_def)
  then show "fl_mag (fl_int n) \<noteq> 0" "\<not> fl_isInf (fl_int n)" using mag by (simp_all add: fl_isInf_def fl_make_simps)
qed
text \<open>Patterns known from the language's documentation: one tenth, four fifths, and the sum that is not \<open>0.3\<close>.\<close>

lemma fl_examples:
  "fl_const 1 10 = 0x3FB999999999999A" "fl_const 8 10 = 0x3FE999999999999A"
  "fl_add (fl_const 1 10) (fl_const 2 10) = 0x3FD3333333333334" "fl_const 3 10 = 0x3FD3333333333333"
  "fl_div (fl_int 1) (fl_int 3) = 0x3FD5555555555555" "fl_mul (fl_int 25) (fl_const 1 2) = 0x4029000000000000"
  by code_simp+

end
