(* ===== verification/Go_Time.thy ===== *)
theory Go_Time
  imports Go_Prelude
begin

text \<open>
  The calendar of package \<open>time\<close>, in UTC: printing and reading dates and RFC 3339 timestamps.  A time is its
  distance in nanoseconds from the zero time, 1 January of year 1, so that days and years count from there.
\<close>

section \<open>The proleptic Gregorian calendar\<close>

definition nsPerDay :: int where "nsPerDay = 86400 * 1000000000"

definition isLeap :: "int \<Rightarrow> bool" where
  "isLeap year \<longleftrightarrow> year mod 4 = 0 \<and> (year mod 100 \<noteq> 0 \<or> year mod 400 = 0)"

definition monthLengths :: "int \<Rightarrow> int list" where
  "monthLengths year = [31, if isLeap year then 29 else 28, 31, 30, 31, 30, 31, 31, 30, 31, 30, 31]"

definition daysIn :: "int \<Rightarrow> int \<Rightarrow> int" where
  "daysIn month year = monthLengths year ! nat (month - 1)"

definition daysBeforeYear :: "int \<Rightarrow> int" where
  "daysBeforeYear year = (let y = year - 1 in 365 * y + y div 4 - y div 100 + y div 400)"

definition daysBeforeMonth :: "int \<Rightarrow> int \<Rightarrow> int" where
  "daysBeforeMonth month year = sum_list (take (nat (month - 1)) (monthLengths year))"

definition dateDays :: "int \<Rightarrow> int \<Rightarrow> int \<Rightarrow> int" where
  "dateDays year month day = daysBeforeYear year + daysBeforeMonth month year + (day - 1)"

text \<open>The year of a day and the day of that year, counted from 0.\<close>

definition yearOfDay :: "int \<Rightarrow> int \<times> int" where
  "yearOfDay days =
     (let n400 = days div 146097; d = days mod 146097;
          n100 = min 3 (d div 36524); d = d - 36524 * n100;
          n4 = d div 1461; d = d mod 1461;
          n1 = min 3 (d div 365)
      in (400 * n400 + 100 * n100 + 4 * n4 + n1 + 1, d - 365 * n1))"

fun monthOfDay :: "int \<Rightarrow> int list \<Rightarrow> int \<Rightarrow> int \<times> int" where
  "monthOfDay month [] yday = (month, yday + 1)"
| "monthOfDay month (n # ns) yday =
     (if yday < n then (month, yday + 1) else monthOfDay (month + 1) ns (yday - n))"

definition dateOf :: "time \<Rightarrow> int \<times> int \<times> int" where
  "dateOf t =
     (let (year, yday) = yearOfDay (t div nsPerDay); (month, day) = monthOfDay 1 (monthLengths year) yday
      in (year, month, day))"

section \<open>Printing\<close>

text \<open>\<open>appendInt\<close>: decimal digits, padded with zeros to a width.\<close>

definition padded :: "nat \<Rightarrow> int \<Rightarrow> string" where
  "padded width n =
     (let s = show_nat (nat \<bar>n\<bar>) in
      (if n < 0 then ''-'' else []) @ replicate (width - length s) CHR ''0'' @ s)"

definition formatDate :: "time \<Rightarrow> string" where
  "formatDate t = (let (year, month, day) = dateOf t in padded 4 year @ ''-'' @ padded 2 month @ ''-'' @ padded 2 day)"

definition formatRFC3339 :: "time \<Rightarrow> string" where
  "formatRFC3339 t =
     (let seconds = t mod nsPerDay div 1000000000 in
      formatDate t @ ''T'' @ padded 2 (seconds div 3600) @ '':'' @ padded 2 (seconds div 60 mod 60) @ '':'' @
      padded 2 (seconds mod 60) @ ''Z'')"

section \<open>Reading\<close>

definition digitValue :: "char \<Rightarrow> int" where
  "digitValue c = int (of_char c) - 48"

definition number :: "string \<Rightarrow> int option" where
  "number s = (if s \<noteq> [] \<and> list_all ascii_digit s then Some (foldl (\<lambda>n c. 10 * n + digitValue c) 0 s) else None)"

definition dateTime :: "int \<Rightarrow> int \<Rightarrow> int \<Rightarrow> time option" where
  "dateTime year month day =
     (if 1 \<le> month \<and> month \<le> 12 \<and> 1 \<le> day \<and> day \<le> daysIn month year
      then Some (dateDays year month day * nsPerDay) else None)"

text \<open>\<open>time.Parse\<close> with the layout \<open>2006-01-02\<close>.\<close>

definition parseDate :: "string \<Rightarrow> time option" where
  "parseDate s =
     (if length s = 10 \<and> s ! 4 = CHR ''-'' \<and> s ! 7 = CHR ''-'' then
        (case (number (take 4 s), number (take 2 (drop 5 s)), number (drop 8 s)) of
           (Some year, Some month, Some day) \<Rightarrow> dateTime year month day
         | _ \<Rightarrow> None)
      else None)"

text \<open>The fraction of a second: at most nine digits count, as nanoseconds.\<close>

definition fraction :: "string \<Rightarrow> int option" where
  "fraction s =
     (if s = [] then Some 0
      else if hd s = CHR ''.'' then number (take 9 (tl s @ replicate 9 CHR ''0'')) else None)"

text \<open>\<open>time.Parse\<close> with the layout \<open>RFC3339Nano\<close>, for a timestamp in UTC.\<close>

definition parseRFC3339 :: "string \<Rightarrow> time option" where
  "parseRFC3339 s =
     (if 20 \<le> length s \<and> s ! 10 = CHR ''T'' \<and> s ! 13 = CHR '':'' \<and> s ! 16 = CHR '':'' \<and> last s = CHR ''Z'' then
        (case (parseDate (take 10 s), number (take 2 (drop 11 s)), number (take 2 (drop 14 s)),
               number (take 2 (drop 17 s)), fraction (butlast (drop 19 s))) of
           (Some date, Some hour, Some minute, Some sec, Some ns) \<Rightarrow>
             if hour < 24 \<and> minute < 60 \<and> sec < 60
             then Some (date + ((hour * 60 + minute) * 60 + sec) * 1000000000 + ns) else None
         | _ \<Rightarrow> None)
      else None)"

lemma calendar_examples:
  "formatRFC3339 0 = ''0001-01-01T00:00:00Z''" "formatDate (dateDays 2024 2 29 * nsPerDay) = ''2024-02-29''"
  "parseDate ''2024-02-29'' = Some (dateDays 2024 2 29 * nsPerDay)" "parseDate ''2023-02-29'' = None"
  "parseRFC3339 ''2026-07-26T10:00:00.5Z'' = Some (dateDays 2026 7 26 * nsPerDay + 36000500000000)"
  "parseRFC3339 ''2026-07-26'' = None"
  by code_simp+

section \<open>Dates are read back\<close>

lemma yearOfDay_inverse:
  assumes "yearOfDay days = (year, yday)"
  shows "daysBeforeYear year + yday = days" and "0 \<le> yday" and "yday < 365 + (if isLeap year then 1 else 0)"
proof -
  define a where "a = days div 146097"
  define d where "d = days mod 146097"
  define b where "b = min 3 (d div 36524)"
  define d2 where "d2 = d - 36524 * b"
  define c where "c = d2 div 1461"
  define d3 where "d3 = d2 mod 1461"
  define e where "e = min 3 (d3 div 365)"
  have year: "year = 400 * a + 100 * b + 4 * c + e + 1" and yday: "yday = d3 - 365 * e"
    using assms by (simp_all add: yearOfDay_def Let_def a_def d_def b_def d2_def c_def d3_def e_def)
  have d: "0 \<le> d" "d < 146097" "days = 146097 * a + d" by (simp_all add: d_def a_def)
  have b: "0 \<le> b" "b \<le> 3" "0 \<le> d2" "d2 < 36525" "d2 = 36524 \<longrightarrow> b = 3"
    using d(1,2) by (auto simp: b_def d2_def min_def)
  have c: "0 \<le> c" "c \<le> 24" "0 \<le> d3" "d3 < 1461" "d2 = 1461 * c + d3" using b(3,4) by (auto simp: c_def d3_def)
  have e: "0 \<le> e" "e \<le> 3" "0 \<le> yday" "yday \<le> 365" "yday = 365 \<longrightarrow> e = 3" "d3 = 365 * e + yday"
    using c(3,4) by (auto simp: e_def yday min_def)
  have div4: "(year - 1) div 4 = 100 * a + 25 * b + c" using e(1,2) by (simp add: year)
  have div100: "(year - 1) div 100 = 4 * a + b" using e(1,2) c(1,2) by (simp add: year)
  have div400: "(year - 1) div 400 = a" using e(1,2) c(1,2) b(1,2) by (simp add: year)
  show "daysBeforeYear year + yday = days"
    unfolding daysBeforeYear_def Let_def div4 div100 div400 using d(3) c(5) e(6) d2_def year by simp
  show "0 \<le> yday" by (rule e(3))
  have "isLeap year" if "yday = 365"
  proof -
    have e3: "e = 3" using e(5) that by simp
    have "year = 4 * (100 * a + 25 * b + c + 1)" by (simp add: year e3)
    then have four: "year mod 4 = 0" by simp
    show ?thesis
    proof (cases "c = 24")
      case True
      with e3 b(4,5) c(5) e(6) that have "b = 3" by auto
      with True e3 have "year = 400 * (a + 1)" by (simp add: year)
      with four show ?thesis by (simp add: isLeap_def)
    next
      case False
      have "year = (4 * c + 4) + (4 * a + b) * 100" by (simp add: year e3)
      then have "year mod 100 = (4 * c + 4) mod 100" by (simp only: mod_mult_self1)
      also have "\<dots> = 4 * c + 4" using False c(1,2) by simp
      finally show ?thesis using four c(1) by (simp add: isLeap_def)
    qed
  qed
  then show "yday < 365 + (if isLeap year then 1 else 0)" using e(4) by (cases "yday = 365") auto
qed

lemma monthOfDay_inverse:
  assumes "monthOfDay month ns yday = (m, d)" and "0 \<le> yday" and "yday < sum_list ns"
  shows "month \<le> m \<and> nat (m - month) < length ns \<and> 1 \<le> d \<and> d \<le> ns ! nat (m - month) \<and>
    sum_list (take (nat (m - month)) ns) + (d - 1) = yday"
  using assms
proof (induction month ns yday rule: monthOfDay.induct)
  case (2 month n ns yday)
  show ?case
  proof (cases "yday < n")
    case False
    with 2 have "month + 1 \<le> m \<and> nat (m - (month + 1)) < length ns \<and> 1 \<le> d \<and> d \<le> ns ! nat (m - (month + 1)) \<and>
      sum_list (take (nat (m - (month + 1))) ns) + (d - 1) = yday - n" by simp
    moreover from this have "nat (m - month) = Suc (nat (m - (month + 1)))" by linarith
    ultimately show ?thesis by simp
  qed (use "2.prems" in auto)
qed simp

lemma sum_monthLengths: "sum_list (monthLengths year) = 365 + (if isLeap year then 1 else 0)"
  by (simp add: monthLengths_def)

lemma dateOf_inverse:
  assumes "dateOf t = (year, month, day)"
  shows "dateTime year month day = Some (t div nsPerDay * nsPerDay)" and "1 \<le> month" "month \<le> 12" "1 \<le> day" "day \<le> 31"
proof -
  obtain yday where y: "yearOfDay (t div nsPerDay) = (year, yday)" and m: "monthOfDay 1 (monthLengths year) yday = (month, day)"
    using assms by (auto simp: dateOf_def Let_def split: prod.splits)
  note inv = monthOfDay_inverse [OF m yearOfDay_inverse(2) [OF y] yearOfDay_inverse(3) [OF y, folded sum_monthLengths]]
  have len: "length (monthLengths year) = 12" by (simp add: monthLengths_def)
  then show "1 \<le> month" "month \<le> 12" "1 \<le> day" using inv by auto
  have "monthLengths year ! nat (month - 1) \<le> 31" using inv len
    by (cases "nat (month - 1)" rule: nat.exhaust) (auto simp: monthLengths_def less_Suc_eq numeral_eq_Suc)
  then show "day \<le> 31" using inv by linarith
  show "dateTime year month day = Some (t div nsPerDay * nsPerDay)"
    using inv yearOfDay_inverse(1) [OF y] len
    by (auto simp: dateTime_def daysIn_def dateDays_def daysBeforeMonth_def)
qed

lemma digit_char_value: "d < 10 \<Longrightarrow> ascii_digit (digit_char d) \<and> digitValue (digit_char d) = int d"
proof -
  have "list_all (\<lambda>d. ascii_digit (digit_char d) \<and> digitValue (digit_char d) = int d) [0..<10]" by code_simp
  then show "d < 10 \<Longrightarrow> ascii_digit (digit_char d) \<and> digitValue (digit_char d) = int d" by (simp add: list_all_iff)
qed

lemma number_app:
  "number (s @ [c]) = (if ascii_digit c then (case s of [] \<Rightarrow> Some (digitValue c) | _ \<Rightarrow>
     map_option (\<lambda>n. 10 * n + digitValue c) (number s)) else None)"
  by (auto simp: number_def split: list.splits)

lemma number_show_nat: "number (show_nat n) = Some (int n)"
proof (induction n rule: show_nat.induct)
  case (1 n)
  show ?case
  proof (cases "n < 10")
    case True
    then show ?thesis by (subst show_nat.simps) (simp add: number_def digit_char_value)
  next
    case False
    have "10 * int (n div 10) + int (n mod 10) = int n" by presburger
    then show ?thesis using 1 False
      by (subst show_nat.simps) (auto simp: number_app digit_char_value split: list.splits)
  qed
qed

lemma number_zeros: "number s = Some n \<Longrightarrow> number (replicate k CHR ''0'' @ s) = Some n"
  by (induction k) (auto simp: number_def digitValue_def ascii_digit_def less_eq_char_def split: if_splits)

lemma number_padded: "0 \<le> n \<Longrightarrow> number (padded width n) = Some n"
  by (simp add: padded_def Let_def number_zeros number_show_nat)

lemma length_show_nat: "n < 10 ^ k \<Longrightarrow> 0 < k \<Longrightarrow> length (show_nat n) \<le> k"
proof (induction k arbitrary: n)
  case (Suc k)
  show ?case
  proof (cases "n < 10")
    case False
    then have "0 < k" using Suc.prems by (cases k) auto
    moreover have "n div 10 < 10 ^ k" using Suc.prems by (simp add: less_mult_imp_div_less mult.commute)
    ultimately show ?thesis using Suc.IH False by (subst show_nat.simps) simp
  qed (subst show_nat.simps, simp)
qed simp

lemma length_padded: "0 \<le> n \<Longrightarrow> n < 10 ^ width \<Longrightarrow> 0 < width \<Longrightarrow> length (padded width n) = width"
  using length_show_nat [of "nat n" width] by (simp add: padded_def Let_def nat_less_iff)

lemma parse_formatDate:
  assumes "dateOf t = (year, month, day)" and "0 \<le> year" and "year < 10000"
  shows "parseDate (formatDate t) = Some (t div nsPerDay * nsPerDay)"
proof -
  note d = dateOf_inverse [OF assms(1)]
  have len: "length (padded 4 year) = 4" "length (padded 2 month) = 2" "length (padded 2 day) = 2"
    using assms d by (auto intro!: length_padded)
  have num: "number (padded 4 year) = Some year" "number (padded 2 month) = Some month" "number (padded 2 day) = Some day"
    using assms d by (auto intro!: number_padded)
  show ?thesis
    using len by (simp add: parseDate_def formatDate_def assms(1) num d(1) nth_append)
qed

end
