(* ===== verification/Note_Envelope.thy ===== *)
theory Note_Envelope
  imports Note_Types Go_Float
begin

text \<open>
  What a recall returns to its caller (\<open>NoteEnvelope\<close> and its parts in \<open>internal/teamnote/contracts.go\<close>).
\<close>

definition RecallReasonNoEvidence :: string where "RecallReasonNoEvidence = ''no_evidence''"
definition RecallReasonFactCoverage :: string where "RecallReasonFactCoverage = ''fact_coverage''"
definition RecallReasonConfidence :: string where "RecallReasonConfidence = ''evidence_confidence''"
definition RecallReasonBudgetDrop :: string where "RecallReasonBudgetDrop = ''answer_bearing_budget_drop''"
definition RecallReasonHardGate :: string where "RecallReasonHardGate = ''hard_gate''"

record recall_decision =
  dc_EvidenceSufficient :: bool
  dc_ReasonCodes :: "string list"

record recalled_note =
  rn_NoteID :: string
  rn_SourceNoteIDs :: "string list"
  rn_Revision :: int
  rn_Text :: string
  rn_Origin :: actor
  rn_Relevance :: float64
  rn_Certainty :: string

record note_envelope =
  en_Revision :: string
  en_Items :: "string list"
  en_Tokens :: int
  en_Details :: "recalled_note list"
  en_Decision :: recall_decision
  en_ObservationID :: int

definition zeroEnvelope :: note_envelope where
  "zeroEnvelope = \<lparr>en_Revision = [], en_Items = [], en_Tokens = 0, en_Details = [],
     en_Decision = \<lparr>dc_EvidenceSufficient = False, dc_ReasonCodes = []\<rparr>, en_ObservationID = 0\<rparr>"

end
