(* ===== verification/Go_Sort.thy ===== *)
theory Go_Sort
  imports Go_Prelude
begin

text \<open>
  \<open>sort.SliceStable\<close> as the standard library computes it: insertion sort on blocks of twenty, then the
  in-place merge of neighbouring blocks by rotations (\<open>symMerge\<close>).  For a strict weak order the result is the
  stable sort, which \<open>sort_by\<close> computes; the algorithm itself is needed where the code passes a comparison that
  is no order.  Whatever the comparison, the result is a rearrangement of the slice.
\<close>

section \<open>Insertion sort\<close>

fun insert_back :: "('a \<Rightarrow> 'a \<Rightarrow> bool) \<Rightarrow> nat \<Rightarrow> nat \<Rightarrow> 'a list \<Rightarrow> 'a list" where
  "insert_back lt a 0 xs = xs"
| "insert_back lt a (Suc j) xs =
     (if a \<le> j \<and> lt (xs ! Suc j) (xs ! j)
      then insert_back lt a j (xs[Suc j := xs ! j, j := xs ! Suc j]) else xs)"

definition insertion_sort :: "('a \<Rightarrow> 'a \<Rightarrow> bool) \<Rightarrow> nat \<Rightarrow> nat \<Rightarrow> 'a list \<Rightarrow> 'a list" where
  "insertion_sort lt a b xs = fold (insert_back lt a) [Suc a..<b] xs"

section \<open>Merging by rotation\<close>

text \<open>Exchange of the neighbouring blocks \<open>[a, m)\<close> and \<open>[m, b)\<close>.\<close>

definition rotate_blocks :: "nat \<Rightarrow> nat \<Rightarrow> nat \<Rightarrow> 'a list \<Rightarrow> 'a list" where
  "rotate_blocks a m b xs = take a xs @ take (b - m) (drop m xs) @ take (m - a) (drop a xs) @ drop b xs"

text \<open>The binary search of \<open>symMerge\<close>: \<open>go_right c\<close> says to continue right of \<open>c\<close>.\<close>

function bisect :: "(nat \<Rightarrow> bool) \<Rightarrow> nat \<Rightarrow> nat \<Rightarrow> nat" where
  "bisect go_right i j =
     (if i < j then let h = (i + j) div 2 in if go_right h then bisect go_right (Suc h) j else bisect go_right i h
      else i)"
  by pat_completeness auto
termination
  by (relation "measure (\<lambda>(p, i, j). j - i)") auto

declare bisect.simps [simp del]

function sym_merge :: "('a \<Rightarrow> 'a \<Rightarrow> bool) \<Rightarrow> nat \<Rightarrow> nat \<Rightarrow> nat \<Rightarrow> 'a list \<Rightarrow> 'a list" where
  "sym_merge lt a m b xs =
     (if m - a = 1 then rotate_blocks a m (bisect (\<lambda>h. lt (xs ! h) (xs ! a)) m b) xs
      else if b - m = 1 then rotate_blocks (bisect (\<lambda>h. \<not> lt (xs ! m) (xs ! h)) a m) m b xs
      else
        let mid = (a + b) div 2; n = mid + m;
            start = (if mid < m
              then bisect (\<lambda>c. \<not> lt (xs ! (n - 1 - c)) (xs ! c)) (n - b) mid
              else bisect (\<lambda>c. \<not> lt (xs ! (n - 1 - c)) (xs ! c)) a m);
            stop = n - start;
            ys = (if start < m \<and> m < stop then rotate_blocks start m stop xs else xs);
            zs = (if a < start \<and> start < mid then sym_merge lt a start mid ys else ys)
        in if mid < stop \<and> stop < b then sym_merge lt mid stop b zs else zs)"
  by pat_completeness auto
termination
proof (relation "measure (\<lambda>(lt, a, m, b, xs). b - a)", goal_cases)
  case (2 lt a m b xs mid n start stop ys)
  have "a < (a + b) div 2" using 2(3,8) by (elim conjE) (simp only:)
  then have "(a + b) div 2 - a < b - a" by linarith
  then show ?case by (simp only: in_measure case_prod_conv 2(3))
next
  case (3 lt a m b xs mid n start stop ys zs)
  have "(a + b) div 2 < stop" "stop < b" using 3(3,9) by (elim conjE, simp only:)+
  then have "b - (a + b) div 2 < b - a" by linarith
  then show ?case by (simp only: in_measure case_prod_conv 3(3))
qed simp

declare sym_merge.simps [simp del]

section \<open>Lengths\<close>

lemma length_insert_back [simp]: "length (insert_back lt a j xs) = length xs"
  by (induction lt a j xs rule: insert_back.induct) auto

lemma length_insertion_sort [simp]: "length (insertion_sort lt a b xs) = length xs"
proof -
  have "length (fold (insert_back lt a) is xs) = length xs" for "is"
    by (induction "is" arbitrary: xs) auto
  then show ?thesis by (simp add: insertion_sort_def)
qed

lemma bisect_bounds: "i \<le> j \<Longrightarrow> i \<le> bisect p i j \<and> bisect p i j \<le> j"
proof (induction p i j rule: bisect.induct)
  case (1 p i j)
  show ?case
  proof (cases "i < j")
    case True
    then have h: "Suc ((i + j) div 2) \<le> j" "i \<le> (i + j) div 2" "(i + j) div 2 < j" by auto
    show ?thesis
      by (subst bisect.simps, subst (3) bisect.simps)
        (use True h "1.IH" [OF True refl] in \<open>auto simp: Let_def\<close>)
  next
    case False
    with "1.prems" show ?thesis by (simp add: bisect.simps)
  qed
qed

lemma length_rotate_blocks: "a \<le> m \<Longrightarrow> m \<le> b \<Longrightarrow> b \<le> length xs \<Longrightarrow> length (rotate_blocks a m b xs) = length xs"
  by (simp add: rotate_blocks_def)

section \<open>The stable sort\<close>

function insertion_blocks :: "('a \<Rightarrow> 'a \<Rightarrow> bool) \<Rightarrow> nat \<Rightarrow> 'a list \<Rightarrow> 'a list" where
  "insertion_blocks lt a xs =
     (if a + 20 \<le> length xs then insertion_blocks lt (a + 20) (insertion_sort lt a (a + 20) xs)
      else insertion_sort lt a (length xs) xs)"
  by pat_completeness auto
termination
  by (relation "measure (\<lambda>(lt, a, xs). length xs - a)") auto

declare insertion_blocks.simps [simp del]

text \<open>One pass over the blocks of size \<open>bs\<close> (positive) of a slice of length \<open>n\<close>, and the passes with doubled sizes.\<close>

function merge_pass :: "('a \<Rightarrow> 'a \<Rightarrow> bool) \<Rightarrow> nat \<Rightarrow> nat \<Rightarrow> nat \<Rightarrow> 'a list \<Rightarrow> 'a list" where
  "merge_pass lt bs n a xs =
     (if 0 < bs \<and> a + 2 * bs \<le> n then merge_pass lt bs n (a + 2 * bs) (sym_merge lt a (a + bs) (a + 2 * bs) xs)
      else if a + bs < n then sym_merge lt a (a + bs) n xs else xs)"
  by pat_completeness auto
termination
  by (relation "measure (\<lambda>(lt, bs, n, a, xs). n - a)") auto

declare merge_pass.simps [simp del]

function merge_passes :: "('a \<Rightarrow> 'a \<Rightarrow> bool) \<Rightarrow> nat \<Rightarrow> nat \<Rightarrow> 'a list \<Rightarrow> 'a list" where
  "merge_passes lt bs n xs =
     (if 0 < bs \<and> bs < n then merge_passes lt (2 * bs) n (merge_pass lt bs n 0 xs) else xs)"
  by pat_completeness auto
termination
  by (relation "measure (\<lambda>(lt, bs, n, xs). n - bs)") auto

declare merge_passes.simps [simp del]

definition stable_sort :: "('a \<Rightarrow> 'a \<Rightarrow> bool) \<Rightarrow> 'a list \<Rightarrow> 'a list" where
  "stable_sort lt xs = merge_passes lt 20 (length xs) (insertion_blocks lt 0 xs)"

section \<open>The result is a rearrangement\<close>

lemma mset_insert_back: "j < length xs \<Longrightarrow> mset (insert_back lt a j xs) = mset xs"
  by (induction lt a j xs rule: insert_back.induct) (auto simp: mset_swap)

lemma mset_insertion_sort: "b \<le> length xs \<Longrightarrow> mset (insertion_sort lt a b xs) = mset xs"
proof -
  have "\<forall>i \<in> set is. i < length xs \<Longrightarrow> mset (fold (insert_back lt a) is xs) = mset xs" for "is"
    by (induction "is" arbitrary: xs) (auto simp: mset_insert_back)
  moreover assume "b \<le> length xs"
  ultimately show ?thesis by (simp add: insertion_sort_def)
qed

lemma mset_insertion_blocks: "a \<le> length xs \<Longrightarrow> mset (insertion_blocks lt a xs) = mset xs"
proof (induction lt a xs rule: insertion_blocks.induct)
  case (1 lt a xs)
  then show ?case by (subst insertion_blocks.simps) (auto simp: mset_insertion_sort)
qed

lemma mset_rotate_blocks:
  assumes "a \<le> m" and "m \<le> b" and "b \<le> length xs"
  shows "mset (rotate_blocks a m b xs) = mset xs"
proof -
  have "xs = take a xs @ take (m - a) (drop a xs) @ take (b - m) (drop m xs) @ drop b xs"
    using assms by (metis append_take_drop_id drop_drop le_add_diff_inverse2)
  then have "mset xs = mset (take a xs) + mset (take (m - a) (drop a xs)) + mset (take (b - m) (drop m xs)) + mset (drop b xs)"
    by (metis mset_append union_assoc)
  then show ?thesis by (simp add: rotate_blocks_def ac_simps)
qed

lemma mset_sym_merge:
  "a < m \<Longrightarrow> m < b \<Longrightarrow> b \<le> length xs \<Longrightarrow> mset (sym_merge lt a m b xs) = mset xs"
proof (induction lt a m b xs rule: sym_merge.induct)
  case (1 lt a m b xs)
  consider (first) "m - a = 1" | (last) "m - a \<noteq> 1" "b - m = 1" | (both) "m - a \<noteq> 1" "b - m \<noteq> 1" by blast
  then show ?case
  proof cases
    case first
    then show ?thesis using 1(3-5) bisect_bounds [of m b "\<lambda>h. lt (xs ! h) (xs ! a)"]
      by (subst sym_merge.simps) (simp add: mset_rotate_blocks)
  next
    case last
    then show ?thesis using 1(3-5) bisect_bounds [of a m "\<lambda>h. \<not> lt (xs ! m) (xs ! h)"]
      by (subst sym_merge.simps) (simp add: mset_rotate_blocks)
  next
    case both
    define mid where "mid = (a + b) div 2"
    define n where "n = mid + m"
    define start where "start = (if mid < m
      then bisect (\<lambda>c. \<not> lt (xs ! (n - 1 - c)) (xs ! c)) (n - b) mid
      else bisect (\<lambda>c. \<not> lt (xs ! (n - 1 - c)) (xs ! c)) a m)"
    define stop where "stop = n - start"
    define ys where "ys = (if start < m \<and> m < stop then rotate_blocks start m stop xs else xs)"
    define zs where "zs = (if a < start \<and> start < mid then sym_merge lt a start mid ys else ys)"
    have mid: "a < mid" "mid < b" using both 1(3,4) by (auto simp: mid_def)
    have start: "a \<le> start" "start \<le> mid \<or> \<not> mid < m" "start \<le> m" "stop \<le> b"
    proof -
      have "n - b \<le> mid" using 1(4) by (simp add: n_def)
      then have "if mid < m then n - b \<le> start \<and> start \<le> mid else a \<le> start \<and> start \<le> m"
        using bisect_bounds [of "n - b" mid] bisect_bounds [of a m] 1(3) by (simp add: start_def)
      moreover have "mid < m \<Longrightarrow> a \<le> n - b" using mid by (auto simp: n_def mid_def)
      moreover have "\<not> mid < m \<Longrightarrow> n - a \<le> b" using mid by (auto simp: n_def mid_def)
      ultimately show "a \<le> start" "start \<le> mid \<or> \<not> mid < m" "start \<le> m" "stop \<le> b"
        by (auto simp: stop_def split: if_splits)
    qed
    have ys: "mset ys = mset xs" using start 1(5) by (auto simp: ys_def mset_rotate_blocks)
    then have len: "length ys = length xs" by (rule mset_eq_length)
    have zs: "mset zs = mset xs"
      using 1(1) [OF both mid_def n_def start_def stop_def ys_def] mid len ys 1(5) by (auto simp: zs_def)
    then have "length zs = length xs" by (rule mset_eq_length)
    then have "mset (if mid < stop \<and> stop < b then sym_merge lt mid stop b zs else zs) = mset xs"
      using 1(2) [OF both mid_def n_def start_def stop_def ys_def zs_def] zs 1(5) by auto
    then show ?thesis
      by (subst sym_merge.simps)
        (simp only: if_not_P [OF both(1)] if_not_P [OF both(2)] Let_def
          mid_def [symmetric] n_def [symmetric] start_def [symmetric] stop_def [symmetric] ys_def [symmetric] zs_def [symmetric])
  qed
qed

lemma mset_merge_pass: "n \<le> length xs \<Longrightarrow> 0 < bs \<Longrightarrow> mset (merge_pass lt bs n a xs) = mset xs"
proof (induction lt bs n a xs rule: merge_pass.induct)
  case (1 lt bs n a xs)
  show ?case
  proof (cases "a + 2 * bs \<le> n")
    case True
    then have "mset (sym_merge lt a (a + bs) (a + 2 * bs) xs) = mset xs"
      using 1(2,3) by (intro mset_sym_merge) auto
    moreover from this have "n \<le> length (sym_merge lt a (a + bs) (a + 2 * bs) xs)"
      using 1(2) by (metis mset_eq_length)
    ultimately show ?thesis using 1(1,3) True by (subst merge_pass.simps) simp
  next
    case False
    then show ?thesis using 1(2,3) by (subst merge_pass.simps) (auto simp: mset_sym_merge)
  qed
qed

lemma mset_merge_passes: "n = length xs \<Longrightarrow> mset (merge_passes lt bs n xs) = mset xs"
proof (induction lt bs n xs rule: merge_passes.induct)
  case (1 lt bs n xs)
  show ?case
  proof (cases "0 < bs \<and> bs < n")
    case True
    then have "mset (merge_pass lt bs n 0 xs) = mset xs" using 1(2) by (intro mset_merge_pass) auto
    moreover from this have "n = length (merge_pass lt bs n 0 xs)" using 1(2) by (metis mset_eq_length)
    ultimately show ?thesis using 1(1) True by (subst merge_passes.simps) simp
  qed (subst merge_passes.simps, auto)
qed

lemma mset_stable_sort [simp]: "mset (stable_sort lt xs) = mset xs"
proof -
  have "mset (insertion_blocks lt 0 xs) = mset xs" by (simp add: mset_insertion_blocks)
  moreover from this have "length xs = length (insertion_blocks lt 0 xs)" by (metis mset_eq_length)
  ultimately show ?thesis by (simp add: stable_sort_def mset_merge_passes)
qed

lemma set_stable_sort [simp]: "set (stable_sort lt xs) = set xs"
  by (rule mset_eq_setD) simp

lemma length_stable_sort [simp]: "length (stable_sort lt xs) = length xs"
  by (rule mset_eq_length) simp

lemma distinct_map_stable_sort [simp]: "distinct (map f (stable_sort lt xs)) = distinct (map f xs)"
  by (metis mset_eq_imp_distinct_iff mset_map mset_stable_sort)

end
