(* ===== verification/Recall_Planner.thy ===== *)
theory Recall_Planner
  imports Recall_Intent Note_Envelope Go_Crypto Go_Sort
begin

text \<open>
  The recall planner (\<open>PlanRecall\<close> in \<open>internal/teamnote/recall.go\<close> with \<open>recall_selection.go\<close>,
  \<open>hint_recall.go\<close>, \<open>recall_decision.go\<close>, \<open>recall_candidate_strategy.go\<close> and the bookkeeping of
  \<open>recall_v3.go\<close>): candidates are gated and ranked, reduced to the final state of each family and to distinct
  facts, ordered by the requested facts they cover, and packed into the token and item budget together with their
  related notes; a hint is planned when no evidence was.  The trace is a value that every function returns updated;
  sets of identifiers that the code keeps in Go maps are lists without repetition.
\<close>

section \<open>Data\<close>

record recall_policy =
  po_SemanticThreshold :: float64
  po_EvidenceThreshold :: float64
  po_HintSemanticThreshold :: float64
  po_HintThreshold :: float64
  po_HintMinQueryRelevance :: float64
  po_HintMinMarginalUtility :: float64
  po_CandidateLimit :: int
  po_ObservationTime :: time
  po_EnableHintRecall :: bool
  po_SuppressDuplicates :: bool
  po_DegradeRelated :: bool
  po_DisableRelationMarginalUtility :: bool

definition zeroPolicy :: recall_policy where
  "zeroPolicy = \<lparr>po_SemanticThreshold = 0, po_EvidenceThreshold = 0, po_HintSemanticThreshold = 0, po_HintThreshold = 0,
     po_HintMinQueryRelevance = 0, po_HintMinMarginalUtility = 0, po_CandidateLimit = 0, po_ObservationTime = 0,
     po_EnableHintRecall = False, po_SuppressDuplicates = False, po_DegradeRelated = False,
     po_DisableRelationMarginalUtility = False\<rparr>"

definition DefaultRecallPolicy :: recall_policy where
  "DefaultRecallPolicy = zeroPolicy
     \<lparr>po_SemanticThreshold := fl_const 50 100, po_HintSemanticThreshold := fl_const 50 100, po_CandidateLimit := 16,
      po_SuppressDuplicates := True, po_DegradeRelated := True\<rparr>"

definition duplicateBodySimilarity :: float64 where "duplicateBodySimilarity = fl_const 8 10"
definition minimumRelationUtilityPerToken :: float64 where "minimumRelationUtilityPerToken = fl_const 2 100"
definition defaultHintThreshold :: float64 where "defaultHintThreshold = fl_const 65 100"
definition maximumHintSubjectTerms :: nat where "maximumHintSubjectTerms = 8"
definition HintRecallV1PlanVersion :: string where "HintRecallV1PlanVersion = ''general-recall-v3-hint-recall-v1''"
definition HintRecallV1ScoringVersion :: string where
  "HintRecallV1ScoringVersion = ''hint-utility-v1-selective-eval-only''"

record planned_recall =
  pn_Note :: team_note
  pn_CanonicalNoteID :: string
  pn_SourceNoteIDs :: "string list"
  pn_Text :: string
  pn_Tokens :: int
  pn_Relevance :: float64
  pn_Disposition :: string
  pn_ClaimNoteDelivery :: bool
  pn_HintFingerprint :: string

record recall_rejection =
  rr_NoteID :: string
  rr_Reason :: string
  rr_Tokens :: int

record relation_rejection =
  re_PrimaryNoteID :: string
  re_RelatedNoteID :: string
  re_Reason :: string
  re_Tokens :: int

record plan_trace =
  rt_PlanVersion :: string
  rt_ScoringVersion :: string
  rt_EvidenceThreshold :: float64
  rt_Intent :: recall_intent
  rt_LanesExecuted :: "string list"
  rt_CandidateTraces :: "candidate_trace list"
  rt_PreBudgetSelectedSet :: "string list"
  rt_RelationReachableSet :: "string list"
  rt_RelationEligibleSet :: "string list"
  rt_SelectedSet :: "string list"
  rt_BudgetDrops :: "recall_rejection list"
  rt_DeliveredItems :: "string list"
  rt_Candidates :: int
  rt_FusionKept :: int
  rt_PlannedNotes :: int
  rt_PlannedTokens :: int
  rt_Rejections :: "recall_rejection list"
  rt_RelationRejections :: "relation_rejection list"

definition rejection :: "string \<Rightarrow> string \<Rightarrow> int \<Rightarrow> recall_rejection" where
  "rejection noteID reason tokens = \<lparr>rr_NoteID = noteID, rr_Reason = reason, rr_Tokens = tokens\<rparr>"

section \<open>The trace\<close>

text \<open>The loops that change the first candidate trace of a note.\<close>

fun updateTrace :: "string \<Rightarrow> (candidate_trace \<Rightarrow> candidate_trace) \<Rightarrow> candidate_trace list \<Rightarrow> candidate_trace list" where
  "updateTrace noteID f [] = []"
| "updateTrace noteID f (t # ts) = (if cd_NoteID t = noteID then f t # ts else t # updateTrace noteID f ts)"

definition recallIDSelected :: "string list \<Rightarrow> string \<Rightarrow> bool" where
  "recallIDSelected values noteID = (noteID \<in> set values)"

definition appendRecallID :: "string list \<Rightarrow> string \<Rightarrow> string list" where
  "appendRecallID values noteID = (if recallIDSelected values noteID then values else values @ [noteID])"

definition removeRecallID :: "string list \<Rightarrow> string \<Rightarrow> string list" where
  "removeRecallID values noteID = filter (\<lambda>v. v \<noteq> noteID) values"

definition recordRecallRejection :: "plan_trace \<Rightarrow> recall_rejection \<Rightarrow> plan_trace" where
  "recordRecallRejection trace r =
     trace\<lparr>rt_Rejections := rt_Rejections trace @ [r],
       rt_CandidateTraces := updateTrace (rr_NoteID r)
         (\<lambda>t. t\<lparr>cd_Disposition := RecallDispositionSuppress, cd_RejectionReason := rr_Reason r\<rparr>) (rt_CandidateTraces trace)\<rparr>"

definition recordPreBudgetSelection :: "plan_trace \<Rightarrow> string \<Rightarrow> plan_trace" where
  "recordPreBudgetSelection trace noteID =
     trace\<lparr>rt_PreBudgetSelectedSet := appendRecallID (rt_PreBudgetSelectedSet trace) noteID\<rparr>"

definition addRecallLane :: "plan_trace \<Rightarrow> string \<Rightarrow> string \<Rightarrow> string \<Rightarrow> plan_trace" where
  "addRecallLane trace noteID lane reason =
     (if noteID \<in> set (map cd_NoteID (rt_CandidateTraces trace))
      then trace\<lparr>rt_CandidateTraces := updateTrace noteID
             (\<lambda>t. t\<lparr>cd_RetrievalLanes := uniqueRecallLanes (cd_RetrievalLanes t @ [lane]),
                cd_RetrievalReasons := cd_RetrievalReasons t @ (if reason \<noteq> [] then [reason] else [])\<rparr>)
             (rt_CandidateTraces trace),
           rt_LanesExecuted := uniqueRecallLanes (rt_LanesExecuted trace @ [lane])\<rparr>
      else trace)"

definition recallMatchedTermCount :: "candidate_trace list \<Rightarrow> string \<Rightarrow> int" where
  "recallMatchedTermCount traces noteID =
     (case find (\<lambda>t. cd_NoteID t = noteID) traces of None \<Rightarrow> 0 | Some t \<Rightarrow> cd_MatchedTermCount t)"

definition collectRecallLanes :: "candidate_trace list \<Rightarrow> string list" where
  "collectRecallLanes traces = uniqueRecallLanes (concat (map cd_RetrievalLanes traces))"

record lane_set =
  ls_exact :: "string list"
  ls_lexical :: "string list"
  ls_semantic :: "string list"

definition applyBoundedRecallLanes :: "plan_trace \<Rightarrow> lane_set \<Rightarrow> plan_trace" where
  "applyBoundedRecallLanes trace lanes =
     (let trace = fold (\<lambda>i t. addRecallLane t i RecallLaneExactScope ''bounded_exact_scope_candidate'') (ls_exact lanes) trace;
          trace = fold (\<lambda>i t. addRecallLane t i RecallLaneLexical (''bounded_lexical_candidate:matched_terms='' @
            show_int (recallMatchedTermCount (rt_CandidateTraces t) i))) (ls_lexical lanes) trace
      in fold (\<lambda>i t. addRecallLane t i RecallLaneSemanticFallback ''bounded_semantic_candidate_generation'')
           (ls_semantic lanes) trace)"

text \<open>The bodies of the loops over the candidates, with the candidate as the last argument.\<close>

definition tracedFor :: "recall_request \<Rightarrow> recall_intent \<Rightarrow> time \<Rightarrow> recall_candidate \<Rightarrow> candidate_trace" where
  "tracedFor request intent observationTime c = evaluateRecallCandidate c request intent observationTime"

definition initializeRecallTrace ::
  "recall_candidate list \<Rightarrow> recall_candidate list \<Rightarrow> recall_request \<Rightarrow> recall_intent \<Rightarrow> time \<Rightarrow> float64 \<Rightarrow> lane_set \<Rightarrow>
     recall_rejection list \<Rightarrow> plan_trace" where
  "initializeRecallTrace candidates ranked request intent observationTime threshold lanes rejections =
     (let trace = \<lparr>rt_PlanVersion = GeneralRecallV3PlanVersion, rt_ScoringVersion = GeneralRecallV3ScoringVersion,
            rt_EvidenceThreshold = threshold, rt_Intent = intent, rt_LanesExecuted = [],
            rt_CandidateTraces = map (tracedFor request intent observationTime) candidates,
            rt_PreBudgetSelectedSet = [], rt_RelationReachableSet = [], rt_RelationEligibleSet = [], rt_SelectedSet = [],
            rt_BudgetDrops = [], rt_DeliveredItems = [], rt_Candidates = int (length candidates),
            rt_FusionKept = int (length ranked), rt_PlannedNotes = 0, rt_PlannedTokens = 0, rt_Rejections = [],
            rt_RelationRejections = []\<rparr>;
          trace = applyBoundedRecallLanes trace lanes;
          trace = fold (\<lambda>r t. recordRecallRejection t r) rejections trace
      in trace\<lparr>rt_LanesExecuted := collectRecallLanes (rt_CandidateTraces trace)\<rparr>)"

definition markRecallCandidateEvidence :: "plan_trace \<Rightarrow> string \<Rightarrow> plan_trace" where
  "markRecallCandidateEvidence trace noteID =
     trace\<lparr>rt_CandidateTraces := updateTrace noteID
       (\<lambda>t. t\<lparr>cd_Disposition := RecallDispositionEvidence, cd_RejectionReason := []\<rparr>) (rt_CandidateTraces trace)\<rparr>"

definition selectNote :: "plan_trace \<Rightarrow> string \<Rightarrow> plan_trace" where
  "selectNote trace noteID =
     (let t = markRecallCandidateEvidence trace noteID in t\<lparr>rt_SelectedSet := appendRecallID (rt_SelectedSet t) noteID\<rparr>)"

definition markRecallEvidence :: "plan_trace \<Rightarrow> team_note \<Rightarrow> team_note list \<Rightarrow> plan_trace" where
  "markRecallEvidence trace primary related =
     (let trace = selectNote (trace\<lparr>rt_DeliveredItems := rt_DeliveredItems trace @ [nt_ID primary]\<rparr>) (nt_ID primary)
      in fold (\<lambda>n t. selectNote t (nt_ID n)) related trace)"

definition recordRecallReachable :: "plan_trace \<Rightarrow> team_note list \<Rightarrow> plan_trace" where
  "recordRecallReachable trace related =
     trace\<lparr>rt_RelationReachableSet := fold (\<lambda>n ids. appendRecallID ids (nt_ID n)) related (rt_RelationReachableSet trace)\<rparr>"

definition recordRecallRelation :: "team_note \<Rightarrow> team_note \<Rightarrow> plan_trace \<Rightarrow> plan_trace" where
  "recordRecallRelation primary n trace =
     (let trace = trace\<lparr>rt_RelationEligibleSet := appendRecallID (rt_RelationEligibleSet trace) (nt_ID n)\<rparr>;
          trace = addRecallLane trace (nt_ID n) RecallLaneRelation ''one_hop_related_subject''
      in trace\<lparr>rt_CandidateTraces := updateTrace (nt_ID n)
           (\<lambda>t. t\<lparr>cd_RelationPath := [nt_ID primary, ''related_subject'', nt_ID n]\<rparr>) (rt_CandidateTraces trace)\<rparr>)"

definition recordRecallRelations :: "plan_trace \<Rightarrow> team_note \<Rightarrow> team_note list \<Rightarrow> plan_trace" where
  "recordRecallRelations trace primary related = fold (recordRecallRelation primary) related trace"

definition recallRejectedFor :: "recall_rejection list \<Rightarrow> string \<Rightarrow> string \<Rightarrow> bool" where
  "recallRejectedFor rejections noteID reason = list_ex (\<lambda>r. rr_NoteID r = noteID \<and> rr_Reason r = reason) rejections"

definition recordRelationRelevanceDrops :: "plan_trace \<Rightarrow> plan_trace" where
  "recordRelationRelevanceDrops trace =
     fold (\<lambda>noteID t.
         if noteID \<in> set (rt_RelationEligibleSet trace) then t
         else if recallRejectedFor (rt_Rejections t) noteID RejectRelationMarginalUtility then t
         else recordRecallRejection t (rejection noteID RejectRelationRelevanceGate 0))
       (rt_RelationReachableSet trace) trace"

definition recordRelationMarginalUtilityDrops :: "plan_trace \<Rightarrow> string \<Rightarrow> recall_rejection list \<Rightarrow> plan_trace" where
  "recordRelationMarginalUtilityDrops trace primaryNoteID drops =
     trace\<lparr>rt_RelationRejections := rt_RelationRejections trace @
       map (\<lambda>d. \<lparr>re_PrimaryNoteID = primaryNoteID, re_RelatedNoteID = rr_NoteID d, re_Reason = rr_Reason d,
         re_Tokens = rr_Tokens d\<rparr>) drops\<rparr>"

fun marginalDrops :: "string list \<Rightarrow> string list \<Rightarrow> relation_rejection list \<Rightarrow> plan_trace \<Rightarrow> plan_trace" where
  "marginalDrops eligible recorded [] trace = trace"
| "marginalDrops eligible recorded (r # rs) trace =
     (if re_RelatedNoteID r \<in> set eligible \<or> re_RelatedNoteID r \<in> set recorded then marginalDrops eligible recorded rs trace
      else marginalDrops eligible (re_RelatedNoteID r # recorded) rs
        (recordRecallRejection trace (rejection (re_RelatedNoteID r) (re_Reason r) (re_Tokens r))))"

definition recordMarginalUtilityCandidateDrops :: "plan_trace \<Rightarrow> plan_trace" where
  "recordMarginalUtilityCandidateDrops trace =
     marginalDrops (rt_RelationEligibleSet trace) [] (rt_RelationRejections trace) trace"

definition isRecallBudgetDrop :: "string \<Rightarrow> bool" where
  "isRecallBudgetDrop reason =
     (reason \<in> set [RejectMaxItems, RejectTokenBudget, RejectDuplicate, RejectUncoveredRelationCost])"

definition finalizeRecallTrace :: "plan_trace \<Rightarrow> plan_trace" where
  "finalizeRecallTrace trace =
     (let kept = filter (\<lambda>r. \<not> recallIDSelected (rt_SelectedSet trace) (rr_NoteID r)) (rt_Rejections trace) in
      trace\<lparr>rt_BudgetDrops := rt_BudgetDrops trace @ filter (\<lambda>r. isRecallBudgetDrop (rr_Reason r)) kept,
        rt_Rejections := kept, rt_LanesExecuted := collectRecallLanes (rt_CandidateTraces trace)\<rparr>)"

definition RecordRecallDeliveryClaimLoss :: "plan_trace \<Rightarrow> string \<Rightarrow> int \<Rightarrow> plan_trace" where
  "RecordRecallDeliveryClaimLoss trace noteID tokens =
     (let t = recordRecallRejection trace (rejection noteID RejectDeliveryClaim tokens)
      in t\<lparr>rt_DeliveredItems := removeRecallID (rt_DeliveredItems t) noteID\<rparr>)"

section \<open>Ranking\<close>

definition queryIntentScore :: "team_note \<Rightarrow> string \<Rightarrow> float64" where
  "queryIntentScore n query =
     (if scalarSlotRequested query then
        (let subjectTerms = searchableTerms (nt_Subject n) in
         if subjectTerms = [] \<or> \<not> slotCompatible (noteText n) query then 0
         else fl_div (fl_int (int (length (filter (\<lambda>word. word \<in> set (searchableTerms query)) subjectTerms))))
                (fl_int (int (length subjectTerms))))
      else if queryRequestsCurrentState query then QueryRelevance n query
      else 0)"

definition evaluateRecallRanking ::
  "recall_candidate \<Rightarrow> recall_request \<Rightarrow> recall_intent \<Rightarrow> time \<Rightarrow> recall_candidate" where
  "evaluateRecallRanking c request intent observationTime =
     (let n = ca_Note c in
      c\<lparr>ca_temporalFit := (if fst (temporalGate n intent observationTime) then 1 else ca_temporalFit c),
        ca_hardGateFailure := recallHardGateFailure n intent observationTime,
        ca_intentScore := queryIntentScore n (rq_Query request),
        ca_factCoverage := requiredFactCoverage n intent,
        ca_coordination := coordinationMatch n intent (rq_Query request),
        ca_exactMatch := (if exactScopeMatch n request then 1 else ca_exactMatch c),
        ca_lexicalFit := QueryRelevance n (rq_Query request),
        ca_routingFit := recallRoutingAffinity n request intent,
        ca_evidenceConfidence := cd_EvidenceConfidence (evaluateRecallCandidate c request intent observationTime)\<rparr>)"

definition evidenceThreshold :: "recall_policy \<Rightarrow> float64" where
  "evidenceThreshold policy =
     (if fl_le (po_EvidenceThreshold policy) 0 then fl_const 4 10 else po_EvidenceThreshold policy)"

definition semanticEvidenceSupported :: "recall_candidate \<Rightarrow> float64 \<Rightarrow> bool" where
  "semanticEvidenceSupported c threshold =
     (if fl_less (ca_evidenceConfidence c) threshold then False
      else 0 < ca_coordination c \<or> 0 < ca_routingFit c \<or> fl_less 0 (ca_intentScore c))"

definition recallEffectiveTime :: "team_note \<Rightarrow> time" where
  "recallEffectiveTime n = (case nt_ValidAt n of Some t \<Rightarrow> t | None \<Rightarrow> nt_SourceOccurredAt n)"

definition effectiveTimeBefore :: "team_note \<Rightarrow> team_note \<Rightarrow> string \<Rightarrow> bool \<times> bool" where
  "effectiveTimeBefore l r query =
     (if \<not> queryRequestsCurrentState query then (False, False)
      else if recallEffectiveTime l = recallEffectiveTime r then (False, False)
      else (recallEffectiveTime r < recallEffectiveTime l, True))"

definition evidenceBefore :: "recall_candidate \<Rightarrow> recall_candidate \<Rightarrow> bool" where
  "evidenceBefore l r =
     (if \<not> fl_eq (ca_evidenceConfidence l) (ca_evidenceConfidence r)
      then fl_less (ca_evidenceConfidence r) (ca_evidenceConfidence l)
      else nt_SourceOccurredAt (ca_Note r) < nt_SourceOccurredAt (ca_Note l))"

definition ownSourceRank :: "team_note \<Rightarrow> recall_request \<Rightarrow> int" where
  "ownSourceRank n request =
     (if QueryRequestsOwnContext (rq_Query request) \<and> UserID (nt_Origin n) = UserID (rq_Actor request) then 0 else 1)"

definition recallKindPriority :: "string \<Rightarrow> string \<Rightarrow> int" where
  "recallKindPriority kind query =
     (if \<not> scalarSlotRequested query \<and> \<not> queryRequestsCurrentState query then notePriority kind
      else if kind = KindStatus then 0
      else if kind = KindArtifactReference then 1
      else if kind = KindBlocker then 2
      else if kind = KindHandoff then 3
      else 4)"

definition recallTieBreakBefore :: "recall_candidate \<Rightarrow> recall_candidate \<Rightarrow> recall_request \<Rightarrow> bool" where
  "recallTieBreakBefore l r request =
     (let ln = ca_Note l; rn = ca_Note r in
      if ca_exactMatch l \<noteq> ca_exactMatch r then ca_exactMatch r < ca_exactMatch l
      else if \<not> fl_eq (ca_lexicalFit l) (ca_lexicalFit r) then fl_less (ca_lexicalFit r) (ca_lexicalFit l)
      else if ca_explicitLane l \<noteq> ca_explicitLane r then ca_explicitLane r < ca_explicitLane l
      else if ca_routingFit l \<noteq> ca_routingFit r then ca_routingFit r < ca_routingFit l
      else if ownSourceRank ln request \<noteq> ownSourceRank rn request then ownSourceRank ln request < ownSourceRank rn request
      else if recallKindPriority (nt_Kind ln) (rq_Query request) \<noteq> recallKindPriority (nt_Kind rn) (rq_Query request)
      then recallKindPriority (nt_Kind ln) (rq_Query request) < recallKindPriority (nt_Kind rn) (rq_Query request)
      else if nt_SourceOccurredAt ln \<noteq> nt_SourceOccurredAt rn then nt_SourceOccurredAt rn < nt_SourceOccurredAt ln
      else if nt_UpdatedAt ln \<noteq> nt_UpdatedAt rn then nt_UpdatedAt rn < nt_UpdatedAt ln
      else nt_ID ln < nt_ID rn)"

definition recallBefore :: "recall_request \<Rightarrow> recall_candidate \<Rightarrow> recall_candidate \<Rightarrow> bool" where
  "recallBefore request l r =
     (if ca_temporalFit l \<noteq> ca_temporalFit r then ca_temporalFit r < ca_temporalFit l
      else if \<not> fl_eq (ca_intentScore l) (ca_intentScore r) then fl_less (ca_intentScore r) (ca_intentScore l)
      else if ca_factCoverage l \<noteq> ca_factCoverage r then ca_factCoverage r < ca_factCoverage l
      else if ca_coordination l \<noteq> ca_coordination r then ca_coordination r < ca_coordination l
      else
        let (before, decided) = effectiveTimeBefore (ca_Note l) (ca_Note r) (rq_Query request) in
        if decided then before
        else if evidenceBefore l r then True
        else recallTieBreakBefore l r request)"

definition sortRecallCandidates :: "recall_candidate list \<Rightarrow> recall_request \<Rightarrow> recall_candidate list" where
  "sortRecallCandidates candidates request = stable_sort (recallBefore request) candidates"

definition rankedFor :: "recall_request \<Rightarrow> recall_intent \<Rightarrow> time \<Rightarrow> recall_candidate \<Rightarrow> recall_candidate" where
  "rankedFor request intent observationTime c = evaluateRecallRanking c request intent observationTime"

definition evaluatedRecallCandidates ::
  "recall_candidate list \<Rightarrow> recall_request \<Rightarrow> recall_intent \<Rightarrow> time \<Rightarrow> recall_candidate list \<times> recall_rejection list" where
  "evaluatedRecallCandidates candidates request intent observationTime =
     (let evaluated = map (rankedFor request intent observationTime) candidates in
      (map (\<lambda>c. c\<lparr>ca_explicitLane := 1\<rparr>) (filter (\<lambda>c. ca_hardGateFailure c = []) evaluated),
       map (\<lambda>c. rejection (ca_ID c) (ca_hardGateFailure c) 0) (filter (\<lambda>c. ca_hardGateFailure c \<noteq> []) evaluated)))"

fun exactLane :: "recall_request \<Rightarrow> int \<Rightarrow> string list \<Rightarrow> recall_candidate list \<Rightarrow> string list" where
  "exactLane request limit ids [] = ids"
| "exactLane request limit ids (c # cs) =
     (if limit \<le> int (length ids) then ids
      else exactLane request limit (if exactScopeMatch (ca_Note c) request then appendRecallID ids (ca_ID c) else ids) cs)"

definition lexicalBefore :: "recall_candidate \<Rightarrow> recall_candidate \<Rightarrow> bool" where
  "lexicalBefore l r = fl_less (ca_LexicalScore r) (ca_LexicalScore l)"

definition semanticBefore :: "recall_candidate \<Rightarrow> recall_candidate \<Rightarrow> bool" where
  "semanticBefore l r =
     (case ca_SemanticScore l of
        None \<Rightarrow> False
      | Some x \<Rightarrow> (case ca_SemanticScore r of None \<Rightarrow> True | Some y \<Rightarrow> fl_less y x))"

definition recallLaneMembership ::
  "recall_candidate list \<Rightarrow> recall_request \<Rightarrow> recall_policy \<Rightarrow> int \<Rightarrow> lane_set" where
  "recallLaneMembership candidates request policy limit =
     (let lexical = stable_sort lexicalBefore candidates; semantic = stable_sort semanticBefore candidates in
      \<lparr>ls_exact = exactLane request limit [] lexical,
       ls_lexical = dedup_from [] (map ca_ID (takeWhile (\<lambda>c. \<not> fl_le (ca_LexicalScore c) 0) (take (nat limit) lexical))),
       ls_semantic = dedup_from [] (map ca_ID (takeWhile (\<lambda>c. case ca_SemanticScore c of
           None \<Rightarrow> False | Some x \<Rightarrow> \<not> fl_less x (po_SemanticThreshold policy)) (take (nat limit) semantic)))\<rparr>)"

definition admitRecallCandidate ::
  "recall_candidate \<Rightarrow> recall_request \<Rightarrow> recall_intent \<Rightarrow> time \<Rightarrow> float64 \<Rightarrow> lane_set \<Rightarrow> recall_rejection + recall_candidate" where
  "admitRecallCandidate c0 request intent observationTime threshold lanes =
     (let c = evaluateRecallRanking c0 request intent observationTime;
          exactRetrieved = (ca_ID c \<in> set (ls_exact lanes));
          lexicalRetrieved = (ca_ID c \<in> set (ls_lexical lanes));
          semanticRetrieved = (ca_ID c \<in> set (ls_semantic lanes))
      in if ca_hardGateFailure c \<noteq> [] then Inl (rejection (ca_ID c) (ca_hardGateFailure c) 0)
         else if QueryRelevant (ca_Note c) (rq_Query request) \<and> (lexicalRetrieved \<or> exactRetrieved)
         then Inr (c\<lparr>ca_explicitLane := 1\<rparr>)
         else if semanticRetrieved \<and> QuerySemanticallyRelevant (ca_Note c) (rq_Query request)
         then (if semanticEvidenceSupported c threshold then Inr c else Inl (rejection (ca_ID c) RejectEvidenceGate 0))
         else if \<not> exactRetrieved \<and> \<not> lexicalRetrieved \<and> \<not> semanticRetrieved
         then Inl (rejection (ca_ID c) RejectFusionLimit 0)
         else Inl (rejection (ca_ID c) RejectRelevanceGate 0))"

definition admittedFor ::
  "recall_request \<Rightarrow> recall_intent \<Rightarrow> time \<Rightarrow> float64 \<Rightarrow> lane_set \<Rightarrow> recall_candidate \<Rightarrow> recall_rejection + recall_candidate" where
  "admittedFor request intent observationTime threshold lanes c =
     admitRecallCandidate c request intent observationTime threshold lanes"

fun admitAll ::
  "(recall_candidate \<Rightarrow> recall_rejection + recall_candidate) \<Rightarrow> recall_candidate list \<Rightarrow>
     recall_candidate list \<times> recall_rejection list" where
  "admitAll admit [] = ([], [])"
| "admitAll admit (c # cs) =
     (let (result, rejections) = admitAll admit cs in
      case admit c of Inr admitted \<Rightarrow> (admitted # result, rejections) | Inl r \<Rightarrow> (result, r # rejections))"

definition rankRecallCandidates ::
  "recall_candidate list \<Rightarrow> recall_request \<Rightarrow> recall_policy \<Rightarrow> recall_intent \<Rightarrow> time \<Rightarrow>
     recall_candidate list \<times> recall_rejection list \<times> lane_set" where
  "rankRecallCandidates candidates request policy intent observationTime =
     (if blank (rq_Query request) then
        (let (result, rejections) = evaluatedRecallCandidates candidates request intent observationTime in
         (sortRecallCandidates result request, rejections, \<lparr>ls_exact = [], ls_lexical = [], ls_semantic = []\<rparr>))
      else
        let limit = (if po_CandidateLimit policy \<le> 0 \<or> int (length candidates) < po_CandidateLimit policy
              then int (length candidates) else po_CandidateLimit policy);
            lanes = recallLaneMembership candidates request policy limit;
            (result, rejections) = admitAll
              (admittedFor request intent observationTime (evidenceThreshold policy) lanes) candidates
        in (sortRecallCandidates result request, rejections, lanes))"

section \<open>Selection\<close>

definition recallCandidateFamily :: "recall_candidate \<Rightarrow> string" where
  "recallCandidateFamily c =
     (if ca_CanonicalNoteID c \<noteq> [] then ''note:'' @ ca_CanonicalNoteID c
      else if nt_Key (ca_Note c) \<noteq> [] then ''key:'' @ nt_Key (ca_Note c) else [])"

definition finalStateRecordedAt :: "recall_candidate \<Rightarrow> time" where
  "finalStateRecordedAt c =
     (if nt_CreatedAt (ca_Note c) \<noteq> 0 then nt_CreatedAt (ca_Note c) else nt_SourceOccurredAt (ca_Note c))"

definition finalStateAfter :: "recall_candidate \<Rightarrow> recall_candidate \<Rightarrow> bool" where
  "finalStateAfter l r =
     (let ln = ca_Note l; rn = ca_Note r in
      if nt_Revision ln \<noteq> nt_Revision rn then nt_Revision rn < nt_Revision ln
      else if recallEffectiveTime ln \<noteq> recallEffectiveTime rn then recallEffectiveTime rn < recallEffectiveTime ln
      else if nt_UpdatedAt ln \<noteq> nt_UpdatedAt rn then nt_UpdatedAt rn < nt_UpdatedAt ln
      else finalStateRecordedAt r < finalStateRecordedAt l)"

definition familyWinners :: "recall_candidate list \<Rightarrow> (string, recall_candidate) gomap" where
  "familyWinners candidates =
     fold (\<lambda>c winners.
         let family = recallCandidateFamily c in
         if family = [] then winners
         else case mget winners family of
                None \<Rightarrow> mput family c winners
              | Some winner \<Rightarrow> if finalStateAfter c winner then mput family c winners else winners)
       candidates []"

definition isFinalState :: "(string, recall_candidate) gomap \<Rightarrow> recall_candidate \<Rightarrow> bool" where
  "isFinalState winners c =
     (recallCandidateFamily c = [] \<or>
      (case mget winners (recallCandidateFamily c) of None \<Rightarrow> ca_ID c = [] | Some w \<Rightarrow> ca_ID w = ca_ID c))"

definition selectFinalStateFamilies ::
  "recall_candidate list \<Rightarrow> recall_intent \<Rightarrow> recall_candidate list \<times> recall_rejection list" where
  "selectFinalStateFamilies candidates intent =
     (if ri_Mode intent \<noteq> RecallModeCurrent then (candidates, [])
      else
        let winners = familyWinners candidates in
        (filter (isFinalState winners) candidates,
         map (\<lambda>c. rejection (ca_ID c) RejectSupersededState 0) (filter (\<lambda>c. \<not> isFinalState winners c) candidates)))"

definition bodyOverlap :: "string \<Rightarrow> string \<Rightarrow> float64" where
  "bodyOverlap l r =
     (let leftTerms = searchableTerms l; rightTerms = searchableTerms r in
      if leftTerms = [] \<or> rightTerms = [] then 0
      else
        let shared = int (length (filter (\<lambda>word. word \<in> set rightTerms) leftTerms)) in
        fl_div (fl_int shared) (fl_int (int (length leftTerms) + int (length rightTerms) - shared)))"

fun distinctFacts :: "recall_candidate list \<Rightarrow> recall_candidate list \<Rightarrow> recall_candidate list \<times> recall_rejection list" where
  "distinctFacts kept [] = (kept, [])"
| "distinctFacts kept (c # cs) =
     (if list_ex (\<lambda>prior. fl_le duplicateBodySimilarity (bodyOverlap (nt_Body (ca_Note c)) (nt_Body (ca_Note prior)))) kept
      then let (kept', rejections) = distinctFacts kept cs in (kept', rejection (ca_ID c) RejectDuplicate 0 # rejections)
      else distinctFacts (kept @ [c]) cs)"

definition selectRankedDistinctFacts ::
  "recall_candidate list \<Rightarrow> recall_policy \<Rightarrow> recall_intent \<Rightarrow> recall_candidate list \<times> recall_rejection list" where
  "selectRankedDistinctFacts candidates policy intent =
     (if \<not> po_SuppressDuplicates policy \<or> ri_Mode intent = RecallModeHistory \<or> ri_Mode intent = RecallModeChangesSince
      then (candidates, []) else distinctFacts [] candidates)"

section \<open>Relations\<close>

definition relationTriggers :: "(string \<times> string list) list" where
  "relationTriggers =
     [(''owner'', [''who'', ''own'', ''owner'', ''owns'', ''responsible'']),
      (''blocker'', [''block'', ''blocker'', ''blocked'', ''blocks'', ''preventing'']),
      (''handoff'', [''handoff'', ''delegate'', ''assigned'']),
      (''requirement'', [''requirement'', ''required'', ''criterion'', ''condition'']),
      (''artifact'', [''artifact'', ''document'', ''report'']),
      (''schedule'', [''deadline'', ''date'', ''when'']),
      (''status'', [''status'', ''state'', ''progress'']),
      (''decision'', [''decision'', ''decided'', ''approved'', ''approval''])]"

definition relationRequestedFacts :: "string \<Rightarrow> string list" where
  "relationRequestedFacts query =
     (let words = searchableTerms query in
      map fst (filter (\<lambda>(wanted, triggers). list_ex (\<lambda>w. w \<in> set words) triggers) relationTriggers))"

definition relationQueryEntities :: "string list \<Rightarrow> string list" where
  "relationQueryEntities queryTerms =
     filter (\<lambda>word. word \<notin> set
       [''who'', ''own'', ''owner'', ''owns'', ''responsible'', ''block'', ''blocker'', ''blocked'', ''blocks'', ''preventing'',
        ''handoff'', ''delegate'', ''assigned'', ''requirement'', ''required'', ''criterion'', ''condition'', ''artifact'',
        ''document'', ''report'', ''deadline'', ''date'', ''when'', ''status'', ''state'', ''progress'', ''decision'',
        ''decided'', ''approved'', ''approval'', ''current'', ''latest'']) queryTerms"

definition entityFactSlot :: "string \<Rightarrow> string \<Rightarrow> string" where
  "entityFactSlot entity wanted = entity @ [CHR 0x00] @ wanted"

text \<open>Adding to a set that the code keeps in a map.\<close>

definition addAll :: "string list \<Rightarrow> string list \<Rightarrow> string list" where
  "addAll values target = fold List.insert values target"

definition coveredSlotsOf :: "team_note \<Rightarrow> string list \<Rightarrow> string list \<Rightarrow> string list" where
  "coveredSlotsOf n entities requestedFacts =
     (let text = to_lower (noteText n); subjectTerms = searchableTerms (nt_Subject n) in
      concat (map (\<lambda>entity. if entity \<notin> set subjectTerms then []
        else map (entityFactSlot entity) (filter (recallFactMatched n text) requestedFacts)) entities))"

definition addCoveredEntityFactSlots :: "string list \<Rightarrow> team_note \<Rightarrow> string list \<Rightarrow> string list \<Rightarrow> string list" where
  "addCoveredEntityFactSlots covered n entities requestedFacts = addAll (coveredSlotsOf n entities requestedFacts) covered"

definition coveredEntityFactSlots :: "team_note \<Rightarrow> string list \<Rightarrow> string list \<Rightarrow> string list" where
  "coveredEntityFactSlots n entities requestedFacts = addCoveredEntityFactSlots [] n entities requestedFacts"

definition uncoveredEntityFactGain :: "team_note \<Rightarrow> string list \<Rightarrow> string list \<Rightarrow> string list \<Rightarrow> int" where
  "uncoveredEntityFactGain related entities requestedFacts covered =
     (let text = to_lower (noteText related); words = searchableTerms text in
      sum_list (map (\<lambda>entity. if entity \<notin> set words then 0
        else int (length (filter (\<lambda>wanted. entityFactSlot entity wanted \<notin> set covered \<and> recallFactMatched related text wanted)
          requestedFacts))) entities))"

definition uncoveredQueryTermGain :: "string list \<Rightarrow> string list \<Rightarrow> team_note \<Rightarrow> int" where
  "uncoveredQueryTermGain primaryTerms queryTerms related =
     (let relatedTerms = searchableTerms (noteText related) in
      int (length (filter (\<lambda>word. word \<notin> set primaryTerms \<and> word \<in> set relatedTerms) queryTerms)))"

abbreviation formatRecall :: "team_note \<Rightarrow> team_note list \<Rightarrow> string" where
  "formatRecall \<equiv> FormatForRecallWithRelated formatRFC3339"

definition recallRelationTokenCost :: "team_note \<Rightarrow> team_note \<Rightarrow> int" where
  "recallRelationTokenCost primary related =
     max 1 (estimateTokens (formatRecall primary [related]) - estimateTokens (FormatForRecall formatRFC3339 primary))"

text \<open>The search for the most useful remaining relation: its index and its utility per token.\<close>

fun bestRelation :: "(team_note \<Rightarrow> int) \<Rightarrow> (team_note \<Rightarrow> int) \<Rightarrow> nat \<Rightarrow> team_note list \<Rightarrow> nat option \<times> float64 \<Rightarrow> nat option \<times> float64" where
  "bestRelation gainOf cost i [] best = best"
| "bestRelation gainOf cost i (n # ns) best =
     (let gain = gainOf n; utility = fl_div (fl_int gain) (fl_int (cost n)) in
      bestRelation gainOf cost (Suc i) ns (if 0 < gain \<and> fl_less (snd best) utility then (Some i, utility) else best))"

lemma bestRelation_index:
  "bestRelation gainOf cost i ns best = (Some j, u) \<Longrightarrow> fst best = Some j \<or> i \<le> j \<and> j < i + length ns"
  by (induction gainOf cost i ns best rule: bestRelation.induct) (fastforce simp: Let_def split: if_splits)+

function usefulRelated ::
  "team_note \<Rightarrow> string list \<Rightarrow> string list \<Rightarrow> string list \<Rightarrow> string list \<Rightarrow> string list \<Rightarrow> team_note list \<Rightarrow> team_note list \<Rightarrow>
     team_note list \<times> recall_rejection list" where
  "usefulRelated primary explicitFacts entities queryTerms primaryTerms coveredSlots kept remaining =
     (if remaining = [] then (kept, [])
      else
        let gainOf = (\<lambda>n. uncoveredEntityFactGain n entities explicitFacts coveredSlots * 4 +
              uncoveredQueryTermGain primaryTerms queryTerms n);
            drops = map (\<lambda>n. rejection (nt_ID n) RejectRelationMarginalUtility (recallRelationTokenCost primary n)) remaining
        in case bestRelation gainOf (recallRelationTokenCost primary) 0 remaining (None, 0) of
             (None, u) \<Rightarrow> (kept, drops)
           | (Some i, u) \<Rightarrow>
               if fl_less u minimumRelationUtilityPerToken then (kept, drops)
               else
                 let selected = remaining ! i in
                 usefulRelated primary explicitFacts entities queryTerms
                   (addAll (searchableTerms (noteText selected)) primaryTerms)
                   (addCoveredEntityFactSlots coveredSlots selected entities explicitFacts)
                   (kept @ [selected]) (take i remaining @ drop (Suc i) remaining))"
  by pat_completeness auto
termination
proof (relation "measure (\<lambda>(p, ef, en, qt, pt, cs, k, remaining). length remaining)", goal_cases)
  case 2
  then show ?case by (auto dest!: bestRelation_index [OF sym])
qed simp

declare usefulRelated.simps [simp del]

definition marginallyUsefulRelatedNotes ::
  "team_note \<Rightarrow> team_note list \<Rightarrow> recall_request \<Rightarrow> team_note list \<times> recall_rejection list" where
  "marginallyUsefulRelatedNotes primary related request =
     (let explicitFacts = relationRequestedFacts (to_lower (rq_Query request));
          queryTerms = searchableTerms (rq_Query request); entities = relationQueryEntities queryTerms
      in if explicitFacts = [] then (related, [])
         else usefulRelated primary explicitFacts entities queryTerms (searchableTerms (noteText primary))
                (coveredEntityFactSlots primary entities explicitFacts) [] related)"

definition traceRelation ::
  "team_note list \<Rightarrow> recall_request \<Rightarrow> recall_policy \<Rightarrow> recall_candidate \<Rightarrow>
     plan_trace \<times> (string, team_note list) gomap \<Rightarrow> plan_trace \<times> (string, team_note list) gomap" where
  "traceRelation allNotes request policy primary state =
     (let (trace, plans) = state;
          reachable = relatedNotes (ca_Note primary) allNotes;
          relevant = relevantRelatedNotes reachable (rq_Query request);
          (eligible, lowUtility) = (if po_DisableRelationMarginalUtility policy then (relevant, [])
            else marginallyUsefulRelatedNotes (ca_Note primary) relevant request);
          trace = recordRecallReachable trace reachable;
          trace = recordRecallRelations trace (ca_Note primary) eligible;
          trace = recordRelationMarginalUtilityDrops trace (ca_ID primary) lowUtility
      in (trace, mput (ca_ID primary) eligible plans))"

definition traceRecallRelations ::
  "plan_trace \<Rightarrow> recall_candidate list \<Rightarrow> team_note list \<Rightarrow> recall_request \<Rightarrow> recall_policy \<Rightarrow>
     plan_trace \<times> (string, team_note list) gomap" where
  "traceRecallRelations trace ranked allNotes request policy =
     (let (trace, plans) = fold (traceRelation allNotes request policy) ranked (trace, []) in
      (recordRelationRelevanceDrops (recordMarginalUtilityCandidateDrops trace), plans))"

definition recallRelationEligibleNotes :: "recall_candidate list \<Rightarrow> recall_intent \<Rightarrow> time \<Rightarrow> team_note list" where
  "recallRelationEligibleNotes candidates intent observationTime =
     filter (\<lambda>n. recallHardGateFailure n intent observationTime = []) (map ca_Note candidates)"

definition plansFor :: "(string, team_note list) gomap \<Rightarrow> string \<Rightarrow> team_note list" where
  "plansFor plans noteID = (case mget plans noteID of None \<Rightarrow> [] | Some ns \<Rightarrow> ns)"

section \<open>Order by coverage\<close>

definition selectionFactSlots :: "team_note \<Rightarrow> string list \<Rightarrow> string list \<Rightarrow> string list" where
  "selectionFactSlots n entities facts =
     (let text = to_lower (noteText n);
          matched = filter (\<lambda>entity. contains (to_lower (nt_Subject n)) entity) entities;
          covered = filter (recallFactMatched n text) facts
      in if matched \<noteq> [] then concat (map (\<lambda>entity. map (entityFactSlot entity) covered) matched)
         else map (entityFactSlot ''*'') covered)"

definition addRecallSelectionFactSlots :: "string list \<Rightarrow> team_note \<Rightarrow> string list \<Rightarrow> string list \<Rightarrow> string list" where
  "addRecallSelectionFactSlots target n entities facts = addAll (selectionFactSlots n entities facts) target"

definition addRecallBundleFactSlots ::
  "string list \<Rightarrow> team_note \<Rightarrow> team_note list \<Rightarrow> string list \<Rightarrow> string list \<Rightarrow> string list" where
  "addRecallBundleFactSlots target primary related entities facts =
     fold (\<lambda>n t. addRecallSelectionFactSlots t n entities facts) related
       (addRecallSelectionFactSlots target primary entities facts)"

definition recallBundleFactGain ::
  "team_note \<Rightarrow> team_note list \<Rightarrow> string list \<Rightarrow> string list \<Rightarrow> string list \<Rightarrow> int" where
  "recallBundleFactGain primary related entities facts covered =
     int (length (addRecallBundleFactSlots covered primary related entities facts)) - int (length covered)"

record selection_option =
  so_candidate :: recall_candidate
  so_related :: "team_note list"
  so_gain :: int

fun removeRecallCandidate :: "recall_candidate list \<Rightarrow> string \<Rightarrow> recall_candidate list" where
  "removeRecallCandidate [] noteID = []"
| "removeRecallCandidate (c # cs) noteID = (if ca_ID c = noteID then cs else c # removeRecallCandidate cs noteID)"

fun bestOption :: "selection_option \<Rightarrow> selection_option list \<Rightarrow> selection_option" where
  "bestOption best [] = best"
| "bestOption best (s # ss) = bestOption (if so_gain best < so_gain s then s else best) ss"

definition selectionOptions ::
  "(string, team_note list) gomap \<Rightarrow> recall_request \<Rightarrow> string list \<Rightarrow> string list \<Rightarrow> string list \<Rightarrow> string list \<Rightarrow>
     recall_candidate list \<Rightarrow> selection_option list" where
  "selectionOptions plans request entities facts covered selectedRelated remaining =
     map (\<lambda>c.
         let related = plansFor plans (ca_ID c);
             related = (if 0 < rq_MaxItems request \<and> rq_MaxItems request \<le> int (length related)
               then take (nat (rq_MaxItems request - 1)) related else related)
         in \<lparr>so_candidate = c, so_related = related,
             so_gain = recallBundleFactGain (ca_Note c) related entities facts covered\<rparr>)
       (filter (\<lambda>c. ca_ID c \<notin> set selectedRelated) remaining)"

lemma bestOption_mem: "bestOption best ss \<in> insert best (set ss)"
  by (induction best ss rule: bestOption.induct) (auto split: if_splits)

lemma length_removeRecallCandidate:
  "noteID \<in> ca_ID ` set cs \<Longrightarrow> length (removeRecallCandidate cs noteID) < length cs"
  by (induction cs) auto

lemma bestOption_candidate:
  assumes "selectionOptions plans request entities facts covered selectedRelated remaining = s # ss"
  shows "so_candidate (bestOption s ss) \<in> set remaining"
proof -
  have "bestOption s ss \<in> set (selectionOptions plans request entities facts covered selectedRelated remaining)"
    using bestOption_mem [of s ss] assms by simp
  then show ?thesis by (auto simp: selectionOptions_def Let_def)
qed

function coverageOrder ::
  "(string, team_note list) gomap \<Rightarrow> recall_request \<Rightarrow> string list \<Rightarrow> string list \<Rightarrow> string list \<Rightarrow> string list \<Rightarrow>
     recall_candidate list \<Rightarrow> recall_candidate list" where
  "coverageOrder plans request entities facts covered selectedRelated remaining =
     (case selectionOptions plans request entities facts covered selectedRelated remaining of
        [] \<Rightarrow> remaining
      | s # ss \<Rightarrow>
          let best = bestOption s ss in
          if so_gain best = 0 then remaining
          else so_candidate best #
            coverageOrder plans request entities facts
              (addRecallBundleFactSlots covered (ca_Note (so_candidate best)) (so_related best) entities facts)
              (addAll (map nt_ID (so_related best)) selectedRelated)
              (removeRecallCandidate remaining (ca_ID (so_candidate best))))"
  by pat_completeness auto
termination
proof (relation "measure (\<lambda>(pl, rq, en, f, cv, sr, remaining). length remaining)", goal_cases)
  case (2 plans request entities facts covered selectedRelated remaining s ss best)
  then show ?case
    using bestOption_candidate [OF 2(1)] by (auto intro!: length_removeRecallCandidate)
qed simp

declare coverageOrder.simps [simp del]

definition orderRecallCandidatesByCoverage ::
  "recall_candidate list \<Rightarrow> (string, team_note list) gomap \<Rightarrow> recall_request \<Rightarrow> recall_intent \<Rightarrow> recall_candidate list" where
  "orderRecallCandidatesByCoverage candidates plans request intent =
     (if blank (rq_Query request) \<or> ri_Mode intent = RecallModeHistory \<or> ri_Mode intent = RecallModeChangesSince
      then candidates
      else coverageOrder plans request (relationQueryEntities (searchableTerms (rq_Query request)))
             (ri_RequestedFacts intent) [] [] candidates)"

section \<open>Packing\<close>

definition canonicalRecallNoteID :: "recall_candidate \<Rightarrow> string" where
  "canonicalRecallNoteID c = (if ca_CanonicalNoteID c \<noteq> [] then ca_CanonicalNoteID c else ca_ID c)"

definition canonicalRecallNoteIDs :: "recall_candidate list \<Rightarrow> (string, string) gomap" where
  "canonicalRecallNoteIDs candidates = fold (\<lambda>c ids. mput (ca_ID c) (canonicalRecallNoteID c) ids) candidates []"

definition recallSourceNoteIDs :: "team_note \<Rightarrow> team_note list \<Rightarrow> string list" where
  "recallSourceNoteIDs primary related = nt_ID primary # map nt_ID related"

definition canonicalRecallSourceNoteIDs ::
  "recall_candidate \<Rightarrow> team_note list \<Rightarrow> (string, string) gomap \<Rightarrow> string list" where
  "canonicalRecallSourceNoteIDs c related canonicalIDs =
     map (\<lambda>i. case mget canonicalIDs i of None \<Rightarrow> i | Some canonical \<Rightarrow> if canonical \<noteq> [] then canonical else i)
       (recallSourceNoteIDs (ca_Note c) related)"

definition excludeRecallIDs :: "team_note list \<Rightarrow> string list \<Rightarrow> team_note list" where
  "excludeRecallIDs related selectedIDs = filter (\<lambda>n. nt_ID n \<notin> set selectedIDs) related"

definition planRecallRelated ::
  "plan_trace \<Rightarrow> team_note list \<Rightarrow> recall_request \<Rightarrow> int \<Rightarrow> plan_trace \<times> team_note list" where
  "planRecallRelated trace eligible request remaining =
     (let available = excludeRecallIDs eligible (rt_SelectedSet trace);
          trace = fold (\<lambda>n t. recordPreBudgetSelection t (nt_ID n)) available trace;
          selected = (if 0 < rq_MaxItems request \<and> max 0 remaining < int (length available)
            then take (nat (max 0 remaining)) available else available)
      in if rq_MaxItems request \<le> 0 then (trace, selected)
         else
           (fold (\<lambda>n t. if nt_ID n \<in> set (map nt_ID selected) then t
                    else recordRecallRejection t (rejection (nt_ID n) RejectMaxItems 0)) available trace,
            selected))"

definition recordMaxItemsDrop :: "string \<Rightarrow> plan_trace \<times> string list \<Rightarrow> plan_trace \<times> string list" where
  "recordMaxItemsDrop noteID state =
     (let (trace, dropped) = state in
      if noteID \<in> set dropped then (trace, dropped)
      else (recordRecallRejection (recordPreBudgetSelection trace noteID) (rejection noteID RejectMaxItems 0), noteID # dropped))"

definition recordMaxItemsDrops ::
  "plan_trace \<Rightarrow> recall_candidate list \<Rightarrow> (string, team_note list) gomap \<Rightarrow> plan_trace" where
  "recordMaxItemsDrops trace remaining plans =
     fst (fold (\<lambda>c state.
         let state = recordMaxItemsDrop (ca_ID c) state in
         fold (\<lambda>n. recordMaxItemsDrop (nt_ID n)) (excludeRecallIDs (plansFor plans (ca_ID c)) (rt_SelectedSet (fst state))) state)
       remaining (trace, []))"

definition recordRecallRelationCostDrops :: "plan_trace \<Rightarrow> team_note \<Rightarrow> team_note list \<Rightarrow> plan_trace" where
  "recordRecallRelationCostDrops trace primary related =
     fold (\<lambda>n t. recordRecallRejection t (rejection (nt_ID n) RejectUncoveredRelationCost (recallRelationTokenCost primary n)))
       related trace"

record plan_state =
  ps_trace :: plan_trace
  ps_planned :: "planned_recall list"
  ps_usedTokens :: int
  ps_selectedNotes :: int

definition plannedEvidence ::
  "recall_candidate \<Rightarrow> team_note list \<Rightarrow> (string, string) gomap \<Rightarrow> string \<Rightarrow> int \<Rightarrow> planned_recall" where
  "plannedEvidence c related canonicalIDs text tokens =
     \<lparr>pn_Note = ca_Note c, pn_CanonicalNoteID = canonicalRecallNoteID c,
      pn_SourceNoteIDs = canonicalRecallSourceNoteIDs c related canonicalIDs, pn_Text = text, pn_Tokens = tokens,
      pn_Relevance = ca_evidenceConfidence c, pn_Disposition = RecallDispositionEvidence, pn_ClaimNoteDelivery = True,
      pn_HintFingerprint = []\<rparr>"

text \<open>One candidate that is neither selected yet nor over the item limit: with its related notes if they fit,
  without them if the policy degrades, or not at all.\<close>

definition packCandidate ::
  "recall_request \<Rightarrow> recall_policy \<Rightarrow> (string, string) gomap \<Rightarrow> (string, team_note list) gomap \<Rightarrow> recall_candidate \<Rightarrow>
     plan_state \<Rightarrow> plan_state" where
  "packCandidate request policy canonicalIDs plans c st =
     (let used = ps_usedTokens st; note = ca_Note c;
          trace = recordPreBudgetSelection (ps_trace st) (ca_ID c);
          remainingRelated = (if 0 < rq_MaxItems request then rq_MaxItems request - ps_selectedNotes st - 1 else 0);
          (trace, related) = planRecallRelated trace (plansFor plans (ca_ID c)) request remainingRelated;
          text = formatRecall note related; tokens = estimateTokens text;
          degrade = (po_DegradeRelated policy \<and> related \<noteq> [] \<and> rq_TokenBudget request < used + tokens);
          trace = (if degrade then recordRecallRelationCostDrops trace note related else trace);
          related = (if degrade then [] else related);
          text = (if degrade then FormatForRecall formatRFC3339 note else text);
          tokens = (if degrade then estimateTokens text else tokens)
      in if rq_TokenBudget request < used + tokens
         then st\<lparr>ps_trace := recordRecallRejection (recordRecallRelationCostDrops trace note related)
                (rejection (ca_ID c) RejectTokenBudget tokens)\<rparr>
         else \<lparr>ps_trace = markRecallEvidence trace note related,
                ps_planned = ps_planned st @ [plannedEvidence c related canonicalIDs text tokens],
                ps_usedTokens = used + tokens,
                ps_selectedNotes = ps_selectedNotes st + 1 + int (length related)\<rparr>)"

fun packCandidates ::
  "recall_request \<Rightarrow> recall_policy \<Rightarrow> (string, string) gomap \<Rightarrow> (string, team_note list) gomap \<Rightarrow> recall_candidate list \<Rightarrow>
     plan_state \<Rightarrow> plan_state" where
  "packCandidates request policy canonicalIDs plans [] st = st"
| "packCandidates request policy canonicalIDs plans (c # cs) st =
     (if recallIDSelected (rt_SelectedSet (ps_trace st)) (ca_ID c)
      then packCandidates request policy canonicalIDs plans cs st
      else if 0 < rq_MaxItems request \<and> rq_MaxItems request \<le> ps_selectedNotes st
      then st\<lparr>ps_trace := recordMaxItemsDrops (ps_trace st) (c # cs) plans\<rparr>
      else packCandidates request policy canonicalIDs plans cs (packCandidate request policy canonicalIDs plans c st))"

section \<open>Hints\<close>

definition clampUnit :: "float64 \<Rightarrow> float64" where
  "clampUnit value = (if fl_less value 0 then 0 else if fl_less (fl_int 1) value then fl_int 1 else value)"

definition hintUtility :: "recall_candidate \<Rightarrow> recall_request \<Rightarrow> candidate_trace \<Rightarrow> float64" where
  "hintUtility c request trace =
     (let n = ca_Note c;
          score = fl_const 25 100;
          score = (case ca_SemanticScore c of
             None \<Rightarrow> score | Some x \<Rightarrow> fl_add score (fl_mul (fl_const 40 100) (clampUnit x)));
          score = fl_add score (fl_mul (fl_const 15 100) (clampUnit (QueryRelevance n (rq_Query request))));
          score = (if nt_RelatedSubjects n \<noteq> [] then fl_add score (fl_const 10 100) else score);
          score = (if nt_EvidenceEventIDs n \<noteq> [] then fl_add score (fl_const 10 100) else score);
          score = (if tl_GatePassed (cd_TemporalResolution trace) then fl_add score (fl_const 10 100) else score)
      in clampUnit score)"

definition hintEligibleCandidate ::
  "recall_candidate \<Rightarrow> candidate_trace \<Rightarrow> recall_request \<Rightarrow> recall_policy \<Rightarrow> bool" where
  "hintEligibleCandidate c trace request policy =
     (if list_ex (\<lambda>g. \<not> hg_Passed g) (cd_HardGateResults trace) then False
      else if fl_less 0 (po_HintMinQueryRelevance policy) \<and>
        fl_less (QueryRelevance (ca_Note c) (rq_Query request)) (po_HintMinQueryRelevance policy) then False
      else if cd_RejectionReason trace = RejectEvidenceGate \<or> cd_RejectionReason trace = RejectRelevanceGate then True
      else if cd_RejectionReason trace = RejectFusionLimit then
        (let threshold = (if fl_le (po_HintSemanticThreshold policy) 0 then po_SemanticThreshold policy
               else po_HintSemanticThreshold policy)
         in case ca_SemanticScore c of None \<Rightarrow> False | Some x \<Rightarrow> fl_le threshold x)
      else False)"

definition recallCandidateTraceByID :: "candidate_trace list \<Rightarrow> string \<Rightarrow> candidate_trace option" where
  "recallCandidateTraceByID traces noteID = find (\<lambda>t. cd_NoteID t = noteID) traces"

definition betterLead ::
  "recall_request \<Rightarrow> recall_policy \<Rightarrow> plan_trace \<Rightarrow> recall_candidate \<Rightarrow> recall_candidate option \<times> float64 \<Rightarrow>
     recall_candidate option \<times> float64" where
  "betterLead request policy trace c best =
     (let threshold = (if fl_le (po_HintThreshold policy) 0 then defaultHintThreshold else po_HintThreshold policy) in
      case recallCandidateTraceByID (rt_CandidateTraces trace) (ca_ID c) of
        None \<Rightarrow> best
      | Some t \<Rightarrow>
          if \<not> hintEligibleCandidate c t request policy \<or> recallIDSelected (rt_SelectedSet trace) (ca_ID c) then best
          else
            let score = hintUtility c request t in
            if fl_le threshold score \<and> fl_le (po_HintMinMarginalUtility policy) score \<and> fl_less (snd best) score
            then (Some c, score) else best)"

definition bestHintLead ::
  "recall_candidate list \<Rightarrow> recall_request \<Rightarrow> recall_policy \<Rightarrow> plan_trace \<Rightarrow> recall_candidate option \<times> float64" where
  "bestHintLead candidates request policy trace = fold (betterLead request policy trace) candidates (None, 0)"

definition trim_chars :: "string \<Rightarrow> string \<Rightarrow> string" where
  "trim_chars cutset s = rev (dropWhile (\<lambda>c. c \<in> set cutset) (rev (dropWhile (\<lambda>c. c \<in> set cutset) s)))"

definition safeHintTerms :: "string \<Rightarrow> string" where
  "safeHintTerms value =
     join '' '' (map (trim_chars ([CHR 0x22, CHR 0x27, CHR 0x60] @ ''.,:;!?()[]{}''))
       (take maximumHintSubjectTerms (string_fields value)))"

definition focusedHintQuery :: "recall_request \<Rightarrow> team_note \<Rightarrow> recall_intent \<Rightarrow> string" where
  "focusedHintQuery request n intent =
     (let subject = safeHintTerms (nt_Subject n); related = safeHintTerms (join '' '' (nt_RelatedSubjects n)) in
      join ''; '' ([trim_space (rq_Query request)] @
        (if subject \<noteq> [] then [''related topic: '' @ subject] else []) @
        (if nt_RelatedSubjects n \<noteq> [] \<and> related \<noteq> [] then [''related context: '' @ related] else []) @
        (case ri_ValidAt intent of None \<Rightarrow> [] | Some t \<Rightarrow> [''as of '' @ formatDate t]) @
        (case ri_ChangedSince intent of None \<Rightarrow> [] | Some t \<Rightarrow> [''changes since '' @ formatDate t])))"

definition hintFingerprint :: "recall_request \<Rightarrow> string \<Rightarrow> string \<Rightarrow> string" where
  "hintFingerprint request noteID focusedQuery =
     sha256_hex (join [CHR 0x00] [UserID (rq_Actor request), AgentID (rq_Actor request), SessionID (rq_Actor request),
       noteID, focusedQuery])"

definition markRecallHint :: "plan_trace \<Rightarrow> string \<Rightarrow> float64 \<Rightarrow> string \<Rightarrow> plan_trace" where
  "markRecallHint trace noteID score focusedQuery =
     trace\<lparr>rt_CandidateTraces := updateTrace noteID
         (\<lambda>t. t\<lparr>cd_Disposition := RecallDispositionHint, cd_RejectionReason := [], cd_HintUtility := score,
            cd_FocusedQuery := focusedQuery\<rparr>) (rt_CandidateTraces trace),
       rt_Rejections := filter (\<lambda>r. rr_NoteID r \<noteq> noteID) (rt_Rejections trace)\<rparr>"

definition hintText :: "string \<Rightarrow> string" where
  "hintText focusedQuery =
     ''[Recall hint - not evidence]'' @ [CHR 0x0A] @ ''Potentially useful Team Memory may be available. '' @
     ''If it would affect the answer, call active_recall with: '' @ quote focusedQuery @ ''.''"

definition planRecallHint ::
  "recall_candidate list \<Rightarrow> recall_request \<Rightarrow> recall_policy \<Rightarrow> plan_trace \<Rightarrow> planned_recall list \<Rightarrow> int \<Rightarrow> int \<Rightarrow>
     plan_trace \<times> planned_recall option" where
  "planRecallHint candidates request policy trace planned usedTokens selectedNotes =
     (if \<not> po_EnableHintRecall policy \<or> blank (rq_Query request) \<or> planned \<noteq> [] then (trace, None)
      else if 0 < rq_MaxItems request \<and> rq_MaxItems request \<le> selectedNotes then (trace, None)
      else
        let (best, score) = bestHintLead candidates request policy trace in
        case (if fl_less 0 score then best else None) of
          None \<Rightarrow> (trace, None)
        | Some lead \<Rightarrow>
            let focusedQuery = focusedHintQuery request (ca_Note lead) (rt_Intent trace);
                text = hintText focusedQuery; tokens = estimateTokens text
            in if rq_TokenBudget request < usedTokens + tokens
               then (recordRecallRejection trace (rejection (ca_ID lead) RejectTokenBudget tokens), None)
               else
                 ((markRecallHint trace (ca_ID lead) score focusedQuery)
                    \<lparr>rt_PlanVersion := HintRecallV1PlanVersion, rt_ScoringVersion := HintRecallV1ScoringVersion\<rparr>,
                  Some \<lparr>pn_Note = ca_Note lead, pn_CanonicalNoteID = [], pn_SourceNoteIDs = [ca_ID lead], pn_Text = text,
                    pn_Tokens = tokens, pn_Relevance = score, pn_Disposition = RecallDispositionHint,
                    pn_ClaimNoteDelivery = False, pn_HintFingerprint = hintFingerprint request (ca_ID lead) focusedQuery\<rparr>))"

section \<open>The plan\<close>

definition recordAll :: "recall_rejection list \<Rightarrow> plan_trace \<Rightarrow> plan_trace" where
  "recordAll rejections trace = fold (\<lambda>r t. recordRecallRejection t r) rejections trace"

definition PlanRecall ::
  "recall_candidate list \<Rightarrow> recall_request \<Rightarrow> recall_policy \<Rightarrow> planned_recall list \<times> plan_trace" where
  "PlanRecall candidates request policy =
     (let intent = CompileRecallIntent request;
          canonicalIDs = canonicalRecallNoteIDs candidates;
          observationTime = recallObservationTime candidates (po_ObservationTime policy);
          (ranked, rejections, lanes) = rankRecallCandidates candidates request policy intent observationTime;
          trace = initializeRecallTrace candidates ranked request intent observationTime (evidenceThreshold policy) lanes rejections;
          (ranked, finalStateRejections) = selectFinalStateFamilies ranked intent;
          trace = recordAll finalStateRejections trace;
          (ranked, duplicateRejections) = selectRankedDistinctFacts ranked policy intent;
          trace = recordAll duplicateRejections trace;
          trace = trace\<lparr>rt_PlanVersion := (if po_DisableRelationMarginalUtility policy
            then GeneralRecallV3LegacyRelationPlanVersion else GeneralRecallV3FinalStatePlanVersion)\<rparr>;
          relationCandidates = fst (selectFinalStateFamilies candidates intent);
          allNotes = recallRelationEligibleNotes relationCandidates intent observationTime;
          (trace, plans) = traceRecallRelations trace ranked allNotes request policy;
          ranked = orderRecallCandidatesByCoverage ranked plans request intent;
          st = packCandidates request policy canonicalIDs plans ranked
                 \<lparr>ps_trace = trace, ps_planned = [], ps_usedTokens = 0, ps_selectedNotes = 0\<rparr>;
          (trace, hint) = planRecallHint candidates request policy (ps_trace st) (ps_planned st) (ps_usedTokens st) (ps_selectedNotes st);
          planned = ps_planned st @ (case hint of None \<Rightarrow> [] | Some h \<Rightarrow> [h]);
          usedTokens = ps_usedTokens st + (case hint of None \<Rightarrow> 0 | Some h \<Rightarrow> pn_Tokens h)
      in (planned, finalizeRecallTrace
            (trace\<lparr>rt_PlannedNotes := int (length planned), rt_PlannedTokens := usedTokens\<rparr>)))"

section \<open>The decision and the envelope\<close>

definition hasAnswerBearingBudgetDrop :: "plan_trace \<Rightarrow> bool" where
  "hasAnswerBearingBudgetDrop trace =
     list_ex (\<lambda>t. cd_NoteID t \<in> set (map rr_NoteID (rt_BudgetDrops trace)) \<and> cd_CoveredFacts t \<noteq> []) (rt_CandidateTraces trace)"

definition coversRequiredFacts :: "string list \<Rightarrow> string list \<Rightarrow> bool" where
  "coversRequiredFacts covered required = list_all (\<lambda>wanted. wanted \<in> set covered) required"

definition SummarizeRecallDecision :: "plan_trace \<Rightarrow> recall_decision" where
  "SummarizeRecallDecision trace =
     (let selected = filter (\<lambda>t. cd_NoteID t \<in> set (rt_SelectedSet trace)) (rt_CandidateTraces trace);
          covered = concat (map cd_CoveredFacts selected);
          confidencePassed = (rt_SelectedSet trace \<noteq> [] \<and>
            list_all (\<lambda>t. \<not> fl_less (cd_EvidenceConfidence t) (rt_EvidenceThreshold trace)) selected);
          hardGatesPassed = (rt_SelectedSet trace \<noteq> [] \<and> list_all (\<lambda>t. list_all hg_Passed (cd_HardGateResults t)) selected);
          reasons = (if rt_DeliveredItems trace = [] then [RecallReasonNoEvidence] else []) @
            (if \<not> coversRequiredFacts covered (ri_RequestedFacts (rt_Intent trace)) then [RecallReasonFactCoverage] else []) @
            (if \<not> confidencePassed then [RecallReasonConfidence] else []) @
            (if hasAnswerBearingBudgetDrop trace then [RecallReasonBudgetDrop] else []) @
            (if \<not> hardGatesPassed then [RecallReasonHardGate] else [])
      in \<lparr>dc_EvidenceSufficient = (reasons = []), dc_ReasonCodes = reasons\<rparr>)"

definition AppendPlannedRecall :: "note_envelope \<Rightarrow> planned_recall \<Rightarrow> note_envelope" where
  "AppendPlannedRecall envelope p =
     (let n = pn_Note p; noteID = (if pn_CanonicalNoteID p = [] then nt_ID n else pn_CanonicalNoteID p) in
      envelope\<lparr>en_Items := en_Items envelope @ [pn_Text p],
        en_Details := en_Details envelope @
          [\<lparr>rn_NoteID = noteID, rn_SourceNoteIDs = pn_SourceNoteIDs p, rn_Revision = nt_Revision n, rn_Text = pn_Text p,
            rn_Origin = nt_Origin n, rn_Relevance = pn_Relevance p, rn_Certainty = CertaintyForKind (nt_Kind n)\<rparr>],
        en_Tokens := en_Tokens envelope + pn_Tokens p,
        en_Revision := noteID @ '':'' @ show_int (nt_Revision n)\<rparr>)"

definition AppendPlannedHint :: "note_envelope \<Rightarrow> planned_recall \<Rightarrow> note_envelope" where
  "AppendPlannedHint envelope p =
     envelope\<lparr>en_Items := en_Items envelope @ [pn_Text p], en_Tokens := en_Tokens envelope + pn_Tokens p,
       en_Revision := ''hint:'' @ pn_HintFingerprint p\<rparr>"

section \<open>Distributed strategies\<close>

definition recallCandidateStrategies :: "(string \<times> recall_policy) list" where
  "recallCandidateStrategies =
     [(''passive-v1'', DefaultRecallPolicy\<lparr>po_HintThreshold := fl_const 65 100\<rparr>),
      (''hint-v1-selective'', zeroPolicy
         \<lparr>po_SemanticThreshold := fl_const 50 100, po_HintSemanticThreshold := fl_const 20 100,
          po_HintThreshold := fl_const 60 100, po_HintMinQueryRelevance := fl_const 10 100,
          po_HintMinMarginalUtility := fl_const 85 100, po_CandidateLimit := 16, po_EnableHintRecall := True,
          po_SuppressDuplicates := True, po_DegradeRelated := True\<rparr>)]"

definition RecallCandidateStrategyNames :: "string list" where
  "RecallCandidateStrategyNames = map fst recallCandidateStrategies"

text \<open>\<open>buildDefault\<close> is the name the build embeds.\<close>

definition ResolveRecallCandidateStrategy :: "string \<Rightarrow> string \<Rightarrow> (string \<times> recall_policy) res" where
  "ResolveRecallCandidateStrategy buildDefault name0 =
     (let name = (if name0 = [] then buildDefault else name0) in
      case find (\<lambda>s. fst s = name) recallCandidateStrategies of
        Some strategy \<Rightarrow> Inr strategy
      | None \<Rightarrow> Inl (ErrorNew (''unsupported recall candidate strategy '' @ quote name)))"

end
