(* ===== verification/Note_Store.thy ===== *)
theory Note_Store
  imports Note_Tables Note_Query Recall_Planner
begin

text \<open>
  The PostgreSQL note store (\<open>NoteStore\<close> in \<open>internal/platform/postgres/notes.go\<close>): one definition per function of the
  file.  \<open>note_env\<close> holds what a call meets outside the program: which statement of the database fails, the readings of
  the clock (one per admission), \<open>NOW()\<close> of the transaction, the collation of the database, the JSON encodings, the rank and the similarity that
  PostgreSQL computes, the text of a \<open>float32\<close>.  The embedder is a service the store may be configured with.
\<close>

section \<open>The store\<close>

type_synonym vector = "32 word list"
type_synonym embedder = "string list \<Rightarrow> vector list res"

record recall_snapshot_item =
  si_ID :: string
  si_Text :: string
  si_EvidenceEventIDs :: "string list"

record recall_provenance =
  rp_Model :: string
  rp_PromptVersion :: string
  rp_InputTokens :: int
  rp_OutputTokens :: int
  rp_DurationMS :: int
  rp_Error :: string

record retrieval_config =
  rc_Embedder :: "embedder option"
  rc_EmbeddingModel :: string
  rc_EmbeddingDimensions :: int
  rc_Policy :: recall_policy

record pg_note_store =
  ns_policy :: ttl_policy
  ns_retrieval :: retrieval_config

record note_env =
  ne_fault :: db_fault
  ne_clock :: "nat \<Rightarrow> time"
  ne_now :: time
  ne_collation :: "string \<Rightarrow> string \<Rightarrow> bool"
  ne_marshal :: marshaler
  ne_encodeNotes :: "team_note list \<Rightarrow> string res"
  ne_decodeNotes :: "string \<Rightarrow> team_note list res"
  ne_nilEvidence :: "candidate \<Rightarrow> bool"
  ne_formatFloat :: "32 word \<Rightarrow> string"
  ne_rank :: "string \<Rightarrow> string \<Rightarrow> float64"
  ne_similarity :: "string \<Rightarrow> string \<Rightarrow> float64"
  ne_encodeEnvelope :: "note_envelope \<Rightarrow> string res"
  ne_encodeTrace :: "plan_trace \<Rightarrow> string res"
  ne_encodeSnapshot :: "recall_snapshot_item list \<Rightarrow> string res"
  ne_encodeProvenance :: "recall_provenance \<Rightarrow> string res"
  ne_nextval :: int
  ne_duration :: int

definition DefaultEmbeddingDimensions :: int where "DefaultEmbeddingDimensions = 384"

definition queryInstruction :: string where
  "queryInstruction = ''Retrieve Team Notes containing facts, decisions, blockers, ownership, deadlines, or status relevant to the current agent request.''"

text \<open>\<open>*policy == (teamnote.RecallPolicy{})\<close>: the comparison of structs compares numbers, so that both zeros are zero.\<close>

definition isZeroPolicy :: "recall_policy \<Rightarrow> bool" where
  "isZeroPolicy p \<longleftrightarrow>
     list_all (\<lambda>v. fl_eq v 0) [po_SemanticThreshold p, po_EvidenceThreshold p, po_HintSemanticThreshold p, po_HintThreshold p,
       po_HintMinQueryRelevance p, po_HintMinMarginalUtility p] \<and>
     po_CandidateLimit p = 0 \<and> po_ObservationTime p = 0 \<and> \<not> po_EnableHintRecall p \<and> \<not> po_SuppressDuplicates p \<and>
     \<not> po_DegradeRelated p \<and> \<not> po_DisableRelationMarginalUtility p"

fun checkBounded :: "(string \<times> float64) list \<Rightarrow> unit res" where
  "checkBounded [] = Inr ()"
| "checkBounded ((name, value) # rest) =
     (if fl_less value 0 \<or> fl_less (fl_int 1) value
      then Inl (ErrorNew (''create postgres note store: '' @ name @ '' must be between zero and one''))
      else checkBounded rest)"

definition applyRecallPolicyDefaults :: "recall_policy \<Rightarrow> recall_policy res" where
  "applyRecallPolicyDefaults policy0 =
     (let defaults = DefaultRecallPolicy;
          p = (if isZeroPolicy policy0 then defaults else policy0);
          p = (if fl_eq (po_SemanticThreshold p) 0 then p\<lparr>po_SemanticThreshold := po_SemanticThreshold defaults\<rparr> else p);
          p = (if fl_eq (po_HintSemanticThreshold p) 0 then p\<lparr>po_HintSemanticThreshold := po_SemanticThreshold p\<rparr> else p);
          p = (if po_CandidateLimit p = 0 then p\<lparr>po_CandidateLimit := po_CandidateLimit defaults\<rparr> else p)
      in case checkBounded [(''semantic threshold'', po_SemanticThreshold p),
             (''hint semantic threshold'', po_HintSemanticThreshold p),
             (''hint minimum query relevance'', po_HintMinQueryRelevance p),
             (''hint minimum marginal utility'', po_HintMinMarginalUtility p)] of
           Inl e \<Rightarrow> Inl e
         | Inr _ \<Rightarrow>
             if po_CandidateLimit p < 1 then Inl (ErrorNew ''create postgres note store: candidate limit must be positive'')
             else Inr p)"

text \<open>The constructor; \<open>store\<close>, \<open>policy\<close> and \<open>clock\<close> may be nil.\<close>

definition NewNoteStore :: "'s option \<Rightarrow> ttl_policy option \<Rightarrow> 'c option \<Rightarrow> retrieval_config \<Rightarrow> pg_note_store res" where
  "NewNoteStore store policy clock retrieval =
     (case (store, policy, clock) of
        (Some _, Some ttl, Some _) \<Rightarrow>
          if rc_Embedder retrieval \<noteq> None \<and> blank (rc_EmbeddingModel retrieval)
          then Inl (ErrorNew ''create postgres note store: embedding model is required when embedding is enabled'')
          else
            let retrieval = (if rc_EmbeddingDimensions retrieval \<le> 0
                  then retrieval\<lparr>rc_EmbeddingDimensions := DefaultEmbeddingDimensions\<rparr> else retrieval)
            in (case applyRecallPolicyDefaults (rc_Policy retrieval) of
                  Inl e \<Rightarrow> Inl e
                | Inr p \<Rightarrow> Inr \<lparr>ns_policy = ttl, ns_retrieval = retrieval\<lparr>rc_Policy := p\<rparr>\<rparr>)
      | _ \<Rightarrow> Inl (ErrorNew ''create postgres note store: store, policy, and clock are required''))"

section \<open>Reading notes\<close>

text \<open>\<open>array_agg(event_id ORDER BY event_id)\<close> of a revision.\<close>

definition evidenceOf :: "note_env \<Rightarrow> note_db \<Rightarrow> string \<Rightarrow> string \<Rightarrow> int \<Rightarrow> string list" where
  "evidenceOf E db scopeID noteID revision =
     sort_by (ne_collation E) (map (\<lambda>(_, _, _, e). e) (filter (\<lambda>(s, n, r, _). s = scopeID \<and> n = noteID \<and> r = revision) (nd_evidence db)))"

text \<open>A \<open>time.Time\<close> is an instant: converting it to UTC does not change it.  A nil and an empty slice are both the
  empty list.\<close>

definition normalizeNoteTimes :: "team_note \<Rightarrow> team_note" where
  "normalizeNoteTimes n = n"

definition nonNilStrings :: "string list \<Rightarrow> string list" where
  "nonNilStrings values = values"

definition scanNote :: "note_env \<Rightarrow> note_db \<Rightarrow> row_key \<times> note_row \<Rightarrow> team_note" where
  "scanNote E db kr =
     (case kr of ((scopeID, noteID), r) \<Rightarrow>
      normalizeNoteTimes
        \<lparr>nt_ID = noteID, nt_Key = tn_Key r, nt_Kind = tn_Kind r, nt_Subject = tn_Subject r, nt_Body = tn_Body r,
         nt_TaskRef = tn_TaskRef r, nt_ThreadRef = tn_ThreadRef r, nt_Origin = tn_Origin r,
         nt_AudienceAgentIDs = tn_AudienceAgentIDs r, nt_RelatedSubjects = tn_RelatedSubjects r,
         nt_EvidenceEventIDs = evidenceOf E db scopeID noteID (tn_CurrentRevision r), nt_State = tn_State r,
         nt_Revision = tn_CurrentRevision r, nt_CreatedAt = tn_CreatedAt r, nt_UpdatedAt = tn_UpdatedAt r,
         nt_SoftExpiresAt = tn_SoftExpiresAt r, nt_HardExpiresAt = tn_HardExpiresAt r, nt_ValidAt = tn_ValidAt r,
         nt_InvalidAt = tn_InvalidAt r,
         nt_SourceOccurredAt = (case tn_SourceOccurredAt r of Some t \<Rightarrow> t | None \<Rightarrow> tn_UpdatedAt r)\<rparr>)"

definition noteForUpdate :: "note_env \<Rightarrow> string \<Rightarrow> string \<Rightarrow> team_note option tx" where
  "noteForUpdate E scopeID key =
     statement (ne_fault E) ''load current note'' key
       (\<lambda>db. Inr (db, map_option (scanNote E db) (find (\<lambda>((scope, _), r). scope = scopeID \<and> tn_Key r = key) (nd_notes db))))"

definition noteForCandidate :: "note_env \<Rightarrow> string \<Rightarrow> string \<Rightarrow> team_note tx" where
  "noteForCandidate E scopeID candidateID =
     statement (ne_fault E) ''load note for candidate'' candidateID
       (\<lambda>db. case find (\<lambda>((scope, _), r). scope = scopeID \<and> rv_CandidateID r = candidateID) (nd_revisions db) of
          None \<Rightarrow> Inl ErrNoRows
        | Some ((_, noteID, _), _) \<Rightarrow>
            (case mget (nd_notes db) (scopeID, noteID) of
               None \<Rightarrow> Inl ErrNoRows
             | Some r \<Rightarrow> Inr (db, scanNote E db ((scopeID, noteID), r))))"

section \<open>Runs and candidates\<close>

definition runRow :: "note_env \<Rightarrow> extraction_run \<Rightarrow> string \<Rightarrow> run_row" where
  "runRow E run status =
     \<lparr>xr_Actor = run_Actor run, xr_FromSequence = run_FromSequence run, xr_ToSequence = run_ToSequence run,
      xr_InputChecksum = run_InputChecksum run, xr_CandidateChecksum = run_CandidateChecksum run, xr_Model = run_Model run,
      xr_PromptVersion = run_PromptVersion run, xr_Status = status, xr_InputTokens = run_InputTokens run,
      xr_OutputTokens = run_OutputTokens run, xr_Error = [], xr_Result = ''[]'', xr_CreatedAt = pg_time (ne_now E),
      xr_CompletedAt = None\<rparr>"

definition ensureExtractionRun :: "note_env \<Rightarrow> string \<Rightarrow> extraction_run \<Rightarrow> bool tx" where
  "ensureExtractionRun E scopeID run =
     tx_bind (statement (ne_fault E) ''ensure extraction run'' [] (insertRunRow scopeID (run_ID run) (runRow E run ExtractionRunProcessing)))
       (\<lambda>affected. tx_return (affected = 1))"

definition storedRun :: "run_row \<Rightarrow> extraction_run" where
  "storedRun row =
     \<lparr>run_ID = [], run_Actor = xr_Actor row, run_FromSequence = xr_FromSequence row, run_ToSequence = xr_ToSequence row,
      run_InputChecksum = xr_InputChecksum row, run_CandidateChecksum = xr_CandidateChecksum row, run_Model = xr_Model row,
      run_PromptVersion = xr_PromptVersion row, run_InputTokens = xr_InputTokens row, run_OutputTokens = xr_OutputTokens row,
      run_Candidates = [], run_TransitionAuthorities = [], run_Evidence = [], run_Rejections = []\<rparr>"

definition existingExtractionRunNotes :: "note_env \<Rightarrow> string \<Rightarrow> extraction_run \<Rightarrow> team_note list tx" where
  "existingExtractionRunNotes E scopeID run =
     tx_bind (statement (ne_fault E) (''load extraction run '' @ quote (run_ID run)) []
         (\<lambda>db. case mget (nd_runs db) (scopeID, run_ID run) of None \<Rightarrow> Inl ErrNoRows | Some row \<Rightarrow> Inr (db, row)))
       (\<lambda>row. tx_bind (tx_lift (ValidateExtractionRunReplay (storedRun row) run (xr_Status row) (xr_Error row)))
       (\<lambda>_. tx_lift (case ne_decodeNotes E (xr_Result row) of
          Inl e \<Rightarrow> Inl (wrapf ''decode extraction run result: '' e)
        | Inr ns \<Rightarrow> Inr ns)))"

definition candidateRow :: "string \<Rightarrow> candidate \<Rightarrow> candidate_row" where
  "candidateRow runID cand =
     \<lparr>cr_RunID = runID, cr_Action = cn_Action cand, cr_Kind = cn_Kind cand, cr_Subject = cn_Subject cand,
      cr_IdentityRef = cn_IdentityRef cand, cr_Body = cn_Body cand, cr_TaskRef = cn_TaskRef cand,
      cr_ThreadRef = cn_ThreadRef cand, cr_Origin = cn_Origin cand,
      cr_AudienceAgentIDs = nonNilStrings (cn_AudienceAgentIDs cand),
      cr_RelatedSubjects = nonNilStrings (cn_RelatedSubjects cand), cr_EvidenceEventIDs = cn_EvidenceEventIDs cand,
      cr_ValidAt = map_option pg_time (cn_ValidAt cand), cr_InvalidAt = map_option pg_time (cn_InvalidAt cand),
      cr_SourceOccurredAt = Some (pg_time (cn_SourceOccurredAt cand)), cr_AdmissionStatus = ''pending'',
      cr_RejectionReason = []\<rparr>"

definition insertCandidate :: "note_env \<Rightarrow> string \<Rightarrow> string \<Rightarrow> candidate \<Rightarrow> bool tx" where
  "insertCandidate E scopeID runID cand =
     tx_bind (statement (ne_fault E) ''insert note candidate'' (cn_ID cand)
         (insertCandidateRow (cn_EvidenceEventIDs cand = [] \<and> ne_nilEvidence E cand) scopeID (cn_ID cand) (candidateRow runID cand)))
       (\<lambda>affected. tx_return (affected = 1))"

definition insertRejectedCandidate :: "note_env \<Rightarrow> string \<Rightarrow> string \<Rightarrow> candidate \<Rightarrow> string \<Rightarrow> unit tx" where
  "insertRejectedCandidate E scopeID runID cand reason =
     tx_bind (insertCandidate E scopeID runID cand)
       (\<lambda>inserted. if \<not> inserted then tx_return ()
        else statement (ne_fault E) ''mark candidate rejected'' (cn_ID cand)
               (updateCandidateRow scopeID (cn_ID cand)
                 (\<lambda>r. r\<lparr>cr_AdmissionStatus := ''rejected'', cr_RejectionReason := reason\<rparr>)))"

fun insertRejected :: "note_env \<Rightarrow> string \<Rightarrow> string \<Rightarrow> (candidate \<times> string) list \<Rightarrow> unit tx" where
  "insertRejected E scopeID runID [] = tx_return ()"
| "insertRejected E scopeID runID ((cand, reason) # rest) =
     tx_bind (insertRejectedCandidate E scopeID runID cand reason) (\<lambda>_. insertRejected E scopeID runID rest)"

definition evidenceRange :: "session_event list \<Rightarrow> int \<times> int" where
  "evidenceRange evidence =
     (case evidence of
        [] \<Rightarrow> (0, 0)
      | event # events \<Rightarrow>
          foldl (\<lambda>(fromSequence, toSequence) e.
              (if ev_Sequence e < fromSequence then ev_Sequence e else fromSequence,
               if toSequence < ev_Sequence e then ev_Sequence e else toSequence))
            (ev_Sequence event, ev_Sequence event) events)"

section \<open>Saving a note\<close>

text \<open>The advisory lock orders the transactions that write a note key; between transactions that do not interleave it
  changes nothing, but taking it may fail.\<close>

definition lockNoteKey :: "note_env \<Rightarrow> string \<Rightarrow> string \<Rightarrow> unit tx" where
  "lockNoteKey E scopeID key = statement (ne_fault E) ''lock note key'' (scopeID @ [CHR 0x1F] @ key) (tx_return ())"

definition noteRow :: "team_note \<Rightarrow> note_row" where
  "noteRow n =
     \<lparr>tn_Key = nt_Key n, tn_Kind = nt_Kind n, tn_Subject = nt_Subject n, tn_Body = nt_Body n, tn_TaskRef = nt_TaskRef n,
      tn_ThreadRef = nt_ThreadRef n, tn_Origin = nt_Origin n,
      tn_AudienceAgentIDs = nonNilStrings (nt_AudienceAgentIDs n), tn_RelatedSubjects = nonNilStrings (nt_RelatedSubjects n),
      tn_State = nt_State n, tn_CurrentRevision = nt_Revision n, tn_SoftExpiresAt = pg_time (nt_SoftExpiresAt n),
      tn_HardExpiresAt = pg_time (nt_HardExpiresAt n), tn_CreatedAt = pg_time (nt_CreatedAt n),
      tn_UpdatedAt = pg_time (nt_UpdatedAt n), tn_ValidAt = map_option pg_time (nt_ValidAt n),
      tn_InvalidAt = map_option pg_time (nt_InvalidAt n), tn_SourceOccurredAt = Some (pg_time (nt_SourceOccurredAt n)),
      tn_Embedding = None, tn_EmbeddingModel = [], tn_EmbeddingRevision = None, tn_EmbeddingError = []\<rparr>"

definition validityBoundary :: "candidate \<Rightarrow> team_note \<Rightarrow> time" where
  "validityBoundary cand n =
     (case (cn_Action cand = ActionResolve, nt_InvalidAt n) of
        (True, Some t) \<Rightarrow> t
      | _ \<Rightarrow> (case nt_ValidAt n of Some t \<Rightarrow> t | None \<Rightarrow> nt_SourceOccurredAt n))"

definition revisionRow :: "candidate \<Rightarrow> team_note \<Rightarrow> revision_row" where
  "revisionRow cand n =
     \<lparr>rv_CandidateID = cn_ID cand, rv_Operation = cn_Action cand, rv_Body = nt_Body n,
      rv_RelatedSubjects = nonNilStrings (nt_RelatedSubjects n), rv_ValidAt = map_option pg_time (nt_ValidAt n),
      rv_InvalidAt = map_option pg_time (nt_InvalidAt n), rv_CreatedAt = pg_time (nt_UpdatedAt n), rv_ExpiredAt = None\<rparr>"

definition saveNote :: "note_env \<Rightarrow> string \<Rightarrow> candidate \<Rightarrow> team_note \<Rightarrow> unit tx" where
  "saveNote E scopeID cand n =
     tx_bind (statement (ne_fault E) ''save team note'' (nt_ID n) (upsertNoteRow scopeID (nt_ID n) (noteRow n)))
       (\<lambda>_. tx_bind (statement (ne_fault E) ''expire previous note revision'' (nt_ID n)
         (expireRevisionRows scopeID (nt_ID n) (pg_time (nt_UpdatedAt n)) (pg_time (validityBoundary cand n))))
       (\<lambda>_. statement (ne_fault E) ''save note revision'' (cn_ID cand)
         (insertRevisionRow scopeID (nt_ID n) (nt_Revision n) (revisionRow cand n))))"

fun saveEvidenceIDs :: "note_env \<Rightarrow> string \<Rightarrow> team_note \<Rightarrow> string list \<Rightarrow> unit tx" where
  "saveEvidenceIDs E scopeID n [] = tx_return ()"
| "saveEvidenceIDs E scopeID n (eventID # ids) =
     tx_bind (statement (ne_fault E) (''save note evidence '' @ quote eventID) (nt_ID n)
         (insertEvidenceRow scopeID (nt_ID n) (nt_Revision n) eventID))
       (\<lambda>_. saveEvidenceIDs E scopeID n ids)"

definition saveEvidence :: "note_env \<Rightarrow> string \<Rightarrow> team_note \<Rightarrow> unit tx" where
  "saveEvidence E scopeID n = saveEvidenceIDs E scopeID n (nt_EvidenceEventIDs n)"

section \<open>Applying an extraction run\<close>

definition applyRunCandidate :: "note_env \<Rightarrow> pg_note_store \<Rightarrow> string \<Rightarrow> extraction_run \<Rightarrow> nat \<Rightarrow> candidate \<Rightarrow> (bool \<times> team_note) tx" where
  "applyRunCandidate E st scopeID run i cand =
     tx_bind (insertCandidate E scopeID (run_ID run) cand)
       (\<lambda>inserted. if \<not> inserted then tx_bind (noteForCandidate E scopeID (cn_ID cand)) (\<lambda>n. tx_return (False, n)) else
        let noteKey = CanonicalKey cand in
        tx_bind (lockNoteKey E scopeID noteKey)
       (\<lambda>_. tx_bind (noteForUpdate E scopeID noteKey)
       (\<lambda>current. tx_bind (tx_lift (AdmitCandidateWithAuthority (ns_policy st) (ne_clock E i) cand (run_Evidence run) current
           (transitionAuthorityFor (run_TransitionAuthorities run) (cn_ID cand))))
       (\<lambda>n. tx_bind (saveNote E scopeID cand n)
       (\<lambda>_. tx_bind (saveEvidence E scopeID n)
       (\<lambda>_. tx_bind (statement (ne_fault E) ''mark candidate admitted'' (cn_ID cand)
           (updateCandidateRow scopeID (cn_ID cand) (\<lambda>r. r\<lparr>cr_AdmissionStatus := ''admitted''\<rparr>)))
       (\<lambda>_. tx_return (True, n))))))))"

text \<open>The loop over the candidates; \<open>i\<close> counts the readings of the clock.\<close>

fun applyRunCandidates ::
  "note_env \<Rightarrow> pg_note_store \<Rightarrow> string \<Rightarrow> extraction_run \<Rightarrow> nat \<Rightarrow> candidate list \<Rightarrow> team_note list \<Rightarrow> team_note list tx" where
  "applyRunCandidates E st scopeID run i [] ns = tx_return ns"
| "applyRunCandidates E st scopeID run i (original # rest) ns =
     tx_bind (applyRunCandidate E st scopeID run i (WithEvidenceTime original (run_Evidence run)))
       (\<lambda>(read, n). applyRunCandidates E st scopeID run (if read then Suc i else i) rest (ns @ [n]))"

definition applyExtractionRunTx :: "note_env \<Rightarrow> pg_note_store \<Rightarrow> string \<Rightarrow> extraction_run \<Rightarrow> team_note list tx" where
  "applyExtractionRunTx E st scopeID run =
     tx_bind (ensureExtractionRun E scopeID run)
       (\<lambda>inserted. if \<not> inserted then existingExtractionRunNotes E scopeID run else
        tx_bind (applyRunCandidates E st scopeID run 0 (run_Candidates run) [])
       (\<lambda>ns. tx_bind (insertRejected E scopeID (run_ID run) (map (\<lambda>r. (rj_Candidate r, rj_Reason r)) (run_Rejections run)))
       (\<lambda>_. tx_bind (tx_lift (case ne_encodeNotes E ns of Inl e \<Rightarrow> Inl (wrapf ''encode extraction run result: '' e) | Inr s \<Rightarrow> Inr s))
       (\<lambda>result. tx_bind (statement (ne_fault E) ''complete extraction run'' []
           (completeRunRow (ne_now E) scopeID (run_ID run) result))
       (\<lambda>_. tx_return ns)))))"

definition quarantineTx :: "note_env \<Rightarrow> string \<Rightarrow> extraction_run \<Rightarrow> go_error \<Rightarrow> unit tx" where
  "quarantineTx E scopeID run cause =
     tx_bind (statement (ne_fault E) ''insert quarantined extraction run'' []
         (insertRunRow scopeID (run_ID run) ((runRow E run ExtractionRunQuarantined)
           \<lparr>xr_Error := error_text cause, xr_CompletedAt := Some (pg_time (ne_now E))\<rparr>)))
       (\<lambda>affected. if affected = 1
        then insertRejected E scopeID (run_ID run) (map (\<lambda>c. (c, error_text cause)) (run_Candidates run))
        else tx_return ())"

definition quarantineExtractionRun :: "note_env \<Rightarrow> note_db \<Rightarrow> string \<Rightarrow> extraction_run \<Rightarrow> go_error \<Rightarrow> note_db \<times> unit res" where
  "quarantineExtractionRun E db scopeID run cause =
     transaction (ne_fault E) ''begin quarantine extraction run'' ''rollback quarantine extraction run''
       ''commit quarantined extraction run'' (quarantineTx E scopeID run cause) db"

text \<open>A statement outside a transaction is its own transaction.\<close>

definition execute :: "note_db \<Rightarrow> unit tx \<Rightarrow> note_db \<times> unit res" where
  "execute db sql = (case sql db of Inl e \<Rightarrow> (db, Inl e) | Inr (db', _) \<Rightarrow> (db', Inr ()))"

section \<open>Embeddings\<close>

definition embeddingDocument :: "team_note \<Rightarrow> string" where
  "embeddingDocument n =
     ''Kind: '' @ nt_Kind n @ [CHR 0x0A] @ ''Subject: '' @ nt_Subject n @ [CHR 0x0A] @ ''Body: '' @ nt_Body n"

definition formatVector :: "note_env \<Rightarrow> vector \<Rightarrow> string" where
  "formatVector E v = ''['' @ join '','' (map (ne_formatFloat E) v) @ '']''"

definition updateNoteRow :: "string \<Rightarrow> string \<Rightarrow> int option \<Rightarrow> (note_row \<Rightarrow> note_row) \<Rightarrow> unit tx" where
  "updateNoteRow scopeID noteID revision f db =
     (if (case revision of Some r \<Rightarrow> \<not> fits_int4 r | None \<Rightarrow> False) then Inl numericOutOfRange
      else
      case mget (nd_notes db) (scopeID, noteID) of
        None \<Rightarrow> Inr (db, ())
      | Some row \<Rightarrow>
          if revision = None \<or> revision = Some (tn_CurrentRevision row)
          then Inr (db\<lparr>nd_notes := mput (scopeID, noteID) (f row) (nd_notes db)\<rparr>, ()) else Inr (db, ()))"

definition recordEmbeddingError :: "note_env \<Rightarrow> pg_note_store \<Rightarrow> note_db \<Rightarrow> string \<Rightarrow> team_note \<Rightarrow> go_error \<Rightarrow> note_db \<times> unit res" where
  "recordEmbeddingError E st db scopeID n embeddingErr =
     execute db (statement (ne_fault E) ''record note embedding failure'' (nt_ID n)
       (updateNoteRow scopeID (nt_ID n) (Some (nt_Revision n))
         (\<lambda>row. row\<lparr>tn_Embedding := None, tn_EmbeddingModel := rc_EmbeddingModel (ns_retrieval st), tn_EmbeddingRevision := None,
            tn_EmbeddingError := take 1000 (error_text embeddingErr)\<rparr>)))"

definition saveEmbedding :: "note_env \<Rightarrow> pg_note_store \<Rightarrow> note_db \<Rightarrow> string \<Rightarrow> team_note \<Rightarrow> vector \<Rightarrow> note_db \<times> unit res" where
  "saveEmbedding E st db scopeID n v =
     execute db (statement (ne_fault E) ''save note embedding'' (nt_ID n)
       (updateNoteRow scopeID (nt_ID n) (Some (nt_Revision n))
         (\<lambda>row. row\<lparr>tn_Embedding := Some (formatVector E v), tn_EmbeddingModel := rc_EmbeddingModel (ns_retrieval st),
            tn_EmbeddingRevision := Some (nt_Revision n), tn_EmbeddingError := []\<rparr>)))"

definition unexpectedDimensions :: go_error where
  "unexpectedDimensions = ErrorNew ''unexpected embedding dimensions''"

definition refreshEmbedding :: "note_env \<Rightarrow> pg_note_store \<Rightarrow> note_db \<Rightarrow> string \<Rightarrow> team_note \<Rightarrow> note_db \<times> unit res" where
  "refreshEmbedding E st db scopeID n =
     (case rc_Embedder (ns_retrieval st) of
        None \<Rightarrow> (db, Inr ())
      | Some embedAll \<Rightarrow>
          if nt_State n \<noteq> StateActive
          then execute db (statement (ne_fault E) ''clear resolved note embedding'' (nt_ID n)
                 (updateNoteRow scopeID (nt_ID n) None
                   (\<lambda>row. row\<lparr>tn_Embedding := None, tn_EmbeddingRevision := None, tn_EmbeddingError := []\<rparr>)))
          else
          (case embedAll [embeddingDocument n] of
             Inl e \<Rightarrow> recordEmbeddingError E st db scopeID n e
           | Inr [v] \<Rightarrow>
               if int (length v) \<noteq> rc_EmbeddingDimensions (ns_retrieval st)
               then recordEmbeddingError E st db scopeID n unexpectedDimensions
               else saveEmbedding E st db scopeID n v
           | Inr _ \<Rightarrow> recordEmbeddingError E st db scopeID n unexpectedDimensions))"

fun refreshEmbeddings :: "note_env \<Rightarrow> pg_note_store \<Rightarrow> string \<Rightarrow> team_note list \<Rightarrow> note_db \<Rightarrow> note_db \<times> unit res" where
  "refreshEmbeddings E st scopeID [] db = (db, Inr ())"
| "refreshEmbeddings E st scopeID (n # ns) db =
     (case refreshEmbedding E st db scopeID n of
        (db', Inl e) \<Rightarrow> (db', Inl e)
      | (db', Inr _) \<Rightarrow> refreshEmbeddings E st scopeID ns db')"

record embedding_target =
  et_ScopeID :: string
  et_Note :: team_note

text \<open>\<open>embedding_revision != current_revision\<close> is unknown, and so does not hold, when the column is \<open>NULL\<close>.\<close>

definition embeddingStale :: "string \<Rightarrow> note_row \<Rightarrow> bool" where
  "embeddingStale model row \<longleftrightarrow>
     (case tn_EmbeddingRevision row of None \<Rightarrow> False | Some r \<Rightarrow> r \<noteq> tn_CurrentRevision row) \<or> tn_EmbeddingModel row \<noteq> model"

definition embeddingTargets :: "note_env \<Rightarrow> pg_note_store \<Rightarrow> int \<Rightarrow> time \<Rightarrow> embedding_target list tx" where
  "embeddingTargets E st limit now =
     tx_bind (statement (ne_fault E) ''query note embedding backfill'' []
       (\<lambda>db. Inr (db, take (nat limit)
          (sort_by (\<lambda>((s, n), _) ((s', n'), _). ne_collation E s s' \<or> s = s' \<and> ne_collation E n n')
            (filter (\<lambda>(_, r). tn_State r = StateActive \<and> tn_InvalidAt r = None \<and> pg_time now < tn_SoftExpiresAt r \<and>
               pg_time now < tn_HardExpiresAt r \<and>
               (tn_Embedding r = None \<or> embeddingStale (rc_EmbeddingModel (ns_retrieval st)) r)) (nd_notes db))))))
       (\<lambda>rows. tx_bind (statement (ne_fault E) ''scan note embedding backfill'' [] (tx_return ()))
       (\<lambda>_. tx_return (map (\<lambda>((scopeID, noteID), r). \<lparr>et_ScopeID = scopeID,
          et_Note = zeroNote\<lparr>nt_ID := noteID, nt_Kind := tn_Kind r, nt_Subject := tn_Subject r, nt_Body := tn_Body r,
            nt_Revision := tn_CurrentRevision r\<rparr>\<rparr>) rows)))"

fun recordTargetEmbeddingErrors ::
  "note_env \<Rightarrow> pg_note_store \<Rightarrow> embedding_target list \<Rightarrow> go_error \<Rightarrow> note_db \<Rightarrow> note_db \<times> unit res" where
  "recordTargetEmbeddingErrors E st [] err db = (db, Inr ())"
| "recordTargetEmbeddingErrors E st (t # ts) err db =
     (case recordEmbeddingError E st db (et_ScopeID t) (et_Note t) err of
        (db', Inl e) \<Rightarrow> (db', Inl e)
      | (db', Inr _) \<Rightarrow> recordTargetEmbeddingErrors E st ts err db')"

fun saveTargetEmbeddings ::
  "note_env \<Rightarrow> pg_note_store \<Rightarrow> (embedding_target \<times> vector) list \<Rightarrow> int \<Rightarrow> note_db \<Rightarrow> note_db \<times> int \<times> go_error option" where
  "saveTargetEmbeddings E st [] completed db = (db, completed, None)"
| "saveTargetEmbeddings E st ((t, v) # rest) completed db =
     (if int (length v) \<noteq> rc_EmbeddingDimensions (ns_retrieval st) then
        (case recordEmbeddingError E st db (et_ScopeID t) (et_Note t) unexpectedDimensions of
           (db', Inl e) \<Rightarrow> (db', completed, Some e)
         | (db', Inr _) \<Rightarrow> saveTargetEmbeddings E st rest completed db')
      else
        (case saveEmbedding E st db (et_ScopeID t) (et_Note t) v of
           (db', Inl e) \<Rightarrow> (db', completed, Some e)
         | (db', Inr _) \<Rightarrow> saveTargetEmbeddings E st rest (completed + 1) db'))"

definition recorded :: "note_db \<times> unit res \<Rightarrow> note_db \<times> int \<times> go_error option" where
  "recorded out = (case out of (db, Inl e) \<Rightarrow> (db, 0, Some e) | (db, Inr _) \<Rightarrow> (db, 0, None))"

definition backfillEmbeddingTargets ::
  "note_env \<Rightarrow> pg_note_store \<Rightarrow> embedder \<Rightarrow> embedding_target list \<Rightarrow> note_db \<Rightarrow> note_db \<times> int \<times> go_error option" where
  "backfillEmbeddingTargets E st embedAll targets db =
     (case embedAll (map (\<lambda>t. embeddingDocument (et_Note t)) targets) of
        Inl e \<Rightarrow> recorded (recordTargetEmbeddingErrors E st targets e db)
      | Inr vectors \<Rightarrow>
          if length vectors \<noteq> length targets
          then recorded (recordTargetEmbeddingErrors E st targets (ErrorNew (''received '' @ show_nat (length vectors) @
                 '' vectors for '' @ show_nat (length targets) @ '' notes'')) db)
          else saveTargetEmbeddings E st (zip targets vectors) 0 db)"

definition BackfillEmbeddings :: "note_env \<Rightarrow> pg_note_store \<Rightarrow> note_db \<Rightarrow> int \<Rightarrow> note_db \<times> int \<times> go_error option" where
  "BackfillEmbeddings E st db batchSize =
     (case rc_Embedder (ns_retrieval st) of
        None \<Rightarrow> (db, 0, None)
      | Some embedAll \<Rightarrow>
          if batchSize \<le> 0 then (db, 0, Some (ErrorNew ''backfill note embeddings: positive batch size is required''))
          else
          (case embeddingTargets E st batchSize (ne_clock E 0) db of
             Inl e \<Rightarrow> (db, 0, Some e)
           | Inr (_, targets) \<Rightarrow>
               if targets = [] then (db, 0, None) else backfillEmbeddingTargets E st embedAll targets db))"

section \<open>The operations that apply\<close>

definition pgApplyExtractionRun ::
  "note_env \<Rightarrow> pg_note_store \<Rightarrow> note_db \<Rightarrow> string \<Rightarrow> extraction_run \<Rightarrow> note_db \<times> team_note list res" where
  "pgApplyExtractionRun E st db scopeID run0 =
     (case PrepareExtractionRun (ne_marshal E) run0 of
        Inl e \<Rightarrow> (db, Inl e)
      | Inr run \<Rightarrow>
      case ValidateDurableExtractionRun scopeID run of
        Inl e \<Rightarrow> (db, Inl (wrapf ''apply postgres extraction run: '' e))
      | Inr _ \<Rightarrow>
      case step (ne_fault E) ''begin apply extraction run'' of
        Inl e \<Rightarrow> (db, Inl e)
      | Inr _ \<Rightarrow>
      case applyExtractionRunTx E st scopeID run db of
        Inl err \<Rightarrow>
          if \<not> ShouldQuarantineExtractionRun err then (db, Inl (abort (ne_fault E) ''rollback apply extraction run'' err))
          else
          (case step (ne_fault E) ''rollback apply extraction run'' of
             Inl e \<Rightarrow> (db, Inl (Join err e))
           | Inr _ \<Rightarrow>
               (case quarantineExtractionRun E db scopeID run err of
                  (db', Inl e) \<Rightarrow> (db', Inl (Join err (wrapf ''quarantine extraction run: '' e)))
                | (db', Inr _) \<Rightarrow> (db', Inl (wrapf (''quarantine extraction run '' @ quote (run_ID run) @ '': '')
                    (Join ErrExtractionRunQuarantined err)))))
      | Inr (db', ns) \<Rightarrow>
          (case step (ne_fault E) ''commit extraction run'' of
             Inl e \<Rightarrow> (db, Inl (abort (ne_fault E) ''rollback apply extraction run'' e))
           | Inr _ \<Rightarrow>
               (case refreshEmbeddings E st scopeID ns db' of
                  (db'', Inl e) \<Rightarrow> (db'', Inl e)
                | (db'', Inr _) \<Rightarrow> (db'', Inr ns))))"

definition pgApplyCandidate ::
  "note_env \<Rightarrow> pg_note_store \<Rightarrow> note_db \<Rightarrow> string \<Rightarrow> string \<Rightarrow> candidate \<Rightarrow> session_event list \<Rightarrow> note_db \<times> team_note res" where
  "pgApplyCandidate E st db scopeID runID cand evidence =
     (let (fromSequence, toSequence) = evidenceRange evidence;
          run = (candidateRun cand evidence)\<lparr>run_ID := runID, run_Actor := cn_Origin cand, run_FromSequence := fromSequence,
            run_ToSequence := toSequence, run_InputChecksum := runID\<rparr>
      in case pgApplyExtractionRun E st db scopeID run of
           (db', Inl e) \<Rightarrow> (db', Inl e)
         | (db', Inr [n]) \<Rightarrow> (db', Inr n)
         | (db', Inr _) \<Rightarrow> (db', Inl (ErrorNew ''apply postgres candidate: expected one admitted note'')))"

end
