(* ===== verification/Recall_Router.thy ===== *)
theory Recall_Router
  imports Note_Envelope
begin

text \<open>
  The recall router (\<open>internal/recall\<close>): one search boundary over the team note path and the wiki path.
  Both paths are interfaces, so they are parameters of the router.  A passive search with wiki hints runs
  both paths in goroutines and selects over their channels and the context; it is a step relation on the
  contents of the channels and the program point of the caller.  The router only copies scores.
\<close>

section \<open>Data\<close>

definition IntentPassive :: string where "IntentPassive = ''passive''"
definition IntentActive :: string where "IntentActive = ''active''"
definition SourceLLMWiki :: string where "SourceLLMWiki = ''llm_wiki''"
definition DispositionEvidence :: string where "DispositionEvidence = ''evidence''"
definition DispositionHint :: string where "DispositionHint = ''hint''"
definition DispositionReference :: string where "DispositionReference = ''reference''"

record search_request =
  sq_Intent :: string
  sq_Source :: string
  sq_Actor :: actor
  sq_TaskRef :: string
  sq_ThreadRef :: string
  sq_Query :: string
  sq_TokenBudget :: int
  sq_MaxItems :: int

record get_request =
  gr_Actor :: actor
  gr_Ref :: string

record memory_hit =
  mh_Ref :: string
  mh_Text :: string
  mh_Score :: float64
  mh_Tokens :: int
  mh_Disposition :: string
  mh_Metadata :: "(string, string) gomap"

record memory_document =
  md_Ref :: string
  md_Text :: string
  md_Tokens :: int
  md_Provenance :: "(string, string) gomap"

definition PathSkipped :: string where "PathSkipped = ''skipped''"
definition PathCompleted :: string where "PathCompleted = ''completed''"
definition PathCancelled :: string where "PathCancelled = ''cancelled''"
definition PathFailed :: string where "PathFailed = ''failed''"
definition PathTimedOut :: string where "PathTimedOut = ''timed_out''"

record path_trace =
  pt_Status :: string
  pt_DurationMS :: int
  pt_Candidates :: int
  pt_BudgetDrops :: int
  pt_Error :: string
  pt_Reason :: string
  pt_ReasonCodes :: "string list"

record recall_trace =
  tr_EarlyReturn :: bool
  tr_TeamNote :: path_trace
  tr_WikiHint :: path_trace
  tr_WikiSearch :: path_trace

record search_result =
  rs_Hits :: "memory_hit list"
  rs_EvidenceSufficient :: bool
  rs_Trace :: recall_trace
  rs_ObservationID :: int

definition zeroTrace :: path_trace where
  "zeroTrace = \<lparr>pt_Status = [], pt_DurationMS = 0, pt_Candidates = 0, pt_BudgetDrops = 0, pt_Error = [],
     pt_Reason = [], pt_ReasonCodes = []\<rparr>"

definition emptyTrace :: recall_trace where
  "emptyTrace = \<lparr>tr_EarlyReturn = False, tr_TeamNote = zeroTrace, tr_WikiHint = zeroTrace, tr_WikiSearch = zeroTrace\<rparr>"

definition emptyResult :: search_result where
  "emptyResult = \<lparr>rs_Hits = [], rs_EvidenceSufficient = False, rs_Trace = emptyTrace, rs_ObservationID = 0\<rparr>"

text \<open>The paths: what a call returns under a context.  Go returns a value beside an error, and the router
  looks at both.\<close>

record wiki_path =
  wp_Hint :: "go_context \<Rightarrow> search_request \<Rightarrow> memory_hit \<times> go_error option"
  wp_Search :: "go_context \<Rightarrow> search_request \<Rightarrow> memory_hit list \<times> go_error option"
  wp_Get :: "go_context \<Rightarrow> get_request \<Rightarrow> memory_document res"

type_synonym team_note_path = "go_context \<Rightarrow> recall_request \<Rightarrow> note_envelope \<times> go_error option"

record router =
  ro_teamNote :: team_note_path
  ro_wiki :: "wiki_path option"
  ro_EnablePassiveWikiHint :: bool

definition NewRouter :: "team_note_path option \<Rightarrow> wiki_path option \<Rightarrow> bool \<Rightarrow> router res" where
  "NewRouter teamNote wiki enableHint =
     (case teamNote of
        None \<Rightarrow> Inl (ErrorNew ''create recall router: team note path is required'')
      | Some team \<Rightarrow>
          if enableHint \<and> wiki = None
          then Inl (ErrorNew ''create recall router: enabled wiki hint path is required'')
          else Inr \<lparr>ro_teamNote = team, ro_wiki = wiki, ro_EnablePassiveWikiHint = enableHint\<rparr>)"

section \<open>Traces\<close>

definition Milliseconds :: "int \<Rightarrow> int" where
  "Milliseconds d = (if d < 0 then - ((- d) div 1000000) else d div 1000000)"

definition routerTokens :: "string \<Rightarrow> int" where
  "routerTokens text = (if text = [] then 0 else (int (rune_count text) + 3) div 4)"

definition pathFailure :: "go_error option \<Rightarrow> go_error \<Rightarrow> string \<times> string" where
  "pathFailure ctxErr e =
     (if errors_is e context_Canceled then (PathCancelled, error_text e)
      else if errors_is e context_DeadlineExceeded \<or>
              (case ctxErr of None \<Rightarrow> False | Some c \<Rightarrow> errors_is c context_DeadlineExceeded)
      then (PathTimedOut, error_text e)
      else (PathFailed, error_text e))"

definition skipped :: "string \<Rightarrow> path_trace" where
  "skipped reason = zeroTrace\<lparr>pt_Status := PathSkipped, pt_Reason := reason\<rparr>"

definition cancelled :: "string \<Rightarrow> path_trace" where
  "cancelled reason = zeroTrace\<lparr>pt_Status := PathCancelled, pt_Reason := reason\<rparr>"

definition timedOut :: "go_error \<Rightarrow> path_trace" where
  "timedOut e = zeroTrace\<lparr>pt_Status := PathTimedOut, pt_Error := error_text e\<rparr>"

section \<open>Validation, documents and active search\<close>

definition validateSearch :: "search_request \<Rightarrow> unit res" where
  "validateSearch request =
     (if sq_Intent request \<noteq> IntentPassive \<and> sq_Intent request \<noteq> IntentActive
      then Inl (ErrorNew (''search memory: unsupported intent '' @ quote (sq_Intent request)))
      else if blank (sq_Query request) \<or> sq_TokenBudget request \<le> 0
      then Inl (ErrorNew ''search memory: query and positive token budget are required'')
      else if sq_MaxItems request < 0
      then Inl (ErrorNew ''search memory: max items must not be negative'')
      else if sq_Intent request = IntentActive \<and> sq_Source request \<noteq> SourceLLMWiki
      then Inl (ErrorNew ''search memory: active search requires llm_wiki source'')
      else Inr ())"

definition GetDocument :: "router \<Rightarrow> go_context \<Rightarrow> get_request \<Rightarrow> memory_document res" where
  "GetDocument R ctx request =
     (if blank (gr_Ref request) then Inl (ErrorNew ''get memory document: ref is required'')
      else case ro_wiki R of
        None \<Rightarrow> Inl (ErrorNew ''get memory document: wiki path is unavailable'')
      | Some wiki \<Rightarrow>
          (case wp_Get wiki ctx request of
             Inl e \<Rightarrow> Inl (wrapf ''get wiki document: '' e)
           | Inr document \<Rightarrow> Inr document))"

definition searchWiki ::
  "router \<Rightarrow> go_context \<Rightarrow> search_request \<Rightarrow> int \<Rightarrow> search_result \<times> go_error option" where
  "searchWiki R ctx request duration =
     (case ro_wiki R of
        None \<Rightarrow> (emptyResult, Some (ErrorNew ''search memory: wiki path is unavailable''))
      | Some wiki \<Rightarrow>
          (let (hits, err) = wp_Search wiki ctx request;
               trace = zeroTrace\<lparr>pt_DurationMS := Milliseconds duration, pt_Candidates := int (length hits)\<rparr>;
               traced = (\<lambda>t. \<lparr>tr_EarlyReturn = False, tr_TeamNote = skipped ''active_wiki_search'',
                  tr_WikiHint = skipped ''active_wiki_search'', tr_WikiSearch = t\<rparr>) in
           case err of
             Some e \<Rightarrow>
               (let (status, text) = pathFailure (ctx_err ctx) e in
                (emptyResult\<lparr>rs_Trace := traced (trace\<lparr>pt_Status := status, pt_Error := text\<rparr>)\<rparr>,
                 Some (wrapf ''search wiki memory: '' e)))
           | None \<Rightarrow>
               (emptyResult\<lparr>rs_Hits := map (\<lambda>h. h\<lparr>mh_Disposition := DispositionReference\<rparr>) hits,
                  rs_Trace := traced (trace\<lparr>pt_Status := PathCompleted\<rparr>)\<rparr>, None)))"

section \<open>Outcomes of the paths\<close>

record team_outcome =
  to_envelope :: note_envelope
  to_err :: "go_error option"
  to_duration :: int

record hint_outcome =
  ho_hit :: memory_hit
  ho_err :: "go_error option"
  ho_duration :: int

definition teamNoteRequest :: "search_request \<Rightarrow> recall_request" where
  "teamNoteRequest request =
     \<lparr>rq_Actor = sq_Actor request, rq_TaskRef = sq_TaskRef request, rq_ThreadRef = sq_ThreadRef request,
      rq_TokenBudget = sq_TokenBudget request, rq_Query = sq_Query request, rq_MaxItems = sq_MaxItems request\<rparr>"

definition runTeamNote :: "router \<Rightarrow> go_context \<Rightarrow> search_request \<Rightarrow> int \<Rightarrow> team_outcome" where
  "runTeamNote R ctx request duration =
     (let (envelope, err) = ro_teamNote R ctx (teamNoteRequest request) in
      \<lparr>to_envelope = envelope, to_err = err, to_duration = duration\<rparr>)"

definition runWikiHint :: "wiki_path \<Rightarrow> go_context \<Rightarrow> search_request \<Rightarrow> int \<Rightarrow> hint_outcome" where
  "runWikiHint wiki ctx request duration =
     (let (hit, err) = wp_Hint wiki ctx request in \<lparr>ho_hit = hit, ho_err = err, ho_duration = duration\<rparr>)"

definition detailHit :: "int \<Rightarrow> recalled_note \<Rightarrow> memory_hit" where
  "detailHit tokens d =
     \<lparr>mh_Ref = rn_NoteID d, mh_Text = rn_Text d, mh_Score = rn_Relevance d, mh_Tokens = tokens,
      mh_Disposition = DispositionEvidence, mh_Metadata = [(''revision'', show_int (rn_Revision d))]\<rparr>"

definition itemHit :: "int \<Rightarrow> string \<Rightarrow> memory_hit" where
  "itemHit tokens item =
     \<lparr>mh_Ref = [], mh_Text = item, mh_Score = 0, mh_Tokens = tokens, mh_Disposition = DispositionEvidence,
      mh_Metadata = []\<rparr>"

text \<open>The loops of \<open>teamResult\<close>: the first hit carries the tokens of the whole envelope.\<close>

fun withTokens :: "(int \<Rightarrow> 'a \<Rightarrow> memory_hit) \<Rightarrow> int \<Rightarrow> 'a list \<Rightarrow> memory_hit list" where
  "withTokens hit tokens [] = []"
| "withTokens hit tokens (x # xs) = hit tokens x # map (hit 0) xs"

definition teamHits :: "note_envelope \<Rightarrow> memory_hit list" where
  "teamHits en =
     (let hits = withTokens detailHit (en_Tokens en) (en_Details en) in
      if hits = [] then withTokens itemHit (en_Tokens en) (en_Items en) else hits)"

definition teamResult :: "team_outcome \<Rightarrow> search_result" where
  "teamResult outcome =
     (let en = to_envelope outcome;
          trace = zeroTrace\<lparr>pt_DurationMS := Milliseconds (to_duration outcome),
            pt_Candidates := int (length (en_Details en)), pt_ReasonCodes := dc_ReasonCodes (en_Decision en)\<rparr>;
          trace' = (case to_err outcome of
             Some e \<Rightarrow> (let (status, text) = pathFailure None e in trace\<lparr>pt_Status := status, pt_Error := text\<rparr>)
           | None \<Rightarrow> trace\<lparr>pt_Status := PathCompleted\<rparr>) in
      \<lparr>rs_Hits = teamHits en, rs_EvidenceSufficient = dc_EvidenceSufficient (en_Decision en),
       rs_Trace = emptyTrace\<lparr>tr_TeamNote := trace'\<rparr>, rs_ObservationID = en_ObservationID en\<rparr>)"

definition setHint :: "path_trace \<Rightarrow> search_result \<Rightarrow> search_result" where
  "setHint t res = res\<lparr>rs_Trace := (rs_Trace res)\<lparr>tr_WikiHint := t\<rparr>\<rparr>"

definition setSearch :: "path_trace \<Rightarrow> search_result \<Rightarrow> search_result" where
  "setSearch t res = res\<lparr>rs_Trace := (rs_Trace res)\<lparr>tr_WikiSearch := t\<rparr>\<rparr>"

definition usedTokens :: "memory_hit list \<Rightarrow> int" where
  "usedTokens hits = sum_list (map mh_Tokens hits)"

definition composeHint :: "search_result \<Rightarrow> hint_outcome \<Rightarrow> int \<Rightarrow> search_result" where
  "composeHint res outcome tokenBudget =
     (let trace = zeroTrace\<lparr>pt_DurationMS := Milliseconds (ho_duration outcome)\<rparr> in
      case ho_err outcome of
        Some e \<Rightarrow>
          (let (status, text) = pathFailure None e in setHint (trace\<lparr>pt_Status := status, pt_Error := text\<rparr>) res)
      | None \<Rightarrow>
          let completed = trace\<lparr>pt_Status := PathCompleted\<rparr>; hit = ho_hit outcome in
          if blank (mh_Text hit) then setHint (completed\<lparr>pt_Reason := ''empty_hint''\<rparr>) res
          else
            let hit' = hit\<lparr>mh_Disposition := DispositionHint,
                  mh_Tokens := (if mh_Tokens hit \<le> 0 then routerTokens (mh_Text hit) else mh_Tokens hit)\<rparr> in
            if usedTokens (rs_Hits res) + mh_Tokens hit' > tokenBudget
            then setHint (completed\<lparr>pt_BudgetDrops := 1, pt_Reason := ''shared_token_budget''\<rparr>) res
            else setHint (completed\<lparr>pt_Candidates := 1\<rparr>) (res\<lparr>rs_Hits := rs_Hits res @ [hit']\<rparr>))"

definition completedHintTrace :: "hint_outcome \<Rightarrow> string \<Rightarrow> path_trace" where
  "completedHintTrace outcome reason =
     (let trace = zeroTrace\<lparr>pt_DurationMS := Milliseconds (ho_duration outcome), pt_Reason := reason\<rparr> in
      case ho_err outcome of
        Some e \<Rightarrow> (let (status, text) = pathFailure None e in trace\<lparr>pt_Status := status, pt_Error := text\<rparr>)
      | None \<Rightarrow>
          trace\<lparr>pt_Status := PathCompleted,
                pt_Candidates := (if \<not> blank (mh_Text (ho_hit outcome)) then 1 else 0)\<rparr>)"

definition searchTeamNoteOnly ::
  "router \<Rightarrow> go_context \<Rightarrow> search_request \<Rightarrow> int \<Rightarrow> search_result \<times> go_error option" where
  "searchTeamNoteOnly R ctx request duration =
     (let outcome = runTeamNote R ctx request duration;
          res = setSearch (skipped ''passive_search'') (setHint (skipped ''disabled'') (teamResult outcome)) in
      case to_err outcome of
        Some e \<Rightarrow> (res, Some (wrapf ''search team note memory: '' e))
      | None \<Rightarrow> (res, None))"

section \<open>Passive search\<close>

text \<open>Where the caller is: in the first select, with the hint it has received (then that channel is nil);
  in the select of \<open>finishPassive\<close>, with the result so far; or back with a result.\<close>

datatype passive_pc =
    Selecting "hint_outcome option"
  | Awaiting search_result
  | Finished search_result "go_error option"

text \<open>The buffers of the two channels, whether their goroutines have sent, and \<open>ctx.Err()\<close>.\<close>

record passive_conf =
  pa_teamResults :: "team_outcome option"
  pa_hintResults :: "hint_outcome option"
  pa_teamSent :: bool
  pa_hintSent :: bool
  pa_done :: "go_error option"
  pa_pc :: passive_pc

definition passiveStart :: passive_conf where
  "passiveStart = \<lparr>pa_teamResults = None, pa_hintResults = None, pa_teamSent = False, pa_hintSent = False,
     pa_done = None, pa_pc = Selecting None\<rparr>"

definition finishPassive :: "search_request \<Rightarrow> team_outcome \<Rightarrow> hint_outcome option \<Rightarrow> passive_pc" where
  "finishPassive request team hint =
     (let res = setSearch (skipped ''passive_search'') (teamResult team) in
      case to_err team of
        Some e \<Rightarrow>
          Finished (setHint (cancelled ''team_note_failed'') res) (Some (wrapf ''search team note memory: '' e))
      | None \<Rightarrow>
          if dc_EvidenceSufficient (en_Decision (to_envelope team))
          then Finished
            (setHint (case hint of
                 None \<Rightarrow> cancelled ''sufficient_team_note_evidence''
               | Some h \<Rightarrow> completedHintTrace h ''discarded_sufficient_team_note_evidence'')
               (res\<lparr>rs_Trace := (rs_Trace res)\<lparr>tr_EarlyReturn := True\<rparr>\<rparr>)) None
          else case hint of
            None \<Rightarrow> Awaiting res
          | Some h \<Rightarrow> Finished (composeHint res h (sq_TokenBudget request)) None)"

text \<open>The branch of the first select for a context that is done; \<open>hint\<close> is what the caller or the channel holds.\<close>

definition passiveDone :: "search_request \<Rightarrow> go_error \<Rightarrow> hint_outcome option \<Rightarrow> passive_pc" where
  "passiveDone request e hint =
     (let res = emptyResult\<lparr>rs_Trace := \<lparr>tr_EarlyReturn = False, tr_TeamNote = timedOut e, tr_WikiHint = timedOut e,
            tr_WikiSearch = skipped ''passive_search''\<rparr>\<rparr>;
          failed = Some (wrapf ''search passive memory: '' e) in
      case hint of
        None \<Rightarrow> Finished res failed
      | Some h \<Rightarrow>
          let res' = composeHint res h (sq_TokenBudget request) in
          if rs_Hits res' \<noteq> [] then Finished res' None else Finished res' failed)"

inductive passive_step :: "router \<Rightarrow> search_request \<Rightarrow> passive_conf \<Rightarrow> passive_conf \<Rightarrow> bool" for R request where
  team_sends: "\<not> pa_teamSent c \<Longrightarrow>
     passive_step R request c (c\<lparr>pa_teamSent := True, pa_teamResults := Some (runTeamNote R ctx request d)\<rparr>)"
| hint_sends: "\<not> pa_hintSent c \<Longrightarrow> ro_wiki R = Some wiki \<Longrightarrow>
     passive_step R request c (c\<lparr>pa_hintSent := True, pa_hintResults := Some (runWikiHint wiki ctx request d)\<rparr>)"
| expires: "pa_done c = None \<Longrightarrow> e \<in> {context_Canceled, context_DeadlineExceeded} \<Longrightarrow>
     passive_step R request c (c\<lparr>pa_done := Some e\<rparr>)"
| select_hint: "pa_pc c = Selecting None \<Longrightarrow> pa_hintResults c = Some h \<Longrightarrow>
     passive_step R request c (c\<lparr>pa_hintResults := None, pa_pc := Selecting (Some h)\<rparr>)"
| select_team: "pa_pc c = Selecting hint \<Longrightarrow> pa_teamResults c = Some team \<Longrightarrow>
     passive_step R request c (c\<lparr>pa_teamResults := None, pa_pc := finishPassive request team hint\<rparr>)"
| select_done: "pa_pc c = Selecting hint \<Longrightarrow> pa_done c = Some e \<Longrightarrow>
     passive_step R request c
       (c\<lparr>pa_pc := passiveDone request e (case hint of None \<Rightarrow> pa_hintResults c | Some h \<Rightarrow> Some h)\<rparr>)"
| await_hint: "pa_pc c = Awaiting res \<Longrightarrow> pa_hintResults c = Some h \<Longrightarrow>
     passive_step R request c
       (c\<lparr>pa_hintResults := None, pa_pc := Finished (composeHint res h (sq_TokenBudget request)) None\<rparr>)"
| await_done: "pa_pc c = Awaiting res \<Longrightarrow> pa_done c = Some e \<Longrightarrow>
     passive_step R request c (c\<lparr>pa_pc := Finished (setHint (timedOut e) res) None\<rparr>)"

text \<open>What \<open>Search\<close> may return; the duration of a path and the schedule of the goroutines are not determined.\<close>

inductive Searches :: "router \<Rightarrow> go_context \<Rightarrow> search_request \<Rightarrow> search_result \<times> go_error option \<Rightarrow> bool" for R ctx request where
  invalid: "validateSearch request = Inl e \<Longrightarrow> Searches R ctx request (emptyResult, Some e)"
| active: "validateSearch request = Inr () \<Longrightarrow> sq_Intent request = IntentActive \<Longrightarrow>
     Searches R ctx request (searchWiki R ctx request d)"
| passive_team: "validateSearch request = Inr () \<Longrightarrow> sq_Intent request \<noteq> IntentActive \<Longrightarrow> \<not> ro_EnablePassiveWikiHint R \<Longrightarrow>
     Searches R ctx request (searchTeamNoteOnly R ctx request d)"
| passive_hint: "validateSearch request = Inr () \<Longrightarrow> sq_Intent request \<noteq> IntentActive \<Longrightarrow> ro_EnablePassiveWikiHint R \<Longrightarrow>
     (passive_step R request)\<^sup>*\<^sup>* passiveStart c \<Longrightarrow> pa_pc c = Finished res err \<Longrightarrow> Searches R ctx request (res, err)"

section \<open>What a passive search returns\<close>

lemma setHint_fields [simp]:
  "rs_Hits (setHint t res) = rs_Hits res" "rs_EvidenceSufficient (setHint t res) = rs_EvidenceSufficient res"
  by (simp_all add: setHint_def)

lemma setSearch_fields [simp]:
  "rs_Hits (setSearch t res) = rs_Hits res" "rs_EvidenceSufficient (setSearch t res) = rs_EvidenceSufficient res"
  by (simp_all add: setSearch_def)

abbreviation sufficient :: "team_outcome \<Rightarrow> bool" where
  "sufficient team \<equiv> dc_EvidenceSufficient (en_Decision (to_envelope team))"

lemma teamResult_fields [simp]:
  "rs_Hits (teamResult team) = teamHits (to_envelope team)" "rs_EvidenceSufficient (teamResult team) = sufficient team"
  by (simp_all add: teamResult_def Let_def)

lemma composeHint_sufficient [simp]: "rs_EvidenceSufficient (composeHint res h b) = rs_EvidenceSufficient res"
  by (simp add: composeHint_def Let_def split: option.split prod.split)

text \<open>A hint that may be delivered beside \<open>hits\<close>.\<close>

definition hintFits :: "search_request \<Rightarrow> memory_hit list \<Rightarrow> memory_hit \<Rightarrow> bool" where
  "hintFits request hits hit \<longleftrightarrow>
     mh_Disposition hit = DispositionHint \<and> \<not> blank (mh_Text hit) \<and>
     usedTokens hits + mh_Tokens hit \<le> sq_TokenBudget request"

lemma composeHint_hits:
  "rs_Hits (composeHint res h (sq_TokenBudget request)) = rs_Hits res \<or>
   (\<exists>hit. rs_Hits (composeHint res h (sq_TokenBudget request)) = rs_Hits res @ [hit] \<and> hintFits request (rs_Hits res) hit)"
  by (auto simp: composeHint_def hintFits_def Let_def split: option.split prod.split)

text \<open>The three ways a passive search with hints ends: with the evidence of the team note path and perhaps a
  hint, with the failure of that path, or with the end of the context and perhaps a hint.\<close>

definition passive_result :: "router \<Rightarrow> search_request \<Rightarrow> search_result \<Rightarrow> go_error option \<Rightarrow> bool" where
  "passive_result R request res err \<longleftrightarrow>
     (\<exists>ctx d team. team = runTeamNote R ctx request d \<and> to_err team = None \<and> err = None \<and>
        rs_EvidenceSufficient res = sufficient team \<and>
        (rs_Hits res = teamHits (to_envelope team) \<or>
         \<not> sufficient team \<and>
         (\<exists>hit. rs_Hits res = teamHits (to_envelope team) @ [hit] \<and> hintFits request (teamHits (to_envelope team)) hit))) \<or>
     (\<exists>ctx d team e. team = runTeamNote R ctx request d \<and> to_err team = Some e \<and>
        err = Some (wrapf ''search team note memory: '' e) \<and> rs_Hits res = teamHits (to_envelope team)) \<or>
     (\<exists>e. err = Some (wrapf ''search passive memory: '' e) \<and> rs_Hits res = []) \<or>
     (\<exists>hit. err = None \<and> rs_Hits res = [hit] \<and> hintFits request [] hit \<and> \<not> rs_EvidenceSufficient res)"

definition passive_inv :: "router \<Rightarrow> search_request \<Rightarrow> passive_conf \<Rightarrow> bool" where
  "passive_inv R request c \<longleftrightarrow>
     (\<forall>team. pa_teamResults c = Some team \<longrightarrow> (\<exists>ctx d. team = runTeamNote R ctx request d)) \<and>
     (case pa_pc c of
        Selecting hint \<Rightarrow> True
      | Awaiting res \<Rightarrow> \<exists>ctx d team. team = runTeamNote R ctx request d \<and> to_err team = None \<and>
          rs_Hits res = teamHits (to_envelope team) \<and> \<not> sufficient team \<and> \<not> rs_EvidenceSufficient res
      | Finished res err \<Rightarrow> passive_result R request res err)"

lemma finishPassive_result:
  assumes "team = runTeamNote R ctx request d"
  shows "passive_inv R request (c\<lparr>pa_teamResults := None, pa_pc := finishPassive request team hint\<rparr>)"
proof (cases "to_err team")
  case (Some e)
  with assms show ?thesis
    by (auto simp: passive_inv_def finishPassive_def passive_result_def Let_def)
next
  case None
  consider (sufficient) "sufficient team"
    | (waits) "\<not> sufficient team" "hint = None"
    | (composes) h where "hint = Some h" "\<not> sufficient team" by (cases hint) auto
  then show ?thesis
  proof cases
    case sufficient
    have "passive_result R request res None" if "rs_Hits res = teamHits (to_envelope team)" "rs_EvidenceSufficient res = sufficient team" for res
      unfolding passive_result_def using None assms that by blast
    with sufficient None show ?thesis by (simp add: passive_inv_def finishPassive_def Let_def)
  next
    case waits
    have "\<exists>ctx d team'. team' = runTeamNote R ctx request d \<and> to_err team' = None \<and>
        teamHits (to_envelope team) = teamHits (to_envelope team') \<and> \<not> sufficient team'"
      using None assms waits(1) by blast
    with waits None show ?thesis by (simp add: passive_inv_def finishPassive_def Let_def)
  next
    case h: (composes h)
    let ?res = "setSearch (skipped ''passive_search'') (teamResult team)"
    have "passive_result R request (composeHint ?res h (sq_TokenBudget request)) None"
      unfolding passive_result_def using None assms h(2) composeHint_hits [of ?res h request] by auto
    with None h show ?thesis by (simp add: passive_inv_def finishPassive_def Let_def)
  qed
qed

lemma passiveDone_result:
  "case passiveDone request e hint of Finished res err \<Rightarrow> passive_result R request res err | _ \<Rightarrow> False"
proof (cases hint)
  case None
  then show ?thesis by (auto simp: passiveDone_def passive_result_def emptyResult_def Let_def)
next
  case (Some h)
  define res where "res = composeHint (emptyResult\<lparr>rs_Trace := \<lparr>tr_EarlyReturn = False, tr_TeamNote = timedOut e,
     tr_WikiHint = timedOut e, tr_WikiSearch = skipped ''passive_search''\<rparr>\<rparr>) h (sq_TokenBudget request)"
  have hits: "rs_Hits res = [] \<or> (\<exists>hit. rs_Hits res = [hit] \<and> hintFits request [] hit)"
    unfolding res_def using composeHint_hits [of "emptyResult\<lparr>rs_Trace := \<lparr>tr_EarlyReturn = False, tr_TeamNote = timedOut e,
     tr_WikiHint = timedOut e, tr_WikiSearch = skipped ''passive_search''\<rparr>\<rparr>" h request] by (simp add: emptyResult_def)
  have "passiveDone request e hint =
      (if rs_Hits res \<noteq> [] then Finished res None else Finished res (Some (wrapf ''search passive memory: '' e)))"
    by (simp add: passiveDone_def Some res_def Let_def)
  moreover have "\<not> rs_EvidenceSufficient res" by (simp add: res_def emptyResult_def)
  ultimately show ?thesis using hits unfolding passive_result_def by auto
qed

lemma passive_step_inv: "passive_step R request c c' \<Longrightarrow> passive_inv R request c \<Longrightarrow> passive_inv R request c'"
proof (induction rule: passive_step.induct)
  case (select_team c hint team)
  then obtain ctx d where "team = runTeamNote R ctx request d" by (auto simp: passive_inv_def)
  then show ?case by (rule finishPassive_result)
next
  case (select_done c hint e)
  then show ?case
    using passiveDone_result [where request = request and e = e and R = R and
        hint = "case hint of None \<Rightarrow> pa_hintResults c | Some h \<Rightarrow> Some h"]
    by (auto simp: passive_inv_def split: passive_pc.splits)
next
  case (await_hint c res h)
  then obtain ctx d team where team: "team = runTeamNote R ctx request d" "to_err team = None"
    "rs_Hits res = teamHits (to_envelope team)" "\<not> sufficient team" "\<not> rs_EvidenceSufficient res"
    by (auto simp: passive_inv_def)
  then have "passive_result R request (composeHint res h (sq_TokenBudget request)) None"
    unfolding passive_result_def using composeHint_hits [of res h request] by auto
  with await_hint show ?case by (simp add: passive_inv_def)
next
  case (await_done c res e)
  then have "passive_result R request (setHint (timedOut e) res) None"
    unfolding passive_result_def by (auto simp: passive_inv_def)
  with await_done show ?case by (simp add: passive_inv_def)
qed (auto simp: passive_inv_def)

lemma passive_reachable_inv: "(passive_step R request)\<^sup>*\<^sup>* passiveStart c \<Longrightarrow> passive_inv R request c"
proof (induction rule: rtranclp_induct)
  case base
  show ?case by (simp add: passive_inv_def passiveStart_def)
qed (rule passive_step_inv)

lemma passive_result_of_search:
  assumes "Searches R ctx request (res, err)" and "sq_Intent request = IntentPassive" and "validateSearch request = Inr ()"
  shows "passive_result R request res err"
  using assms(1)
proof cases
  case (passive_team d)
  let ?team = "runTeamNote R ctx request d"
  have hits: "rs_Hits res = teamHits (to_envelope ?team)" "rs_EvidenceSufficient res = sufficient ?team"
    using passive_team(1) by (auto simp: searchTeamNoteOnly_def Let_def split: option.splits)
  show ?thesis
  proof (cases "to_err ?team")
    case None
    then have "err = None" using passive_team(1) by (simp add: searchTeamNoteOnly_def Let_def)
    with None hits show ?thesis unfolding passive_result_def by blast
  next
    case (Some e)
    then have "err = Some (wrapf ''search team note memory: '' e)" using passive_team(1) by (simp add: searchTeamNoteOnly_def Let_def)
    with Some hits show ?thesis unfolding passive_result_def by blast
  qed
next
  case (passive_hint c)
  with passive_reachable_inv [OF passive_hint(4)] show ?thesis by (simp add: passive_inv_def)
qed (use assms in \<open>simp_all add: IntentPassive_def IntentActive_def\<close>)

lemma usedTokens_Nil [simp]: "usedTokens [] = 0"
  by (simp add: usedTokens_def)

lemma withTokens_used: "(\<And>n x. mh_Tokens (hit n x) = n) \<Longrightarrow> usedTokens (withTokens hit tokens xs) = (if xs = [] then 0 else tokens)"
  by (cases xs) (simp_all add: usedTokens_def comp_def sum_list_triv)

lemma teamHits_used: "usedTokens (teamHits en) = (if en_Details en = [] \<and> en_Items en = [] then 0 else en_Tokens en)"
proof -
  have "withTokens detailHit (en_Tokens en) (en_Details en) = [] \<longleftrightarrow> en_Details en = []" by (cases "en_Details en") simp_all
  then show ?thesis by (simp add: teamHits_def Let_def withTokens_used detailHit_def itemHit_def)
qed

lemma withTokens_evidence:
  "(\<And>n x. mh_Disposition (hit n x) = DispositionEvidence) \<Longrightarrow>
     list_all (\<lambda>h. mh_Disposition h = DispositionEvidence) (withTokens hit n xs)"
  by (cases xs) (simp_all add: list_all_iff)

lemma teamHits_evidence: "list_all (\<lambda>h. mh_Disposition h = DispositionEvidence) (teamHits en)"
  by (simp add: teamHits_def Let_def withTokens_evidence detailHit_def itemHit_def)

lemma usedTokens_append [simp]: "usedTokens (xs @ ys) = usedTokens xs + usedTokens ys"
  by (simp add: usedTokens_def)

lemma team_within_budget:
  assumes "\<forall>ctx rq. 0 < rq_TokenBudget rq \<longrightarrow> en_Tokens (fst (ro_teamNote R ctx rq)) \<le> rq_TokenBudget rq"
    and "0 < sq_TokenBudget request"
  shows "usedTokens (teamHits (to_envelope (runTeamNote R ctx request d))) \<le> sq_TokenBudget request"
proof -
  have "0 < rq_TokenBudget (teamNoteRequest request)" using assms(2) by (simp add: teamNoteRequest_def)
  then have "en_Tokens (fst (ro_teamNote R ctx (teamNoteRequest request))) \<le> rq_TokenBudget (teamNoteRequest request)"
    using assms(1) by blast
  then have "en_Tokens (to_envelope (runTeamNote R ctx request d)) \<le> sq_TokenBudget request"
    by (simp add: runTeamNote_def teamNoteRequest_def split_def Let_def)
  then show ?thesis using assms(2) by (simp add: teamHits_used)
qed

lemma passive_within_budget:
  assumes "Searches R ctx request (res, None)" and "sq_Intent request = IntentPassive"
    and "\<forall>ctx rq. 0 < rq_TokenBudget rq \<longrightarrow> en_Tokens (fst (ro_teamNote R ctx rq)) \<le> rq_TokenBudget rq"
  shows "usedTokens (rs_Hits res) \<le> sq_TokenBudget request \<and>
    (\<exists>evidence hints. rs_Hits res = evidence @ hints \<and>
       list_all (\<lambda>h. mh_Disposition h = DispositionEvidence) evidence \<and>
       list_all (\<lambda>h. mh_Disposition h = DispositionHint) hints \<and> length hints \<le> 1 \<and>
       (rs_EvidenceSufficient res \<longrightarrow> hints = []))"
proof -
  have valid: "validateSearch request = Inr ()" using assms(1) by cases simp_all
  then have budget: "0 < sq_TokenBudget request" by (auto simp: validateSearch_def split: if_splits)
  from passive_result_of_search [OF assms(1,2) valid] consider
      (team) c d where "rs_Hits res = teamHits (to_envelope (runTeamNote R c request d))"
    | (hinted) c d hit where "rs_Hits res = teamHits (to_envelope (runTeamNote R c request d)) @ [hit]" "\<not> rs_EvidenceSufficient res"
        "hintFits request (teamHits (to_envelope (runTeamNote R c request d))) hit"
    | (hint) hit where "rs_Hits res = [hit]" "hintFits request [] hit" "\<not> rs_EvidenceSufficient res"
    unfolding passive_result_def by blast
  then show ?thesis
  proof cases
    case team
    then show ?thesis using team_within_budget [OF assms(3) budget] teamHits_evidence
      by (intro conjI exI [of _ "rs_Hits res"] exI [of _ "[]"]) simp_all
  next
    case (hinted c d hit)
    then show ?thesis using teamHits_evidence
      by (intro conjI exI [of _ "teamHits (to_envelope (runTeamNote R c request d))"] exI [of _ "[hit]"])
        (simp_all add: hintFits_def usedTokens_def)
  next
    case (hint hit)
    then show ?thesis by (intro conjI exI [of _ "[]"] exI [of _ "[hit]"]) (simp_all add: hintFits_def usedTokens_def)
  qed
qed


text \<open>A search in which the team note path finds one insufficient item and the wiki adds a hint.\<close>

definition routed_envelope :: note_envelope where
  "routed_envelope = \<lparr>en_Revision = ''1'', en_Items = [''deploy is blocked''], en_Tokens = 5, en_Details = [],
     en_Decision = \<lparr>dc_EvidenceSufficient = False, dc_ReasonCodes = [''no_evidence'']\<rparr>, en_ObservationID = 0\<rparr>"

definition routed_hint :: memory_hit where
  "routed_hint = \<lparr>mh_Ref = ''page'', mh_Text = ''see the deploy page'', mh_Score = 0, mh_Tokens = 0, mh_Disposition = [], mh_Metadata = []\<rparr>"

definition routed :: router where
  "routed = \<lparr>ro_teamNote = (\<lambda>_ rq. (routed_envelope\<lparr>en_Tokens := min 5 (rq_TokenBudget rq)\<rparr>, None)),
     ro_wiki = Some \<lparr>wp_Hint = (\<lambda>_ _. (routed_hint, None)), wp_Search = (\<lambda>_ _. ([], None)),
       wp_Get = (\<lambda>_ _. Inl (ErrorNew ''missing''))\<rparr>,
     ro_EnablePassiveWikiHint = True\<rparr>"

definition routed_request :: search_request where
  "routed_request = \<lparr>sq_Intent = IntentPassive, sq_Source = [], sq_Actor = zeroActor, sq_TaskRef = [], sq_ThreadRef = [],
     sq_Query = ''deploy'', sq_TokenBudget = 100, sq_MaxItems = 0\<rparr>"

definition routed_team :: team_outcome where
  "routed_team = runTeamNote routed \<lparr>ctx_scope = None, ctx_err = None\<rparr> routed_request 0"

definition routed_outcome :: hint_outcome where
  "routed_outcome = \<lparr>ho_hit = routed_hint, ho_err = None, ho_duration = 0\<rparr>"

definition routed_result :: search_result where
  "routed_result = composeHint (setSearch (skipped ''passive_search'') (teamResult routed_team)) routed_outcome 100"

lemma routed_finish:
  "finishPassive routed_request routed_team (Some routed_outcome) = Finished routed_result None"
  by (simp add: finishPassive_def routed_result_def routed_team_def runTeamNote_def routed_def routed_envelope_def
      routed_request_def Let_def)

lemma routed_run:
  "\<exists>c. (passive_step routed routed_request)\<^sup>*\<^sup>* passiveStart c \<and> pa_teamSent c \<and> pa_hintSent c \<and>
     pa_pc c = Selecting (Some routed_outcome) \<and> pa_teamResults c = Some routed_team"
proof -
  let ?step = "passive_step routed routed_request"
  let ?c1 = "passiveStart\<lparr>pa_hintSent := True, pa_hintResults := Some routed_outcome\<rparr>"
  let ?c2 = "?c1\<lparr>pa_hintResults := None, pa_pc := Selecting (Some routed_outcome)\<rparr>"
  let ?c3 = "?c2\<lparr>pa_teamSent := True, pa_teamResults := Some routed_team\<rparr>"
  have wiki: "ro_wiki routed = Some (the (ro_wiki routed))" by (simp add: routed_def)
  have "runWikiHint (the (ro_wiki routed)) ctx routed_request 0 = routed_outcome" for ctx
    by (simp add: runWikiHint_def routed_def routed_outcome_def)
  then have "?step passiveStart ?c1" using hint_sends [of passiveStart, OF _ wiki] by (metis passiveStart_def passive_conf.select_convs(4))
  moreover have "?step ?c1 ?c2" by (rule select_hint) (simp_all add: passiveStart_def)
  moreover have "?step ?c2 ?c3" unfolding routed_team_def by (rule team_sends) (simp add: passiveStart_def)
  ultimately have "?step\<^sup>*\<^sup>* passiveStart ?c3" by (meson converse_rtranclp_into_rtranclp rtranclp.rtrancl_refl)
  then show ?thesis by (intro exI [of _ ?c3]) (simp add: passiveStart_def)
qed

lemma routed_valid: "validateSearch routed_request = Inr ()"
  by code_simp

lemma routed_search: "Searches routed ctx routed_request (routed_result, None)"
proof -
  from routed_run obtain c where c: "(passive_step routed routed_request)\<^sup>*\<^sup>* passiveStart c"
    "pa_pc c = Selecting (Some routed_outcome)" "pa_teamResults c = Some routed_team" by blast
  let ?c = "c\<lparr>pa_teamResults := None, pa_pc := finishPassive routed_request routed_team (Some routed_outcome)\<rparr>"
  have "(passive_step routed routed_request)\<^sup>*\<^sup>* passiveStart ?c" using c(1) select_team [OF c(2,3)] by (rule rtranclp.rtrancl_into_rtrancl)
  then show ?thesis
    by (rule passive_hint [OF routed_valid, rotated 2])
      (use routed_finish in \<open>simp_all add: routed_request_def IntentPassive_def IntentActive_def routed_def\<close>)
qed


section \<open>A passive search returns\<close>

definition channels_inv :: "passive_conf \<Rightarrow> bool" where
  "channels_inv c \<longleftrightarrow>
     (case pa_pc c of
        Selecting hint \<Rightarrow> (pa_teamSent c \<longrightarrow> pa_teamResults c \<noteq> None) \<and> (hint = None \<longrightarrow> pa_hintSent c \<longrightarrow> pa_hintResults c \<noteq> None)
      | Awaiting res \<Rightarrow> pa_hintSent c \<longrightarrow> pa_hintResults c \<noteq> None
      | Finished res err \<Rightarrow> True)"

lemma finishPassive_Awaiting: "finishPassive request team hint = Awaiting res \<Longrightarrow> hint = None"
  by (auto simp: finishPassive_def Let_def split: option.splits if_splits)

lemma finishPassive_Selecting [simp]: "finishPassive request team hint \<noteq> Selecting h"
  by (auto simp: finishPassive_def Let_def split: option.splits if_splits)

lemma passiveDone_Finished: "\<exists>res err. passiveDone request e hint = Finished res err"
  by (auto simp: passiveDone_def Let_def split: option.split)

lemma channels_step: "passive_step R request c c' \<Longrightarrow> channels_inv c \<Longrightarrow> channels_inv c'"
proof (induction rule: passive_step.induct)
  case (select_team c hint team)
  then show ?case using finishPassive_Awaiting [of request team hint]
    by (cases "finishPassive request team hint") (auto simp: channels_inv_def)
next
  case (select_done c hint e)
  obtain res err where "passiveDone request e (case hint of None \<Rightarrow> pa_hintResults c | Some h \<Rightarrow> Some h) = Finished res err"
    using passiveDone_Finished by blast
  then show ?case by (simp add: channels_inv_def)
qed (auto simp: channels_inv_def split: passive_pc.splits)

lemma channels_reachable: "(passive_step R request)\<^sup>*\<^sup>* passiveStart c \<Longrightarrow> channels_inv c"
proof (induction rule: rtranclp_induct)
  case base
  show ?case by (simp add: channels_inv_def passiveStart_def)
qed (rule channels_step)



end
