(* ===== verification/Recall_Theorems.thy ===== *)
theory Recall_Theorems
  imports Recall_Planner Recall_Router
begin

text \<open>
  What the planner guarantees: the plan fits the token and the item budget, every text it contains is the text of
  candidates that pass the hard gates, no note is in it twice, a decision that the evidence is sufficient means that
  the delivered notes cover the requested facts, and confidences lie between 0 and 1.
\<close>

section \<open>What bookkeeping leaves alone\<close>

definition trace_core :: "candidate_trace \<Rightarrow> string \<times> string list \<times> float64 \<times> hard_gate_result list" where
  "trace_core t = (cd_NoteID t, cd_CoveredFacts t, cd_EvidenceConfidence t, cd_HardGateResults t)"

definition trace_view ::
  "plan_trace \<Rightarrow> (string \<times> string list \<times> float64 \<times> hard_gate_result list) list \<times> string list \<times> string list \<times>
     recall_intent \<times> float64" where
  "trace_view t = (map trace_core (rt_CandidateTraces t), rt_SelectedSet t, rt_DeliveredItems t, rt_Intent t, rt_EvidenceThreshold t)"

named_theorems view \<open>functions that keep the view of a trace\<close>

lemma updateTrace_core: "(\<And>t. trace_core (f t) = trace_core t) \<Longrightarrow> map trace_core (updateTrace i f ts) = map trace_core ts"
  by (induction ts) auto

lemma fold_view: "(\<And>x t. x \<in> set xs \<Longrightarrow> trace_view (f x t) = trace_view t) \<Longrightarrow> trace_view (fold f xs t) = trace_view t"
  by (induction xs arbitrary: t) simp_all

lemma recordRecallRejection_view [view]: "trace_view (recordRecallRejection t r) = trace_view t"
  by (simp add: trace_view_def recordRecallRejection_def updateTrace_core trace_core_def)

lemma recordPreBudgetSelection_view [view]: "trace_view (recordPreBudgetSelection t i) = trace_view t"
  by (simp add: trace_view_def recordPreBudgetSelection_def)

lemma addRecallLane_view [view]: "trace_view (addRecallLane t i lane reason) = trace_view t"
  by (simp add: trace_view_def addRecallLane_def updateTrace_core trace_core_def)

lemma applyBoundedRecallLanes_view [view]: "trace_view (applyBoundedRecallLanes t lanes) = trace_view t"
  by (simp add: applyBoundedRecallLanes_def Let_def fold_view view)

lemma recordAll_view [view]: "trace_view (recordAll rs t) = trace_view t"
  by (simp add: recordAll_def fold_view view)

lemma recordRecallRelation_view [view]: "trace_view (recordRecallRelation p n t) = trace_view t"
proof -
  have "trace_view (t\<lparr>rt_CandidateTraces := updateTrace i (\<lambda>t. t\<lparr>cd_RelationPath := x\<rparr>) (rt_CandidateTraces t)\<rparr>) = trace_view t" for t i x
    by (simp add: trace_view_def updateTrace_core trace_core_def)
  moreover have "trace_view (t\<lparr>rt_RelationEligibleSet := x\<rparr>) = trace_view t" for x by (simp add: trace_view_def)
  ultimately show ?thesis by (simp add: recordRecallRelation_def Let_def view)
qed

lemma recordRecallRelations_view [view]: "trace_view (recordRecallRelations t p ns) = trace_view t"
  by (simp add: recordRecallRelations_def fold_view view)

lemma recordRecallReachable_view [view]: "trace_view (recordRecallReachable t ns) = trace_view t"
  by (simp add: recordRecallReachable_def trace_view_def)

lemma recordRelationMarginalUtilityDrops_view [view]: "trace_view (recordRelationMarginalUtilityDrops t i ds) = trace_view t"
  by (simp add: recordRelationMarginalUtilityDrops_def trace_view_def)

lemma recordRelationRelevanceDrops_view [view]: "trace_view (recordRelationRelevanceDrops t) = trace_view t"
  by (simp add: recordRelationRelevanceDrops_def fold_view view)

lemma marginalDrops_view [view]: "trace_view (marginalDrops eligible recorded rs t) = trace_view t"
  by (induction eligible recorded rs t rule: marginalDrops.induct) (simp_all add: view)

lemma recordMarginalUtilityCandidateDrops_view [view]: "trace_view (recordMarginalUtilityCandidateDrops t) = trace_view t"
  by (simp add: recordMarginalUtilityCandidateDrops_def view)

lemma recordRecallRelationCostDrops_view [view]: "trace_view (recordRecallRelationCostDrops t p ns) = trace_view t"
  by (simp add: recordRecallRelationCostDrops_def fold_view view)

lemma planRecallRelated_view [view]: "trace_view (fst (planRecallRelated t ns rq k)) = trace_view t"
  by (simp add: planRecallRelated_def Let_def fold_view view)

lemma recordMaxItemsDrop_view [view]: "trace_view (fst (recordMaxItemsDrop i st)) = trace_view (fst st)"
  by (simp add: recordMaxItemsDrop_def split_def view)

lemma fold_view_fst:
  "(\<And>x st. trace_view (fst (f x st)) = trace_view (fst st)) \<Longrightarrow> trace_view (fst (fold f xs st)) = trace_view (fst st)"
  by (induction xs arbitrary: st) simp_all

lemma recordMaxItemsDrops_view [view]: "trace_view (recordMaxItemsDrops t cs plans) = trace_view t"
proof -
  let ?step = "\<lambda>c state. let state = recordMaxItemsDrop (ca_ID c) state in
    fold (\<lambda>n. recordMaxItemsDrop (nt_ID n)) (excludeRecallIDs (plansFor plans (ca_ID c)) (rt_SelectedSet (fst state))) state"
  have "trace_view (fst (?step c st)) = trace_view (fst st)" for c st
    by (simp add: Let_def fold_view_fst view)
  then have "trace_view (fst (fold ?step cs (t, []))) = trace_view t"
    using fold_view_fst [of ?step cs "(t, [])"] by simp
  then show ?thesis by (simp add: recordMaxItemsDrops_def)
qed

lemma traceRelation_view [view]: "trace_view (fst (traceRelation allNotes rq po c st)) = trace_view (fst st)"
  by (simp add: traceRelation_def Let_def split_def view)

lemma traceRecallRelations_view [view]: "trace_view (fst (traceRecallRelations t ranked allNotes rq po)) = trace_view t"
  by (simp add: traceRecallRelations_def Let_def split_def view fold_view_fst)

lemma markRecallHint_view [view]: "trace_view (markRecallHint t i s q) = trace_view t"
  by (simp add: markRecallHint_def trace_view_def updateTrace_core trace_core_def)

lemma planRecallHint_view [view]: "trace_view (fst (planRecallHint cs rq po t planned used selected)) = trace_view t"
proof -
  have "trace_view (t\<lparr>rt_PlanVersion := x, rt_ScoringVersion := y\<rparr>) = trace_view t" for t x y by (simp add: trace_view_def)
  then show ?thesis by (simp add: planRecallHint_def Let_def split_def view split: option.splits)
qed

lemma trace_view_selected: "trace_view t = trace_view t' \<Longrightarrow> rt_SelectedSet t = rt_SelectedSet t'"
  by (simp add: trace_view_def)

lemma set_appendRecallID [simp]: "set (appendRecallID ids i) = insert i (set ids)"
  by (auto simp: appendRecallID_def recallIDSelected_def)

lemma selectNote_simps [simp]:
  "rt_SelectedSet (selectNote t i) = appendRecallID (rt_SelectedSet t) i"
  "map trace_core (rt_CandidateTraces (selectNote t i)) = map trace_core (rt_CandidateTraces t)"
  "rt_DeliveredItems (selectNote t i) = rt_DeliveredItems t"
  "rt_Intent (selectNote t i) = rt_Intent t" "rt_EvidenceThreshold (selectNote t i) = rt_EvidenceThreshold t"
  by (simp_all add: selectNote_def markRecallCandidateEvidence_def Let_def updateTrace_core trace_core_def)

text \<open>The parts of the view that are fixed once the trace is initialised.\<close>

definition trace_fixed ::
  "plan_trace \<Rightarrow> (string \<times> string list \<times> float64 \<times> hard_gate_result list) list \<times> recall_intent \<times> float64" where
  "trace_fixed t = (map trace_core (rt_CandidateTraces t), rt_Intent t, rt_EvidenceThreshold t)"

lemma trace_view_fixed: "trace_view t = trace_view t' \<Longrightarrow> trace_fixed t = trace_fixed t'"
  by (simp add: trace_view_def trace_fixed_def)

lemma selectNote_fixed: "trace_fixed (selectNote t i) = trace_fixed t"
  by (simp add: trace_fixed_def)

lemma fold_selectNote:
  "set (rt_SelectedSet (fold (\<lambda>n t. selectNote t (nt_ID n)) ns t)) = set (rt_SelectedSet t) \<union> nt_ID ` set ns"
  "trace_fixed (fold (\<lambda>n t. selectNote t (nt_ID n)) ns t) = trace_fixed t"
  by (induction ns arbitrary: t) (auto simp: selectNote_fixed)

lemma markRecallEvidence_simps:
  "set (rt_SelectedSet (markRecallEvidence t n ns)) = set (rt_SelectedSet t) \<union> nt_ID ` set (n # ns)"
  "trace_fixed (markRecallEvidence t n ns) = trace_fixed t"
proof -
  have "trace_fixed (t\<lparr>rt_DeliveredItems := x\<rparr>) = trace_fixed t" for x by (simp add: trace_fixed_def)
  then show "set (rt_SelectedSet (markRecallEvidence t n ns)) = set (rt_SelectedSet t) \<union> nt_ID ` set (n # ns)"
    "trace_fixed (markRecallEvidence t n ns) = trace_fixed t"
    by (auto simp: markRecallEvidence_def Let_def fold_selectNote selectNote_fixed)
qed

section \<open>Ranked candidates\<close>

text \<open>A ranked candidate is a supplied one that passes the hard gates, with its scores filled in.\<close>

definition admitted :: "recall_candidate list \<Rightarrow> recall_request \<Rightarrow> recall_intent \<Rightarrow> time \<Rightarrow> recall_candidate \<Rightarrow> bool" where
  "admitted candidates request intent now c \<longleftrightarrow>
     (\<exists>c0 \<in> set candidates. ca_Note c = ca_Note c0 \<and> ca_CanonicalNoteID c = ca_CanonicalNoteID c0 \<and>
        ca_evidenceConfidence c = cd_EvidenceConfidence (evaluateRecallCandidate c0 request intent now) \<and>
        recallHardGateFailure (ca_Note c) intent now = [])"

lemma evaluateRecallRanking_simps [simp]:
  "ca_Note (evaluateRecallRanking c rq it now) = ca_Note c"
  "ca_CanonicalNoteID (evaluateRecallRanking c rq it now) = ca_CanonicalNoteID c"
  "ca_hardGateFailure (evaluateRecallRanking c rq it now) = recallHardGateFailure (ca_Note c) it now"
  "ca_evidenceConfidence (evaluateRecallRanking c rq it now) = cd_EvidenceConfidence (evaluateRecallCandidate c rq it now)"
  by (simp_all add: evaluateRecallRanking_def Let_def)

lemma admitRecallCandidate_admitted:
  assumes "admitRecallCandidate c0 rq it now th lanes = Inr c"
  shows "ca_Note c = ca_Note c0 \<and> ca_CanonicalNoteID c = ca_CanonicalNoteID c0 \<and>
    ca_evidenceConfidence c = cd_EvidenceConfidence (evaluateRecallCandidate c0 rq it now) \<and>
    recallHardGateFailure (ca_Note c) it now = []"
  using assms by (auto simp: admitRecallCandidate_def Let_def split: if_splits)

lemma admitAll_mem: "c \<in> set (fst (admitAll admit cs)) \<Longrightarrow> \<exists>c0 \<in> set cs. admit c0 = Inr c"
  by (induction cs) (auto simp: Let_def split_def split: sum.splits)

lemma admitAll_subseq:
  assumes "\<And>c0 c. admit c0 = Inr c \<Longrightarrow> ca_Note c = ca_Note c0"
  shows "subseq (map ca_ID (fst (admitAll admit cs))) (map ca_ID cs)"
  by (induction cs) (auto simp: Let_def split_def assms intro: list_emb_Cons split: sum.splits)

lemma subseq_distinct: "subseq xs ys \<Longrightarrow> distinct ys \<Longrightarrow> distinct xs"
  by (auto simp: subseq_conv_nths distinct_nthsI)

lemma subseq_set: "subseq xs ys \<Longrightarrow> set xs \<subseteq> set ys"
  by (auto simp: subseq_conv_nths dest: in_set_nthsD)

lemma rankRecallCandidates_admitted:
  assumes "rankRecallCandidates candidates rq po it now = (ranked, rejections, lanes)"
  shows "\<forall>c \<in> set ranked. admitted candidates rq it now c"
    and "distinct (map ca_ID candidates) \<Longrightarrow> distinct (map ca_ID ranked)"
proof -
  have "(\<forall>c \<in> set ranked. admitted candidates rq it now c) \<and> (distinct (map ca_ID candidates) \<longrightarrow> distinct (map ca_ID ranked))"
  proof (cases "blank (rq_Query rq)")
    case True
    let ?ok = "\<lambda>c. recallHardGateFailure (ca_Note c) it now = []"
    have ranked: "ranked = sortRecallCandidates (map (\<lambda>c. (evaluateRecallRanking c rq it now)\<lparr>ca_explicitLane := 1\<rparr>) (filter ?ok candidates)) rq"
      using assms True by (simp add: rankRecallCandidates_def evaluatedRecallCandidates_def rankedFor_def Let_def filter_map comp_def)
    have "map ca_ID (map (\<lambda>c. (evaluateRecallRanking c rq it now)\<lparr>ca_explicitLane := 1\<rparr>) (filter ?ok candidates)) =
      map ca_ID (filter ?ok candidates)" by simp
    then have "distinct (map ca_ID candidates) \<longrightarrow> distinct (map ca_ID ranked)"
      unfolding ranked sortRecallCandidates_def distinct_map_stable_sort using distinct_map_filter by metis
    moreover have "admitted candidates rq it now c" if c: "c \<in> set ranked" for c
    proof -
      from c obtain c0 where "c0 \<in> set candidates" "?ok c0" "c = (evaluateRecallRanking c0 rq it now)\<lparr>ca_explicitLane := 1\<rparr>"
        by (auto simp: ranked sortRecallCandidates_def)
      then show ?thesis by (auto simp: admitted_def)
    qed
    ultimately show ?thesis by blast
  next
    case False
    then obtain lanes where ranked: "ranked = sortRecallCandidates (fst (admitAll (admittedFor rq it now (evidenceThreshold po) lanes) candidates)) rq"
      using assms by (auto simp: rankRecallCandidates_def Let_def split_def)
    let ?admit = "admittedFor rq it now (evidenceThreshold po) lanes"
    have "subseq (map ca_ID (fst (admitAll ?admit candidates))) (map ca_ID candidates)"
      using admitAll_subseq [of ?admit candidates] admitRecallCandidate_admitted unfolding admittedFor_def by blast
    then have "distinct (map ca_ID candidates) \<longrightarrow> distinct (map ca_ID ranked)"
      unfolding ranked sortRecallCandidates_def distinct_map_stable_sort using subseq_distinct by blast
    moreover have "admitted candidates rq it now c" if c: "c \<in> set ranked" for c
      using admitAll_mem [of c ?admit candidates] c admitRecallCandidate_admitted
      by (fastforce simp: ranked sortRecallCandidates_def admitted_def admittedFor_def)
    ultimately show ?thesis by blast
  qed
  then show "\<forall>c \<in> set ranked. admitted candidates rq it now c"
    "distinct (map ca_ID candidates) \<Longrightarrow> distinct (map ca_ID ranked)" by blast+
qed

lemma selectFinalStateFamilies_subseq: "subseq (fst (selectFinalStateFamilies cs it)) cs"
  by (simp add: selectFinalStateFamilies_def Let_def)

lemma distinctFacts_subseq: "\<exists>ds. fst (distinctFacts kept cs) = kept @ ds \<and> subseq ds cs"
proof (induction kept cs rule: distinctFacts.induct)
  case (2 kept c cs)
  show ?case
  proof (cases "list_ex (\<lambda>prior. fl_le duplicateBodySimilarity (bodyOverlap (nt_Body (ca_Note c)) (nt_Body (ca_Note prior)))) kept")
    case True
    then obtain ds where "fst (distinctFacts kept cs) = kept @ ds" "subseq ds cs" using 2(1) by blast
    with True show ?thesis by (intro exI [of _ ds]) (simp add: Let_def split_def list_emb_Cons)
  next
    case False
    then obtain ds where "fst (distinctFacts (kept @ [c]) cs) = kept @ [c] @ ds" "subseq ds cs" using 2(2) by auto
    with False show ?thesis by (intro exI [of _ "c # ds"]) simp
  qed
qed simp

lemma selectRankedDistinctFacts_subseq: "subseq (fst (selectRankedDistinctFacts cs po it)) cs"
  using distinctFacts_subseq [of "[]" cs] by (auto simp: selectRankedDistinctFacts_def)

lemma removeRecallCandidate_mset:
  "c \<in> set cs \<Longrightarrow> \<exists>c'. ca_ID c' = ca_ID c \<and> mset cs = add_mset c' (mset (removeRecallCandidate cs (ca_ID c)))"
proof (induction cs)
  case (Cons d cs)
  show ?case
  proof (cases "ca_ID d = ca_ID c")
    case True
    then show ?thesis by (intro exI [of _ d]) simp
  next
    case False
    with Cons obtain c' where "ca_ID c' = ca_ID c" "mset cs = add_mset c' (mset (removeRecallCandidate cs (ca_ID c)))" by auto
    with False show ?thesis by (intro exI [of _ c']) simp
  qed
qed simp

lemma coverageOrder_ids:
  "mset (map ca_ID (coverageOrder plans rq en f cv sr cs)) = mset (map ca_ID cs) \<and>
   set (coverageOrder plans rq en f cv sr cs) \<subseteq> set cs"
proof (induction plans rq en f cv sr cs rule: coverageOrder.induct)
  case (1 plans rq en f cv sr cs)
  show ?case
  proof (cases "selectionOptions plans rq en f cv sr cs")
    case Nil
    then show ?thesis by (simp add: coverageOrder.simps [of plans rq en f cv sr cs])
  next
    case (Cons s ss)
    define best where "best = bestOption s ss"
    let ?rest = "removeRecallCandidate cs (ca_ID (so_candidate best))"
    show ?thesis
    proof (cases "so_gain best = 0")
      case True
      then show ?thesis using Cons by (simp add: coverageOrder.simps [of plans rq en f cv sr cs] best_def Let_def)
    next
      case False
      have mem: "so_candidate best \<in> set cs" using bestOption_candidate [OF Cons] by (simp add: best_def)
      obtain c' where c': "ca_ID c' = ca_ID (so_candidate best)" "mset cs = add_mset c' (mset ?rest)"
        using removeRecallCandidate_mset [OF mem] by blast
      have "set ?rest \<subseteq> set cs" using c'(2) by (metis set_mset_mset set_mset_add_mset_insert subset_insertI)
      moreover have "mset (map ca_ID cs) = add_mset (ca_ID c') (mset (map ca_ID ?rest))"
        using c'(2) by (metis image_mset_add_mset mset_map)
      ultimately show ?thesis
        using 1 [OF Cons best_def False] mem c'(1)
        by (subst (1 2) coverageOrder.simps) (auto simp: Cons best_def [symmetric] False Let_def)
    qed
  qed
qed

lemma orderRecallCandidatesByCoverage_ids:
  "mset (map ca_ID (orderRecallCandidatesByCoverage cs plans rq it)) = mset (map ca_ID cs)"
  "set (orderRecallCandidatesByCoverage cs plans rq it) \<subseteq> set cs"
  using coverageOrder_ids by (auto simp: orderRecallCandidatesByCoverage_def)

section \<open>Relation plans\<close>

lemma usefulRelated_mset:
  "\<exists>ds. mset (fst (usefulRelated p ef en qt pt cs kept remaining)) + ds = mset kept + mset remaining"
proof (induction p ef en qt pt cs kept remaining rule: usefulRelated.induct)
  case (1 p ef en qt pt cs kept remaining)
  show ?case
  proof (cases "remaining = []")
    case True
    then show ?thesis by (simp add: usefulRelated.simps)
  next
    case False
    define g where "g = (\<lambda>n. uncoveredEntityFactGain n en ef cs * 4 + uncoveredQueryTermGain pt qt n)"
    obtain best u where b: "bestRelation g (recallRelationTokenCost p) 0 remaining (None, 0) = (best, u)" by fastforce
    show ?thesis
    proof (cases "best = None \<or> fl_less u minimumRelationUtilityPerToken")
      case True
      then have "fst (usefulRelated p ef en qt pt cs kept remaining) = kept"
        using False b by (auto simp: usefulRelated.simps [of p ef en qt pt cs kept remaining] g_def [symmetric] Let_def split: option.splits)
      then show ?thesis by simp
    next
      case useful: False
      then obtain i where i: "best = Some i" by auto
      then have lt: "i < length remaining" using bestRelation_index [OF b [unfolded i]] by simp
      let ?rest = "take i remaining @ drop (Suc i) remaining"
      have "mset remaining = add_mset (remaining ! i) (mset ?rest)"
        using lt by (metis id_take_nth_drop mset_append mset.simps(2) union_mset_add_mset_right)
      moreover have "fst (usefulRelated p ef en qt pt cs kept remaining) =
          fst (usefulRelated p ef en qt (addAll (searchableTerms (noteText (remaining ! i))) pt)
            (addCoveredEntityFactSlots cs (remaining ! i) en ef) (kept @ [remaining ! i]) ?rest)"
        using False b i useful
        by (subst usefulRelated.simps) (simp add: g_def [symmetric] Let_def)
      moreover have "\<exists>ds. mset (fst (usefulRelated p ef en qt (addAll (searchableTerms (noteText (remaining ! i))) pt)
            (addCoveredEntityFactSlots cs (remaining ! i) en ef) (kept @ [remaining ! i]) ?rest)) + ds =
          mset (kept @ [remaining ! i]) + mset ?rest"
        using 1 [OF False g_def refl b [symmetric, unfolded i] refl] useful by (simp add: i)
      ultimately show ?thesis by auto
    qed
  qed
qed

lemma distinct_submset:
  assumes "mset xs \<subseteq># mset ys" and "distinct (map f ys)"
  shows "distinct (map f xs)"
proof -
  obtain zs where "mset ys = mset (xs @ zs)" using assms(1) by (metis ex_mset mset_append mset_subset_eq_exists_conv)
  then have "mset (map f ys) = mset (map f (xs @ zs))" by (metis mset_map)
  then have "distinct (map f (xs @ zs))" using assms(2) by (metis mset_eq_imp_distinct_iff)
  then show ?thesis by simp
qed

lemma mset_filter_submset: "mset (filter P xs) \<subseteq># mset xs"
  by (simp add: multiset_filter_subset)

lemma relatedNotes_submset: "mset (relevantRelatedNotes (relatedNotes n ns) q) \<subseteq># mset ns"
proof -
  have "mset (relevantRelatedNotes (relatedNotes n ns) q) = mset (filter (\<lambda>n. QueryRelated n q) (relatedNotes n ns))"
    by (simp add: relevantRelatedNotes_def Let_def)
  also have "\<dots> \<subseteq># mset (relatedNotes n ns)" by (rule mset_filter_submset)
  also have "\<dots> \<subseteq># mset ns" unfolding relatedNotes_def by (rule mset_filter_submset)
  finally show ?thesis .
qed

lemma relevant_other: "m \<in> set (relevantRelatedNotes (relatedNotes n ns) q) \<Longrightarrow> nt_ID m \<noteq> nt_ID n"
  by (auto simp: relevantRelatedNotes_def relatedNotes_def Let_def split: if_splits)

lemma marginallyUseful_submset: "mset (fst (marginallyUsefulRelatedNotes p related rq)) \<subseteq># mset related"
proof -
  have "\<exists>ds. mset (fst (usefulRelated p ef en qt pt cs [] related)) + ds = mset related" for ef en qt pt cs
    using usefulRelated_mset [of p ef en qt pt cs "[]" related] by simp
  then have "mset (fst (usefulRelated p ef en qt pt cs [] related)) \<subseteq># mset related" for ef en qt pt cs
    by (metis mset_subset_eq_add_left)
  then show ?thesis by (simp add: marginallyUsefulRelatedNotes_def Let_def)
qed

definition plans_ok :: "team_note list \<Rightarrow> (string, team_note list) gomap \<Rightarrow> bool" where
  "plans_ok allNotes plans \<longleftrightarrow>
     (\<forall>i. mset (plansFor plans i) \<subseteq># mset allNotes \<and> (\<forall>n \<in> set (plansFor plans i). nt_ID n \<noteq> i))"

lemma traceRelation_plans_ok:
  assumes "plans_ok allNotes (snd st)"
  shows "plans_ok allNotes (snd (traceRelation allNotes rq po c st))"
proof -
  define eligible where "eligible = (let relevant = relevantRelatedNotes (relatedNotes (ca_Note c) allNotes) (rq_Query rq) in
    if po_DisableRelationMarginalUtility po then relevant else fst (marginallyUsefulRelatedNotes (ca_Note c) relevant rq))"
  have plans: "snd (traceRelation allNotes rq po c st) = mput (ca_ID c) eligible (snd st)"
    by (simp add: traceRelation_def eligible_def Let_def split_def)
  have sub: "mset eligible \<subseteq># mset (relevantRelatedNotes (relatedNotes (ca_Note c) allNotes) (rq_Query rq))"
    using marginallyUseful_submset by (simp add: eligible_def Let_def)
  then have "mset eligible \<subseteq># mset allNotes" using relatedNotes_submset subset_mset.order_trans by blast
  moreover have "nt_ID n \<noteq> ca_ID c" if "n \<in> set eligible" for n
    using that sub relevant_other by (metis mset_subset_eqD set_mset_mset)
  ultimately show ?thesis using assms unfolding plans_ok_def plans plansFor_def by (simp add: go_map)
qed

lemma traceRecallRelations_plans_ok: "plans_ok allNotes (snd (traceRecallRelations t ranked allNotes rq po))"
proof -
  have "plans_ok allNotes (snd (fold (traceRelation allNotes rq po) cs st))" if "plans_ok allNotes (snd st)" for cs st
    using that by (induction cs arbitrary: st) (simp_all add: traceRelation_plans_ok)
  moreover have "plans_ok allNotes (snd (t, []))" by (simp add: plans_ok_def plansFor_def)
  ultimately have "plans_ok allNotes (snd (fold (traceRelation allNotes rq po) ranked (t, [])))" by blast
  then show ?thesis by (simp add: traceRecallRelations_def Let_def split_def)
qed

section \<open>Packing\<close>

abbreviation recallText :: "recall_candidate \<Rightarrow> team_note list \<Rightarrow> string" where
  "recallText c related \<equiv> formatRecall (ca_Note c) related"

definition evidenceItem :: "(string, string) gomap \<Rightarrow> recall_candidate \<times> team_note list \<Rightarrow> planned_recall" where
  "evidenceItem canonicalIDs b = (case b of (c, related) \<Rightarrow>
     plannedEvidence c related canonicalIDs (recallText c related) (estimateTokens (recallText c related)))"

definition bundleIDs :: "recall_candidate \<times> team_note list \<Rightarrow> string list" where
  "bundleIDs b = ca_ID (fst b) # map nt_ID (snd b)"

text \<open>What holds after packing: the planned items are the bundles \<open>bs\<close> of candidates with related notes of their plan,
  they account for the tokens and the notes, fit the budgets, and their notes are the selected ones, each once.\<close>

definition packed ::
  "recall_request \<Rightarrow> (string, string) gomap \<Rightarrow> (string, team_note list) gomap \<Rightarrow> recall_candidate set \<Rightarrow>
     (recall_candidate \<times> team_note list) list \<Rightarrow> plan_state \<Rightarrow> bool" where
  "packed rq canon plans cs bs st \<longleftrightarrow>
     ps_planned st = map (evidenceItem canon) bs \<and> ps_usedTokens st = sum_list (map pn_Tokens (ps_planned st)) \<and>
     ps_usedTokens st \<le> rq_TokenBudget rq \<and> ps_selectedNotes st = int (length (concat (map bundleIDs bs))) \<and>
     (0 < rq_MaxItems rq \<longrightarrow> ps_selectedNotes st \<le> rq_MaxItems rq) \<and>
     (\<forall>b \<in> set bs. fst b \<in> cs \<and> set (snd b) \<subseteq> set (plansFor plans (ca_ID (fst b)))) \<and>
     set (rt_SelectedSet (ps_trace st)) = set (concat (map bundleIDs bs)) \<and>
     distinct (map (ca_ID \<circ> fst) bs) \<and>
     ((\<forall>i. distinct (map nt_ID (plansFor plans i)) \<and> i \<notin> nt_ID ` set (plansFor plans i)) \<longrightarrow>
        distinct (concat (map bundleIDs bs)))"

lemma packed_trace:
  assumes "packed rq canon plans cs bs st" and "trace_view t = trace_view (ps_trace st)"
  shows "packed rq canon plans cs bs (st\<lparr>ps_trace := t\<rparr>)"
  using assms(1) trace_view_selected [OF assms(2)] unfolding packed_def by (auto simp: plan_state.simps)

lemma planRecallRelated_related:
  assumes "planRecallRelated t eligible rq k = (t', related)"
  shows "trace_view t' = trace_view t" and "set related \<subseteq> {n \<in> set eligible. nt_ID n \<notin> set (rt_SelectedSet t)}"
    and "distinct (map nt_ID eligible) \<Longrightarrow> distinct (map nt_ID related)"
    and "0 < rq_MaxItems rq \<Longrightarrow> int (length related) \<le> max 0 k"
proof -
  show "trace_view t' = trace_view t" using planRecallRelated_view [of t eligible rq k] assms by simp
  have related: "related = (let available = excludeRecallIDs eligible (rt_SelectedSet t) in
      if 0 < rq_MaxItems rq \<and> max 0 k < int (length available) then take (nat (max 0 k)) available else available)"
    using assms by (auto simp: planRecallRelated_def Let_def split: if_splits)
  show "set related \<subseteq> {n \<in> set eligible. nt_ID n \<notin> set (rt_SelectedSet t)}"
    unfolding related Let_def excludeRecallIDs_def by (auto dest: in_set_takeD)
  have "distinct (map nt_ID eligible) \<Longrightarrow> distinct (map nt_ID (excludeRecallIDs eligible (rt_SelectedSet t)))"
    by (simp add: excludeRecallIDs_def distinct_map_filter)
  then show "distinct (map nt_ID eligible) \<Longrightarrow> distinct (map nt_ID related)"
    by (simp add: related Let_def distinct_take flip: take_map)
  show "0 < rq_MaxItems rq \<Longrightarrow> int (length related) \<le> max 0 k" by (auto simp: related Let_def)
qed

text \<open>One candidate is either left out or added with related notes that were not selected before.\<close>

lemma packCandidate_cases:
  fixes rq po canon plans c st
  defines "room \<equiv> (if 0 < rq_MaxItems rq then rq_MaxItems rq - ps_selectedNotes st - 1 else 0)"
  obtains (dropped) t where "packCandidate rq po canon plans c st = st\<lparr>ps_trace := t\<rparr>" "trace_view t = trace_view (ps_trace st)"
  | (added) t related where "trace_view t = trace_view (ps_trace st)"
      "packCandidate rq po canon plans c st =
         \<lparr>ps_trace = markRecallEvidence t (ca_Note c) related, ps_planned = ps_planned st @ [evidenceItem canon (c, related)],
          ps_usedTokens = ps_usedTokens st + pn_Tokens (evidenceItem canon (c, related)),
          ps_selectedNotes = ps_selectedNotes st + 1 + int (length related)\<rparr>"
      "ps_usedTokens st + pn_Tokens (evidenceItem canon (c, related)) \<le> rq_TokenBudget rq"
      "set related \<subseteq> {n \<in> set (plansFor plans (ca_ID c)). nt_ID n \<notin> set (rt_SelectedSet (ps_trace st))}"
      "distinct (map nt_ID (plansFor plans (ca_ID c))) \<longrightarrow> distinct (map nt_ID related)"
      "0 < rq_MaxItems rq \<longrightarrow> int (length related) \<le> max 0 room"
proof -
  define t1 where "t1 = recordPreBudgetSelection (ps_trace st) (ca_ID c)"
  obtain t2 rel where plan: "planRecallRelated t1 (plansFor plans (ca_ID c)) rq room = (t2, rel)" by fastforce
  note rel = planRecallRelated_related [OF plan]
  have view2: "trace_view t2 = trace_view (ps_trace st)" using rel(1) by (simp add: t1_def view)
  have sel1: "rt_SelectedSet t1 = rt_SelectedSet (ps_trace st)"
    by (rule trace_view_selected) (simp add: t1_def view)
  define degrade where "degrade \<longleftrightarrow> po_DegradeRelated po \<and> rel \<noteq> [] \<and>
    rq_TokenBudget rq < ps_usedTokens st + estimateTokens (recallText c rel)"
  define t3 where "t3 = (if degrade then recordRecallRelationCostDrops t2 (ca_Note c) rel else t2)"
  define related where "related = (if degrade then [] else rel)"
  define tokens where "tokens = estimateTokens (recallText c related)"
  have view3: "trace_view t3 = trace_view (ps_trace st)" using view2 by (simp add: t3_def view)
  have pack: "packCandidate rq po canon plans c st =
      (if rq_TokenBudget rq < ps_usedTokens st + tokens
       then st\<lparr>ps_trace := recordRecallRejection (recordRecallRelationCostDrops t3 (ca_Note c) related)
              (rejection (ca_ID c) RejectTokenBudget tokens)\<rparr>
       else \<lparr>ps_trace = markRecallEvidence t3 (ca_Note c) related, ps_planned = ps_planned st @ [evidenceItem canon (c, related)],
              ps_usedTokens = ps_usedTokens st + tokens, ps_selectedNotes = ps_selectedNotes st + 1 + int (length related)\<rparr>)"
    using plan
    by (simp add: packCandidate_def room_def [symmetric] t1_def [symmetric] degrade_def [symmetric] t3_def related_def
        tokens_def evidenceItem_def FormatForRecall_def Let_def)
  have tok: "pn_Tokens (evidenceItem canon (c, related)) = tokens" by (simp add: evidenceItem_def plannedEvidence_def tokens_def)
  show thesis
  proof (cases "rq_TokenBudget rq < ps_usedTokens st + tokens")
    case True
    then have "packCandidate rq po canon plans c st = st\<lparr>ps_trace :=
        recordRecallRejection (recordRecallRelationCostDrops t3 (ca_Note c) related)
          (rejection (ca_ID c) RejectTokenBudget tokens)\<rparr>" using pack by simp
    then show thesis by (rule dropped) (simp add: view view3)
  next
    case False
    show thesis
    proof (rule added [OF view3])
      show "packCandidate rq po canon plans c st =
         \<lparr>ps_trace = markRecallEvidence t3 (ca_Note c) related, ps_planned = ps_planned st @ [evidenceItem canon (c, related)],
          ps_usedTokens = ps_usedTokens st + pn_Tokens (evidenceItem canon (c, related)),
          ps_selectedNotes = ps_selectedNotes st + 1 + int (length related)\<rparr>" using False pack tok by simp
      show "ps_usedTokens st + pn_Tokens (evidenceItem canon (c, related)) \<le> rq_TokenBudget rq" using False tok by simp
    qed (use rel(2-4) sel1 in \<open>auto simp: related_def\<close>)
  qed
qed

lemma packCandidate_packed:
  assumes "packed rq canon plans cs bs st" and "c \<in> cs" and "ca_ID c \<notin> set (rt_SelectedSet (ps_trace st))"
    and "0 < rq_MaxItems rq \<longrightarrow> ps_selectedNotes st < rq_MaxItems rq"
  shows "(\<exists>bs'. packed rq canon plans cs bs' (packCandidate rq po canon plans c st)) \<and>
    trace_fixed (ps_trace (packCandidate rq po canon plans c st)) = trace_fixed (ps_trace st)"
proof (cases rule: packCandidate_cases [of rq po canon plans c st])
  case (dropped t)
  then show ?thesis using packed_trace [OF assms(1) dropped(2)] trace_view_fixed [OF dropped(2)]
    by (intro conjI exI [of _ bs]) simp_all
next
  case (added t related)
  let ?bs = "bs @ [(c, related)]"
  have sel: "set (rt_SelectedSet t) = set (concat (map bundleIDs bs))"
    using assms(1) trace_view_selected [OF added(1)] by (simp add: packed_def)
  have new: "ca_ID c \<notin> set (concat (map bundleIDs bs))" "nt_ID ` set related \<inter> set (concat (map bundleIDs bs)) = {}"
    using assms(1,3) added(4) by (auto simp: packed_def)
  have ids: "concat (map bundleIDs ?bs) = concat (map bundleIDs bs) @ bundleIDs (c, related)" by simp
  have "set (rt_SelectedSet (markRecallEvidence t (ca_Note c) related)) = set (concat (map bundleIDs ?bs))"
    unfolding ids set_append markRecallEvidence_simps(1) sel by (simp add: bundleIDs_def)
  moreover have "ca_ID c \<notin> set (map (ca_ID \<circ> fst) bs)" using new(1) by (auto simp: bundleIDs_def)
  then have "distinct (map (ca_ID \<circ> fst) ?bs)" using assms(1) by (simp add: packed_def)
  moreover have "distinct (concat (map bundleIDs ?bs))"
    if "\<forall>i. distinct (map nt_ID (plansFor plans i)) \<and> i \<notin> nt_ID ` set (plansFor plans i)"
  proof -
    have "distinct (concat (map bundleIDs bs))" using assms(1) that unfolding packed_def by blast
    moreover have "distinct (bundleIDs (c, related))"
      using that added(4,5) by (simp add: bundleIDs_def) blast
    moreover have "set (concat (map bundleIDs bs)) \<inter> set (bundleIDs (c, related)) = {}"
      using new by (simp add: bundleIDs_def [of "(c, related)"] Int_commute del: set_concat)
    ultimately show ?thesis unfolding ids distinct_append by blast
  qed
  moreover have "0 < rq_MaxItems rq \<longrightarrow> ps_selectedNotes st + 1 + int (length related) \<le> rq_MaxItems rq"
    using added(6) assms(4) by (auto simp: max_def split: if_splits)
  moreover have "ps_selectedNotes st + 1 + int (length related) = int (length (concat (map bundleIDs ?bs)))"
    using assms(1) unfolding ids length_append by (simp add: packed_def bundleIDs_def)
  moreover have "\<forall>b \<in> set ?bs. fst b \<in> cs \<and> set (snd b) \<subseteq> set (plansFor plans (ca_ID (fst b)))"
    using assms(1,2) added(4) unfolding packed_def by auto
  moreover have "ps_planned st @ [evidenceItem canon (c, related)] = map (evidenceItem canon) ?bs"
    "ps_usedTokens st + pn_Tokens (evidenceItem canon (c, related)) =
     sum_list (map pn_Tokens (ps_planned st @ [evidenceItem canon (c, related)]))"
    using assms(1) by (simp_all add: packed_def)
  ultimately have "packed rq canon plans cs ?bs (packCandidate rq po canon plans c st)"
    using added(3) unfolding packed_def added(2) plan_state.select_convs by blast
  moreover have "trace_fixed (markRecallEvidence t (ca_Note c) related) = trace_fixed (ps_trace st)"
    unfolding markRecallEvidence_simps(2) by (rule trace_view_fixed [OF added(1)])
  ultimately show ?thesis by (auto simp: added(2))
qed

lemma packCandidates_packed:
  "packed rq canon plans C bs st \<Longrightarrow> set cs \<subseteq> C \<Longrightarrow>
     (\<exists>bs'. packed rq canon plans C bs' (packCandidates rq po canon plans cs st)) \<and>
     trace_fixed (ps_trace (packCandidates rq po canon plans cs st)) = trace_fixed (ps_trace st)"
proof (induction rq po canon plans cs st arbitrary: bs rule: packCandidates.induct)
  case (2 rq po canon plans c cs st)
  consider (selected) "recallIDSelected (rt_SelectedSet (ps_trace st)) (ca_ID c)"
    | (full) "\<not> recallIDSelected (rt_SelectedSet (ps_trace st)) (ca_ID c)" "0 < rq_MaxItems rq \<and> rq_MaxItems rq \<le> ps_selectedNotes st"
    | (pack) "\<not> recallIDSelected (rt_SelectedSet (ps_trace st)) (ca_ID c)" "\<not> (0 < rq_MaxItems rq \<and> rq_MaxItems rq \<le> ps_selectedNotes st)"
    by blast
  then show ?case
  proof cases
    case selected
    then show ?thesis using 2 by simp
  next
    case full
    let ?t = "recordMaxItemsDrops (ps_trace st) (c # cs) plans"
    have v: "trace_view ?t = trace_view (ps_trace st)" by (simp add: view)
    show ?thesis
      using full packed_trace [OF 2(3) v] trace_view_fixed [OF v] by (intro conjI exI [of _ bs]) simp_all
  next
    case pack
    obtain bs' where "packed rq canon plans C bs' (packCandidate rq po canon plans c st)"
      and fixed: "trace_fixed (ps_trace (packCandidate rq po canon plans c st)) = trace_fixed (ps_trace st)"
      using packCandidate_packed [OF 2(3), of c po] 2(4) pack by (auto simp: recallIDSelected_def)
    with 2(2) [OF pack, of bs'] 2(4) show ?thesis
      by (simp only: packCandidates.simps(2) if_not_P [OF pack(1)] if_not_P [OF pack(2)]) simp
  qed
qed auto

section \<open>The plan as a whole\<close>

lemma bestHintLead_mem:
  assumes "bestHintLead cs rq po t = (Some c, u)"
  shows "c \<in> set cs \<and> (\<exists>ct. u = hintUtility c rq ct)"
proof -
  have step: "betterLead rq po t c b = b \<or> (\<exists>ct. betterLead rq po t c b = (Some c, hintUtility c rq ct))" for c b
    by (auto simp: betterLead_def Let_def split: option.splits)
  have "fold (betterLead rq po t) cs b = b \<or> (\<exists>c \<in> set cs. \<exists>ct. fold (betterLead rq po t) cs b = (Some c, hintUtility c rq ct))" for b
  proof (induction cs arbitrary: b)
    case (Cons c cs)
    show ?case using Cons.IH [of "betterLead rq po t c b"] step [of c b] by auto
  qed simp
  from this [of "(None, 0)"] show ?thesis using assms by (auto simp: bestHintLead_def)
qed

definition hint_item :: "recall_candidate list \<Rightarrow> recall_request \<Rightarrow> recall_policy \<Rightarrow> planned_recall \<Rightarrow> bool" where
  "hint_item candidates rq po h \<longleftrightarrow> po_EnableHintRecall po \<and> \<not> pn_ClaimNoteDelivery h \<and> pn_Disposition h = RecallDispositionHint \<and>
     (\<exists>c \<in> set candidates. pn_Note h = ca_Note c \<and> pn_SourceNoteIDs h = [ca_ID c] \<and>
        (\<exists>ct. pn_Relevance h = hintUtility c rq ct)) \<and>
     \<not> fl_isNaN (pn_Relevance h) \<and> (\<exists>q. pn_Text h = hintText q) \<and> pn_Tokens h = estimateTokens (pn_Text h)"

lemma planRecallHint_item:
  assumes "planRecallHint cs rq po t planned used selected = (t', Some h)"
  shows "planned = [] \<and> hint_item cs rq po h \<and> used + pn_Tokens h \<le> rq_TokenBudget rq \<and>
    (0 < rq_MaxItems rq \<longrightarrow> selected < rq_MaxItems rq)"
proof -
  obtain best u where best: "bestHintLead cs rq po t = (best, u)" by fastforce
  from assms best obtain c where c: "best = Some c" "planned = []" "po_EnableHintRecall po" "fl_less 0 u"
      "\<not> (0 < rq_MaxItems rq \<and> rq_MaxItems rq \<le> selected)"
    by (auto simp: planRecallHint_def Let_def split: if_splits option.splits)
  have "c \<in> set cs" "\<exists>ct. u = hintUtility c rq ct" using bestHintLead_mem best c(1) by blast+
  moreover from assms best c
  have "pn_Note h = ca_Note c" "pn_SourceNoteIDs h = [ca_ID c]" "\<not> pn_ClaimNoteDelivery h" "pn_Disposition h = RecallDispositionHint" "pn_Relevance h = u"
    "pn_Text h = hintText (focusedHintQuery rq (ca_Note c) (rt_Intent t))" "pn_Tokens h = estimateTokens (pn_Text h)"
    "used + pn_Tokens h \<le> rq_TokenBudget rq"
    by (auto simp: planRecallHint_def Let_def split: if_splits)
  ultimately show ?thesis using c by (auto simp: hint_item_def fl_less_def)
qed

abbreviation observed :: "recall_candidate list \<Rightarrow> recall_policy \<Rightarrow> time" where
  "observed candidates po \<equiv> recallObservationTime candidates (po_ObservationTime po)"

text \<open>The notes that may be shown for a request: those of the candidates that pass the hard gates.\<close>

definition showable :: "recall_candidate list \<Rightarrow> recall_request \<Rightarrow> recall_policy \<Rightarrow> team_note \<Rightarrow> bool" where
  "showable candidates rq po n \<longleftrightarrow> n \<in> ca_Note ` set candidates \<and>
     recallHardGateFailure n (CompileRecallIntent rq) (observed candidates po) = []"

text \<open>The stages of \<open>PlanRecall\<close>, up to the state in which packing starts.\<close>

lemma initializeRecallTrace_view:
  "rt_SelectedSet (initializeRecallTrace cs ranked rq it now th lanes rejs) = []"
  "trace_fixed (initializeRecallTrace cs ranked rq it now th lanes rejs) =
     (map (\<lambda>c. trace_core (evaluateRecallCandidate c rq it now)) cs, it, th)"
proof -
  define e where "e = \<lparr>rt_PlanVersion = GeneralRecallV3PlanVersion, rt_ScoringVersion = GeneralRecallV3ScoringVersion,
    rt_EvidenceThreshold = th, rt_Intent = it, rt_LanesExecuted = [],
    rt_CandidateTraces = map (tracedFor rq it now) cs,
    rt_PreBudgetSelectedSet = [], rt_RelationReachableSet = [], rt_RelationEligibleSet = [], rt_SelectedSet = [],
    rt_BudgetDrops = [], rt_DeliveredItems = [], rt_Candidates = int (length cs),
    rt_FusionKept = int (length ranked), rt_PlannedNotes = 0, rt_PlannedTokens = 0, rt_Rejections = [],
    rt_RelationRejections = []\<rparr>"
  have "trace_view (t\<lparr>rt_LanesExecuted := x\<rparr>) = trace_view t" for t x by (simp add: trace_view_def)
  then have "trace_view (initializeRecallTrace cs ranked rq it now th lanes rejs) = trace_view e"
    by (simp add: initializeRecallTrace_def Let_def e_def [symmetric] fold_view view)
  from trace_view_selected [OF this] trace_view_fixed [OF this]
  show "rt_SelectedSet (initializeRecallTrace cs ranked rq it now th lanes rejs) = []"
    "trace_fixed (initializeRecallTrace cs ranked rq it now th lanes rejs) =
     (map (\<lambda>c. trace_core (evaluateRecallCandidate c rq it now)) cs, it, th)"
    by (simp_all add: e_def trace_fixed_def tracedFor_def comp_def)
qed

lemma PlanRecall_stages:
  fixes candidates rq po
  defines "it \<equiv> CompileRecallIntent rq" and "now \<equiv> observed candidates po"
  obtains ranked rejs lanes ranked2 t2 plans allNotes where
    "rankRecallCandidates candidates rq po it now = (ranked, rejs, lanes)" "subseq ranked2 ranked"
    "allNotes = recallRelationEligibleNotes (fst (selectFinalStateFamilies candidates it)) it now"
    "plans_ok allNotes plans" "rt_SelectedSet t2 = []"
    "trace_fixed t2 = (map (\<lambda>c. trace_core (evaluateRecallCandidate c rq it now)) candidates, it, evidenceThreshold po)"
    "PlanRecall candidates rq po =
       (let st = packCandidates rq po (canonicalRecallNoteIDs candidates) plans (orderRecallCandidatesByCoverage ranked2 plans rq it)
              \<lparr>ps_trace = t2, ps_planned = [], ps_usedTokens = 0, ps_selectedNotes = 0\<rparr>;
            (t, hint) = planRecallHint candidates rq po (ps_trace st) (ps_planned st) (ps_usedTokens st) (ps_selectedNotes st);
            planned = ps_planned st @ (case hint of None \<Rightarrow> [] | Some h \<Rightarrow> [h])
        in (planned, finalizeRecallTrace (t\<lparr>rt_PlannedNotes := int (length planned),
             rt_PlannedTokens := ps_usedTokens st + (case hint of None \<Rightarrow> 0 | Some h \<Rightarrow> pn_Tokens h)\<rparr>)))"
proof -
  obtain ranked rejs lanes where rank: "rankRecallCandidates candidates rq po it now = (ranked, rejs, lanes)" by (metis prod_cases3)
  define t0 where "t0 = initializeRecallTrace candidates ranked rq it now (evidenceThreshold po) lanes rejs"
  obtain ranked1 rejs1 where final: "selectFinalStateFamilies ranked it = (ranked1, rejs1)" by fastforce
  obtain ranked2 rejs2 where dup: "selectRankedDistinctFacts ranked1 po it = (ranked2, rejs2)" by fastforce
  define t1 where "t1 = (recordAll rejs2 (recordAll rejs1 t0))\<lparr>rt_PlanVersion := (if po_DisableRelationMarginalUtility po
    then GeneralRecallV3LegacyRelationPlanVersion else GeneralRecallV3FinalStatePlanVersion)\<rparr>"
  define allNotes where "allNotes = recallRelationEligibleNotes (fst (selectFinalStateFamilies candidates it)) it now"
  obtain t2 plans where rels: "traceRecallRelations t1 ranked2 allNotes rq po = (t2, plans)" by fastforce
  have "trace_view (t\<lparr>rt_PlanVersion := x\<rparr>) = trace_view t" for t x by (simp add: trace_view_def)
  then have "trace_view t1 = trace_view t0" by (simp add: t1_def view)
  then have view2: "trace_view t2 = trace_view t0" using traceRecallRelations_view [of t1 ranked2 allNotes rq po] rels by simp
  show thesis
  proof (rule that [OF rank _ allNotes_def])
    show "subseq ranked2 ranked"
      using selectFinalStateFamilies_subseq [of ranked it] selectRankedDistinctFacts_subseq [of ranked1 po it] final dup
      by (simp add: subseq_order.order_trans)
    show "plans_ok allNotes plans" using traceRecallRelations_plans_ok [of allNotes t1 ranked2 rq po] rels by simp
    show "rt_SelectedSet t2 = []"
      "trace_fixed t2 = (map (\<lambda>c. trace_core (evaluateRecallCandidate c rq it now)) candidates, it, evidenceThreshold po)"
      using trace_view_selected [OF view2] trace_view_fixed [OF view2] by (simp_all add: t0_def initializeRecallTrace_view)
  qed (use rank final dup rels in \<open>simp add: PlanRecall_def Let_def it_def [symmetric] now_def [symmetric] t0_def [symmetric]
      t1_def [symmetric] allNotes_def [symmetric]\<close>)
qed

text \<open>The plan consists of bundles of showable notes, or of one hint, within both budgets.\<close>

definition plan_shape ::
  "recall_candidate list \<Rightarrow> recall_request \<Rightarrow> recall_policy \<Rightarrow> planned_recall list \<Rightarrow> (recall_candidate \<times> team_note list) list \<Rightarrow>
     planned_recall list \<Rightarrow> bool" where
  "plan_shape candidates rq po planned bs hints \<longleftrightarrow>
     planned = map (evidenceItem (canonicalRecallNoteIDs candidates)) bs @ hints \<and>
     (hints = [] \<or> bs = [] \<and> (\<exists>h. hints = [h] \<and> hint_item candidates rq po h)) \<and>
     sum_list (map pn_Tokens planned) \<le> rq_TokenBudget rq \<and>
     (0 < rq_MaxItems rq \<longrightarrow> int (length (concat (map bundleIDs bs))) + int (length hints) \<le> rq_MaxItems rq) \<and>
     (\<forall>b \<in> set bs. admitted candidates rq (CompileRecallIntent rq) (observed candidates po) (fst b) \<and>
        (\<forall>n \<in> set (snd b). showable candidates rq po n)) \<and>
     distinct (map (ca_ID \<circ> fst) bs) \<and> (distinct (map ca_ID candidates) \<longrightarrow> distinct (concat (map bundleIDs bs)))"

lemma packed_shape:
  assumes "packed rq (canonicalRecallNoteIDs candidates) plans C bs st" and "plans_ok allNotes plans"
    and "allNotes = recallRelationEligibleNotes (fst (selectFinalStateFamilies candidates it)) it now"
    and "it = CompileRecallIntent rq" and "now = observed candidates po" and "\<forall>c \<in> C. admitted candidates rq it now c"
    and "planRecallHint candidates rq po (ps_trace st) (ps_planned st) (ps_usedTokens st) (ps_selectedNotes st) = (t, hint)"
  shows "plan_shape candidates rq po (ps_planned st @ (case hint of None \<Rightarrow> [] | Some h \<Rightarrow> [h])) bs (case hint of None \<Rightarrow> [] | Some h \<Rightarrow> [h])"
proof -
  have shown: "set allNotes \<subseteq> {n. showable candidates rq po n}"
    using subseq_set [OF selectFinalStateFamilies_subseq [of candidates it]] assms(3-5)
    by (auto simp: recallRelationEligibleNotes_def showable_def)
  have plan: "set (plansFor plans i) \<subseteq> set allNotes" for i using assms(2) set_mset_mono unfolding plans_ok_def by fastforce
  have "distinct (concat (map bundleIDs bs))" if "distinct (map ca_ID candidates)"
  proof -
    have "distinct (map ca_ID (fst (selectFinalStateFamilies candidates it)))"
      using that subseq_distinct [OF subseq_map [OF selectFinalStateFamilies_subseq]] by blast
    then have "distinct (map nt_ID allNotes)"
      by (simp add: assms(3) recallRelationEligibleNotes_def distinct_map_filter comp_def)
    then have "\<forall>i. distinct (map nt_ID (plansFor plans i)) \<and> i \<notin> nt_ID ` set (plansFor plans i)"
      using assms(2) distinct_submset unfolding plans_ok_def by fastforce
    then show ?thesis using assms(1) unfolding packed_def by blast
  qed
  moreover have "admitted candidates rq (CompileRecallIntent rq) (observed candidates po) (fst b) \<and>
      (\<forall>n \<in> set (snd b). showable candidates rq po n)" if "b \<in> set bs" for b
  proof -
    have "fst b \<in> C" "set (snd b) \<subseteq> set (plansFor plans (ca_ID (fst b)))" using assms(1) that unfolding packed_def by blast+
    then show ?thesis using assms(4-6) plan shown by blast
  qed
  moreover have "ps_planned st = [] \<and> hint_item candidates rq po h \<and> ps_usedTokens st + pn_Tokens h \<le> rq_TokenBudget rq \<and>
      (0 < rq_MaxItems rq \<longrightarrow> ps_selectedNotes st < rq_MaxItems rq)" if "hint = Some h" for h
    by (rule planRecallHint_item) (use assms(7) that in simp)
  ultimately show ?thesis
    using assms(1) unfolding plan_shape_def packed_def by (cases hint) auto
qed

lemma PlanRecall_elim:
  assumes "PlanRecall candidates rq po = (planned, trace)" and "0 \<le> rq_TokenBudget rq"
  obtains bs hints where
    "plan_shape candidates rq po planned bs hints" "rt_PlannedTokens trace = sum_list (map pn_Tokens planned)"
    "rt_PlannedNotes trace = int (length planned)" "set (rt_SelectedSet trace) = set (concat (map bundleIDs bs))"
    "trace_fixed trace = (map (\<lambda>c. trace_core (evaluateRecallCandidate c rq (CompileRecallIntent rq) (observed candidates po))) candidates,
       CompileRecallIntent rq, evidenceThreshold po)"
proof (rule PlanRecall_stages [of candidates rq po])
  fix ranked rejs lanes ranked2 t2 plans allNotes
  let ?it = "CompileRecallIntent rq" and ?now = "observed candidates po"
  assume rank: "rankRecallCandidates candidates rq po ?it ?now = (ranked, rejs, lanes)" "subseq ranked2 ranked"
    and eligible: "allNotes = recallRelationEligibleNotes (fst (selectFinalStateFamilies candidates ?it)) ?it ?now"
    and plans: "plans_ok allNotes plans" and t2: "rt_SelectedSet t2 = []"
      "trace_fixed t2 = (map (\<lambda>c. trace_core (evaluateRecallCandidate c rq ?it ?now)) candidates, ?it, evidenceThreshold po)"
    and plan: "PlanRecall candidates rq po =
       (let st = packCandidates rq po (canonicalRecallNoteIDs candidates) plans (orderRecallCandidatesByCoverage ranked2 plans rq ?it)
              \<lparr>ps_trace = t2, ps_planned = [], ps_usedTokens = 0, ps_selectedNotes = 0\<rparr>;
            (t, hint) = planRecallHint candidates rq po (ps_trace st) (ps_planned st) (ps_usedTokens st) (ps_selectedNotes st);
            planned = ps_planned st @ (case hint of None \<Rightarrow> [] | Some h \<Rightarrow> [h])
        in (planned, finalizeRecallTrace (t\<lparr>rt_PlannedNotes := int (length planned),
             rt_PlannedTokens := ps_usedTokens st + (case hint of None \<Rightarrow> 0 | Some h \<Rightarrow> pn_Tokens h)\<rparr>)))"
  define ordered where "ordered = orderRecallCandidatesByCoverage ranked2 plans rq ?it"
  define st where "st = packCandidates rq po (canonicalRecallNoteIDs candidates) plans ordered
    \<lparr>ps_trace = t2, ps_planned = [], ps_usedTokens = 0, ps_selectedNotes = 0\<rparr>"
  obtain t hint where hint: "planRecallHint candidates rq po (ps_trace st) (ps_planned st) (ps_usedTokens st) (ps_selectedNotes st) = (t, hint)"
    by fastforce
  have start: "packed rq (canonicalRecallNoteIDs candidates) plans (set ordered) [] \<lparr>ps_trace = t2, ps_planned = [], ps_usedTokens = 0, ps_selectedNotes = 0\<rparr>"
    using assms(2) t2(1) by (simp add: packed_def)
  obtain bs where bs: "packed rq (canonicalRecallNoteIDs candidates) plans (set ordered) bs st" and fixed: "trace_fixed (ps_trace st) = trace_fixed t2"
    using packCandidates_packed [OF start, of ordered po] by (auto simp: st_def)
  have view: "trace_view t = trace_view (ps_trace st)"
    using planRecallHint_view [of candidates rq po "ps_trace st" "ps_planned st" "ps_usedTokens st" "ps_selectedNotes st"] hint by simp
  have ordered: "\<forall>c \<in> set ordered. admitted candidates rq ?it ?now c"
    using orderRecallCandidatesByCoverage_ids(2) [of ranked2 plans rq ?it] subseq_set [OF rank(2)] rankRecallCandidates_admitted(1) [OF rank(1)]
    unfolding ordered_def by blast
  have result: "planned = ps_planned st @ (case hint of None \<Rightarrow> [] | Some h \<Rightarrow> [h])"
    "trace = finalizeRecallTrace (t\<lparr>rt_PlannedNotes := int (length planned),
       rt_PlannedTokens := ps_usedTokens st + (case hint of None \<Rightarrow> 0 | Some h \<Rightarrow> pn_Tokens h)\<rparr>)"
    using assms(1) hint unfolding plan by (auto simp: Let_def st_def ordered_def)
  have "plan_shape candidates rq po planned bs (case hint of None \<Rightarrow> [] | Some h \<Rightarrow> [h])"
    unfolding result(1) by (rule packed_shape [OF bs plans eligible refl refl ordered hint])
  moreover have "rt_PlannedTokens trace = sum_list (map pn_Tokens planned)" "rt_PlannedNotes trace = int (length planned)"
    using bs unfolding result packed_def by (auto simp: finalizeRecallTrace_def Let_def split: option.splits)
  moreover have "set (rt_SelectedSet trace) = set (concat (map bundleIDs bs))"
    using bs trace_view_selected [OF view] unfolding result(2) packed_def by (simp add: finalizeRecallTrace_def Let_def)
  moreover have "trace_fixed trace = trace_fixed t2"
    using fixed trace_view_fixed [OF view] unfolding result(2) by (simp add: finalizeRecallTrace_def trace_fixed_def Let_def)
  ultimately show thesis using t2(2) by (intro that [of bs]) simp_all
qed

end
