(* ===== verification/Recall_Properties.thy ===== *)
theory Recall_Properties
  imports Recall_Theorems
begin

text \<open>
  The promises of the planner that the other components rely on: budgets, grounding, the meaning of sufficient
  evidence, and the range of relevances.
\<close>

section \<open>Budgets\<close>

lemma evidenceItem_simps [simp]:
  "pn_Note (evidenceItem canon b) = ca_Note (fst b)" "pn_Text (evidenceItem canon b) = recallText (fst b) (snd b)"
  "pn_Tokens (evidenceItem canon b) = estimateTokens (recallText (fst b) (snd b))" "pn_ClaimNoteDelivery (evidenceItem canon b)"
  "pn_Relevance (evidenceItem canon b) = ca_evidenceConfidence (fst b)"
  "pn_CanonicalNoteID (evidenceItem canon b) = canonicalRecallNoteID (fst b)"
  by (simp_all add: evidenceItem_def plannedEvidence_def split_def)

lemma PlanRecall_fits:
  assumes "PlanRecall candidates rq po = (planned, trace)" and "0 \<le> rq_TokenBudget rq"
  shows "sum_list (map pn_Tokens planned) \<le> rq_TokenBudget rq \<and> rt_PlannedTokens trace = sum_list (map pn_Tokens planned) \<and>
    (0 < rq_MaxItems rq \<longrightarrow> int (length planned) \<le> rq_MaxItems rq) \<and>
    (\<forall>p \<in> set planned. pn_Tokens p = estimateTokens (pn_Text p))"
proof -
  obtain bs hints where shape: "plan_shape candidates rq po planned bs hints" "rt_PlannedTokens trace = sum_list (map pn_Tokens planned)"
    using PlanRecall_elim [OF assms] by metis
  have "length bs \<le> length (concat (map bundleIDs bs))" by (induction bs) (auto simp: bundleIDs_def)
  then have "int (length planned) \<le> int (length (concat (map bundleIDs bs))) + int (length hints)"
    using shape(1) by (auto simp: plan_shape_def)
  moreover have "pn_Tokens p = estimateTokens (pn_Text p)" if "p \<in> set planned" for p
    using that shape(1) unfolding plan_shape_def by (auto simp: hint_item_def)
  ultimately show ?thesis using shape unfolding plan_shape_def by force
qed

text \<open>C20. A recall plan fits the request: the token costs of the planned texts are their estimates, they add up
  to the tokens the trace reports, the sum stays within the token budget, and with an item limit there are no more
  planned items than that.\<close>

theorem PlanRecall_budget:
  assumes "PlanRecall candidates rq po = (planned, trace)" and "0 \<le> rq_TokenBudget rq"
  shows "sum_list (map pn_Tokens planned) \<le> rq_TokenBudget rq \<and> rt_PlannedTokens trace = sum_list (map pn_Tokens planned) \<and>
    (0 < rq_MaxItems rq \<longrightarrow> int (length planned) \<le> rq_MaxItems rq) \<and>
    (\<forall>p \<in> set planned. pn_Tokens p = estimateTokens (pn_Text p))"
  using assms by (rule PlanRecall_fits)

section \<open>Grounding\<close>

lemma showable_gates:
  "showable candidates rq po n \<longleftrightarrow> n \<in> ca_Note ` set candidates \<and> nt_EvidenceEventIDs n \<noteq> [] \<and>
     \<not> unsafeRecallContent (noteText n) \<and> fst (temporalGate n (CompileRecallIntent rq) (observed candidates po))"
  by (auto simp: showable_def recallHardGateFailure_def RejectProvenanceGate_def RejectUnsafeContent_def RejectTemporalGate_def)

lemma admitted_showable:
  "admitted candidates rq (CompileRecallIntent rq) (observed candidates po) c \<Longrightarrow> showable candidates rq po (ca_Note c)"
  by (auto simp: admitted_def showable_def)

text \<open>What an item shows: a bundle of showable notes, or a hint on its own.\<close>

definition grounded_item :: "recall_candidate list \<Rightarrow> recall_request \<Rightarrow> recall_policy \<Rightarrow> planned_recall \<Rightarrow> team_note list \<Rightarrow> bool" where
  "grounded_item candidates rq po p related \<longleftrightarrow>
     (if pn_ClaimNoteDelivery p
      then pn_Text p = formatRecall (pn_Note p) related \<and>
        (\<forall>n \<in> set (pn_Note p # related). n \<in> ca_Note ` set candidates \<and> nt_EvidenceEventIDs n \<noteq> [] \<and>
           \<not> unsafeRecallContent (noteText n) \<and> fst (temporalGate n (CompileRecallIntent rq) (observed candidates po)))
      else po_EnableHintRecall po \<and> related = [] \<and> pn_Note p \<in> ca_Note ` set candidates \<and> (\<exists>q. pn_Text p = hintText q))"

lemma PlanRecall_items:
  assumes "PlanRecall candidates rq po = (planned, trace)" and "0 \<le> rq_TokenBudget rq"
  obtains related where "list_all2 (grounded_item candidates rq po) planned related"
    "distinct (map ca_ID candidates) \<Longrightarrow> distinct (concat (map2 (\<lambda>p ns. map nt_ID (pn_Note p # ns)) planned related))"
    "list_all pn_ClaimNoteDelivery planned \<or> length planned = 1"
    "set (rt_SelectedSet trace) = (\<Union>(p, ns) \<in> set (zip planned related). if pn_ClaimNoteDelivery p then nt_ID ` set (pn_Note p # ns) else {})"
proof -
  obtain bs hints where shape: "plan_shape candidates rq po planned bs hints"
    and sel: "set (rt_SelectedSet trace) = set (concat (map bundleIDs bs))"
    using PlanRecall_elim [OF assms] by metis
  have ev: "list_all2 (grounded_item candidates rq po) (map (evidenceItem canon) bs) (map snd bs)" for canon
    using shape admitted_showable unfolding plan_shape_def list_all2_map1 list_all2_map2
    by (intro list.rel_refl_strong) (auto simp: grounded_item_def simp flip: showable_gates)
  have ids: "map2 (\<lambda>p ns. map nt_ID (pn_Note p # ns)) (map (evidenceItem canon) bs) (map snd bs) = map bundleIDs bs" for canon
    by (induction bs) (simp_all add: bundleIDs_def)
  from shape consider (evidence) "planned = map (evidenceItem (canonicalRecallNoteIDs candidates)) bs" "hints = []"
    | (hint) h where "planned = [h]" "bs = []" "hint_item candidates rq po h"
    unfolding plan_shape_def by auto
  then show thesis
  proof cases
    case evidence
    show thesis
    proof (rule that [of "map snd bs"])
      show "set (rt_SelectedSet trace) =
        (\<Union>(p, ns) \<in> set (zip planned (map snd bs)). if pn_ClaimNoteDelivery p then nt_ID ` set (pn_Note p # ns) else {})"
        unfolding sel evidence(1) by (induction bs) (simp_all add: bundleIDs_def)
    qed (use shape ev ids in \<open>auto simp: evidence plan_shape_def list_all_iff\<close>)
  next
    case hint
    then show thesis using sel by (intro that [of "[[]]"]) (auto simp: hint_item_def grounded_item_def)
  qed
qed

text \<open>C21. A plan only shows what it may: an item that claims a delivery is the formatted text of a candidate's
  note and of related notes, all of which have evidence, contain no instruction to the reader and are valid at the
  time the query asks about; when the candidates have different notes, no note is shown twice; and an item that is
  not a claim is a hint, only when hints are enabled and only alone.\<close>

theorem PlanRecall_grounded:
  assumes "PlanRecall candidates rq po = (planned, trace)" and "0 \<le> rq_TokenBudget rq"
  shows "\<exists>related. list_all2 (grounded_item candidates rq po) planned related \<and>
    (distinct (map ca_ID candidates) \<longrightarrow> distinct (concat (map2 (\<lambda>p ns. map nt_ID (pn_Note p # ns)) planned related))) \<and>
    (list_all pn_ClaimNoteDelivery planned \<or> length planned = 1)"
  by (rule PlanRecall_items [OF assms]) blast

section \<open>Sufficient evidence\<close>

lemma trace_core_eq:
  assumes "map trace_core ts = map (\<lambda>c. trace_core (f c)) cs" and "t \<in> set ts"
  shows "\<exists>c \<in> set cs. cd_NoteID t = cd_NoteID (f c) \<and> cd_CoveredFacts t = cd_CoveredFacts (f c) \<and>
    cd_EvidenceConfidence t = cd_EvidenceConfidence (f c)"
proof -
  have "trace_core t \<in> (\<lambda>c. trace_core (f c)) ` set cs" using assms by (metis (no_types, lifting) image_eqI list.set_map)
  then show ?thesis by (auto simp: trace_core_def)
qed

lemma evaluateRecallCandidate_simps [simp]:
  "cd_NoteID (evaluateRecallCandidate c rq it now) = ca_ID c"
  "cd_CoveredFacts (evaluateRecallCandidate c rq it now) = coveredRecallFacts (ca_Note c) it"
  by (simp_all add: evaluateRecallCandidate_def candidateTrace_def Let_def)

lemma SummarizeRecallDecision_sufficient:
  assumes "dc_EvidenceSufficient (SummarizeRecallDecision trace)" and "w \<in> set (ri_RequestedFacts (rt_Intent trace))"
  obtains t where "t \<in> set (rt_CandidateTraces trace)" "cd_NoteID t \<in> set (rt_SelectedSet trace)" "w \<in> set (cd_CoveredFacts t)"
    "\<not> fl_less (cd_EvidenceConfidence t) (rt_EvidenceThreshold trace)"
  using assms by (auto simp: SummarizeRecallDecision_def coversRequiredFacts_def list_all_iff Let_def split: if_splits)


section \<open>Relevance\<close>

lemma requestedRecallFacts_length: "length (requestedRecallFacts q) \<le> 8"
proof -
  have "length (explicitRequestedRecallFacts q) \<le> length factRules" by (simp add: explicitRequestedRecallFacts_def)
  then show ?thesis by (simp add: requestedRecallFacts_def Let_def factRules_def)
qed

lemma CompileRecallIntent_facts: "ri_RequestedFacts (CompileRecallIntent rq) = requestedRecallFacts (to_lower (rq_Query rq))"
  by (simp add: CompileRecallIntent_def Let_def)

lemma fl_one: "fl_nonneg (fl_int 1)" "\<not> fl_isInf (fl_int 20)" "\<not> fl_isInf (fl_int 25)" "fl_mag (fl_int 100) \<noteq> 0" "\<not> fl_isInf (fl_int 100)"
  by (simp_all add: fl_int_nonneg fl_int_finite)

lemma scorecard_nonneg:
  assumes "length (ri_RequestedFacts it) \<le> 8" and "int (length (searchableTerms (rq_Query rq))) < 2 ^ 63"
    and "length matched \<le> length (searchableTerms (rq_Query rq))"
  shows "\<forall>s \<in> set (recallScorecard n rq it matched passed). fl_nonneg (sc_Points s)"
proof -
  have cov: "0 \<le> requiredFactCoverage n it" "requiredFactCoverage n it < 2 ^ 63"
    using order_trans [OF length_filter_le assms(1), of "recallFactMatched n (to_lower (noteText n))"]
    by (simp_all add: requiredFactCoverage_def)
  have fact: "fl_nonneg (fl_min (fl_mul (fl_int (requiredFactCoverage n it)) (fl_int 20)) (fl_int 40))" if "0 < requiredFactCoverage n it"
    using that cov fl_one by (intro float_nonneg) (simp_all add: fl_int_finite)
  have lex: "fl_nonneg (fl_div (fl_mul (fl_int 25) (fl_int (int (length matched)))) (fl_int (int (length (searchableTerms (rq_Query rq))))))"
    if "searchableTerms (rq_Query rq) \<noteq> []" "matched \<noteq> []"
    using that assms(2,3) fl_one by (intro float_nonneg) (simp_all add: fl_int_finite)
  show ?thesis by (auto simp: recallScorecard_def Let_def fact lex fl_int_nonneg)
qed

lemma totalPoints_nonneg: "fl_nonneg x \<Longrightarrow> \<forall>s \<in> set ss. fl_nonneg (sc_Points s) \<Longrightarrow> fl_nonneg (totalPoints x ss)"
  by (induction x ss rule: totalPoints.induct) (simp_all add: fl_add_nonneg)

definition fl_unit :: "float64 \<Rightarrow> bool" where
  "fl_unit x \<longleftrightarrow> fl_le 0 x \<and> fl_le x (fl_int 1)"

lemma fl_zero: "fl_make False 0 = 0" "fl_nonneg 0"
  using fl_zero_nonneg by (simp_all add: fl_make_def)

lemma matchedRecallTerms_length: "length (matchedRecallTerms n q) \<le> length (searchableTerms q)"
  by (simp add: matchedRecallTerms_def)

lemma evidence_confidence_unit:
  assumes "int (length (searchableTerms (rq_Query rq))) < 2 ^ 63"
  shows "fl_unit (cd_EvidenceConfidence (evaluateRecallCandidate c rq (CompileRecallIntent rq) now))"
proof -
  define points where "points = totalPoints 0 (recallScorecard (ca_Note c) rq (CompileRecallIntent rq) (matchedRecallTerms (ca_Note c) (rq_Query rq))
    (fst (temporalGate (ca_Note c) (CompileRecallIntent rq) now)))"
  have "fl_nonneg points"
    unfolding points_def using assms matchedRecallTerms_length requestedRecallFacts_length
    by (intro totalPoints_nonneg fl_zero scorecard_nonneg) (simp_all add: CompileRecallIntent_facts)
  then have "fl_nonneg (fl_div points (fl_int 100))" using fl_one by (intro float_nonneg) simp_all
  then have "fl_nonneg (fl_min (fl_div points (fl_int 100)) (fl_int 1))" "fl_le (fl_min (fl_div points (fl_int 100)) (fl_int 1)) (fl_int 1)"
    using fl_one(1) fl_min_nonneg fl_min_le by blast+
  then show ?thesis
    by (simp add: evaluateRecallCandidate_def candidateTrace_def points_def [symmetric] fl_unit_def fl_nonneg_le fl_zero Let_def)
qed

lemma fl_unit_ends: "fl_unit 0" "fl_unit (fl_int 1)"
  using fl_zero fl_one(1) by (auto simp: fl_unit_def fl_nonneg_le fl_nonneg_def [of 0] fl_le_def)

lemma clampUnit_unit: "\<not> fl_isNaN (clampUnit x) \<Longrightarrow> fl_unit (clampUnit x)"
  using fl_unit_ends by (auto simp: clampUnit_def fl_unit_def fl_less_def fl_le_def split: if_splits)

lemma hintUtility_unit: "\<not> fl_isNaN (hintUtility c rq t) \<Longrightarrow> fl_unit (hintUtility c rq t)"
  unfolding hintUtility_def Let_def by (rule clampUnit_unit)

text \<open>Relevances are numbers between 0 and 1, whatever the scores the adapter supplied (not a number included):
  the confidence of every planned note and the utility of every planned hint.\<close>

theorem PlanRecall_relevance_unit:
  assumes "PlanRecall candidates rq po = (planned, trace)" and "0 \<le> rq_TokenBudget rq"
    and "int (length (searchableTerms (rq_Query rq))) < 2 ^ 63" and "p \<in> set planned"
  shows "fl_le 0 (pn_Relevance p) \<and> fl_le (pn_Relevance p) (fl_int 1)"
proof -
  obtain bs hints where shape: "plan_shape candidates rq po planned bs hints" using PlanRecall_elim [OF assms(1,2)] by metis
  consider (evidence) b where "b \<in> set bs" "p = evidenceItem (canonicalRecallNoteIDs candidates) b" | (hint) "hint_item candidates rq po p"
    using shape assms(4) unfolding plan_shape_def by auto
  then have "fl_unit (pn_Relevance p)"
  proof cases
    case evidence
    then have "admitted candidates rq (CompileRecallIntent rq) (observed candidates po) (fst b)" using shape by (simp add: plan_shape_def)
    then show ?thesis using evidence(2) evidence_confidence_unit [OF assms(3)] by (auto simp: admitted_def)
  next
    case hint
    then show ?thesis using hintUtility_unit by (auto simp: hint_item_def)
  qed
  then show ?thesis by (simp add: fl_unit_def)
qed

section \<open>A plan with one note\<close>

lemma stable_sort_single: "stable_sort before [x] = [x]"
  by (metis mset_stable_sort mset_single_iff_right mset.simps(1) mset.simps(2))

lemma PlanRecall_alone:
  fixes c rq po
  defines "it \<equiv> CompileRecallIntent rq" and "now \<equiv> observed [c] po"
  assumes "recallHardGateFailure (ca_Note c) it now = []" and "blank (rq_Query rq)" and "\<not> po_EnableHintRecall po"
    and "estimateTokens (formatRecall (ca_Note c) []) \<le> rq_TokenBudget rq"
  shows "trace_view (snd (PlanRecall [c] rq po)) =
      ([trace_core (evaluateRecallCandidate c rq it now)], [ca_ID c], [ca_ID c], it, evidenceThreshold po) \<and>
    rt_BudgetDrops (snd (PlanRecall [c] rq po)) = [] \<and> map pn_Note (fst (PlanRecall [c] rq po)) = [ca_Note c]"
proof -
  define c' where "c' = (evaluateRecallRanking c rq it now)\<lparr>ca_explicitLane := 1\<rparr>"
  have c': "ca_Note c' = ca_Note c" "ca_CanonicalNoteID c' = ca_CanonicalNoteID c" by (simp_all add: c'_def)
  have rank: "rankRecallCandidates [c] rq po it now = ([c'], [], \<lparr>ls_exact = [], ls_lexical = [], ls_semantic = []\<rparr>)"
    using assms(3,4) by (simp add: rankRecallCandidates_def evaluatedRecallCandidates_def rankedFor_def sortRecallCandidates_def
        stable_sort_single Let_def c'_def)
  have final: "selectFinalStateFamilies [d] it = ([d], [])" for d
    by (auto simp: selectFinalStateFamilies_def familyWinners_def isFinalState_def Let_def go_map)
  have dup: "selectRankedDistinctFacts [d] po it = ([d], [])" for d by (simp add: selectRankedDistinctFacts_def)
  have allNotes: "recallRelationEligibleNotes [c] it now = [ca_Note c]" using assms(3) by (simp add: recallRelationEligibleNotes_def)
  have none: "relatedNotes (ca_Note c) [ca_Note c] = []" by (simp add: relatedNotes_def)
  have rel0: "relevantRelatedNotes [] q = []" for q by (simp add: relevantRelatedNotes_def Let_def)
  have mu: "marginallyUsefulRelatedNotes p [] rq = ([], [])" for p
    by (simp add: marginallyUsefulRelatedNotes_def Let_def usefulRelated.simps)
  have rels: "traceRecallRelations t [c'] [ca_Note c] rq po = (t, [(ca_ID c, [])])"
    if "rt_RelationReachableSet t = []" "rt_RelationRejections t = []" for t
    using that by (simp add: traceRecallRelations_def traceRelation_def c' none rel0 mu recordRecallReachable_def
        recordRecallRelations_def recordRelationMarginalUtilityDrops_def recordMarginalUtilityCandidateDrops_def
        recordRelationRelevanceDrops_def Let_def)
  define t0 where "t0 = initializeRecallTrace [c] [c'] rq it now (evidenceThreshold po) \<lparr>ls_exact = [], ls_lexical = [], ls_semantic = []\<rparr> []"
  have t0: "trace_view t0 = ([trace_core (evaluateRecallCandidate c rq it now)], [], [], it, evidenceThreshold po)"
    "rt_RelationReachableSet t0 = []" "rt_RelationRejections t0 = []" "rt_Rejections t0 = []" "rt_BudgetDrops t0 = []"
    by (simp_all add: t0_def initializeRecallTrace_def applyBoundedRecallLanes_def trace_view_def tracedFor_def Let_def)
  define t1 where "t1 = t0\<lparr>rt_PlanVersion := (if po_DisableRelationMarginalUtility po
    then GeneralRecallV3LegacyRelationPlanVersion else GeneralRecallV3FinalStatePlanVersion)\<rparr>"
  have t1: "trace_view t1 = trace_view t0" "rt_RelationReachableSet t1 = []" "rt_RelationRejections t1 = []"
      "rt_Rejections t1 = []" "rt_BudgetDrops t1 = []"
    using t0(2-) by (simp_all add: t1_def trace_view_def)
  have pack: "packCandidate rq po canon [(ca_ID c, [])] c' \<lparr>ps_trace = t1, ps_planned = [], ps_usedTokens = 0, ps_selectedNotes = 0\<rparr> =
      \<lparr>ps_trace = markRecallEvidence (recordPreBudgetSelection t1 (ca_ID c)) (ca_Note c) [], ps_planned = [evidenceItem canon (c', [])],
       ps_usedTokens = estimateTokens (formatRecall (ca_Note c) []), ps_selectedNotes = 1\<rparr>" for canon
    using assms(6) t0(1) t1(1)
    by (simp add: packCandidate_def planRecallRelated_def excludeRecallIDs_def plansFor_def c' evidenceItem_def recallIDSelected_def
        trace_view_def Let_def)
  show ?thesis
    using rank final dup allNotes assms(4,5) t0(1) t1 
    by (simp add: PlanRecall_def it_def [symmetric] now_def [symmetric] t0_def [symmetric] t1_def [symmetric] rels c' pack
        orderRecallCandidatesByCoverage_def recordAll_def planRecallHint_def finalizeRecallTrace_def markRecallEvidence_def
        selectNote_def markRecallCandidateEvidence_def recordPreBudgetSelection_def trace_view_def evidenceItem_def plannedEvidence_def
        appendRecallID_def recallIDSelected_def updateTrace_core trace_core_def Let_def)
qed

definition shown_note :: team_note where
  "shown_note = zeroNote\<lparr>nt_ID := ''n'', nt_Key := ''k'', nt_Kind := KindStatus, nt_Subject := ''ci'', nt_Body := ''green'',
     nt_TaskRef := ''t'', nt_EvidenceEventIDs := [''e''], nt_State := StateActive, nt_Revision := 1, nt_CreatedAt := 5,
     nt_SoftExpiresAt := 100, nt_HardExpiresAt := 200, nt_SourceOccurredAt := 5\<rparr>"

definition shown_request :: recall_request where
  "shown_request = \<lparr>rq_Actor = \<lparr>UserID = ''u'', AgentID = ''a'', SessionID = ''s''\<rparr>, rq_TaskRef = ''t'', rq_ThreadRef = [],
     rq_TokenBudget = 20, rq_Query = [], rq_MaxItems = 1\<rparr>"

definition shown_policy :: recall_policy where
  "shown_policy = DefaultRecallPolicy\<lparr>po_ObservationTime := 50\<rparr>"

definition shown_candidate :: recall_candidate where
  "shown_candidate = recallCandidate shown_note [] 0 None"

lemma shown_gate:
  "recallHardGateFailure (ca_Note shown_candidate) (CompileRecallIntent shown_request) (observed [shown_candidate] shown_policy) = []"
  by code_simp

lemma shown_fields:
  "blank (rq_Query shown_request)" "\<not> po_EnableHintRecall shown_policy" "rq_TokenBudget shown_request = 20" "rq_MaxItems shown_request = 1"
  "searchableTerms (rq_Query shown_request) = []" "ca_Note shown_candidate = shown_note" "nt_ID shown_note = ''n''"
  by code_simp+

lemma shown_tokens: "estimateTokens (formatRecall shown_note []) = 9"
  by code_simp

lemma shown_facts:
  "ri_RequestedFacts (CompileRecallIntent shown_request) = [''status'']"
  "coveredRecallFacts shown_note (CompileRecallIntent shown_request) = [''status'']"
  by code_simp+

lemma shown_confidence:
  "fl_less (cd_EvidenceConfidence (evaluateRecallCandidate shown_candidate shown_request (CompileRecallIntent shown_request)
     (observed [shown_candidate] shown_policy))) (evidenceThreshold shown_policy) = False"
  by code_simp

lemma shown_gates_passed:
  "list_all hg_Passed (cd_HardGateResults (evaluateRecallCandidate shown_candidate shown_request (CompileRecallIntent shown_request)
     (observed [shown_candidate] shown_policy)))"
  by code_simp

lemma shown_plan:
  "trace_view (snd (PlanRecall [shown_candidate] shown_request shown_policy)) =
     ([trace_core (evaluateRecallCandidate shown_candidate shown_request (CompileRecallIntent shown_request)
        (observed [shown_candidate] shown_policy))], [''n''], [''n''], CompileRecallIntent shown_request, evidenceThreshold shown_policy)"
  "rt_BudgetDrops (snd (PlanRecall [shown_candidate] shown_request shown_policy)) = []"
  "map pn_Note (fst (PlanRecall [shown_candidate] shown_request shown_policy)) = [shown_note]"
  using PlanRecall_alone [OF shown_gate shown_fields(1,2)] by (simp_all add: shown_tokens shown_fields)

lemma shown_sufficient: "dc_EvidenceSufficient (SummarizeRecallDecision (snd (PlanRecall [shown_candidate] shown_request shown_policy)))"
proof -
  define trace where "trace = snd (PlanRecall [shown_candidate] shown_request shown_policy)"
  have view: "trace_view trace = ([trace_core (evaluateRecallCandidate shown_candidate shown_request (CompileRecallIntent shown_request)
        (observed [shown_candidate] shown_policy))], [''n''], [''n''], CompileRecallIntent shown_request, evidenceThreshold shown_policy)"
    and drops: "rt_BudgetDrops trace = []"
    using shown_plan unfolding trace_def by blast+
  then obtain t where t: "rt_CandidateTraces trace = [t]" by (auto simp: trace_view_def)
  have core: "cd_NoteID t = ''n''" "cd_CoveredFacts t = [''status'']" "\<not> fl_less (cd_EvidenceConfidence t) (evidenceThreshold shown_policy)"
      "list_all hg_Passed (cd_HardGateResults t)"
    using view t shown_facts shown_fields shown_confidence shown_gates_passed by (auto simp: trace_view_def trace_core_def)
  show ?thesis
    using view core drops t shown_facts(1) unfolding trace_def [symmetric]
    by (simp add: SummarizeRecallDecision_def hasAnswerBearingBudgetDrop_def coversRequiredFacts_def trace_view_def Let_def)
qed

theorem PlanRecall_budget_witness:
  "(case PlanRecall [shown_candidate] shown_request shown_policy of (planned, trace) \<Rightarrow>
     map pn_Note planned = [shown_note] \<and> sum_list (map pn_Tokens planned) \<le> 20 \<and>
     rt_PlannedTokens trace = sum_list (map pn_Tokens planned) \<and> length planned \<le> 1)"
  using PlanRecall_budget [OF prod.collapse [symmetric], of shown_request "[shown_candidate]" shown_policy] shown_plan(3) shown_fields
  by (simp add: split_def)

theorem PlanRecall_grounded_witness:
  "\<exists>p related. fst (PlanRecall [shown_candidate] shown_request shown_policy) = [p] \<and> pn_Note p = shown_note \<and>
     grounded_item [shown_candidate] shown_request shown_policy p related"
proof -
  obtain related where "list_all2 (grounded_item [shown_candidate] shown_request shown_policy)
      (fst (PlanRecall [shown_candidate] shown_request shown_policy)) related"
    using PlanRecall_grounded [OF prod.collapse [symmetric], of shown_request "[shown_candidate]" shown_policy] shown_fields by auto
  moreover obtain p where "fst (PlanRecall [shown_candidate] shown_request shown_policy) = [p]" "pn_Note p = shown_note"
    using shown_plan(3) by (cases "fst (PlanRecall [shown_candidate] shown_request shown_policy)") auto
  ultimately show ?thesis by (auto simp: list_all2_Cons1)
qed


theorem PlanRecall_relevance_unit_witness:
  "\<exists>p \<in> set (fst (PlanRecall [shown_candidate] shown_request shown_policy)). fl_le 0 (pn_Relevance p) \<and> fl_le (pn_Relevance p) (fl_int 1)"
proof -
  obtain p where "fst (PlanRecall [shown_candidate] shown_request shown_policy) = [p]"
    using shown_plan(3) by (cases "fst (PlanRecall [shown_candidate] shown_request shown_policy)") auto
  then show ?thesis
    using PlanRecall_relevance_unit [OF prod.collapse [symmetric], of shown_request p "[shown_candidate]" shown_policy] shown_fields by auto
qed

section \<open>Where the code departs from its intent\<close>

text \<open>The comparison the ranking sorts with is not an order: of two candidates with the same confidence, each precedes
  the other when the newer one matches the scope less exactly, because a candidate that loses the comparison of
  evidence still goes on to the tie break.\<close>

lemma recallBefore_not_asymmetric:
  "\<exists>l r. recallBefore shown_request l r \<and> recallBefore shown_request r l"
proof -
  let ?r = shown_candidate and ?l = "recallCandidate (shown_note\<lparr>nt_ID := ''m'', nt_SourceOccurredAt := 4\<rparr>) [] 0 None\<lparr>ca_exactMatch := 1\<rparr>"
  have "recallBefore shown_request ?l ?r" "recallBefore shown_request ?r ?l" by code_simp+
  then show ?thesis by blast
qed

text \<open>The query is lowered before the pattern of a timestamp is searched in it, and the pattern has capital letters: a
  query that names a time of day is answered for the start of that day.\<close>

lemma timestamp_boundary_midnight:
  "ri_ValidAt (CompileRecallIntent (shown_request\<lparr>rq_Query := ''as of 2024-01-02T10:00:00Z''\<rparr>)) = parseDate ''2024-01-02''"
  "parseRFC3339 ''2024-01-02T10:00:00Z'' = Some (the (parseDate ''2024-01-02'') + hours 10)"
  by code_simp+

end
