(* ===== verification/Note_Recall.thy ===== *)
theory Note_Recall
  imports Recall_Properties Ledger_Theorems Extraction_Runtime
begin

text \<open>
  Recall from the ledger (\<open>Ledger.Recall\<close> in \<open>internal/teamnote/ledger.go\<close>, \<open>RecallNotes\<close> of the scoped store in
  \<open>store.go\<close> and of the runtime in \<open>runtime/app.go\<close>): the live notes addressed to the actor are planned, the plan is
  turned into an envelope, and every claim is remembered.  The ledger keeps its notes in a Go map, whose order of
  iteration is not specified: \<open>order\<close> is the order of one call, any permutation.  The recall policy and the reading of
  the clock are arguments.
\<close>

section \<open>Operations\<close>

definition ledgerRecallPolicy :: recall_policy where
  "ledgerRecallPolicy = zeroPolicy\<lparr>po_SuppressDuplicates := True, po_DegradeRelated := True\<rparr>"

definition ledgerCandidate :: "recall_request \<Rightarrow> team_note \<Rightarrow> recall_candidate" where
  "ledgerCandidate request n = recallCandidate n [] (fl_int (QueryScore n (rq_Query request))) None"

fun deliverPlanned :: "recall_request \<Rightarrow> planned_recall list \<Rightarrow> ledger \<Rightarrow> note_envelope \<Rightarrow> ledger \<times> note_envelope" where
  "deliverPlanned request [] l envelope = (l, envelope)"
| "deliverPlanned request (p # ps) l envelope =
     (if \<not> pn_ClaimNoteDelivery p then
        (if pn_HintFingerprint p \<in> set (lg_hintDeliveries l) then deliverPlanned request ps l envelope
         else deliverPlanned request ps (l\<lparr>lg_hintDeliveries := List.insert (pn_HintFingerprint p) (lg_hintDeliveries l)\<rparr>)
                (AppendPlannedHint envelope p))
      else deliverPlanned request ps
             (l\<lparr>lg_deliveries := List.insert (deliveryKey (pn_Note p) (rq_Actor request)) (lg_deliveries l)\<rparr>)
             (AppendPlannedRecall envelope p))"

definition Recall ::
  "(team_note list \<Rightarrow> team_note list) \<Rightarrow> recall_policy \<Rightarrow> time \<Rightarrow> ledger \<Rightarrow> go_context \<Rightarrow> recall_request \<Rightarrow>
     ledger \<times> note_envelope res" where
  "Recall order recallPolicy now l ctx request =
     (case ctx_err ctx of
        Some e \<Rightarrow> (l, Inl (wrapf ''recall notes context: '' e))
      | None \<Rightarrow>
      case ValidateRecall request of
        Inl e \<Rightarrow> (l, Inl e)
      | Inr _ \<Rightarrow>
          let (l', eligible) = eligibleNotes l now request;
              candidates = map (ledgerCandidate request) (order eligible);
              policy = (if po_CandidateLimit recallPolicy = 0
                then recallPolicy\<lparr>po_CandidateLimit := int (length candidates)\<rparr> else recallPolicy);
              (planned, trace) = PlanRecall candidates request (policy\<lparr>po_ObservationTime := now\<rparr>);
              (l'', envelope) = deliverPlanned request planned l' zeroEnvelope
          in (l'', Inr (envelope\<lparr>en_Decision := SummarizeRecallDecision trace\<rparr>)))"

definition storeRecallNotes ::
  "(team_note list \<Rightarrow> team_note list) \<Rightarrow> recall_policy \<Rightarrow> time \<Rightarrow> scoped_ledger_store \<Rightarrow> go_context \<Rightarrow> string \<Rightarrow>
     recall_request \<Rightarrow> scoped_ledger_store \<times> note_envelope res" where
  "storeRecallNotes order recallPolicy now s ctx scopeID request =
     withLedger s scopeID (Recall order recallPolicy now (scopeLedger s scopeID) ctx request)"

text \<open>The runtime calls the store it was configured with.\<close>

definition appRecallNotes ::
  "('s \<Rightarrow> go_context \<Rightarrow> string \<Rightarrow> recall_request \<Rightarrow> 's \<times> note_envelope res) \<Rightarrow> 's \<Rightarrow> go_context \<Rightarrow> recall_request \<Rightarrow>
     's \<times> note_envelope res" where
  "appRecallNotes recallNotes s ctx request =
     (case ScopeFromContext ctx of
        Inl e \<Rightarrow> (s, Inl (wrapf ''recall notes: '' e))
      | Inr scopeID \<Rightarrow> recallNotes s ctx scopeID request)"

section \<open>What delivery records\<close>

definition detail_id :: "recalled_note \<Rightarrow> string \<times> int" where
  "detail_id d = (rn_NoteID d, rn_Revision d)"

definition planned_id :: "planned_recall \<Rightarrow> string \<times> int" where
  "planned_id p = ((if pn_CanonicalNoteID p = [] then nt_ID (pn_Note p) else pn_CanonicalNoteID p), nt_Revision (pn_Note p))"

lemma AppendPlanned_simps:
  "en_Tokens (AppendPlannedRecall e p) = en_Tokens e + pn_Tokens p" "en_Tokens (AppendPlannedHint e p) = en_Tokens e + pn_Tokens p"
  "en_Items (AppendPlannedRecall e p) = en_Items e @ [pn_Text p]" "en_Items (AppendPlannedHint e p) = en_Items e @ [pn_Text p]"
  "en_Details (AppendPlannedHint e p) = en_Details e"
  "map detail_id (en_Details (AppendPlannedRecall e p)) = map detail_id (en_Details e) @ [planned_id p]"
  "map rn_Text (en_Details (AppendPlannedRecall e p)) = map rn_Text (en_Details e) @ [pn_Text p]"
  by (simp_all add: AppendPlannedRecall_def AppendPlannedHint_def detail_id_def planned_id_def Let_def)

lemma deliverPlanned_spec:
  assumes "deliverPlanned rq ps l e = (l', e')" and "\<forall>p \<in> set ps. 0 \<le> pn_Tokens p"
  shows "map detail_id (en_Details e') = map detail_id (en_Details e) @ map planned_id (filter pn_ClaimNoteDelivery ps)"
    and "map rn_Text (en_Details e') = map rn_Text (en_Details e) @ map pn_Text (filter pn_ClaimNoteDelivery ps)"
    and "en_Tokens e' \<le> en_Tokens e + sum_list (map pn_Tokens ps)"
    and "length (en_Items e') \<le> length (en_Items e) + length ps"
    and "set (lg_deliveries l') = set (lg_deliveries l) \<union> (\<lambda>p. deliveryKey (pn_Note p) (rq_Actor rq)) ` set (filter pn_ClaimNoteDelivery ps)"
    and "l' = l\<lparr>lg_deliveries := lg_deliveries l', lg_hintDeliveries := lg_hintDeliveries l'\<rparr>"
proof -
  have "map detail_id (en_Details e') = map detail_id (en_Details e) @ map planned_id (filter pn_ClaimNoteDelivery ps) \<and>
    map rn_Text (en_Details e') = map rn_Text (en_Details e) @ map pn_Text (filter pn_ClaimNoteDelivery ps) \<and>
    en_Tokens e' \<le> en_Tokens e + sum_list (map pn_Tokens ps) \<and> length (en_Items e') \<le> length (en_Items e) + length ps \<and>
    set (lg_deliveries l') = set (lg_deliveries l) \<union> (\<lambda>p. deliveryKey (pn_Note p) (rq_Actor rq)) ` set (filter pn_ClaimNoteDelivery ps) \<and>
    l' = l\<lparr>lg_deliveries := lg_deliveries l', lg_hintDeliveries := lg_hintDeliveries l'\<rparr>"
    using assms
  proof (induction rq ps l e rule: deliverPlanned.induct)
    case (2 rq p ps l e)
    show ?case
    proof (cases "pn_ClaimNoteDelivery p")
      case True
      with 2(3) [OF _ _ ] 2(4,5) show ?thesis by (auto simp: AppendPlanned_simps)
    next
      case False
      then show ?thesis
      proof (cases "pn_HintFingerprint p \<in> set (lg_hintDeliveries l)")
        case True
        with False 2(1) 2(4,5) show ?thesis by (auto simp: AppendPlanned_simps)
      next
        case new: False
        with False 2(2) 2(4,5) show ?thesis by (auto simp: AppendPlanned_simps)
      qed
    qed
  qed simp
  then show "map detail_id (en_Details e') = map detail_id (en_Details e) @ map planned_id (filter pn_ClaimNoteDelivery ps)"
    "map rn_Text (en_Details e') = map rn_Text (en_Details e) @ map pn_Text (filter pn_ClaimNoteDelivery ps)"
    "en_Tokens e' \<le> en_Tokens e + sum_list (map pn_Tokens ps)"
    "length (en_Items e') \<le> length (en_Items e) + length ps"
    "set (lg_deliveries l') = set (lg_deliveries l) \<union> (\<lambda>p. deliveryKey (pn_Note p) (rq_Actor rq)) ` set (filter pn_ClaimNoteDelivery ps)"
    "l' = l\<lparr>lg_deliveries := lg_deliveries l', lg_hintDeliveries := lg_hintDeliveries l'\<rparr>" by blast+
qed

section \<open>One recall\<close>

lemma ledgerCandidate_simps [simp]: "ca_Note (ledgerCandidate rq n) = n" "ca_CanonicalNoteID (ledgerCandidate rq n) = []"
  by (simp_all add: ledgerCandidate_def recallCandidate_def)

lemma list_all2_left: "list_all2 P xs ys \<Longrightarrow> x \<in> set xs \<Longrightarrow> \<exists>y \<in> set ys. P x y"
  by (induction rule: list_all2_induct) auto

lemma PlanRecall_claims:
  assumes "PlanRecall candidates rq po = (planned, trace)" and "0 \<le> rq_TokenBudget rq" and "\<forall>c \<in> set candidates. ca_CanonicalNoteID c = []"
  shows "distinct (map planned_id (filter pn_ClaimNoteDelivery planned))"
    and "\<And>p. p \<in> set planned \<Longrightarrow> pn_ClaimNoteDelivery p \<Longrightarrow> planned_id p = (nt_ID (pn_Note p), nt_Revision (pn_Note p))"
proof -
  obtain bs hints where shape: "plan_shape candidates rq po planned bs hints" using PlanRecall_elim [OF assms(1,2)] by metis
  let ?item = "evidenceItem (canonicalRecallNoteIDs candidates)"
  have claims: "filter pn_ClaimNoteDelivery planned = map ?item bs"
    using shape unfolding plan_shape_def by (auto simp: hint_item_def filter_map comp_def)
  have pid: "planned_id (?item b) = (ca_ID (fst b), nt_Revision (ca_Note (fst b)))" if "b \<in> set bs" for b
  proof -
    have "admitted candidates rq (CompileRecallIntent rq) (observed candidates po) (fst b)" using shape that by (simp add: plan_shape_def)
    then have "ca_CanonicalNoteID (fst b) = []" using assms(3) by (auto simp: admitted_def)
    then show ?thesis by (simp add: planned_id_def canonicalRecallNoteID_def)
  qed
  have "distinct (map (ca_ID \<circ> fst) bs)" using shape by (simp add: plan_shape_def)
  moreover have "map fst (map planned_id (map ?item bs)) = map (ca_ID \<circ> fst) bs" using pid by simp
  ultimately have "distinct (map fst (map planned_id (map ?item bs)))" by (simp only:)
  then show "distinct (map planned_id (filter pn_ClaimNoteDelivery planned))" unfolding claims distinct_map by blast
  show "planned_id p = (nt_ID (pn_Note p), nt_Revision (pn_Note p))" if "p \<in> set planned" "pn_ClaimNoteDelivery p" for p
  proof -
    have "p \<in> set (filter pn_ClaimNoteDelivery planned)" using that by simp
    then have "p \<in> set (map ?item bs)" unfolding claims .
    then show ?thesis using pid by auto
  qed
qed

lemma Recall_error: "Recall order po now l ctx rq = (l', Inl e) \<Longrightarrow> l' = l"
  by (auto simp: Recall_def split_def Let_def split: option.splits sum.splits)

text \<open>The steps of a recall that returns an envelope.\<close>

lemma Recall_elim:
  assumes "Recall order po now l ctx rq = (l', Inr envelope)"
  obtains l0 eligible policy planned trace where
    "eligibleNotes l now rq = (l0, eligible)" "po_ObservationTime policy = now" "0 < rq_TokenBudget rq"
    "PlanRecall (map (ledgerCandidate rq) (order eligible)) rq policy = (planned, trace)"
    "map detail_id (en_Details envelope) = map planned_id (filter pn_ClaimNoteDelivery planned)"
    "map rn_Text (en_Details envelope) = map pn_Text (filter pn_ClaimNoteDelivery planned)"
    "en_Tokens envelope \<le> sum_list (map pn_Tokens planned)" "length (en_Items envelope) \<le> length planned"
    "en_Decision envelope = SummarizeRecallDecision trace"
    "set (lg_deliveries l') = set (lg_deliveries l) \<union> (\<lambda>p. deliveryKey (pn_Note p) (rq_Actor rq)) ` set (filter pn_ClaimNoteDelivery planned)"
    "l' = l0\<lparr>lg_deliveries := lg_deliveries l', lg_hintDeliveries := lg_hintDeliveries l'\<rparr>"
proof -
  have ctx: "ctx_err ctx = None" and valid: "ValidateRecall rq = Inr ()"
    using assms by (auto simp: Recall_def split: option.splits sum.splits)
  obtain l0 eligible where el: "eligibleNotes l now rq = (l0, eligible)" by fastforce
  define policy where "policy = (if po_CandidateLimit po = 0
    then po\<lparr>po_CandidateLimit := int (length (map (ledgerCandidate rq) (order eligible)))\<rparr> else po)\<lparr>po_ObservationTime := now\<rparr>"
  obtain planned trace where plan: "PlanRecall (map (ledgerCandidate rq) (order eligible)) rq policy = (planned, trace)" by fastforce
  obtain l1 e where del: "deliverPlanned rq planned l0 zeroEnvelope = (l1, e)" by fastforce
  have out: "l' = l1" "envelope = e\<lparr>en_Decision := SummarizeRecallDecision trace\<rparr>"
    using assms ctx valid el plan del by (simp_all add: Recall_def Let_def policy_def)
  have budget: "0 < rq_TokenBudget rq" using valid by (auto simp: ValidateRecall_def split: if_splits)
  have "\<forall>p \<in> set planned. 0 \<le> pn_Tokens p"
    using PlanRecall_fits [OF plan] budget estimateTokens_pos by (metis dual_order.trans less_imp_le zero_le_one)
  note spec = deliverPlanned_spec [OF del this]
  have "lg_deliveries l0 = lg_deliveries l" using el by (auto simp: eligibleNotes_def Let_def)
  then show thesis
    by (intro that [OF el _ budget plan]) (use spec in \<open>auto simp: out policy_def zeroEnvelope_def\<close>)
qed

text \<open>A recall keeps the invariant of the ledger, and it is one of the steps that replay survives.\<close>

lemma Recall_inv:
  assumes "Recall order po now l ctx rq = (l', out)" and "ledger_inv l"
  shows "ledger_inv l' \<and> (l' = l \<or> ledger_op l l')"
proof (cases out)
  case (Inl e)
  then show ?thesis using assms Recall_error by blast
next
  case (Inr envelope)
  then obtain l0 eligible where el: "eligibleNotes l now rq = (l0, eligible)"
    and l': "l' = l0\<lparr>lg_deliveries := lg_deliveries l', lg_hintDeliveries := lg_hintDeliveries l'\<rparr>"
    using assms(1) Recall_elim by metis
  have "ledger_inv (l0\<lparr>lg_deliveries := d, lg_hintDeliveries := h\<rparr>)" for d h
    using eligibleNotes_inv [OF assms(2) el] unfolding ledger_inv_def by (auto)
  moreover have "ledger_op l (l0\<lparr>lg_deliveries := d, lg_hintDeliveries := h\<rparr>)" for d h by (rule ledger_op.recall [OF el])
  ultimately show ?thesis using l' by metis
qed

text \<open>The notes a request may see.\<close>

definition visible_to :: "ledger \<Rightarrow> time \<Rightarrow> recall_request \<Rightarrow> team_note \<Rightarrow> bool" where
  "visible_to l now rq n \<longleftrightarrow> (\<exists>k. mget (lg_notes l) k = Some n) \<and> nt_State n = StateActive \<and> now < nt_SoftExpiresAt n \<and>
     (nt_TaskRef n = [] \<or> nt_TaskRef n = rq_TaskRef rq) \<and> (nt_ThreadRef n = [] \<or> nt_ThreadRef n = rq_ThreadRef rq) \<and>
     (nt_AudienceAgentIDs n = [] \<or> AgentID (rq_Actor rq) \<in> set (nt_AudienceAgentIDs n)) \<and>
     nt_EvidenceEventIDs n \<noteq> [] \<and> \<not> unsafeRecallContent (noteText n)"

lemma eligible_visible:
  assumes "ledger_inv l" and "eligibleNotes l now rq = (l0, eligible)" and "n \<in> set eligible"
  shows "nt_EvidenceEventIDs n \<noteq> [] \<Longrightarrow> \<not> unsafeRecallContent (noteText n) \<Longrightarrow> visible_to l now rq n"
    and "deliveryKey n (rq_Actor rq) \<notin> set (lg_deliveries l)"
  using eligible_live [OF assms(1,2)] assms(3) by (simp_all add: visible_to_def)

lemma Recall_items:
  assumes "PlanRecall (map (ledgerCandidate rq) ns) rq policy = (planned, trace)" and "0 \<le> rq_TokenBudget rq"
    and "mset ns = mset eligible" and "p \<in> set (filter pn_ClaimNoteDelivery planned)"
  shows "\<exists>related. pn_Text p = formatRecall (pn_Note p) related \<and>
    (\<forall>m \<in> set (pn_Note p # related). m \<in> set eligible \<and> nt_EvidenceEventIDs m \<noteq> [] \<and> \<not> unsafeRecallContent (noteText m))"
proof -
  let ?cands = "map (ledgerCandidate rq) ns"
  have shown: "ca_Note ` set ?cands = set eligible" using mset_eq_setD [OF assms(3)] by (simp add: image_image)
  obtain related where items: "list_all2 (grounded_item ?cands rq policy) planned related"
    by (rule PlanRecall_items [OF assms(1,2)])
  obtain rs where "grounded_item ?cands rq policy p rs" using list_all2_left [OF items, of p] assms(4) by auto
  then show ?thesis using assms(4) unfolding grounded_item_def shown by auto
qed

lemma details_planned:
  assumes "map detail_id ds = map planned_id ps" and "map rn_Text ds = map pn_Text ps" and "d \<in> set ds"
  shows "\<exists>p \<in> set ps. detail_id d = planned_id p \<and> rn_Text d = pn_Text p"
proof -
  obtain i where i: "i < length ds" "ds ! i = d" using assms(3) by (auto simp: in_set_conv_nth)
  have "i < length ps" using i(1) assms(1) by (metis length_map)
  moreover from this have "detail_id d = planned_id (ps ! i)" "rn_Text d = pn_Text (ps ! i)" using i assms(1,2) by (metis nth_map)+
  ultimately show ?thesis by (meson nth_mem)
qed

text \<open>C22. What a recall from the ledger returns is confined to the caller: every delivered text is made of stored
  notes that are active, not expired, in the task, thread and audience of the request, supported by evidence and safe,
  the delivered revision was not delivered to this session before and is recorded now, and the envelope keeps the token
  budget.\<close>

theorem Recall_confined:
  assumes "ledger_inv l" and "\<forall>ns. mset (order ns) = mset ns" and "Recall order po now l ctx rq = (l', Inr envelope)"
  shows "en_Tokens envelope \<le> rq_TokenBudget rq \<and>
    (\<forall>d \<in> set (en_Details envelope). \<exists>n related. rn_Text d = formatRecall n related \<and> rn_NoteID d = nt_ID n \<and> rn_Revision d = nt_Revision n \<and>
       deliveryKey n (rq_Actor rq) \<notin> set (lg_deliveries l) \<and> deliveryKey n (rq_Actor rq) \<in> set (lg_deliveries l') \<and>
       (\<forall>m \<in> set (n # related). visible_to l now rq m))"
proof (intro conjI ballI)
  from assms(3) obtain l0 eligible policy planned trace where el: "eligibleNotes l now rq = (l0, eligible)"
    and budget: "0 < rq_TokenBudget rq" and plan: "PlanRecall (map (ledgerCandidate rq) (order eligible)) rq policy = (planned, trace)"
    and ids: "map detail_id (en_Details envelope) = map planned_id (filter pn_ClaimNoteDelivery planned)"
    and texts: "map rn_Text (en_Details envelope) = map pn_Text (filter pn_ClaimNoteDelivery planned)"
    and tokens: "en_Tokens envelope \<le> sum_list (map pn_Tokens planned)"
    and delivered: "set (lg_deliveries l') = set (lg_deliveries l) \<union> (\<lambda>p. deliveryKey (pn_Note p) (rq_Actor rq)) ` set (filter pn_ClaimNoteDelivery planned)"
    by (rule Recall_elim)
  show "en_Tokens envelope \<le> rq_TokenBudget rq" using PlanRecall_fits [OF plan] budget tokens by auto
  fix d assume "d \<in> set (en_Details envelope)"
  then obtain p where p: "p \<in> set (filter pn_ClaimNoteDelivery planned)" "detail_id d = planned_id p" "rn_Text d = pn_Text p"
    using details_planned [OF ids texts] by blast
  have "planned_id p = (nt_ID (pn_Note p), nt_Revision (pn_Note p))"
    using PlanRecall_claims(2) [OF plan less_imp_le [OF budget]] p(1) by simp
  then have d: "rn_NoteID d = nt_ID (pn_Note p)" "rn_Revision d = nt_Revision (pn_Note p)" using p(2) by (simp_all add: detail_id_def)
  obtain related where related: "rn_Text d = formatRecall (pn_Note p) related"
    "\<forall>m \<in> set (pn_Note p # related). m \<in> set eligible \<and> nt_EvidenceEventIDs m \<noteq> [] \<and> \<not> unsafeRecallContent (noteText m)"
    using Recall_items [OF plan less_imp_le [OF budget] spec [OF assms(2)] p(1)] p(3) by auto
  moreover have "deliveryKey (pn_Note p) (rq_Actor rq) \<in> set (lg_deliveries l')" using delivered p(1) by blast
  ultimately show "\<exists>n related. rn_Text d = formatRecall n related \<and> rn_NoteID d = nt_ID n \<and> rn_Revision d = nt_Revision n \<and>
       deliveryKey n (rq_Actor rq) \<notin> set (lg_deliveries l) \<and> deliveryKey n (rq_Actor rq) \<in> set (lg_deliveries l') \<and>
       (\<forall>m \<in> set (n # related). visible_to l now rq m)"
    using d eligible_visible [OF assms(1) el] by (intro exI [of _ "pn_Note p"] exI [of _ related]) auto
qed

section \<open>Histories\<close>

text \<open>What a ledger delivered, over every sequence of extraction runs and recalls, each with its own clock, policy,
  map order and context: the session, the note and the revision of every delivered detail.\<close>

inductive ledger_history :: "ledger \<Rightarrow> (string \<times> string \<times> int) list \<Rightarrow> bool" where
  created: "ledger_history (NewLedger policy) []"
| applied: "ledger_history l ds \<Longrightarrow> ApplyRun marshal clock l ctx run = (l', out) \<Longrightarrow> ledger_history l' ds"
| refused: "ledger_history l ds \<Longrightarrow> Recall order po now l ctx rq = (l', Inl e) \<Longrightarrow> ledger_history l' ds"
| recalled: "ledger_history l ds \<Longrightarrow> \<forall>ns. mset (order ns) = mset ns \<Longrightarrow> Recall order po now l ctx rq = (l', Inr envelope) \<Longrightarrow>
    ledger_history l' (ds @ map (Pair (SessionID (rq_Actor rq))) (map detail_id (en_Details envelope)))"

definition deliveredKey :: "string \<times> string \<times> int \<Rightarrow> string" where
  "deliveredKey d = (case d of (session, noteID, revision) \<Rightarrow> noteID @ '':'' @ show_int revision @ '':'' @ session)"

lemma deliveryKey_delivered: "deliveryKey n a = deliveredKey (SessionID a, nt_ID n, nt_Revision n)"
  by (simp add: deliveryKey_def deliveredKey_def)

lemma ApplyRun_deliveries: "ApplyRun marshal clock l ctx run = (l', out) \<Longrightarrow> lg_deliveries l' = lg_deliveries l"
  by (erule ApplyRun_cases) auto

lemma Recall_new_claims:
  assumes "Recall order po now l ctx rq = (l', Inr envelope)" and "\<forall>ns. mset (order ns) = mset ns"
  defines "new \<equiv> map (Pair (SessionID (rq_Actor rq))) (map detail_id (en_Details envelope))"
  shows "distinct new" and "\<forall>d \<in> set new. deliveredKey d \<notin> set (lg_deliveries l)"
    and "set (lg_deliveries l') = set (lg_deliveries l) \<union> deliveredKey ` set new"
proof -
  from assms(1) obtain l0 eligible policy planned trace where el: "eligibleNotes l now rq = (l0, eligible)"
    and budget: "0 < rq_TokenBudget rq" and plan: "PlanRecall (map (ledgerCandidate rq) (order eligible)) rq policy = (planned, trace)"
    and ids: "map detail_id (en_Details envelope) = map planned_id (filter pn_ClaimNoteDelivery planned)"
    and delivered: "set (lg_deliveries l') = set (lg_deliveries l) \<union> (\<lambda>p. deliveryKey (pn_Note p) (rq_Actor rq)) ` set (filter pn_ClaimNoteDelivery planned)"
    by (rule Recall_elim)
  note claims = PlanRecall_claims [OF plan less_imp_le [OF budget]]
  have key: "deliveredKey (SessionID (rq_Actor rq), planned_id p) = deliveryKey (pn_Note p) (rq_Actor rq)"
    if "p \<in> set (filter pn_ClaimNoteDelivery planned)" for p
    using claims(2) [of p] that by (simp add: deliveryKey_delivered)
  have new: "new = map (\<lambda>p. (SessionID (rq_Actor rq), planned_id p)) (filter pn_ClaimNoteDelivery planned)"
    unfolding new_def ids by simp
  show "distinct new" unfolding new_def ids using claims(1) by (subst distinct_map) (auto simp: inj_on_def)
  show "set (lg_deliveries l') = set (lg_deliveries l) \<union> deliveredKey ` set new"
    unfolding delivered new set_map image_image using key by (intro arg_cong2 [where f = "(\<union>)"] refl image_cong) auto
  have "deliveryKey (pn_Note p) (rq_Actor rq) \<notin> set (lg_deliveries l)" if p: "p \<in> set (filter pn_ClaimNoteDelivery planned)" for p
  proof -
    have "pn_Note p \<in> set eligible" using Recall_items [OF plan less_imp_le [OF budget] spec [OF assms(2)] p] by auto
    then have "eligibleForRecall l (pn_Note p) rq" using el by (auto simp: eligibleNotes_def Let_def)
    then show ?thesis by (simp add: eligibleForRecall_def split: if_splits)
  qed
  then show "\<forall>d \<in> set new. deliveredKey d \<notin> set (lg_deliveries l)" unfolding new using key by auto
qed

lemma ledger_history_inv:
  "ledger_history l ds \<Longrightarrow> distinct ds \<and> deliveredKey ` set ds \<subseteq> set (lg_deliveries l)"
proof (induction rule: ledger_history.induct)
  case (applied l ds marshal clock ctx run l' out)
  then show ?case using ApplyRun_deliveries by auto
next
  case (refused l ds order po now ctx rq l' e)
  then show ?case using Recall_error [OF refused(2)] by simp
next
  case (recalled l ds order po now ctx rq l' envelope)
  note new = Recall_new_claims [OF recalled(3,2)]
  show ?case using recalled(4) new by (auto simp: distinct_append image_subset_iff)
qed simp

text \<open>A revision of a note is delivered to a session at most once: over every history of extraction runs and
  recalls of a ledger, no session receives the same revision of the same note in two details.\<close>

theorem recall_delivers_once:
  assumes "ledger_history l ds"
  shows "distinct ds"
  using ledger_history_inv [OF assms] by blast

section \<open>The router over the ledger\<close>

text \<open>What the router asks of a source of notes: it keeps the token budget of a request.\<close>

locale recall_source =
  fixes recallNotes :: "'s \<Rightarrow> go_context \<Rightarrow> string \<Rightarrow> recall_request \<Rightarrow> 's \<times> note_envelope res"
  assumes within_budget: "recallNotes s ctx scopeID rq = (s', Inr envelope) \<Longrightarrow> en_Tokens envelope \<le> rq_TokenBudget rq"
begin

lemma app_within_budget: "appRecallNotes recallNotes s ctx rq = (s', Inr envelope) \<Longrightarrow> en_Tokens envelope \<le> rq_TokenBudget rq"
  by (auto simp: appRecallNotes_def split: sum.splits intro: within_budget)

end

text \<open>A Go result of an envelope and an error.\<close>

definition recall_answer :: "note_envelope res \<Rightarrow> note_envelope \<times> go_error option" where
  "recall_answer r = (case r of Inl e \<Rightarrow> (zeroEnvelope, Some e) | Inr envelope \<Rightarrow> (envelope, None))"

context recall_source
begin

lemma answer_within_budget:
  "0 < rq_TokenBudget rq \<Longrightarrow> en_Tokens (fst (recall_answer (snd (appRecallNotes recallNotes s ctx rq)))) \<le> rq_TokenBudget rq"
  by (cases "appRecallNotes recallNotes s ctx rq")
    (auto simp: recall_answer_def zeroEnvelope_def split: sum.splits dest: app_within_budget)

end

lemma storeRecallNotes_budget:
  assumes "storeRecallNotes order po now s ctx scopeID rq = (s', Inr envelope)"
  shows "en_Tokens envelope \<le> rq_TokenBudget rq"
proof -
  obtain l' where "Recall order po now (scopeLedger s scopeID) ctx rq = (l', Inr envelope)"
    using assms by (cases "Recall order po now (scopeLedger s scopeID) ctx rq") (auto simp: storeRecallNotes_def withLedger_def)
  then obtain policy planned trace eligible where "0 < rq_TokenBudget rq" "en_Tokens envelope \<le> sum_list (map pn_Tokens planned)"
      "PlanRecall (map (ledgerCandidate rq) (order eligible)) rq policy = (planned, trace)"
    by (rule Recall_elim)
  then show ?thesis using PlanRecall_fits [of _ rq policy planned trace] by fastforce
qed

interpretation scoped_recall: recall_source "storeRecallNotes order po now"
  by unfold_locales (rule storeRecallNotes_budget)

text \<open>The router over the ledger needs no assumption on the team note path: when every call of that path is
  answered by the runtime's recall on some state of the scoped ledger store, a passive search stays within the token
  budget of its request, whatever the schedule of the two paths.\<close>

theorem router_over_ledger_budget:
  assumes "Searches R ctx request (res, None)" and "sq_Intent request = IntentPassive"
    and "\<forall>ctx rq. \<exists>order po now s. ro_teamNote R ctx rq = recall_answer (snd (appRecallNotes (storeRecallNotes order po now) s ctx rq))"
  shows "usedTokens (rs_Hits res) \<le> sq_TokenBudget request"
proof -
  have "\<forall>ctx rq. 0 < rq_TokenBudget rq \<longrightarrow> en_Tokens (fst (ro_teamNote R ctx rq)) \<le> rq_TokenBudget rq"
    using assms(3) scoped_recall.answer_within_budget by metis
  from passive_within_budget [OF assms(1,2) this] show ?thesis by blast
qed

section \<open>A concrete recall\<close>

lemma demo_recall_gate:
  "recallHardGateFailure demo_note (CompileRecallIntent demo_request) 2000 = []"
  by code_simp

lemma demo_recall_tokens: "estimateTokens (formatRecall demo_note []) \<le> 100"
  by code_simp

lemma demo_eligible: "eligibleNotes demo_ledger 2000 demo_request = (demo_ledger, [demo_note])"
proof -
  have "\<not> nt_SoftExpiresAt demo_note \<le> 2000" "eligibleForRecall (NewLedger DefaultTTLPolicy) demo_note demo_request" by code_simp+
  moreover have "eligibleForRecall demo_ledger demo_note demo_request = eligibleForRecall (NewLedger DefaultTTLPolicy) demo_note demo_request"
    by (simp add: eligibleForRecall_def demo_ledger_def NewLedger_def)
  moreover have "lg_notes demo_ledger = [(CanonicalKey created_candidate, demo_note)]" by (simp add: demo_ledger_def)
  ultimately show ?thesis by (simp add: eligibleNotes_def expireNote_def Let_def)
qed

lemma demo_recall_fields:
  "ValidateRecall demo_request = Inr ()"
  "ctx_err fine_ctx = None" "po_CandidateLimit DefaultRecallPolicy = 16" "\<not> po_EnableHintRecall DefaultRecallPolicy"
  "blank (rq_Query demo_request)" "rq_TokenBudget demo_request = 100"
  by code_simp+

lemma demo_recall:
  obtains l' envelope where "Recall id DefaultRecallPolicy 2000 demo_ledger fine_ctx demo_request = (l', Inr envelope)"
    "map detail_id (en_Details envelope) = [(''c1'', 1)]"
proof -
  let ?po = "DefaultRecallPolicy\<lparr>po_ObservationTime := 2000\<rparr>" and ?c = "ledgerCandidate demo_request demo_note"
  obtain planned trace where plan: "PlanRecall [?c] demo_request ?po = (planned, trace)" by fastforce
  obtain l' e where del: "deliverPlanned demo_request planned demo_ledger zeroEnvelope = (l', e)" by fastforce
  have "observed [?c] ?po = 2000" by (simp add: recallObservationTime_def)
  then have shown: "map pn_Note planned = [demo_note]"
    using PlanRecall_alone [of ?c demo_request ?po] demo_recall_gate demo_recall_tokens demo_recall_fields plan by simp
  have recall: "Recall id DefaultRecallPolicy 2000 demo_ledger fine_ctx demo_request =
      (l', Inr (e\<lparr>en_Decision := SummarizeRecallDecision trace\<rparr>))"
    using plan del demo_recall_fields demo_eligible by (simp add: Recall_def Let_def)
  obtain p where p: "planned = [p]" "pn_Note p = demo_note" using shown by (cases planned) auto
  have budget: "0 \<le> rq_TokenBudget demo_request" using demo_recall_fields by simp
  obtain related where "list_all2 (grounded_item [?c] demo_request ?po) planned related"
    by (rule PlanRecall_items [OF plan budget])
  then have claim: "pn_ClaimNoteDelivery p"
    using demo_recall_fields(4) p by (auto simp: grounded_item_def list_all2_Cons1 split: if_splits)
  have "planned_id p = (nt_ID demo_note, nt_Revision demo_note)"
    using PlanRecall_claims(2) [OF plan budget, of p] p claim by simp
  moreover have "nt_ID demo_note = ''c1''" "nt_Revision demo_note = 1" by code_simp+
  moreover have "0 \<le> pn_Tokens p" using PlanRecall_fits [OF plan budget] estimateTokens_pos [of "pn_Text p"] p by simp
  ultimately have "map detail_id (en_Details e) = [(''c1'', 1)]"
    using deliverPlanned_spec(1) [OF del] p claim by (simp add: zeroEnvelope_def)
  then show thesis using that [OF recall] by simp
qed

theorem Recall_confined_witness:
  "\<exists>l' envelope d n. Recall id DefaultRecallPolicy 2000 demo_ledger fine_ctx demo_request = (l', Inr envelope) \<and>
     en_Tokens envelope \<le> rq_TokenBudget demo_request \<and> d \<in> set (en_Details envelope) \<and> rn_NoteID d = nt_ID n \<and>
     visible_to demo_ledger 2000 demo_request n"
proof -
  obtain l' envelope where r: "Recall id DefaultRecallPolicy 2000 demo_ledger fine_ctx demo_request = (l', Inr envelope)"
    "map detail_id (en_Details envelope) = [(''c1'', 1)]" by (rule demo_recall)
  then obtain d where "d \<in> set (en_Details envelope)" by (cases "en_Details envelope") auto
  then show ?thesis using Recall_confined [OF demo_ledger_inv _ r(1)] r(1) by fastforce
qed

theorem recall_delivers_once_witness:
  "\<exists>l ds. ledger_history l ds \<and> ds = [(''t'', ''c1'', 1)] \<and> distinct ds"
proof -
  obtain l' envelope where r: "Recall id DefaultRecallPolicy 2000 demo_ledger fine_ctx demo_request = (l', Inr envelope)"
    "map detail_id (en_Details envelope) = [(''c1'', 1)]" by (rule demo_recall)
  have "ledger_history demo_ledger []" using ledger_history.applied [OF ledger_history.created demo_apply] .
  from ledger_history.recalled [OF this _ r(1)] have "ledger_history l' [(''t'', ''c1'', 1)]"
    unfolding r(2) by (simp add: demo_request_def)
  with recall_delivers_once [OF this] show ?thesis by blast
qed

definition ledger_router :: router where
  "ledger_router = \<lparr>ro_teamNote = (\<lambda>ctx rq. recall_answer (snd (appRecallNotes (storeRecallNotes id DefaultRecallPolicy 2000)
     \<lparr>ss_policy = DefaultTTLPolicy, ss_ledgers = [(''team'', demo_ledger)]\<rparr> ctx rq))), ro_wiki = None, ro_EnablePassiveWikiHint = False\<rparr>"

definition ledger_search :: search_request where
  "ledger_search = \<lparr>sq_Intent = IntentPassive, sq_Source = [], sq_Actor = rq_Actor demo_request, sq_TaskRef = [], sq_ThreadRef = [],
     sq_Query = ''deploy'', sq_TokenBudget = 100, sq_MaxItems = 0\<rparr>"

lemma ledger_search_fields:
  "validateSearch ledger_search = Inr ()" "ValidateRecall (teamNoteRequest ledger_search) = Inr ()" "ScopeFromContext fine_ctx = Inr ''team''"
  by code_simp+

lemma ledger_search_answer: "to_err (runTeamNote ledger_router fine_ctx ledger_search 0) = None"
proof -
  have "\<exists>envelope. snd (Recall order po now l fine_ctx (teamNoteRequest ledger_search)) = Inr envelope" for order po now l
    using ledger_search_fields(2) by (simp add: Recall_def fine_ctx_def split_def Let_def)
  then obtain envelope where "snd (Recall id DefaultRecallPolicy 2000 demo_ledger fine_ctx (teamNoteRequest ledger_search)) = Inr envelope" by blast
  then show ?thesis
    by (simp add: runTeamNote_def ledger_router_def appRecallNotes_def ledger_search_fields storeRecallNotes_def withLedger_def
        scopeLedger_def recall_answer_def)
qed

theorem router_over_ledger_budget_witness:
  "\<exists>res. Searches ledger_router fine_ctx ledger_search (res, None) \<and> usedTokens (rs_Hits res) \<le> 100"
proof -
  obtain res where out: "searchTeamNoteOnly ledger_router fine_ctx ledger_search 0 = (res, None)"
    using ledger_search_answer by (simp add: searchTeamNoteOnly_def Let_def)
  have search: "Searches ledger_router fine_ctx ledger_search (res, None)"
    using passive_team [OF ledger_search_fields(1), of ledger_router fine_ctx 0] out
    by (simp add: ledger_search_def ledger_router_def IntentPassive_def IntentActive_def)
  have "\<forall>ctx rq. \<exists>order po now s. ro_teamNote ledger_router ctx rq = recall_answer (snd (appRecallNotes (storeRecallNotes order po now) s ctx rq))"
    by (simp add: ledger_router_def) blast
  from router_over_ledger_budget [OF search _ this] search show ?thesis by (auto simp: ledger_search_def)
qed

section \<open>Where the code departs from its intent\<close>

text \<open>The key under which a delivery is remembered does not separate its parts: two deliveries to different sessions
  can share one.\<close>

lemma deliveryKey_ambiguous:
  "deliveryKey (zeroNote\<lparr>nt_ID := ''x'', nt_Revision := 1\<rparr>) \<lparr>UserID = ''u'', AgentID = ''a'', SessionID = ''2:s''\<rparr> =
   deliveryKey (zeroNote\<lparr>nt_ID := ''x:1'', nt_Revision := 2\<rparr>) \<lparr>UserID = ''v'', AgentID = ''b'', SessionID = ''s''\<rparr>"
  by code_simp
end
