(* ===== verification/Note_Store_Recall.thy ===== *)
theory Note_Store_Recall
  imports Note_Store Note_Recall
begin

text \<open>
  Recall from the PostgreSQL note store (\<open>RecallNotes\<close>, \<open>RecallCandidates\<close> and their queries in
  \<open>internal/platform/postgres/notes.go\<close>).  Under \<open>READ COMMITTED\<close> another session may deliver between the query that
  loads the candidates and the inserts that claim them, so the query reads a database \<open>seen\<close> of its own.
\<close>

section \<open>Candidates\<close>

definition embedQuery :: "pg_note_store \<Rightarrow> string \<Rightarrow> vector res" where
  "embedQuery st query =
     (case rc_Embedder (ns_retrieval st) of
        None \<Rightarrow> Inr []
      | Some embedAll \<Rightarrow>
          if blank query then Inr []
          else
          (case embedAll [''Instruct: '' @ queryInstruction @ [CHR 0x0A] @ ''Query:'' @ trim_space query] of
             Inl e \<Rightarrow> Inl (wrapf ''embed recall query: '' e)
           | Inr [v] \<Rightarrow>
               if int (length v) = rc_EmbeddingDimensions (ns_retrieval st) then Inr v
               else Inl (ErrorNew (''embed recall query: expected one '' @ show_int (rc_EmbeddingDimensions (ns_retrieval st)) @ ''-dimensional vector''))
           | Inr _ \<Rightarrow> Inl (ErrorNew (''embed recall query: expected one '' @ show_int (rc_EmbeddingDimensions (ns_retrieval st)) @ ''-dimensional vector''))))"

text \<open>Semantic recall is best effort: a failed embedding is logged and the query is lexical.\<close>

definition queryVector :: "pg_note_store \<Rightarrow> string \<Rightarrow> vector" where
  "queryVector st query = (case embedQuery st query of Inl _ \<Rightarrow> [] | Inr v \<Rightarrow> v)"

definition lexicalRank :: "note_env \<Rightarrow> string \<Rightarrow> string \<Rightarrow> string \<Rightarrow> float64" where
  "lexicalRank E subject body searchQuery = (if searchQuery = [] then 0 else ne_rank E (subject @ '' '' @ body) searchQuery)"

definition semanticScore :: "note_env \<Rightarrow> string option \<Rightarrow> string \<Rightarrow> note_row \<Rightarrow> float64 option" where
  "semanticScore E vectorValue model r =
     (case (vectorValue, tn_Embedding r) of
        (Some v, Some embedding) \<Rightarrow> if embeddingStale model r then None else Some (ne_similarity E embedding v)
      | _ \<Rightarrow> None)"

definition delivered :: "note_db \<Rightarrow> string \<Rightarrow> string \<Rightarrow> int \<Rightarrow> string \<Rightarrow> bool" where
  "delivered db scopeID noteID revision session \<longleftrightarrow> mget (nd_deliveries db) (scopeID, noteID, revision, session) \<noteq> None"

definition addressed :: "string \<Rightarrow> string \<Rightarrow> string list \<Rightarrow> recall_request \<Rightarrow> bool" where
  "addressed taskRef threadRef audience request \<longleftrightarrow>
     (taskRef = [] \<or> taskRef = rq_TaskRef request) \<and> (threadRef = [] \<or> threadRef = rq_ThreadRef request) \<and>
     (audience = [] \<or> AgentID (rq_Actor request) \<in> set audience)"

text \<open>The \<open>WHERE\<close> clause of the query for current notes.\<close>

definition recallableRow :: "note_db \<Rightarrow> string \<Rightarrow> recall_request \<Rightarrow> time \<Rightarrow> row_key \<times> note_row \<Rightarrow> bool" where
  "recallableRow db scopeID request now kr =
     (case kr of ((scope, noteID), r) \<Rightarrow>
        scope = scopeID \<and> tn_State r = StateActive \<and> tn_InvalidAt r = None \<and> tn_CreatedAt r \<le> pg_time now \<and>
        pg_time now < tn_SoftExpiresAt r \<and> pg_time now < tn_HardExpiresAt r \<and>
        addressed (tn_TaskRef r) (tn_ThreadRef r) (tn_AudienceAgentIDs r) request \<and>
        \<not> delivered db scope noteID (tn_CurrentRevision r) (SessionID (rq_Actor request)))"

definition kindRank :: "string \<Rightarrow> int" where
  "kindRank kind = (if kind = ''handoff'' then 0 else if kind = ''blocker'' then 1 else if kind = ''status'' then 2 else 3)"

text \<open>\<open>ORDER BY\<close> the rank descending, the caller's own notes, the kind, the source time descending with \<open>NULL\<close>s last, the
  update time descending, the identifier.\<close>

definition recallableBefore :: "note_env \<Rightarrow> recall_request \<Rightarrow> row_key \<times> note_row \<Rightarrow> row_key \<times> note_row \<Rightarrow> bool" where
  "recallableBefore E request x y =
     (let query = SearchQuery (rq_Query request);
          rank = (\<lambda>r. lexicalRank E (tn_Subject r) (tn_Body r) query);
          own = (\<lambda>r. if QueryRequestsOwnContext (rq_Query request) \<and> UserID (tn_Origin r) = UserID (rq_Actor request) then 0 else (1 :: int));
          a = snd x; b = snd y
      in if \<not> fl_eq (rank a) (rank b) then fl_less (rank b) (rank a)
         else if own a \<noteq> own b then own a < own b
         else if kindRank (tn_Kind a) \<noteq> kindRank (tn_Kind b) then kindRank (tn_Kind a) < kindRank (tn_Kind b)
         else if tn_SourceOccurredAt a \<noteq> tn_SourceOccurredAt b
         then (case (tn_SourceOccurredAt a, tn_SourceOccurredAt b) of (Some s, Some t) \<Rightarrow> t < s | (Some _, None) \<Rightarrow> True | _ \<Rightarrow> False)
         else if tn_UpdatedAt a \<noteq> tn_UpdatedAt b then tn_UpdatedAt b < tn_UpdatedAt a
         else ne_collation E (snd (fst x)) (snd (fst y)))"

definition scanRecallCandidate :: "note_env \<Rightarrow> note_db \<Rightarrow> recall_request \<Rightarrow> string option \<Rightarrow> string \<Rightarrow> row_key \<times> note_row \<Rightarrow> recall_candidate" where
  "scanRecallCandidate E db request vectorValue model kr =
     recallCandidate (scanNote E db kr) []
       (lexicalRank E (tn_Subject (snd kr)) (tn_Body (snd kr)) (SearchQuery (rq_Query request)))
       (semanticScore E vectorValue model (snd kr))"

text \<open>A revision joined with its candidate and its note.\<close>

type_synonym revision_join = "(string \<times> string \<times> int) \<times> revision_row \<times> candidate_row \<times> note_row"

definition joinedRevisions :: "note_db \<Rightarrow> revision_join list" where
  "joinedRevisions db =
     concat (map (\<lambda>((scope, noteID, revision), r).
       (case (mget (nd_candidates db) (scope, rv_CandidateID r), mget (nd_notes db) (scope, noteID)) of
          (Some c, Some n) \<Rightarrow> [((scope, noteID, revision), r, c, n)]
        | _ \<Rightarrow> [])) (nd_revisions db))"

definition revisionNote :: "note_env \<Rightarrow> note_db \<Rightarrow> string \<Rightarrow> time option \<Rightarrow> revision_join \<Rightarrow> team_note" where
  "revisionNote E db noteID' invalidAt j =
     (case j of ((scope, noteID, revision), r, c, n) \<Rightarrow>
      normalizeNoteTimes
        \<lparr>nt_ID = noteID', nt_Key = tn_Key n, nt_Kind = cr_Kind c, nt_Subject = cr_Subject c, nt_Body = rv_Body r,
         nt_TaskRef = cr_TaskRef c, nt_ThreadRef = cr_ThreadRef c, nt_Origin = cr_Origin c,
         nt_AudienceAgentIDs = cr_AudienceAgentIDs c, nt_RelatedSubjects = rv_RelatedSubjects r,
         nt_EvidenceEventIDs = evidenceOf E db scope noteID revision,
         nt_State = (if rv_Operation r = ActionResolve then StateResolved else StateActive), nt_Revision = revision,
         nt_CreatedAt = tn_CreatedAt n, nt_UpdatedAt = rv_CreatedAt r, nt_SoftExpiresAt = tn_SoftExpiresAt n,
         nt_HardExpiresAt = tn_HardExpiresAt n, nt_ValidAt = rv_ValidAt r, nt_InvalidAt = invalidAt,
         nt_SourceOccurredAt = (case cr_SourceOccurredAt c of Some t \<Rightarrow> t | None \<Rightarrow> rv_CreatedAt r)\<rparr>)"

text \<open>When a revision stopped being valid, as it was known at the time of the observation.\<close>

definition knownInvalidAt :: "time \<Rightarrow> revision_join \<Rightarrow> time option" where
  "knownInvalidAt now j =
     (case j of (_, r, c, _) \<Rightarrow>
        if (case rv_ExpiredAt r of Some t \<Rightarrow> pg_time now < t | None \<Rightarrow> False) then cr_InvalidAt c else rv_InvalidAt r)"

definition revisionAddressed :: "note_db \<Rightarrow> string \<Rightarrow> recall_request \<Rightarrow> time \<Rightarrow> revision_join \<Rightarrow> bool" where
  "revisionAddressed db scopeID request now j =
     (case j of ((scope, noteID, revision), r, c, n) \<Rightarrow>
        scope = scopeID \<and> rv_CreatedAt r \<le> pg_time now \<and>
        addressed (cr_TaskRef c) (cr_ThreadRef c) (cr_AudienceAgentIDs c) request \<and>
        \<not> delivered db scope noteID revision (SessionID (rq_Actor request)))"

definition validAsOf :: "time \<Rightarrow> time \<Rightarrow> revision_join \<Rightarrow> bool" where
  "validAsOf now queryTime j =
     (case j of (_, r, c, _) \<Rightarrow>
        (case (rv_ValidAt r, cr_SourceOccurredAt c) of (Some t, _) \<Rightarrow> t | (None, Some t) \<Rightarrow> t | _ \<Rightarrow> rv_CreatedAt r) \<le> pg_time queryTime \<and>
        (case knownInvalidAt now j of None \<Rightarrow> True | Some t \<Rightarrow> pg_time queryTime < t))"

text \<open>\<open>SELECT DISTINCT ON (note_id) ... ORDER BY note_id, created_at DESC, revision DESC\<close>.\<close>

definition revisionAtBefore :: "note_env \<Rightarrow> revision_join \<Rightarrow> revision_join \<Rightarrow> bool" where
  "revisionAtBefore E x y =
     (case (x, y) of (((_, n, v), r, _), ((_, n', v'), r', _)) \<Rightarrow>
        if n \<noteq> n' then ne_collation E n n'
        else if rv_CreatedAt r \<noteq> rv_CreatedAt r' then rv_CreatedAt r' < rv_CreatedAt r
        else v' < v)"

fun distinctOnNote :: "string list \<Rightarrow> revision_join list \<Rightarrow> revision_join list" where
  "distinctOnNote seen [] = []"
| "distinctOnNote seen (j # js) =
     (if fst (snd (fst j)) \<in> set seen then distinctOnNote seen js
      else j # distinctOnNote (fst (snd (fst j)) # seen) js)"

definition revisionRank :: "note_env \<Rightarrow> recall_request \<Rightarrow> revision_join \<Rightarrow> float64" where
  "revisionRank E request j = (case j of (_, r, c, _) \<Rightarrow> lexicalRank E (cr_Subject c) (rv_Body r) (SearchQuery (rq_Query request)))"

definition recallableRevisionAt ::
  "note_env \<Rightarrow> string \<Rightarrow> recall_request \<Rightarrow> time \<Rightarrow> time \<Rightarrow> recall_candidate list tx" where
  "recallableRevisionAt E scopeID request now queryTime =
     tx_bind (statement (ne_fault E) (''query recallable note revisions as of '' @ formatRFC3339 queryTime) []
       (\<lambda>db. Inr (db, map (\<lambda>j. recallCandidate (revisionNote E db (fst (snd (fst j))) (knownInvalidAt now j) j) []
            (revisionRank E request j) None)
          (distinctOnNote [] (sort_by (revisionAtBefore E)
            (filter (\<lambda>j. revisionAddressed db scopeID request now j \<and> validAsOf now queryTime j) (joinedRevisions db)))))))
       (\<lambda>cs. tx_bind (statement (ne_fault E) (''scan recallable note revisions as of '' @ formatRFC3339 queryTime) [] (tx_return ()))
       (\<lambda>_. tx_return cs))"

definition revisionHistoryBefore :: "note_env \<Rightarrow> recall_request \<Rightarrow> revision_join \<Rightarrow> revision_join \<Rightarrow> bool" where
  "revisionHistoryBefore E request x y =
     (case (x, y) of (((_, n, v), r, _), ((_, n', v'), r', _)) \<Rightarrow>
        if \<not> fl_eq (revisionRank E request x) (revisionRank E request y) then fl_less (revisionRank E request y) (revisionRank E request x)
        else if rv_CreatedAt r \<noteq> rv_CreatedAt r' then rv_CreatedAt r' < rv_CreatedAt r
        else if n \<noteq> n' then ne_collation E n n'
        else v' < v)"

text \<open>A revision of the history has an identifier of its own; the note it belongs to is its canonical note.\<close>

definition scanHistoricalRecallCandidate :: "note_env \<Rightarrow> note_db \<Rightarrow> recall_request \<Rightarrow> revision_join \<Rightarrow> recall_candidate" where
  "scanHistoricalRecallCandidate E db request j =
     (case j of ((scope, noteID, revision), r, c, n) \<Rightarrow>
        recallCandidate (revisionNote E db (noteID @ '':'' @ show_int revision) (rv_InvalidAt r) j) noteID (revisionRank E request j) None)"

definition recallableRevisionHistory :: "note_env \<Rightarrow> string \<Rightarrow> recall_request \<Rightarrow> time \<Rightarrow> recall_candidate list tx" where
  "recallableRevisionHistory E scopeID request now =
     tx_bind (statement (ne_fault E) ''query recallable note revision history'' []
       (\<lambda>db. Inr (db, map (scanHistoricalRecallCandidate E db request)
          (sort_by (revisionHistoryBefore E request) (filter (revisionAddressed db scopeID request now) (joinedRevisions db))))))
       (\<lambda>cs. tx_bind (statement (ne_fault E) ''scan recallable note revision history'' [] (tx_return ()))
       (\<lambda>_. tx_return cs))"

definition recallableNotes ::
  "note_env \<Rightarrow> string \<Rightarrow> recall_request \<Rightarrow> time \<Rightarrow> vector \<Rightarrow> string \<Rightarrow> recall_candidate list tx" where
  "recallableNotes E scopeID request now qv model =
     (let intent = CompileRecallIntent request;
          vectorValue = (if qv = [] then None else Some (formatVector E qv));
          current = tx_bind (statement (ne_fault E) ''query recallable notes'' []
            (\<lambda>db. Inr (db, map (scanRecallCandidate E db request vectorValue model)
               (sort_by (recallableBefore E request) (filter (recallableRow db scopeID request now) (nd_notes db))))))
            (\<lambda>cs. tx_bind (statement (ne_fault E) ''scan recallable notes'' [] (tx_return ())) (\<lambda>_. tx_return cs))
      in if ri_Mode intent = RecallModeAsOf \<and> ri_ValidAt intent \<noteq> None
         then recallableRevisionAt E scopeID request now (the (ri_ValidAt intent))
         else if ri_Mode intent = RecallModeHistory \<or> ri_Mode intent = RecallModeChangesSince
         then recallableRevisionHistory E scopeID request now
         else current)"

definition RecallCandidates ::
  "note_env \<Rightarrow> pg_note_store \<Rightarrow> note_db \<Rightarrow> string \<Rightarrow> recall_request \<Rightarrow> recall_candidate list res" where
  "RecallCandidates E st db scopeID request =
     (if blank scopeID then Inl (ErrorNew ''load recall candidates: scope is required'')
      else case ValidateRecall request of
        Inl e \<Rightarrow> Inl e
      | Inr _ \<Rightarrow>
      case step (ne_fault E) ''begin recall candidates'' of
        Inl e \<Rightarrow> Inl e
      | Inr _ \<Rightarrow>
      case recallableNotes E scopeID request (ne_clock E 0) (queryVector st (rq_Query request)) (rc_EmbeddingModel (ns_retrieval st)) db of
        Inl e \<Rightarrow> Inl (abort (ne_fault E) ''rollback recall candidates'' e)
      | Inr (_, cs) \<Rightarrow>
          (case step (ne_fault E) ''rollback recall candidates'' of Inl e \<Rightarrow> Inl e | Inr _ \<Rightarrow> Inr cs))"

section \<open>Claims\<close>

definition insertDelivery :: "note_env \<Rightarrow> string \<Rightarrow> planned_recall \<Rightarrow> actor \<Rightarrow> bool tx" where
  "insertDelivery E scopeID p recipient =
     (let noteID = (if pn_CanonicalNoteID p = [] then nt_ID (pn_Note p) else pn_CanonicalNoteID p) in
      statement (ne_fault E) ''save note delivery'' (noteID @ '':'' @ show_int (nt_Revision (pn_Note p)))
        (insertDeliveryRow (scopeID, noteID, nt_Revision (pn_Note p), SessionID recipient)
          \<lparr>dl_Recipient = recipient, dl_ContextTokens = pn_Tokens p, dl_DeliveredAt = pg_time (ne_now E)\<rparr>))"

definition insertHintDelivery :: "note_env \<Rightarrow> string \<Rightarrow> planned_recall \<Rightarrow> actor \<Rightarrow> bool tx" where
  "insertHintDelivery E scopeID p recipient =
     statement (ne_fault E) ''save recall hint delivery'' (pn_HintFingerprint p)
       (insertHintRow (scopeID, pn_HintFingerprint p)
         \<lparr>hd_LeadNoteID = nt_ID (pn_Note p), hd_Recipient = recipient, hd_ContextTokens = pn_Tokens p,
          hd_DeliveredAt = pg_time (ne_now E)\<rparr>)"

fun claimPlanned ::
  "note_env \<Rightarrow> string \<Rightarrow> recall_request \<Rightarrow> planned_recall list \<Rightarrow> note_envelope \<Rightarrow> plan_trace \<Rightarrow> (note_envelope \<times> plan_trace) tx" where
  "claimPlanned E scopeID request [] envelope trace = tx_return (envelope, trace)"
| "claimPlanned E scopeID request (p # ps) envelope trace =
     (if \<not> pn_ClaimNoteDelivery p then
        tx_bind (insertHintDelivery E scopeID p (rq_Actor request))
          (\<lambda>claimed. claimPlanned E scopeID request ps (if claimed then AppendPlannedHint envelope p else envelope) trace)
      else
        tx_bind (insertDelivery E scopeID p (rq_Actor request))
          (\<lambda>claimed. if \<not> claimed
             then claimPlanned E scopeID request ps envelope (RecordRecallDeliveryClaimLoss trace (nt_ID (pn_Note p)) (pn_Tokens p))
             else claimPlanned E scopeID request ps (AppendPlannedRecall envelope p) trace))"

section \<open>Observations\<close>

definition loadRecallSnapshot :: "note_env \<Rightarrow> string \<Rightarrow> time \<Rightarrow> recall_snapshot_item list tx" where
  "loadRecallSnapshot E scopeID at =
     tx_bind (statement (ne_fault E) ''query recall extraction snapshot'' []
       (\<lambda>db. Inr (db, map (\<lambda>((scope, noteID), r). \<lparr>si_ID = noteID, si_Text = tn_Body r,
            si_EvidenceEventIDs = evidenceOf E db scope noteID (tn_CurrentRevision r)\<rparr>)
          (sort_by (\<lambda>x y. ne_collation E (snd (fst x)) (snd (fst y)))
            (filter (\<lambda>((scope, _), r). scope = scopeID \<and> tn_State r = StateActive \<and> tn_InvalidAt r = None \<and>
               tn_CreatedAt r \<le> pg_time at \<and> pg_time at < tn_SoftExpiresAt r \<and> pg_time at < tn_HardExpiresAt r) (nd_notes db))))))
       (\<lambda>items. tx_bind (statement (ne_fault E) ''scan recall extraction snapshot'' [] (tx_return ())) (\<lambda>_. tx_return items))"

text \<open>\<open>string_agg(DISTINCT NULLIF(..., ''), ',')\<close>, and the conversion of a sum of intervals to whole milliseconds.\<close>

definition distinctNames :: "note_env \<Rightarrow> string list \<Rightarrow> string" where
  "distinctNames E names = join '','' (sort_by (ne_collation E) (dedup_from [[]] names))"

definition roundMS :: "int \<Rightarrow> int" where
  "roundMS ns = (if 0 \<le> ns then (ns + 500000) div 1000000 else - ((500000 - ns) div 1000000))"

definition completedBy :: "string \<Rightarrow> time \<Rightarrow> row_key \<times> run_row \<Rightarrow> bool" where
  "completedBy scopeID at kr \<longleftrightarrow> fst (fst kr) = scopeID \<and>
     (case xr_CompletedAt (snd kr) of None \<Rightarrow> False | Some t \<Rightarrow> t \<le> pg_time at)"

definition runDuration :: "run_row \<Rightarrow> int" where
  "runDuration r = (case xr_CompletedAt r of None \<Rightarrow> 0 | Some t \<Rightarrow> t - xr_CreatedAt r)"

definition recallProvenance :: "note_env \<Rightarrow> note_db \<Rightarrow> string \<Rightarrow> time \<Rightarrow> recall_provenance" where
  "recallProvenance E db scopeID at =
     (let rows = map snd (filter (completedBy scopeID at) (nd_runs db)) in
      \<lparr>rp_Model = distinctNames E (map xr_Model rows), rp_PromptVersion = distinctNames E (map xr_PromptVersion rows),
       rp_InputTokens = sum_list (map xr_InputTokens rows), rp_OutputTokens = sum_list (map xr_OutputTokens rows),
       rp_DurationMS = roundMS (sum_list (map runDuration rows)),
       rp_Error = join ''; '' (filter (\<lambda>e. e \<noteq> []) (map xr_Error (sort_by (\<lambda>x y. xr_CreatedAt x < xr_CreatedAt y) rows)))\<rparr>)"

definition loadRecallProvenance :: "note_env \<Rightarrow> string \<Rightarrow> time \<Rightarrow> recall_provenance tx" where
  "loadRecallProvenance E scopeID at =
     statement (ne_fault E) ''query recall extraction provenance'' [] (\<lambda>db. Inr (db, recallProvenance E db scopeID at))"

definition encoded :: "string \<Rightarrow> string res \<Rightarrow> string tx" where
  "encoded message r = tx_lift (case r of Inl e \<Rightarrow> Inl (wrapf (message @ '': '') e) | Inr s \<Rightarrow> Inr s)"

definition saveRecallObservation ::
  "note_env \<Rightarrow> string \<Rightarrow> recall_request \<Rightarrow> note_envelope \<Rightarrow> time \<Rightarrow> plan_trace \<Rightarrow> int tx" where
  "saveRecallObservation E scopeID request envelope at trace =
     tx_bind (encoded ''encode recall observation'' (ne_encodeEnvelope E envelope))
       (\<lambda>encodedEnvelope. tx_bind (encoded ''encode recall trace'' (ne_encodeTrace E trace))
       (\<lambda>encodedTrace. tx_bind (loadRecallSnapshot E scopeID at)
       (\<lambda>snapshot. tx_bind (encoded ''encode recall extraction snapshot'' (ne_encodeSnapshot E snapshot))
       (\<lambda>encodedSnapshot. tx_bind (loadRecallProvenance E scopeID at)
       (\<lambda>provenance. tx_bind (encoded ''encode recall extraction provenance'' (ne_encodeProvenance E provenance))
       (\<lambda>encodedProvenance. tx_bind (statement (ne_fault E) ''save recall observation'' []
           (insertObservationRow
             \<lparr>ob_ID = ne_nextval E, ob_Scope = scopeID, ob_Recipient = rq_Actor request, ob_TaskRef = rq_TaskRef request,
              ob_ThreadRef = rq_ThreadRef request, ob_QueryDigest = sha256_bytes (rq_Query request),
              ob_TokenBudget = rq_TokenBudget request, ob_MaxItems = rq_MaxItems request, ob_Snapshot = encodedSnapshot,
              ob_Provenance = encodedProvenance, ob_Envelope = encodedEnvelope, ob_Trace = encodedTrace,
              ob_DurationMS = ne_duration E div 1000000, ob_CreatedAt = pg_time at,
              ob_ExpiresAt = pg_time (ne_now E) + 7 * nsPerDay\<rparr>))
       (\<lambda>observationID. tx_bind (statement (ne_fault E) ''delete expired recall observations'' []
           (deleteExpiredObservations scopeID (pg_time (ne_now E))))
       (\<lambda>_. tx_return observationID))))))))"

section \<open>Recall\<close>

definition snapshotRead :: "note_db \<Rightarrow> 'a tx \<Rightarrow> 'a tx" where
  "snapshotRead seen m db = (case m seen of Inl e \<Rightarrow> Inl e | Inr (_, a) \<Rightarrow> Inr (db, a))"

definition recallTx :: "note_env \<Rightarrow> pg_note_store \<Rightarrow> note_db \<Rightarrow> string \<Rightarrow> recall_request \<Rightarrow> note_envelope tx" where
  "recallTx E st seen scopeID request =
     (let at = ne_clock E 0 in
      tx_bind (snapshotRead seen (recallableNotes E scopeID request at (queryVector st (rq_Query request)) (rc_EmbeddingModel (ns_retrieval st))))
       (\<lambda>eligible.
        let (planned, trace) = PlanRecall eligible request ((rc_Policy (ns_retrieval st))\<lparr>po_ObservationTime := at\<rparr>) in
        tx_bind (claimPlanned E scopeID request planned zeroEnvelope trace)
       (\<lambda>(envelope, trace').
        let envelope' = envelope\<lparr>en_Decision := SummarizeRecallDecision trace'\<rparr> in
        tx_bind (saveRecallObservation E scopeID request envelope' at trace')
       (\<lambda>observationID. tx_return (envelope'\<lparr>en_ObservationID := observationID\<rparr>)))))"

definition pgRecallNotes ::
  "note_env \<Rightarrow> pg_note_store \<Rightarrow> note_db \<Rightarrow> note_db \<Rightarrow> string \<Rightarrow> recall_request \<Rightarrow> note_db \<times> note_envelope res" where
  "pgRecallNotes E st seen db scopeID request =
     (if blank scopeID then (db, Inl (ErrorNew ''recall postgres notes: scope is required''))
      else case ValidateRecall request of
        Inl e \<Rightarrow> (db, Inl e)
      | Inr _ \<Rightarrow>
          transaction (ne_fault E) ''begin recall notes'' ''rollback recall notes'' ''commit note delivery''
            (recallTx E st seen scopeID request) db)"

end
