(* ===== verification/Note_Store_Invariant.thy ===== *)
theory Note_Store_Invariant
  imports Note_Store_Recall Session_Ingest
begin

text \<open>
  The consistency of the note tables: what holds of the database after every sequence of operations of the store, each
  with its own failures.  The steps of a transaction are inverted (collection \<open>tx_ok\<close>), the tables after an admission are
  written out, and each group of the invariant is kept by each change of the tables.
\<close>

section \<open>Steps that succeed\<close>

lemma insertCandidate_ok [tx_ok]:
  "insertCandidate E s runID c db = Inr (db', inserted) \<longleftrightarrow>
     ne_fault E (''insert note candidate'' @ cn_ID c) = None \<and> \<not> (cn_EvidenceEventIDs c = [] \<and> ne_nilEvidence E c) \<and>
     (if inserted then mget (nd_candidates db) (s, cn_ID c) = None \<and> mget (nd_runs db) (s, runID) \<noteq> None \<and>
        db' = db\<lparr>nd_candidates := mput (s, cn_ID c) (candidateRow runID c) (nd_candidates db)\<rparr>
      else mget (nd_candidates db) (s, cn_ID c) \<noteq> None \<and> db' = db)"
  by (auto simp: insertCandidate_def tx_ok insertCandidateRow_def candidateRow_def split: if_splits)

lemma saveEvidenceIDs_ok:
  assumes "saveEvidenceIDs E s n ids db = Inr (db', u)"
  shows "db' = db\<lparr>nd_evidence := nd_evidence db @ map (\<lambda>e. (s, nt_ID n, nt_Revision n, e)) ids\<rparr>"
    and "distinct ids" and "\<forall>e \<in> set ids. (s, nt_ID n, nt_Revision n, e) \<notin> set (nd_evidence db) \<and> eventStored (nd_session db) s e"
proof -
  have "db' = db\<lparr>nd_evidence := nd_evidence db @ map (\<lambda>e. (s, nt_ID n, nt_Revision n, e)) ids\<rparr> \<and> distinct ids \<and>
    (\<forall>e \<in> set ids. (s, nt_ID n, nt_Revision n, e) \<notin> set (nd_evidence db) \<and> eventStored (nd_session db) s e)"
    using assms
  proof (induction ids arbitrary: db)
    case (Cons e ids)
    then obtain db1 where "insertEvidenceRow s (nt_ID n) (nt_Revision n) e db = Inr (db1, ())" "saveEvidenceIDs E s n ids db1 = Inr (db', u)"
      by (auto simp: tx_ok)
    with Cons.IH [of db1] show ?case by (auto simp: insertEvidenceRow_def split: if_splits)
  qed (simp add: tx_ok)
  then show "db' = db\<lparr>nd_evidence := nd_evidence db @ map (\<lambda>e. (s, nt_ID n, nt_Revision n, e)) ids\<rparr>" "distinct ids"
    "\<forall>e \<in> set ids. (s, nt_ID n, nt_Revision n, e) \<notin> set (nd_evidence db) \<and> eventStored (nd_session db) s e" by blast+
qed

text \<open>The row of a saved note: a new one, or the stored one with a new revision.\<close>

definition savedRow :: "note_row option \<Rightarrow> team_note \<Rightarrow> note_row" where
  "savedRow old n =
     (case old of
        None \<Rightarrow> noteRow n
      | Some r \<Rightarrow> (noteRow n)\<lparr>tn_Key := tn_Key r, tn_Kind := tn_Kind r, tn_Subject := tn_Subject r, tn_TaskRef := tn_TaskRef r,
          tn_ThreadRef := tn_ThreadRef r, tn_HardExpiresAt := tn_HardExpiresAt r, tn_CreatedAt := tn_CreatedAt r\<rparr>)"

lemma savedRow_simps [simp]:
  "tn_Body (savedRow old n) = nt_Body n" "tn_State (savedRow old n) = nt_State n"
  "tn_CurrentRevision (savedRow old n) = nt_Revision n" "tn_RelatedSubjects (savedRow old n) = nt_RelatedSubjects n"
  "tn_SoftExpiresAt (savedRow old n) = pg_time (nt_SoftExpiresAt n)" "tn_Embedding (savedRow old n) = None"
  by (simp_all add: savedRow_def noteRow_def nonNilStrings_def split: option.split)

lemma savedRow_None: "savedRow None n = noteRow n"
  by (simp add: savedRow_def)

lemma upsert_savedRow:
  "r\<lparr>tn_Body := tn_Body (noteRow n), tn_Origin := tn_Origin (noteRow n), tn_AudienceAgentIDs := tn_AudienceAgentIDs (noteRow n),
     tn_RelatedSubjects := tn_RelatedSubjects (noteRow n), tn_State := tn_State (noteRow n),
     tn_CurrentRevision := tn_CurrentRevision (noteRow n), tn_SoftExpiresAt := tn_SoftExpiresAt (noteRow n),
     tn_ValidAt := tn_ValidAt (noteRow n), tn_InvalidAt := tn_InvalidAt (noteRow n),
     tn_SourceOccurredAt := tn_SourceOccurredAt (noteRow n), tn_UpdatedAt := tn_UpdatedAt (noteRow n),
     tn_Embedding := None, tn_EmbeddingModel := [], tn_EmbeddingRevision := None, tn_EmbeddingError := []\<rparr> = savedRow (Some r) n"
  by (rule note_row.equality) (simp_all add: savedRow_def noteRow_def)

definition expiredRevisions :: "string \<Rightarrow> candidate \<Rightarrow> team_note \<Rightarrow> (revision_key, revision_row) gomap \<Rightarrow> (revision_key, revision_row) gomap" where
  "expiredRevisions s cand n = map (\<lambda>((scope, note, revision), r).
     ((scope, note, revision), if scope = s \<and> note = nt_ID n
        then expireRevision (pg_time (nt_UpdatedAt n)) (pg_time (validityBoundary cand n)) r else r))"

lemma mget_expiredRevisions:
  "mget (expiredRevisions s cand n V) (s', m, v) = map_option (\<lambda>r. if s' = s \<and> m = nt_ID n
     then expireRevision (pg_time (nt_UpdatedAt n)) (pg_time (validityBoundary cand n)) r else r) (mget V (s', m, v))"
  unfolding expiredRevisions_def by (induction V) auto

lemma mwf_expiredRevisions [simp]: "mwf (expiredRevisions s cand n V) = mwf V"
  by (simp add: expiredRevisions_def split_def comp_def)

text \<open>The tables after an admission that added a revision.\<close>

definition admittedTables :: "string \<Rightarrow> string \<Rightarrow> candidate \<Rightarrow> team_note \<Rightarrow> note_db \<Rightarrow> note_db" where
  "admittedTables s runID cand n db =
     db\<lparr>nd_notes := mput (s, nt_ID n) (savedRow (mget (nd_notes db) (s, nt_ID n)) n) (nd_notes db),
        nd_revisions := mput (s, nt_ID n, nt_Revision n) (revisionRow cand n) (expiredRevisions s cand n (nd_revisions db)),
        nd_evidence := nd_evidence db @ map (\<lambda>e. (s, nt_ID n, nt_Revision n, e)) (nt_EvidenceEventIDs n),
        nd_candidates := mput (s, cn_ID cand) ((candidateRow runID cand)\<lparr>cr_AdmissionStatus := ''admitted''\<rparr>) (nd_candidates db)\<rparr>"

definition noteByKey :: "note_env \<Rightarrow> note_db \<Rightarrow> string \<Rightarrow> string \<Rightarrow> team_note option" where
  "noteByKey E db s key = map_option (scanNote E db) (find (\<lambda>((scope, _), r). scope = s \<and> tn_Key r = key) (nd_notes db))"

lemma scanNote_cong: "nd_evidence db = nd_evidence db' \<Longrightarrow> scanNote E db = scanNote E db'"
  by (rule ext) (simp add: scanNote_def evidenceOf_def split: prod.split)

lemma saveNote_ok:
  assumes "saveNote E s cand n db = Inr (db', u)"
  shows "db' = db\<lparr>nd_notes := mput (s, nt_ID n) (savedRow (mget (nd_notes db) (s, nt_ID n)) n) (nd_notes db),
      nd_revisions := mput (s, nt_ID n, nt_Revision n) (revisionRow cand n) (expiredRevisions s cand n (nd_revisions db))\<rparr>"
    and "fits_int4 (nt_Revision n)"
    and "mget (nd_revisions db) (s, nt_ID n, nt_Revision n) = None"
    and "\<forall>k \<in> set (expiredRevisions s cand n (nd_revisions db)). fst (fst k) = s \<longrightarrow> rv_CandidateID (snd k) \<noteq> cn_ID cand"
    and "mget (nd_notes db) (s, nt_ID n) = None \<Longrightarrow> \<forall>k r. mget (nd_notes db) (s, k) = Some r \<longrightarrow> tn_Key r \<noteq> nt_Key n"
proof -
  from assms obtain db1 db2 where up: "upsertNoteRow s (nt_ID n) (noteRow n) db = Inr (db1, ())"
    and ex: "expireRevisionRows s (nt_ID n) (pg_time (nt_UpdatedAt n)) (pg_time (validityBoundary cand n)) db1 = Inr (db2, ())"
    and ins: "insertRevisionRow s (nt_ID n) (nt_Revision n) (revisionRow cand n) db2 = Inr (db', ())"
    by (auto simp: saveNote_def tx_ok)
  have db1: "db1 = db\<lparr>nd_notes := mput (s, nt_ID n) (savedRow (mget (nd_notes db) (s, nt_ID n)) n) (nd_notes db)\<rparr>"
    using up by (auto simp: upsertNoteRow_def upsert_savedRow savedRow_None split: if_splits option.splits)
  have db2: "db2 = db1\<lparr>nd_revisions := expiredRevisions s cand n (nd_revisions db1)\<rparr>"
    using ex by (simp add: expireRevisionRows_def expiredRevisions_def)
  show "db' = db\<lparr>nd_notes := mput (s, nt_ID n) (savedRow (mget (nd_notes db) (s, nt_ID n)) n) (nd_notes db),
      nd_revisions := mput (s, nt_ID n, nt_Revision n) (revisionRow cand n) (expiredRevisions s cand n (nd_revisions db))\<rparr>"
    using ins unfolding insertRevisionRow_def by (auto simp: db2 db1 split: if_splits)
  show "fits_int4 (nt_Revision n)" using ins by (simp add: insertRevisionRow_def split: if_splits)
  have "mget (expiredRevisions s cand n (nd_revisions db)) (s, nt_ID n, nt_Revision n) = None"
    using ins unfolding insertRevisionRow_def by (auto simp: db2 db1 split: if_splits)
  then show "mget (nd_revisions db) (s, nt_ID n, nt_Revision n) = None" by (simp add: mget_expiredRevisions)
  show "\<forall>k \<in> set (expiredRevisions s cand n (nd_revisions db)). fst (fst k) = s \<longrightarrow> rv_CandidateID (snd k) \<noteq> cn_ID cand"
    using ins unfolding insertRevisionRow_def by (auto simp: db2 db1 revisionRow_def list_ex_iff split: if_splits)
  show "\<forall>k r. mget (nd_notes db) (s, k) = Some r \<longrightarrow> tn_Key r \<noteq> nt_Key n" if "mget (nd_notes db) (s, nt_ID n) = None"
    using up that by (auto simp: upsertNoteRow_def list_ex_iff noteRow_def split: if_splits dest!: map_of_SomeD)
qed

lemma applyRunCandidate_cases:
  assumes "applyRunCandidate E st s run i cand db = Inr (db', read, n)"
  obtains (known) "\<not> read" "db' = db" "mget (nd_candidates db) (s, cn_ID cand) \<noteq> None" "noteForCandidate E s (cn_ID cand) db = Inr (db, n)"
  | (admitted) "read" "mget (nd_candidates db) (s, cn_ID cand) = None" "mget (nd_runs db) (s, run_ID run) \<noteq> None"
    "AdmitCandidateWithAuthority (ns_policy st) (ne_clock E i) cand (run_Evidence run) (noteByKey E db s (CanonicalKey cand))
       (transitionAuthorityFor (run_TransitionAuthorities run) (cn_ID cand)) = Inr n"
    "db' = admittedTables s (run_ID run) cand n db"
    "fits_int4 (nt_Revision n)" "mget (nd_revisions db) (s, nt_ID n, nt_Revision n) = None"
    "\<forall>k \<in> set (expiredRevisions s cand n (nd_revisions db)). fst (fst k) = s \<longrightarrow> rv_CandidateID (snd k) \<noteq> cn_ID cand"
    "mget (nd_notes db) (s, nt_ID n) = None \<Longrightarrow> \<forall>k r. mget (nd_notes db) (s, k) = Some r \<longrightarrow> tn_Key r \<noteq> nt_Key n"
    "distinct (nt_EvidenceEventIDs n)"
    "\<forall>e \<in> set (nt_EvidenceEventIDs n). (s, nt_ID n, nt_Revision n, e) \<notin> set (nd_evidence db) \<and> eventStored (nd_session db) s e"
proof -
  from assms obtain db1 inserted where ins: "insertCandidate E s (run_ID run) cand db = Inr (db1, inserted)"
    and rest: "(if \<not> inserted then tx_bind (noteForCandidate E s (cn_ID cand)) (\<lambda>n. tx_return (False, n)) else
        let noteKey = CanonicalKey cand in
        tx_bind (lockNoteKey E s noteKey)
       (\<lambda>_. tx_bind (noteForUpdate E s noteKey)
       (\<lambda>current. tx_bind (tx_lift (AdmitCandidateWithAuthority (ns_policy st) (ne_clock E i) cand (run_Evidence run) current
           (transitionAuthorityFor (run_TransitionAuthorities run) (cn_ID cand))))
       (\<lambda>n. tx_bind (saveNote E s cand n)
       (\<lambda>_. tx_bind (saveEvidence E s n)
       (\<lambda>_. tx_bind (statement (ne_fault E) ''mark candidate admitted'' (cn_ID cand)
           (updateCandidateRow s (cn_ID cand) (\<lambda>r. r\<lparr>cr_AdmissionStatus := ''admitted''\<rparr>)))
       (\<lambda>_. tx_return (True, n)))))))) db1 = Inr (db', read, n)"
    unfolding applyRunCandidate_def tx_bind_ok by blast
  show thesis
  proof (cases inserted)
    case False
    with ins have "db1 = db" "mget (nd_candidates db) (s, cn_ID cand) \<noteq> None" by (auto simp: tx_ok)
    with rest False show thesis
      by (intro known) (auto simp: tx_ok noteForCandidate_def split: option.splits)
  next
    case True
    with ins have new: "mget (nd_candidates db) (s, cn_ID cand) = None" "mget (nd_runs db) (s, run_ID run) \<noteq> None"
      "db1 = db\<lparr>nd_candidates := mput (s, cn_ID cand) (candidateRow (run_ID run) cand) (nd_candidates db)\<rparr>" by (auto simp: tx_ok)
    from rest True obtain db2 db3 where
      adm: "AdmitCandidateWithAuthority (ns_policy st) (ne_clock E i) cand (run_Evidence run) (noteByKey E db1 s (CanonicalKey cand))
        (transitionAuthorityFor (run_TransitionAuthorities run) (cn_ID cand)) = Inr n"
      and save: "saveNote E s cand n db1 = Inr (db2, ())" and ev: "saveEvidence E s n db2 = Inr (db3, ())"
      and mark: "updateCandidateRow s (cn_ID cand) (\<lambda>r. r\<lparr>cr_AdmissionStatus := ''admitted''\<rparr>) db3 = Inr (db', ())" and read
      by (auto simp: tx_ok Let_def lockNoteKey_def noteForUpdate_def noteByKey_def)
    have "noteByKey E db1 s (CanonicalKey cand) = noteByKey E db s (CanonicalKey cand)"
      using scanNote_cong [of db1 db E] by (simp only: noteByKey_def new(3)) simp
    moreover note saved = saveNote_ok [OF save] and stored = saveEvidenceIDs_ok [OF ev [unfolded saveEvidence_def]]
    moreover have "db' = admittedTables s (run_ID run) cand n db"
      using mark unfolding updateCandidateRow_def admittedTables_def
      by (simp add: stored(1) saved(1) new(3) go_map)
    ultimately show thesis
      using \<open>read\<close> new adm by (intro admitted) (simp_all add: new(3))
  qed
qed

section \<open>The invariant\<close>

text \<open>A second key of a table: two rows with the same value of it are the same row.\<close>

definition unique_by :: "('k \<Rightarrow> 'v option) \<Rightarrow> ('v \<Rightarrow> 'x) \<Rightarrow> bool" where
  "unique_by f key \<longleftrightarrow> (\<forall>x y a b. f x = Some a \<longrightarrow> f y = Some b \<longrightarrow> key a = key b \<longrightarrow> x = y)"

lemma unique_byD: "unique_by f key \<Longrightarrow> f x = Some a \<Longrightarrow> f y = Some b \<Longrightarrow> key a = key b \<Longrightarrow> x = y"
  unfolding unique_by_def by blast

lemma unique_by_upd:
  assumes "unique_by f key" and "\<And>y b. f y = Some b \<Longrightarrow> key b = key v \<Longrightarrow> y = k"
  shows "unique_by (f(k \<mapsto> v)) key"
  unfolding unique_by_def
proof (intro allI impI)
  fix x y a b
  assume *: "(f(k \<mapsto> v)) x = Some a" "(f(k \<mapsto> v)) y = Some b" "key a = key b"
  consider "x = k" "y = k" | "x = k" "y \<noteq> k" | "x \<noteq> k" "y = k" | "x \<noteq> k" "y \<noteq> k" by blast
  then show "x = y"
  proof cases
    case 2
    then show ?thesis using * assms(2) [of y b] by simp
  next
    case 3
    then show ?thesis using * assms(2) [of x a] by simp
  next
    case 4
    then show ?thesis using * unique_byD [OF assms(1), of x a y b] by simp
  qed simp
qed

lemma slice_upd: "(\<lambda>i. (m((s, k) \<mapsto> v)) (t, i)) = (if t = s then (\<lambda>i. m (s, i))(k \<mapsto> v) else (\<lambda>i. m (t, i)))"
  by (auto simp: fun_eq_iff)

lemma slice_unique_upd:
  assumes "\<forall>t. unique_by (\<lambda>i. m (t, i)) key" and "\<And>y b. m (s, y) = Some b \<Longrightarrow> key b = key v \<Longrightarrow> y = k"
  shows "\<forall>t. unique_by (\<lambda>i. (m((s, k) \<mapsto> v)) (t, i)) key"
  unfolding slice_upd using assms by (auto intro!: unique_by_upd)

definition runs_ok :: "row_key set \<Rightarrow> time \<Rightarrow> (row_key, run_row) gomap \<Rightarrow> bool" where
  "runs_ok busy t R \<longleftrightarrow> mwf R \<and>
     (\<forall>k r. mget R k = Some r \<longrightarrow>
        (if k \<in> busy then xr_Status r = ExtractionRunProcessing \<and> xr_CreatedAt r = t
         else xr_Status r \<in> {ExtractionRunCompleted, ExtractionRunQuarantined} \<and> xr_CompletedAt r = Some (xr_CreatedAt r))) \<and>
     (\<forall>s. unique_by (\<lambda>i. mget R (s, i)) (\<lambda>r. (AgentID (xr_Actor r), SessionID (xr_Actor r), xr_InputChecksum r)))"

definition revisionCandidate :: "note_db \<Rightarrow> revision_key \<Rightarrow> string option" where
  "revisionCandidate db k = map_option rv_CandidateID (mget (nd_revisions db) k)"

definition revised :: "note_db \<Rightarrow> string \<Rightarrow> string \<Rightarrow> bool" where
  "revised db s c \<longleftrightarrow> (\<exists>n v. revisionCandidate db (s, n, v) = Some c)"

definition candidates_ok :: "note_db \<Rightarrow> bool" where
  "candidates_ok db \<longleftrightarrow> mwf (nd_candidates db) \<and>
     (\<forall>s c row. mget (nd_candidates db) (s, c) = Some row \<longrightarrow> mget (nd_runs db) (s, cr_RunID row) \<noteq> None \<and>
        cr_AdmissionStatus row = (if revised db s c then ''admitted'' else ''rejected''))"

definition note_row_ok :: "note_row \<Rightarrow> bool" where
  "note_row_ok r \<longleftrightarrow> tn_SoftExpiresAt r \<le> tn_HardExpiresAt r \<and> tn_State r \<in> {StateActive, StateResolved} \<and>
     1 \<le> tn_CurrentRevision r \<and> (tn_Embedding r \<noteq> None \<longrightarrow> tn_EmbeddingRevision r = Some (tn_CurrentRevision r))"

definition notes_ok :: "note_db \<Rightarrow> bool" where
  "notes_ok db \<longleftrightarrow> mwf (nd_notes db) \<and>
     (\<forall>s n r. mget (nd_notes db) (s, n) = Some r \<longrightarrow> note_row_ok r \<and> n \<noteq> [] \<and> mget (nd_candidates db) (s, n) \<noteq> None \<and>
        (\<forall>v. 1 \<le> v \<and> v \<le> tn_CurrentRevision r \<longrightarrow> mget (nd_revisions db) (s, n, v) \<noteq> None)) \<and>
     (\<forall>s. unique_by (\<lambda>n. mget (nd_notes db) (s, n)) tn_Key)"

text \<open>A revision belongs to a note; the revisions of a note are numbered from 1 to its current one, which alone is not
  expired and has the content of the note.\<close>

definition revision_ok :: "int \<Rightarrow> revision_row \<Rightarrow> note_row \<Rightarrow> bool" where
  "revision_ok v r row \<longleftrightarrow> 1 \<le> v \<and> v \<le> tn_CurrentRevision row \<and> (rv_ExpiredAt r = None \<longleftrightarrow> v = tn_CurrentRevision row) \<and>
     (v = tn_CurrentRevision row \<longrightarrow> rv_Body r = tn_Body row \<and> rv_RelatedSubjects r = tn_RelatedSubjects row \<and>
        rv_ValidAt r = tn_ValidAt row \<and> rv_InvalidAt r = tn_InvalidAt row \<and> rv_CreatedAt r = tn_UpdatedAt row)"

definition revisions_ok :: "note_db \<Rightarrow> bool" where
  "revisions_ok db \<longleftrightarrow> mwf (nd_revisions db) \<and>
     (\<forall>s n v r. mget (nd_revisions db) (s, n, v) = Some r \<longrightarrow> mget (nd_candidates db) (s, rv_CandidateID r) \<noteq> None \<and>
        (\<exists>e. (s, n, v, e) \<in> set (nd_evidence db)) \<and> (\<exists>row. mget (nd_notes db) (s, n) = Some row \<and> revision_ok v r row)) \<and>
     (\<forall>s. unique_by (\<lambda>k. revisionCandidate db (s, k)) (\<lambda>c. c))"

definition evidence_ok :: "note_db \<Rightarrow> bool" where
  "evidence_ok db \<longleftrightarrow> pg_inv (nd_session db) \<and> distinct (nd_evidence db) \<and>
     (\<forall>s n v e. (s, n, v, e) \<in> set (nd_evidence db) \<longrightarrow> mget (nd_revisions db) (s, n, v) \<noteq> None \<and> eventStored (nd_session db) s e)"

definition deliveries_ok :: "note_db \<Rightarrow> bool" where
  "deliveries_ok db \<longleftrightarrow> mwf (nd_deliveries db) \<and> mwf (nd_hints db) \<and>
     (\<forall>s n v u. mget (nd_deliveries db) (s, n, v, u) \<noteq> None \<longrightarrow> mget (nd_revisions db) (s, n, v) \<noteq> None)"

definition tables_ok :: "note_db \<Rightarrow> bool" where
  "tables_ok db \<longleftrightarrow> candidates_ok db \<and> notes_ok db \<and> revisions_ok db \<and> evidence_ok db \<and> deliveries_ok db"

definition note_db_ok :: "note_db \<Rightarrow> bool" where
  "note_db_ok db \<longleftrightarrow> runs_ok {} 0 (nd_runs db) \<and> tables_ok db"

section \<open>Admission keeps the invariant\<close>

lemma admitted_state:
  assumes "AdmitCandidateWithAuthority policy now cand evidence current authority = Inr n"
  shows "nt_State n \<in> {StateActive, StateResolved}"
  using assms
proof (cases rule: admit_cases)
  case (written cand' lease)
  then show ?thesis using stateForValidity_cases [of now "cn_InvalidAt cand'"]
    by (auto simp: createdNote_def updatedNote_def Let_def split: option.splits)
qed (simp add: resolvedNote_def)

lemma noteByKey_None: "mwf (nd_notes db) \<Longrightarrow> noteByKey E db s key = None \<Longrightarrow> mget (nd_notes db) (s, m) = Some r \<Longrightarrow> tn_Key r \<noteq> key"
  by (auto simp: noteByKey_def find_None_iff dest!: map_of_SomeD)

lemma find_SomeD: "find P xs = Some x \<Longrightarrow> x \<in> set xs \<and> P x"
  by (auto simp: find_Some_iff)

lemma noteByKey_Some:
  assumes "mwf (nd_notes db)" and "noteByKey E db s key = Some cur"
  obtains r where "mget (nd_notes db) (s, nt_ID cur) = Some r" "tn_Key r = key" "cur = scanNote E db ((s, nt_ID cur), r)"
proof -
  from assms(2) obtain k r where f: "find (\<lambda>((scope, _), r). scope = s \<and> tn_Key r = key) (nd_notes db) = Some (k, r)"
    and cur: "cur = scanNote E db (k, r)" by (auto simp: noteByKey_def)
  obtain m where m: "k = (s, m)" "tn_Key r = key" "((s, m), r) \<in> set (nd_notes db)" using f
    by (cases k) (auto dest!: find_SomeD)
  have "nt_ID cur = m" by (simp add: cur m scanNote_def normalizeNoteTimes_def)
  then show thesis using m cur assms(1) by (intro that [of r]) auto
qed

lemma scanNote_simps [simp]:
  "nt_ID (scanNote E db ((s, m), r)) = m" "nt_Key (scanNote E db ((s, m), r)) = tn_Key r"
  "nt_Revision (scanNote E db ((s, m), r)) = tn_CurrentRevision r" "nt_State (scanNote E db ((s, m), r)) = tn_State r"
  "nt_SoftExpiresAt (scanNote E db ((s, m), r)) = tn_SoftExpiresAt r" "nt_HardExpiresAt (scanNote E db ((s, m), r)) = tn_HardExpiresAt r"
  "nt_EvidenceEventIDs (scanNote E db ((s, m), r)) = evidenceOf E db s m (tn_CurrentRevision r)"
  by (simp_all add: scanNote_def normalizeNoteTimes_def)

lemma set_evidenceOf [simp]: "e \<in> set (evidenceOf E db s m v) \<longleftrightarrow> (s, m, v, e) \<in> set (nd_evidence db)"
  by (force simp: evidenceOf_def)

lemma stored_wf:
  assumes "tables_ok db" and "mget (nd_notes db) (s, m) = Some r"
  shows "wf_note (tn_Key r) (scanNote E db ((s, m), r))"
proof -
  from assms have r: "note_row_ok r" and "mget (nd_revisions db) (s, m, tn_CurrentRevision r) \<noteq> None"
    unfolding tables_ok_def notes_ok_def note_row_ok_def by fastforce+
  then obtain e where "(s, m, tn_CurrentRevision r, e) \<in> set (nd_evidence db)"
    using assms(1) unfolding tables_ok_def revisions_ok_def by fastforce
  then have "e \<in> set (nt_EvidenceEventIDs (scanNote E db ((s, m), r)))" by simp
  then have "nt_EvidenceEventIDs (scanNote E db ((s, m), r)) \<noteq> []" by (metis list.set(1) empty_iff)
  then show ?thesis using r unfolding wf_note_def note_row_ok_def scanNote_simps by blast
qed

lemma pg_time_mono: "a \<le> b \<Longrightarrow> pg_time a \<le> pg_time b"
  by (simp add: pg_time_def zdiv_mono1)

lemma pg_time_le: "pg_time a \<le> a"
  by (simp add: pg_time_def)

lemma admitted_named: "AdmitCandidateWithAuthority policy now cand evidence current authority = Inr n \<Longrightarrow> cn_ID cand \<noteq> []"
  by (erule admit_cases) (auto simp: validateCandidate_def split: if_splits)

lemma admitted_new: "AdmitCandidateWithAuthority policy now cand evidence None authority = Inr n \<Longrightarrow> nt_Revision n = 1"
  by (erule admit_cases) (auto simp: createdNote_def Let_def)

text \<open>Where an admission writes: a new note under its key, or the next revision of the note with that key.\<close>

lemma admitted_place:
  assumes ok: "tables_ok db" and fresh: "mget (nd_candidates db) (s, cn_ID cand) = None"
    and adm: "AdmitCandidateWithAuthority policy now cand evidence (noteByKey E db s (CanonicalKey cand)) authority = Inr n"
  shows "wf_note (CanonicalKey cand) n"
    and "(mget (nd_notes db) (s, nt_ID n) = None \<and> nt_Revision n = 1 \<and> nt_ID n = cn_ID cand \<and>
        (\<forall>m r. mget (nd_notes db) (s, m) = Some r \<longrightarrow> tn_Key r \<noteq> nt_Key n)) \<or>
      (\<exists>r. mget (nd_notes db) (s, nt_ID n) = Some r \<and> nt_Revision n = tn_CurrentRevision r + 1 \<and> tn_Key r = nt_Key n \<and>
         nt_HardExpiresAt n = tn_HardExpiresAt r)"
proof -
  have wf: "mwf (nd_notes db)" using ok by (simp add: tables_ok_def notes_ok_def)
  have cur: "wf_note (CanonicalKey cand) cur" if "noteByKey E db s (CanonicalKey cand) = Some cur" for cur
    using noteByKey_Some [OF wf that] stored_wf [OF ok] by metis
  show *: "wf_note (CanonicalKey cand) n" by (rule admitted_wf [OF adm cur])
  then have key: "nt_Key n = CanonicalKey cand" by (simp add: wf_note_def)
  show "(mget (nd_notes db) (s, nt_ID n) = None \<and> nt_Revision n = 1 \<and> nt_ID n = cn_ID cand \<and>
        (\<forall>m r. mget (nd_notes db) (s, m) = Some r \<longrightarrow> tn_Key r \<noteq> nt_Key n)) \<or>
      (\<exists>r. mget (nd_notes db) (s, nt_ID n) = Some r \<and> nt_Revision n = tn_CurrentRevision r + 1 \<and> tn_Key r = nt_Key n \<and>
         nt_HardExpiresAt n = tn_HardExpiresAt r)"
  proof (cases "noteByKey E db s (CanonicalKey cand)")
    case None
    have "nt_ID n = cn_ID cand" using admitted_ID [OF adm] None by simp
    moreover have "mget (nd_notes db) (s, cn_ID cand) = None"
      using ok fresh unfolding tables_ok_def notes_ok_def by (meson not_None_eq)
    ultimately show ?thesis using None adm admitted_new noteByKey_None [OF wf None] by (auto simp: key)
  next
    case (Some cur)
    obtain r where r: "mget (nd_notes db) (s, nt_ID cur) = Some r" "tn_Key r = CanonicalKey cand" "cur = scanNote E db ((s, nt_ID cur), r)"
      by (rule noteByKey_Some [OF wf Some])
    have "nt_ID n = nt_ID cur" "nt_Revision n = nt_Revision cur + 1" "nt_HardExpiresAt n = nt_HardExpiresAt cur"
      using admitted_follows [OF adm [unfolded Some]] by (simp_all add: note_follows_def)
    moreover have "nt_Revision cur = tn_CurrentRevision r" "nt_HardExpiresAt cur = tn_HardExpiresAt r"
      using scanNote_simps(3,6) r(3) by metis+
    ultimately show ?thesis using r(1,2) by (auto simp: key)
  qed
qed

lemma expireRevision_simps [simp]:
  "rv_CandidateID (expireRevision t b r) = rv_CandidateID r" "rv_ExpiredAt (expireRevision t b r) \<noteq> None"
  by (simp_all add: expireRevision_def)

lemma mget_admitted_revisions:
  "mget (nd_revisions (admittedTables s runID cand n db)) (s', m, w) =
     (if (s', m, w) = (s, nt_ID n, nt_Revision n) then Some (revisionRow cand n)
      else map_option (\<lambda>r. if s' = s \<and> m = nt_ID n
        then expireRevision (pg_time (nt_UpdatedAt n)) (pg_time (validityBoundary cand n)) r else r) (mget (nd_revisions db) (s', m, w)))"
  by (simp add: admittedTables_def go_map mget_expiredRevisions)

lemma admitted_candidate_id: "rv_CandidateID (revisionRow cand n) = cn_ID cand"
  by (simp add: revisionRow_def)

lemma admitted_revisionCandidate:
  "revisionCandidate (admittedTables s runID cand n db) = (revisionCandidate db)((s, nt_ID n, nt_Revision n) \<mapsto> cn_ID cand)"
proof
  fix k
  show "revisionCandidate (admittedTables s runID cand n db) k = ((revisionCandidate db)((s, nt_ID n, nt_Revision n) \<mapsto> cn_ID cand)) k"
    by (cases k) (auto simp: revisionCandidate_def mget_admitted_revisions admitted_candidate_id option.map_comp comp_def
        simp del: split_paired_All intro!: option.map_cong)
qed

lemma admitted_revised:
  assumes "mget (nd_revisions db) (s, nt_ID n, nt_Revision n) = None"
  shows "revised (admittedTables s runID cand n db) s' c \<longleftrightarrow> revised db s' c \<or> (s' = s \<and> c = cn_ID cand)"
proof -
  have "revisionCandidate db (s, nt_ID n, nt_Revision n) = None" using assms by (simp add: revisionCandidate_def)
  then show ?thesis unfolding revised_def admitted_revisionCandidate by (auto simp: fun_upd_def) (metis option.distinct(1))
qed

section \<open>The groups after an admission\<close>

lemma admittedTables_simps [simp]:
  "nd_runs (admittedTables s runID cand n db) = nd_runs db" "nd_deliveries (admittedTables s runID cand n db) = nd_deliveries db"
  "nd_hints (admittedTables s runID cand n db) = nd_hints db" "nd_session (admittedTables s runID cand n db) = nd_session db"
  "nd_observations (admittedTables s runID cand n db) = nd_observations db"
  "mget (nd_candidates (admittedTables s runID cand n db)) =
     (mget (nd_candidates db))((s, cn_ID cand) \<mapsto> (candidateRow runID cand)\<lparr>cr_AdmissionStatus := ''admitted''\<rparr>)"
  "mget (nd_notes (admittedTables s runID cand n db)) =
     (mget (nd_notes db))((s, nt_ID n) \<mapsto> savedRow (mget (nd_notes db) (s, nt_ID n)) n)"
  "nd_evidence (admittedTables s runID cand n db) =
     nd_evidence db @ map (\<lambda>e. (s, nt_ID n, nt_Revision n, e)) (nt_EvidenceEventIDs n)"
  by (simp_all add: admittedTables_def go_map)

lemma admitted_keeps_revisions:
  "mget (nd_revisions db) k \<noteq> None \<Longrightarrow> mget (nd_revisions (admittedTables s runID cand n db)) k \<noteq> None"
  by (cases k) (auto simp: mget_admitted_revisions)

lemma candidates_ok_admitted:
  assumes "candidates_ok db" and "mget (nd_runs db) (s, runID) \<noteq> None" and "mget (nd_revisions db) (s, nt_ID n, nt_Revision n) = None"
  shows "candidates_ok (admittedTables s runID cand n db)"
  using assms(1,2) unfolding candidates_ok_def admitted_revised [OF assms(3)]
  by (auto simp: admittedTables_def go_map candidateRow_def)

lemma evidence_ok_admitted:
  assumes "evidence_ok db" and "distinct (nt_EvidenceEventIDs n)"
    and "\<forall>e \<in> set (nt_EvidenceEventIDs n). (s, nt_ID n, nt_Revision n, e) \<notin> set (nd_evidence db) \<and> eventStored (nd_session db) s e"
  shows "evidence_ok (admittedTables s runID cand n db)"
proof -
  have "distinct (map (\<lambda>e. (s, nt_ID n, nt_Revision n, e)) (nt_EvidenceEventIDs n))"
    using assms(2) by (simp add: distinct_map inj_on_def)
  moreover have "mget (nd_revisions (admittedTables s runID cand n db)) (s, nt_ID n, nt_Revision n) \<noteq> None"
    by (simp add: mget_admitted_revisions)
  ultimately show ?thesis
    using assms admitted_keeps_revisions [of db] unfolding evidence_ok_def by auto
qed

lemma deliveries_ok_admitted: "deliveries_ok db \<Longrightarrow> deliveries_ok (admittedTables s runID cand n db)"
  using admitted_keeps_revisions [of db] unfolding deliveries_ok_def by simp

text \<open>The note an admission writes, beside the tables it is written to.\<close>

definition placed :: "note_db \<Rightarrow> string \<Rightarrow> candidate \<Rightarrow> team_note \<Rightarrow> bool" where
  "placed db s cand n \<longleftrightarrow> cn_ID cand \<noteq> [] \<and> wf_note (CanonicalKey cand) n \<and> nt_State n \<in> {StateActive, StateResolved} \<and>
     ((mget (nd_notes db) (s, nt_ID n) = None \<and> nt_Revision n = 1 \<and> nt_ID n = cn_ID cand \<and>
        (\<forall>m r. mget (nd_notes db) (s, m) = Some r \<longrightarrow> tn_Key r \<noteq> nt_Key n)) \<or>
      (\<exists>r. mget (nd_notes db) (s, nt_ID n) = Some r \<and> nt_Revision n = tn_CurrentRevision r + 1 \<and> tn_Key r = nt_Key n \<and>
         nt_HardExpiresAt n = tn_HardExpiresAt r))"

lemma placed_row:
  assumes "placed db s cand n"
  shows "note_row_ok (savedRow (mget (nd_notes db) (s, nt_ID n)) n)" and "tn_Key (savedRow (mget (nd_notes db) (s, nt_ID n)) n) = nt_Key n"
proof -
  have soft: "nt_SoftExpiresAt n \<le> nt_HardExpiresAt n" "1 \<le> nt_Revision n" using assms by (auto simp: placed_def wf_note_def)
  have "pg_time (nt_SoftExpiresAt n) \<le> tn_HardExpiresAt (savedRow (mget (nd_notes db) (s, nt_ID n)) n)"
    using assms pg_time_mono [OF soft(1)] order_trans [OF pg_time_le soft(1)]
    by (auto simp: placed_def savedRow_def noteRow_def)
  then show "note_row_ok (savedRow (mget (nd_notes db) (s, nt_ID n)) n)"
    using assms soft by (auto simp: note_row_ok_def placed_def)
  show "tn_Key (savedRow (mget (nd_notes db) (s, nt_ID n)) n) = nt_Key n"
    using assms by (auto simp: placed_def savedRow_def noteRow_def)
qed

lemma notes_ok_admitted:
  assumes ok: "notes_ok db" and "placed db s cand n"
    and old: "\<forall>m r. mget (nd_notes db) (s, m) = Some r \<longrightarrow> mget (nd_candidates db) (s, m) \<noteq> None"
  shows "notes_ok (admittedTables s runID cand n db)"
  unfolding notes_ok_def
proof (intro conjI allI impI)
  let ?db = "admittedTables s runID cand n db" and ?row = "savedRow (mget (nd_notes db) (s, nt_ID n)) n"
  show "mwf (nd_notes ?db)" using ok by (simp add: admittedTables_def notes_ok_def)
  fix s' m r
  assume r: "mget (nd_notes ?db) (s', m) = Some r"
  show "note_row_ok r" using r ok placed_row(1) [OF assms(2)] by (auto simp: notes_ok_def split: if_splits)
  show "m \<noteq> []" using r ok assms(2) by (auto simp: notes_ok_def placed_def split: if_splits)
  show "mget (nd_candidates ?db) (s', m) \<noteq> None"
    using r ok assms(2) by (auto simp: notes_ok_def placed_def split: if_splits)
  show "mget (nd_revisions ?db) (s', m, v) \<noteq> None" if "1 \<le> v \<and> v \<le> tn_CurrentRevision r" for v
  proof (cases "(s', m, v) = (s, nt_ID n, nt_Revision n)")
    case True
    then show ?thesis by (auto simp: mget_admitted_revisions)
  next
    case False
    have stored: "mget (nd_revisions db) (t, x, v) \<noteq> None" if "mget (nd_notes db) (t, x) = Some row" "v \<le> tn_CurrentRevision row" for t x row
      using ok that \<open>1 \<le> v \<and> v \<le> tn_CurrentRevision r\<close> unfolding notes_ok_def by blast
    have "mget (nd_revisions db) (s', m, v) \<noteq> None"
    proof (cases "(s', m) = (s, nt_ID n)")
      case True
      then have "r = ?row" using r by simp
      then have "v < nt_Revision n" using that False True by auto
      then show ?thesis using assms(2) stored [of s "nt_ID n"] that True by (auto simp: placed_def)
    next
      case other: False
      then show ?thesis using r stored [of s' m r] that by auto
    qed
    then show ?thesis by (rule admitted_keeps_revisions)
  qed
next
  have key: "y = nt_ID n" if y: "mget (nd_notes db) (s, y) = Some r" "tn_Key r = tn_Key (savedRow (mget (nd_notes db) (s, nt_ID n)) n)" for y r
  proof -
    have "tn_Key r = nt_Key n" using y(2) placed_row(2) [OF assms(2)] by simp
    then obtain r' where "mget (nd_notes db) (s, nt_ID n) = Some r'" "tn_Key r' = nt_Key n" using assms(2) y(1) unfolding placed_def by blast
    moreover have "unique_by (\<lambda>n. mget (nd_notes db) (s, n)) tn_Key" using ok by (simp add: notes_ok_def)
    ultimately show ?thesis using unique_byD [of "\<lambda>n. mget (nd_notes db) (s, n)" tn_Key y r "nt_ID n" r'] y(1) \<open>tn_Key r = nt_Key n\<close> by simp
  qed
  fix t
  have "\<forall>t. unique_by (\<lambda>i. ((mget (nd_notes db))((s, nt_ID n) \<mapsto> savedRow (mget (nd_notes db) (s, nt_ID n)) n)) (t, i)) tn_Key"
    by (rule slice_unique_upd) (use ok key in \<open>auto simp: notes_ok_def\<close>)
  then show "unique_by (\<lambda>m. mget (nd_notes (admittedTables s runID cand n db)) (t, m)) tn_Key" by simp
qed

lemma revisionRow_ok: "1 \<le> nt_Revision n \<Longrightarrow> revision_ok (nt_Revision n) (revisionRow cand n) (savedRow old n)"
  by (auto simp: revision_ok_def revisionRow_def savedRow_def noteRow_def nonNilStrings_def split: option.split)

lemma revisions_ok_admitted:
  assumes ok: "revisions_ok db" and place: "placed db s cand n" and fresh: "mget (nd_candidates db) (s, cn_ID cand) = None"
  shows "revisions_ok (admittedTables s runID cand n db)"
  unfolding revisions_ok_def
proof (intro conjI allI impI)
  let ?db = "admittedTables s runID cand n db"
  show "mwf (nd_revisions ?db)" using ok by (simp add: admittedTables_def revisions_ok_def)
  fix s' m v r
  assume r: "mget (nd_revisions ?db) (s', m, v) = Some r"
  have n: "1 \<le> nt_Revision n" "nt_EvidenceEventIDs n \<noteq> []" using place by (auto simp: placed_def wf_note_def)
  have "mget (nd_candidates ?db) (s', rv_CandidateID r) \<noteq> None \<and> (\<exists>e. (s', m, v, e) \<in> set (nd_evidence ?db)) \<and>
    (\<exists>row. mget (nd_notes ?db) (s', m) = Some row \<and> revision_ok v r row)"
  proof (cases "(s', m, v) = (s, nt_ID n, nt_Revision n)")
    case True
    then have "r = revisionRow cand n" using r by (simp add: mget_admitted_revisions)
    then show ?thesis using True n revisionRow_ok [of n cand] by (auto simp: admitted_candidate_id neq_Nil_conv)
  next
    case False
    with r obtain r0 where r0: "mget (nd_revisions db) (s', m, v) = Some r0"
      and r_eq: "r = (if s' = s \<and> m = nt_ID n then expireRevision (pg_time (nt_UpdatedAt n)) (pg_time (validityBoundary cand n)) r0 else r0)"
      by (auto simp: mget_admitted_revisions)
    with ok obtain row e where old: "mget (nd_candidates db) (s', rv_CandidateID r0) \<noteq> None" "(s', m, v, e) \<in> set (nd_evidence db)"
      "mget (nd_notes db) (s', m) = Some row" "revision_ok v r0 row" unfolding revisions_ok_def by blast
    show ?thesis
    proof (cases "s' = s \<and> m = nt_ID n")
      case True
      then have "nt_Revision n = tn_CurrentRevision row + 1" using place old(3) by (auto simp: placed_def)
      then have "revision_ok v r (savedRow (mget (nd_notes db) (s, nt_ID n)) n)"
        using True old(4) r_eq by (simp add: revision_ok_def)
      then show ?thesis using True old(1,2) r_eq by auto
    next
      case other: False
      then show ?thesis using old r_eq by auto
    qed
  qed
  then show "mget (nd_candidates ?db) (s', rv_CandidateID r) \<noteq> None" "\<exists>e. (s', m, v, e) \<in> set (nd_evidence ?db)"
    "\<exists>row. mget (nd_notes ?db) (s', m) = Some row \<and> revision_ok v r row" by blast+
next
  let ?db = "admittedTables s runID cand n db"
  have new: "revisionCandidate db (s, m, v) \<noteq> Some (cn_ID cand)" for m v
  proof
    assume "revisionCandidate db (s, m, v) = Some (cn_ID cand)"
    then obtain r where "mget (nd_revisions db) (s, m, v) = Some r" "rv_CandidateID r = cn_ID cand" by (auto simp: revisionCandidate_def)
    then show False using ok fresh unfolding revisions_ok_def by metis
  qed
  fix t
  have "\<forall>t. unique_by (\<lambda>k. ((revisionCandidate db)((s, nt_ID n, nt_Revision n) \<mapsto> cn_ID cand)) (t, k)) (\<lambda>c. c)"
    by (rule slice_unique_upd) (use ok new in \<open>auto simp: revisions_ok_def\<close>)
  then show "unique_by (\<lambda>k. revisionCandidate ?db (t, k)) (\<lambda>c. c)" by (simp add: admitted_revisionCandidate)
qed

lemma applyRunCandidate_keeps:
  assumes "applyRunCandidate E st s run i cand db = Inr (db', read, n)" and ok: "tables_ok db"
  shows "tables_ok db' \<and> nd_runs db' = nd_runs db"
  using assms(1)
proof (cases rule: applyRunCandidate_cases)
  case known
  then show ?thesis using ok by simp
next
  case admitted
  have place: "placed db s cand n"
    using admitted_place [OF ok admitted(2,4)] admitted_state [OF admitted(4)] admitted_named [OF admitted(4)] by (simp add: placed_def)
  have groups: "candidates_ok db" "notes_ok db" "revisions_ok db" "evidence_ok db" "deliveries_ok db" using ok by (simp_all add: tables_ok_def)
  have "\<forall>m r. mget (nd_notes db) (s, m) = Some r \<longrightarrow> mget (nd_candidates db) (s, m) \<noteq> None" using groups(2) unfolding notes_ok_def by blast
  then show ?thesis
    unfolding tables_ok_def admitted(5)
    using candidates_ok_admitted [OF groups(1) admitted(3,7)] notes_ok_admitted [OF groups(2) place]
      revisions_ok_admitted [OF groups(3) place admitted(2)] evidence_ok_admitted [OF groups(4) admitted(10,11)]
      deliveries_ok_admitted [OF groups(5)] by simp
qed

lemma applyRunCandidates_keeps:
  "applyRunCandidates E st s run i cs ns db = Inr (db', ns') \<Longrightarrow> tables_ok db \<Longrightarrow> tables_ok db' \<and> nd_runs db' = nd_runs db"
proof (induction cs arbitrary: i ns db)
  case (Cons c cs)
  then obtain db1 read n where one: "applyRunCandidate E st s run i (WithEvidenceTime c (run_Evidence run)) db = Inr (db1, read, n)"
    and rest: "applyRunCandidates E st s run (if read then Suc i else i) cs (ns @ [n]) db1 = Inr (db', ns')"
    by (auto simp: tx_ok)
  show ?case using Cons.IH [OF rest] applyRunCandidate_keeps [OF one Cons.prems(2)] by simp
qed (simp add: tx_ok)

section \<open>The other writes\<close>

lemma insertRejectedCandidate_ok:
  assumes "insertRejectedCandidate E s runID cand reason db = Inr (db', u)"
  shows "db' = db \<or> mget (nd_candidates db) (s, cn_ID cand) = None \<and> mget (nd_runs db) (s, runID) \<noteq> None \<and>
    db' = db\<lparr>nd_candidates := mput (s, cn_ID cand) ((candidateRow runID cand)\<lparr>cr_AdmissionStatus := ''rejected'', cr_RejectionReason := reason\<rparr>)
      (nd_candidates db)\<rparr>"
proof -
  from assms obtain db1 inserted where ins: "insertCandidate E s runID cand db = Inr (db1, inserted)"
    and rest: "(if \<not> inserted then tx_return () else statement (ne_fault E) ''mark candidate rejected'' (cn_ID cand)
      (updateCandidateRow s (cn_ID cand) (\<lambda>r. r\<lparr>cr_AdmissionStatus := ''rejected'', cr_RejectionReason := reason\<rparr>))) db1 = Inr (db', u)"
    unfolding insertRejectedCandidate_def tx_bind_ok by blast
  show ?thesis
  proof (cases inserted)
    case True
    with ins rest show ?thesis by (auto simp: tx_ok updateCandidateRow_def go_map)
  next
    case False
    with ins rest show ?thesis by (auto simp: tx_ok)
  qed
qed

lemma revised_stored: "revisions_ok db \<Longrightarrow> revised db s c \<Longrightarrow> mget (nd_candidates db) (s, c) \<noteq> None"
  unfolding revisions_ok_def revised_def revisionCandidate_def by auto

text \<open>A rejected candidate and a new run leave the notes and their revisions alone.\<close>

lemma tables_ok_rejected:
  assumes ok: "tables_ok db" and "mget (nd_candidates db) (s, c) = None" and "mget (nd_runs db) (s, cr_RunID row) \<noteq> None"
    and "cr_AdmissionStatus row = ''rejected''"
  shows "tables_ok (db\<lparr>nd_candidates := mput (s, c) row (nd_candidates db)\<rparr>)"
proof -
  let ?db = "db\<lparr>nd_candidates := mput (s, c) row (nd_candidates db)\<rparr>"
  have rev: "revised ?db s' c' = revised db s' c'" "revisionCandidate ?db = revisionCandidate db" for s' c'
    by (simp_all add: revised_def revisionCandidate_def fun_eq_iff)
  have "\<not> revised db s c" using ok assms(2) revised_stored unfolding tables_ok_def by blast
  then have "candidates_ok ?db" using ok assms(3,4) unfolding tables_ok_def candidates_ok_def rev by (auto simp: go_map)
  moreover have "notes_ok db \<Longrightarrow> notes_ok ?db" unfolding notes_ok_def by (auto simp: go_map)
  moreover have "revisions_ok db \<Longrightarrow> revisions_ok ?db" unfolding revisions_ok_def rev by (auto simp: go_map)
  moreover have "evidence_ok ?db = evidence_ok db" "deliveries_ok ?db = deliveries_ok db" by (simp_all add: evidence_ok_def deliveries_ok_def)
  ultimately show ?thesis using ok by (simp add: tables_ok_def)
qed

lemma tables_ok_runs:
  assumes ok: "tables_ok db" and "\<And>k. mget (nd_runs db) k \<noteq> None \<Longrightarrow> mget R k \<noteq> None"
  shows "tables_ok (db\<lparr>nd_runs := R\<rparr>)"
proof -
  let ?db = "db\<lparr>nd_runs := R\<rparr>"
  have rev: "revised ?db s' c' = revised db s' c'" "revisionCandidate ?db = revisionCandidate db" for s' c'
    by (simp_all add: revised_def revisionCandidate_def fun_eq_iff)
  have "candidates_ok ?db" using ok assms(2) unfolding tables_ok_def candidates_ok_def rev by simp
  moreover have "notes_ok ?db = notes_ok db" "revisions_ok ?db = revisions_ok db" "evidence_ok ?db = evidence_ok db"
    "deliveries_ok ?db = deliveries_ok db"
    unfolding notes_ok_def revisions_ok_def rev evidence_ok_def deliveries_ok_def by simp_all
  ultimately show ?thesis using ok by (simp add: tables_ok_def)
qed

lemma insertRejected_keeps:
  "insertRejected E s runID rejected db = Inr (db', u) \<Longrightarrow> tables_ok db \<Longrightarrow> tables_ok db' \<and> nd_runs db' = nd_runs db"
proof (induction rejected arbitrary: db)
  case (Cons cr rest)
  obtain c reason where cr: "cr = (c, reason)" by fastforce
  with Cons.prems(1) obtain db1 where one: "insertRejectedCandidate E s runID c reason db = Inr (db1, ())"
    and more: "insertRejected E s runID rest db1 = Inr (db', u)" by (auto simp: tx_ok)
  have "tables_ok db1 \<and> nd_runs db1 = nd_runs db"
    using insertRejectedCandidate_ok [OF one] tables_ok_rejected [OF Cons.prems(2)] Cons.prems(2) by (auto simp: candidateRow_def)
  then show ?case using Cons.IH [OF more] by simp
qed (simp add: tx_ok)

section \<open>Runs\<close>

lemma runs_ok_insert:
  assumes "runs_ok {} 0 R" and "mget R (s, i) = None" and "\<not> list_ex (sameRunInput s row) R"
    and "if busy then xr_Status row = ExtractionRunProcessing \<and> xr_CreatedAt row = t
      else xr_Status row \<in> {ExtractionRunCompleted, ExtractionRunQuarantined} \<and> xr_CompletedAt row = Some (xr_CreatedAt row)"
  shows "runs_ok (if busy then {(s, i)} else {}) t (mput (s, i) row R)"
proof -
  have other: "\<not> (AgentID (xr_Actor a) = AgentID (xr_Actor row) \<and> SessionID (xr_Actor a) = SessionID (xr_Actor row) \<and>
      xr_InputChecksum a = xr_InputChecksum row)" if "mget R (s, j) = Some a" for j a
    using assms(3) map_of_SomeD [OF that] by (auto simp: list_ex_iff sameRunInput_def)
  have "\<forall>t. unique_by (\<lambda>j. ((mget R)((s, i) \<mapsto> row)) (t, j)) (\<lambda>r. (AgentID (xr_Actor r), SessionID (xr_Actor r), xr_InputChecksum r))"
    by (rule slice_unique_upd) (use assms(1) other in \<open>auto simp: runs_ok_def\<close>)
  then show ?thesis using assms(1,4) unfolding runs_ok_def by (auto simp: go_map split: if_splits)
qed

lemma runs_ok_complete:
  assumes "runs_ok {(s, i)} t R" and "mget R (s, i) = Some row"
  shows "runs_ok {} 0 (mput (s, i) (row\<lparr>xr_Status := ExtractionRunCompleted, xr_Result := result, xr_CompletedAt := Some t\<rparr>) R)"
proof -
  let ?row = "row\<lparr>xr_Status := ExtractionRunCompleted, xr_Result := result, xr_CompletedAt := Some t\<rparr>"
  let ?key = "\<lambda>r. (AgentID (xr_Actor r), SessionID (xr_Actor r), xr_InputChecksum r)"
  have t: "xr_CreatedAt row = t" using assms by (auto simp: runs_ok_def)
  have "j = i" if "mget R (s, j) = Some b" "?key b = ?key ?row" for j b
    using unique_byD [of "\<lambda>i. mget R (s, i)" ?key j b i row] assms that by (simp add: runs_ok_def)
  then have "\<forall>t. unique_by (\<lambda>j. ((mget R)((s, i) \<mapsto> ?row)) (t, j)) ?key"
    by (intro slice_unique_upd) (use assms(1) in \<open>auto simp: runs_ok_def\<close>)
  then show ?thesis using assms t unfolding runs_ok_def by (auto simp: go_map split: if_splits)
qed

section \<open>Every operation keeps the invariant\<close>

lemma applyExtractionRunTx_keeps:
  assumes "applyExtractionRunTx E st s run db = Inr (db', ns)" and ok: "note_db_ok db"
  shows "note_db_ok db'"
proof -
  from assms(1) obtain db1 inserted where ens: "ensureExtractionRun E s run db = Inr (db1, inserted)"
    and rest: "(if \<not> inserted then existingExtractionRunNotes E s run else
        tx_bind (applyRunCandidates E st s run 0 (run_Candidates run) [])
       (\<lambda>ns. tx_bind (insertRejected E s (run_ID run) (map (\<lambda>r. (rj_Candidate r, rj_Reason r)) (run_Rejections run)))
       (\<lambda>_. tx_bind (tx_lift (case ne_encodeNotes E ns of Inl e \<Rightarrow> Inl (wrapf ''encode extraction run result: '' e) | Inr s \<Rightarrow> Inr s))
       (\<lambda>result. tx_bind (statement (ne_fault E) ''complete extraction run'' [] (completeRunRow (ne_now E) s (run_ID run) result))
       (\<lambda>_. tx_return ns))))) db1 = Inr (db', ns)"
    unfolding applyExtractionRunTx_def tx_bind_ok by blast
  show ?thesis
  proof (cases inserted)
    case False
    with ens have "db1 = db" by (auto simp: ensureExtractionRun_def insertRunRow_def tx_ok split: if_splits)
    with rest False have "db' = db" by (auto simp: existingExtractionRunNotes_def tx_ok split: option.splits)
    with ok show ?thesis by simp
  next
    case True
    let ?row = "runRow E run ExtractionRunProcessing"
    from ens True have new: "mget (nd_runs db) (s, run_ID run) = None" "\<not> list_ex (sameRunInput s ?row) (nd_runs db)"
      "db1 = db\<lparr>nd_runs := mput (s, run_ID run) ?row (nd_runs db)\<rparr>"
      by (auto simp: ensureExtractionRun_def insertRunRow_def tx_ok split: if_splits)
    have runs: "runs_ok {(s, run_ID run)} (pg_time (ne_now E)) (nd_runs db1)"
      using runs_ok_insert [of "nd_runs db" s "run_ID run" ?row True "pg_time (ne_now E)"] ok new by (simp add: note_db_ok_def runRow_def)
    have tables: "tables_ok db1" using ok tables_ok_runs [of db] by (auto simp: note_db_ok_def new(3) go_map)
    from rest True obtain db2 db3 u result where app: "applyRunCandidates E st s run 0 (run_Candidates run) [] db1 = Inr (db2, ns)"
      and rej: "insertRejected E s (run_ID run) (map (\<lambda>r. (rj_Candidate r, rj_Reason r)) (run_Rejections run)) db2 = Inr (db3, u)"
      and fin: "completeRunRow (ne_now E) s (run_ID run) result db3 = Inr (db', ())"
      by (auto simp: tx_ok)
    have after: "tables_ok db3" "nd_runs db3 = nd_runs db1"
      using applyRunCandidates_keeps [OF app tables] insertRejected_keeps [OF rej] by auto
    have row: "mget (nd_runs db3) (s, run_ID run) = Some ?row" by (simp add: after(2) new(3) go_map)
    with fin have db': "db' = db3\<lparr>nd_runs := mput (s, run_ID run)
        (?row\<lparr>xr_Status := ExtractionRunCompleted, xr_Result := result, xr_CompletedAt := Some (pg_time (ne_now E))\<rparr>) (nd_runs db3)\<rparr>"
      by (simp add: completeRunRow_def)
    show ?thesis
      using runs_ok_complete [of s "run_ID run" "pg_time (ne_now E)" "nd_runs db3" ?row result] runs row after
        tables_ok_runs [OF after(1)] by (auto simp: note_db_ok_def db' go_map)
  qed
qed

lemma quarantineTx_keeps:
  assumes "quarantineTx E s run cause db = Inr (db', u)" and ok: "note_db_ok db"
  shows "note_db_ok db'"
proof -
  let ?row = "(runRow E run ExtractionRunQuarantined)\<lparr>xr_Error := error_text cause, xr_CompletedAt := Some (pg_time (ne_now E))\<rparr>"
  from assms(1) obtain db1 affected where ins: "insertRunRow s (run_ID run) ?row db = Inr (db1, affected)"
    and rest: "(if affected = 1 then insertRejected E s (run_ID run) (map (\<lambda>c. (c, error_text cause)) (run_Candidates run))
       else tx_return ()) db1 = Inr (db', u)"
    unfolding quarantineTx_def tx_bind_ok by (auto simp: tx_ok)
  show ?thesis
  proof (cases "affected = 1")
    case True
    with ins have new: "mget (nd_runs db) (s, run_ID run) = None" "\<not> list_ex (sameRunInput s ?row) (nd_runs db)"
      "db1 = db\<lparr>nd_runs := mput (s, run_ID run) ?row (nd_runs db)\<rparr>" by (auto simp: insertRunRow_def split: if_splits)
    have "runs_ok {} 0 (nd_runs db1)"
      using runs_ok_insert [of "nd_runs db" s "run_ID run" ?row False 0] ok new by (simp add: note_db_ok_def runRow_def)
    moreover have "tables_ok db1" using ok tables_ok_runs [of db] by (auto simp: note_db_ok_def new(3) go_map)
    ultimately show ?thesis using rest True insertRejected_keeps by (auto simp: note_db_ok_def)
  next
    case False
    with ins rest show ?thesis using ok by (auto simp: insertRunRow_def tx_ok split: if_splits)
  qed
qed

text \<open>Writing the embedding of a note.\<close>

definition sameNote :: "note_row \<Rightarrow> note_row \<Rightarrow> bool" where
  "sameNote r r' \<longleftrightarrow> r' = r\<lparr>tn_Embedding := tn_Embedding r', tn_EmbeddingModel := tn_EmbeddingModel r',
     tn_EmbeddingRevision := tn_EmbeddingRevision r', tn_EmbeddingError := tn_EmbeddingError r'\<rparr>"

lemma sameNote_fields:
  assumes "sameNote r r'"
  shows "tn_Key r' = tn_Key r" "tn_CurrentRevision r' = tn_CurrentRevision r" "tn_State r' = tn_State r"
    "tn_SoftExpiresAt r' = tn_SoftExpiresAt r" "tn_HardExpiresAt r' = tn_HardExpiresAt r" "revision_ok v w r' = revision_ok v w r"
proof -
  from assms obtain a b c d where "r' = r\<lparr>tn_Embedding := a, tn_EmbeddingModel := b, tn_EmbeddingRevision := c, tn_EmbeddingError := d\<rparr>"
    unfolding sameNote_def by blast
  then show "tn_Key r' = tn_Key r" "tn_CurrentRevision r' = tn_CurrentRevision r" "tn_State r' = tn_State r"
    "tn_SoftExpiresAt r' = tn_SoftExpiresAt r" "tn_HardExpiresAt r' = tn_HardExpiresAt r" "revision_ok v w r' = revision_ok v w r"
    by (simp_all add: revision_ok_def)
qed

lemma note_db_ok_embedding:
  assumes ok: "note_db_ok db" and row: "mget (nd_notes db) (s, n) = Some r" and same: "sameNote r r'"
    and emb: "tn_Embedding r' \<noteq> None \<longrightarrow> tn_EmbeddingRevision r' = Some (tn_CurrentRevision r)"
  shows "note_db_ok (db\<lparr>nd_notes := mput (s, n) r' (nd_notes db)\<rparr>)"
proof -
  let ?db = "db\<lparr>nd_notes := mput (s, n) r' (nd_notes db)\<rparr>"
  note f = sameNote_fields [OF same]
  have rev: "revised ?db = revised db" "revisionCandidate ?db = revisionCandidate db" by (simp_all add: revised_def revisionCandidate_def fun_eq_iff)
  have "notes_ok db" "revisions_ok db" using ok by (simp_all add: note_db_ok_def tables_ok_def)
  have "note_row_ok r'" using \<open>notes_ok db\<close> row emb f by (auto simp: notes_ok_def note_row_ok_def)
  have "m = n" if "mget (nd_notes db) (s, m) = Some b" "tn_Key b = tn_Key r'" for m b
    using unique_byD [of "\<lambda>n. mget (nd_notes db) (s, n)" tn_Key m b n r] \<open>notes_ok db\<close> row that f(1) by (simp add: notes_ok_def)
  then have "\<forall>t. unique_by (\<lambda>m. ((mget (nd_notes db))((s, n) \<mapsto> r')) (t, m)) tn_Key"
    by (intro slice_unique_upd) (use \<open>notes_ok db\<close> in \<open>auto simp: notes_ok_def\<close>)
  then have "notes_ok ?db"
    using \<open>notes_ok db\<close> row f(2) \<open>note_row_ok r'\<close> unfolding notes_ok_def by (auto simp: go_map split: if_splits)
  moreover have "revisions_ok ?db" unfolding revisions_ok_def rev
  proof (intro conjI allI impI)
    fix t m v w assume w: "mget (nd_revisions ?db) (t, m, v) = Some w"
    then obtain row' where row': "mget (nd_notes db) (t, m) = Some row'" "revision_ok v w row'"
      using \<open>revisions_ok db\<close> unfolding revisions_ok_def by fastforce
    show "\<exists>row. mget (nd_notes ?db) (t, m) = Some row \<and> revision_ok v w row"
      using row' row f(6) by (cases "(t, m) = (s, n)") (auto simp: go_map)
    show "mget (nd_candidates ?db) (t, rv_CandidateID w) \<noteq> None" "\<exists>e. (t, m, v, e) \<in> set (nd_evidence ?db)"
      using w \<open>revisions_ok db\<close> unfolding revisions_ok_def by auto
  qed (use \<open>revisions_ok db\<close> in \<open>auto simp: revisions_ok_def\<close>)
  moreover have "candidates_ok ?db = candidates_ok db" "evidence_ok ?db = evidence_ok db" "deliveries_ok ?db = deliveries_ok db"
    by (simp_all add: candidates_ok_def evidence_ok_def deliveries_ok_def rev)
  ultimately show ?thesis using ok by (simp add: note_db_ok_def tables_ok_def)
qed

lemma execute_embedding:
  assumes "execute db (statement fault message point (updateNoteRow s n revision f)) = (db', out)" and ok: "note_db_ok db"
    and "\<And>r. sameNote r (f r)"
    and "\<And>r. revision = None \<or> revision = Some (tn_CurrentRevision r) \<Longrightarrow>
      tn_Embedding (f r) \<noteq> None \<longrightarrow> tn_EmbeddingRevision (f r) = Some (tn_CurrentRevision r)"
  shows "note_db_ok db'"
proof -
  have "db' = db \<or> (\<exists>r. mget (nd_notes db) (s, n) = Some r \<and> (revision = None \<or> revision = Some (tn_CurrentRevision r)) \<and>
      db' = db\<lparr>nd_notes := mput (s, n) (f r) (nd_notes db)\<rparr>)"
    using assms(1) by (auto simp: execute_def statement_def updateNoteRow_def split: option.splits sum.splits if_splits)
  then show ?thesis using ok assms(3,4) by (auto intro!: note_db_ok_embedding)
qed

lemma embedding_writes_keep:
  "recordEmbeddingError E st db s n e = (db', out) \<Longrightarrow> note_db_ok db \<Longrightarrow> note_db_ok db'"
  "saveEmbedding E st db s n v = (db', out) \<Longrightarrow> note_db_ok db \<Longrightarrow> note_db_ok db'"
  unfolding recordEmbeddingError_def saveEmbedding_def
  by (erule (1) execute_embedding; auto simp: sameNote_def)+

lemma refreshEmbedding_keeps:
  assumes "refreshEmbedding E st db s n = (db', out)" and "note_db_ok db"
  shows "note_db_ok db'"
proof -
  have clear: "execute db (statement fault message point (updateNoteRow s m None
      (\<lambda>row. row\<lparr>tn_Embedding := None, tn_EmbeddingRevision := None, tn_EmbeddingError := []\<rparr>))) = (db', out) \<Longrightarrow> note_db_ok db'"
    for fault message point m
    by (erule execute_embedding [OF _ assms(2)]) (auto simp: sameNote_def)
  show ?thesis
    using assms clear embedding_writes_keep
    by (auto simp: refreshEmbedding_def split: option.splits if_splits sum.splits list.splits)
qed

lemma refreshEmbeddings_keeps: "refreshEmbeddings E st s ns db = (db', out) \<Longrightarrow> note_db_ok db \<Longrightarrow> note_db_ok db'"
proof (induction ns arbitrary: db)
  case (Cons n ns)
  then show ?case by (auto split: prod.splits sum.splits dest: refreshEmbedding_keeps)
qed simp

lemma pgApplyExtractionRun_keeps:
  assumes "pgApplyExtractionRun E st db s run = (db', out)" and ok: "note_db_ok db"
  shows "note_db_ok db'"
proof -
  have quar: "note_db_ok db1" if "quarantineExtractionRun E db s r e = (db1, o')" for r e db1 o'
  proof (cases o')
    case (Inl e')
    then have "db1 = db" using that by (auto simp: quarantineExtractionRun_def dest: transaction_error)
    then show ?thesis using ok by simp
  next
    case (Inr u)
    then have "quarantineTx E s r e db = Inr (db1, u)" using that by (auto simp: quarantineExtractionRun_def dest: transaction_ok)
    then show ?thesis by (rule quarantineTx_keeps [OF _ ok])
  qed
  show ?thesis
    using assms(1) ok quar
    by (auto simp: pgApplyExtractionRun_def split: sum.splits if_splits prod.splits
        dest: applyExtractionRunTx_keeps refreshEmbeddings_keeps)
qed

lemma pgApplyCandidate_keeps: "pgApplyCandidate E st db s runID c evidence = (db', out) \<Longrightarrow> note_db_ok db \<Longrightarrow> note_db_ok db'"
  by (auto simp: pgApplyCandidate_def Let_def split: prod.splits sum.splits list.splits dest: pgApplyExtractionRun_keeps)

lemma recordTargetEmbeddingErrors_keeps:
  "recordTargetEmbeddingErrors E st ts e db = (db', out) \<Longrightarrow> note_db_ok db \<Longrightarrow> note_db_ok db'"
proof (induction ts arbitrary: db)
  case (Cons t ts)
  then show ?case by (auto split: prod.splits sum.splits dest: embedding_writes_keep)
qed simp

lemma saveTargetEmbeddings_keeps:
  "saveTargetEmbeddings E st tvs k db = (db', out) \<Longrightarrow> note_db_ok db \<Longrightarrow> note_db_ok db'"
proof (induction tvs arbitrary: k db)
  case (Cons tv tvs)
  obtain t v where "tv = (t, v)" by fastforce
  with Cons show ?case by (auto split: prod.splits sum.splits if_splits dest: embedding_writes_keep)
qed simp

lemma BackfillEmbeddings_keeps:
  assumes "BackfillEmbeddings E st db batch = (db', out)" and "note_db_ok db"
  shows "note_db_ok db'"
proof -
  have "note_db_ok db1" if "backfillEmbeddingTargets E st embedAll ts db = (db1, out)" for embedAll ts db1
    using that assms(2)
    by (auto simp: backfillEmbeddingTargets_def recorded_def split: sum.splits prod.splits if_splits
        dest: recordTargetEmbeddingErrors_keeps saveTargetEmbeddings_keeps)
  then show ?thesis
    using assms by (auto simp: BackfillEmbeddings_def split: option.splits if_splits sum.splits prod.splits)
qed

section \<open>Claims\<close>

text \<open>The row a planned note claims for the recipient.\<close>

definition claimKey :: "string \<Rightarrow> recall_request \<Rightarrow> planned_recall \<Rightarrow> delivery_key" where
  "claimKey s rq p = (s, fst (planned_id p), snd (planned_id p), SessionID (rq_Actor rq))"

lemma insertDelivery_ok [tx_ok]:
  "insertDelivery E s p (rq_Actor rq) db = Inr (db', claimed) \<longleftrightarrow>
     ne_fault E (''save note delivery'' @ fst (planned_id p) @ '':'' @ show_int (snd (planned_id p))) = None \<and>
     fits_int4 (snd (planned_id p)) \<and> fits_int4 (pn_Tokens p) \<and>
     (if claimed then mget (nd_deliveries db) (claimKey s rq p) = None \<and> mget (nd_revisions db) (s, planned_id p) \<noteq> None \<and>
        db' = db\<lparr>nd_deliveries := mput (claimKey s rq p)
          \<lparr>dl_Recipient = rq_Actor rq, dl_ContextTokens = pn_Tokens p, dl_DeliveredAt = pg_time (ne_now E)\<rparr> (nd_deliveries db)\<rparr>
      else mget (nd_deliveries db) (claimKey s rq p) \<noteq> None \<and> db' = db)"
  by (auto simp: insertDelivery_def Let_def tx_ok insertDeliveryRow_def claimKey_def planned_id_def split: if_splits)

lemma insertHintDelivery_ok:
  assumes "insertHintDelivery E s p a db = Inr (db', claimed)"
  shows "\<exists>h. db' = db\<lparr>nd_hints := h\<rparr> \<and> (mwf (nd_hints db) \<longrightarrow> mwf h)"
proof -
  obtain h where "db' = db\<lparr>nd_hints := h\<rparr>" "mwf (nd_hints db) \<longrightarrow> mwf h"
    using assms by (cases claimed) (auto simp: insertHintDelivery_def tx_ok insertHintRow_def split: if_splits
        intro: that [of "nd_hints db"])
  then show ?thesis by blast
qed

definition claims_made :: "string \<Rightarrow> recall_request \<Rightarrow> planned_recall list \<Rightarrow> note_db \<Rightarrow> note_db \<Rightarrow> bool" where
  "claims_made s rq claimed db db' \<longleftrightarrow>
     distinct (map (claimKey s rq) claimed) \<and>
     (\<forall>p \<in> set claimed. mget (nd_deliveries db) (claimKey s rq p) = None \<and> mget (nd_revisions db) (s, planned_id p) \<noteq> None) \<and>
     dom (mget (nd_deliveries db')) = dom (mget (nd_deliveries db)) \<union> claimKey s rq ` set claimed \<and>
     (mwf (nd_deliveries db) \<longrightarrow> mwf (nd_deliveries db')) \<and> (mwf (nd_hints db) \<longrightarrow> mwf (nd_hints db')) \<and>
     db' = db\<lparr>nd_deliveries := nd_deliveries db', nd_hints := nd_hints db'\<rparr>"

lemma claims_made_Nil: "claims_made s rq [] db db"
  by (simp add: claims_made_def)

lemma claims_made_hint:
  assumes "claims_made s rq claimed (db\<lparr>nd_hints := h\<rparr>) db'" and "mwf (nd_hints db) \<longrightarrow> mwf h"
  shows "claims_made s rq claimed db db'"
proof -
  have "db' = (db\<lparr>nd_hints := h\<rparr>)\<lparr>nd_deliveries := nd_deliveries db', nd_hints := nd_hints db'\<rparr>"
    using assms(1) unfolding claims_made_def by blast
  then have "db' = db\<lparr>nd_deliveries := nd_deliveries db', nd_hints := nd_hints db'\<rparr>" by simp
  then show ?thesis using assms unfolding claims_made_def by simp
qed

lemma claims_made_Cons:
  assumes "claims_made s rq claimed (db\<lparr>nd_deliveries := mput (claimKey s rq p) row (nd_deliveries db)\<rparr>) db'"
    and "mget (nd_deliveries db) (claimKey s rq p) = None" and "mget (nd_revisions db) (s, planned_id p) \<noteq> None"
  shows "claims_made s rq (p # claimed) db db'"
proof -
  let ?db = "db\<lparr>nd_deliveries := mput (claimKey s rq p) row (nd_deliveries db)\<rparr>"
  have "db' = ?db\<lparr>nd_deliveries := nd_deliveries db', nd_hints := nd_hints db'\<rparr>"
    using assms(1) unfolding claims_made_def by blast
  then have shape: "db' = db\<lparr>nd_deliveries := nd_deliveries db', nd_hints := nd_hints db'\<rparr>" by simp
  have fresh: "claimKey s rq p \<notin> claimKey s rq ` set claimed" using assms(1) by (auto simp: claims_made_def go_map)
  have rows: "mget (nd_deliveries db) (claimKey s rq q) = None \<and> mget (nd_revisions db) (s, planned_id q) \<noteq> None"
    if "q \<in> set (p # claimed)" for q
    using that assms fresh unfolding claims_made_def by (auto simp: go_map split: if_splits)
  show ?thesis
    unfolding claims_made_def
  proof (intro conjI ballI)
    show "distinct (map (claimKey s rq) (p # claimed))" using fresh assms(1) by (auto simp: claims_made_def)
    show "mget (nd_deliveries db) (claimKey s rq q) = None" "mget (nd_revisions db) (s, planned_id q) \<noteq> None"
      if "q \<in> set (p # claimed)" for q using rows [OF that] by blast+
    have "dom (mget (nd_deliveries db')) = dom (mget (nd_deliveries ?db)) \<union> claimKey s rq ` set claimed"
      using assms(1) unfolding claims_made_def by blast
    then show "dom (mget (nd_deliveries db')) = dom (mget (nd_deliveries db)) \<union> claimKey s rq ` set (p # claimed)"
      by (simp add: go_map)
  qed (use assms(1) shape in \<open>auto simp: claims_made_def\<close>)
qed

lemma claimPlanned_spec:
  assumes "claimPlanned E s rq ps e t db = Inr (db', e', t')" and "\<forall>p \<in> set ps. 0 \<le> pn_Tokens p"
  shows "\<exists>claimed. subseq claimed (filter pn_ClaimNoteDelivery ps) \<and> claims_made s rq claimed db db' \<and>
    map detail_id (en_Details e') = map detail_id (en_Details e) @ map planned_id claimed \<and>
    map rn_Text (en_Details e') = map rn_Text (en_Details e) @ map pn_Text claimed \<and>
    en_Tokens e' \<le> en_Tokens e + sum_list (map pn_Tokens ps) \<and> length (en_Items e') \<le> length (en_Items e) + length ps"
  using assms
proof (induction ps arbitrary: e t db)
  case Nil
  then show ?case using claims_made_Nil by (auto simp: tx_ok)
next
  case (Cons p ps)
  show ?case
  proof (cases "pn_ClaimNoteDelivery p")
    case False
    with Cons.prems(1) obtain db1 claimed' where one: "insertHintDelivery E s p (rq_Actor rq) db = Inr (db1, claimed')"
      and rest: "claimPlanned E s rq ps (if claimed' then AppendPlannedHint e p else e) t db1 = Inr (db', e', t')"
      by (auto simp: tx_ok)
    obtain h where h: "db1 = db\<lparr>nd_hints := h\<rparr>" "mwf (nd_hints db) \<longrightarrow> mwf h" using insertHintDelivery_ok [OF one] by blast
    obtain claimed where IH: "subseq claimed (filter pn_ClaimNoteDelivery ps)" "claims_made s rq claimed db1 db'"
      "map detail_id (en_Details e') = map detail_id (en_Details (if claimed' then AppendPlannedHint e p else e)) @ map planned_id claimed"
      "map rn_Text (en_Details e') = map rn_Text (en_Details (if claimed' then AppendPlannedHint e p else e)) @ map pn_Text claimed"
      "en_Tokens e' \<le> en_Tokens (if claimed' then AppendPlannedHint e p else e) + sum_list (map pn_Tokens ps)"
      "length (en_Items e') \<le> length (en_Items (if claimed' then AppendPlannedHint e p else e)) + length ps"
      using Cons.IH [OF rest] Cons.prems(2) by auto
    have "claims_made s rq claimed db db'" using IH(2) h by (auto intro: claims_made_hint)
    then show ?thesis using IH False Cons.prems(2) by (intro exI [of _ claimed]) (auto simp: AppendPlanned_simps split: if_splits)
  next
    case True
    with Cons.prems(1) obtain db1 claimed' where one: "insertDelivery E s p (rq_Actor rq) db = Inr (db1, claimed')"
      and rest: "claimPlanned E s rq ps (if claimed' then AppendPlannedRecall e p else e)
        (if claimed' then t else RecordRecallDeliveryClaimLoss t (nt_ID (pn_Note p)) (pn_Tokens p)) db1 = Inr (db', e', t')"
      by (auto simp: tx_bind_ok split: if_splits)
    obtain claimed where IH: "subseq claimed (filter pn_ClaimNoteDelivery ps)" "claims_made s rq claimed db1 db'"
      "map detail_id (en_Details e') = map detail_id (en_Details (if claimed' then AppendPlannedRecall e p else e)) @ map planned_id claimed"
      "map rn_Text (en_Details e') = map rn_Text (en_Details (if claimed' then AppendPlannedRecall e p else e)) @ map pn_Text claimed"
      "en_Tokens e' \<le> en_Tokens (if claimed' then AppendPlannedRecall e p else e) + sum_list (map pn_Tokens ps)"
      "length (en_Items e') \<le> length (en_Items (if claimed' then AppendPlannedRecall e p else e)) + length ps"
      using Cons.IH [OF rest] Cons.prems(2) by auto
    show ?thesis
    proof (cases claimed')
      case new: True
      have "claims_made s rq (p # claimed) db db'"
        by (rule claims_made_Cons) (use one new IH(2) in \<open>auto simp: insertDelivery_ok\<close>)
      then show ?thesis using IH new True Cons.prems(2) by (intro exI [of _ "p # claimed"]) (auto simp: AppendPlanned_simps)
    next
      case lost: False
      then have "db1 = db" using one by (auto simp: insertDelivery_ok)
      then show ?thesis using IH lost True Cons.prems(2) by (intro exI [of _ claimed]) (auto intro: subseq_Cons')
    qed
  qed
qed

end
