(* ===== verification/Note_Store_Theorems.thy ===== *)
theory Note_Store_Theorems
  imports Note_Store_Invariant
begin

text \<open>
  The properties of the PostgreSQL note store: the consistency of every reachable database, atomic runs and their
  replay, recall that is confined to its scope and recipient, and deliveries that happen once.
\<close>

section \<open>One recall\<close>

lemma saveRecallObservation_ok:
  assumes "saveRecallObservation E s rq envelope at trace db = Inr (db', i)"
  shows "db' = db\<lparr>nd_observations := nd_observations db'\<rparr>"
  using assms
  by (auto simp: saveRecallObservation_def tx_ok encoded_def loadRecallSnapshot_def loadRecallProvenance_def
      insertObservationRow_def deleteExpiredObservations_def split: if_splits)

lemma recallTx_elim:
  assumes "recallTx E st seen s rq db = Inr (db', envelope)"
  obtains eligible x planned trace e t db1 where
    "recallableNotes E s rq (ne_clock E 0) (queryVector st (rq_Query rq)) (rc_EmbeddingModel (ns_retrieval st)) seen = Inr (x, eligible)"
    "PlanRecall eligible rq ((rc_Policy (ns_retrieval st))\<lparr>po_ObservationTime := ne_clock E 0\<rparr>) = (planned, trace)"
    "claimPlanned E s rq planned zeroEnvelope trace db = Inr (db1, e, t)"
    "db' = db1\<lparr>nd_observations := nd_observations db'\<rparr>"
    "en_Details envelope = en_Details e" "en_Tokens envelope = en_Tokens e" "en_Items envelope = en_Items e"
    "en_Decision envelope = SummarizeRecallDecision t"
proof -
  from assms obtain x eligible where el:
    "recallableNotes E s rq (ne_clock E 0) (queryVector st (rq_Query rq)) (rc_EmbeddingModel (ns_retrieval st)) seen = Inr (x, eligible)"
    by (auto simp: recallTx_def tx_bind_def snapshotRead_def Let_def split: sum.splits)
  obtain planned trace where plan: "PlanRecall eligible rq ((rc_Policy (ns_retrieval st))\<lparr>po_ObservationTime := ne_clock E 0\<rparr>) = (planned, trace)"
    by fastforce
  from assms el plan obtain db1 e t i where claim: "claimPlanned E s rq planned zeroEnvelope trace db = Inr (db1, e, t)"
    and save: "saveRecallObservation E s rq (e\<lparr>en_Decision := SummarizeRecallDecision t\<rparr>) (ne_clock E 0) t db1 = Inr (db', i)"
    and out: "envelope = e\<lparr>en_Decision := SummarizeRecallDecision t, en_ObservationID := i\<rparr>"
    by (auto simp: recallTx_def snapshotRead_def Let_def tx_ok)
  show thesis using saveRecallObservation_ok [OF save] out by (intro that [OF el plan claim]) simp_all
qed

lemma pgRecallNotes_elim:
  assumes "pgRecallNotes E st seen db s rq = (db', Inr envelope)"
  obtains eligible x planned claimed t where
    "recallableNotes E s rq (ne_clock E 0) (queryVector st (rq_Query rq)) (rc_EmbeddingModel (ns_retrieval st)) seen = Inr (x, eligible)"
    "PlanRecall eligible rq ((rc_Policy (ns_retrieval st))\<lparr>po_ObservationTime := ne_clock E 0\<rparr>) = (planned, t)"
    "0 < rq_TokenBudget rq" "subseq claimed (filter pn_ClaimNoteDelivery planned)"
    "claims_made s rq claimed db (db'\<lparr>nd_observations := nd_observations db\<rparr>)"
    "map detail_id (en_Details envelope) = map planned_id claimed" "map rn_Text (en_Details envelope) = map pn_Text claimed"
    "en_Tokens envelope \<le> sum_list (map pn_Tokens planned)"
proof -
  from assms have valid: "ValidateRecall rq = Inr ()" and tx: "recallTx E st seen s rq db = Inr (db', envelope)"
    by (auto simp: pgRecallNotes_def split: if_splits sum.splits dest: transaction_ok)
  have budget: "0 < rq_TokenBudget rq" using valid by (auto simp: ValidateRecall_def split: if_splits)
  from tx obtain eligible x planned trace e t db1 where el:
    "recallableNotes E s rq (ne_clock E 0) (queryVector st (rq_Query rq)) (rc_EmbeddingModel (ns_retrieval st)) seen = Inr (x, eligible)"
    and plan: "PlanRecall eligible rq ((rc_Policy (ns_retrieval st))\<lparr>po_ObservationTime := ne_clock E 0\<rparr>) = (planned, trace)"
    and claim: "claimPlanned E s rq planned zeroEnvelope trace db = Inr (db1, e, t)"
    and db': "db' = db1\<lparr>nd_observations := nd_observations db'\<rparr>"
    and out: "en_Details envelope = en_Details e" "en_Tokens envelope = en_Tokens e" by (rule recallTx_elim)
  have "\<forall>p \<in> set planned. 0 \<le> pn_Tokens p"
    using PlanRecall_fits [OF plan] budget estimateTokens_pos by (metis dual_order.trans less_imp_le zero_le_one)
  then obtain claimed where c: "subseq claimed (filter pn_ClaimNoteDelivery planned)" "claims_made s rq claimed db db1"
    "map detail_id (en_Details e) = map planned_id claimed" "map rn_Text (en_Details e) = map pn_Text claimed"
    "en_Tokens e \<le> sum_list (map pn_Tokens planned)"
    using claimPlanned_spec [OF claim] by (auto simp: zeroEnvelope_def)
  have "nd_observations db1 = nd_observations db" using c(2) unfolding claims_made_def by (metis note_db.select_convs(8) note_db.surjective note_db.update_convs(6,7))
  then have "db'\<lparr>nd_observations := nd_observations db\<rparr> = db1" by (subst db') simp
  then show thesis using c out by (intro that [OF el plan budget c(1)]) simp_all
qed

lemma pgRecallNotes_error: "pgRecallNotes E st seen db s rq = (db', Inl e) \<Longrightarrow> db' = db"
  by (auto simp: pgRecallNotes_def split: if_splits sum.splits dest: transaction_error)

lemma note_db_ok_claims:
  assumes "claims_made s rq claimed db (db'\<lparr>nd_observations := nd_observations db\<rparr>)" and ok: "note_db_ok db"
  shows "note_db_ok db'"
proof -
  let ?D = "nd_deliveries db'"
  have "db'\<lparr>nd_observations := nd_observations db\<rparr> = db\<lparr>nd_deliveries := ?D, nd_hints := nd_hints db'\<rparr>"
    using assms(1) unfolding claims_made_def by simp
  then have "nd_runs (db'\<lparr>nd_observations := nd_observations db\<rparr>) = nd_runs db" "nd_candidates (db'\<lparr>nd_observations := nd_observations db\<rparr>) = nd_candidates db"
    "nd_notes (db'\<lparr>nd_observations := nd_observations db\<rparr>) = nd_notes db" "nd_revisions (db'\<lparr>nd_observations := nd_observations db\<rparr>) = nd_revisions db"
    "nd_evidence (db'\<lparr>nd_observations := nd_observations db\<rparr>) = nd_evidence db" "nd_session (db'\<lparr>nd_observations := nd_observations db\<rparr>) = nd_session db"
    by simp_all
  then have same: "nd_runs db' = nd_runs db" "nd_candidates db' = nd_candidates db" "nd_notes db' = nd_notes db"
    "nd_revisions db' = nd_revisions db" "nd_evidence db' = nd_evidence db" "nd_session db' = nd_session db"
    by simp_all
  have groups: "candidates_ok db' = candidates_ok db" "notes_ok db' = notes_ok db" "revisions_ok db' = revisions_ok db" "evidence_ok db' = evidence_ok db"
    by (simp_all add: candidates_ok_def notes_ok_def revisions_ok_def evidence_ok_def revised_def revisionCandidate_def same)
  have "mget (nd_revisions db) (s', n, v) \<noteq> None" if "mget ?D (s', n, v, u) \<noteq> None" for s' n v u
  proof -
    have "(s', n, v, u) \<in> dom (mget (nd_deliveries db)) \<union> claimKey s rq ` set claimed"
      using assms(1) that unfolding claims_made_def by auto
    then show ?thesis
    proof
      assume "(s', n, v, u) \<in> dom (mget (nd_deliveries db))"
      then show ?thesis using ok unfolding note_db_ok_def tables_ok_def deliveries_ok_def by blast
    next
      assume "(s', n, v, u) \<in> claimKey s rq ` set claimed"
      then obtain p where "p \<in> set claimed" "s' = s" "planned_id p = (n, v)" by (auto simp: claimKey_def)
      then show ?thesis using assms(1) unfolding claims_made_def by force
    qed
  qed
  moreover have "mwf ?D" "mwf (nd_hints db')"
    using assms(1) ok by (auto simp: claims_made_def note_db_ok_def tables_ok_def deliveries_ok_def)
  ultimately have "deliveries_ok db'" by (simp add: deliveries_ok_def same)
  then show ?thesis using ok by (simp add: note_db_ok_def tables_ok_def groups same)
qed

lemma pgRecallNotes_keeps:
  assumes "pgRecallNotes E st seen db s rq = (db', out)" and "note_db_ok db"
  shows "note_db_ok db'"
proof (cases out)
  case (Inl e)
  then show ?thesis using assms pgRecallNotes_error by metis
next
  case (Inr envelope)
  with assms(1) obtain claimed where "claims_made s rq claimed db (db'\<lparr>nd_observations := nd_observations db\<rparr>)"
    using pgRecallNotes_elim [of E st seen db s rq db' envelope] by metis
  then show ?thesis using assms(2) by (rule note_db_ok_claims)
qed

section \<open>Every reachable database\<close>

text \<open>The operations of the store and of the session tables beside it, each with its own failures, clock and
  configuration; a recall may read its candidates from any database.\<close>

inductive note_write :: "note_db \<Rightarrow> note_db \<Rightarrow> bool" where
  apply_run: "pgApplyExtractionRun E st db s run = (db', notesOut) \<Longrightarrow> note_write db db'"
| apply_candidate: "pgApplyCandidate E st db s runID c evidence = (db', noteOut) \<Longrightarrow> note_write db db'"
| backfill: "BackfillEmbeddings E st db batch = (db', completed) \<Longrightarrow> note_write db db'"
| session: "pg_op (nd_session db) p \<Longrightarrow> note_write db (db\<lparr>nd_session := p\<rparr>)"

inductive note_reaches :: "note_db \<Rightarrow> note_db \<Rightarrow> bool" where
  start: "note_reaches db db"
| written: "note_reaches db mid \<Longrightarrow> note_write mid db' \<Longrightarrow> note_reaches db db'"
| recalled: "note_reaches db mid \<Longrightarrow> pgRecallNotes E st seen mid s rq = (db', out) \<Longrightarrow> note_reaches db db'"

lemma eventStored_extends:
  assumes "extends p p'" and "eventStored p s e"
  shows "eventStored p' s e"
proof -
  obtain r where r: "r \<in> set (pg_events p)" "row_scope r = s" "row_event_id r = e" using assms(2) by (auto simp: eventStored_def list_ex_iff)
  have "eraseRow r \<in> set (map eraseRow (pg_events p'))"
    using assms(1) r(1) unfolding extends_def by (metis image_eqI list.set_map set_mono_prefix subsetD)
  then obtain r' where r': "r' \<in> set (pg_events p')" "eraseRow r' = eraseRow r" by auto
  have "row_scope (eraseRow x) = row_scope x" "row_event_id (eraseRow x) = row_event_id x" for x by (simp_all add: eraseRow_def)
  then have "row_scope r' = row_scope r" "row_event_id r' = row_event_id r" using r'(2) by metis+
  then show ?thesis using r(2,3) r'(1) by (auto simp: eventStored_def list_ex_iff)
qed

lemma note_db_ok_session:
  assumes "note_db_ok db" and "pg_op (nd_session db) p"
  shows "note_db_ok (db\<lparr>nd_session := p\<rparr>)"
proof -
  let ?db = "db\<lparr>nd_session := p\<rparr>"
  have "extends (nd_session db) p" "pg_inv p"
    using assms pg_op_extends pg_op_inv by (auto simp: note_db_ok_def tables_ok_def evidence_ok_def)
  then have "evidence_ok db \<Longrightarrow> evidence_ok ?db" unfolding evidence_ok_def using eventStored_extends by fastforce
  moreover have "candidates_ok ?db = candidates_ok db" "notes_ok ?db = notes_ok db" "revisions_ok ?db = revisions_ok db" "deliveries_ok ?db = deliveries_ok db"
    by (simp_all add: candidates_ok_def notes_ok_def revisions_ok_def deliveries_ok_def revised_def revisionCandidate_def)
  ultimately show ?thesis using assms(1) by (simp add: note_db_ok_def tables_ok_def)
qed

lemma note_write_ok: "note_write db db' \<Longrightarrow> note_db_ok db \<Longrightarrow> note_db_ok db'"
  by (induction rule: note_write.induct)
    (auto intro: pgApplyExtractionRun_keeps pgApplyCandidate_keeps BackfillEmbeddings_keeps note_db_ok_session)

lemma note_reaches_ok: "note_reaches db db' \<Longrightarrow> note_db_ok db \<Longrightarrow> note_db_ok db'"
  by (induction rule: note_reaches.induct) (auto intro: note_write_ok pgRecallNotes_keeps)

lemma emptyNoteDB_ok: "pg_inv p \<Longrightarrow> note_db_ok (emptyNoteDB p)"
  by (simp add: note_db_ok_def runs_ok_def tables_ok_def candidates_ok_def notes_ok_def revisions_ok_def evidence_ok_def
      deliveries_ok_def emptyNoteDB_def unique_by_def revisionCandidate_def)

text \<open>C3. Every database the store can reach is consistent, whatever statements fail on the way and however recalls
  interleave with it: no run is left in processing, a candidate is admitted exactly when a revision came from it and
  rejected otherwise, the notes of a scope have distinct keys, the revisions of a note are numbered without gaps up to
  its current one, which alone is not superseded and has the content of the note, every revision is supported by
  evidence, every piece of evidence is an event stored in the scope of the note, an embedding belongs to the current
  revision, and only stored revisions were delivered.\<close>

theorem pg_notes_consistent:
  assumes "pg_inv p" and "note_reaches (emptyNoteDB p) db"
  shows "note_db_ok db \<and> (\<forall>s n r v. mget (nd_notes db) (s, n) = Some r \<longrightarrow>
    (mget (nd_revisions db) (s, n, v) \<noteq> None) = (1 \<le> v \<and> v \<le> tn_CurrentRevision r))"
proof -
  have ok: "note_db_ok db" using assms note_reaches_ok emptyNoteDB_ok by blast
  then have "1 \<le> v \<and> v \<le> tn_CurrentRevision r" if "mget (nd_notes db) (s, n) = Some r" "mget (nd_revisions db) (s, n, v) = Some w" for s n r v w
    using that unfolding note_db_ok_def tables_ok_def revisions_ok_def revision_ok_def by (metis option.inject)
  then show ?thesis using ok unfolding note_db_ok_def tables_ok_def notes_ok_def by (metis not_None_eq)
qed

section \<open>What a write leaves alone\<close>

definition frame :: "note_db \<Rightarrow> note_db \<Rightarrow> bool" where
  "frame db db' \<longleftrightarrow> nd_deliveries db' = nd_deliveries db \<and> nd_hints db' = nd_hints db \<and> nd_observations db' = nd_observations db \<and>
     (\<forall>k r. mget (nd_runs db) k = Some r \<longrightarrow> mget (nd_runs db') k = Some r)"

lemma frame_refl: "frame db db"
  by (simp add: frame_def)

lemma frame_trans: "frame a b \<Longrightarrow> frame b c \<Longrightarrow> frame a c"
  by (simp add: frame_def)

lemma frame_keep: "nd_deliveries db' = nd_deliveries db \<Longrightarrow> nd_hints db' = nd_hints db \<Longrightarrow> nd_observations db' = nd_observations db \<Longrightarrow>
    nd_runs db' = nd_runs db \<Longrightarrow> frame db db'"
  by (simp add: frame_def)

lemma applyRunCandidates_frame:
  "applyRunCandidates E st s run i cs ns db = Inr (db', ns') \<Longrightarrow> frame db db' \<and> nd_runs db' = nd_runs db"
proof (induction cs arbitrary: i ns db)
  case (Cons c cs)
  then obtain db1 read n where one: "applyRunCandidate E st s run i (WithEvidenceTime c (run_Evidence run)) db = Inr (db1, read, n)"
    and rest: "applyRunCandidates E st s run (if read then Suc i else i) cs (ns @ [n]) db1 = Inr (db', ns')"
    by (auto simp: tx_ok)
  have "frame db db1 \<and> nd_runs db1 = nd_runs db"
    using one by (cases rule: applyRunCandidate_cases) (auto simp: frame_refl intro: frame_keep)
  then show ?case using Cons.IH [OF rest] frame_trans by auto
qed (simp add: tx_ok frame_refl)

lemma insertRejected_frame:
  "insertRejected E s runID rejected db = Inr (db', u) \<Longrightarrow> frame db db' \<and> nd_runs db' = nd_runs db"
proof (induction rejected arbitrary: db)
  case (Cons cr rest)
  obtain c reason where cr: "cr = (c, reason)" by fastforce
  with Cons.prems(1) obtain db1 where one: "insertRejectedCandidate E s runID c reason db = Inr (db1, ())"
    and more: "insertRejected E s runID rest db1 = Inr (db', u)" by (auto simp: tx_ok)
  have "frame db db1 \<and> nd_runs db1 = nd_runs db"
    using insertRejectedCandidate_ok [OF one] by (auto simp: frame_refl intro: frame_keep)
  then show ?case using Cons.IH [OF more] frame_trans by auto
qed (simp add: tx_ok frame_refl)

lemma insertRejected_notes:
  "insertRejected E s runID rejected db = Inr (db', u) \<Longrightarrow>
     nd_notes db' = nd_notes db \<and> nd_revisions db' = nd_revisions db \<and> nd_evidence db' = nd_evidence db"
proof (induction rejected arbitrary: db)
  case (Cons cr rest)
  obtain c reason where cr: "cr = (c, reason)" by fastforce
  with Cons.prems(1) obtain db1 where "insertRejectedCandidate E s runID c reason db = Inr (db1, ())"
    and more: "insertRejected E s runID rest db1 = Inr (db', u)" by (auto simp: tx_ok)
  from insertRejectedCandidate_ok [OF this(1)] show ?case using Cons.IH [OF more] by auto
qed (simp add: tx_ok)

lemma wrapped_ok: "(case r of Inl e \<Rightarrow> Inl (wrapf p e) | Inr x \<Rightarrow> Inr x) = Inr y \<longleftrightarrow> r = Inr y"
  by (cases r) auto

text \<open>The transaction of a run: the run is known and nothing changes, or it is new and completed with its result.\<close>

lemma applyExtractionRunTx_cases:
  assumes "applyExtractionRunTx E st s run db = Inr (db', ns)"
  obtains (known) row where "db' = db" "mget (nd_runs db) (s, run_ID run) = Some row" "ne_decodeNotes E (xr_Result row) = Inr ns"
      "ValidateExtractionRunReplay (storedRun row) run (xr_Status row) (xr_Error row) = Inr ()"
  | (fresh) result where "mget (nd_runs db) (s, run_ID run) = None" "frame db db'" "ne_encodeNotes E ns = Inr result"
      "mget (nd_runs db') = (mget (nd_runs db))((s, run_ID run) \<mapsto> (runRow E run ExtractionRunProcessing)
         \<lparr>xr_Status := ExtractionRunCompleted, xr_Result := result, xr_CompletedAt := Some (pg_time (ne_now E))\<rparr>)"
proof -
  from assms(1) obtain db1 inserted where ens: "ensureExtractionRun E s run db = Inr (db1, inserted)"
    and rest: "(if \<not> inserted then existingExtractionRunNotes E s run else
        tx_bind (applyRunCandidates E st s run 0 (run_Candidates run) [])
       (\<lambda>ns. tx_bind (insertRejected E s (run_ID run) (map (\<lambda>r. (rj_Candidate r, rj_Reason r)) (run_Rejections run)))
       (\<lambda>_. tx_bind (tx_lift (case ne_encodeNotes E ns of Inl e \<Rightarrow> Inl (wrapf ''encode extraction run result: '' e) | Inr s \<Rightarrow> Inr s))
       (\<lambda>result. tx_bind (statement (ne_fault E) ''complete extraction run'' [] (completeRunRow (ne_now E) s (run_ID run) result))
       (\<lambda>_. tx_return ns))))) db1 = Inr (db', ns)"
    unfolding applyExtractionRunTx_def tx_bind_ok by blast
  show thesis
  proof (cases inserted)
    case False
    with ens have "db1 = db" "mget (nd_runs db) (s, run_ID run) \<noteq> None"
      by (auto simp: ensureExtractionRun_def insertRunRow_def tx_ok split: if_splits)
    with rest False show thesis
      by (auto simp: existingExtractionRunNotes_def tx_ok wrapped_ok split: option.splits intro: known)
  next
    case True
    let ?row = "runRow E run ExtractionRunProcessing"
    from ens True have new: "mget (nd_runs db) (s, run_ID run) = None" "db1 = db\<lparr>nd_runs := mput (s, run_ID run) ?row (nd_runs db)\<rparr>"
      by (auto simp: ensureExtractionRun_def insertRunRow_def tx_ok split: if_splits)
    from rest True obtain db2 db3 u result where app: "applyRunCandidates E st s run 0 (run_Candidates run) [] db1 = Inr (db2, ns)"
      and rej: "insertRejected E s (run_ID run) (map (\<lambda>r. (rj_Candidate r, rj_Reason r)) (run_Rejections run)) db2 = Inr (db3, u)"
      and enc: "ne_encodeNotes E ns = Inr result"
      and fin: "completeRunRow (ne_now E) s (run_ID run) result db3 = Inr (db', ())"
      by (auto simp: tx_ok wrapped_ok)
    have runs: "nd_runs db3 = nd_runs db1" "frame db1 db3"
      using applyRunCandidates_frame [OF app] insertRejected_frame [OF rej] frame_trans by auto
    have db': "db' = db3\<lparr>nd_runs := mput (s, run_ID run)
        (?row\<lparr>xr_Status := ExtractionRunCompleted, xr_Result := result, xr_CompletedAt := Some (pg_time (ne_now E))\<rparr>) (nd_runs db3)\<rparr>"
      using fin by (simp add: completeRunRow_def runs(1) new(2) go_map)
    show thesis
      by (rule fresh [OF new(1) _ enc]) (use runs new in \<open>auto simp: frame_def db' go_map\<close>)
  qed
qed

lemma quarantineTx_cases:
  assumes "quarantineTx E s run cause db = Inr (db', u)"
  obtains (known) "db' = db" "mget (nd_runs db) (s, run_ID run) \<noteq> None"
  | (fresh) "mget (nd_runs db) (s, run_ID run) = None" "frame db db'" "nd_notes db' = nd_notes db" "nd_revisions db' = nd_revisions db"
      "nd_evidence db' = nd_evidence db"
      "mget (nd_runs db') = (mget (nd_runs db))((s, run_ID run) \<mapsto> (runRow E run ExtractionRunQuarantined)
         \<lparr>xr_Error := error_text cause, xr_CompletedAt := Some (pg_time (ne_now E))\<rparr>)"
proof -
  let ?row = "(runRow E run ExtractionRunQuarantined)\<lparr>xr_Error := error_text cause, xr_CompletedAt := Some (pg_time (ne_now E))\<rparr>"
  from assms(1) obtain db1 affected where ins: "insertRunRow s (run_ID run) ?row db = Inr (db1, affected)"
    and rest: "(if affected = 1 then insertRejected E s (run_ID run) (map (\<lambda>c. (c, error_text cause)) (run_Candidates run))
       else tx_return ()) db1 = Inr (db', u)"
    unfolding quarantineTx_def tx_bind_ok by (auto simp: tx_ok)
  show thesis
  proof (cases "affected = 1")
    case True
    with ins have new: "mget (nd_runs db) (s, run_ID run) = None" "db1 = db\<lparr>nd_runs := mput (s, run_ID run) ?row (nd_runs db)\<rparr>"
      by (auto simp: insertRunRow_def split: if_splits)
    have "frame db1 db'" "nd_runs db' = nd_runs db1" using insertRejected_frame rest True by auto
    moreover have "nd_notes db' = nd_notes db1 \<and> nd_revisions db' = nd_revisions db1 \<and> nd_evidence db' = nd_evidence db1"
      using insertRejected_notes rest True by auto
    ultimately show thesis using new(1) by (intro fresh) (auto simp: frame_def new(2) go_map)
  next
    case False
    with ins rest show thesis by (auto simp: insertRunRow_def tx_ok split: if_splits intro: known)
  qed
qed

text \<open>The embeddings of notes are all that the writes outside a transaction change.\<close>

definition embeddings_only :: "note_db \<Rightarrow> note_db \<Rightarrow> bool" where
  "embeddings_only db db' \<longleftrightarrow> db' = db\<lparr>nd_notes := nd_notes db'\<rparr> \<and> (\<forall>k. rel_option sameNote (mget (nd_notes db) k) (mget (nd_notes db') k))"

lemma sameNote_refl: "sameNote r r"
  by (simp add: sameNote_def)

lemma sameNote_trans: "sameNote a b \<Longrightarrow> sameNote b c \<Longrightarrow> sameNote a c"
  unfolding sameNote_def by (cases a; cases b; cases c) simp

lemma embeddings_only_refl: "embeddings_only db db"
  by (simp add: embeddings_only_def option.rel_refl sameNote_refl)

lemma embeddings_only_trans:
  assumes "embeddings_only a b" and "embeddings_only b c"
  shows "embeddings_only a c"
proof -
  have "b = a\<lparr>nd_notes := nd_notes b\<rparr>" "c = b\<lparr>nd_notes := nd_notes c\<rparr>" using assms by (simp_all add: embeddings_only_def)
  then have "c = a\<lparr>nd_notes := nd_notes c\<rparr>" by (metis note_db.update_convs(3) note_db.surjective)
  moreover have "rel_option sameNote (mget (nd_notes a) k) (mget (nd_notes c) k)" for k
  proof -
    have "rel_option sameNote (mget (nd_notes a) k) (mget (nd_notes b) k)" "rel_option sameNote (mget (nd_notes b) k) (mget (nd_notes c) k)"
      using assms unfolding embeddings_only_def by blast+
    then show ?thesis by (auto simp: option.rel_sel intro: sameNote_trans)
  qed
  ultimately show ?thesis by (simp add: embeddings_only_def)
qed

lemma embeddings_only_frame: "embeddings_only db db' \<Longrightarrow> frame db db' \<and> nd_revisions db' = nd_revisions db \<and> nd_runs db' = nd_runs db"
  unfolding embeddings_only_def frame_def by (metis note_db.ext_inject note_db.surjective note_db.update_convs(3))

lemma execute_only:
  assumes "execute db (statement fault message point (updateNoteRow s n revision f)) = (db', out)" and "\<And>r. sameNote r (f r)"
  shows "embeddings_only db db'"
proof -
  have "db' = db \<or> (\<exists>r. mget (nd_notes db) (s, n) = Some r \<and> db' = db\<lparr>nd_notes := mput (s, n) (f r) (nd_notes db)\<rparr>)"
    using assms(1) by (auto simp: execute_def statement_def updateNoteRow_def split: option.splits sum.splits if_splits)
  then show ?thesis
    using assms(2) embeddings_only_refl by (auto simp: embeddings_only_def go_map option.rel_refl sameNote_refl)
qed

lemma embedding_writes_only:
  "recordEmbeddingError E st db s n e = (db', out) \<Longrightarrow> embeddings_only db db'"
  "saveEmbedding E st db s n v = (db', out) \<Longrightarrow> embeddings_only db db'"
  unfolding recordEmbeddingError_def saveEmbedding_def by (erule execute_only; simp add: sameNote_def)+

lemma refreshEmbedding_only: "refreshEmbedding E st db s n = (db', out) \<Longrightarrow> embeddings_only db db'"
proof -
  have clear: "execute db (statement fault message point (updateNoteRow s m None
      (\<lambda>row. row\<lparr>tn_Embedding := None, tn_EmbeddingRevision := None, tn_EmbeddingError := []\<rparr>))) = (db', out) \<Longrightarrow> embeddings_only db db'"
    for fault message point m
    by (erule execute_only) (simp add: sameNote_def)
  show "refreshEmbedding E st db s n = (db', out) \<Longrightarrow> embeddings_only db db'"
    using clear embedding_writes_only embeddings_only_refl
    by (auto simp: refreshEmbedding_def split: option.splits if_splits sum.splits list.splits)
qed

lemma refreshEmbeddings_only: "refreshEmbeddings E st s ns db = (db', out) \<Longrightarrow> embeddings_only db db'"
proof (induction ns arbitrary: db)
  case (Cons n ns)
  then show ?case by (auto split: prod.splits sum.splits dest: refreshEmbedding_only intro: embeddings_only_trans)
qed (simp add: embeddings_only_refl)

lemma recordTargetEmbeddingErrors_only:
  "recordTargetEmbeddingErrors E st ts e db = (db', out) \<Longrightarrow> embeddings_only db db'"
proof (induction ts arbitrary: db)
  case (Cons t ts)
  then show ?case by (auto split: prod.splits sum.splits dest: embedding_writes_only intro: embeddings_only_trans)
qed (simp add: embeddings_only_refl)

lemma saveTargetEmbeddings_only: "saveTargetEmbeddings E st tvs k db = (db', out) \<Longrightarrow> embeddings_only db db'"
proof (induction tvs arbitrary: k db)
  case (Cons tv tvs)
  obtain t v where "tv = (t, v)" by fastforce
  with Cons show ?case
    by (auto split: prod.splits sum.splits if_splits dest: embedding_writes_only intro: embeddings_only_trans)
qed (simp add: embeddings_only_refl)

lemma BackfillEmbeddings_only:
  assumes "BackfillEmbeddings E st db batch = (db', out)"
  shows "embeddings_only db db'"
proof -
  have "embeddings_only db db1" if "backfillEmbeddingTargets E st embedAll ts db = (db1, out)" for embedAll ts db1
    using that by (auto simp: backfillEmbeddingTargets_def recorded_def split: sum.splits prod.splits if_splits
        dest: recordTargetEmbeddingErrors_only saveTargetEmbeddings_only)
  then show ?thesis
    using assms embeddings_only_refl by (auto simp: BackfillEmbeddings_def split: option.splits if_splits sum.splits prod.splits)
qed

section \<open>A run\<close>

lemma pgApplyExtractionRun_cases:
  assumes "pgApplyExtractionRun E st db s run0 = (db', out)"
  obtains (failed) e where "db' = db" "out = Inl e"
  | (quarantined) run err u where "PrepareExtractionRun (ne_marshal E) run0 = Inr run"
      "applyExtractionRunTx E st s run db = Inl err" "ShouldQuarantineExtractionRun err" "quarantineTx E s run err db = Inr (db', u)"
      "out = Inl (wrapf (''quarantine extraction run '' @ quote (run_ID run) @ '': '') (Join ErrExtractionRunQuarantined err))"
  | (applied) run db1 ns where "PrepareExtractionRun (ne_marshal E) run0 = Inr run" "applyExtractionRunTx E st s run db = Inr (db1, ns)"
      "embeddings_only db1 db'" "out = Inr ns \<or> (\<exists>e. out = Inl e)"
proof (cases "PrepareExtractionRun (ne_marshal E) run0")
  case (Inl e)
  then show thesis using assms by (intro failed) (auto simp: pgApplyExtractionRun_def)
next
  case prep: (Inr run)
  show thesis
  proof (cases "ValidateDurableExtractionRun s run")
    case (Inl e)
    then show thesis using assms prep by (intro failed) (auto simp: pgApplyExtractionRun_def)
  next
    case valid: (Inr u)
    show thesis
    proof (cases "step (ne_fault E) ''begin apply extraction run''")
      case (Inl e)
      then show thesis using assms prep valid by (intro failed) (auto simp: pgApplyExtractionRun_def)
    next
      case begun: (Inr v)
      show thesis
      proof (cases "applyExtractionRunTx E st s run db")
        case (Inl err)
        note step = assms [unfolded pgApplyExtractionRun_def prep sum.case valid begun Inl]
        show thesis
        proof (cases "ShouldQuarantineExtractionRun err \<and> step (ne_fault E) ''rollback apply extraction run'' = Inr () \<and>
            (\<exists>db1 u. quarantineExtractionRun E db s run err = (db1, Inr u))")
          case True
          then obtain db1 u where q: "quarantineExtractionRun E db s run err = (db1, Inr u)" by blast
          have "quarantineTx E s run err db = Inr (db1, u)" using q by (auto simp: quarantineExtractionRun_def dest: transaction_ok)
          then show thesis using step True q by (intro quarantined [OF prep Inl]) auto
        next
          case False
          have "db1 = db" if "quarantineExtractionRun E db s run err = (db1, Inl e)" for db1 e
            using that by (auto simp: quarantineExtractionRun_def dest: transaction_error)
          then have "db' = db \<and> (\<exists>e. out = Inl e)" using step False by (auto split: if_splits sum.splits prod.splits)
          then show thesis using failed by blast
        qed
      next
        case (Inr r)
        obtain db1 ns where r: "r = (db1, ns)" by fastforce
        note step = assms [unfolded pgApplyExtractionRun_def prep sum.case valid begun Inr r prod.case]
        show thesis
        proof (cases "step (ne_fault E) ''commit extraction run''")
          case (Inl e)
          then show thesis using step by (intro failed) auto
        next
          case committed: (Inr w)
          obtain db2 o2 where ref: "refreshEmbeddings E st s ns db1 = (db2, o2)" by fastforce
          then have "embeddings_only db1 db2" by (rule refreshEmbeddings_only)
          moreover have "db' = db2" "out = Inr ns \<or> (\<exists>e. out = Inl e)" using step committed ref by (cases o2; auto)+
          ultimately show thesis using Inr r by (intro applied [OF prep]) auto
        qed
      qed
    qed
  qed
qed

lemma applyExtractionRunTx_frame: "applyExtractionRunTx E st s run db = Inr (db', ns) \<Longrightarrow> frame db db'"
  by (erule applyExtractionRunTx_cases) (simp_all add: frame_refl)

lemma quarantineTx_frame: "quarantineTx E s run err db = Inr (db', u) \<Longrightarrow> frame db db'"
  by (erule quarantineTx_cases) (simp_all add: frame_refl)

lemma pgApply_frame:
  assumes "pgApplyExtractionRun E st db s run = (db', out)"
  shows "frame db db'"
  using assms
proof (cases rule: pgApplyExtractionRun_cases)
  case (applied run' db1 ns)
  then show ?thesis using applyExtractionRunTx_frame embeddings_only_frame frame_trans by blast
qed (auto simp: frame_refl dest: quarantineTx_frame)

text \<open>Without failures and without an embedder.\<close>

lemma pgApply_committed:
  assumes "ne_fault E = (\<lambda>_. None)" and "rc_Embedder (ns_retrieval st) = None" and "PrepareExtractionRun (ne_marshal E) run = Inr r"
    and "ValidateDurableExtractionRun s r = Inr ()" and "applyExtractionRunTx E st s r db = Inr (db', ns)"
  shows "pgApplyExtractionRun E st db s run = (db', Inr ns)"
proof -
  have "refreshEmbeddings E st s ms d = (d, Inr ())" for ms d using assms(2) by (induction ms) (simp_all add: refreshEmbedding_def)
  then show ?thesis using assms by (simp add: pgApplyExtractionRun_def step_def)
qed

lemma pgApply_quarantined:
  assumes "ne_fault E = (\<lambda>_. None)" and "PrepareExtractionRun (ne_marshal E) run = Inr r"
    and "ValidateDurableExtractionRun s r = Inr ()" and "applyExtractionRunTx E st s r db = Inl err" and "ShouldQuarantineExtractionRun err"
    and "quarantineTx E s r err db = Inr (db', u)"
  shows "pgApplyExtractionRun E st db s run =
    (db', Inl (wrapf (''quarantine extraction run '' @ quote (run_ID r) @ '': '') (Join ErrExtractionRunQuarantined err)))"
  using assms by (simp add: pgApplyExtractionRun_def quarantineExtractionRun_def transaction_def step_def)


section \<open>Replay\<close>

lemma note_write_frame: "note_write db db' \<Longrightarrow> frame db db'"
proof (induction rule: note_write.induct)
  case (apply_run E st db s run db' notesOut)
  then show ?case by (rule pgApply_frame)
next
  case (apply_candidate E st db s runID c evidence db' noteOut)
  then show ?case
    by (auto simp: pgApplyCandidate_def Let_def split: prod.splits sum.splits list.splits dest: pgApply_frame)
next
  case (backfill E st db batch db' completed)
  then show ?case using BackfillEmbeddings_only embeddings_only_frame by blast
qed (simp add: frame_def)

lemma claims_made_runs: "claims_made s rq claimed db (db'\<lparr>nd_observations := obs\<rparr>) \<Longrightarrow> nd_runs db' = nd_runs db"
proof -
  assume "claims_made s rq claimed db (db'\<lparr>nd_observations := obs\<rparr>)"
  then have "db'\<lparr>nd_observations := obs\<rparr> = db\<lparr>nd_deliveries := nd_deliveries db', nd_hints := nd_hints db'\<rparr>" by (simp add: claims_made_def)
  then have "nd_runs (db'\<lparr>nd_observations := obs\<rparr>) = nd_runs db" by simp
  then show "nd_runs db' = nd_runs db" by simp
qed

lemma pgRecallNotes_runs:
  assumes "pgRecallNotes E st seen db s rq = (db', out)"
  shows "nd_runs db' = nd_runs db"
proof (cases out)
  case (Inl e)
  then show ?thesis using assms pgRecallNotes_error by metis
next
  case (Inr envelope)
  with assms obtain claimed where "claims_made s rq claimed db (db'\<lparr>nd_observations := nd_observations db\<rparr>)"
    using pgRecallNotes_elim [of E st seen db s rq db' envelope] by metis
  then show ?thesis by (rule claims_made_runs)
qed

text \<open>A recorded run is never changed.\<close>

lemma note_reaches_runs: "note_reaches db db' \<Longrightarrow> mget (nd_runs db) k = Some r \<Longrightarrow> mget (nd_runs db') k = Some r"
proof (induction rule: note_reaches.induct)
  case (written db mid db')
  then show ?case using note_write_frame [OF written(2)] unfolding frame_def by blast
next
  case (recalled db mid E st seen s rq db' out)
  then show ?case using pgRecallNotes_runs [OF recalled(2)] by simp
qed

lemma applyTx_known:
  assumes "ne_fault E = (\<lambda>_. None)" and "mget (nd_runs db) (s, run_ID run) = Some row"
  shows "applyExtractionRunTx E st s run db =
    (case ValidateExtractionRunReplay (storedRun row) run (xr_Status row) (xr_Error row) of
       Inl e \<Rightarrow> Inl e
     | Inr _ \<Rightarrow> (case ne_decodeNotes E (xr_Result row) of Inl e \<Rightarrow> Inl (wrapf ''decode extraction run result: '' e) | Inr ns \<Rightarrow> Inr (db, ns)))"
  using assms
  by (simp add: applyExtractionRunTx_def ensureExtractionRun_def existingExtractionRunNotes_def tx_bind_def statement_def
      insertRunRow_def tx_return_def tx_lift_def tx_fail_def split: sum.splits)

text \<open>A run is recorded with its input.\<close>

lemma storedRun_input: "SameExtractionRunInput (storedRun (runRow E run status)) r = SameExtractionRunInput run r"
  by (simp add: SameExtractionRunInput_def storedRun_def runRow_def)

lemma storedRun_update: "storedRun (row\<lparr>xr_Status := a, xr_Result := b, xr_CompletedAt := c\<rparr>) = storedRun row"
  "storedRun (row\<lparr>xr_Error := e, xr_CompletedAt := c\<rparr>) = storedRun row"
  by (simp_all add: storedRun_def)

lemma replay_known:
  assumes "ne_fault E = (\<lambda>_. None)" and "mget (nd_runs db) (s, run_ID run) = Some row"
    and prep: "PrepareExtractionRun (ne_marshal E) run = Inr r" and "ValidateDurableExtractionRun s r = Inr ()"
    and "ValidateExtractionRunReplay (storedRun row) r (xr_Status row) (xr_Error row) = Inr ()" and "ne_decodeNotes E (xr_Result row) = Inr ns"
  shows "\<exists>db' out. pgApplyExtractionRun E st db s run = (db', out) \<and> embeddings_only db db' \<and> (out = Inr ns \<or> (\<exists>e. out = Inl e)) \<and>
    (rc_Embedder (ns_retrieval st) = None \<longrightarrow> db' = db \<and> out = Inr ns)"
proof -
  have id: "run_ID r = run_ID run" using prep by (simp add: prepared_fields)
  have tx: "applyExtractionRunTx E st s r db = Inr (db, ns)" using assms by (simp add: applyTx_known [of E db s r row] id)
  obtain db1 o1 where ref: "refreshEmbeddings E st s ns db = (db1, o1)" by fastforce
  then have "embeddings_only db db1" by (rule refreshEmbeddings_only)
  moreover have "db1 = db \<and> o1 = Inr ()" if "rc_Embedder (ns_retrieval st) = None"
  proof -
    have "refreshEmbeddings E st s ms d = (d, Inr ())" for ms d using that by (induction ms) (simp_all add: refreshEmbedding_def)
    then show ?thesis using ref by simp
  qed
  moreover have "pgApplyExtractionRun E st db s run = (case o1 of Inl e \<Rightarrow> (db1, Inl e) | Inr _ \<Rightarrow> (db1, Inr ns))"
    using assms(1,4) prep tx ref by (simp add: pgApplyExtractionRun_def step_def split: sum.split)
  ultimately show ?thesis by (cases o1) auto
qed

text \<open>C16. A completed run is replayed, not applied again: at any later database, whatever runs, recalls and failures came
  between, applying a run with the same identifier and input returns the notes it returned first and changes no table,
  embeddings apart.  It needs that decoding a stored result gives back what was encoded.\<close>

theorem pgApply_replay:
  assumes "pgApplyExtractionRun E st db s run = (db1, Inr ns)" and "mget (nd_runs db) (s, run_ID run) = None"
    and "note_reaches db1 db2"
    and "ne_fault E' = (\<lambda>_. None)" and "\<forall>ms x. ne_encodeNotes E ms = Inr x \<longrightarrow> ne_decodeNotes E' x = Inr ms"
    and "run_ID run' = run_ID run" and "SameExtractionRunInput run run'"
    and "PrepareExtractionRun (ne_marshal E') run' = Inr r" and "ValidateDurableExtractionRun s r = Inr ()"
  shows "\<exists>db3 out. pgApplyExtractionRun E' st' db2 s run' = (db3, out) \<and> embeddings_only db2 db3 \<and>
    (out = Inr ns \<or> (\<exists>e. out = Inl e)) \<and> (rc_Embedder (ns_retrieval st') = None \<longrightarrow> db3 = db2 \<and> out = Inr ns)"
  using assms(1)
proof (cases rule: pgApplyExtractionRun_cases)
  case (applied run0 mid ms)
  have id: "run_ID run0 = run_ID run" using applied(1) by (simp add: prepared_fields)
  have same: "SameExtractionRunInput run0 r"
    using assms(7) applied(1) assms(8) prepared_fields same_input_sym by metis
  have ms: "ms = ns" using applied(4) by simp
  show ?thesis
    using applied(2)
  proof (cases rule: applyExtractionRunTx_cases)
    case (known row)
    then show ?thesis using assms(2) id by simp
  next
    case (fresh result)
    let ?row = "(runRow E run0 ExtractionRunProcessing)
         \<lparr>xr_Status := ExtractionRunCompleted, xr_Result := result, xr_CompletedAt := Some (pg_time (ne_now E))\<rparr>"
    have "mget (nd_runs db1) (s, run_ID run) = Some ?row" using fresh(4) embeddings_only_frame [OF applied(3)] by (simp add: id)
    then have "mget (nd_runs db2) (s, run_ID run') = Some ?row" using note_reaches_runs [OF assms(3)] assms(6) by simp
    moreover have "ValidateExtractionRunReplay (storedRun ?row) r (xr_Status ?row) (xr_Error ?row) = Inr ()"
      using same by (simp add: ValidateExtractionRunReplay_def storedRun_update storedRun_input Let_def)
    moreover have "ne_decodeNotes E' (xr_Result ?row) = Inr ns" using assms(5) fresh(3) ms by simp
    ultimately show ?thesis using replay_known [OF assms(4) _ assms(8,9)] by blast
  qed
qed simp_all

lemma replay_quarantined:
  "SameExtractionRunInput stored r \<Longrightarrow> \<exists>e. ValidateExtractionRunReplay stored r ExtractionRunQuarantined reason = Inl e \<and>
     errors_is e ErrExtractionRunQuarantined \<and> \<not> ShouldQuarantineExtractionRun e"
  by (simp add: ValidateExtractionRunReplay_def Let_def ExtractionRunQuarantined_def ExtractionRunCompleted_def
      ShouldQuarantineExtractionRun_def note_sentinels)

text \<open>A quarantine is permanent: once the run is recorded as quarantined, applying it again, at any later database,
  fails with the quarantine error and changes nothing, so that the extraction of the stream can go on past it.\<close>

theorem pgApply_quarantine:
  assumes "pgApplyExtractionRun E st db s run = (db1, out)" and "mget (nd_runs db) (s, run_ID run) = None"
    and "mget (nd_runs db1) (s, run_ID run) = Some row" and "xr_Status row = ExtractionRunQuarantined"
    and "note_reaches db1 db2" and "ne_fault E' = (\<lambda>_. None)"
    and "run_ID run' = run_ID run" and "SameExtractionRunInput run run'"
    and "PrepareExtractionRun (ne_marshal E') run' = Inr r" and "ValidateDurableExtractionRun s r = Inr ()"
  shows "\<exists>e. pgApplyExtractionRun E' st' db2 s run' = (db2, Inl e) \<and> errors_is e ErrExtractionRunQuarantined"
  using assms(1)
proof (cases rule: pgApplyExtractionRun_cases)
  case (failed e)
  then show ?thesis using assms(2,3) by simp
next
  case (quarantined run0 err u)
  have id: "run_ID run0 = run_ID run" "run_ID r = run_ID run" using quarantined(1) assms(7,9) by (simp_all add: prepared_fields)
  have same: "SameExtractionRunInput run0 r"
    using assms(8) quarantined(1) assms(9) prepared_fields same_input_sym by metis
  from quarantined(4) show ?thesis
  proof (cases rule: quarantineTx_cases)
    case known
    then show ?thesis using assms(2) id by simp
  next
    case fresh
    let ?row = "(runRow E run0 ExtractionRunQuarantined)\<lparr>xr_Error := error_text err, xr_CompletedAt := Some (pg_time (ne_now E))\<rparr>"
    have "mget (nd_runs db1) (s, run_ID run) = Some ?row" using fresh(6) by (simp add: id)
    then have "mget (nd_runs db2) (s, run_ID r) = Some ?row" using note_reaches_runs [OF assms(5)] by (simp add: id)
    note tx = applyTx_known [OF assms(6) this]
    have "SameExtractionRunInput (storedRun ?row) r" using same by (simp only: storedRun_update storedRun_input)
    moreover have "xr_Status ?row = ExtractionRunQuarantined" by (simp add: runRow_def)
    ultimately obtain e where "ValidateExtractionRunReplay (storedRun ?row) r (xr_Status ?row) (xr_Error ?row) = Inl e"
      and e: "errors_is e ErrExtractionRunQuarantined" "\<not> ShouldQuarantineExtractionRun e" using replay_quarantined by metis
    then have "applyExtractionRunTx E' st' s r db2 = Inl e" using tx by simp
    with e have "pgApplyExtractionRun E' st' db2 s run' = (db2, Inl (abort (ne_fault E') ''rollback apply extraction run'' e))"
      using assms(6,9,10) by (simp add: pgApplyExtractionRun_def step_def)
    then show ?thesis using e(1) by (simp add: abort_def assms(6))
  qed
next
  case (applied run0 mid ms)
  have id: "run_ID run0 = run_ID run" using applied(1) by (simp add: prepared_fields)
  from applied(2) show ?thesis
  proof (cases rule: applyExtractionRunTx_cases)
    case (known row)
    then show ?thesis using assms(2) id by simp
  next
    case (fresh result)
    then have "xr_Status row = ExtractionRunCompleted" using assms(3) embeddings_only_frame [OF applied(3)] by (auto simp: id)
    then show ?thesis using assms(4) by (simp add: ExtractionRunQuarantined_def ExtractionRunCompleted_def)
  qed
qed

section \<open>A concrete database\<close>

definition demo_session :: pg where
  "demo_session = fst (pgAppendSession no_fault 500 emptyDatabase ''team'' \<lparr>sb_Events = [moved_event], sb_Complete = False\<rparr>)"

definition demo_ndb :: note_db where
  "demo_ndb = emptyNoteDB demo_session"

text \<open>An encoding of the two results that occur.\<close>

definition demo_encode :: "team_note list \<Rightarrow> string res" where
  "demo_encode ns = (if ns = [demo_note] then Inr ''[note]'' else if ns = [] then Inr ''[]'' else Inl (ErrorNew ''unsupported value''))"

definition demo_decode :: "string \<Rightarrow> team_note list res" where
  "demo_decode x = (if x = ''[note]'' then Inr [demo_note] else if x = ''[]'' then Inr [] else Inl (ErrorNew ''invalid character''))"

definition demo_env :: "time \<Rightarrow> note_env" where
  "demo_env now = \<lparr>ne_fault = no_fault, ne_clock = (\<lambda>i. now), ne_now = now, ne_collation = (<), ne_marshal = demo_marshal,
     ne_encodeNotes = demo_encode, ne_decodeNotes = demo_decode, ne_nilEvidence = (\<lambda>c. False), ne_formatFloat = (\<lambda>w. ''0''),
     ne_rank = (\<lambda>d q. 0), ne_similarity = (\<lambda>a b. 0), ne_encodeEnvelope = (\<lambda>e. Inr ''{}''), ne_encodeTrace = (\<lambda>t. Inr ''{}''),
     ne_encodeSnapshot = (\<lambda>s. Inr ''[]''), ne_encodeProvenance = (\<lambda>p. Inr ''{}''), ne_nextval = 1, ne_duration = 0\<rparr>"

definition demo_store :: pg_note_store where
  "demo_store = \<lparr>ns_policy = DefaultTTLPolicy, ns_retrieval = \<lparr>rc_Embedder = None, rc_EmbeddingModel = [],
     rc_EmbeddingDimensions = 384, rc_Policy = DefaultRecallPolicy\<rparr>\<rparr>"

definition durable_run :: "string \<Rightarrow> candidate list \<Rightarrow> extraction_run" where
  "durable_run rid cands = (demo_run rid cands)\<lparr>run_Actor := cn_Origin created_candidate, run_FromSequence := 9,
     run_ToSequence := 9, run_InputChecksum := rid\<rparr>"

text \<open>A checksum is never blank.\<close>

lemma sha256_not_blank: "\<not> blank (sha256_hex s)"
proof -
  have "length (foldl sha_block sha_H0 (blocks_of 16 (be_words (sha_pad s)))) = 8"
    by (simp add: length_fold_same length_sha_block) (simp add: sha_H0_def)
  then obtain w ws where "foldl sha_block sha_H0 (blocks_of 16 (be_words (sha_pad s))) = w # ws"
    by (cases "foldl sha_block sha_H0 (blocks_of 16 (be_words (sha_pad s)))") auto
  moreover have "[0..<4] = 0 # [1..<4]" by (simp add: upt_rec)
  ultimately obtain bs where "sha256_bytes s = (unat w div 256 ^ 3 mod 256) # bs" by (simp add: sha256_bytes_def word_bytes_def)
  then obtain b where b: "sha256_bytes s = b # bs" "b < 256" by (meson mod_less_divisor zero_less_numeral)
  then obtain rest where hex: "sha256_hex s = hex_char (b div 16) # rest" by (simp add: sha256_hex_def hex_byte_def)
  have "list_all (\<lambda>d. lead_width space_encodings [hex_char d] = 0 \<and> of_char (hex_char d) < (128 :: int)) [0..<16]" by code_simp
  moreover have "b div 16 < 16" using b(2) by simp
  ultimately have d: "lead_width space_encodings [hex_char (b div 16)] = 0" "of_char (hex_char (b div 16)) < (128 :: int)" by (simp_all add: list_all_iff)
  have long: "list_all (\<lambda>e. length e \<le> 1 \<or> 128 \<le> (of_char (hd e) :: int)) space_encodings" by code_simp
  have "\<not> prefix e (hex_char (b div 16) # rest)" if "e \<in> set space_encodings" for e
  proof
    assume "prefix e (hex_char (b div 16) # rest)"
    moreover have "\<not> prefix e [hex_char (b div 16)]" using lead_width_0 [OF d(1) _ that] by (simp add: space_encodings_def)
    moreover have "length e \<le> 1 \<or> 128 \<le> (of_char (hd e) :: int)" using long that by (simp add: list_all_iff)
    ultimately show False using d(2) by (cases e) auto
  qed
  then have "lead_width space_encodings (sha256_hex s) = 0"
    unfolding hex using lead_width_takes [of space_encodings] by (metis prefixI)
  then show ?thesis by (rule not_blank) (simp add: hex)
qed
lemma demo_session_inv: "pg_inv demo_session"
  using pgAppendSession_inv [OF pg_inv_empty, of no_fault 500 "''team''"] by (simp add: demo_session_def prod_eq_iff)

lemma durable_prepared:
  assumes "validateRunIdentity (durable_run rid cands) = Inr ()"
  shows "PrepareExtractionRun demo_marshal (durable_run rid cands) =
    Inr ((durable_run rid cands)\<lparr>run_CandidateChecksum := sha256_hex (concat (map cn_ID cands))\<rparr>)"
  using assms by (simp add: PrepareExtractionRun_def NormalizeExtractionRun_def demo_marshal_def durable_run_def
      demo_run_def candidateRun_def Let_def)

lemma validateRunIdentity_checksum: "validateRunIdentity (run\<lparr>run_CandidateChecksum := x\<rparr>) = validateRunIdentity run"
  by (simp add: validateRunIdentity_def split: sum.split)

lemma durable_checked:
  assumes "ValidateDurableExtractionRun s (run\<lparr>run_CandidateChecksum := ''x''\<rparr>) = Inr ()" and "\<not> blank x"
  shows "ValidateDurableExtractionRun s (run\<lparr>run_CandidateChecksum := x\<rparr>) = Inr ()"
  using assms by (simp add: ValidateDurableExtractionRun_def validateRunIdentity_checksum split: if_splits)

lemma durable_valid:
  "validateRunIdentity (durable_run ''r1'' [created_candidate]) = Inr ()" "validateRunIdentity (durable_run ''r2'' [orphan_candidate]) = Inr ()"
  "ValidateDurableExtractionRun ''team'' ((durable_run ''r1'' [created_candidate])\<lparr>run_CandidateChecksum := ''x''\<rparr>) = Inr ()"
  "ValidateDurableExtractionRun ''team'' ((durable_run ''r2'' [orphan_candidate])\<lparr>run_CandidateChecksum := ''x''\<rparr>) = Inr ()"
  by code_simp+

lemmas durable_ready =
  durable_prepared [OF durable_valid(1)] durable_prepared [OF durable_valid(2)]
  durable_checked [OF durable_valid(3) sha256_not_blank] durable_checked [OF durable_valid(4) sha256_not_blank]

lemma demo_env_simps [simp]:
  "ne_fault (demo_env now) = (\<lambda>_. None)" "ne_marshal (demo_env now) = demo_marshal" "ne_encodeNotes (demo_env now) = demo_encode"
  "ne_decodeNotes (demo_env now) = demo_decode" "rc_Embedder (ns_retrieval demo_store) = None"
  by (simp_all add: demo_env_def demo_store_def no_fault_def fun_eq_iff)

text \<open>The transactions do not look at the checksum they record.\<close>

lemma demo_admits:
  "map_sum (\<lambda>e. e) (\<lambda>(db, ns). (ns, map fst (nd_notes db), map fst (nd_runs db))) (applyExtractionRunTx (demo_env 1000) demo_store ''team''
     ((durable_run ''r1'' [created_candidate])\<lparr>run_CandidateChecksum := x\<rparr>) demo_ndb) =
   Inr ([demo_note], [(''team'', ''c1'')], [(''team'', ''r1'')])"
  by code_simp

lemma demo_refuses:
  "case applyExtractionRunTx (demo_env 1000) demo_store ''team'' ((durable_run ''r2'' [orphan_candidate])\<lparr>run_CandidateChecksum := x\<rparr>) demo_ndb of
     Inl err \<Rightarrow> ShouldQuarantineExtractionRun err \<and>
       (case quarantineTx (demo_env 1000) ''team'' ((durable_run ''r2'' [orphan_candidate])\<lparr>run_CandidateChecksum := x\<rparr>) err demo_ndb of
          Inl _ \<Rightarrow> False
        | Inr (db, _) \<Rightarrow> map (\<lambda>(k, r). (k, xr_Status r)) (nd_runs db) = [((''team'', ''r2''), ExtractionRunQuarantined)])
   | Inr _ \<Rightarrow> False"
  by code_simp

definition demo_ndb1 :: note_db where
  "demo_ndb1 = fst (pgApplyExtractionRun (demo_env 1000) demo_store demo_ndb ''team'' (durable_run ''r1'' [created_candidate]))"

lemma demo_applied:
  "pgApplyExtractionRun (demo_env 1000) demo_store demo_ndb ''team'' (durable_run ''r1'' [created_candidate]) = (demo_ndb1, Inr [demo_note])"
  and demo_ndb1_keys: "map fst (nd_notes demo_ndb1) = [(''team'', ''c1'')]" "map fst (nd_runs demo_ndb1) = [(''team'', ''r1'')]"
proof -
  obtain db' where tx: "applyExtractionRunTx (demo_env 1000) demo_store ''team'' ((durable_run ''r1'' [created_candidate])
      \<lparr>run_CandidateChecksum := sha256_hex (concat (map cn_ID [created_candidate]))\<rparr>) demo_ndb = Inr (db', [demo_note])"
    and keys: "map fst (nd_notes db') = [(''team'', ''c1'')]" "map fst (nd_runs db') = [(''team'', ''r1'')]"
    using demo_admits by (fastforce simp: map_sum_def split: sum.splits prod.splits)
  note run = pgApply_committed [OF _ _ _ _ tx, of "durable_run ''r1'' [created_candidate]", simplified durable_ready demo_env_simps simp_thms]
  show "pgApplyExtractionRun (demo_env 1000) demo_store demo_ndb ''team'' (durable_run ''r1'' [created_candidate]) = (demo_ndb1, Inr [demo_note])"
    "map fst (nd_notes demo_ndb1) = [(''team'', ''c1'')]" "map fst (nd_runs demo_ndb1) = [(''team'', ''r1'')]"
    using run keys by (simp_all add: demo_ndb1_def)
qed

lemma demo_refused:
  obtains db' e row where
    "pgApplyExtractionRun (demo_env 1000) demo_store demo_ndb ''team'' (durable_run ''r2'' [orphan_candidate]) = (db', Inl e)"
    "mget (nd_runs db') (''team'', ''r2'') = Some row" "xr_Status row = ExtractionRunQuarantined"
proof -
  let ?r = "(durable_run ''r2'' [orphan_candidate])\<lparr>run_CandidateChecksum := sha256_hex (concat (map cn_ID [orphan_candidate]))\<rparr>"
  obtain err db' u where tx: "applyExtractionRunTx (demo_env 1000) demo_store ''team'' ?r demo_ndb = Inl err" "ShouldQuarantineExtractionRun err"
    "quarantineTx (demo_env 1000) ''team'' ?r err demo_ndb = Inr (db', u)"
    and rows: "map (\<lambda>(k, r). (k, xr_Status r)) (nd_runs db') = [((''team'', ''r2''), ExtractionRunQuarantined)]"
    using demo_refuses [of "sha256_hex (concat (map cn_ID [orphan_candidate]))"] by (auto split: sum.splits prod.splits)
  obtain row where "nd_runs db' = [((''team'', ''r2''), row)]" "xr_Status row = ExtractionRunQuarantined" using rows by (auto simp: map_eq_Cons_conv)
  moreover note pgApply_quarantined [OF _ _ _ tx, of "durable_run ''r2'' [orphan_candidate]", simplified durable_ready demo_env_simps simp_thms]
  ultimately show thesis by (intro that [of db']) auto
qed

lemma demo_ndb_runs: "nd_runs demo_ndb = []"
  by (simp add: demo_ndb_def emptyNoteDB_def)

lemma demo_reached: "note_reaches (emptyNoteDB demo_session) demo_ndb1"
  using note_reaches.written [OF note_reaches.start note_write.apply_run [OF demo_applied]] by (simp add: demo_ndb_def)

theorem pg_notes_consistent_witness:
  "note_db_ok demo_ndb1 \<and> (\<exists>r. mget (nd_notes demo_ndb1) (''team'', ''c1'') = Some r \<and>
     (\<forall>v. (mget (nd_revisions demo_ndb1) (''team'', ''c1'', v) \<noteq> None) = (1 \<le> v \<and> v \<le> tn_CurrentRevision r)))"
proof -
  obtain r where "mget (nd_notes demo_ndb1) (''team'', ''c1'') = Some r" using demo_ndb1_keys(1) by (auto simp: map_eq_Cons_conv)
  then show ?thesis using pg_notes_consistent [OF demo_session_inv demo_reached] by blast
qed


lemma demo_roundtrip: "\<forall>ms x. demo_encode ms = Inr x \<longrightarrow> demo_decode x = Inr ms"
  by (simp add: demo_encode_def demo_decode_def)

theorem pgApply_replay_witness:
  "pgApplyExtractionRun (demo_env 7000) demo_store demo_ndb1 ''team'' (durable_run ''r1'' [created_candidate]) = (demo_ndb1, Inr [demo_note])"
  using pgApply_replay [OF demo_applied _ note_reaches.start, of "demo_env 7000" "durable_run ''r1'' [created_candidate]" _ demo_store]
    demo_roundtrip durable_ready by (simp add: demo_ndb_runs SameExtractionRunInput_def)


theorem pgApply_quarantine_witness:
  "\<exists>db' e e'. pgApplyExtractionRun (demo_env 1000) demo_store demo_ndb ''team'' (durable_run ''r2'' [orphan_candidate]) = (db', Inl e) \<and>
     pgApplyExtractionRun (demo_env 9000) demo_store db' ''team'' (durable_run ''r2'' [orphan_candidate]) = (db', Inl e') \<and>
     errors_is e' ErrExtractionRunQuarantined"
proof -
  obtain db' e row where r: "pgApplyExtractionRun (demo_env 1000) demo_store demo_ndb ''team'' (durable_run ''r2'' [orphan_candidate]) = (db', Inl e)"
    "mget (nd_runs db') (''team'', ''r2'') = Some row" "xr_Status row = ExtractionRunQuarantined" by (rule demo_refused)
  have id: "run_ID (durable_run ''r2'' [orphan_candidate]) = ''r2''" by (simp add: durable_run_def demo_run_def)
  from pgApply_quarantine [OF r(1) _ _ r(3) note_reaches.start, of "demo_env 9000" "durable_run ''r2'' [orphan_candidate]" _ demo_store]
  show ?thesis using r durable_ready by (auto simp: id demo_ndb_runs SameExtractionRunInput_def)
qed

end
