(* ===== verification/Note_Store_Delivery.thy ===== *)
theory Note_Store_Delivery
  imports Note_Store_Theorems
begin

text \<open>
  What the PostgreSQL note store delivers: only revisions of the scope that are addressed to the recipient and
  supported by stored evidence, within the token budget, each once per session.  The store provides the notes of the
  recall router.
\<close>

section \<open>The candidates of a recall\<close>

definition historical :: "recall_request \<Rightarrow> bool" where
  "historical rq \<longleftrightarrow> (let intent = CompileRecallIntent rq in
     ri_Mode intent = RecallModeAsOf \<and> ri_ValidAt intent \<noteq> None \<or> ri_Mode intent = RecallModeHistory \<or> ri_Mode intent = RecallModeChangesSince)"

text \<open>What may be shown of the note \<open>noteID\<close> of a scope: a stored revision, addressed to the recipient, with evidence that
  is stored in the scope; for a request about the current state also a note that is active and not expired.\<close>

definition shows_revision :: "note_db \<Rightarrow> string \<Rightarrow> recall_request \<Rightarrow> time \<Rightarrow> string \<Rightarrow> team_note \<Rightarrow> bool" where
  "shows_revision db s rq now noteID n \<longleftrightarrow>
     (\<exists>r. mget (nd_revisions db) (s, noteID, nt_Revision n) = Some r \<and> nt_Body n = rv_Body r \<and> nt_RelatedSubjects n = rv_RelatedSubjects r) \<and>
     (\<forall>e \<in> set (nt_EvidenceEventIDs n). (s, noteID, nt_Revision n, e) \<in> set (nd_evidence db) \<and> eventStored (nd_session db) s e) \<and>
     addressed (nt_TaskRef n) (nt_ThreadRef n) (nt_AudienceAgentIDs n) rq \<and>
     \<not> delivered db s noteID (nt_Revision n) (SessionID (rq_Actor rq)) \<and>
     (\<not> historical rq \<longrightarrow> nt_State n = StateActive \<and> nt_InvalidAt n = None \<and> pg_time now < nt_SoftExpiresAt n \<and>
        pg_time now < nt_HardExpiresAt n)"

lemma current_shows:
  assumes ok: "note_db_ok db" and row: "((s', m), r) \<in> set (nd_notes db)" and able: "recallableRow db s rq now ((s', m), r)"
  shows "shows_revision db s rq now m (scanNote E db ((s', m), r))"
proof -
  have s': "s' = s" using able by (simp add: recallableRow_def)
  have "mwf (nd_notes db)" using ok by (simp add: note_db_ok_def tables_ok_def notes_ok_def)
  then have m: "mget (nd_notes db) (s, m) = Some r" using row s' by simp
  then have "mget (nd_revisions db) (s, m, tn_CurrentRevision r) \<noteq> None"
    using ok unfolding note_db_ok_def tables_ok_def notes_ok_def note_row_ok_def by blast
  then obtain w where w: "mget (nd_revisions db) (s, m, tn_CurrentRevision r) = Some w" by blast
  moreover have "revision_ok (tn_CurrentRevision r) w r"
    using ok m w unfolding note_db_ok_def tables_ok_def revisions_ok_def by (metis option.inject)
  moreover have "eventStored (nd_session db) s e" if "(s, m, v, e) \<in> set (nd_evidence db)" for v e
    using ok that unfolding note_db_ok_def tables_ok_def evidence_ok_def by blast
  ultimately show ?thesis
    using able unfolding shows_revision_def recallableRow_def
    by (auto simp: s' scanNote_def normalizeNoteTimes_def revision_ok_def)
qed

lemma joined_stored:
  assumes "note_db_ok db" and "((t, m, v), r, c, n) \<in> set (joinedRevisions db)"
  shows "mget (nd_revisions db) (t, m, v) = Some r"
proof -
  have "mwf (nd_revisions db)" using assms(1) by (simp add: note_db_ok_def tables_ok_def revisions_ok_def)
  moreover have "((t, m, v), r) \<in> set (nd_revisions db)"
    using assms(2) by (auto simp: joinedRevisions_def split: option.splits prod.splits)
  ultimately show ?thesis by simp
qed

lemma revision_shows:
  assumes ok: "note_db_ok db" and j: "((t, m, v), r, c, n) \<in> set (joinedRevisions db)"
    and able: "revisionAddressed db s rq now ((t, m, v), r, c, n)" and "historical rq"
  shows "shows_revision db s rq now m (revisionNote E db noteID' invalidAt ((t, m, v), r, c, n))"
proof -
  have "t = s" using able by (simp add: revisionAddressed_def)
  moreover have "eventStored (nd_session db) s e" if "(s, m, v, e) \<in> set (nd_evidence db)" for e
    using ok that unfolding note_db_ok_def tables_ok_def evidence_ok_def by blast
  ultimately show ?thesis
    using able joined_stored [OF ok j] assms(4) unfolding shows_revision_def revisionAddressed_def
    by (auto simp: revisionNote_def normalizeNoteTimes_def)
qed

lemma set_distinctOnNote: "set (distinctOnNote seen js) \<subseteq> set js"
  by (induction seen js rule: distinctOnNote.induct) auto

lemma canonical_simps [simp]:
  "canonicalRecallNoteID (recallCandidate n c l f) = (if c \<noteq> [] then c else nt_ID n)" "ca_Note (recallCandidate n c l f) = n"
  by (simp_all add: canonicalRecallNoteID_def recallCandidate_def)

lemma revisionNote_ID [simp]: "nt_ID (revisionNote E db i t j) = i"
  by (simp add: revisionNote_def normalizeNoteTimes_def split: prod.split)

lemma recallableNotes_shows:
  assumes ok: "note_db_ok db" and "recallableNotes E s rq now qv model db = Inr (x, cs)" and "c \<in> set cs"
  shows "shows_revision db s rq now (canonicalRecallNoteID c) (ca_Note c)"
proof -
  let ?it = "CompileRecallIntent rq"
  consider (asof) "historical rq" "recallableRevisionAt E s rq now (the (ri_ValidAt ?it)) db = Inr (x, cs)"
    | (history) "historical rq" "recallableRevisionHistory E s rq now db = Inr (x, cs)"
    | (current) vectorValue where "cs = map (scanRecallCandidate E db rq vectorValue model)
        (sort_by (recallableBefore E rq) (filter (recallableRow db s rq now) (nd_notes db)))"
    using assms(2) by (auto simp: recallableNotes_def historical_def Let_def tx_ok split: if_splits)
  then show ?thesis
  proof cases
    case asof
    then obtain j where j: "j \<in> set (joinedRevisions db)" "revisionAddressed db s rq now j"
      "c = recallCandidate (revisionNote E db (fst (snd (fst j))) (knownInvalidAt now j) j) [] (revisionRank E rq j) None"
      using assms(3) set_distinctOnNote by (fastforce simp: recallableRevisionAt_def tx_ok)
    obtain t m v r cand n where jj: "j = ((t, m, v), r, cand, n)" by (cases j rule: prod.exhaust) auto
    then show ?thesis using revision_shows [OF ok j(1) [unfolded jj] j(2) [unfolded jj] asof(1)] j(3) by simp
  next
    case history
    then obtain j where j: "j \<in> set (joinedRevisions db)" "revisionAddressed db s rq now j" "c = scanHistoricalRecallCandidate E db rq j"
      using assms(3) by (auto simp: recallableRevisionHistory_def tx_ok)
    obtain t m v r cand n where jj: "j = ((t, m, v), r, cand, n)" by (cases j) auto
    have "mget (nd_revisions db) (t, m, v) = Some r" using joined_stored [OF ok] j(1) jj by blast
    then have "m \<noteq> []" using ok unfolding note_db_ok_def tables_ok_def revisions_ok_def notes_ok_def by blast
    then show ?thesis using revision_shows [OF ok] history(1) j jj by (auto simp: scanHistoricalRecallCandidate_def)
  next
    case (current vectorValue)
    then obtain kr where kr: "kr \<in> set (nd_notes db)" "recallableRow db s rq now kr" "c = scanRecallCandidate E db rq vectorValue model kr"
      using assms(3) by auto
    obtain t m r where k: "kr = ((t, m), r)" by (cases kr rule: prod.exhaust) auto
    then show ?thesis using current_shows [OF ok kr(1) [unfolded k] kr(2) [unfolded k]] kr(3) by (simp add: scanRecallCandidate_def)
  qed
qed

section \<open>What is delivered\<close>

lemma claimed_candidate:
  assumes "PlanRecall candidates rq po = (planned, trace)" and "0 \<le> rq_TokenBudget rq" and "p \<in> set planned" and "pn_ClaimNoteDelivery p"
  shows "\<exists>c \<in> set candidates. pn_Note p = ca_Note c \<and> planned_id p = (canonicalRecallNoteID c, nt_Revision (ca_Note c))"
proof -
  obtain bs hints where shape: "plan_shape candidates rq po planned bs hints" using PlanRecall_elim [OF assms(1,2)] by metis
  then obtain b where b: "b \<in> set bs" "p = evidenceItem (canonicalRecallNoteIDs candidates) b"
    using assms(3,4) unfolding plan_shape_def by (auto simp: hint_item_def)
  have "admitted candidates rq (CompileRecallIntent rq) (observed candidates po) (fst b)" using shape b(1) by (simp add: plan_shape_def)
  then obtain c where "c \<in> set candidates" "ca_Note (fst b) = ca_Note c" "ca_CanonicalNoteID (fst b) = ca_CanonicalNoteID c"
    by (auto simp: admitted_def)
  then show ?thesis using b(2) by (intro bexI [of _ c]) (auto simp: planned_id_def canonicalRecallNoteID_def)
qed

text \<open>C17. What a recall from the database returns is confined to its scope and its recipient, even when other sessions
  deliver while it runs: every delivered text is made of stored revisions of notes of the scope, each addressed to the
  recipient by task, thread and audience, safe, and supported by evidence that is stored in the scope; for a request
  about the current state the notes are active and not expired.  The delivered revision is claimed for the session, which
  had not received it, and the envelope keeps the token budget.\<close>

theorem pgRecall_confined:
  assumes "note_db_ok seen" and "pgRecallNotes E st seen db s rq = (db', Inr envelope)"
  shows "en_Tokens envelope \<le> rq_TokenBudget rq \<and>
    (\<forall>d \<in> set (en_Details envelope). \<not> delivered db s (rn_NoteID d) (rn_Revision d) (SessionID (rq_Actor rq)) \<and>
       delivered db' s (rn_NoteID d) (rn_Revision d) (SessionID (rq_Actor rq)) \<and>
       (\<exists>n related. rn_Text d = formatRecall n related \<and> rn_Revision d = nt_Revision n \<and>
          shows_revision seen s rq (ne_clock E 0) (rn_NoteID d) n \<and>
          (\<forall>m \<in> set related. \<exists>noteID. shows_revision seen s rq (ne_clock E 0) noteID m) \<and>
          (\<forall>m \<in> set (n # related). nt_EvidenceEventIDs m \<noteq> [] \<and> \<not> unsafeRecallContent (noteText m))))"
proof -
  from assms(2) obtain eligible x planned claimed t where el:
    "recallableNotes E s rq (ne_clock E 0) (queryVector st (rq_Query rq)) (rc_EmbeddingModel (ns_retrieval st)) seen = Inr (x, eligible)"
    and plan: "PlanRecall eligible rq ((rc_Policy (ns_retrieval st))\<lparr>po_ObservationTime := ne_clock E 0\<rparr>) = (planned, t)"
    and budget: "0 < rq_TokenBudget rq" and sub: "subseq claimed (filter pn_ClaimNoteDelivery planned)"
    and made: "claims_made s rq claimed db (db'\<lparr>nd_observations := nd_observations db\<rparr>)"
    and ids: "map detail_id (en_Details envelope) = map planned_id claimed" and texts: "map rn_Text (en_Details envelope) = map pn_Text claimed"
    and tokens: "en_Tokens envelope \<le> sum_list (map pn_Tokens planned)" by (rule pgRecallNotes_elim)
  note b0 = less_imp_le [OF budget]
  note shown = recallableNotes_shows [OF assms(1) el]
  have item: "\<exists>n related. rn_Text d = formatRecall n related \<and> rn_Revision d = nt_Revision n \<and>
      shows_revision seen s rq (ne_clock E 0) (rn_NoteID d) n \<and>
      (\<forall>m \<in> set related. \<exists>noteID. shows_revision seen s rq (ne_clock E 0) noteID m) \<and>
      (\<forall>m \<in> set (n # related). nt_EvidenceEventIDs m \<noteq> [] \<and> \<not> unsafeRecallContent (noteText m))"
    if d: "detail_id d = planned_id p" "rn_Text d = pn_Text p" and p: "p \<in> set claimed" for d p
  proof -
    have pp: "p \<in> set planned" "pn_ClaimNoteDelivery p" using p sub set_nths_subset by (auto dest!: subseq_set)
    obtain related0 where items: "list_all2 (grounded_item eligible rq ((rc_Policy (ns_retrieval st))\<lparr>po_ObservationTime := ne_clock E 0\<rparr>)) planned related0"
      by (rule PlanRecall_items [OF plan b0])
    obtain related where g: "grounded_item eligible rq ((rc_Policy (ns_retrieval st))\<lparr>po_ObservationTime := ne_clock E 0\<rparr>) p related"
      using list_all2_left [OF items pp(1)] by blast
    obtain c where c: "c \<in> set eligible" "pn_Note p = ca_Note c" "planned_id p = (canonicalRecallNoteID c, nt_Revision (ca_Note c))"
      using claimed_candidate [OF plan b0 pp] by blast
    have "rn_NoteID d = canonicalRecallNoteID c" "rn_Revision d = nt_Revision (pn_Note p)" using d(1) c(2,3) by (simp_all add: detail_id_def)
    moreover have "\<exists>noteID. shows_revision seen s rq (ne_clock E 0) noteID m" if m: "m \<in> set related" for m
    proof -
      have "m \<in> ca_Note ` set eligible" using g pp(2) m by (simp add: grounded_item_def)
      then obtain c' where "c' \<in> set eligible" "m = ca_Note c'" by blast
      then show ?thesis using shown by blast
    qed
    ultimately show ?thesis
      using g pp(2) d(2) shown [OF c(1)] c(2) unfolding grounded_item_def
      by (intro exI [of _ "pn_Note p"] exI [of _ related]) simp
  qed
  have claim: "\<not> delivered db s (rn_NoteID d) (rn_Revision d) (SessionID (rq_Actor rq)) \<and>
      delivered db' s (rn_NoteID d) (rn_Revision d) (SessionID (rq_Actor rq))"
    if d: "detail_id d = planned_id p" and p: "p \<in> set claimed" for d p
  proof -
    have "claimKey s rq p = (s, rn_NoteID d, rn_Revision d, SessionID (rq_Actor rq))" by (simp add: claimKey_def detail_id_def flip: d)
    moreover have "claimKey s rq p \<in> dom (mget (nd_deliveries db'))" "mget (nd_deliveries db) (claimKey s rq p) = None"
      using made p unfolding claims_made_def by auto
    ultimately show ?thesis by (auto simp: delivered_def)
  qed
  show ?thesis
    using PlanRecall_fits [OF plan b0] tokens details_planned [OF ids texts] item claim by (intro conjI ballI) (fastforce, blast+)
qed

section \<open>Deliveries happen once\<close>

text \<open>What the store delivered over every sequence of its operations: the scope and the session, the note and the
  revision of every detail, in order.\<close>

definition deliveries_of :: "string \<Rightarrow> recall_request \<Rightarrow> note_envelope \<Rightarrow> (string \<times> string \<times> string \<times> int) list" where
  "deliveries_of s rq envelope = map (\<lambda>d. (s, SessionID (rq_Actor rq), detail_id d)) (en_Details envelope)"

inductive delivery_history :: "note_db \<Rightarrow> (string \<times> string \<times> string \<times> int) list \<Rightarrow> bool" where
  created: "delivery_history (emptyNoteDB p) []"
| written: "delivery_history db ds \<Longrightarrow> note_write db db' \<Longrightarrow> delivery_history db' ds"
| refused: "delivery_history db ds \<Longrightarrow> pgRecallNotes E st seen db s rq = (db', Inl e) \<Longrightarrow> delivery_history db' ds"
| recalled: "delivery_history db ds \<Longrightarrow> pgRecallNotes E st seen db s rq = (db', Inr envelope) \<Longrightarrow>
    delivery_history db' (ds @ deliveries_of s rq envelope)"

definition claimed_row :: "note_db \<Rightarrow> string \<times> string \<times> string \<times> int \<Rightarrow> bool" where
  "claimed_row db d = (case d of (s, session, noteID, revision) \<Rightarrow> delivered db s noteID revision session)"

lemma recall_claims_new:
  assumes "pgRecallNotes E st seen db s rq = (db', Inr envelope)"
  shows "distinct (deliveries_of s rq envelope)" and "\<forall>d \<in> set (deliveries_of s rq envelope). \<not> claimed_row db d \<and> claimed_row db' d"
    and "claimed_row db d \<Longrightarrow> claimed_row db' d"
proof -
  from assms obtain claimed where made: "claims_made s rq claimed db (db'\<lparr>nd_observations := nd_observations db\<rparr>)"
    and ids: "map detail_id (en_Details envelope) = map planned_id claimed" by (rule pgRecallNotes_elim)
  have new: "deliveries_of s rq envelope = map (\<lambda>p. (s, SessionID (rq_Actor rq), planned_id p)) claimed"
    using arg_cong [OF ids, of "map (\<lambda>i. (s, SessionID (rq_Actor rq), i))"] by (simp add: deliveries_of_def comp_def)
  have dist: "distinct (map (claimKey s rq) claimed)"
    and keys: "dom (mget (nd_deliveries db')) = dom (mget (nd_deliveries db)) \<union> claimKey s rq ` set claimed"
    and free: "\<forall>p \<in> set claimed. mget (nd_deliveries db) (claimKey s rq p) = None"
    using made unfolding claims_made_def by auto
  have row: "claimed_row x (s, SessionID (rq_Actor rq), planned_id p) \<longleftrightarrow> claimKey s rq p \<in> dom (mget (nd_deliveries x))" for x p
    by (cases "planned_id p") (auto simp: claimed_row_def delivered_def claimKey_def)
  have "inj_on (\<lambda>p. (s, SessionID (rq_Actor rq), planned_id p)) (set claimed)"
    using dist by (auto simp: distinct_map inj_on_def claimKey_def)
  moreover have "distinct claimed" using dist by (simp add: distinct_map)
  ultimately show "distinct (deliveries_of s rq envelope)" by (simp add: new distinct_map)
  show "\<forall>d \<in> set (deliveries_of s rq envelope). \<not> claimed_row db d \<and> claimed_row db' d"
    using keys free by (auto simp: new row)
  show "claimed_row db' d" if "claimed_row db d"
  proof -
    have "(case d of (s, session, noteID, revision) \<Rightarrow> (s, noteID, revision, session) \<in> dom (mget (nd_deliveries db)))"
      using that by (auto simp: claimed_row_def delivered_def split: prod.splits)
    then show ?thesis using keys by (auto simp: claimed_row_def delivered_def split: prod.splits)
  qed
qed

lemma claimed_row_write: "note_write db db' \<Longrightarrow> claimed_row db' d = claimed_row db d"
  using note_write_frame [of db db'] by (simp add: frame_def claimed_row_def delivered_def split: prod.split)

lemma delivery_history_inv: "delivery_history db ds \<Longrightarrow> distinct ds \<and> (\<forall>d \<in> set ds. claimed_row db d)"
proof (induction rule: delivery_history.induct)
  case (written db ds db')
  then show ?case by (simp add: claimed_row_write)
next
  case (refused db ds E st seen s rq db' e)
  then show ?case using pgRecallNotes_error [OF refused(2)] by simp
next
  case (recalled db ds E st seen s rq db' envelope)
  note new = recall_claims_new [OF recalled(2)]
  show ?case using recalled(3) new by (auto simp: distinct_append)
qed simp


section \<open>The router over the database\<close>

lemma pgRecall_budget:
  assumes "pgRecallNotes E st seen db s rq = (db', Inr envelope)"
  shows "en_Tokens envelope \<le> rq_TokenBudget rq"
proof -
  from assms obtain eligible planned t policy where "0 < rq_TokenBudget rq" "en_Tokens envelope \<le> sum_list (map pn_Tokens planned)"
    "PlanRecall eligible rq policy = (planned, t)" by (rule pgRecallNotes_elim)
  then show ?thesis using PlanRecall_fits [of eligible rq policy planned t] by linarith
qed

definition pgRecall :: "note_env \<Rightarrow> pg_note_store \<Rightarrow> note_db \<Rightarrow> note_db \<Rightarrow> go_context \<Rightarrow> string \<Rightarrow> recall_request \<Rightarrow> note_db \<times> note_envelope res" where
  "pgRecall E st seen db ctx s rq = pgRecallNotes E st seen db s rq"

interpretation pg_recall: recall_source "pgRecall E st seen"
  by unfold_locales (auto simp: pgRecall_def dest: pgRecall_budget)

lemma router_over_postgres_budget:
  assumes "Searches R ctx request (res, None)" and "sq_Intent request = IntentPassive"
    and "\<forall>ctx rq. \<exists>E st seen db. ro_teamNote R ctx rq = recall_answer (snd (appRecallNotes (pgRecall E st seen) db ctx rq))"
  shows "usedTokens (rs_Hits res) \<le> sq_TokenBudget request"
proof -
  have "\<forall>ctx rq. 0 < rq_TokenBudget rq \<longrightarrow> en_Tokens (fst (ro_teamNote R ctx rq)) \<le> rq_TokenBudget rq"
    using assms(3) pg_recall.answer_within_budget by metis
  from passive_within_budget [OF assms(1,2) this] show ?thesis by blast
qed

section \<open>A recall\<close>

text \<open>The database keeps times to the microsecond.\<close>

definition stored_note :: team_note where
  "stored_note = demo_note\<lparr>nt_SourceOccurredAt := 0\<rparr>"

lemma demo_stored:
  "map_sum (\<lambda>e. e) (\<lambda>(db, ns). (map_sum (\<lambda>e. e) snd (recallableNotes (demo_env 2000) ''team'' demo_request 2000 [] [] db), map fst (nd_revisions db)))
     (applyExtractionRunTx (demo_env 1000) demo_store ''team'' ((durable_run ''r1'' [created_candidate])\<lparr>run_CandidateChecksum := x\<rparr>) demo_ndb) =
   Inr (Inr [recallCandidate stored_note [] 0 None], [(''team'', ''c1'', 1)])"
  by code_simp

lemma demo_ndb1_shape:
  "map_sum (\<lambda>e. e) snd (recallableNotes (demo_env 2000) ''team'' demo_request 2000 [] [] demo_ndb1) = Inr [recallCandidate stored_note [] 0 None]"
  "mget (nd_revisions demo_ndb1) (''team'', ''c1'', 1) \<noteq> None" "nd_deliveries demo_ndb1 = []" "nd_observations demo_ndb1 = []"
proof -
  let ?r = "(durable_run ''r1'' [created_candidate])\<lparr>run_CandidateChecksum := sha256_hex (concat (map cn_ID [created_candidate]))\<rparr>"
  obtain db' ns where tx: "applyExtractionRunTx (demo_env 1000) demo_store ''team'' ?r demo_ndb = Inr (db', ns)"
    and stored: "map_sum (\<lambda>e. e) snd (recallableNotes (demo_env 2000) ''team'' demo_request 2000 [] [] db') = Inr [recallCandidate stored_note [] 0 None]"
      "map fst (nd_revisions db') = [(''team'', ''c1'', 1)]"
    using demo_stored [of "sha256_hex (concat (map cn_ID [created_candidate]))"] by (auto simp: map_sum_def split: sum.splits prod.splits)
  have "demo_ndb1 = db'"
    using pgApply_committed [OF _ _ _ _ tx, of "durable_run ''r1'' [created_candidate]", simplified durable_ready demo_env_simps simp_thms]
    by (simp add: demo_ndb1_def)
  then show "map_sum (\<lambda>e. e) snd (recallableNotes (demo_env 2000) ''team'' demo_request 2000 [] [] demo_ndb1) = Inr [recallCandidate stored_note [] 0 None]"
    "mget (nd_revisions demo_ndb1) (''team'', ''c1'', 1) \<noteq> None" using stored by (auto simp: map_eq_Cons_conv)
  show "nd_deliveries demo_ndb1 = []" "nd_observations demo_ndb1 = []"
    using pgApply_frame [OF demo_applied] by (simp_all add: frame_def demo_ndb_def emptyNoteDB_def)
qed

lemma stored_note_facts:
  "recallHardGateFailure stored_note (CompileRecallIntent demo_request) 2000 = []" "estimateTokens (formatRecall stored_note []) \<le> 100"
  "nt_ID stored_note = ''c1''" "nt_Revision stored_note = 1" "nt_EvidenceEventIDs stored_note \<noteq> []"
  by code_simp+

lemma demo_observation:
  assumes "nd_observations db = []"
  shows "\<exists>db'. saveRecallObservation (demo_env 2000) ''team'' demo_request e 2000 t db = Inr (db', 1)"
  using assms by (simp add: saveRecallObservation_def encoded_def loadRecallSnapshot_def loadRecallProvenance_def tx_bind_def tx_lift_def
      tx_return_def statement_def insertObservationRow_def deleteExpiredObservations_def demo_env_def no_fault_def demo_request_def fits_int4_def)

lemma demo_pgRecall:
  obtains db' envelope where "pgRecallNotes (demo_env 2000) demo_store demo_ndb1 demo_ndb1 ''team'' demo_request = (db', Inr envelope)"
    "map detail_id (en_Details envelope) = [(''c1'', 1)]"
proof -
  let ?po = "DefaultRecallPolicy\<lparr>po_ObservationTime := 2000\<rparr>" and ?c = "recallCandidate stored_note [] 0 None" and ?E = "demo_env 2000"
  obtain db0 where el: "recallableNotes ?E ''team'' demo_request 2000 [] [] demo_ndb1 = Inr (db0, [?c])"
    using demo_ndb1_shape(1) by (auto simp: map_sum_def split: sum.splits)
  obtain planned trace where plan: "PlanRecall [?c] demo_request ?po = (planned, trace)" by fastforce
  have budget: "0 \<le> rq_TokenBudget demo_request" using demo_recall_fields by simp
  have "observed [?c] ?po = 2000" by (simp add: recallObservationTime_def)
  then have "map pn_Note planned = [stored_note]"
    using PlanRecall_alone [of ?c demo_request ?po] stored_note_facts demo_recall_fields plan by simp
  then obtain p where p: "planned = [p]" "pn_Note p = stored_note" by (cases planned) auto
  obtain related where "list_all2 (grounded_item [?c] demo_request ?po) planned related" by (rule PlanRecall_items [OF plan budget])
  then have claim: "pn_ClaimNoteDelivery p"
    using demo_recall_fields(4) p by (auto simp: grounded_item_def list_all2_Cons1 split: if_splits)
  have id: "planned_id p = (''c1'', 1)"
    using claimed_candidate [OF plan budget, of p] p claim stored_note_facts by simp
  then have id': "(if pn_CanonicalNoteID p = [] then nt_ID (pn_Note p) else pn_CanonicalNoteID p) = ''c1''" "nt_Revision (pn_Note p) = 1"
    by (simp_all add: planned_id_def split: if_splits)
  have "0 \<le> pn_Tokens p \<and> pn_Tokens p \<le> 100"
    using PlanRecall_fits [OF plan budget] estimateTokens_pos [of "pn_Text p"] p demo_recall_fields(6) by simp
  then obtain row where ins: "insertDelivery ?E ''team'' p (rq_Actor demo_request) demo_ndb1 = Inr (demo_ndb1\<lparr>nd_deliveries := row\<rparr>, True)"
    using demo_ndb1_shape(2,3) by (simp add: insertDelivery_def Let_def id' statement_def insertDeliveryRow_def fits_int4_def go_map)
  let ?e = "AppendPlannedRecall zeroEnvelope p"
  obtain db' where save: "saveRecallObservation ?E ''team'' demo_request (?e\<lparr>en_Decision := SummarizeRecallDecision trace\<rparr>) 2000 trace
      (demo_ndb1\<lparr>nd_deliveries := row\<rparr>) = Inr (db', 1)" using demo_observation demo_ndb1_shape(4) by fastforce
  have "claimPlanned ?E ''team'' demo_request planned zeroEnvelope trace demo_ndb1 = Inr (demo_ndb1\<lparr>nd_deliveries := row\<rparr>, ?e, trace)"
    using p(1) claim ins by (simp add: tx_bind_def tx_return_def)
  moreover have "queryVector demo_store (rq_Query demo_request) = []" "rc_EmbeddingModel (ns_retrieval demo_store) = []"
    "rc_Policy (ns_retrieval demo_store) = DefaultRecallPolicy" "ne_clock ?E 0 = 2000"
    by (simp_all add: queryVector_def embedQuery_def demo_store_def demo_env_def)
  ultimately have "recallTx ?E demo_store demo_ndb1 ''team'' demo_request demo_ndb1 =
      Inr (db', ?e\<lparr>en_Decision := SummarizeRecallDecision trace, en_ObservationID := 1\<rparr>)"
    using el plan save by (simp add: recallTx_def tx_bind_def tx_return_def snapshotRead_def Let_def)
  moreover have "\<not> blank ''team''" by code_simp
  ultimately have "pgRecallNotes ?E demo_store demo_ndb1 demo_ndb1 ''team'' demo_request =
      (db', Inr (?e\<lparr>en_Decision := SummarizeRecallDecision trace, en_ObservationID := 1\<rparr>))"
    using demo_recall_fields(1) by (simp add: pgRecallNotes_def transaction_def step_def)
  moreover have "map detail_id (en_Details ?e) = [planned_id p]"
    by (simp add: Let_def AppendPlannedRecall_def zeroEnvelope_def detail_id_def planned_id_def)
  ultimately show thesis using that id by simp
qed

theorem pgRecall_confined_witness:
  "\<exists>db' envelope d n. pgRecallNotes (demo_env 2000) demo_store demo_ndb1 demo_ndb1 ''team'' demo_request = (db', Inr envelope) \<and>
     d \<in> set (en_Details envelope) \<and> shows_revision demo_ndb1 ''team'' demo_request 2000 (rn_NoteID d) n"
proof -
  obtain db' envelope where r: "pgRecallNotes (demo_env 2000) demo_store demo_ndb1 demo_ndb1 ''team'' demo_request = (db', Inr envelope)"
    "map detail_id (en_Details envelope) = [(''c1'', 1)]" by (rule demo_pgRecall)
  then obtain d where d: "d \<in> set (en_Details envelope)" by (cases "en_Details envelope") auto
  have ok: "note_db_ok demo_ndb1" using note_reaches_ok [OF demo_reached] emptyNoteDB_ok [OF demo_session_inv] by blast
  have "ne_clock (demo_env 2000) 0 = 2000" by (simp add: demo_env_def)
  then show ?thesis using pgRecall_confined [OF ok r(1)] r(1) d by fastforce
qed


section \<open>Limits of the schema\<close>

text \<open>A run of a slice that is already recorded under another extraction version has another identifier and the same
  checksum: the unique constraint on agent, session and checksum refuses it, and the failure is not one that is
  quarantined.\<close>

lemma versioned_run_refused:
  assumes "mget (nd_runs db) (s, rid) = Some row" and "mget (nd_runs db) (s, run_ID run) = None"
    and "AgentID (xr_Actor row) = AgentID (run_Actor run)" and "SessionID (xr_Actor row) = SessionID (run_Actor run)"
    and "xr_InputChecksum row = run_InputChecksum run" and "ne_fault E = no_fault"
  shows "applyExtractionRunTx E st s run db = Inl (wrapf ''ensure extraction run: '' uniqueViolation)"
    and "\<not> ShouldQuarantineExtractionRun (wrapf ''ensure extraction run: '' uniqueViolation)"
proof -
  have "((s, rid), row) \<in> set (nd_runs db)" using assms(1) by (simp add: map_of_SomeD)
  then have "list_ex (sameRunInput s (runRow E run ExtractionRunProcessing)) (nd_runs db)"
    using assms(3,4,5) by (auto simp: list_ex_iff sameRunInput_def runRow_def intro!: bexI [of _ "((s, rid), row)"])
  then show "applyExtractionRunTx E st s run db = Inl (wrapf ''ensure extraction run: '' uniqueViolation)"
    using assms(2,6) by (simp add: applyExtractionRunTx_def ensureExtractionRun_def tx_bind_def statement_def insertRunRow_def no_fault_def)
  show "\<not> ShouldQuarantineExtractionRun (wrapf ''ensure extraction run: '' uniqueViolation)" by code_simp
qed

text \<open>A run is created and completed in one transaction, whose \<open>NOW()\<close> does not move: the duration of the extraction that
  an observation records is always zero.\<close>

lemma provenance_duration_zero:
  assumes "note_db_ok db"
  shows "rp_DurationMS (recallProvenance E db s at) = 0"
proof -
  have "runDuration r = 0" if r: "r \<in> snd ` set (nd_runs db)" for r
  proof -
    obtain k where "(k, r) \<in> set (nd_runs db)" using r by auto
    moreover have ok: "runs_ok {} 0 (nd_runs db)" using assms by (simp add: note_db_ok_def)
    ultimately have "mget (nd_runs db) k = Some r" by (simp add: runs_ok_def)
    then have "xr_CompletedAt r = Some (xr_CreatedAt r)" using ok unfolding runs_ok_def by (cases k) auto
    then show ?thesis by (simp add: runDuration_def)
  qed
  then have "sum_list (map runDuration (map snd (filter (completedBy s at) (nd_runs db)))) = 0"
    by (intro sum_list_nonneg_eq_0_iff [THEN iffD2]) auto
  then show ?thesis by (simp add: recallProvenance_def Let_def roundMS_def del: map_map)
qed

end
