(* ===== verification/Extraction_Queue.thy ===== *)
theory Extraction_Queue
  imports Session_Evidence Go_Crypto
begin

text \<open>
  The extraction queue (\<open>internal/teamnote/extractionqueue/queue.go\<close>): which job an accepted batch becomes, on
  which shard, and what the worker does with it.  The job table is River's: inserting a job and creating the
  client are parameters.  The shard is a hash on 32-bit words with their wrap-around.  Log lines are left out.
\<close>

section \<open>Configuration\<close>

record queue_config =
  qc_QueuePrefix :: string
  qc_Shards :: int
  qc_MaxAttempts :: int
  qc_Debounce :: int
  qc_BatchTimeout :: int
  qc_JobTimeout :: int
  qc_SoftStopTimeout :: int

definition queueDefaults :: "queue_config \<Rightarrow> queue_config" where
  "queueDefaults config =
     \<lparr>qc_QueuePrefix = (if qc_QueuePrefix config = [] then ''team_note_extract'' else qc_QueuePrefix config),
      qc_Shards = (if qc_Shards config = 0 then 16 else qc_Shards config),
      qc_MaxAttempts = (if qc_MaxAttempts config = 0 then 5 else qc_MaxAttempts config),
      qc_Debounce = (if qc_Debounce config = 0 then 750000000 else qc_Debounce config),
      qc_BatchTimeout = (if qc_BatchTimeout config = 0 then 30000000000 else qc_BatchTimeout config),
      qc_JobTimeout = (if qc_JobTimeout config = 0 then 180000000000 else qc_JobTimeout config),
      qc_SoftStopTimeout = (if qc_SoftStopTimeout config = 0 then 30000000000 else qc_SoftStopTimeout config)\<rparr>"

definition validateConfig :: "queue_config \<Rightarrow> unit res" where
  "validateConfig config =
     (if blank (qc_QueuePrefix config) \<or> list_ex (\<lambda>c. c = CHR '' '' \<or> c = CHR '','') (qc_QueuePrefix config)
      then Inl (ErrorNew ''create extraction queue: queue prefix is invalid'')
      else if qc_Shards config < 1 \<or> qc_Shards config > 64
      then Inl (ErrorNew ''create extraction queue: shards must be between 1 and 64'')
      else if qc_MaxAttempts config < 1 \<or> qc_Debounce config < 0 \<or> qc_BatchTimeout config < 0 \<or>
              qc_JobTimeout config < 0 \<or> qc_SoftStopTimeout config < 0
      then Inl (ErrorNew ''create extraction queue: attempts and timeouts are invalid'')
      else Inr ())"

section \<open>Shards\<close>

record job_args =
  ja_ScopeID :: string
  ja_UserID :: string
  ja_AgentID :: string
  ja_SessionID :: string
  ja_ExpectedCursor :: int
  ja_RequireCurrent :: bool

definition validateArgs :: "job_args \<Rightarrow> unit res" where
  "validateArgs args =
     (if blank (ja_ScopeID args) \<or> blank (ja_UserID args) \<or> blank (ja_AgentID args) \<or> blank (ja_SessionID args) \<or>
         ja_ExpectedCursor args \<le> 0
      then Inl (ErrorNew ''enqueue extraction: scope and actor are required'')
      else Inr ())"

definition prime32 :: w32 where "prime32 = 16777619"
definition offset32 :: w32 where "offset32 = 2166136261"

definition hashValue :: "string \<Rightarrow> w32 \<Rightarrow> w32" where
  "hashValue value hash = fold (\<lambda>current hash. (hash XOR of_nat (of_char current)) * prime32) value hash * prime32"

definition shardFor :: "job_args \<Rightarrow> int \<Rightarrow> int" where
  "shardFor args shards =
     uint (fold hashValue [ja_ScopeID args, ja_AgentID args, ja_SessionID args] offset32 mod word_of_int shards)"

definition queueName :: "string \<Rightarrow> int \<Rightarrow> string" where
  "queueName pfx shard = pfx @ ''_'' @ (if shard < 10 then ''0'' else []) @ show_int shard"

definition shardQueues :: "string \<Rightarrow> int \<Rightarrow> (string, int) gomap" where
  "shardQueues pfx shards = fold (\<lambda>shard. mput (queueName pfx (int shard)) 1) [0..<nat shards] []"

section \<open>The queue\<close>

record extraction_queue =
  eq_queuePrefix :: string
  eq_shards :: int
  eq_maxAttempts :: int
  eq_debounce :: int
  eq_batchTimeout :: int

text \<open>\<open>registered\<close> and \<open>created\<close> are what River answers to the worker and to the client's configuration.\<close>

definition NewQueue ::
  "bool \<Rightarrow> bool \<Rightarrow> go_error option \<Rightarrow> (queue_config \<Rightarrow> (string, int) gomap \<Rightarrow> go_error option) \<Rightarrow> queue_config \<Rightarrow>
     extraction_queue res" where
  "NewQueue hasPool hasProcessor registered created config0 =
     (if \<not> hasPool \<or> \<not> hasProcessor
      then Inl (ErrorNew ''create extraction queue: pool and processor are required'')
      else
        let config = queueDefaults config0 in
        case validateConfig config of
          Inl e \<Rightarrow> Inl e
        | Inr _ \<Rightarrow>
            (case registered of
               Some e \<Rightarrow> Inl (wrapf ''register extraction worker: '' e)
             | None \<Rightarrow>
                 (case created config (shardQueues (qc_QueuePrefix config) (qc_Shards config)) of
                    Some e \<Rightarrow> Inl (wrapf ''create River client: '' e)
                  | None \<Rightarrow>
                      Inr \<lparr>eq_queuePrefix = qc_QueuePrefix config, eq_shards = qc_Shards config,
                           eq_maxAttempts = qc_MaxAttempts config, eq_debounce = qc_Debounce config,
                           eq_batchTimeout = qc_BatchTimeout config\<rparr>)))"

record insert_opts =
  io_Queue :: string
  io_MaxAttempts :: int
  io_ScheduledAt :: time

definition jobArgs :: "string \<Rightarrow> actor \<Rightarrow> int \<Rightarrow> bool \<Rightarrow> job_args" where
  "jobArgs scopeID a cursor complete =
     \<lparr>ja_ScopeID = scopeID, ja_UserID = UserID a, ja_AgentID = AgentID a, ja_SessionID = SessionID a,
      ja_ExpectedCursor = cursor, ja_RequireCurrent = \<not> complete\<rparr>"

definition EnqueueTx ::
  "extraction_queue \<Rightarrow> (job_args \<Rightarrow> insert_opts \<Rightarrow> int res) \<Rightarrow> time \<Rightarrow> string \<Rightarrow> actor \<Rightarrow> int \<Rightarrow> bool \<Rightarrow> string res" where
  "EnqueueTx q insertTx now scopeID a cursor complete =
     (let args = jobArgs scopeID a cursor complete;
          delay = (if \<not> complete then eq_batchTimeout q else eq_debounce q) in
      case validateArgs args of
        Inl e \<Rightarrow> Inl e
      | Inr _ \<Rightarrow>
          (case insertTx args \<lparr>io_Queue = queueName (eq_queuePrefix q) (shardFor args (eq_shards q)),
                  io_MaxAttempts = eq_maxAttempts q, io_ScheduledAt = now + delay\<rparr> of
             Inl e \<Rightarrow> Inl (wrapf ''insert River extraction job: '' e)
           | Inr jobID \<Rightarrow> Inr (show_int jobID)))"

section \<open>The worker\<close>

datatype work_result = JobDone | JobSnoozed | JobFailed go_error

definition Work ::
  "('w \<Rightarrow> go_context \<Rightarrow> actor \<Rightarrow> int \<Rightarrow> bool \<Rightarrow> 'w \<times> bool res) \<Rightarrow> 'w \<Rightarrow> go_context \<Rightarrow> job_args \<Rightarrow> 'w \<times> work_result" where
  "Work process w ctx args =
     (case validateArgs args of
        Inl e \<Rightarrow> (w, JobFailed (wrapf ''validate extraction job: '' e))
      | Inr _ \<Rightarrow>
          (case process w (WithScope ctx (ja_ScopeID args))
                  \<lparr>UserID = ja_UserID args, AgentID = ja_AgentID args, SessionID = ja_SessionID args\<rparr>
                  (ja_ExpectedCursor args) (ja_RequireCurrent args) of
             (w', Inl e) \<Rightarrow> (w', JobFailed (wrapf ''process extraction stream: '' e))
           | (w', Inr backlog) \<Rightarrow> (w', if backlog then JobSnoozed else JobDone)))"

section \<open>Shards stay in range\<close>

lemma shardFor_bounds:
  assumes "1 \<le> shards" and "shards \<le> 64"
  shows "0 \<le> shardFor args shards \<and> shardFor args shards < shards"
proof -
  have "uint (word_of_int shards :: w32) = shards" using assms by (simp add: uint_word_of_int)
  moreover from this have "(word_of_int shards :: w32) \<noteq> 0" using assms by auto
  ultimately show ?thesis by (simp add: shardFor_def uint_mod pos_mod_bound assms) (use assms in auto)
qed

lemma shardQueues_get:
  "mget (shardQueues pfx shards) name = (if name \<in> (\<lambda>i. queueName pfx (int i)) ` {0..<nat shards} then Some 1 else None)"
proof -
  have "mget (fold (\<lambda>shard. mput (queueName pfx (int shard)) 1) xs m) name =
      (if name \<in> (\<lambda>i. queueName pfx (int i)) ` set xs then Some 1 else mget m name)" for xs and m :: "(string, int) gomap"
    by (induction xs arbitrary: m) (auto simp: go_map)
  from this [of "[0..<nat shards]" "[]"] show ?thesis by (simp add: shardQueues_def)
qed

definition sessionQueue :: "extraction_queue \<Rightarrow> string \<Rightarrow> string \<Rightarrow> string \<Rightarrow> string" where
  "sessionQueue q scopeID agentID sessionID =
     queueName (eq_queuePrefix q) (shardFor (jobArgs scopeID \<lparr>UserID = [], AgentID = agentID, SessionID = sessionID\<rparr> 0 False) (eq_shards q))"

lemma shardFor_session:
  "shardFor (jobArgs scopeID a cursor complete) shards =
     shardFor (jobArgs scopeID \<lparr>UserID = [], AgentID = AgentID a, SessionID = SessionID a\<rparr> 0 False) shards"
  by (simp add: shardFor_def jobArgs_def)

lemma NewQueue_valid:
  assumes "NewQueue hasPool hasProcessor registered created config = Inr q"
  shows "1 \<le> eq_shards q" "eq_shards q \<le> 64" "1 \<le> eq_maxAttempts q" "0 \<le> eq_debounce q" "0 \<le> eq_batchTimeout q"
  using assms by (auto simp: NewQueue_def validateConfig_def Let_def split: if_splits sum.splits option.splits)

text \<open>C38. A job that the queue reports as inserted is one the worker can process: its arguments are valid, it is
  scheduled no earlier than now with at least one attempt, on a queue that the client serves with a single worker
  and that depends only on the scope, the agent and the session, so that one client never runs jobs of one session
  concurrently.  The worker hands exactly the scope, actor, cursor and mode of the batch to the processor, and asks
  for the job again exactly when the processor reports a backlog.\<close>

theorem enqueued_job_workable:
  assumes "NewQueue hasPool hasProcessor registered created config = Inr q"
    and "EnqueueTx q insertTx now scopeID a cursor complete = Inr runID"
  shows "\<exists>args opts jobID. insertTx args opts = Inr jobID \<and> runID = show_int jobID \<and> validateArgs args = Inr () \<and>
    now \<le> io_ScheduledAt opts \<and> 1 \<le> io_MaxAttempts opts \<and>
    io_Queue opts = sessionQueue q scopeID (AgentID a) (SessionID a) \<and>
    mget (shardQueues (eq_queuePrefix q) (eq_shards q)) (io_Queue opts) = Some 1 \<and>
    Work process w ctx args =
      (case process w (WithScope ctx scopeID) a cursor (\<not> complete) of
         (w', Inl e) \<Rightarrow> (w', JobFailed (wrapf ''process extraction stream: '' e))
       | (w', Inr backlog) \<Rightarrow> (w', if backlog then JobSnoozed else JobDone))"
proof -
  note q = NewQueue_valid [OF assms(1)]
  let ?args = "jobArgs scopeID a cursor complete"
  let ?opts = "\<lparr>io_Queue = queueName (eq_queuePrefix q) (shardFor ?args (eq_shards q)), io_MaxAttempts = eq_maxAttempts q,
    io_ScheduledAt = now + (if \<not> complete then eq_batchTimeout q else eq_debounce q)\<rparr>"
  from assms(2) obtain jobID where job: "validateArgs ?args = Inr ()" "insertTx ?args ?opts = Inr jobID" "runID = show_int jobID"
    by (simp add: EnqueueTx_def Let_def split: sum.splits)
  have bounds: "0 \<le> shardFor ?args (eq_shards q)" "shardFor ?args (eq_shards q) < eq_shards q"
    using shardFor_bounds [OF q(1,2)] by blast+
  have "shardFor ?args (eq_shards q) \<in> int ` {0..<nat (eq_shards q)}"
    using bounds by (intro image_eqI [of _ _ "nat (shardFor ?args (eq_shards q))"]) auto
  then have served: "mget (shardQueues (eq_queuePrefix q) (eq_shards q)) (io_Queue ?opts) = Some 1"
    by (auto simp: shardQueues_get)
  have same: "io_Queue ?opts = sessionQueue q scopeID (AgentID a) (SessionID a)"
    by (simp add: sessionQueue_def shardFor_session [of scopeID a cursor complete])
  have "Work process w ctx ?args =
      (case process w (WithScope ctx scopeID) a cursor (\<not> complete) of
         (w', Inl e) \<Rightarrow> (w', JobFailed (wrapf ''process extraction stream: '' e))
       | (w', Inr backlog) \<Rightarrow> (w', if backlog then JobSnoozed else JobDone))"
    using job(1) by (cases a) (simp add: Work_def jobArgs_def)
  moreover have "now \<le> io_ScheduledAt ?opts" "1 \<le> io_MaxAttempts ?opts" using q by simp_all
  ultimately show ?thesis using job same served by (intro exI [of _ ?args] exI [of _ ?opts] exI [of _ jobID]) simp
qed

definition queued_config :: queue_config where
  "queued_config = \<lparr>qc_QueuePrefix = [], qc_Shards = 0, qc_MaxAttempts = 0, qc_Debounce = 0, qc_BatchTimeout = 0,
     qc_JobTimeout = 0, qc_SoftStopTimeout = 0\<rparr>"

definition queued_actor :: actor where
  "queued_actor = \<lparr>UserID = ''u'', AgentID = ''agent'', SessionID = ''session''\<rparr>"

theorem enqueued_job_workable_witness:
  "\<exists>q (args :: job_args) (opts :: insert_opts). NewQueue True True None (\<lambda>_ _. None) queued_config = Inr q \<and>
     EnqueueTx q (\<lambda>_ _. Inr 7) 0 ''team'' queued_actor 3 True = Inr ''7'' \<and> validateArgs args = Inr () \<and>
     mget (shardQueues (eq_queuePrefix q) (eq_shards q)) (io_Queue opts) = Some 1"
proof -
  have "validateConfig (queueDefaults queued_config) = Inr ()" by code_simp
  then have "\<exists>q. NewQueue True True None (\<lambda>_ _. None) queued_config = Inr q"
    by (simp add: NewQueue_def Let_def)
  then obtain q where q: "NewQueue True True None (\<lambda>_ _. None) queued_config = Inr q" by blast
  have "validateArgs (jobArgs ''team'' queued_actor 3 True) = Inr ()" by code_simp
  moreover have "show_int 7 = ''7''" by code_simp
  ultimately have run: "EnqueueTx q (\<lambda>_ _. Inr 7) 0 ''team'' queued_actor 3 True = Inr ''7''"
    by (simp add: EnqueueTx_def Let_def)
  obtain args :: job_args and opts :: insert_opts where "validateArgs args = Inr ()"
    "mget (shardQueues (eq_queuePrefix q) (eq_shards q)) (io_Queue opts) = Some 1"
    using enqueued_job_workable [OF q run, of "\<lambda>w _ _ _ _. (w, Inr False)" "()" "\<lparr>ctx_scope = None, ctx_err = None\<rparr>"]
    by blast
  with q run show ?thesis by (intro exI [of _ q] exI [of _ args] exI [of _ opts] conjI)
qed

text \<open>The separator step does not keep agents and sessions with one concatenation on distinct shards.\<close>

lemma shard_collision:
  "shardFor (jobArgs ''s'' \<lparr>UserID = ''u'', AgentID = ''af'', SessionID = ''a''\<rparr> 1 True) 16 =
   shardFor (jobArgs ''s'' \<lparr>UserID = ''u'', AgentID = ''a'', SessionID = ''fa''\<rparr> 1 True) 16"
  by code_simp

end
