(* ===== verification/Onprem_Secrets.thy ===== *)
theory Onprem_Secrets
  imports Go_Crypto
begin

text \<open>
  The secrets of the on-premises deployment (\<open>internal/deployment/onprem/service.go\<close>): random tokens, their peppered
  digests, and the two formats in which they leave the service, \<open>tm_enroll_<id>.<secret>[.<origin>]\<close> and
  \<open>tm_key_<id>.<secret>\<close>.  HMAC-SHA-256 and the URL alphabet of base64 are written out; \<open>url.Parse\<close> is a parameter.
\<close>

unbundle bit_operations_syntax

section \<open>Standard library\<close>

text \<open>\<open>strings.CutPrefix\<close>, \<open>strings.Split\<close> and \<open>strings.Cut\<close> at one character.\<close>

definition cut_prefix :: "string \<Rightarrow> string \<Rightarrow> string option" where
  "cut_prefix s p = (if prefix p s then Some (drop (length p) s) else None)"

fun split_on :: "char \<Rightarrow> string \<Rightarrow> string list" where
  "split_on c [] = [[]]"
| "split_on c (x # xs) =
     (if x = c then [] # split_on c xs
      else (case split_on c xs of [] \<Rightarrow> [[x]] | w # ws \<Rightarrow> (x # w) # ws))"

definition cut_at :: "char \<Rightarrow> string \<Rightarrow> (string \<times> string) option" where
  "cut_at c s = (if c \<in> set s then Some (takeWhile (\<lambda>x. x \<noteq> c) s, tl (dropWhile (\<lambda>x. x \<noteq> c) s)) else None)"

text \<open>\<open>crypto/hmac\<close> with SHA-256: blocks of 64 bytes.\<close>

definition hmac_key :: "string \<Rightarrow> string" where
  "hmac_key key = (let k = (if 64 < length key then map char_of (sha256_bytes key) else key) in k @ replicate (64 - length k) (CHR 0x00))"

definition xor_pad :: "nat \<Rightarrow> string \<Rightarrow> string" where
  "xor_pad pad = map (\<lambda>c. char_of (of_char c XOR pad))"

definition hmac_sha256 :: "string \<Rightarrow> string \<Rightarrow> nat list" where
  "hmac_sha256 key message =
     (let k = hmac_key key in sha256_bytes (xor_pad 0x5C k @ map char_of (sha256_bytes (xor_pad 0x36 k @ message))))"

text \<open>\<open>base64.RawURLEncoding\<close>.\<close>

definition base64_char :: "nat \<Rightarrow> char" where
  "base64_char n =
     (if n < 26 then char_of (65 + n) else if n < 52 then char_of (71 + n) else if n < 62 then char_of (n - 4)
      else if n = 62 then CHR ''-'' else CHR ''_'')"

fun base64_url :: "nat list \<Rightarrow> string" where
  "base64_url [] = []"
| "base64_url [a] = map base64_char [a div 4, a mod 4 * 16]"
| "base64_url [a, b] = map base64_char [a div 4, a mod 4 * 16 + b div 16, b mod 16 * 4]"
| "base64_url (a # b # c # rest) =
     map base64_char [a div 4, a mod 4 * 16 + b div 16, b mod 16 * 4 + c div 64, c mod 64] @ base64_url rest"

section \<open>Digests\<close>

type_synonym secret_digest = "nat list"

definition defaultEnrollmentTTL :: int where "defaultEnrollmentTTL = 15 * 60 * 1000000000"
definition currentDigestKeyVersion :: int where "currentDigestKeyVersion = 1"
definition credentialDigestDomain :: string where "credentialDigestDomain = ''agent-credential''"
definition enrollmentDigestDomain :: string where "enrollmentDigestDomain = ''agent-enrollment''"

definition digest :: "string \<Rightarrow> secret_digest" where
  "digest value = sha256_bytes value"

text \<open>A digester is its key.\<close>

definition newSecretDigester :: "string \<Rightarrow> string res" where
  "newSecretDigester secret =
     (let key = trim_space secret in
      if length key < 32 then Inl (ErrorNew ''secret pepper must contain at least 32 characters'') else Inr key)"

definition Digest :: "string \<Rightarrow> string \<Rightarrow> string \<Rightarrow> secret_digest" where
  "Digest key domain value = hmac_sha256 key (domain @ [CHR 0x00] @ value)"

definition constantTimeEqual :: "string \<Rightarrow> string \<Rightarrow> bool" where
  "constantTimeEqual left right = (if length left \<noteq> length right then False else left = right)"

lemma length_Digest: "length (Digest key domain v) = 32"
  by (simp add: Digest_def hmac_sha256_def Let_def length_sha256_bytes)

section \<open>Tokens\<close>

text \<open>Thirty-two bytes of the random source.\<close>

definition randomToken :: "nat list res \<Rightarrow> string res" where
  "randomToken buffer = (case buffer of Inl e \<Rightarrow> Inl (wrapf ''read random token: '' e) | Inr bytes \<Rightarrow> Inr (base64_url bytes))"

record parsed_url =
  pu_Scheme :: string
  pu_Hostname :: string
  pu_HasUser :: bool
  pu_Path :: string
  pu_RawQuery :: string
  pu_Fragment :: string

definition secretPublicID :: "string \<Rightarrow> string \<Rightarrow> string option" where
  "secretPublicID value pre =
     (case cut_prefix value pre of
        None \<Rightarrow> None
      | Some remainder \<Rightarrow>
          (case cut_at (CHR ''.'') remainder of
             None \<Rightarrow> None
           | Some (publicID, secret) \<Rightarrow> if blank publicID \<or> blank secret then None else Some publicID))"

text \<open>The token with the origin of the portal, and the part of it that is verified.\<close>

definition enrollmentToken :: "(string \<Rightarrow> parsed_url res) \<Rightarrow> string \<Rightarrow> string \<Rightarrow> string \<Rightarrow> string \<times> string" where
  "enrollmentToken urlParse i secret portalURL =
     (let verifiableToken = ''tm_enroll_'' @ i @ ''.'' @ secret;
          origin = trim_space portalURL
      in case urlParse origin of
           Inl _ \<Rightarrow> (verifiableToken, verifiableToken)
         | Inr parsed \<Rightarrow>
             if (pu_Scheme parsed \<noteq> ''http'' \<and> pu_Scheme parsed \<noteq> ''https'') \<or> pu_Hostname parsed = [] \<or> pu_HasUser parsed \<or>
               (pu_Path parsed \<noteq> [] \<and> pu_Path parsed \<noteq> ''/'') \<or> pu_RawQuery parsed \<noteq> [] \<or> pu_Fragment parsed \<noteq> []
             then (verifiableToken, verifiableToken)
             else (verifiableToken @ ''.'' @ base64_url (map of_char origin), verifiableToken))"

definition parseEnrollmentToken :: "string \<Rightarrow> (string \<times> string) option" where
  "parseEnrollmentToken value =
     (case cut_prefix (trim_space value) ''tm_enroll_'' of
        None \<Rightarrow> None
      | Some remainder \<Rightarrow>
          (case split_on (CHR ''.'') remainder of
             [a, b] \<Rightarrow> if blank a \<or> blank b then None else Some (''tm_enroll_'' @ a @ ''.'' @ b, a)
           | [a, b, _] \<Rightarrow> if blank a \<or> blank b then None else Some (''tm_enroll_'' @ a @ ''.'' @ b, a)
           | _ \<Rightarrow> None))"

section \<open>Tokens can be read back\<close>

lemma split_on_nonempty [simp]: "split_on c s \<noteq> []"
  by (induction c s rule: split_on.induct) (auto split: list.split)

lemma split_on_none: "c \<notin> set s \<Longrightarrow> split_on c s = [s]"
  by (induction s) auto

lemma split_on_append: "c \<notin> set s \<Longrightarrow> split_on c (s @ c # t) = s # split_on c t"
  by (induction s) auto

lemma cut_at_append: "c \<notin> set s \<Longrightarrow> cut_at c (s @ c # t) = Some (s, t)"
  by (auto simp: cut_at_def takeWhile_append dropWhile_append takeWhile_tail)

text \<open>The characters of a token: none is a separator, none starts or ends the encoding of a space.\<close>

definition plain_char :: "char \<Rightarrow> bool" where
  "plain_char c \<longleftrightarrow> lead_width space_encodings [c] = 0 \<and> of_char c < (128 :: int)"

lemma plain_edge:
  assumes "plain_char c"
  shows "lead_width space_encodings (c # s) = 0" and "lead_width (map rev space_encodings) (c # s) = 0"
proof -
  have wide: "list_all (\<lambda>e. e \<noteq> [] \<and> (length e = 1 \<or> 128 \<le> (of_char (hd e) :: int) \<and> 128 \<le> (of_char (last e) :: int))) space_encodings"
    by code_simp
  have "\<not> prefix e [c]" if "e \<in> set space_encodings" for e
    using lead_width_0 [OF _ _ that, of "[c]"] assms by (simp add: plain_char_def space_encodings_def)
  then have edge: "hd e \<noteq> c \<and> last e \<noteq> c" if "e \<in> set space_encodings" for e
    using that wide assms by (cases e) (fastforce simp: list_all_iff plain_char_def length_Suc_conv)+
  have clear: "lead_width ws (c # s) = 0" if "\<And>e. e \<in> set ws \<Longrightarrow> e \<noteq> [] \<and> hd e \<noteq> c" for ws
  proof (rule ccontr)
    assume "lead_width ws (c # s) \<noteq> 0"
    from lead_width_takes [OF this] obtain e where "e \<in> set ws" "c # s = e @ drop (lead_width ws (c # s)) (c # s)" by blast
    then show False using that [of e] by (metis hd_append2 list.sel(1))
  qed
  show "lead_width space_encodings (c # s) = 0" by (rule clear) (use edge wide in \<open>auto simp: list_all_iff\<close>)
  show "lead_width (map rev space_encodings) (c # s) = 0"
    by (rule clear) (use edge wide in \<open>force simp: list_all_iff hd_rev\<close>)
qed

lemma trim_space_plain:
  assumes "s \<noteq> []" and "plain_char (hd s)" and "plain_char (last s)"
  shows "trim_space s = s"
proof -
  have "lead_width space_encodings s = 0" using plain_edge(1) [OF assms(2), of "tl s"] assms(1) by simp
  then have "trim_left s = s" by (simp add: trim_left_def trim_with.simps)
  moreover have "rev s = last s # tl (rev s)" using assms(1) by (cases s rule: rev_cases) auto
  then have "lead_width (map rev space_encodings) (rev s) = 0" using plain_edge(2) [OF assms(3)] by metis
  then have "trim_right s = s" by (simp add: trim_right_def trim_with.simps)
  ultimately show ?thesis by (simp add: trim_space_def)
qed

lemma plain_not_blank: "s \<noteq> [] \<Longrightarrow> plain_char (hd s) \<Longrightarrow> \<not> blank s"
  using plain_edge(1) [of "hd s" "tl s"] not_blank by simp

definition token_char :: "char \<Rightarrow> bool" where
  "token_char c \<longleftrightarrow> c \<noteq> CHR ''.'' \<and> plain_char c"

definition token :: "string \<Rightarrow> bool" where
  "token s \<longleftrightarrow> s \<noteq> [] \<and> list_all token_char s"

lemma token_facts:
  assumes "token s"
  shows "CHR ''.'' \<notin> set s" "\<not> blank s" "s \<noteq> []" "plain_char (last s)"
  using assms plain_not_blank [of s] by (auto simp: token_def token_char_def list_all_iff)

lemma base64_char_token: "token_char (base64_char n)"
proof -
  have "list_all (\<lambda>n. token_char (base64_char n)) [0..<64]" by code_simp
  then have "token_char (base64_char n)" if "n < 64" for n using that by (simp add: list_all_iff)
  moreover have "base64_char n = base64_char 63" if "\<not> n < 64" using that by (simp add: base64_char_def)
  ultimately show ?thesis by (cases "n < 64") auto
qed

lemma base64_url_tokens: "list_all token_char (base64_url bs)"
  by (induction bs rule: base64_url.induct) (simp_all add: base64_char_token)

lemma randomToken_token: "randomToken (Inr bytes) = Inr t \<Longrightarrow> bytes \<noteq> [] \<Longrightarrow> token t"
  using base64_url_tokens [of bytes] by (cases bytes rule: base64_url.cases) (auto simp: randomToken_def token_def)

text \<open>An enrollment token is read back to its identifier and its verifiable part, whatever origin it carries.\<close>

lemma enrollment_token_roundtrip:
  assumes "token i" and "token secret" and "enrollmentToken urlParse i secret portalURL = (tok, verifiable)"
  shows "parseEnrollmentToken tok = Some (verifiable, i)" and "verifiable = ''tm_enroll_'' @ i @ ''.'' @ secret"
proof -
  let ?v = "''tm_enroll_'' @ i @ ''.'' @ secret"
  show v: "verifiable = ?v" using assms(3) by (auto simp: enrollmentToken_def Let_def split: sum.splits if_splits)
  obtain hint where tok: "tok = ?v @ hint" and hint: "hint = [] \<or> (\<exists>bs. hint = CHR ''.'' # base64_url bs)"
    using assms(3) by (auto simp: enrollmentToken_def Let_def split: sum.splits if_splits)
  note facts = token_facts [OF assms(1)] token_facts [OF assms(2)]
  have edges: "plain_char (CHR ''t'')" "plain_char (CHR ''.'')" by code_simp+
  have "list_all plain_char (base64_url bs)" for bs
    using base64_url_tokens [of bs] by (simp add: list_all_iff token_char_def)
  then have "list_all plain_char hint" using hint edges(2) by (elim disjE exE) simp_all
  then have "plain_char (last tok)"
    using facts tok by (cases "hint = []") (auto simp: list_all_iff)
  moreover have "hd tok = CHR ''t''" "tok \<noteq> []" using tok by simp_all
  ultimately have trim: "trim_space tok = tok" using trim_space_plain [of tok] edges by simp
  have rest: "cut_prefix tok ''tm_enroll_'' = Some (i @ CHR ''.'' # secret @ hint)" by (simp add: tok cut_prefix_def)
  show "parseEnrollmentToken tok = Some (verifiable, i)"
  proof (cases "hint = []")
    case True
    then show ?thesis using rest trim facts v by (simp add: parseEnrollmentToken_def split_on_append split_on_none)
  next
    case False
    then obtain bs where h: "hint = CHR ''.'' # base64_url bs" using hint by blast
    have "CHR ''.'' \<notin> set (base64_url bs)" using base64_url_tokens [of bs] by (auto simp: list_all_iff token_char_def)
    then show ?thesis using rest trim facts v h by (simp add: parseEnrollmentToken_def split_on_append split_on_none)
  qed
qed

lemma api_key_roundtrip:
  assumes "token i" and "token secret"
  shows "trim_space (''tm_key_'' @ i @ ''.'' @ secret) = ''tm_key_'' @ i @ ''.'' @ secret"
    and "secretPublicID (''tm_key_'' @ i @ ''.'' @ secret) ''tm_key_'' = Some i"
proof -
  have "plain_char (CHR ''t'')" by code_simp
  then show "trim_space (''tm_key_'' @ i @ ''.'' @ secret) = ''tm_key_'' @ i @ ''.'' @ secret"
    using token_facts [OF assms(2)] by (intro trim_space_plain) simp_all
  show "secretPublicID (''tm_key_'' @ i @ ''.'' @ secret) ''tm_key_'' = Some i"
    using token_facts [OF assms(1)] token_facts [OF assms(2)] by (simp add: secretPublicID_def cut_prefix_def cut_at_append)
qed

end
