(* ===== verification/Credential_Store.thy ===== *)
theory Credential_Store
  imports Onprem_Secrets Sql_Transactions
begin

text \<open>
  Identities and credentials of the on-premises deployment: the contracts of \<open>internal/deployment/onprem/contracts.go\<close> and
  the PostgreSQL credential store (\<open>internal/platform/postgres/credentials.go\<close>) over the tables of the migrations
  \<open>015\<close>, \<open>016\<close>, \<open>017\<close> and \<open>019\<close>, with the columns that the store reads or writes, and their keys, references and
  checks.  Every statement may fail.  Three statements read a snapshot \<open>seen\<close> of their own, older than the
  rows they then change: the lookup before an exchange, which takes no lock, and the two updates that revoke the keys of a
  device, which may wait for rows that another transaction holds.
\<close>

section \<open>Contracts\<close>

definition LocalScopeID :: string where "LocalScopeID = ''local-team''"

definition ErrUnauthorized :: go_error where "ErrUnauthorized = Sentinel ''unauthorized''"
definition ErrForbidden :: go_error where "ErrForbidden = Sentinel ''forbidden''"
definition ErrEnrollmentInvalid :: go_error where "ErrEnrollmentInvalid = Sentinel ''enrollment is invalid or expired''"
definition ErrCredentialNotFound :: go_error where "ErrCredentialNotFound = Sentinel ''credential not found''"
definition ErrAgentIdentityConflict :: go_error where "ErrAgentIdentityConflict = Sentinel ''agent identity is ambiguous''"
definition ErrInvalidIdentityInput :: go_error where "ErrInvalidIdentityInput = Sentinel ''invalid identity or agent input''"
definition ErrAgentProvisionConflict :: go_error where "ErrAgentProvisionConflict = Sentinel ''agent is provisioned by another owner''"
definition ErrDeviceAgentLimitExceeded :: go_error where "ErrDeviceAgentLimitExceeded = Sentinel ''device active agent limit exceeded''"

lemmas onprem_errors = ErrUnauthorized_def ErrForbidden_def ErrEnrollmentInvalid_def ErrCredentialNotFound_def
  ErrAgentIdentityConflict_def ErrInvalidIdentityInput_def ErrAgentProvisionConflict_def ErrDeviceAgentLimitExceeded_def

definition PermissionAdmin :: string where "PermissionAdmin = ''admin''"
definition PermissionObserve :: string where "PermissionObserve = ''observe''"
definition PermissionSearch :: string where "PermissionSearch = ''search''"
definition PermissionGet :: string where "PermissionGet = ''get''"
definition PermissionChannelSend :: string where "PermissionChannelSend = ''channel_send''"
definition PermissionChannelReceive :: string where "PermissionChannelReceive = ''channel_receive''"
definition PermissionAgentProvision :: string where "PermissionAgentProvision = ''agent_provision''"

definition CredentialKindAgent :: string where "CredentialKindAgent = ''agent''"
definition CredentialKindDevice :: string where "CredentialKindDevice = ''device''"

definition AgentStatusActive :: string where "AgentStatusActive = ''active''"

record principal =
  pr_UserID :: string
  pr_MembershipID :: string
  pr_AgentID :: string
  pr_ScopeID :: string
  pr_CredentialID :: string
  pr_CredentialLabel :: string
  pr_Permissions :: "string list"
  pr_Kind :: string
  pr_GrantablePermissions :: "string list"

definition HasPermission :: "principal \<Rightarrow> string \<Rightarrow> bool" where
  "HasPermission p permission = list_ex (\<lambda>current. current = permission) (pr_Permissions p)"

record enrollment_record =
  nr_ID :: string
  nr_TokenDigest :: secret_digest
  nr_DigestKeyVersion :: int
  nr_UserID :: string
  nr_MembershipID :: string
  nr_AgentID :: string
  nr_CredentialLabel :: string
  nr_Permissions :: "string list"
  nr_CreatedAt :: time
  nr_ExpiresAt :: time
  nr_CredentialExpiresAt :: "time option"
  nr_ConsumedAt :: "time option"
  nr_AllowLegacyAgentCreation :: bool
  nr_Kind :: string
  nr_GrantablePermissions :: "string list"

record credential_record =
  kr_ID :: string
  kr_KeyDigest :: secret_digest
  kr_DigestKeyVersion :: int
  kr_UserID :: string
  kr_MembershipID :: string
  kr_AgentID :: string
  kr_Label :: string
  kr_Permissions :: "string list"
  kr_CreatedAt :: time
  kr_ExpiresAt :: "time option"
  kr_RevokedAt :: "time option"
  kr_LastUsedAt :: "time option"
  kr_RotatedFromCredentialID :: string
  kr_Kind :: string
  kr_ProvisionedBy :: string
  kr_GrantablePermissions :: "string list"

definition zeroCredential :: credential_record where
  "zeroCredential = \<lparr>kr_ID = [], kr_KeyDigest = replicate 32 0, kr_DigestKeyVersion = 0, kr_UserID = [], kr_MembershipID = [],
     kr_AgentID = [], kr_Label = [], kr_Permissions = [], kr_CreatedAt = 0, kr_ExpiresAt = None, kr_RevokedAt = None,
     kr_LastUsedAt = None, kr_RotatedFromCredentialID = [], kr_Kind = [], kr_ProvisionedBy = [], kr_GrantablePermissions = []\<rparr>"

record provision_outcome =
  po_RotatedFromCredentialID :: string
  po_AgentCreated :: bool

record device_provisioned_agent =
  dp_AgentID :: string
  dp_DisplayName :: string
  dp_AgentType :: string
  dp_AgentStatus :: string
  dp_CredentialID :: string
  dp_CreatedAt :: time
  dp_RevokedAt :: "time option"
  dp_LastUsedAt :: "time option"

record agent_profile =
  ap_AgentID :: string
  ap_OwnerMembershipID :: string
  ap_OwnerUserID :: string
  ap_DisplayName :: string
  ap_Description :: string
  ap_AgentType :: string
  ap_Status :: string
  ap_DirectoryVisible :: bool
  ap_CreatedAt :: time
  ap_UpdatedAt :: time
  ap_ResourceVersion :: int
  ap_ProvisionedBy :: string

section \<open>Tables\<close>

record user_row =
  us_DisplayName :: string
  us_IdentityStatus :: string
  us_CreatedAt :: time
  us_UpdatedAt :: time

record membership_row =
  mb_UserID :: string
  mb_Role :: string
  mb_Status :: string
  mb_JoinedAt :: time
  mb_UpdatedAt :: time

record agent_row =
  ag_OwnerMembershipID :: string
  ag_DisplayName :: string
  ag_Description :: string
  ag_AgentType :: string
  ag_Status :: string
  ag_DirectoryVisible :: bool
  ag_CreatedAt :: time
  ag_UpdatedAt :: time
  ag_ProvisionedBy :: "string option"

record identity_row =
  ir_UserID :: string
  ir_CreatedAt :: time

record enrollment_row =
  el_TokenDigest :: secret_digest
  el_DigestKeyVersion :: int
  el_UserID :: string
  el_MembershipID :: string
  el_AgentID :: string
  el_CredentialLabel :: string
  el_Permissions :: "string list"
  el_CreatedAt :: time
  el_ExpiresAt :: time
  el_CredentialExpiresAt :: "time option"
  el_ConsumedAt :: "time option"
  el_ConsumedCredentialID :: "string option"
  el_RevokedAt :: "time option"
  el_Kind :: string
  el_GrantablePermissions :: "string list"

record credential_row =
  cw_KeyDigest :: secret_digest
  cw_DigestKeyVersion :: int
  cw_UserID :: string
  cw_OwnerMembershipID :: string
  cw_AgentID :: string
  cw_Label :: string
  cw_Permissions :: "string list"
  cw_CreatedAt :: time
  cw_ExpiresAt :: "time option"
  cw_RevokedAt :: "time option"
  cw_LastUsedAt :: "time option"
  cw_RotatedFrom :: "string option"
  cw_Kind :: string
  cw_ProvisionedBy :: "string option"
  cw_GrantablePermissions :: "string list"

record audit_row =
  au_ActorKind :: string
  au_ActorUserID :: "string option"
  au_ActorMembershipID :: "string option"
  au_ActorAgentID :: "string option"
  au_ActorCredentialID :: "string option"
  au_Action :: string
  au_TargetKind :: string
  au_TargetID :: string
  au_OccurredAt :: time

record cred_db =
  cd_BootstrapClaimedAt :: "time option"
  cd_users :: "(string, user_row) gomap"
  cd_memberships :: "(string, membership_row) gomap"
  cd_agents :: "(string, agent_row) gomap"
  cd_identities :: "(string, identity_row) gomap"
  cd_enrollments :: "(string, enrollment_row) gomap"
  cd_credentials :: "(string, credential_row) gomap"
  cd_audit :: "audit_row list"

type_synonym 'a cred_tx = "(cred_db, 'a) sql"

text \<open>What the database server decides: failures, its collation, its function \<open>md5\<close>.\<close>

record cred_env =
  ce_fault :: db_fault
  ce_collation :: "string \<Rightarrow> string \<Rightarrow> bool"
  ce_md5 :: "string \<Rightarrow> string"

text \<open>\<open>btrim(s) = ''\<close>.\<close>

definition sql_blank :: "string \<Rightarrow> bool" where
  "sql_blank s = list_all (\<lambda>c. c = CHR '' '') s"

definition nullableText :: "string \<Rightarrow> string option" where
  "nullableText s = (if s = [] then None else Some s)"

definition coalesce :: "string option \<Rightarrow> string" where
  "coalesce s = (case s of None \<Rightarrow> [] | Some t \<Rightarrow> t)"

section \<open>Statements\<close>

definition insertEnrollmentRow :: "string \<Rightarrow> enrollment_row \<Rightarrow> unit cred_tx" where
  "insertEnrollmentRow i row db =
     (if sql_blank (el_UserID row) \<or> el_Kind row \<notin> {''agent'', ''device''} \<or> (el_Kind row \<noteq> ''device'' \<and> sql_blank (el_AgentID row))
      then Inl checkViolation
      else if mget (cd_enrollments db) i \<noteq> None \<or> list_ex (\<lambda>(_, r). el_TokenDigest r = el_TokenDigest row) (cd_enrollments db)
      then Inl uniqueViolation
      else if mget (cd_memberships db) (el_MembershipID row) = None then Inl foreignKeyViolation
      else Inr (db\<lparr>cd_enrollments := mput i row (cd_enrollments db)\<rparr>, ()))"

definition references :: "('k, 'v) gomap \<Rightarrow> 'k option \<Rightarrow> bool" where
  "references m k = (case k of None \<Rightarrow> True | Some x \<Rightarrow> mget m x \<noteq> None)"

definition insertCredentialRow :: "string \<Rightarrow> credential_row \<Rightarrow> unit cred_tx" where
  "insertCredentialRow i row db =
     (if sql_blank (cw_UserID row) \<or> cw_Kind row \<notin> {''agent'', ''device''} \<or> (cw_Kind row \<noteq> ''device'' \<and> sql_blank (cw_AgentID row))
      then Inl checkViolation
      else if mget (cd_credentials db) i \<noteq> None \<or> list_ex (\<lambda>(_, r). cw_KeyDigest r = cw_KeyDigest row) (cd_credentials db)
      then Inl uniqueViolation
      else if mget (cd_memberships db) (cw_OwnerMembershipID row) = None \<or> \<not> references (cd_credentials db) (cw_RotatedFrom row) \<or>
        \<not> references (cd_credentials db) (cw_ProvisionedBy row)
      then Inl foreignKeyViolation
      else Inr (db\<lparr>cd_credentials := mput i row (cd_credentials db)\<rparr>, ()))"

definition insertAgentRow :: "string \<Rightarrow> agent_row \<Rightarrow> unit cred_tx" where
  "insertAgentRow i row db =
     (if sql_blank i \<or> sql_blank (ag_DisplayName row) then Inl checkViolation
      else if mget (cd_agents db) i \<noteq> None then Inl uniqueViolation
      else if mget (cd_memberships db) (ag_OwnerMembershipID row) = None \<or> \<not> references (cd_credentials db) (ag_ProvisionedBy row)
      then Inl foreignKeyViolation
      else Inr (db\<lparr>cd_agents := mput i row (cd_agents db)\<rparr>, ()))"

text \<open>\<open>INSERT INTO onprem_agent_identities ... ON CONFLICT (agent_id) DO UPDATE ... WHERE user_id = EXCLUDED.user_id\<close>:
  whether a row is returned.\<close>

definition claimIdentity :: "string \<Rightarrow> string \<Rightarrow> time \<Rightarrow> bool cred_tx" where
  "claimIdentity agentID userID now db =
     (if sql_blank agentID \<or> sql_blank userID then Inl checkViolation
      else case mget (cd_identities db) agentID of
        None \<Rightarrow> Inr (db\<lparr>cd_identities := mput agentID \<lparr>ir_UserID = userID, ir_CreatedAt = pg_time now\<rparr> (cd_identities db)\<rparr>, True)
      | Some r \<Rightarrow> Inr (db, ir_UserID r = userID))"

definition insertAuditRow :: "audit_row \<Rightarrow> unit cred_tx" where
  "insertAuditRow row db =
     (if au_ActorKind row \<notin> {''bootstrap'', ''human'', ''agent'', ''device'', ''system''} \<or> sql_blank (au_Action row) \<or>
        sql_blank (au_TargetKind row) \<or> sql_blank (au_TargetID row)
      then Inl checkViolation else Inr (db\<lparr>cd_audit := cd_audit db @ [row]\<rparr>, ()))"

definition insertAuditEvent ::
  "cred_env \<Rightarrow> string \<Rightarrow> string \<Rightarrow> string \<Rightarrow> string \<Rightarrow> string \<Rightarrow> string \<Rightarrow> string \<Rightarrow> string \<Rightarrow> time \<Rightarrow> unit cred_tx" where
  "insertAuditEvent E actorKind userID membershipID agentID credentialID action targetKind targetID now =
     statement (ce_fault E) ''save on-prem audit event'' targetID
       (insertAuditRow \<lparr>au_ActorKind = actorKind, au_ActorUserID = nullableText userID, au_ActorMembershipID = nullableText membershipID,
          au_ActorAgentID = nullableText agentID, au_ActorCredentialID = nullableText credentialID, au_Action = action,
          au_TargetKind = targetKind, au_TargetID = targetID, au_OccurredAt = pg_time now\<rparr>)"

text \<open>A query that may find no row, and its row.\<close>

definition query :: "cred_env \<Rightarrow> string \<Rightarrow> (cred_db \<Rightarrow> 'a option) \<Rightarrow> go_error \<Rightarrow> 'a cred_tx" where
  "query E message select absent =
     tx_bind (statement (ce_fault E) message [] (\<lambda>db. Inr (db, select db)))
       (\<lambda>row. case row of None \<Rightarrow> tx_fail absent | Some r \<Rightarrow> tx_return r)"

definition require :: "cred_env \<Rightarrow> string \<Rightarrow> (cred_db \<Rightarrow> bool) \<Rightarrow> go_error \<Rightarrow> unit cred_tx" where
  "require E message select absent = query E message (\<lambda>db. if select db then Some () else None) absent"

text \<open>\<open>UPDATE agent_credentials SET ... WHERE ...\<close>.\<close>

definition updateCredentials :: "(string \<times> credential_row \<Rightarrow> bool) \<Rightarrow> (credential_row \<Rightarrow> credential_row) \<Rightarrow> cred_db \<Rightarrow> cred_db" where
  "updateCredentials P f db =
     db\<lparr>cd_credentials := map (\<lambda>(i, row). (i, if P (i, row) then f row else row)) (cd_credentials db)\<rparr>"

definition revoked :: "time \<Rightarrow> credential_row \<Rightarrow> credential_row" where
  "revoked now row = row\<lparr>cw_RevokedAt := Some (pg_time now)\<rparr>"

text \<open>A live membership of a user whose identity is not disabled; an active agent of a membership.\<close>

definition activeOwner :: "cred_db \<Rightarrow> string \<Rightarrow> bool" where
  "activeOwner db membershipID =
     (case mget (cd_memberships db) membershipID of
        None \<Rightarrow> False
      | Some m \<Rightarrow> mb_Status m = ''active'' \<and>
          (case mget (cd_users db) (mb_UserID m) of
             None \<Rightarrow> False
           | Some u \<Rightarrow> us_IdentityStatus u \<in> {''active'', ''unclaimed''}))"

definition activeAgent :: "cred_db \<Rightarrow> string \<Rightarrow> string \<Rightarrow> bool" where
  "activeAgent db agentID membershipID =
     (case mget (cd_agents db) agentID of
        None \<Rightarrow> False
      | Some a \<Rightarrow> ag_OwnerMembershipID a = membershipID \<and> ag_Status a = ''active'')"

section \<open>Enrollments\<close>

definition LegacyAdminEnabled :: "cred_env \<Rightarrow> cred_db \<Rightarrow> bool res" where
  "LegacyAdminEnabled E db =
     (case ce_fault E ''check postgres legacy admin state'' of
        Some e \<Rightarrow> Inl (wrapf ''check postgres legacy admin state: '' e)
      | None \<Rightarrow> Inr (cd_BootstrapClaimedAt db = None))"

definition resolveLegacyAgentOwner :: "cred_env \<Rightarrow> string \<Rightarrow> string \<Rightarrow> string cred_tx" where
  "resolveLegacyAgentOwner E userID agentID =
     query E ''resolve legacy agent owner''
       (\<lambda>db. case mget (cd_agents db) agentID of
          None \<Rightarrow> None
        | Some a \<Rightarrow>
            (case mget (cd_memberships db) (ag_OwnerMembershipID a) of
               None \<Rightarrow> None
             | Some m \<Rightarrow> if mb_UserID m = userID \<and> ag_Status a = ''active'' \<and> mb_Status m = ''active''
                         then Some (ag_OwnerMembershipID a) else None))
       ErrAgentIdentityConflict"

definition insertUserRow :: "string \<Rightarrow> user_row \<Rightarrow> unit cred_tx" where
  "insertUserRow i row db =
     (if sql_blank i then Inl checkViolation
      else if mget (cd_users db) i \<noteq> None then Inr (db, ())
      else Inr (db\<lparr>cd_users := mput i row (cd_users db)\<rparr>, ()))"

definition liveMembership :: "cred_db \<Rightarrow> string \<Rightarrow> string option" where
  "liveMembership db userID =
     map_option fst (find (\<lambda>(_, m). mb_UserID m = userID \<and> mb_Status m \<in> {''active'', ''suspended''}) (cd_memberships db))"

definition insertMembershipRow :: "string \<Rightarrow> membership_row \<Rightarrow> unit cred_tx" where
  "insertMembershipRow i row db =
     (if mget (cd_memberships db) i \<noteq> None \<or> liveMembership db (mb_UserID row) \<noteq> None then Inl uniqueViolation
      else if mget (cd_users db) (mb_UserID row) = None then Inl foreignKeyViolation
      else Inr (db\<lparr>cd_memberships := mput i row (cd_memberships db)\<rparr>, ()))"

definition claimAgent :: "string \<Rightarrow> agent_row \<Rightarrow> string option cred_tx" where
  "claimAgent i row db =
     (case mget (cd_agents db) i of
        None \<Rightarrow> (case insertAgentRow i row db of Inl e \<Rightarrow> Inl e | Inr (db', _) \<Rightarrow> Inr (db', Some (ag_OwnerMembershipID row)))
      | Some a \<Rightarrow> if sql_blank i then Inl checkViolation
          else Inr (db, if ag_OwnerMembershipID a = ag_OwnerMembershipID row then Some (ag_OwnerMembershipID a) else None))"

definition ensureLegacyAgent :: "cred_env \<Rightarrow> string \<Rightarrow> string \<Rightarrow> time \<Rightarrow> string cred_tx" where
  "ensureLegacyAgent E userID agentID now =
     tx_bind (statement (ce_fault E) ''ensure legacy on-prem user'' []
         (insertUserRow userID \<lparr>us_DisplayName = userID, us_IdentityStatus = ''unclaimed'', us_CreatedAt = pg_time now, us_UpdatedAt = pg_time now\<rparr>))
       (\<lambda>_. tx_bind (statement (ce_fault E) ''ensure legacy on-prem membership'' [] (\<lambda>db. Inr (db, liveMembership db userID)))
       (\<lambda>live. tx_bind (case live of
            Some m \<Rightarrow> tx_return m
          | None \<Rightarrow>
              let membershipID = ''legacy-membership-'' @ ce_md5 E userID in
              tx_bind (statement (ce_fault E) ''ensure legacy on-prem membership'' membershipID
                (insertMembershipRow membershipID \<lparr>mb_UserID = userID, mb_Role = ''member'', mb_Status = ''active'',
                   mb_JoinedAt = pg_time now, mb_UpdatedAt = pg_time now\<rparr>))
              (\<lambda>_. tx_return membershipID))
       (\<lambda>membershipID. tx_bind (statement (ce_fault E) ''ensure legacy on-prem agent'' []
           (claimAgent agentID \<lparr>ag_OwnerMembershipID = membershipID, ag_DisplayName = agentID, ag_Description = [], ag_AgentType = [],
              ag_Status = ''active'', ag_DirectoryVisible = True, ag_CreatedAt = pg_time now, ag_UpdatedAt = pg_time now, ag_ProvisionedBy = None\<rparr>))
       (\<lambda>claimed. case claimed of
            None \<Rightarrow> tx_fail ErrAgentIdentityConflict
          | Some claimedMembershipID \<Rightarrow>
              tx_bind (statement (ce_fault E) ''ensure legacy channel identity'' [] (claimIdentity agentID userID now))
              (\<lambda>_. tx_return claimedMembershipID)))))"

definition enrollmentRow :: "enrollment_record \<Rightarrow> string \<Rightarrow> enrollment_row" where
  "enrollmentRow record membershipID =
     \<lparr>el_TokenDigest = nr_TokenDigest record, el_DigestKeyVersion = nr_DigestKeyVersion record, el_UserID = nr_UserID record,
      el_MembershipID = membershipID, el_AgentID = nr_AgentID record, el_CredentialLabel = nr_CredentialLabel record,
      el_Permissions = nr_Permissions record, el_CreatedAt = pg_time (nr_CreatedAt record), el_ExpiresAt = pg_time (nr_ExpiresAt record),
      el_CredentialExpiresAt = map_option pg_time (nr_CredentialExpiresAt record), el_ConsumedAt = None, el_ConsumedCredentialID = None,
      el_RevokedAt = None, el_Kind = ''agent'', el_GrantablePermissions = []\<rparr>"

definition saveEnrollmentTx :: "cred_env \<Rightarrow> enrollment_record \<Rightarrow> unit cred_tx" where
  "saveEnrollmentTx E record =
     tx_bind (if nr_AllowLegacyAgentCreation record
         then ensureLegacyAgent E (nr_UserID record) (nr_AgentID record) (nr_CreatedAt record)
         else resolveLegacyAgentOwner E (nr_UserID record) (nr_AgentID record))
       (\<lambda>membershipID. tx_bind (statement (ce_fault E) ''save postgres agent enrollment'' []
           (insertEnrollmentRow (nr_ID record) (enrollmentRow record membershipID)))
       (\<lambda>_. insertAuditEvent E ''system'' (nr_UserID record) membershipID [] [] ''identity.legacy-admin-enrollment.created''
          ''enrollment'' (nr_ID record) (nr_CreatedAt record)))"

definition SaveEnrollment :: "cred_env \<Rightarrow> cred_db \<Rightarrow> enrollment_record \<Rightarrow> cred_db \<times> unit res" where
  "SaveEnrollment E db record =
     transaction (ce_fault E) ''begin legacy enrollment'' ''rollback legacy enrollment'' ''commit legacy enrollment''
       (saveEnrollmentTx E record) db"

text \<open>The enrollments a token opens.\<close>

definition openEnrollment :: "string \<Rightarrow> secret_digest \<Rightarrow> time \<Rightarrow> string \<times> enrollment_row \<Rightarrow> bool" where
  "openEnrollment enrollmentID dg now er =
     (case er of (i, row) \<Rightarrow>
        el_TokenDigest row = dg \<and> (enrollmentID = [] \<or> i = enrollmentID) \<and> el_ConsumedAt row = None \<and> el_RevokedAt row = None \<and>
        pg_time now < el_ExpiresAt row)"

definition lockEnrollmentExchangeOwner ::
  "cred_env \<Rightarrow> cred_db \<Rightarrow> string \<Rightarrow> secret_digest \<Rightarrow> time \<Rightarrow> (string \<times> string \<times> string) cred_tx" where
  "lockEnrollmentExchangeOwner E seen enrollmentID dg now =
     tx_bind (query E ''resolve enrollment owner before exchange''
         (\<lambda>_. map_option snd (find (openEnrollment enrollmentID dg now) (cd_enrollments seen))) ErrEnrollmentInvalid)
       (\<lambda>row. tx_bind (require E ''lock enrollment membership before exchange'' (\<lambda>db. activeOwner db (el_MembershipID row)) ErrEnrollmentInvalid)
       (\<lambda>_. if el_Kind row = CredentialKindDevice then tx_return (el_MembershipID row, el_AgentID row, el_Kind row)
            else tx_bind (require E ''lock enrollment agent before exchange''
                (\<lambda>db. activeAgent db (el_AgentID row) (el_MembershipID row)) ErrEnrollmentInvalid)
              (\<lambda>_. tx_return (el_MembershipID row, el_AgentID row, el_Kind row))))"

text \<open>\<open>UPDATE agent_enrollments SET consumed_at, consumed_credential_id WHERE ... RETURNING ...\<close>.\<close>

definition consumeEnrollment ::
  "string \<Rightarrow> secret_digest \<Rightarrow> time \<Rightarrow> string \<Rightarrow> string \<Rightarrow> string \<Rightarrow> (string \<times> enrollment_row) option cred_tx" where
  "consumeEnrollment enrollmentID dg now credentialID membershipID agentID db =
     (case find (\<lambda>er. openEnrollment enrollmentID dg now er \<and> el_MembershipID (snd er) = membershipID \<and> el_AgentID (snd er) = agentID)
             (cd_enrollments db) of
        None \<Rightarrow> Inr (db, None)
      | Some (i, row) \<Rightarrow>
          let row' = row\<lparr>el_ConsumedAt := Some (pg_time now), el_ConsumedCredentialID := Some credentialID\<rparr> in
          Inr (db\<lparr>cd_enrollments := mput i row' (cd_enrollments db)\<rparr>, Some (i, row')))"

definition enrollmentOf :: "secret_digest \<Rightarrow> string \<times> enrollment_row \<Rightarrow> enrollment_record" where
  "enrollmentOf dg er =
     (case er of (i, row) \<Rightarrow>
        \<lparr>nr_ID = i, nr_TokenDigest = dg, nr_DigestKeyVersion = 0, nr_UserID = el_UserID row, nr_MembershipID = el_MembershipID row,
         nr_AgentID = el_AgentID row, nr_CredentialLabel = el_CredentialLabel row, nr_Permissions = el_Permissions row,
         nr_CreatedAt = el_CreatedAt row, nr_ExpiresAt = el_ExpiresAt row, nr_CredentialExpiresAt = el_CredentialExpiresAt row,
         nr_ConsumedAt = el_ConsumedAt row, nr_AllowLegacyAgentCreation = False, nr_Kind = el_Kind row,
         nr_GrantablePermissions = el_GrantablePermissions row\<rparr>)"

definition credentialKindOrDefault :: "string \<Rightarrow> string" where
  "credentialKindOrDefault kind = (if kind = [] then CredentialKindAgent else kind)"

definition credentialRow :: "credential_record \<Rightarrow> string \<Rightarrow> credential_row" where
  "credentialRow c provisionedBy =
     \<lparr>cw_KeyDigest = kr_KeyDigest c, cw_DigestKeyVersion = kr_DigestKeyVersion c, cw_UserID = kr_UserID c,
      cw_OwnerMembershipID = kr_MembershipID c, cw_AgentID = kr_AgentID c, cw_Label = kr_Label c, cw_Permissions = kr_Permissions c,
      cw_CreatedAt = pg_time (kr_CreatedAt c), cw_ExpiresAt = map_option pg_time (kr_ExpiresAt c), cw_RevokedAt = None,
      cw_LastUsedAt = None, cw_RotatedFrom = nullableText (kr_RotatedFromCredentialID c),
      cw_Kind = credentialKindOrDefault (kr_Kind c), cw_ProvisionedBy = nullableText provisionedBy,
      cw_GrantablePermissions = kr_GrantablePermissions c\<rparr>"

definition exchangeEnrollmentTx ::
  "cred_env \<Rightarrow> cred_db \<Rightarrow> string \<Rightarrow> secret_digest \<Rightarrow> credential_record \<Rightarrow> time \<Rightarrow> enrollment_record cred_tx" where
  "exchangeEnrollmentTx E seen enrollmentID dg credential now =
     tx_bind (lockEnrollmentExchangeOwner E seen enrollmentID dg now)
       (\<lambda>(membershipID, agentID, kind). tx_bind (statement (ce_fault E) ''consume postgres agent enrollment'' []
           (consumeEnrollment enrollmentID dg now (kr_ID credential) membershipID agentID))
       (\<lambda>consumed. case consumed of
          None \<Rightarrow> tx_fail ErrEnrollmentInvalid
        | Some er \<Rightarrow>
            let enrollment = enrollmentOf dg er;
                c = credential\<lparr>kr_UserID := nr_UserID enrollment, kr_MembershipID := nr_MembershipID enrollment,
                      kr_AgentID := nr_AgentID enrollment, kr_Label := nr_CredentialLabel enrollment,
                      kr_Permissions := nr_Permissions enrollment, kr_ExpiresAt := nr_CredentialExpiresAt enrollment,
                      kr_Kind := nr_Kind enrollment, kr_GrantablePermissions := nr_GrantablePermissions enrollment\<rparr>;
                isDevice = (kind = CredentialKindDevice)
            in tx_bind (if isDevice then tx_return True
                 else statement (ce_fault E) ''claim postgres agent identity'' [] (claimIdentity (kr_AgentID c) (kr_UserID c) (kr_CreatedAt c)))
               (\<lambda>claimed. if \<not> claimed then tx_fail ErrAgentIdentityConflict else
                tx_bind (statement (ce_fault E) ''save exchanged agent credential'' []
                  (insertCredentialRow (kr_ID c) (credentialRow c (kr_ProvisionedBy c))))
               (\<lambda>_. tx_bind (insertAuditEvent E (if isDevice then ''device'' else ''agent'') (kr_UserID c) (kr_MembershipID c) (kr_AgentID c)
                  (kr_ID c) ''identity.credential.issued'' ''credential'' (kr_ID c) now)
               (\<lambda>_. tx_return enrollment)))))"

text \<open>The reference of the consumed enrollment to its credential is checked when the transaction commits, with the
  credential in place.\<close>

definition storeExchangeEnrollment ::
  "cred_env \<Rightarrow> cred_db \<Rightarrow> cred_db \<Rightarrow> string \<Rightarrow> secret_digest \<Rightarrow> credential_record \<Rightarrow> time \<Rightarrow> cred_db \<times> enrollment_record res" where
  "storeExchangeEnrollment E seen db enrollmentID dg credential now =
     transaction (ce_fault E) ''begin enrollment exchange'' ''rollback enrollment exchange'' ''commit enrollment exchange''
       (exchangeEnrollmentTx E seen enrollmentID dg credential now) db"

section \<open>Credentials\<close>

text \<open>The \<open>WHERE\<close> clause that authenticates a key.\<close>

definition resolvable :: "cred_db \<Rightarrow> string \<Rightarrow> secret_digest \<Rightarrow> time \<Rightarrow> string \<times> credential_row \<Rightarrow> bool" where
  "resolvable db credentialID dg now cr =
     (case cr of (i, row) \<Rightarrow>
        (credentialID = [] \<or> i = credentialID) \<and> cw_KeyDigest row = dg \<and>
        (case mget (cd_memberships db) (cw_OwnerMembershipID row) of None \<Rightarrow> False | Some m \<Rightarrow> cw_UserID row = mb_UserID m) \<and>
        activeOwner db (cw_OwnerMembershipID row) \<and> cw_RevokedAt row = None \<and>
        (case cw_ExpiresAt row of None \<Rightarrow> True | Some t \<Rightarrow> pg_time now < t) \<and>
        (cw_Kind row = ''device'' \<or> activeAgent db (cw_AgentID row) (cw_OwnerMembershipID row)))"

definition credentialOf :: "string \<times> credential_row \<Rightarrow> credential_record" where
  "credentialOf cr =
     (case cr of (i, row) \<Rightarrow>
        \<lparr>kr_ID = i, kr_KeyDigest = cw_KeyDigest row, kr_DigestKeyVersion = 0, kr_UserID = cw_UserID row,
         kr_MembershipID = cw_OwnerMembershipID row, kr_AgentID = cw_AgentID row, kr_Label = cw_Label row,
         kr_Permissions = cw_Permissions row, kr_CreatedAt = cw_CreatedAt row, kr_ExpiresAt = cw_ExpiresAt row,
         kr_RevokedAt = cw_RevokedAt row, kr_LastUsedAt = cw_LastUsedAt row, kr_RotatedFromCredentialID = coalesce (cw_RotatedFrom row),
         kr_Kind = cw_Kind row, kr_ProvisionedBy = coalesce (cw_ProvisionedBy row), kr_GrantablePermissions = cw_GrantablePermissions row\<rparr>)"

definition ResolveCredential :: "cred_env \<Rightarrow> cred_db \<Rightarrow> string \<Rightarrow> secret_digest \<Rightarrow> time \<Rightarrow> cred_db \<times> credential_record res" where
  "ResolveCredential E db credentialID dg now =
     autocommit (tx_bind (statement (ce_fault E) ''resolve postgres agent credential'' []
         (\<lambda>db. case find (resolvable db credentialID dg now) (cd_credentials db) of
            None \<Rightarrow> Inr (db, None)
          | Some (i, row) \<Rightarrow>
              let row' = row\<lparr>cw_LastUsedAt := Some (pg_time now)\<rparr> in
              Inr (db\<lparr>cd_credentials := mput i row' (cd_credentials db)\<rparr>, Some (i, row'))))
       (\<lambda>found. case found of None \<Rightarrow> tx_fail ErrUnauthorized | Some cr \<Rightarrow> tx_return (credentialOf cr))) db"

definition expireAt :: "time \<Rightarrow> credential_row \<Rightarrow> credential_row" where
  "expireAt overlapUntil row =
     row\<lparr>cw_ExpiresAt := (case cw_ExpiresAt row of
        None \<Rightarrow> Some (pg_time overlapUntil)
      | Some t \<Rightarrow> Some (if pg_time overlapUntil < t then pg_time overlapUntil else t))\<rparr>"

definition rotateCredentialTx :: "cred_env \<Rightarrow> string \<Rightarrow> credential_record \<Rightarrow> time \<Rightarrow> unit cred_tx" where
  "rotateCredentialTx E currentID replacement overlapUntil =
     tx_bind (statement (ce_fault E) ''expire rotated agent credential'' []
         (\<lambda>db. case mget (cd_credentials db) currentID of
            None \<Rightarrow> Inr (db, None)
          | Some row \<Rightarrow>
              if cw_RevokedAt row \<noteq> None then Inr (db, None)
              else Inr (db\<lparr>cd_credentials := mput currentID (expireAt overlapUntil row) (cd_credentials db)\<rparr>, Some row)))
       (\<lambda>current. case current of
          None \<Rightarrow> tx_fail ErrUnauthorized
        | Some row \<Rightarrow>
            if cw_Kind row = CredentialKindDevice then tx_fail ErrForbidden
            else tx_bind (statement (ce_fault E) ''save rotated agent credential'' []
                (insertCredentialRow (kr_ID replacement) (credentialRow replacement (coalesce (cw_ProvisionedBy row)))))
              (\<lambda>_. insertAuditEvent E ''agent'' (kr_UserID replacement) (kr_MembershipID replacement) (kr_AgentID replacement) currentID
                 ''identity.credential.rotated'' ''credential'' (kr_ID replacement) (kr_CreatedAt replacement)))"

definition storeRotateCredential :: "cred_env \<Rightarrow> cred_db \<Rightarrow> string \<Rightarrow> credential_record \<Rightarrow> time \<Rightarrow> cred_db \<times> unit res" where
  "storeRotateCredential E db currentID replacement overlapUntil =
     transaction (ce_fault E) ''begin credential rotation'' ''rollback credential rotation'' ''commit credential rotation''
       (rotateCredentialTx E currentID replacement overlapUntil) db"

section \<open>Devices\<close>

definition lockProvisioningDevice :: "cred_env \<Rightarrow> string \<Rightarrow> time \<Rightarrow> string cred_tx" where
  "lockProvisioningDevice E deviceCredentialID now =
     query E ''lock device credential for provisioning''
       (\<lambda>db. case mget (cd_credentials db) deviceCredentialID of
          None \<Rightarrow> None
        | Some row \<Rightarrow>
            if cw_Kind row = ''device'' \<and> cw_RevokedAt row = None \<and>
              (case cw_ExpiresAt row of None \<Rightarrow> True | Some t \<Rightarrow> pg_time now < t)
            then Some (cw_OwnerMembershipID row) else None)
       ErrUnauthorized"

definition lockProvisioningDeviceOwner :: "cred_env \<Rightarrow> string \<Rightarrow> unit cred_tx" where
  "lockProvisioningDeviceOwner E membershipID =
     require E ''lock device membership for provisioning'' (\<lambda>db. activeOwner db membershipID) ErrUnauthorized"

definition createProvisionedAgent :: "cred_env \<Rightarrow> string \<Rightarrow> agent_profile \<Rightarrow> time \<Rightarrow> unit cred_tx" where
  "createProvisionedAgent E deviceCredentialID profile now =
     tx_bind (statement (ce_fault E) ''claim device-provisioned agent identity'' []
         (claimIdentity (ap_AgentID profile) (ap_OwnerUserID profile) now))
       (\<lambda>claimed. if \<not> claimed then tx_fail ErrAgentProvisionConflict else
        tx_bind (statement (ce_fault E) ''create device-provisioned agent'' []
          (insertAgentRow (ap_AgentID profile) \<lparr>ag_OwnerMembershipID = ap_OwnerMembershipID profile, ag_DisplayName = ap_DisplayName profile,
             ag_Description = ap_Description profile, ag_AgentType = ap_AgentType profile, ag_Status = ''active'', ag_DirectoryVisible = True,
             ag_CreatedAt = pg_time now, ag_UpdatedAt = pg_time now, ag_ProvisionedBy = Some deviceCredentialID\<rparr>))
       (\<lambda>_. insertAuditEvent E ''device'' (ap_OwnerUserID profile) (ap_OwnerMembershipID profile) [] deviceCredentialID
          ''identity.agent.created'' ''agent'' (ap_AgentID profile) now))"

fun auditRevocations :: "(string \<Rightarrow> unit cred_tx) \<Rightarrow> string list \<Rightarrow> unit cred_tx" where
  "auditRevocations audit [] = tx_return ()"
| "auditRevocations audit (i # is) = tx_bind (audit i) (\<lambda>_. auditRevocations audit is)"

definition provisionedFor :: "string \<Rightarrow> string \<Rightarrow> string \<times> credential_row \<Rightarrow> bool" where
  "provisionedFor deviceCredentialID agentID cr \<longleftrightarrow>
     cw_AgentID (snd cr) = agentID \<and> cw_ProvisionedBy (snd cr) = Some deviceCredentialID \<and> cw_RevokedAt (snd cr) = None"

definition revokeRotatedProvisionedCredentials :: "cred_env \<Rightarrow> cred_db \<Rightarrow> string \<Rightarrow> agent_profile \<Rightarrow> time \<Rightarrow> string cred_tx" where
  "revokeRotatedProvisionedCredentials E seen deviceCredentialID profile now =
     tx_bind (statement (ce_fault E) ''revoke rotated device-provisioned credentials'' []
         (\<lambda>db. let match = (\<lambda>cr. provisionedFor deviceCredentialID (ap_AgentID profile) cr \<and>
                 fst cr \<in> set (map fst (filter (provisionedFor deviceCredentialID (ap_AgentID profile)) (cd_credentials seen)))) in
            Inr (updateCredentials match (revoked now) db,
              map fst (sort_by (\<lambda>x y. cw_CreatedAt (snd y) < cw_CreatedAt (snd x)) (filter match (cd_credentials db))))))
       (\<lambda>revokedIDs. tx_bind (statement (ce_fault E) ''collect rotated device-provisioned credentials'' [] (tx_return ()))
       (\<lambda>_. tx_bind (auditRevocations (\<lambda>i. insertAuditEvent E ''device'' (ap_OwnerUserID profile) (ap_OwnerMembershipID profile)
           (ap_AgentID profile) deviceCredentialID ''identity.credential.revoked'' ''credential'' i now) revokedIDs)
       (\<lambda>_. tx_return (case revokedIDs of [] \<Rightarrow> [] | i # _ \<Rightarrow> i))))"

text \<open>\<open>SELECT count(DISTINCT agent_id) ... WHERE provisioned_by = $1 AND revoked_at IS NULL AND agent_id <> $2\<close>.\<close>

definition activeAgents :: "cred_db \<Rightarrow> string \<Rightarrow> string set" where
  "activeAgents db deviceCredentialID =
     set (map (\<lambda>cr. cw_AgentID (snd cr)) (filter (\<lambda>(_, row). cw_ProvisionedBy row = Some deviceCredentialID \<and> cw_RevokedAt row = None) (cd_credentials db)))"

definition provisionTx ::
  "cred_env \<Rightarrow> cred_db \<Rightarrow> string \<Rightarrow> agent_profile \<Rightarrow> credential_record \<Rightarrow> int \<Rightarrow> time \<Rightarrow> provision_outcome cred_tx" where
  "provisionTx E seen deviceCredentialID profile credential activeAgentLimit now =
     tx_bind (lockProvisioningDevice E deviceCredentialID now)
       (\<lambda>deviceMembershipID. tx_bind (lockProvisioningDeviceOwner E deviceMembershipID)
       (\<lambda>_. tx_bind (statement (ce_fault E) ''resolve agent for device provisioning'' [] (\<lambda>db. Inr (db, mget (cd_agents db) (ap_AgentID profile))))
       (\<lambda>existing. tx_bind (case existing of
            None \<Rightarrow> tx_bind (createProvisionedAgent E deviceCredentialID profile now)
              (\<lambda>_. tx_return \<lparr>po_RotatedFromCredentialID = [], po_AgentCreated = True\<rparr>)
          | Some a \<Rightarrow>
              if coalesce (ag_ProvisionedBy a) = deviceCredentialID \<and> ag_Status a = AgentStatusActive
              then tx_bind (revokeRotatedProvisionedCredentials E seen deviceCredentialID profile now)
                     (\<lambda>rotatedFrom. tx_return \<lparr>po_RotatedFromCredentialID = rotatedFrom, po_AgentCreated = False\<rparr>)
              else tx_fail ErrAgentProvisionConflict)
       (\<lambda>outcome. tx_bind (statement (ce_fault E) ''count device-provisioned agents'' []
           (\<lambda>db. Inr (db, int (card (activeAgents db deviceCredentialID - {ap_AgentID profile})))))
       (\<lambda>activeCount. if activeAgentLimit \<le> activeCount then tx_fail ErrDeviceAgentLimitExceeded else
        tx_bind (statement (ce_fault E) ''save device-provisioned agent credential'' []
          (insertCredentialRow (kr_ID credential) (credentialRow credential (kr_ProvisionedBy credential))))
       (\<lambda>_. tx_bind (insertAuditEvent E ''device'' (ap_OwnerUserID profile) (ap_OwnerMembershipID profile) (ap_AgentID profile)
           deviceCredentialID ''identity.agent.provisioned'' ''credential'' (kr_ID credential) now)
       (\<lambda>_. tx_bind (insertAuditEvent E ''device'' (kr_UserID credential) (kr_MembershipID credential) (kr_AgentID credential)
           deviceCredentialID ''identity.credential.issued'' ''credential'' (kr_ID credential) now)
       (\<lambda>_. tx_return outcome))))))))"

definition ProvisionAgentCredential ::
  "cred_env \<Rightarrow> cred_db \<Rightarrow> cred_db \<Rightarrow> string \<Rightarrow> agent_profile \<Rightarrow> credential_record \<Rightarrow> int \<Rightarrow> time \<Rightarrow> cred_db \<times> provision_outcome res" where
  "ProvisionAgentCredential E seen db deviceCredentialID profile credential activeAgentLimit now =
     transaction (ce_fault E) ''begin device agent provisioning'' ''rollback device agent provisioning'' ''commit device agent provisioning''
       (provisionTx E seen deviceCredentialID profile credential activeAgentLimit now) db"

definition listDeviceProvisionedAgents :: "cred_env \<Rightarrow> cred_db \<Rightarrow> string \<Rightarrow> device_provisioned_agent list res" where
  "listDeviceProvisionedAgents E db deviceCredentialID =
     (let joined = concat (map (\<lambda>(i, row). case mget (cd_agents db) (cw_AgentID row) of
            None \<Rightarrow> []
          | Some a \<Rightarrow> if cw_ProvisionedBy row = Some deviceCredentialID
              then [\<lparr>dp_AgentID = cw_AgentID row, dp_DisplayName = ag_DisplayName a, dp_AgentType = ag_AgentType a,
                     dp_AgentStatus = ag_Status a, dp_CredentialID = i, dp_CreatedAt = cw_CreatedAt row,
                     dp_RevokedAt = cw_RevokedAt row, dp_LastUsedAt = cw_LastUsedAt row\<rparr>]
              else []) (cd_credentials db));
          before = (\<lambda>x y. if dp_AgentID x \<noteq> dp_AgentID y then ce_collation E (dp_AgentID x) (dp_AgentID y) else dp_CreatedAt y < dp_CreatedAt x)
      in case ce_fault E ''list postgres device-provisioned agents'' of
           Some e \<Rightarrow> Inl (wrapf ''list postgres device-provisioned agents: '' e)
         | None \<Rightarrow>
         case (if joined = [] then None else ce_fault E ''scan postgres device-provisioned agent'') of
           Some e \<Rightarrow> Inl (wrapf ''scan postgres device-provisioned agent: '' e)
         | None \<Rightarrow>
         case ce_fault E ''iterate postgres device-provisioned agents'' of
           Some e \<Rightarrow> Inl (wrapf ''iterate postgres device-provisioned agents: '' e)
         | None \<Rightarrow> Inr (sort_by before joined))"

section \<open>Revocation\<close>

definition provisionedBy :: "string \<Rightarrow> string \<times> credential_row \<Rightarrow> bool" where
  "provisionedBy deviceCredentialID cr \<longleftrightarrow> cw_ProvisionedBy (snd cr) = Some deviceCredentialID \<and> cw_RevokedAt (snd cr) = None"

text \<open>The cascade revokes the rows of its snapshot that are still to be revoked when it reaches them.\<close>

definition cascadeRevokeProvisionedCredentials :: "cred_env \<Rightarrow> cred_db \<Rightarrow> string \<Rightarrow> time \<Rightarrow> int cred_tx" where
  "cascadeRevokeProvisionedCredentials E seen deviceCredentialID now =
     tx_bind (statement (ce_fault E) ''cascade revoke provisioned credentials'' []
         (\<lambda>db. let match = (\<lambda>cr. provisionedBy deviceCredentialID cr \<and>
                 fst cr \<in> set (map fst (filter (provisionedBy deviceCredentialID) (cd_credentials seen)))) in
            Inr (updateCredentials match (revoked now) db, filter match (cd_credentials db))))
       (\<lambda>rows. tx_bind (if rows = [] then tx_return () else statement (ce_fault E) ''scan cascade-revoked credential'' [] (tx_return ()))
       (\<lambda>_. tx_bind (statement (ce_fault E) ''iterate cascade-revoked credentials'' [] (tx_return ()))
       (\<lambda>_. tx_bind (auditRevocations (\<lambda>i. case mget rows i of
            None \<Rightarrow> tx_return ()
          | Some row \<Rightarrow> insertAuditEvent E ''system'' (cw_UserID row) (cw_OwnerMembershipID row) (cw_AgentID row) deviceCredentialID
              ''identity.credential.revoked'' ''credential'' i now) (map fst rows))
       (\<lambda>_. tx_return (int (length rows))))))"

definition revokeCredentialTx :: "cred_env \<Rightarrow> cred_db \<Rightarrow> string \<Rightarrow> time \<Rightarrow> unit cred_tx" where
  "revokeCredentialTx E seen credentialID now =
     tx_bind (statement (ce_fault E) ''revoke postgres agent credential'' []
         (\<lambda>db. case mget (cd_credentials db) credentialID of
            None \<Rightarrow> Inr (db, None)
          | Some row \<Rightarrow>
              if cw_RevokedAt row \<noteq> None then Inr (db, None)
              else Inr (db\<lparr>cd_credentials := mput credentialID (revoked now row) (cd_credentials db)\<rparr>, Some (cw_Kind row))))
       (\<lambda>kind. case kind of
          None \<Rightarrow> tx_fail ErrCredentialNotFound
        | Some k \<Rightarrow>
            tx_bind (insertAuditEvent E ''system'' [] [] [] [] ''identity.credential.revoked'' ''credential'' credentialID now)
              (\<lambda>_. if k = CredentialKindDevice
                   then tx_bind (cascadeRevokeProvisionedCredentials E seen credentialID now) (\<lambda>_. tx_return ())
                   else tx_return ()))"

definition storeRevokeCredential :: "cred_env \<Rightarrow> cred_db \<Rightarrow> cred_db \<Rightarrow> string \<Rightarrow> time \<Rightarrow> cred_db \<times> unit res" where
  "storeRevokeCredential E seen db credentialID now =
     transaction (ce_fault E) ''begin credential revocation'' ''rollback credential revocation'' ''commit credential revocation''
       (revokeCredentialTx E seen credentialID now) db"

end
