(* ===== verification/Credential_Service.thy ===== *)
theory Credential_Service
  imports Credential_Store
begin

text \<open>
  The on-premises credential service (\<open>internal/deployment/onprem/service.go\<close>, \<open>provisioning.go\<close> and the validators of
  \<open>registry.go\<close> it calls) over the PostgreSQL credential store: authentication, enrollment and its exchange, rotation,
  revocation and the provisioning of agents by devices.  The clock and the token source are functions of the number of
  calls an operation has made.
\<close>

section \<open>Configuration\<close>

record credential_config =
  cc_AdminAPIKey :: string
  cc_RotationOverlap :: int
  cc_SecretPepper :: string
  cc_AllowLegacyAgentCreation :: bool
  cc_PortalURL :: string
  cc_DeviceAgentLimit :: int

record credential_service =
  sv_config :: credential_config
  sv_digester :: string

text \<open>The store, the clock and the token source are given.\<close>

definition NewCredentialService :: "credential_config \<Rightarrow> credential_service res" where
  "NewCredentialService config =
     (let config' = config\<lparr>cc_AdminAPIKey := trim_space (cc_AdminAPIKey config)\<rparr> in
      if cc_RotationOverlap config' \<le> 0 then Inl (ErrorNew ''create on-prem credential service: rotation overlap must be positive'')
      else case newSecretDigester (cc_SecretPepper config') of
        Inl e \<Rightarrow> Inl (wrapf ''create on-prem credential service: '' e)
      | Inr key \<Rightarrow> Inr \<lparr>sv_config = (if cc_DeviceAgentLimit config' \<le> 0 then config'\<lparr>cc_DeviceAgentLimit := 16\<rparr> else config'), sv_digester = key\<rparr>)"

record service_env =
  se_store :: cred_env
  se_clock :: "nat \<Rightarrow> time"
  se_token :: "nat \<Rightarrow> string res"
  se_urlParse :: "string \<Rightarrow> parsed_url res"

record enrollment_request =
  rq_EnrollUserID :: string
  rq_EnrollAgentID :: string
  rq_ExpiresIn :: int
  rq_Permissions :: "string list"

record enrollment =
  en_EnrollmentID :: string
  en_Token :: string
  en_ExpiresAt :: time

record issued_credential =
  is_CredentialID :: string
  is_APIKey :: string
  is_UserID :: string
  is_Permissions :: "string list"
  is_Kind :: string
  is_ExpiresAt :: "time option"

section \<open>Authentication\<close>

definition principalOf :: "credential_record \<Rightarrow> principal" where
  "principalOf record =
     \<lparr>pr_UserID = kr_UserID record, pr_MembershipID = kr_MembershipID record, pr_AgentID = kr_AgentID record, pr_ScopeID = LocalScopeID,
      pr_CredentialID = kr_ID record, pr_CredentialLabel = kr_Label record, pr_Permissions = kr_Permissions record,
      pr_Kind = kr_Kind record, pr_GrantablePermissions = kr_GrantablePermissions record\<rparr>"

definition adminPrincipal :: principal where
  "adminPrincipal = \<lparr>pr_UserID = [], pr_MembershipID = [], pr_AgentID = [], pr_ScopeID = LocalScopeID, pr_CredentialID = [],
     pr_CredentialLabel = [], pr_Permissions = [PermissionAdmin], pr_Kind = [], pr_GrantablePermissions = []\<rparr>"

definition unknownKey :: "go_error \<Rightarrow> bool" where
  "unknownKey e \<longleftrightarrow> errors_is e ErrUnauthorized \<or> errors_is e ErrCredentialNotFound"

definition Authenticate :: "service_env \<Rightarrow> credential_service \<Rightarrow> cred_db \<Rightarrow> string \<Rightarrow> cred_db \<times> principal res" where
  "Authenticate E sv db presented =
     (let apiKey = trim_space presented; admin = cc_AdminAPIKey (sv_config sv) in
      if apiKey = [] then (db, Inl ErrUnauthorized)
      else if admin \<noteq> [] \<and> constantTimeEqual apiKey admin then
        (case LegacyAdminEnabled (se_store E) db of
           Inl e \<Rightarrow> (db, Inl (wrapf ''check legacy admin credential: '' e))
         | Inr enabled \<Rightarrow> (db, if enabled then Inr adminPrincipal else Inl ErrUnauthorized))
      else if \<not> prefix ''tm_key_'' apiKey then (db, Inl ErrUnauthorized)
      else
        let publicID = secretPublicID apiKey ''tm_key_'';
            credentialID = (case publicID of None \<Rightarrow> [] | Some i \<Rightarrow> i);
            (db1, first) = (if publicID = None then (db, Inl ErrUnauthorized)
              else ResolveCredential (se_store E) db credentialID (Digest (sv_digester sv) credentialDigestDomain apiKey) (se_clock E 0));
            (db2, outcome) = (if publicID = None \<or> (case first of Inl e \<Rightarrow> unknownKey e | Inr _ \<Rightarrow> False)
              then ResolveCredential (se_store E) db1 credentialID (digest apiKey) (se_clock E (if publicID = None then 0 else 1))
              else (db1, first))
        in (db2, case outcome of
             Inl e \<Rightarrow> Inl (wrapf ''authenticate agent credential: '' (if unknownKey e then ErrUnauthorized else e))
           | Inr record \<Rightarrow> Inr (principalOf record)))"

section \<open>Enrollment\<close>

definition grantable :: "string list" where
  "grantable = [PermissionObserve, PermissionSearch, PermissionGet, PermissionChannelSend, PermissionChannelReceive]"

text \<open>The loop of the two validators: the first unsupported permission, or the permissions without repetitions.\<close>

fun validPermissions :: "(string \<Rightarrow> go_error) \<Rightarrow> string list \<Rightarrow> string list \<Rightarrow> string list res" where
  "validPermissions refuse seen [] = Inr []"
| "validPermissions refuse seen (permission # rest) =
     (if permission \<notin> set grantable then Inl (refuse permission)
      else if permission \<in> set seen then validPermissions refuse seen rest
      else case validPermissions refuse (permission # seen) rest of Inl e \<Rightarrow> Inl e | Inr ps \<Rightarrow> Inr (permission # ps))"

definition validateEnrollmentRequest :: "enrollment_request \<Rightarrow> (string list \<times> int) res" where
  "validateEnrollmentRequest request =
     (if blank (rq_EnrollUserID request) \<or> blank (rq_EnrollAgentID request)
      then Inl (ErrorNew ''create agent enrollment: user_id and agent_id are required'')
      else
      let expiresIn = (if rq_ExpiresIn request = 0 then defaultEnrollmentTTL else rq_ExpiresIn request) in
      if expiresIn < 0 then Inl (ErrorNew ''create agent enrollment: expiry must be positive'')
      else
      case validPermissions (\<lambda>p. ErrorNew (''create agent enrollment: unsupported permission '' @ quote p)) []
             (if rq_Permissions request = [] then [PermissionObserve, PermissionSearch, PermissionGet] else rq_Permissions request) of
        Inl e \<Rightarrow> Inl e
      | Inr permissions \<Rightarrow> Inr (permissions, expiresIn))"

text \<open>Two tokens: an identifier and a secret.\<close>

definition newTokens :: "service_env \<Rightarrow> string \<Rightarrow> (string \<times> string) res" where
  "newTokens E what =
     (case se_token E 0 of
        Inl e \<Rightarrow> Inl (wrapf (''create '' @ what @ '' ID: '') e)
      | Inr i \<Rightarrow>
      case se_token E 1 of
        Inl e \<Rightarrow> Inl (wrapf (''create '' @ what @ '' secret: '') e)
      | Inr secret \<Rightarrow> Inr (i, secret))"

definition enrollmentFor :: "service_env \<Rightarrow> credential_service \<Rightarrow> enrollment_request \<Rightarrow> string \<Rightarrow> string \<Rightarrow> string list \<Rightarrow> int \<Rightarrow> enrollment_record" where
  "enrollmentFor E sv request i verifiableToken permissions expiresIn =
     \<lparr>nr_ID = i, nr_TokenDigest = Digest (sv_digester sv) enrollmentDigestDomain verifiableToken,
      nr_DigestKeyVersion = currentDigestKeyVersion, nr_UserID = trim_space (rq_EnrollUserID request), nr_MembershipID = [],
      nr_AgentID = trim_space (rq_EnrollAgentID request), nr_CredentialLabel = [], nr_Permissions = permissions,
      nr_CreatedAt = se_clock E 0, nr_ExpiresAt = se_clock E 0 + expiresIn, nr_CredentialExpiresAt = None, nr_ConsumedAt = None,
      nr_AllowLegacyAgentCreation = cc_AllowLegacyAgentCreation (sv_config sv), nr_Kind = [], nr_GrantablePermissions = []\<rparr>"

definition CreateEnrollment :: "service_env \<Rightarrow> credential_service \<Rightarrow> cred_db \<Rightarrow> principal \<Rightarrow> enrollment_request \<Rightarrow> cred_db \<times> enrollment res" where
  "CreateEnrollment E sv db p request =
     (if \<not> HasPermission p PermissionAdmin then (db, Inl ErrForbidden)
      else case validateEnrollmentRequest request of
        Inl e \<Rightarrow> (db, Inl e)
      | Inr (permissions, expiresIn) \<Rightarrow>
      case newTokens E ''enrollment'' of
        Inl e \<Rightarrow> (db, Inl e)
      | Inr (i, secret) \<Rightarrow>
          let (tok, verifiableToken) = enrollmentToken (se_urlParse E) i secret (cc_PortalURL (sv_config sv));
              record = enrollmentFor E sv request i verifiableToken permissions expiresIn
          in case SaveEnrollment (se_store E) db record of
               (db', Inl e) \<Rightarrow> (db', Inl (wrapf ''save agent enrollment: '' e))
             | (db', Inr _) \<Rightarrow> (db', Inr \<lparr>en_EnrollmentID = i, en_Token = tok, en_ExpiresAt = nr_ExpiresAt record\<rparr>))"

definition newCredential :: "service_env \<Rightarrow> credential_service \<Rightarrow> credential_record \<Rightarrow> (string \<times> string \<times> credential_record) res" where
  "newCredential E sv base =
     (case newTokens E ''credential'' of
        Inl e \<Rightarrow> Inl e
      | Inr (i, secret) \<Rightarrow>
          let apiKey = ''tm_key_'' @ i @ ''.'' @ secret in
          Inr (i, apiKey, base\<lparr>kr_ID := i, kr_KeyDigest := Digest (sv_digester sv) credentialDigestDomain apiKey,
            kr_DigestKeyVersion := currentDigestKeyVersion, kr_CreatedAt := se_clock E 0\<rparr>))"

text \<open>The second attempt is for enrollments from before the digests were peppered; each attempt has its own snapshot.\<close>

definition ExchangeEnrollment :: "service_env \<Rightarrow> credential_service \<Rightarrow> (nat \<Rightarrow> cred_db) \<Rightarrow> cred_db \<Rightarrow> string \<Rightarrow> cred_db \<times> issued_credential res" where
  "ExchangeEnrollment E sv seen db tok =
     (case parseEnrollmentToken tok of
        None \<Rightarrow> (db, Inl ErrEnrollmentInvalid)
      | Some (verifiableToken, enrollmentID) \<Rightarrow>
      case newCredential E sv zeroCredential of
        Inl e \<Rightarrow> (db, Inl e)
      | Inr (i, apiKey, record) \<Rightarrow>
          let (db1, first) = storeExchangeEnrollment (se_store E) (seen 0) db enrollmentID
                (Digest (sv_digester sv) enrollmentDigestDomain verifiableToken) record (se_clock E 1);
              (db2, exchanged) = (if (case first of Inl e \<Rightarrow> errors_is e ErrEnrollmentInvalid | Inr _ \<Rightarrow> False)
                then storeExchangeEnrollment (se_store E) (seen 1) db1 enrollmentID (digest verifiableToken) record (se_clock E 2)
                else (db1, first))
          in (db2, case exchanged of
               Inl e \<Rightarrow> Inl (wrapf ''exchange agent enrollment: '' e)
             | Inr enrolled \<Rightarrow> Inr \<lparr>is_CredentialID = i, is_APIKey = apiKey, is_UserID = nr_UserID enrolled,
                 is_Permissions = nr_Permissions enrolled, is_Kind = nr_Kind enrolled, is_ExpiresAt = nr_CredentialExpiresAt enrolled\<rparr>))"

section \<open>Rotation and revocation\<close>

definition replacementFor :: "principal \<Rightarrow> credential_record" where
  "replacementFor p = zeroCredential\<lparr>kr_UserID := pr_UserID p, kr_MembershipID := pr_MembershipID p, kr_AgentID := pr_AgentID p,
     kr_Label := pr_CredentialLabel p, kr_Permissions := pr_Permissions p, kr_RotatedFromCredentialID := pr_CredentialID p,
     kr_Kind := pr_Kind p, kr_GrantablePermissions := pr_GrantablePermissions p\<rparr>"

definition RotateCredential :: "service_env \<Rightarrow> credential_service \<Rightarrow> cred_db \<Rightarrow> principal \<Rightarrow> cred_db \<times> issued_credential res" where
  "RotateCredential E sv db p =
     (if pr_CredentialID p = [] \<or> pr_ScopeID p \<noteq> LocalScopeID then (db, Inl ErrUnauthorized)
      else if pr_Kind p = CredentialKindDevice then (db, Inl ErrForbidden)
      else case newCredential E sv (replacementFor p) of
        Inl e \<Rightarrow> (db, Inl e)
      | Inr (i, apiKey, replacement) \<Rightarrow>
          (case storeRotateCredential (se_store E) db (pr_CredentialID p) replacement (se_clock E 1 + cc_RotationOverlap (sv_config sv)) of
             (db', Inl e) \<Rightarrow> (db', Inl (wrapf ''rotate agent credential: '' e))
           | (db', Inr _) \<Rightarrow> (db', Inr \<lparr>is_CredentialID = i, is_APIKey = apiKey, is_UserID = pr_UserID p,
               is_Permissions = pr_Permissions p, is_Kind = pr_Kind p, is_ExpiresAt = None\<rparr>)))"

definition RevokeCredential :: "service_env \<Rightarrow> cred_db \<Rightarrow> cred_db \<Rightarrow> principal \<Rightarrow> string \<Rightarrow> cred_db \<times> unit res" where
  "RevokeCredential E seen db p credentialID =
     (if \<not> HasPermission p PermissionAdmin then (db, Inl ErrForbidden)
      else if blank credentialID then (db, Inl (ErrorNew ''revoke agent credential: credential ID is required''))
      else case storeRevokeCredential (se_store E) seen db credentialID (se_clock E 0) of
        (db', Inl e) \<Rightarrow> (db', Inl (wrapf ''revoke agent credential: '' e))
      | (db', Inr _) \<Rightarrow> (db', Inr ()))"

section \<open>Provisioning by devices\<close>

record device_provision_request =
  dq_AgentID :: string
  dq_DisplayName :: string
  dq_AgentType :: string
  dq_Permissions :: "string list"

record provisioned_agent_credential =
  pv_CredentialID :: string
  pv_APIKey :: string
  pv_AgentID :: string
  pv_Permissions :: "string list"
  pv_CreatedAt :: time
  pv_ExpiresAt :: "time option"
  pv_RotatedFromCredentialID :: string
  pv_AgentCreated :: bool

definition requireDeviceProvisioner :: "principal \<Rightarrow> unit res" where
  "requireDeviceProvisioner p =
     (if pr_ScopeID p \<noteq> LocalScopeID \<or> pr_CredentialID p = [] \<or> pr_Kind p \<noteq> CredentialKindDevice \<or>
        \<not> HasPermission p PermissionAgentProvision
      then Inl ErrForbidden else Inr ())"

definition invalidInput :: "string \<Rightarrow> go_error" where
  "invalidInput message = Wrap [] ErrInvalidIdentityInput ('': '' @ message)"

definition control :: "char \<Rightarrow> bool" where
  "control c \<longleftrightarrow> c < CHR 0x20 \<or> c = CHR 0x7F"

definition validateAgentIdentity :: "string \<Rightarrow> string \<Rightarrow> unit res" where
  "validateAgentIdentity agentID displayName =
     (if agentID = [] \<or> displayName = [] then Inl (invalidInput ''agent_id and display_name are required'')
      else if 128 < length agentID \<or> CHR ''/'' \<in> set agentID \<or> CHR 0x5C \<in> set agentID then Inl (invalidInput ''agent_id is invalid'')
      else if list_ex control agentID then Inl (invalidInput ''agent_id is invalid'')
      else if 200 < length displayName then Inl (invalidInput ''display_name is too long'')
      else Inr ())"

definition validateExplicitPermissions :: "string list \<Rightarrow> string list res" where
  "validateExplicitPermissions permissions =
     (if permissions = [] then Inl (invalidInput ''enrollment permissions are required'')
      else validPermissions (\<lambda>p. invalidInput (''unsupported enrollment permission '' @ quote p)) [] permissions)"

definition deviceGrantedPermissions :: "string list \<Rightarrow> string list \<Rightarrow> string list res" where
  "deviceGrantedPermissions requested allowed =
     (if requested = [] then
        (if allowed = [] then Inl (Wrap [] ErrForbidden '': device has no grantable permissions'') else Inr allowed)
      else case validateExplicitPermissions requested of
        Inl e \<Rightarrow> Inl e
      | Inr validated \<Rightarrow>
          (case find (\<lambda>p. p \<notin> set allowed) validated of
             None \<Rightarrow> Inr validated
           | Some p \<Rightarrow> Inl (Wrap [] ErrForbidden ('': permission '' @ quote p @ '' exceeds device grantable set''))))"

definition deviceCredential :: "principal \<Rightarrow> string \<Rightarrow> string \<Rightarrow> string list \<Rightarrow> credential_record" where
  "deviceCredential p agentID displayName permissions =
     zeroCredential\<lparr>kr_UserID := pr_UserID p, kr_MembershipID := pr_MembershipID p, kr_AgentID := agentID, kr_Label := displayName,
       kr_Permissions := permissions, kr_Kind := CredentialKindAgent, kr_ProvisionedBy := pr_CredentialID p\<rparr>"

definition deviceProfile :: "principal \<Rightarrow> string \<Rightarrow> string \<Rightarrow> string \<Rightarrow> time \<Rightarrow> agent_profile" where
  "deviceProfile p agentID displayName agentType now =
     \<lparr>ap_AgentID = agentID, ap_OwnerMembershipID = pr_MembershipID p, ap_OwnerUserID = pr_UserID p, ap_DisplayName = displayName,
      ap_Description = [], ap_AgentType = agentType, ap_Status = AgentStatusActive, ap_DirectoryVisible = True, ap_CreatedAt = now,
      ap_UpdatedAt = now, ap_ResourceVersion = 1, ap_ProvisionedBy = pr_CredentialID p\<rparr>"

definition ProvisionDeviceAgent ::
  "service_env \<Rightarrow> credential_service \<Rightarrow> cred_db \<Rightarrow> cred_db \<Rightarrow> principal \<Rightarrow> device_provision_request \<Rightarrow> cred_db \<times> provisioned_agent_credential res" where
  "ProvisionDeviceAgent E sv seen db p request =
     (case requireDeviceProvisioner p of
        Inl e \<Rightarrow> (db, Inl e)
      | Inr _ \<Rightarrow>
      let agentID = trim_space (dq_AgentID request); displayName = trim_space (dq_DisplayName request);
          agentType = trim_space (dq_AgentType request)
      in case validateAgentIdentity agentID displayName of
        Inl e \<Rightarrow> (db, Inl e)
      | Inr _ \<Rightarrow>
      if agentType = [] then (db, Inl (invalidInput ''agent_type is required'')) else
      case deviceGrantedPermissions (dq_Permissions request) (pr_GrantablePermissions p) of
        Inl e \<Rightarrow> (db, Inl e)
      | Inr permissions \<Rightarrow>
      case newCredential E sv (deviceCredential p agentID displayName permissions) of
        Inl e \<Rightarrow> (db, Inl e)
      | Inr (i, apiKey, record) \<Rightarrow>
          let now = kr_CreatedAt record in
          (case ProvisionAgentCredential (se_store E) seen db (pr_CredentialID p) (deviceProfile p agentID displayName agentType now) record
                  (cc_DeviceAgentLimit (sv_config sv)) now of
             (db', Inl e) \<Rightarrow> (db', Inl (wrapf ''provision device agent: '' e))
           | (db', Inr outcome) \<Rightarrow> (db', Inr \<lparr>pv_CredentialID = i, pv_APIKey = apiKey, pv_AgentID = agentID, pv_Permissions = permissions,
               pv_CreatedAt = now, pv_ExpiresAt = None, pv_RotatedFromCredentialID = po_RotatedFromCredentialID outcome,
               pv_AgentCreated = po_AgentCreated outcome\<rparr>)))"

definition ListDeviceProvisionedAgents :: "service_env \<Rightarrow> cred_db \<Rightarrow> principal \<Rightarrow> device_provisioned_agent list res" where
  "ListDeviceProvisionedAgents E db p =
     (case requireDeviceProvisioner p of
        Inl e \<Rightarrow> Inl e
      | Inr _ \<Rightarrow>
          (case listDeviceProvisionedAgents (se_store E) db (pr_CredentialID p) of
             Inl e \<Rightarrow> Inl (wrapf ''list device provisioned agents: '' e)
           | Inr agents \<Rightarrow> Inr agents))"

end
