(* ===== verification/Credential_Invariant.thy ===== *)
theory Credential_Invariant
  imports Credential_Service
begin

text \<open>
  What the operations of the credential store do to its tables: a key keeps its identity columns, a revocation and a
  consumed enrollment are permanent, and what a device provisioned stays within what it may grant.
\<close>

section \<open>What is kept\<close>

definition sameKey :: "credential_row \<Rightarrow> credential_row \<Rightarrow> bool" where
  "sameKey row row' \<longleftrightarrow> row' = row\<lparr>cw_ExpiresAt := cw_ExpiresAt row', cw_RevokedAt := cw_RevokedAt row', cw_LastUsedAt := cw_LastUsedAt row'\<rparr> \<and>
     (cw_RevokedAt row \<noteq> None \<longrightarrow> cw_RevokedAt row' \<noteq> None)"

definition sameEnrollment :: "enrollment_row \<Rightarrow> enrollment_row \<Rightarrow> bool" where
  "sameEnrollment row row' \<longleftrightarrow>
     row' = row\<lparr>el_ConsumedAt := el_ConsumedAt row', el_ConsumedCredentialID := el_ConsumedCredentialID row', el_RevokedAt := el_RevokedAt row'\<rparr> \<and>
     (el_ConsumedAt row \<noteq> None \<longrightarrow> el_ConsumedAt row' \<noteq> None) \<and> (el_RevokedAt row \<noteq> None \<longrightarrow> el_RevokedAt row' \<noteq> None)"

definition keeps :: "('v \<Rightarrow> 'v \<Rightarrow> bool) \<Rightarrow> ('k, 'v) gomap \<Rightarrow> ('k, 'v) gomap \<Rightarrow> bool" where
  "keeps R m m' \<longleftrightarrow> (\<forall>k v. mget m k = Some v \<longrightarrow> (\<exists>v'. mget m' k = Some v' \<and> R v v'))"

definition cred_keeps :: "cred_db \<Rightarrow> cred_db \<Rightarrow> bool" where
  "cred_keeps db db' \<longleftrightarrow> keeps sameKey (cd_credentials db) (cd_credentials db') \<and> keeps sameEnrollment (cd_enrollments db) (cd_enrollments db')"

lemma sameKey_refl [simp]: "sameKey row row"
  by (simp add: sameKey_def)

lemma sameKey_trans: "sameKey a b \<Longrightarrow> sameKey b c \<Longrightarrow> sameKey a c"
  unfolding sameKey_def by (metis (no_types, lifting) credential_row.surjective credential_row.update_convs(9-11))

lemma sameEnrollment_refl [simp]: "sameEnrollment row row"
  by (simp add: sameEnrollment_def)

lemma sameEnrollment_trans: "sameEnrollment a b \<Longrightarrow> sameEnrollment b c \<Longrightarrow> sameEnrollment a c"
  unfolding sameEnrollment_def by (metis (no_types, lifting) enrollment_row.surjective enrollment_row.update_convs(11-13))

lemma keeps_refl: "(\<And>v. R v v) \<Longrightarrow> keeps R m m"
  by (simp add: keeps_def)

lemma keeps_trans: "(\<And>a b c. R a b \<Longrightarrow> R b c \<Longrightarrow> R a c) \<Longrightarrow> keeps R m m' \<Longrightarrow> keeps R m' m'' \<Longrightarrow> keeps R m m''"
  unfolding keeps_def by meson

lemma keeps_mput: "(\<And>v. R v v) \<Longrightarrow> (case mget m k of None \<Rightarrow> True | Some old \<Rightarrow> R old v) \<Longrightarrow> keeps R m (mput k v m)"
  by (auto simp: keeps_def go_map split: option.splits)

lemma cred_keeps_refl [simp]: "cred_keeps db db"
  by (simp add: cred_keeps_def keeps_refl)

lemma cred_keeps_trans: "cred_keeps a b \<Longrightarrow> cred_keeps b c \<Longrightarrow> cred_keeps a c"
  unfolding cred_keeps_def using keeps_trans [of sameKey] keeps_trans [of sameEnrollment] sameKey_trans sameEnrollment_trans by metis

section \<open>Steps that succeed\<close>

definition same_keys :: "cred_db \<Rightarrow> cred_db \<Rightarrow> bool" where
  "same_keys db db' \<longleftrightarrow> cd_credentials db' = cd_credentials db \<and> cd_enrollments db' = cd_enrollments db"

lemma same_keys_refl [simp]: "same_keys db db"
  by (simp add: same_keys_def)

lemma query_ok [tx_ok]: "query E message select absent db = Inr (db', r) \<longleftrightarrow>
    ce_fault E message = None \<and> select db = Some r \<and> db' = db"
  by (auto simp: query_def tx_ok tx_fail_def split: option.splits)

lemma require_ok [tx_ok]: "require E message select absent db = Inr (db', u) \<longleftrightarrow> ce_fault E message = None \<and> select db \<and> db' = db"
  by (auto simp: require_def tx_ok)

lemma tx_fail_ok [tx_ok]: "tx_fail e db = Inr r \<longleftrightarrow> False"
  by (simp add: tx_fail_def)

text \<open>Computations that leave the two tables of secrets alone.\<close>

definition stays :: "'a cred_tx \<Rightarrow> bool" where
  "stays m \<longleftrightarrow> (\<forall>db db' a. m db = Inr (db', a) \<longrightarrow> same_keys db db')"

named_theorems stays_rules \<open>computations that leave the tables of secrets alone\<close>

lemma stays_bind [stays_rules]: "stays m \<Longrightarrow> (\<And>a. stays (f a)) \<Longrightarrow> stays (tx_bind m f)"
  unfolding stays_def same_keys_def tx_bind_ok by metis

lemma stays_simple [stays_rules]:
  "stays (tx_return a)" "stays (tx_fail e)" "stays (query E message select absent)" "stays (require E message P absent)"
  by (simp_all add: stays_def tx_ok)

lemma stays_statement [stays_rules]: "stays sql \<Longrightarrow> stays (statement fault message point sql)"
  by (simp add: stays_def tx_ok)

lemma stays_if [stays_rules]: "stays a \<Longrightarrow> stays b \<Longrightarrow> stays (if c then a else b)"
  by simp

lemma stays_option [stays_rules]: "stays a \<Longrightarrow> (\<And>x. stays (f x)) \<Longrightarrow> stays (case opt of None \<Rightarrow> a | Some x \<Rightarrow> f x)"
  by (cases opt) simp_all

lemma stays_read [stays_rules]: "stays (\<lambda>db. Inr (db, f db))"
  by (simp add: stays_def)

lemma stays_rows [stays_rules]:
  "stays (insertAuditRow row)" "stays (insertAgentRow i a)" "stays (insertUserRow i u)" "stays (insertMembershipRow i m)"
  by (auto simp: stays_def same_keys_def insertAuditRow_def insertAgentRow_def insertUserRow_def insertMembershipRow_def split: if_splits)

lemma stays_claimIdentity [stays_rules]: "stays (claimIdentity a u now)"
  by (auto simp: stays_def same_keys_def claimIdentity_def split: if_splits option.splits)

lemma stays_claimAgent [stays_rules]: "stays (claimAgent i a)"
  using stays_rows(2) [of i a] by (auto simp: stays_def claimAgent_def split: if_splits option.splits sum.splits)

lemma stays_audit [stays_rules]: "stays (insertAuditEvent E kind u m a c action tk ti now)"
  unfolding insertAuditEvent_def by (intro stays_rules)

lemma stays_audits [stays_rules]: "(\<And>i. stays (audit i)) \<Longrightarrow> stays (auditRevocations audit is)"
  by (induction "is") (auto intro: stays_rules)

lemma stays_ensureLegacyAgent [stays_rules]: "stays (ensureLegacyAgent E u a now)"
  unfolding ensureLegacyAgent_def Let_def by (intro stays_rules)

lemma stays_createProvisionedAgent [stays_rules]: "stays (createProvisionedAgent E d profile now)"
  unfolding createProvisionedAgent_def by (intro stays_rules)

lemma staysD: "m db = Inr (db', a) \<Longrightarrow> stays m \<Longrightarrow> cd_credentials db' = cd_credentials db \<and> cd_enrollments db' = cd_enrollments db"
  by (auto simp: stays_def same_keys_def)

lemma auditsD: "auditRevocations audit is db = Inr (db', u) \<Longrightarrow> (\<And>i. stays (audit i)) \<Longrightarrow>
    cd_credentials db' = cd_credentials db \<and> cd_enrollments db' = cd_enrollments db"
  by (rule staysD [of "auditRevocations audit is"]) (auto intro: stays_audits)

section \<open>What an operation writes\<close>

lemma found: "find P xs = Some x \<Longrightarrow> x \<in> set xs \<and> P x"
  by (induction xs) (auto split: if_splits)

lemma saveEnrollment_effect:
  assumes "saveEnrollmentTx E r db = Inr (db', u)"
  obtains m where "cd_credentials db' = cd_credentials db" "cd_enrollments db' = mput (nr_ID r) (enrollmentRow r m) (cd_enrollments db)"
    "mget (cd_enrollments db) (nr_ID r) = None"
proof -
  let ?owner = "if nr_AllowLegacyAgentCreation r then ensureLegacyAgent E (nr_UserID r) (nr_AgentID r) (nr_CreatedAt r)
    else resolveLegacyAgentOwner E (nr_UserID r) (nr_AgentID r)"
  from assms obtain db1 m db2 v where 1: "?owner db = Inr (db1, m)" and 2: "insertEnrollmentRow (nr_ID r) (enrollmentRow r m) db1 = Inr (db2, v)"
    and 3: "insertAuditEvent E ''system'' (nr_UserID r) m [] [] ''identity.legacy-admin-enrollment.created'' ''enrollment'' (nr_ID r) (nr_CreatedAt r) db2 = Inr (db', u)"
    unfolding saveEnrollmentTx_def tx_ok by blast
  have "stays ?owner" unfolding resolveLegacyAgentOwner_def by (intro stays_rules)
  then show thesis
    using staysD [of ?owner db db1 m] 1 2 staysD [OF 3 stays_audit] by (intro that [of m]) (auto simp: insertEnrollmentRow_def split: if_splits)
qed

text \<open>The key that an enrollment is exchanged for.\<close>

definition issuedRow :: "credential_record \<Rightarrow> enrollment_row \<Rightarrow> credential_row" where
  "issuedRow c row = credentialRow (c\<lparr>kr_UserID := el_UserID row, kr_MembershipID := el_MembershipID row, kr_AgentID := el_AgentID row,
     kr_Label := el_CredentialLabel row, kr_Permissions := el_Permissions row, kr_ExpiresAt := el_CredentialExpiresAt row,
     kr_Kind := el_Kind row, kr_GrantablePermissions := el_GrantablePermissions row\<rparr>) (kr_ProvisionedBy c)"

definition consumedRow :: "time \<Rightarrow> string \<Rightarrow> enrollment_row \<Rightarrow> enrollment_row" where
  "consumedRow now i row = row\<lparr>el_ConsumedAt := Some (pg_time now), el_ConsumedCredentialID := Some i\<rparr>"

lemma insertCredentialRow_ok:
  "insertCredentialRow i row db = Inr (db', u) \<Longrightarrow>
     mget (cd_credentials db) i = None \<and> db' = db\<lparr>cd_credentials := mput i row (cd_credentials db)\<rparr> \<and>
     \<not> sql_blank (cw_UserID row) \<and> cw_Kind row \<in> {''agent'', ''device''} \<and> references (cd_credentials db) (cw_ProvisionedBy row)"
  by (auto simp: insertCredentialRow_def split: if_splits)

lemma exchange_effect:
  assumes "exchangeEnrollmentTx E seen eid dg c now db = Inr (db', en)"
  obtains i row where "(i, row) \<in> set (cd_enrollments db)" "openEnrollment eid dg now (i, row)"
    "cd_enrollments db' = mput i (consumedRow now (kr_ID c) row) (cd_enrollments db)"
    "cd_credentials db' = mput (kr_ID c) (issuedRow c row) (cd_credentials db)" "mget (cd_credentials db) (kr_ID c) = None"
    "en = enrollmentOf dg (i, consumedRow now (kr_ID c) row)"
proof -
  from assms obtain m a k db1 i row' where lock: "lockEnrollmentExchangeOwner E seen eid dg now db = Inr (db, m, a, k)"
    and take: "consumeEnrollment eid dg now (kr_ID c) m a db = Inr (db1, Some (i, row'))"
    and en: "en = enrollmentOf dg (i, row')" and rest: "\<exists>db2 db3 v. cd_credentials db2 = cd_credentials db1 \<and> cd_enrollments db2 = cd_enrollments db1 \<and>
        insertCredentialRow (kr_ID c) (credentialRow (c\<lparr>kr_UserID := el_UserID row', kr_MembershipID := el_MembershipID row', kr_AgentID := el_AgentID row',
          kr_Label := el_CredentialLabel row', kr_Permissions := el_Permissions row', kr_ExpiresAt := el_CredentialExpiresAt row',
          kr_Kind := el_Kind row', kr_GrantablePermissions := el_GrantablePermissions row'\<rparr>) (kr_ProvisionedBy c)) db2 = Inr (db3, v) \<and>
        cd_credentials db' = cd_credentials db3 \<and> cd_enrollments db' = cd_enrollments db3"
    unfolding exchangeEnrollmentTx_def Let_def
    by (auto simp: tx_ok lockEnrollmentExchangeOwner_def enrollmentOf_def split: option.splits if_splits
        dest!: staysD [OF _ stays_claimIdentity] staysD [OF _ stays_audit])
  from take obtain row where row: "(i, row) \<in> set (cd_enrollments db)" "openEnrollment eid dg now (i, row)" "row' = consumedRow now (kr_ID c) row"
    "db1 = db\<lparr>cd_enrollments := mput i row' (cd_enrollments db)\<rparr>"
    by (auto simp: consumeEnrollment_def consumedRow_def Let_def split: option.splits dest!: found)
  show thesis
    using rest row en by (intro that [OF row(1,2)]) (auto simp: issuedRow_def consumedRow_def dest!: insertCredentialRow_ok)
qed

lemma resolve_effect:
  assumes "ResolveCredential E db cid dg now = (db', Inr r)"
  obtains i row where "(i, row) \<in> set (cd_credentials db)" "resolvable db cid dg now (i, row)"
    "db' = db\<lparr>cd_credentials := mput i (row\<lparr>cw_LastUsedAt := Some (pg_time now)\<rparr>) (cd_credentials db)\<rparr>"
    "r = credentialOf (i, row\<lparr>cw_LastUsedAt := Some (pg_time now)\<rparr>)"
proof -
  from assms obtain i row where "find (resolvable db cid dg now) (cd_credentials db) = Some (i, row)"
    "db' = db\<lparr>cd_credentials := mput i (row\<lparr>cw_LastUsedAt := Some (pg_time now)\<rparr>) (cd_credentials db)\<rparr>"
    "r = credentialOf (i, row\<lparr>cw_LastUsedAt := Some (pg_time now)\<rparr>)"
    by (auto simp: ResolveCredential_def autocommit_ok tx_ok Let_def split: option.splits)
  then show thesis by (intro that) (auto dest!: found)
qed

lemma rotate_effect:
  assumes "rotateCredentialTx E i r overlap db = Inr (db', u)"
  obtains row where "mget (cd_credentials db) i = Some row" "cw_RevokedAt row = None" "cw_Kind row \<noteq> CredentialKindDevice"
    "cd_credentials db' = mput (kr_ID r) (credentialRow r (coalesce (cw_ProvisionedBy row))) (mput i (expireAt overlap row) (cd_credentials db))"
    "kr_ID r \<noteq> i" "mget (cd_credentials db) (kr_ID r) = None" "cd_enrollments db' = cd_enrollments db"
proof -
  from assms obtain row db1 v where "mget (cd_credentials db) i = Some row" "cw_RevokedAt row = None" "cw_Kind row \<noteq> CredentialKindDevice"
    "insertCredentialRow (kr_ID r) (credentialRow r (coalesce (cw_ProvisionedBy row)))
       (db\<lparr>cd_credentials := mput i (expireAt overlap row) (cd_credentials db)\<rparr>) = Inr (db1, v)"
    "cd_credentials db' = cd_credentials db1" "cd_enrollments db' = cd_enrollments db1"
    unfolding rotateCredentialTx_def by (auto simp: tx_ok split: option.splits if_splits dest!: staysD [OF _ stays_audit])
  then show thesis by (intro that) (auto simp: go_map dest!: insertCredentialRow_ok split: if_splits)
qed

definition activeOf :: "(string, credential_row) gomap \<Rightarrow> string \<Rightarrow> string set" where
  "activeOf C d = {cw_AgentID row |i row. (i, row) \<in> set C \<and> cw_ProvisionedBy row = Some d \<and> cw_RevokedAt row = None}"

lemma activeAgents_eq: "activeAgents db d = activeOf (cd_credentials db) d"
  by (force simp: activeAgents_def activeOf_def)

lemma finite_activeOf [simp]: "finite (activeOf C d)"
  by (rule finite_subset [of _ "(\<lambda>cr. cw_AgentID (snd cr)) ` set C"]) (force simp: activeOf_def)+

text \<open>The revocation of the rows that match.\<close>

definition revokeRows :: "(string \<times> credential_row \<Rightarrow> bool) \<Rightarrow> time \<Rightarrow> (string, credential_row) gomap \<Rightarrow> (string, credential_row) gomap" where
  "revokeRows P now = map (\<lambda>(i, row). (i, if P (i, row) then revoked now row else row))"

lemma updateCredentials_revoked: "updateCredentials P (revoked now) db = db\<lparr>cd_credentials := revokeRows P now (cd_credentials db)\<rparr>"
  by (simp add: updateCredentials_def revokeRows_def)

lemma mget_revokeRows: "mget (revokeRows P now C) i = map_option (\<lambda>row. if P (i, row) then revoked now row else row) (mget C i)"
  by (induction C) (auto simp: revokeRows_def)

lemma mwf_revokeRows [simp]: "mwf (revokeRows P now C) = mwf C"
  by (simp add: revokeRows_def split_def comp_def)

lemma revokeRows_none: "C = revokeRows (\<lambda>_. False) now C"
  by (simp add: revokeRows_def)

lemma sameKey_revoked [simp]: "sameKey row (revoked now row)"
  by (simp add: sameKey_def revoked_def)

lemma keeps_revokeRows: "keeps sameKey C (revokeRows P now C)"
  by (auto simp: keeps_def mget_revokeRows)

lemma provision_effect:
  assumes "provisionTx E seen d pf c limit now db = Inr (db', out)"
  obtains dev C1 P where "mget (cd_credentials db) d = Some dev" "cw_Kind dev = ''device''" "cw_RevokedAt dev = None"
    "C1 = revokeRows P now (cd_credentials db)"
    "cd_credentials db' = mput (kr_ID c) (credentialRow c (kr_ProvisionedBy c)) C1" "mget C1 (kr_ID c) = None"
    "cd_enrollments db' = cd_enrollments db" "int (card (activeOf C1 d - {ap_AgentID pf})) < limit"
proof -
  let ?agent = "\<lambda>existing. case existing of
      None \<Rightarrow> tx_bind (createProvisionedAgent E d pf now) (\<lambda>_. tx_return \<lparr>po_RotatedFromCredentialID = [], po_AgentCreated = True\<rparr>)
    | Some a \<Rightarrow> if coalesce (ag_ProvisionedBy a) = d \<and> ag_Status a = AgentStatusActive
        then tx_bind (revokeRotatedProvisionedCredentials E seen d pf now) (\<lambda>rotatedFrom. tx_return \<lparr>po_RotatedFromCredentialID = rotatedFrom, po_AgentCreated = False\<rparr>)
        else tx_fail ErrAgentProvisionConflict"
  from assms obtain m db1 o1 db2 u v w db3 where
    dev: "lockProvisioningDevice E d now db = Inr (db, m)" and agent: "?agent (mget (cd_agents db) (ap_AgentID pf)) db = Inr (db1, o1)"
    and count: "int (card (activeAgents db1 d - {ap_AgentID pf})) < limit"
    and ins: "insertCredentialRow (kr_ID c) (credentialRow c (kr_ProvisionedBy c)) db1 = Inr (db2, u)"
    and audits: "insertAuditEvent E ''device'' (ap_OwnerUserID pf) (ap_OwnerMembershipID pf) (ap_AgentID pf) d ''identity.agent.provisioned''
         ''credential'' (kr_ID c) now db2 = Inr (db3, v)"
      "insertAuditEvent E ''device'' (kr_UserID c) (kr_MembershipID c) (kr_AgentID c) d ''identity.credential.issued'' ''credential''
         (kr_ID c) now db3 = Inr (db', w)"
    unfolding provisionTx_def lockProvisioningDeviceOwner_def lockProvisioningDevice_def tx_ok
    by (auto simp: tx_ok not_le split: if_splits)
  obtain row where row: "mget (cd_credentials db) d = Some row" "cw_Kind row = ''device''" "cw_RevokedAt row = None"
    using dev by (auto simp: lockProvisioningDevice_def tx_ok split: option.splits if_splits)
  have "\<exists>P. cd_credentials db1 = revokeRows P now (cd_credentials db) \<and> cd_enrollments db1 = cd_enrollments db"
  proof (cases "mget (cd_agents db) (ap_AgentID pf)")
    case None
    then show ?thesis using agent staysD [OF _ stays_createProvisionedAgent] revokeRows_none by (fastforce simp: tx_ok)
  next
    case (Some a)
    then obtain rotatedFrom where "revokeRotatedProvisionedCredentials E seen d pf now db = Inr (db1, rotatedFrom)"
      using agent by (auto simp: tx_ok split: if_splits)
    then show ?thesis
      using auditsD [OF _ stays_audit]
      by (fastforce simp: revokeRotatedProvisionedCredentials_def tx_ok Let_def updateCredentials_revoked)
  qed
  then obtain P where C1: "cd_credentials db1 = revokeRows P now (cd_credentials db)" "cd_enrollments db1 = cd_enrollments db" by blast
  note tail = insertCredentialRow_ok [OF ins] staysD [OF audits(1) stays_audit] staysD [OF audits(2) stays_audit]
  show thesis
    using C1 count tail row by (intro that [of row "cd_credentials db1" P]) (auto simp: activeAgents_eq)
qed

lemma revoke_effect:
  assumes "revokeCredentialTx E seen i now db = Inr (db', u)"
  obtains row where "mget (cd_credentials db) i = Some row" "cw_RevokedAt row = None" "cd_enrollments db' = cd_enrollments db"
    "cd_credentials db' = (let C = mput i (revoked now row) (cd_credentials db) in
       if cw_Kind row = CredentialKindDevice
       then revokeRows (\<lambda>cr. provisionedBy i cr \<and> fst cr \<in> set (map fst (filter (provisionedBy i) (cd_credentials seen)))) now C else C)"
proof -
  from assms obtain row db1 v where row: "mget (cd_credentials db) i = Some row" "cw_RevokedAt row = None"
    and audit: "insertAuditEvent E ''system'' [] [] [] [] ''identity.credential.revoked'' ''credential'' i now
      (db\<lparr>cd_credentials := mput i (revoked now row) (cd_credentials db)\<rparr>) = Inr (db1, v)"
    and rest: "(if cw_Kind row = CredentialKindDevice
       then tx_bind (cascadeRevokeProvisionedCredentials E seen i now) (\<lambda>_. tx_return ()) else tx_return ()) db1 = Inr (db', u)"
    unfolding revokeCredentialTx_def by (auto simp: tx_ok split: option.splits if_splits)
  note 1 = staysD [OF audit stays_audit]
  let ?match = "\<lambda>cr. provisionedBy i cr \<and> fst cr \<in> set (map fst (filter (provisionedBy i) (cd_credentials seen)))"
  show thesis
  proof (cases "cw_Kind row = CredentialKindDevice")
    case True
    then obtain n where "cascadeRevokeProvisionedCredentials E seen i now db1 = Inr (db', n)" using rest by (auto simp: tx_ok)
    then obtain v where audits: "auditRevocations (\<lambda>j. case mget (filter ?match (cd_credentials db1)) j of None \<Rightarrow> tx_return ()
          | Some row \<Rightarrow> insertAuditEvent E ''system'' (cw_UserID row) (cw_OwnerMembershipID row) (cw_AgentID row) i
              ''identity.credential.revoked'' ''credential'' j now) (map fst (filter ?match (cd_credentials db1)))
        (updateCredentials ?match (revoked now) db1) = Inr (db', v)"
      unfolding cascadeRevokeProvisionedCredentials_def tx_ok Let_def by (auto simp: tx_ok split: if_splits)
    have "cd_credentials db' = cd_credentials (updateCredentials ?match (revoked now) db1) \<and>
        cd_enrollments db' = cd_enrollments (updateCredentials ?match (revoked now) db1)"
      by (rule auditsD [OF audits]) (intro stays_rules)
    then show thesis using 1 True row by (intro that [OF row]) (simp_all add: updateCredentials_revoked Let_def)
  next
    case False
    then show thesis using 1 rest row by (intro that [OF row]) (auto simp: tx_ok)
  qed
qed

section \<open>Keys stay within their grants\<close>

text \<open>Changes of expiry, revocation and use.\<close>

definition touches :: "(string, credential_row) gomap \<Rightarrow> (string, credential_row) gomap \<Rightarrow> bool" where
  "touches C C' \<longleftrightarrow> (mwf C \<longrightarrow> mwf C') \<and> keeps sameKey C C' \<and> dom (mget C') = dom (mget C)"

lemma touches_refl [simp]: "touches C C"
  by (simp add: touches_def keeps_refl)

lemma touches_mput: "mget C i = Some row \<Longrightarrow> sameKey row row' \<Longrightarrow> touches C (mput i row' C)"
  by (auto simp: touches_def keeps_def go_map)

lemma touches_revokeRows: "touches C (revokeRows P now C)"
  by (auto simp: touches_def keeps_revokeRows mget_revokeRows dom_def)

lemma touches_trans: "touches C C' \<Longrightarrow> touches C' C'' \<Longrightarrow> touches C C''"
  unfolding touches_def using keeps_trans [of sameKey C C' C''] sameKey_trans by metis

lemma touchesD:
  assumes "touches C C'" and "mget C' i = Some row'"
  obtains row where "mget C i = Some row" "sameKey row row'"
proof -
  obtain row where "mget C i = Some row" using assms unfolding touches_def by (metis domD domI)
  then show thesis using that assms unfolding touches_def keeps_def by (metis option.inject)
qed

lemma sameKey_fields:
  assumes "sameKey row row'"
  shows "cw_ProvisionedBy row' = cw_ProvisionedBy row" "cw_Kind row' = cw_Kind row" "cw_AgentID row' = cw_AgentID row"
    "cw_OwnerMembershipID row' = cw_OwnerMembershipID row" "cw_UserID row' = cw_UserID row" "cw_Permissions row' = cw_Permissions row"
    "cw_GrantablePermissions row' = cw_GrantablePermissions row" "cw_Label row' = cw_Label row" "cw_KeyDigest row' = cw_KeyDigest row"
  using assms unfolding sameKey_def by (metis credential_row.surjective credential_row.update_convs(9-11) credential_row.select_convs)+

text \<open>A key that a device provisioned belongs to the owner of the device and has only permissions the device may grant.\<close>

definition granted :: "(string, credential_row) gomap \<Rightarrow> credential_row \<Rightarrow> bool" where
  "granted C row \<longleftrightarrow> (\<forall>d. cw_ProvisionedBy row = Some d \<longrightarrow> (\<exists>dev. mget C d = Some dev \<and> cw_Kind dev = ''device'' \<and>
     cw_Kind row = ''agent'' \<and> cw_OwnerMembershipID row = cw_OwnerMembershipID dev \<and> cw_UserID row = cw_UserID dev \<and>
     set (cw_Permissions row) \<subseteq> set (cw_GrantablePermissions dev)))"

definition keys_ok :: "int \<Rightarrow> (string, credential_row) gomap \<Rightarrow> bool" where
  "keys_ok limit C \<longleftrightarrow> mwf C \<and> (\<forall>i row. mget C i = Some row \<longrightarrow> granted C row) \<and> (\<forall>d. int (card (activeOf C d)) \<le> limit)"

lemma granted_keeps:
  assumes "granted C row" and "sameKey row row'" and "keeps sameKey C C'"
  shows "granted C' row'"
  unfolding granted_def
proof (intro allI impI)
  fix d assume "cw_ProvisionedBy row' = Some d"
  then obtain dev where dev: "mget C d = Some dev" "cw_Kind dev = ''device''" "cw_Kind row = ''agent''"
    "cw_OwnerMembershipID row = cw_OwnerMembershipID dev" "cw_UserID row = cw_UserID dev" "set (cw_Permissions row) \<subseteq> set (cw_GrantablePermissions dev)"
    using assms(1) sameKey_fields [OF assms(2)] unfolding granted_def by auto
  then obtain dev' where "mget C' d = Some dev'" "sameKey dev dev'" using assms(3) unfolding keeps_def by blast
  then show "\<exists>dev. mget C' d = Some dev \<and> cw_Kind dev = ''device'' \<and> cw_Kind row' = ''agent'' \<and>
      cw_OwnerMembershipID row' = cw_OwnerMembershipID dev \<and> cw_UserID row' = cw_UserID dev \<and>
      set (cw_Permissions row') \<subseteq> set (cw_GrantablePermissions dev)"
    using dev sameKey_fields [OF assms(2)] sameKey_fields [of dev dev'] by auto
qed

lemma activeOf_mget: "mwf C \<Longrightarrow> activeOf C d = {cw_AgentID row |i row. mget C i = Some row \<and> cw_ProvisionedBy row = Some d \<and> cw_RevokedAt row = None}"
  by (simp add: activeOf_def)

lemma activeOf_touches:
  assumes "mwf C" and "touches C C'"
  shows "activeOf C' d \<subseteq> activeOf C d"
proof
  fix a assume "a \<in> activeOf C' d"
  moreover have "mwf C'" using assms by (simp add: touches_def)
  ultimately obtain i row' where row': "mget C' i = Some row'" "cw_ProvisionedBy row' = Some d" "cw_RevokedAt row' = None" "a = cw_AgentID row'"
    by (auto simp: activeOf_mget)
  from assms(2) row'(1) obtain row where row: "mget C i = Some row" "sameKey row row'" by (rule touchesD)
  then have "cw_RevokedAt row = None" using row'(3) by (auto simp: sameKey_def)
  then have "cw_ProvisionedBy row = Some d \<and> cw_RevokedAt row = None \<and> a = cw_AgentID row"
    using row' sameKey_fields [OF row(2)] by simp
  then show "a \<in> activeOf C d" using row(1) assms(1) unfolding activeOf_mget [OF assms(1)] by blast
qed

lemma keys_ok_touches:
  assumes "keys_ok limit C" and "touches C C'"
  shows "keys_ok limit C'"
  unfolding keys_ok_def
proof (intro conjI allI impI)
  have wf: "mwf C" using assms(1) by (simp add: keys_ok_def)
  show "mwf C'" using wf assms(2) by (simp add: touches_def)
  show "granted C' row'" if m: "mget C' i = Some row'" for i row'
  proof -
    obtain row where "mget C i = Some row" "sameKey row row'" by (rule touchesD [OF assms(2) m])
    then show ?thesis using granted_keeps [of C row row' C'] assms unfolding keys_ok_def touches_def by blast
  qed
  show "int (card (activeOf C' d)) \<le> limit" for d
    using activeOf_touches [OF wf assms(2), of d] card_mono [of "activeOf C d" "activeOf C' d"] assms(1) unfolding keys_ok_def
    by (smt (verit) finite_activeOf of_nat_le_iff)
qed

lemma activeOf_add:
  assumes "mwf C" and "mget C i = None"
  shows "activeOf (mput i row C) d = (if cw_ProvisionedBy row = Some d \<and> cw_RevokedAt row = None then insert (cw_AgentID row) (activeOf C d) else activeOf C d)"
proof -
  have "(\<exists>j r. mget (mput i row C) j = Some r \<and> Q r) \<longleftrightarrow> Q row \<or> (\<exists>j r. mget C j = Some r \<and> Q r)" for Q
    using assms(2) by (simp only: mget_mput) (metis fun_upd_apply option.distinct(1) option.inject)
  from this [of "\<lambda>r. cw_ProvisionedBy r = Some d \<and> cw_RevokedAt r = None \<and> a = cw_AgentID r" for a]
  have "a \<in> activeOf (mput i row C) d \<longleftrightarrow> (cw_ProvisionedBy row = Some d \<and> cw_RevokedAt row = None \<and> a = cw_AgentID row) \<or> a \<in> activeOf C d" for a
    unfolding activeOf_mget [OF assms(1)] activeOf_mget [OF mwf_mput [OF assms(1)]] by blast
  then show ?thesis by (auto simp: set_eq_iff)
qed

lemma keys_ok_add:
  assumes "keys_ok limit C" and "mget C i = None" and "granted C row"
    and "\<And>d. cw_ProvisionedBy row = Some d \<Longrightarrow> cw_RevokedAt row = None \<Longrightarrow> int (card (insert (cw_AgentID row) (activeOf C d))) \<le> limit"
  shows "keys_ok limit (mput i row C)"
proof -
  have wf: "mwf C" using assms(1) by (simp add: keys_ok_def)
  have "keeps sameKey C (mput i row C)" using assms(2) by (intro keeps_mput) simp_all
  then have "granted (mput i row C) r" if "granted C r" for r using granted_keeps [OF that sameKey_refl] by blast
  then show ?thesis
    using assms wf unfolding keys_ok_def by (auto simp: go_map activeOf_add [OF wf assms(2)] split: if_splits)
qed

end
