(* ===== verification/Credential_Theorems.thy ===== *)
theory Credential_Theorems
  imports Credential_Invariant
begin

text \<open>
  What the credentials of the on-premises deployment promise, over every history of the service's operations, with
  any failures, clocks and snapshots, interleaved with the changes that the directory of members and agents makes to the
  same tables.
\<close>

section \<open>Histories\<close>

text \<open>A principal that the service handed out for a key of the table.\<close>

definition issued :: "cred_db \<Rightarrow> principal \<Rightarrow> bool" where
  "issued db p \<longleftrightarrow> (\<exists>row. mget (cd_credentials db) (pr_CredentialID p) = Some row \<and> p = principalOf (credentialOf (pr_CredentialID p, row)))"

text \<open>What the directory (\<open>internal/platform/postgres/registry.go\<close>, \<open>identity.go\<close>) does to the tables of secrets: it
  revokes keys and enrollments and adds enrollments.  Its other tables change as they like.\<close>

definition directory_change :: "cred_db \<Rightarrow> cred_db \<Rightarrow> bool" where
  "directory_change db db' \<longleftrightarrow> touches (cd_credentials db) (cd_credentials db') \<and>
     (mwf (cd_enrollments db) \<longrightarrow> mwf (cd_enrollments db')) \<and> keeps sameEnrollment (cd_enrollments db) (cd_enrollments db')"

inductive onprem_step :: "credential_service \<Rightarrow> cred_db \<Rightarrow> cred_db \<Rightarrow> bool" for sv where
  authenticates: "onprem_step sv db (fst (Authenticate E sv db apiKey))"
| enrolls: "onprem_step sv db (fst (CreateEnrollment E sv db p request))"
| exchanges: "onprem_step sv db (fst (ExchangeEnrollment E sv seenBoth db tok))"
| rotates: "issued db p \<Longrightarrow> onprem_step sv db (fst (RotateCredential E sv db p))"
| revokes: "onprem_step sv db (fst (RevokeCredential E seen db p credentialID))"
| provisions: "issued db p \<Longrightarrow> onprem_step sv db (fst (ProvisionDeviceAgent E sv seen db p provision))"
| directory: "directory_change db db' \<Longrightarrow> onprem_step sv db db'"

abbreviation onprem_reaches :: "credential_service \<Rightarrow> cred_db \<Rightarrow> cred_db \<Rightarrow> bool" where
  "onprem_reaches sv \<equiv> (onprem_step sv)\<^sup>*\<^sup>*"

section \<open>How a step changes the keys\<close>

text \<open>A new key is exchanged for an enrollment, replaces a key that is not revoked, or is provisioned by a device
  that is not revoked.  \<open>C1\<close> is the table the key is inserted in.\<close>

definition replaces :: "(string, credential_row) gomap \<Rightarrow> (string, credential_row) gomap \<Rightarrow> credential_row \<Rightarrow> bool" where
  "replaces C C1 row \<longleftrightarrow> (\<exists>j old d. mget C j = Some old \<and> cw_RevokedAt old = None \<and> cw_ProvisionedBy old = Some d \<and>
     cw_ProvisionedBy row = Some d \<and> cw_Kind row = credentialKindOrDefault (cw_Kind old) \<and>
     cw_OwnerMembershipID row = cw_OwnerMembershipID old \<and> cw_UserID row = cw_UserID old \<and> cw_Permissions row = cw_Permissions old \<and>
     cw_AgentID row \<in> activeOf C1 d)"

definition provisionedWithin :: "int \<Rightarrow> (string, credential_row) gomap \<Rightarrow> (string, credential_row) gomap \<Rightarrow> credential_row \<Rightarrow> bool" where
  "provisionedWithin limit C C1 row \<longleftrightarrow> (\<exists>d dev. mget C d = Some dev \<and> cw_Kind dev = ''device'' \<and> cw_RevokedAt dev = None \<and>
     cw_ProvisionedBy row = Some d \<and> cw_Kind row = ''agent'' \<and>
     cw_OwnerMembershipID row = cw_OwnerMembershipID dev \<and> cw_UserID row = cw_UserID dev \<and>
     set (cw_Permissions row) \<subseteq> set (cw_GrantablePermissions dev) \<and> int (card (activeOf C1 d - {cw_AgentID row})) < limit)"

definition adds_key :: "int \<Rightarrow> (string, credential_row) gomap \<Rightarrow> (string, credential_row) gomap \<Rightarrow> bool" where
  "adds_key limit C C' \<longleftrightarrow> (\<exists>C1 i row. touches C C1 \<and> mget C1 i = None \<and> C' = mput i row C1 \<and> cw_RevokedAt row = None \<and>
     (cw_ProvisionedBy row = None \<or> replaces C C1 row \<or> provisionedWithin limit C C1 row))"

definition change :: "int \<Rightarrow> cred_db \<Rightarrow> cred_db \<Rightarrow> bool" where
  "change limit db db' \<longleftrightarrow> (touches (cd_credentials db) (cd_credentials db') \<or> adds_key limit (cd_credentials db) (cd_credentials db')) \<and>
     (mwf (cd_enrollments db) \<longrightarrow> mwf (cd_enrollments db')) \<and> keeps sameEnrollment (cd_enrollments db) (cd_enrollments db')"

lemma change_refl [simp]: "change limit db db"
  by (simp add: change_def keeps_refl)

lemma keeps_add_enrollment: "mget m k = None \<Longrightarrow> keeps sameEnrollment m (mput k v m)"
  by (rule keeps_mput) simp_all

lemma nullableText_coalesce: "nullableText (coalesce s) = Some d \<Longrightarrow> s = Some d"
  by (auto simp: nullableText_def coalesce_def split: option.splits if_splits)

lemma nullableText_some: "s \<noteq> [] \<Longrightarrow> nullableText s = Some s"
  by (simp add: nullableText_def)

lemma sameKey_expireAt [simp]: "sameKey row (expireAt overlap row)"
  by (cases row) (simp add: sameKey_def expireAt_def)

lemma activeOfI:
  "mget C i = Some row \<Longrightarrow> mwf C \<Longrightarrow> cw_ProvisionedBy row = Some d \<Longrightarrow> cw_RevokedAt row = None \<Longrightarrow> cw_AgentID row \<in> activeOf C d"
  by (subst activeOf_mget) auto

text \<open>Each operation of the store.\<close>

lemma change_resolve:
  assumes "ResolveCredential E db cid dg now = (db', r)" and "mwf (cd_credentials db)"
  shows "change limit db db'"
proof (cases r)
  case (Inl e)
  with assms(1) have "ResolveCredential E db cid dg now = (db', Inl e)" by simp
  then have "db' = db" unfolding ResolveCredential_def by (rule autocommit_error)
  then show ?thesis by simp
next
  case (Inr c)
  with assms(1) have "ResolveCredential E db cid dg now = (db', Inr c)" by simp
  then obtain i row where "(i, row) \<in> set (cd_credentials db)"
    "db' = db\<lparr>cd_credentials := mput i (row\<lparr>cw_LastUsedAt := Some (pg_time now)\<rparr>) (cd_credentials db)\<rparr>"
    by (rule resolve_effect)
  moreover have "sameKey row (row\<lparr>cw_LastUsedAt := Some (pg_time now)\<rparr>)" by (simp add: sameKey_def)
  ultimately show ?thesis using assms(2) by (auto simp: change_def keeps_refl intro!: touches_mput)
qed

lemma change_save: "SaveEnrollment E db r = (db', u) \<Longrightarrow> change limit db db'"
  unfolding SaveEnrollment_def
  by (cases u) (auto simp: change_def keeps_refl keeps_add_enrollment dest!: transaction_error transaction_ok elim!: saveEnrollment_effect)

lemma change_exchange:
  assumes "storeExchangeEnrollment E seen db eid dg c now = (db', r)" and "mwf (cd_enrollments db)" and "kr_ProvisionedBy c = []"
  shows "change limit db db'"
proof (cases r)
  case (Inl e)
  then show ?thesis using assms by (auto simp: storeExchangeEnrollment_def dest!: transaction_error)
next
  case (Inr en)
  then have "exchangeEnrollmentTx E seen eid dg c now db = Inr (db', en)" using assms by (auto simp: storeExchangeEnrollment_def dest!: transaction_ok)
  then obtain i row where row: "(i, row) \<in> set (cd_enrollments db)" "openEnrollment eid dg now (i, row)"
    "cd_enrollments db' = mput i (consumedRow now (kr_ID c) row) (cd_enrollments db)"
    "cd_credentials db' = mput (kr_ID c) (issuedRow c row) (cd_credentials db)" "mget (cd_credentials db) (kr_ID c) = None"
    by (rule exchange_effect)
  have "sameEnrollment row (consumedRow now (kr_ID c) row)" by (simp add: sameEnrollment_def consumedRow_def)
  then have "keeps sameEnrollment (cd_enrollments db) (cd_enrollments db')"
    using row(1) assms(2) unfolding row(3) by (intro keeps_mput) auto
  moreover have "cw_RevokedAt (issuedRow c row) = None" "cw_ProvisionedBy (issuedRow c row) = None"
    using assms(3) by (simp_all add: issuedRow_def credentialRow_def nullableText_def)
  then have "adds_key limit (cd_credentials db) (cd_credentials db')" using row(4,5) unfolding adds_key_def by (metis touches_refl)
  ultimately show ?thesis using row(3) by (simp add: change_def)
qed

lemma change_rotate:
  assumes "storeRotateCredential E db (pr_CredentialID p) r overlap = (db', u)" and "issued db p" and "mwf (cd_credentials db)"
    and "r = (replacementFor p)\<lparr>kr_ID := i, kr_KeyDigest := k, kr_DigestKeyVersion := v, kr_CreatedAt := now\<rparr>"
  shows "change limit db db'"
proof (cases u)
  case (Inl e)
  then show ?thesis using assms by (auto simp: storeRotateCredential_def dest!: transaction_error)
next
  case (Inr x)
  then have "rotateCredentialTx E (pr_CredentialID p) r overlap db = Inr (db', x)" using assms by (auto simp: storeRotateCredential_def dest!: transaction_ok)
  then obtain row where row: "mget (cd_credentials db) (pr_CredentialID p) = Some row" "cw_RevokedAt row = None"
    "cd_credentials db' = mput (kr_ID r) (credentialRow r (coalesce (cw_ProvisionedBy row))) (mput (pr_CredentialID p) (expireAt overlap row) (cd_credentials db))"
    "kr_ID r \<noteq> pr_CredentialID p" "mget (cd_credentials db) (kr_ID r) = None" "cd_enrollments db' = cd_enrollments db"
    by (rule rotate_effect)
  let ?C1 = "mput (pr_CredentialID p) (expireAt overlap row) (cd_credentials db)" and ?new = "credentialRow r (coalesce (cw_ProvisionedBy row))"
  have p: "p = principalOf (credentialOf (pr_CredentialID p, row))" using assms(2) row(1) by (auto simp: issued_def)
  have touch: "touches (cd_credentials db) ?C1" by (rule touches_mput [OF row(1)]) simp
  have new: "cw_RevokedAt ?new = None" "cw_ProvisionedBy ?new = nullableText (coalesce (cw_ProvisionedBy row))"
    "cw_Kind ?new = credentialKindOrDefault (cw_Kind row)" "cw_OwnerMembershipID ?new = cw_OwnerMembershipID row" "cw_UserID ?new = cw_UserID row"
    "cw_Permissions ?new = cw_Permissions row" "cw_AgentID ?new = cw_AgentID row"
    by (simp_all add: credentialRow_def assms(4) replacementFor_def, subst p, simp_all add: principalOf_def credentialOf_def)
      (subst p, simp add: principalOf_def credentialOf_def)+
  have "cw_ProvisionedBy ?new = None \<or> replaces (cd_credentials db) ?C1 ?new"
  proof (cases "cw_ProvisionedBy ?new")
    case (Some d)
    then have d: "cw_ProvisionedBy row = Some d" using new(2) nullableText_coalesce by metis
    have "mget ?C1 (pr_CredentialID p) = Some (expireAt overlap row)" by (simp add: go_map)
    moreover have "mwf ?C1" using assms(3) by simp
    ultimately have "cw_AgentID (expireAt overlap row) \<in> activeOf ?C1 d"
      by (rule activeOfI) (use row(2) d in \<open>simp_all add: expireAt_def\<close>)
    then have "cw_AgentID row \<in> activeOf ?C1 d" by (simp add: expireAt_def)
    then show ?thesis using row(1,2) new Some d unfolding replaces_def by metis
  qed simp
  moreover have "mget ?C1 (kr_ID r) = None" using row(4,5) by (simp add: go_map)
  ultimately have "adds_key limit (cd_credentials db) (cd_credentials db')" using touch new(1) row(3) unfolding adds_key_def by metis
  then show ?thesis using row(6) by (simp add: change_def keeps_refl)
qed

lemma deviceGrantedPermissions_within: "deviceGrantedPermissions requested allowed = Inr ps \<Longrightarrow> set ps \<subseteq> set allowed"
  by (auto simp: deviceGrantedPermissions_def find_None_iff split: if_splits sum.splits option.splits)

lemma requireDeviceProvisioner_ok: "requireDeviceProvisioner p = Inr u \<Longrightarrow> pr_CredentialID p \<noteq> [] \<and> pr_Kind p = CredentialKindDevice"
  by (auto simp: requireDeviceProvisioner_def split: if_splits)

lemma change_provision:
  assumes "ProvisionAgentCredential E seen db (pr_CredentialID p) pf c limit now = (db', u)" and "issued db p" and "pr_CredentialID p \<noteq> []"
    and "c = (deviceCredential p (ap_AgentID pf) label permissions)\<lparr>kr_ID := i, kr_KeyDigest := k, kr_DigestKeyVersion := v, kr_CreatedAt := created\<rparr>"
    and "set permissions \<subseteq> set (pr_GrantablePermissions p)"
  shows "change limit db db'"
proof (cases u)
  case (Inl e)
  then show ?thesis using assms by (auto simp: ProvisionAgentCredential_def dest!: transaction_error)
next
  case (Inr out)
  then have "provisionTx E seen (pr_CredentialID p) pf c limit now db = Inr (db', out)"
    using assms by (auto simp: ProvisionAgentCredential_def dest!: transaction_ok)
  then obtain dev C1 P where dev: "mget (cd_credentials db) (pr_CredentialID p) = Some dev" "cw_Kind dev = ''device''" "cw_RevokedAt dev = None"
    and C1: "C1 = revokeRows P now (cd_credentials db)" "cd_credentials db' = mput (kr_ID c) (credentialRow c (kr_ProvisionedBy c)) C1"
      "mget C1 (kr_ID c) = None" "cd_enrollments db' = cd_enrollments db" "int (card (activeOf C1 (pr_CredentialID p) - {ap_AgentID pf})) < limit"
    by (rule provision_effect)
  have p: "p = principalOf (credentialOf (pr_CredentialID p, dev))" using assms(2) dev(1) by (auto simp: issued_def)
  have fields: "pr_MembershipID p = cw_OwnerMembershipID dev" "pr_UserID p = cw_UserID dev" "pr_GrantablePermissions p = cw_GrantablePermissions dev"
    by (subst p, simp add: principalOf_def credentialOf_def)+
  let ?new = "credentialRow c (kr_ProvisionedBy c)"
  have new: "cw_RevokedAt ?new = None" "cw_ProvisionedBy ?new = Some (pr_CredentialID p)" "cw_Kind ?new = ''agent''"
    "cw_OwnerMembershipID ?new = cw_OwnerMembershipID dev" "cw_UserID ?new = cw_UserID dev" "cw_Permissions ?new = permissions"
    "cw_AgentID ?new = ap_AgentID pf"
    using fields assms(3) by (simp_all add: credentialRow_def assms(4) deviceCredential_def nullableText_some credentialKindOrDefault_def CredentialKindAgent_def)
  then have "provisionedWithin limit (cd_credentials db) C1 ?new"
    using dev C1(5) assms(5) fields(3) unfolding provisionedWithin_def by metis
  then have "adds_key limit (cd_credentials db) (cd_credentials db')"
    using C1 new(1) touches_revokeRows unfolding adds_key_def by metis
  then show ?thesis using C1(4) by (simp add: change_def keeps_refl)
qed

lemma change_revoke:
  assumes "storeRevokeCredential E seen db i now = (db', u)"
  shows "change limit db db'"
proof (cases u)
  case (Inl e)
  then show ?thesis using assms by (auto simp: storeRevokeCredential_def dest!: transaction_error)
next
  case (Inr x)
  then have "revokeCredentialTx E seen i now db = Inr (db', x)" using assms by (auto simp: storeRevokeCredential_def dest!: transaction_ok)
  then obtain row where row: "mget (cd_credentials db) i = Some row" "cd_enrollments db' = cd_enrollments db"
    "cd_credentials db' = (let C = mput i (revoked now row) (cd_credentials db) in
       if cw_Kind row = CredentialKindDevice
       then revokeRows (\<lambda>cr. provisionedBy i cr \<and> fst cr \<in> set (map fst (filter (provisionedBy i) (cd_credentials seen)))) now C else C)"
    by (rule revoke_effect)
  have "touches (cd_credentials db) (mput i (revoked now row) (cd_credentials db))" by (rule touches_mput [OF row(1)]) simp
  then have "touches (cd_credentials db) (cd_credentials db')"
    unfolding row(3) Let_def using touches_trans [OF _ touches_revokeRows] by simp
  then show ?thesis using row(2) by (simp add: change_def keeps_refl)
qed

section \<open>The operations of the service\<close>

lemma resolve_error: "ResolveCredential E db cid dg now = (db', Inl e) \<Longrightarrow> db' = db"
  unfolding ResolveCredential_def by (rule autocommit_error)

lemma exchange_error: "storeExchangeEnrollment E seen db eid dg c now = (db', Inl e) \<Longrightarrow> db' = db"
  unfolding storeExchangeEnrollment_def by (rule transaction_error)

text \<open>An authentication with a key is one lookup that counts: the last.\<close>

definition lookedUp :: "service_env \<Rightarrow> credential_service \<Rightarrow> cred_db \<Rightarrow> string \<Rightarrow> cred_db \<Rightarrow> credential_record res \<Rightarrow> bool" where
  "lookedUp E sv db apiKey db' r \<longleftrightarrow>
     (\<exists>dg n. dg \<in> {Digest (sv_digester sv) credentialDigestDomain apiKey, digest apiKey} \<and>
        ResolveCredential (se_store E) db (coalesce (secretPublicID apiKey ''tm_key_'')) dg (se_clock E n) = (db', r))"

lemma lookedUpI:
  "dg \<in> {Digest (sv_digester sv) credentialDigestDomain apiKey, digest apiKey} \<Longrightarrow>
     ResolveCredential (se_store E) db (coalesce (secretPublicID apiKey ''tm_key_'')) dg (se_clock E n) = (db', r) \<Longrightarrow>
     lookedUp E sv db apiKey db' r"
  unfolding lookedUp_def by blast

definition authenticated :: "credential_record res \<Rightarrow> principal res" where
  "authenticated outcome = (case outcome of
     Inl e \<Rightarrow> Inl (wrapf ''authenticate agent credential: '' (if unknownKey e then ErrUnauthorized else e))
   | Inr record \<Rightarrow> Inr (principalOf record))"

lemma Authenticate_key:
  assumes "trim_space presented \<noteq> []" and "\<not> (cc_AdminAPIKey (sv_config sv) \<noteq> [] \<and> constantTimeEqual (trim_space presented) (cc_AdminAPIKey (sv_config sv)))"
  shows "Authenticate E sv db presented =
     (let apiKey = trim_space presented in
      if \<not> prefix ''tm_key_'' apiKey then (db, Inl ErrUnauthorized)
      else
        let publicID = secretPublicID apiKey ''tm_key_''; credentialID = coalesce publicID;
            (db1, first) = (if publicID = None then (db, Inl ErrUnauthorized)
              else ResolveCredential (se_store E) db credentialID (Digest (sv_digester sv) credentialDigestDomain apiKey) (se_clock E 0));
            (db2, outcome) = (if publicID = None \<or> (case first of Inl e \<Rightarrow> unknownKey e | Inr _ \<Rightarrow> False)
              then ResolveCredential (se_store E) db1 credentialID (digest apiKey) (se_clock E (if publicID = None then 0 else 1))
              else (db1, first))
        in (db2, authenticated outcome))"
  using assms by (simp only: Authenticate_def authenticated_def coalesce_def Let_def if_not_P if_False)

lemma authenticate_lookup:
  assumes "Authenticate E sv db presented = (db', r)" and "prefix ''tm_key_'' (trim_space presented)" and "trim_space presented \<noteq> []"
    and "\<not> (cc_AdminAPIKey (sv_config sv) \<noteq> [] \<and> constantTimeEqual (trim_space presented) (cc_AdminAPIKey (sv_config sv)))"
  obtains outcome where "lookedUp E sv db (trim_space presented) db' outcome" "r = authenticated outcome"
proof -
  let ?k = "trim_space presented"
  let ?attempt = "\<lambda>db dg n. ResolveCredential (se_store E) db (coalesce (secretPublicID ?k ''tm_key_'')) dg (se_clock E n)"
  note auth = assms(1) [unfolded Authenticate_key [OF assms(3,4)] Let_def]
  obtain db1 o1 where first: "?attempt db (Digest (sv_digester sv) credentialDigestDomain ?k) 0 = (db1, o1)" by fastforce
  obtain db2 o2 where second: "?attempt db (digest ?k) 1 = (db2, o2)" by fastforce
  obtain db3 o3 where only: "?attempt db (digest ?k) 0 = (db3, o3)" by fastforce
  consider "secretPublicID ?k ''tm_key_'' = None" | e where "secretPublicID ?k ''tm_key_'' \<noteq> None" "o1 = Inl e" "unknownKey e"
    | "secretPublicID ?k ''tm_key_'' \<noteq> None" "\<not> (case o1 of Inl e \<Rightarrow> unknownKey e | Inr _ \<Rightarrow> False)"
    by (cases o1) auto
  then show thesis
  proof cases
    case 1
    then show thesis using auth assms(2) only by (intro that [of o3]) (auto simp: lookedUp_def)
  next
    case 2
    then have "db1 = db" using first resolve_error by blast
    then show thesis using auth 2 assms(2) first second by (intro that [of o2]) (auto simp: lookedUp_def)
  next
    case 3
    then have "db' = db1" "r = authenticated o1" using auth assms(2) first by auto
    then show thesis using lookedUpI [of _ sv, OF _ first] that by simp
  qed
qed

lemma authenticate_cases:
  assumes "Authenticate E sv db presented = (db', r)"
  obtains "db' = db" "\<And>p. r = Inr p \<Longrightarrow> p = adminPrincipal \<and> trim_space presented = cc_AdminAPIKey (sv_config sv) \<and>
      cc_AdminAPIKey (sv_config sv) \<noteq> [] \<and> cd_BootstrapClaimedAt db = None"
  | outcome where "prefix ''tm_key_'' (trim_space presented)" "lookedUp E sv db (trim_space presented) db' outcome" "r = authenticated outcome"
proof -
  let ?k = "trim_space presented" and ?admin = "cc_AdminAPIKey (sv_config sv)"
  consider "?k = []" | "?k \<noteq> []" "?admin \<noteq> [] \<and> constantTimeEqual ?k ?admin" | "?k \<noteq> []" "\<not> (?admin \<noteq> [] \<and> constantTimeEqual ?k ?admin)" by blast
  then show thesis
  proof cases
    case 1
    then show thesis using assms by (intro that(1)) (auto simp: Authenticate_def Let_def)
  next
    case 2
    then show thesis using assms
      by (intro that(1)) (auto simp: Authenticate_def Let_def constantTimeEqual_def LegacyAdminEnabled_def split: if_splits option.splits)
  next
    case 3
    show thesis
    proof (cases "prefix ''tm_key_'' ?k")
      case False
      then show thesis using assms Authenticate_key [OF 3, of E db] by (intro that(1)) (simp_all add: Let_def)
    next
      case True
      show thesis by (rule authenticate_lookup [OF assms True 3]) (rule that(2) [OF True])
    qed
  qed
qed

lemma newCredential_ok:
  assumes "newCredential E sv base = Inr (i, apiKey, rec)"
  shows "\<exists>secret. se_token E 0 = Inr i \<and> se_token E 1 = Inr secret \<and> apiKey = ''tm_key_'' @ i @ ''.'' @ secret"
    "rec = base\<lparr>kr_ID := i, kr_KeyDigest := Digest (sv_digester sv) credentialDigestDomain apiKey,
            kr_DigestKeyVersion := currentDigestKeyVersion, kr_CreatedAt := se_clock E 0\<rparr>"
  using assms by (auto simp: newCredential_def newTokens_def Let_def split: sum.splits)

text \<open>An exchange is one attempt that counts.\<close>

lemma exchange_cases:
  assumes "ExchangeEnrollment E sv seen db tok = (db', r)"
  obtains "db' = db" "\<And>c. r \<noteq> Inr c"
  | v eid i apiKey rec dg n m outcome where "parseEnrollmentToken tok = Some (v, eid)" "newCredential E sv zeroCredential = Inr (i, apiKey, rec)"
      "storeExchangeEnrollment (se_store E) (seen m) db eid dg rec (se_clock E n) = (db', outcome)"
      "\<And>c. r = Inr c \<Longrightarrow> (\<exists>en. outcome = Inr en \<and> c = \<lparr>is_CredentialID = i, is_APIKey = apiKey, is_UserID = nr_UserID en,
                 is_Permissions = nr_Permissions en, is_Kind = nr_Kind en, is_ExpiresAt = nr_CredentialExpiresAt en\<rparr>)"
proof (cases "parseEnrollmentToken tok")
  case None
  then show thesis using assms by (intro that(1)) (auto simp: ExchangeEnrollment_def)
next
  case (Some ve)
  obtain v eid where parse: "parseEnrollmentToken tok = Some (v, eid)" using Some by (cases ve) auto
  show thesis
  proof (cases "newCredential E sv zeroCredential")
    case (Inl e)
    then show thesis using assms parse by (intro that(1)) (auto simp: ExchangeEnrollment_def)
  next
    case (Inr new)
    obtain i apiKey rec where new: "newCredential E sv zeroCredential = Inr (i, apiKey, rec)" using Inr by (cases new) auto
    let ?attempt = "\<lambda>db m dg n. storeExchangeEnrollment (se_store E) (seen m) db eid dg rec (se_clock E n)"
    obtain db1 o1 where first: "?attempt db 0 (Digest (sv_digester sv) enrollmentDigestDomain v) 1 = (db1, o1)" by fastforce
    show thesis
    proof (cases "case o1 of Inl e \<Rightarrow> errors_is e ErrEnrollmentInvalid | Inr _ \<Rightarrow> False")
      case True
      then have "db1 = db" using first exchange_error by (fastforce split: sum.splits)
      moreover obtain db2 o2 where second: "?attempt db1 1 (digest v) 2 = (db2, o2)" by fastforce
      ultimately have "?attempt db 1 (digest v) 2 = (db', o2)" using assms parse new first True by (simp add: ExchangeEnrollment_def)
      moreover have "r = (case o2 of Inl e \<Rightarrow> Inl (wrapf ''exchange agent enrollment: '' e)
             | Inr en \<Rightarrow> Inr \<lparr>is_CredentialID = i, is_APIKey = apiKey, is_UserID = nr_UserID en,
                 is_Permissions = nr_Permissions en, is_Kind = nr_Kind en, is_ExpiresAt = nr_CredentialExpiresAt en\<rparr>)"
        using assms parse new first second True by (simp add: ExchangeEnrollment_def)
      ultimately show thesis by (intro that(2) [OF parse new]) (auto split: sum.splits)
    next
      case False
      then have "?attempt db 0 (Digest (sv_digester sv) enrollmentDigestDomain v) 1 = (db', o1)" using assms parse new first by (simp add: ExchangeEnrollment_def)
      moreover have "r = (case o1 of Inl e \<Rightarrow> Inl (wrapf ''exchange agent enrollment: '' e)
             | Inr en \<Rightarrow> Inr \<lparr>is_CredentialID = i, is_APIKey = apiKey, is_UserID = nr_UserID en,
                 is_Permissions = nr_Permissions en, is_Kind = nr_Kind en, is_ExpiresAt = nr_CredentialExpiresAt en\<rparr>)"
        using assms parse new first False by (simp add: ExchangeEnrollment_def)
      ultimately show thesis by (intro that(2) [OF parse new]) (auto split: sum.splits)
    qed
  qed
qed

section \<open>Steps\<close>

definition cred_wf :: "cred_db \<Rightarrow> bool" where
  "cred_wf db \<longleftrightarrow> mwf (cd_credentials db) \<and> mwf (cd_enrollments db)"

lemma change_ProvisionDeviceAgent:
  assumes "ProvisionDeviceAgent E sv seen db p request = (db', r)" and "issued db p"
  shows "change (cc_DeviceAgentLimit (sv_config sv)) db db'"
proof (cases "db' = db")
  case False
  let ?a = "trim_space (dq_AgentID request)" and ?n = "trim_space (dq_DisplayName request)" and ?t = "trim_space (dq_AgentType request)"
  obtain permissions i apiKey rec u outcome where guard: "requireDeviceProvisioner p = Inr u"
    and perms: "deviceGrantedPermissions (dq_Permissions request) (pr_GrantablePermissions p) = Inr permissions"
    and new: "newCredential E sv (deviceCredential p ?a ?n permissions) = Inr (i, apiKey, rec)"
    and store: "ProvisionAgentCredential (se_store E) seen db (pr_CredentialID p) (deviceProfile p ?a ?n ?t (kr_CreatedAt rec)) rec
        (cc_DeviceAgentLimit (sv_config sv)) (kr_CreatedAt rec) = (db', outcome)"
    using assms(1) False unfolding ProvisionDeviceAgent_def Let_def by (auto split: sum.splits prod.splits if_splits)
  show ?thesis
    using change_provision [OF store assms(2)] requireDeviceProvisioner_ok [OF guard] deviceGrantedPermissions_within [OF perms] newCredential_ok(2) [OF new]
    by (simp add: deviceProfile_def)
qed simp

lemma step_change:
  assumes "onprem_step sv db db'" and "cred_wf db"
  shows "change (cc_DeviceAgentLimit (sv_config sv)) db db'"
  using assms
proof (induction rule: onprem_step.induct)
  case (authenticates db E apiKey)
  show ?case
  proof (rule authenticate_cases [OF prod.collapse [symmetric], of E sv db apiKey])
    fix outcome assume "lookedUp E sv db (trim_space apiKey) (fst (Authenticate E sv db apiKey)) outcome"
    then show ?thesis using authenticates change_resolve unfolding lookedUp_def cred_wf_def by blast
  qed simp
next
  case (enrolls db E p request)
  show ?case
    unfolding CreateEnrollment_def Let_def by (auto simp: change_save split: sum.splits prod.splits)
next
  case (exchanges db E seenBoth tok)
  show ?case
  proof (rule exchange_cases [OF prod.collapse [symmetric], of E sv seenBoth db tok])
    fix i apiKey rec eid dg n m outcome
    assume new: "newCredential E sv zeroCredential = Inr (i, apiKey, rec)"
      and attempt: "storeExchangeEnrollment (se_store E) (seenBoth m) db eid dg rec (se_clock E n) = (fst (ExchangeEnrollment E sv seenBoth db tok), outcome)"
    show ?thesis using change_exchange [OF attempt] exchanges newCredential_ok(2) [OF new] by (simp add: cred_wf_def zeroCredential_def)
  qed simp
next
  case (rotates db p E)
  then show ?case
    unfolding RotateCredential_def cred_wf_def
    by (auto split: sum.splits prod.splits dest!: newCredential_ok(2) elim!: change_rotate)
next
  case (revokes db E seen p credentialID)
  show ?case
    unfolding RevokeCredential_def by (auto split: sum.splits prod.splits elim!: change_revoke)
next
  case (provisions db p E seen provision)
  then show ?case using change_ProvisionDeviceAgent [OF prod.collapse [symmetric]] by blast
next
  case (directory db db')
  then show ?case by (simp add: directory_change_def change_def)
qed

lemma touches_mwf: "touches C C' \<Longrightarrow> mwf C \<Longrightarrow> mwf C'"
  by (simp add: touches_def)

lemma adds_key_keeps: "adds_key limit C C' \<Longrightarrow> mwf C \<Longrightarrow> mwf C' \<and> keeps sameKey C C'"
proof -
  assume "adds_key limit C C'" and wf: "mwf C"
  then obtain C1 i row where C1: "touches C C1" "mget C1 i = None" "C' = mput i row C1" by (auto simp: adds_key_def)
  then have "keeps sameKey C1 C'" by (auto intro: keeps_mput)
  then show ?thesis using C1 wf touches_mwf keeps_trans [of sameKey C C1 C'] sameKey_trans unfolding touches_def by (metis mwf_mput)
qed

lemma change_keeps:
  assumes "change limit db db'" and "cred_wf db"
  shows "cred_wf db'" and "cred_keeps db db'"
  using assms adds_key_keeps [of limit "cd_credentials db" "cd_credentials db'"]
  by (auto simp: change_def cred_wf_def cred_keeps_def touches_def)

section \<open>What stays true\<close>

text \<open>A predicate that every step keeps holds along every history.\<close>

locale lasting =
  fixes step :: "'s \<Rightarrow> 's \<Rightarrow> bool" and holds :: "'s \<Rightarrow> bool"
  assumes step_holds: "step s s' \<Longrightarrow> holds s \<Longrightarrow> holds s'"
begin

lemma reaches_holds: "step\<^sup>*\<^sup>* s s' \<Longrightarrow> holds s \<Longrightarrow> holds s'"
  by (induction rule: rtranclp_induct) (auto intro: step_holds)

end

definition keyRevoked :: "string \<Rightarrow> cred_db \<Rightarrow> bool" where
  "keyRevoked i db \<longleftrightarrow> cred_wf db \<and> (\<exists>row. mget (cd_credentials db) i = Some row \<and> cw_RevokedAt row \<noteq> None)"

definition enrollmentConsumed :: "string \<Rightarrow> cred_db \<Rightarrow> bool" where
  "enrollmentConsumed i db \<longleftrightarrow> cred_wf db \<and> (\<exists>row. mget (cd_enrollments db) i = Some row \<and> el_ConsumedAt row \<noteq> None)"

text \<open>A device without living keys, itself revoked.\<close>

definition deviceSealed :: "string \<Rightarrow> cred_db \<Rightarrow> bool" where
  "deviceSealed d db \<longleftrightarrow> keyRevoked d db \<and> activeOf (cd_credentials db) d = {}"

definition keysContained :: "credential_service \<Rightarrow> cred_db \<Rightarrow> bool" where
  "keysContained sv db \<longleftrightarrow> cred_wf db \<and> keys_ok (cc_DeviceAgentLimit (sv_config sv)) (cd_credentials db)"

interpretation revocation: lasting "onprem_step sv" "keyRevoked i"
proof
  fix db db' assume step: "onprem_step sv db db'" and rev: "keyRevoked i db"
  then have "cred_wf db" by (simp add: keyRevoked_def)
  note kept = change_keeps [OF step_change [OF step this] this]
  obtain row where "mget (cd_credentials db) i = Some row" "cw_RevokedAt row \<noteq> None" using rev by (auto simp: keyRevoked_def)
  then show "keyRevoked i db'" using kept unfolding keyRevoked_def cred_keeps_def keeps_def sameKey_def by metis
qed

interpretation consumption: lasting "onprem_step sv" "enrollmentConsumed i"
proof
  fix db db' assume step: "onprem_step sv db db'" and used: "enrollmentConsumed i db"
  then have "cred_wf db" by (simp add: enrollmentConsumed_def)
  note kept = change_keeps [OF step_change [OF step this] this]
  obtain row where "mget (cd_enrollments db) i = Some row" "el_ConsumedAt row \<noteq> None" using used by (auto simp: enrollmentConsumed_def)
  then show "enrollmentConsumed i db'" using kept unfolding enrollmentConsumed_def cred_keeps_def keeps_def sameEnrollment_def by metis
qed

lemma replaces_active: "replaces C C1 row \<Longrightarrow> mwf C \<Longrightarrow> \<exists>d. cw_ProvisionedBy row = Some d \<and> activeOf C d \<noteq> {}"
  unfolding replaces_def using activeOfI by blast

interpretation sealing: lasting "onprem_step sv" "deviceSealed d"
proof
  fix db db' assume step: "onprem_step sv db db'" and sealed: "deviceSealed d db"
  then have wf: "cred_wf db" by (simp add: deviceSealed_def keyRevoked_def)
  let ?C = "cd_credentials db" and ?C' = "cd_credentials db'"
  have rev: "keyRevoked d db'" using revocation.step_holds [OF step] sealed by (simp add: deviceSealed_def)
  have mwf: "mwf ?C" and none: "activeOf ?C d = {}" using wf sealed by (simp_all add: cred_wf_def deviceSealed_def)
  consider "touches ?C ?C'" | "adds_key (cc_DeviceAgentLimit (sv_config sv)) ?C ?C'" using step_change [OF step wf] by (auto simp: change_def)
  then have "activeOf ?C' d = {}"
  proof cases
    case 1
    then show ?thesis using activeOf_touches [OF mwf] none by blast
  next
    case 2
    then obtain C1 i row where C1: "touches ?C C1" "mget C1 i = None" "?C' = mput i row C1"
      and origin: "cw_ProvisionedBy row = None \<or> replaces ?C C1 row \<or> provisionedWithin (cc_DeviceAgentLimit (sv_config sv)) ?C C1 row"
      by (auto simp: adds_key_def)
    have "cw_ProvisionedBy row \<noteq> Some d"
      using origin replaces_active [OF _ mwf, of C1 row] none sealed unfolding provisionedWithin_def deviceSealed_def keyRevoked_def by fastforce
    then show ?thesis using activeOf_add [OF touches_mwf [OF C1(1) mwf] C1(2)] activeOf_touches [OF mwf C1(1), of d] none C1(3) by simp
  qed
  then show "deviceSealed d db'" using rev by (simp add: deviceSealed_def)
qed

lemma grantedI:
  assumes "mget C d = Some dev" and "keeps sameKey C C1" and "cw_ProvisionedBy row = Some d" and "cw_Kind dev = ''device''" and "cw_Kind row = ''agent''"
    and "cw_OwnerMembershipID row = cw_OwnerMembershipID dev" and "cw_UserID row = cw_UserID dev"
    and "set (cw_Permissions row) \<subseteq> set (cw_GrantablePermissions dev)"
  shows "granted C1 row"
proof -
  obtain dev' where "mget C1 d = Some dev'" "sameKey dev dev'" using assms(1,2) by (auto simp: keeps_def)
  then show ?thesis using assms(3-) sameKey_fields [of dev dev'] by (simp add: granted_def)
qed

lemma replaces_granted:
  assumes "replaces C C1 row" and "\<And>i r. mget C i = Some r \<Longrightarrow> granted C r" and "keeps sameKey C C1"
  shows "granted C1 row"
proof -
  obtain j old d where old: "mget C j = Some old" "cw_ProvisionedBy old = Some d" "cw_ProvisionedBy row = Some d"
    "cw_Kind row = credentialKindOrDefault (cw_Kind old)" "cw_OwnerMembershipID row = cw_OwnerMembershipID old" "cw_UserID row = cw_UserID old"
    "cw_Permissions row = cw_Permissions old"
    using assms(1) by (auto simp: replaces_def)
  then obtain dev where "mget C d = Some dev" "cw_Kind dev = ''device''" "cw_Kind old = ''agent''"
    "cw_OwnerMembershipID old = cw_OwnerMembershipID dev" "cw_UserID old = cw_UserID dev" "set (cw_Permissions old) \<subseteq> set (cw_GrantablePermissions dev)"
    using assms(2) [OF old(1)] by (auto simp: granted_def)
  then show ?thesis using old assms(3) by (intro grantedI [of C d dev]) (simp_all add: credentialKindOrDefault_def)
qed

lemma card_within: "finite A \<Longrightarrow> int (card (A - {a})) < limit \<Longrightarrow> int (card (insert a A)) \<le> limit"
  by (simp add: card.insert_remove)

lemma keys_ok_adds:
  assumes "keys_ok limit C" and "adds_key limit C C'"
  shows "keys_ok limit C'"
proof -
  obtain C1 i row where C1: "touches C C1" "mget C1 i = None" "C' = mput i row C1"
    and origin: "cw_ProvisionedBy row = None \<or> replaces C C1 row \<or> provisionedWithin limit C C1 row"
    using assms(2) by (auto simp: adds_key_def)
  have keeps: "keeps sameKey C C1" using C1(1) by (simp add: touches_def)
  have ok: "keys_ok limit C1" by (rule keys_ok_touches [OF assms(1) C1(1)])
  from origin have "granted C1 row"
  proof (elim disjE)
    assume "cw_ProvisionedBy row = None"
    then show ?thesis by (simp add: granted_def)
  next
    assume "replaces C C1 row"
    then show ?thesis using assms(1) keeps unfolding keys_ok_def by (blast intro: replaces_granted)
  next
    assume "provisionedWithin limit C C1 row"
    then show ?thesis using keeps unfolding provisionedWithin_def by (blast intro: grantedI)
  qed
  moreover have "int (card (insert (cw_AgentID row) (activeOf C1 d))) \<le> limit" if d: "cw_ProvisionedBy row = Some d" for d
    using origin
  proof (elim disjE)
    assume "replaces C C1 row"
    then have "cw_AgentID row \<in> activeOf C1 d" using d by (auto simp: replaces_def)
    then show ?thesis using ok by (simp add: insert_absorb keys_ok_def)
  next
    assume "provisionedWithin limit C C1 row"
    then have "int (card (activeOf C1 d - {cw_AgentID row})) < limit" using d by (auto simp: provisionedWithin_def)
    then show ?thesis by (rule card_within [OF finite_activeOf])
  qed (simp add: d)
  ultimately show ?thesis using keys_ok_add [OF ok C1(2)] C1(3) by simp
qed

interpretation containment: lasting "onprem_step sv" "keysContained sv"
proof
  fix db db' assume step: "onprem_step sv db db'" and ok: "keysContained sv db"
  then have wf: "cred_wf db" by (simp add: keysContained_def)
  note change = step_change [OF step wf]
  then have "keys_ok (cc_DeviceAgentLimit (sv_config sv)) (cd_credentials db')"
    using ok keys_ok_touches keys_ok_adds unfolding change_def keysContained_def by blast
  then show "keysContained sv db'" using change_keeps [OF change wf] by (simp add: keysContained_def)
qed

section \<open>Authentication\<close>

text \<open>The row of a key that authenticates at a time.\<close>

definition living :: "cred_db \<Rightarrow> time \<Rightarrow> credential_row \<Rightarrow> bool" where
  "living db now row \<longleftrightarrow> cw_RevokedAt row = None \<and> (\<forall>t. cw_ExpiresAt row = Some t \<longrightarrow> pg_time now < t) \<and>
     activeOwner db (cw_OwnerMembershipID row) \<and>
     (\<exists>m. mget (cd_memberships db) (cw_OwnerMembershipID row) = Some m \<and> cw_UserID row = mb_UserID m) \<and>
     (cw_Kind row = ''device'' \<or> activeAgent db (cw_AgentID row) (cw_OwnerMembershipID row))"

lemma resolvable_living:
  "resolvable db cid dg now (i, row) \<longleftrightarrow> (cid = [] \<or> i = cid) \<and> cw_KeyDigest row = dg \<and> living db now row"
  by (auto simp: resolvable_def living_def split: option.splits)

lemma secretPublicID_nonempty: "secretPublicID s pre = Some i \<Longrightarrow> i \<noteq> []"
  by (auto simp: secretPublicID_def blank_Nil split: option.splits if_splits)

lemma authenticate_row:
  assumes "Authenticate E sv db presented = (db', Inr p)" and "cred_wf db"
  obtains "p = adminPrincipal" "db' = db" "trim_space presented = cc_AdminAPIKey (sv_config sv)" "cc_AdminAPIKey (sv_config sv) \<noteq> []" "cd_BootstrapClaimedAt db = None"
  | row n where "mget (cd_credentials db) (pr_CredentialID p) = Some row" "living db (se_clock E n) row" "p = principalOf (credentialOf (pr_CredentialID p, row))"
      "prefix ''tm_key_'' (trim_space presented)"
      "cw_KeyDigest row \<in> {Digest (sv_digester sv) credentialDigestDomain (trim_space presented), digest (trim_space presented)}"
      "secretPublicID (trim_space presented) ''tm_key_'' \<in> {None, Some (pr_CredentialID p)}"
proof (rule authenticate_cases [OF assms(1)])
  assume same: "db' = db" and admin: "\<And>q. Inr p = Inr q \<Longrightarrow> q = adminPrincipal \<and> trim_space presented = cc_AdminAPIKey (sv_config sv) \<and>
      cc_AdminAPIKey (sv_config sv) \<noteq> [] \<and> cd_BootstrapClaimedAt db = None"
  note facts = admin [OF refl]
  show thesis by (rule that(1)) (use facts same in simp_all)
next
  fix outcome assume key: "prefix ''tm_key_'' (trim_space presented)" and look: "lookedUp E sv db (trim_space presented) db' outcome"
    and "Inr p = authenticated outcome"
  then obtain rec where rec: "outcome = Inr rec" "p = principalOf rec" by (auto simp: authenticated_def split: sum.splits)
  with look obtain dg n where dg: "dg \<in> {Digest (sv_digester sv) credentialDigestDomain (trim_space presented), digest (trim_space presented)}"
    and res: "ResolveCredential (se_store E) db (coalesce (secretPublicID (trim_space presented) ''tm_key_'')) dg (se_clock E n) = (db', Inr rec)"
    by (auto simp: lookedUp_def)
  obtain i row where row: "(i, row) \<in> set (cd_credentials db)"
    "resolvable db (coalesce (secretPublicID (trim_space presented) ''tm_key_'')) dg (se_clock E n) (i, row)"
    "rec = credentialOf (i, row\<lparr>cw_LastUsedAt := Some (pg_time (se_clock E n))\<rparr>)"
    by (rule resolve_effect [OF res])
  have id: "pr_CredentialID p = i" and p: "p = principalOf (credentialOf (i, row))" using row(3) rec by (simp_all add: principalOf_def credentialOf_def)
  have get: "mget (cd_credentials db) i = Some row" using row(1) assms(2) by (simp add: cred_wf_def)
  have public: "secretPublicID (trim_space presented) ''tm_key_'' \<in> {None, Some i}"
    using row(2) secretPublicID_nonempty by (cases "secretPublicID (trim_space presented) ''tm_key_''") (auto simp: resolvable_living coalesce_def)
  have live: "living db (se_clock E n) row" and digests: "cw_KeyDigest row \<in> {Digest (sv_digester sv) credentialDigestDomain (trim_space presented), digest (trim_space presented)}"
    using row(2) dg unfolding resolvable_living by blast+
  show thesis by (rule that(2) [unfolded id, OF get live p key digests public])
qed

end
