(* ===== verification/Credential_Issue.thy ===== *)
theory Credential_Issue
  imports Credential_Theorems
begin

text \<open>
  Issuing a key works: without failures of the database, an enrollment that is created can be exchanged, and the key it
  is exchanged for authenticates.
\<close>

lemma find_at:
  assumes "mwf m" and "mget m i = Some v" and "P (i, v)" and "\<And>j w. P (j, w) \<Longrightarrow> j = i"
  shows "find P m = Some (i, v)"
proof -
  have "(i, v) \<in> set m" using assms(1,2) by simp
  then have "find P m \<noteq> None" using assms(3) by (auto simp: find_None_iff)
  then obtain j w where jw: "find P m = Some (j, w)" by auto
  then have "(j, w) \<in> set m" "j = i" using found assms(4) by fastforce+
  moreover from this have "mget m i = Some w" using assms(1) by simp
  then have "w = v" using assms(2) by simp
  ultimately show ?thesis using jw by simp
qed

lemma token_not_sql_blank: "token s \<Longrightarrow> \<not> sql_blank s"
proof
  assume t: "token s" and b: "sql_blank s"
  then have "token_char (hd s)" "hd s = CHR '' ''" by (cases s, auto simp: token_def sql_blank_def)+
  moreover have "\<not> plain_char (CHR '' '')" by code_simp
  ultimately show False by (simp add: token_char_def)
qed

text \<open>What an exchange of an agent's enrollment needs of the database.\<close>

definition exchangeable :: "cred_db \<Rightarrow> enrollment_row \<Rightarrow> bool" where
  "exchangeable db row \<longleftrightarrow> activeOwner db (el_MembershipID row) \<and>
     (\<exists>m. mget (cd_memberships db) (el_MembershipID row) = Some m \<and> mb_UserID m = el_UserID row) \<and>
     activeAgent db (el_AgentID row) (el_MembershipID row) \<and>
     (\<forall>r. mget (cd_identities db) (el_AgentID row) = Some r \<longrightarrow> ir_UserID r = el_UserID row)"

lemma lock_runs:
  assumes "ce_fault E = (\<lambda>_. None)" and "find (openEnrollment i dg now) (cd_enrollments db) = Some (i, row)"
    and "activeOwner db (el_MembershipID row)" and "activeAgent db (el_AgentID row) (el_MembershipID row)"
  shows "lockEnrollmentExchangeOwner E db i dg now db = Inr (db, el_MembershipID row, el_AgentID row, el_Kind row)"
  using assms by (auto simp: lockEnrollmentExchangeOwner_def tx_ok)

lemma claim_runs:
  assumes "\<not> sql_blank a" and "\<not> sql_blank u" and "\<forall>r. mget (cd_identities db) a = Some r \<longrightarrow> ir_UserID r = u"
  shows "\<exists>ids. claimIdentity a u now db = Inr (db\<lparr>cd_identities := ids\<rparr>, True)"
proof (cases "mget (cd_identities db) a")
  case None
  then show ?thesis using assms(1,2) by (simp add: claimIdentity_def) blast
next
  case (Some r)
  then show ?thesis using assms by (intro exI [of _ "cd_identities db"]) (simp add: claimIdentity_def)
qed

lemma exchange_runs:
  assumes faults: "ce_fault E = (\<lambda>_. None)" and wf: "mwf (cd_enrollments db)" and row: "mget (cd_enrollments db) i = Some row" and "i \<noteq> []"
    and "openEnrollment i dg now (i, row)" and kind: "el_Kind row = ''agent''" and ready: "exchangeable db row"
    and texts: "\<not> sql_blank (el_AgentID row)" "\<not> sql_blank (el_UserID row)" "\<not> sql_blank (kr_ID c)"
    and fresh: "mget (cd_credentials db) (kr_ID c) = None" "\<not> list_ex (\<lambda>(_, r). cw_KeyDigest r = kr_KeyDigest c) (cd_credentials db)"
    and base: "kr_RotatedFromCredentialID c = []" "kr_ProvisionedBy c = []"
  shows "\<exists>db'. storeExchangeEnrollment E db db i dg c now = (db', Inr (enrollmentOf dg (i, consumedRow now (kr_ID c) row))) \<and>
     cd_credentials db' = mput (kr_ID c) (issuedRow c row) (cd_credentials db) \<and>
     cd_memberships db' = cd_memberships db \<and> cd_users db' = cd_users db \<and> cd_agents db' = cd_agents db"
proof -
  have only: "j = i" if "openEnrollment i dg now (j, w)" for j w using that assms(4) by (simp add: openEnrollment_def)
  let ?take = "\<lambda>er. openEnrollment i dg now er \<and> el_MembershipID (snd er) = el_MembershipID row \<and> el_AgentID (snd er) = el_AgentID row"
  have open_it: "find (openEnrollment i dg now) (cd_enrollments db) = Some (i, row)" and take_it: "find ?take (cd_enrollments db) = Some (i, row)"
    by (rule find_at [OF wf row]; use assms(5) only in force)+
  have lock: "lockEnrollmentExchangeOwner E db i dg now db = Inr (db, el_MembershipID row, el_AgentID row, el_Kind row)"
    using ready by (intro lock_runs [OF faults open_it]) (simp_all add: exchangeable_def)
  let ?row = "consumedRow now (kr_ID c) row"
  let ?db1 = "db\<lparr>cd_enrollments := mput i ?row (cd_enrollments db)\<rparr>"
  have consume: "consumeEnrollment i dg now (kr_ID c) (el_MembershipID row) (el_AgentID row) db = Inr (?db1, Some (i, ?row))"
    using take_it by (simp add: consumeEnrollment_def consumedRow_def Let_def)
  obtain ids where claim: "claimIdentity (el_AgentID row) (el_UserID row) (kr_CreatedAt c) ?db1 = Inr (?db1\<lparr>cd_identities := ids\<rparr>, True)"
    using claim_runs [of "el_AgentID row" "el_UserID row" ?db1 "kr_CreatedAt c"] ready texts by (auto simp: exchangeable_def)
  let ?db2 = "?db1\<lparr>cd_identities := ids\<rparr>"
  have insert: "insertCredentialRow (kr_ID c) (issuedRow c row) ?db2 = Inr (?db2\<lparr>cd_credentials := mput (kr_ID c) (issuedRow c row) (cd_credentials db)\<rparr>, ())"
    using fresh base texts kind ready by (auto simp: insertCredentialRow_def issuedRow_def credentialRow_def nullableText_def references_def
        credentialKindOrDefault_def exchangeable_def)
  let ?db3 = "?db2\<lparr>cd_credentials := mput (kr_ID c) (issuedRow c row) (cd_credentials db)\<rparr>"
  obtain log where audit: "insertAuditEvent E ''agent'' (el_UserID row) (el_MembershipID row) (el_AgentID row) (kr_ID c)
      ''identity.credential.issued'' ''credential'' (kr_ID c) now ?db3 = Inr (?db3\<lparr>cd_audit := log\<rparr>, ())"
    using texts faults by (auto simp: insertAuditEvent_def statement_def insertAuditRow_def sql_blank_def)
  have "exchangeEnrollmentTx E db i dg c now db = Inr (?db3\<lparr>cd_audit := log\<rparr>, enrollmentOf dg (i, ?row))"
    unfolding exchangeEnrollmentTx_def Let_def
    using lock consume claim insert audit faults kind
    by (simp add: tx_bind_def statement_def enrollmentOf_def consumedRow_def issuedRow_def CredentialKindDevice_def tx_return_def)
  then have "storeExchangeEnrollment E db db i dg c now = (?db3\<lparr>cd_audit := log\<rparr>, Inr (enrollmentOf dg (i, ?row)))"
    using faults by (simp add: storeExchangeEnrollment_def transaction_def step_def)
  then show ?thesis by simp
qed

text \<open>A living key of the table authenticates by its secret.\<close>

lemma authenticate_runs:
  assumes faults: "ce_fault (se_store E) = (\<lambda>_. None)" and wf: "mwf (cd_credentials db)" and row: "mget (cd_credentials db) i = Some row"
    and tokens: "token i" "token secret" and key: "apiKey = ''tm_key_'' @ i @ ''.'' @ secret" "cc_AdminAPIKey (sv_config sv) \<noteq> apiKey"
    and digests: "cw_KeyDigest row = Digest (sv_digester sv) credentialDigestDomain apiKey" and live: "living db (se_clock E 0) row"
  shows "\<exists>db'. Authenticate E sv db apiKey = (db', Inr (principalOf (credentialOf (i, row))))"
proof -
  note trip = api_key_roundtrip [OF tokens, folded key(1)]
  have "i \<noteq> []" using token_facts(3) [OF tokens(1)] .
  then have "find (resolvable db i (Digest (sv_digester sv) credentialDigestDomain apiKey) (se_clock E 0)) (cd_credentials db) = Some (i, row)"
    by (intro find_at [OF wf row]) (use live digests in \<open>auto simp: resolvable_living\<close>)
  then obtain db' where found: "ResolveCredential (se_store E) db i (Digest (sv_digester sv) credentialDigestDomain apiKey) (se_clock E 0) =
      (db', Inr (credentialOf (i, row\<lparr>cw_LastUsedAt := Some (pg_time (se_clock E 0))\<rparr>)))"
    using faults by (simp add: ResolveCredential_def autocommit_def tx_bind_def statement_def tx_return_def Let_def)
  have "principalOf (credentialOf (i, row\<lparr>cw_LastUsedAt := t\<rparr>)) = principalOf (credentialOf (i, row))" for t
    by (simp add: principalOf_def credentialOf_def)
  moreover have "trim_space apiKey \<noteq> []" "prefix ''tm_key_'' apiKey" using trip(1) key(1) by simp_all
  moreover have "\<not> (cc_AdminAPIKey (sv_config sv) \<noteq> [] \<and> constantTimeEqual (trim_space apiKey) (cc_AdminAPIKey (sv_config sv)))"
    using key(2) trip(1) by (auto simp: constantTimeEqual_def split: if_splits)
  ultimately show ?thesis
    using Authenticate_key [of apiKey sv E db] trip found by (simp add: Let_def coalesce_def authenticated_def)
qed

text \<open>The key that the service mints, before the store completes it from the enrollment.\<close>

definition issuedCredential :: "service_env \<Rightarrow> credential_service \<Rightarrow> string \<Rightarrow> string \<Rightarrow> credential_record" where
  "issuedCredential E sv j t = zeroCredential\<lparr>kr_ID := j, kr_KeyDigest := Digest (sv_digester sv) credentialDigestDomain (''tm_key_'' @ j @ ''.'' @ t),
     kr_DigestKeyVersion := currentDigestKeyVersion, kr_CreatedAt := se_clock E 0\<rparr>"

lemma exchange_issues:
  assumes "ce_fault (se_store E) = (\<lambda>_. None)" and "seen 0 = db" and "mwf (cd_enrollments db)" and "parseEnrollmentToken tok = Some (v, i)" and "i \<noteq> []"
    and "se_token E 0 = Inr j" and "se_token E 1 = Inr t" and "token j"
    and row: "mget (cd_enrollments db) i = Some row" "exchangeable db row" "pg_time (se_clock E 1) < el_ExpiresAt row"
      "el_TokenDigest row = Digest (sv_digester sv) enrollmentDigestDomain v" "el_Kind row = ''agent''" "el_ConsumedAt row = None" "el_RevokedAt row = None"
      "\<not> sql_blank (el_AgentID row)" "\<not> sql_blank (el_UserID row)"
    and fresh: "mget (cd_credentials db) j = None"
      "\<not> list_ex (\<lambda>(_, r). cw_KeyDigest r = Digest (sv_digester sv) credentialDigestDomain (''tm_key_'' @ j @ ''.'' @ t)) (cd_credentials db)"
  obtains db' c where "ExchangeEnrollment E sv seen db tok = (db', Inr c)" "is_APIKey c = ''tm_key_'' @ j @ ''.'' @ t" "is_CredentialID c = j"
    "is_Permissions c = el_Permissions row"
    "cd_credentials db' = mput j (issuedRow (issuedCredential E sv j t) row) (cd_credentials db)"
    "cd_memberships db' = cd_memberships db" "cd_users db' = cd_users db" "cd_agents db' = cd_agents db"
proof -
  let ?c = "issuedCredential E sv j t"
  let ?dg = "Digest (sv_digester sv) enrollmentDigestDomain v"
  have new: "newCredential E sv zeroCredential = Inr (j, ''tm_key_'' @ j @ ''.'' @ t, ?c)"
    using assms(6,7) by (simp add: newCredential_def newTokens_def Let_def issuedCredential_def)
  have ready: "openEnrollment i ?dg (se_clock E 1) (i, row)" using row by (simp add: openEnrollment_def)
  obtain db' where exchange: "storeExchangeEnrollment (se_store E) db db i ?dg ?c (se_clock E 1) =
      (db', Inr (enrollmentOf ?dg (i, consumedRow (se_clock E 1) j row)))"
    and effect: "cd_credentials db' = mput j (issuedRow ?c row) (cd_credentials db)"
      "cd_memberships db' = cd_memberships db" "cd_users db' = cd_users db" "cd_agents db' = cd_agents db"
    using exchange_runs [OF assms(1,3) row(1) assms(5) ready row(5,2), of ?c] fresh row(8,9) token_not_sql_blank [OF assms(8)]
    by (auto simp: issuedCredential_def zeroCredential_def)
  let ?issued = "\<lparr>is_CredentialID = j, is_APIKey = ''tm_key_'' @ j @ ''.'' @ t, is_UserID = el_UserID row,
     is_Permissions = el_Permissions row, is_Kind = el_Kind row, is_ExpiresAt = el_CredentialExpiresAt row\<rparr>"
  have "ExchangeEnrollment E sv seen db tok = (db', Inr ?issued)"
    using assms(2,4) new exchange by (simp add: ExchangeEnrollment_def enrollmentOf_def consumedRow_def)
  then show thesis by (rule that) (simp_all add: effect)
qed

lemma saveEnrollment_row:
  assumes "saveEnrollmentTx E r db = Inr (db', u)"
  shows "\<exists>m. mget (cd_enrollments db') (nr_ID r) = Some (enrollmentRow r m) \<and> \<not> sql_blank (nr_UserID r) \<and> \<not> sql_blank (nr_AgentID r)"
proof -
  obtain db1 m db2 v where "insertEnrollmentRow (nr_ID r) (enrollmentRow r m) db1 = Inr (db2, v)"
    and "insertAuditEvent E ''system'' (nr_UserID r) m [] [] ''identity.legacy-admin-enrollment.created'' ''enrollment'' (nr_ID r) (nr_CreatedAt r) db2 = Inr (db', u)"
    using assms unfolding saveEnrollmentTx_def tx_ok by blast
  then show ?thesis
    by (intro exI [of _ m]) (auto simp: insertEnrollmentRow_def enrollmentRow_def go_map split: if_splits dest!: staysD [OF _ stays_audit])
qed

lemma create_row:
  assumes "CreateEnrollment E sv db admin request = (db1, Inr en)" and "se_token E 0 = Inr i" and "se_token E 1 = Inr secret"
  obtains v m permissions ttl where "validateEnrollmentRequest request = Inr (permissions, ttl)"
    "en_EnrollmentID en = i" "enrollmentToken (se_urlParse E) i secret (cc_PortalURL (sv_config sv)) = (en_Token en, v)"
    "mget (cd_enrollments db1) i = Some (enrollmentRow (enrollmentFor E sv request i v permissions ttl) m)"
    "\<not> sql_blank (trim_space (rq_EnrollUserID request))" "\<not> sql_blank (trim_space (rq_EnrollAgentID request))"
proof -
  obtain permissions ttl v where valid: "validateEnrollmentRequest request = Inr (permissions, ttl)" and ids: "en_EnrollmentID en = i"
    "enrollmentToken (se_urlParse E) i secret (cc_PortalURL (sv_config sv)) = (en_Token en, v)"
    and "SaveEnrollment (se_store E) db (enrollmentFor E sv request i v permissions ttl) = (db1, Inr ())"
    using assms unfolding CreateEnrollment_def newTokens_def Let_def by (auto split: if_splits sum.splits prod.splits)
  then have "saveEnrollmentTx (se_store E) (enrollmentFor E sv request i v permissions ttl) db = Inr (db1, ())"
    unfolding SaveEnrollment_def by (simp add: transaction_ok)
  from saveEnrollment_row [OF this] show thesis
    by (elim exE) (rule that [OF valid ids], auto simp: enrollmentFor_def)
qed

lemma validPermissions_grantable: "validPermissions refuse seen ps = Inr qs \<Longrightarrow> set qs \<subseteq> set grantable"
  by (induction refuse seen ps arbitrary: qs rule: validPermissions.induct) (auto split: if_splits sum.splits)

lemma validateEnrollmentRequest_plain: "validateEnrollmentRequest request = Inr (permissions, ttl) \<Longrightarrow> PermissionAdmin \<notin> set permissions"
  using validPermissions_grantable
  by (fastforce simp: validateEnrollmentRequest_def Let_def grantable_def PermissionAdmin_def PermissionObserve_def PermissionSearch_def PermissionGet_def
      PermissionChannelSend_def PermissionChannelReceive_def split: if_splits sum.splits)

end
