(* ===== verification/Credential_Properties.thy ===== *)
theory Credential_Properties
  imports Credential_Issue
begin

text \<open>
  The promises of the on-premises credentials: who authenticates, that an enrollment is exchanged once, that revocations
  are final and reach what a device provisioned, and that devices stay within their grants.
\<close>

section \<open>Exchanges\<close>

lemma exchange_consumes:
  assumes "ExchangeEnrollment E sv seen db tok = (db', Inr c)" and "parseEnrollmentToken tok = Some (v, i)" and "cred_wf db"
  obtains row where "mget (cd_enrollments db) i = Some row" "el_ConsumedAt row = None" "enrollmentConsumed i db'"
proof (rule exchange_cases [OF assms(1)])
  assume "\<And>d. Inr c \<noteq> Inr d"
  then show thesis by blast
next
  fix v' eid j apiKey rec dg n m outcome
  assume parse: "parseEnrollmentToken tok = Some (v', eid)"
    and attempt: "storeExchangeEnrollment (se_store E) (seen m) db eid dg rec (se_clock E n) = (db', outcome)"
    and result: "\<And>d. Inr c = Inr d \<Longrightarrow> \<exists>en. outcome = Inr en \<and> d = \<lparr>is_CredentialID = j, is_APIKey = apiKey, is_UserID = nr_UserID en,
       is_Permissions = nr_Permissions en, is_Kind = nr_Kind en, is_ExpiresAt = nr_CredentialExpiresAt en\<rparr>"
  then obtain en where en: "outcome = Inr en" by blast
  have eid: "eid = i" "i \<noteq> []" using parse assms(2) by (auto simp: parseEnrollmentToken_def split: option.splits list.splits if_splits)
  have "exchangeEnrollmentTx (se_store E) (seen m) i dg rec (se_clock E n) db = Inr (db', en)"
    using attempt en eid(1) unfolding storeExchangeEnrollment_def by (simp add: transaction_ok)
  then obtain k row where row: "(k, row) \<in> set (cd_enrollments db)" "openEnrollment i dg (se_clock E n) (k, row)"
    "cd_enrollments db' = mput k (consumedRow (se_clock E n) (kr_ID rec) row) (cd_enrollments db)"
    by (rule exchange_effect)
  have "onprem_step sv db db'" using onprem_step.exchanges [of sv db E seen tok] assms(1) by simp
  then have "cred_wf db'" using change_keeps [OF step_change] assms(3) by blast
  moreover have k: "k = i" using row(2) eid(2) by (simp add: openEnrollment_def)
  ultimately have "enrollmentConsumed i db'" using row(3) by (simp add: enrollmentConsumed_def go_map consumedRow_def)
  moreover have "mget (cd_enrollments db) i = Some row" using row(1) k assms(3) by (simp add: cred_wf_def)
  ultimately show thesis using row(2) that by (simp add: openEnrollment_def)
qed

section \<open>Revocations\<close>

lemma revoke_keyRevoked:
  assumes "revokeCredentialTx E seen i now db = Inr (db', u)"
  shows "\<exists>row. mget (cd_credentials db') i = Some row \<and> cw_RevokedAt row \<noteq> None"
proof (rule revoke_effect [OF assms])
  fix row assume "cd_credentials db' = (let C = mput i (revoked now row) (cd_credentials db) in
       if cw_Kind row = CredentialKindDevice
       then revokeRows (\<lambda>cr. provisionedBy i cr \<and> fst cr \<in> set (map fst (filter (provisionedBy i) (cd_credentials seen)))) now C else C)"
  then show ?thesis by (simp add: go_map mget_revokeRows revoked_def Let_def)
qed

text \<open>A key that is revoked is not the key that authenticates.\<close>

lemma authenticate_other:
  assumes "Authenticate E sv db presented = (db', Inr p)" and "keyRevoked i db" and "i \<noteq> []"
  shows "pr_CredentialID p \<noteq> i"
proof (rule authenticate_row [OF assms(1)])
  show "cred_wf db" using assms(2) by (simp add: keyRevoked_def)
next
  assume "p = adminPrincipal"
  then show ?thesis using assms(3) by (simp add: adminPrincipal_def)
next
  fix row n assume "mget (cd_credentials db) (pr_CredentialID p) = Some row" "living db (se_clock E n) row"
  then show ?thesis using assms(2) by (auto simp: keyRevoked_def living_def)
qed

text \<open>The key that authenticates is alive.\<close>

lemma authenticate_alive:
  assumes "Authenticate E sv db presented = (db', Inr p)" and "cred_wf db" and "mget (cd_credentials db) (pr_CredentialID p) = Some row"
    and "activeOf (cd_credentials db) d = {}" and "p \<noteq> adminPrincipal"
  shows "cw_ProvisionedBy row \<noteq> Some d"
proof (rule authenticate_row [OF assms(1,2)])
  assume "p = adminPrincipal"
  then show ?thesis using assms(5) by (simp add: adminPrincipal_def)
next
  fix row' n assume "mget (cd_credentials db) (pr_CredentialID p) = Some row'" "living db (se_clock E n) row'"
  then show ?thesis using assms(2-4) activeOfI [of "cd_credentials db" "pr_CredentialID p" row d] by (auto simp: cred_wf_def living_def)
qed

lemma revoke_seals:
  assumes "revokeCredentialTx E db d now db = Inr (db', u)" and "mget (cd_credentials db) d = Some dev" and "cw_Kind dev = CredentialKindDevice"
    and "mwf (cd_credentials db)"
  shows "activeOf (cd_credentials db') d = {}"
proof (rule revoke_effect [OF assms(1)])
  let ?C = "cd_credentials db"
  let ?match = "\<lambda>cr. provisionedBy d cr \<and> fst cr \<in> set (map fst (filter (provisionedBy d) ?C))"
  fix row assume row: "mget ?C d = Some row" and C': "cd_credentials db' = (let C = mput d (revoked now row) ?C in
       if cw_Kind row = CredentialKindDevice then revokeRows ?match now C else C)"
  then have eq: "cd_credentials db' = revokeRows ?match now (mput d (revoked now row) ?C)" using assms(2,3) by simp
  have wf: "mwf (cd_credentials db')" using assms(4) by (simp add: eq)
  have "cw_RevokedAt r \<noteq> None" if r: "mget (cd_credentials db') j = Some r" "cw_ProvisionedBy r = Some d" for j r
  proof (cases "j = d")
    case True
    then show ?thesis using r(1) by (auto simp: eq mget_revokeRows go_map revoked_def)
  next
    case False
    then obtain r0 where r0: "mget ?C j = Some r0" "r = (if ?match (j, r0) then revoked now r0 else r0)"
      using r(1) by (auto simp: eq mget_revokeRows go_map)
    then have "(j, r0) \<in> set ?C" using assms(4) by simp
    then show ?thesis using r0(2) r(2) by (auto simp: provisionedBy_def revoked_def image_iff split: if_splits)
  qed
  then show ?thesis by (subst activeOf_mget [OF wf]) auto
qed

section \<open>A small deployment\<close>

lemma digest_nonempty: "[] \<noteq> Digest key domain v"
  using length_Digest [of key domain v] by auto

definition sampleConfig :: credential_config where
  "sampleConfig = \<lparr>cc_AdminAPIKey = ''root'', cc_RotationOverlap = 60000000000, cc_SecretPepper = replicate 32 (CHR ''p''),
     cc_AllowLegacyAgentCreation = False, cc_PortalURL = [], cc_DeviceAgentLimit = 1\<rparr>"

definition sampleService :: credential_service where
  "sampleService = \<lparr>sv_config = sampleConfig, sv_digester = replicate 32 (CHR ''p'')\<rparr>"

definition sampleEnv :: "time \<Rightarrow> string \<Rightarrow> service_env" where
  "sampleEnv now i = \<lparr>se_store = \<lparr>ce_fault = (\<lambda>_. None), ce_collation = (\<lambda>_ _. False), ce_md5 = id\<rparr>, se_clock = (\<lambda>_. now),
     se_token = (\<lambda>n. Inr (if n = 0 then i else ''s'')), se_urlParse = (\<lambda>_. Inl (ErrorNew []))\<rparr>"

definition sampleKey :: "string \<Rightarrow> string \<Rightarrow> string \<Rightarrow> string option \<Rightarrow> credential_row" where
  "sampleKey secret kind agent by = \<lparr>cw_KeyDigest = Digest (sv_digester sampleService) credentialDigestDomain secret, cw_DigestKeyVersion = 1,
     cw_UserID = ''u'', cw_OwnerMembershipID = ''m'', cw_AgentID = agent, cw_Label = [], cw_Permissions = [PermissionGet, PermissionAgentProvision], cw_CreatedAt = 0,
     cw_ExpiresAt = None, cw_RevokedAt = None, cw_LastUsedAt = None, cw_RotatedFrom = None, cw_Kind = kind, cw_ProvisionedBy = by,
     cw_GrantablePermissions = [PermissionGet]\<rparr>"

definition sampleDevice :: credential_row where
  "sampleDevice = (sampleKey [] ''device'' [] None)\<lparr>cw_KeyDigest := []\<rparr>"

definition sampleDb :: "(string, credential_row) gomap \<Rightarrow> audit_row list \<Rightarrow> cred_db" where
  "sampleDb C log = \<lparr>cd_BootstrapClaimedAt = None,
     cd_users = [(''u'', \<lparr>us_DisplayName = ''u'', us_IdentityStatus = ''active'', us_CreatedAt = 0, us_UpdatedAt = 0\<rparr>)],
     cd_memberships = [(''m'', \<lparr>mb_UserID = ''u'', mb_Role = ''member'', mb_Status = ''active'', mb_JoinedAt = 0, mb_UpdatedAt = 0\<rparr>)],
     cd_agents = [(''a'', \<lparr>ag_OwnerMembershipID = ''m'', ag_DisplayName = ''a'', ag_Description = [], ag_AgentType = [], ag_Status = ''active'',
       ag_DirectoryVisible = True, ag_CreatedAt = 0, ag_UpdatedAt = 0, ag_ProvisionedBy = None\<rparr>)],
     cd_identities = [], cd_enrollments = [], cd_credentials = C, cd_audit = log\<rparr>"

lemma sample_authenticates:
  assumes "mwf C" and "mget C i = Some (sampleKey (''tm_key_'' @ i @ ''.s'') kind ''a'' by)" and "token i"
  shows "\<exists>db'. Authenticate (sampleEnv 5 []) sampleService (sampleDb C log) (''tm_key_'' @ i @ ''.s'') =
     (db', Inr (principalOf (credentialOf (i, sampleKey (''tm_key_'' @ i @ ''.s'') kind ''a'' by))))"
proof -
  have "token ''s''" by code_simp
  then show ?thesis
    using assms
    by (intro authenticate_runs) (auto simp: sampleEnv_def sampleDb_def sampleKey_def sampleService_def sampleConfig_def living_def
        activeOwner_def activeAgent_def)
qed

definition sampleRequest :: enrollment_request where
  "sampleRequest = \<lparr>rq_EnrollUserID = ''u'', rq_EnrollAgentID = ''a'', rq_ExpiresIn = 60000000000, rq_Permissions = [PermissionGet]\<rparr>"

definition sampleEnrollment :: enrollment_row where
  "sampleEnrollment = \<lparr>el_TokenDigest = Digest (sv_digester sampleService) enrollmentDigestDomain ''tm_enroll_e.s'', el_DigestKeyVersion = 1,
     el_UserID = ''u'', el_MembershipID = ''m'', el_AgentID = ''a'', el_CredentialLabel = [], el_Permissions = [PermissionGet],
     el_CreatedAt = 0, el_ExpiresAt = 60000000000, el_CredentialExpiresAt = None, el_ConsumedAt = None, el_ConsumedCredentialID = None,
     el_RevokedAt = None, el_Kind = ''agent'', el_GrantablePermissions = []\<rparr>"

definition sampleLog :: "string \<Rightarrow> string \<Rightarrow> string \<Rightarrow> string \<Rightarrow> string \<Rightarrow> time \<Rightarrow> audit_row" where
  "sampleLog user member action kind target now = \<lparr>au_ActorKind = ''system'', au_ActorUserID = nullableText user, au_ActorMembershipID = nullableText member,
     au_ActorAgentID = None, au_ActorCredentialID = None, au_Action = action, au_TargetKind = kind, au_TargetID = target, au_OccurredAt = now\<rparr>"

definition sampleEnrolled :: cred_db where
  "sampleEnrolled = (sampleDb [] [sampleLog ''u'' ''m'' ''identity.legacy-admin-enrollment.created'' ''enrollment'' ''e'' 0])
     \<lparr>cd_enrollments := [(''e'', sampleEnrollment)]\<rparr>"

lemma sample_created:
  "CreateEnrollment (sampleEnv 0 ''e'') sampleService (sampleDb [] []) adminPrincipal sampleRequest =
     (sampleEnrolled, Inr \<lparr>en_EnrollmentID = ''e'', en_Token = ''tm_enroll_e.s'', en_ExpiresAt = 60000000000\<rparr>)"
proof -
  have "validateEnrollmentRequest sampleRequest = Inr ([PermissionGet], 60000000000)" "trim_space ''u'' = ''u''" "trim_space ''a'' = ''a''" by code_simp+
  moreover have "saveEnrollmentTx (se_store (sampleEnv 0 ''e'')) (enrollmentFor (sampleEnv 0 ''e'') sampleService sampleRequest ''e'' ''tm_enroll_e.s'' [PermissionGet] 60000000000)
      (sampleDb [] []) = Inr (sampleEnrolled, ())"
    using calculation(2,3)
    by (simp add: saveEnrollmentTx_def enrollmentFor_def sampleRequest_def sampleService_def sampleConfig_def sampleEnv_def sampleDb_def resolveLegacyAgentOwner_def
        query_def tx_bind_def statement_def tx_return_def insertEnrollmentRow_def enrollmentRow_def sql_blank_def insertAuditEvent_def insertAuditRow_def
        sampleEnrolled_def sampleEnrollment_def sampleLog_def pg_time_def currentDigestKeyVersion_def nullableText_def)
  ultimately show ?thesis
    by (simp add: CreateEnrollment_def HasPermission_def adminPrincipal_def newTokens_def enrollmentToken_def Let_def SaveEnrollment_def transaction_def step_def
        sampleService_def sampleConfig_def sampleEnv_def enrollmentFor_def)
qed

lemma sample_exchangeable: "exchangeable sampleEnrolled sampleEnrollment"
  by (simp add: exchangeable_def sampleEnrolled_def sampleEnrollment_def sampleDb_def activeOwner_def activeAgent_def)

section \<open>Promises\<close>

text \<open>C10. A presented key authenticates in two ways only.  It is the legacy administrator key, which is configured, and
  no administrator has claimed the deployment.  Or it is the secret of a key in the database, under the peppered or
  the old digest and under its own identifier if it names one, and that key is neither revoked nor expired, its owner is
  an active member, it belongs to that member's user, and, unless it is a device, its agent is active and still theirs;
  the principal has exactly the identity and the permissions of the key.\<close>

theorem Authenticate_sound:
  assumes "Authenticate E sv db presented = (db', Inr p)" and "cred_wf db"
  shows "(p = adminPrincipal \<and> trim_space presented = cc_AdminAPIKey (sv_config sv) \<and> cc_AdminAPIKey (sv_config sv) \<noteq> [] \<and>
           cd_BootstrapClaimedAt db = None \<and> db' = db) \<or>
         (\<exists>row n. mget (cd_credentials db) (pr_CredentialID p) = Some row \<and>
            p = principalOf (credentialOf (pr_CredentialID p, row)) \<and>
            cw_KeyDigest row \<in> {Digest (sv_digester sv) credentialDigestDomain (trim_space presented), digest (trim_space presented)} \<and>
            secretPublicID (trim_space presented) ''tm_key_'' \<in> {None, Some (pr_CredentialID p)} \<and>
            cw_RevokedAt row = None \<and> (\<forall>t. cw_ExpiresAt row = Some t \<longrightarrow> pg_time (se_clock E n) < t) \<and>
            activeOwner db (cw_OwnerMembershipID row) \<and>
            (\<exists>m. mget (cd_memberships db) (cw_OwnerMembershipID row) = Some m \<and> cw_UserID row = mb_UserID m) \<and>
            (cw_Kind row = ''device'' \<or> activeAgent db (cw_AgentID row) (cw_OwnerMembershipID row)))"
proof (rule authenticate_row [OF assms])
  fix row n
  assume 1: "mget (cd_credentials db) (pr_CredentialID p) = Some row" and 2: "living db (se_clock E n) row" and 3: "p = principalOf (credentialOf (pr_CredentialID p, row))"
    and 4: "cw_KeyDigest row \<in> {Digest (sv_digester sv) credentialDigestDomain (trim_space presented), digest (trim_space presented)}"
    and 5: "secretPublicID (trim_space presented) ''tm_key_'' \<in> {None, Some (pr_CredentialID p)}"
  show ?thesis by (rule disjI2, intro exI [of _ row] exI [of _ n] conjI 1 3 4 5) (use 2 [unfolded living_def] in blast)+
qed blast

theorem Authenticate_sound_witness:
  "\<exists>db' p row. Authenticate (sampleEnv 5 []) sampleService (sampleDb [(''k'', sampleKey ''tm_key_k.s'' ''agent'' ''a'' None)] []) '' tm_key_k.s'' = (db', Inr p) \<and>
     p = principalOf (credentialOf (pr_CredentialID p, row)) \<and> cw_RevokedAt row = None \<and> pr_AgentID p = ''a''"
proof -
  let ?db = "sampleDb [(''k'', sampleKey ''tm_key_k.s'' ''agent'' ''a'' None)] []" and ?p = "principalOf (credentialOf (''k'', sampleKey ''tm_key_k.s'' ''agent'' ''a'' None))"
  have trim: "trim_space '' tm_key_k.s'' = trim_space ''tm_key_k.s''" and k: "token ''k''" by code_simp+
  obtain db' where "Authenticate (sampleEnv 5 []) sampleService ?db ''tm_key_k.s'' = (db', Inr ?p)"
    using sample_authenticates [of "[(''k'', sampleKey ''tm_key_k.s'' ''agent'' ''a'' None)]" "''k''" "''agent''" None "[]"] k by auto
  then have auth: "Authenticate (sampleEnv 5 []) sampleService ?db '' tm_key_k.s'' = (db', Inr ?p)" by (simp add: Authenticate_def trim)
  have "cred_wf ?db" by (simp add: cred_wf_def sampleDb_def)
  moreover have "?p \<noteq> adminPrincipal" "pr_AgentID ?p = ''a''" by (simp_all add: principalOf_def credentialOf_def adminPrincipal_def sampleKey_def)
  ultimately show ?thesis using Authenticate_sound [OF auth] auth by blast
qed

text \<open>C11. An enrollment is exchanged at most once: after a successful exchange, in every history of the service and the
  directory, every exchange of a token with the same identifier fails, whatever it saw of the database before.\<close>

theorem enrollment_exchanged_once:
  assumes "ExchangeEnrollment E sv seen db tok = (db1, Inr c)" and "parseEnrollmentToken tok = Some (v, i)" and "cred_wf db"
    and "onprem_reaches sv db1 db2" and "parseEnrollmentToken tok' = Some (v', i)"
  shows "\<exists>e. snd (ExchangeEnrollment E' sv seen' db2 tok') = Inl e"
proof (rule ccontr)
  assume "\<nexists>e. snd (ExchangeEnrollment E' sv seen' db2 tok') = Inl e"
  then obtain c' db3 where again: "ExchangeEnrollment E' sv seen' db2 tok' = (db3, Inr c')"
    by (cases "ExchangeEnrollment E' sv seen' db2 tok'", cases "snd (ExchangeEnrollment E' sv seen' db2 tok')") auto
  have "enrollmentConsumed i db1" by (rule exchange_consumes [OF assms(1-3)])
  then have used: "enrollmentConsumed i db2" using consumption.reaches_holds [OF assms(4)] by blast
  then have "cred_wf db2" by (simp add: enrollmentConsumed_def)
  then obtain row where "mget (cd_enrollments db2) i = Some row" "el_ConsumedAt row = None" by (rule exchange_consumes [OF again assms(5)])
  with used show False by (simp add: enrollmentConsumed_def)
qed

theorem enrollment_exchanged_once_witness:
  "\<exists>db1 c e. ExchangeEnrollment (sampleEnv 5 ''k'') sampleService (\<lambda>_. sampleEnrolled) sampleEnrolled ''tm_enroll_e.s'' = (db1, Inr c) \<and>
     snd (ExchangeEnrollment (sampleEnv 5 ''l'') sampleService (\<lambda>_. sampleEnrolled) db1 ''tm_enroll_e.s'') = Inl e"
proof -
  have parse: "parseEnrollmentToken ''tm_enroll_e.s'' = Some (''tm_enroll_e.s'', ''e'')" and k: "token ''k''" by code_simp+
  obtain db1 c where first: "ExchangeEnrollment (sampleEnv 5 ''k'') sampleService (\<lambda>_. sampleEnrolled) sampleEnrolled ''tm_enroll_e.s'' = (db1, Inr c)"
    by (rule exchange_issues [where seen = "\<lambda>_. sampleEnrolled" and db = sampleEnrolled and j = "''k''" and t = "''s''" and row = sampleEnrollment
          and E = "sampleEnv 5 ''k''" and sv = sampleService, OF _ _ _ parse _ _ _ k _ sample_exchangeable])
      (simp_all add: sampleEnv_def sampleEnrolled_def sampleEnrollment_def sampleDb_def sql_blank_def pg_time_def)
  have "cred_wf sampleEnrolled" by (simp add: cred_wf_def sampleEnrolled_def sampleDb_def)
  from enrollment_exchanged_once [OF first parse this rtranclp.rtrancl_refl parse] first show ?thesis by blast
qed

text \<open>C12. A revocation is final: once it has been acknowledged, no history makes any secret authenticate as that key.\<close>

theorem revoked_never_authenticates:
  assumes "RevokeCredential E seen db admin i = (db1, Inr ())" and "cred_wf db" and "onprem_reaches sv db1 db2"
    and "Authenticate E' sv db2 presented = (db3, Inr p)"
  shows "pr_CredentialID p \<noteq> i"
proof -
  have "\<not> blank i" and tx: "revokeCredentialTx (se_store E) seen i (se_clock E 0) db = Inr (db1, ())"
    using assms(1) by (auto simp: RevokeCredential_def storeRevokeCredential_def split: if_splits sum.splits prod.splits dest!: transaction_ok)
  have "onprem_step sv db db1" using onprem_step.revokes [of sv db E seen admin i] assms(1) by simp
  then have "cred_wf db1" using change_keeps [OF step_change] assms(2) by blast
  then have "keyRevoked i db1" using revoke_keyRevoked [OF tx] by (simp add: keyRevoked_def)
  then have "keyRevoked i db2" using revocation.reaches_holds [OF assms(3)] by blast
  then show ?thesis using \<open>\<not> blank i\<close> by (intro authenticate_other [OF assms(4)]) auto
qed

theorem revoked_never_authenticates_witness:
  "\<exists>db1 db3 p. RevokeCredential (sampleEnv 1 []) (sampleDb [(''k'', sampleKey ''x'' ''agent'' ''a'' None), (''l'', sampleKey ''tm_key_l.s'' ''agent'' ''a'' None)] [])
       (sampleDb [(''k'', sampleKey ''x'' ''agent'' ''a'' None), (''l'', sampleKey ''tm_key_l.s'' ''agent'' ''a'' None)] []) adminPrincipal ''k'' = (db1, Inr ()) \<and>
     Authenticate (sampleEnv 5 []) sampleService db1 ''tm_key_l.s'' = (db3, Inr p) \<and> pr_CredentialID p \<noteq> ''k''"
proof -
  let ?C = "[(''k'', sampleKey ''x'' ''agent'' ''a'' None), (''l'', sampleKey ''tm_key_l.s'' ''agent'' ''a'' None)]"
  let ?C' = "[(''k'', revoked 1 (sampleKey ''x'' ''agent'' ''a'' None)), (''l'', sampleKey ''tm_key_l.s'' ''agent'' ''a'' None)]"
  let ?db1 = "sampleDb ?C' [sampleLog [] [] ''identity.credential.revoked'' ''credential'' ''k'' 0]"
  have k: "\<not> blank ''k''" "token ''l''" by code_simp+
  have revoke: "RevokeCredential (sampleEnv 1 []) (sampleDb ?C []) (sampleDb ?C []) adminPrincipal ''k'' = (?db1, Inr ())"
    using k by (simp add: RevokeCredential_def HasPermission_def adminPrincipal_def storeRevokeCredential_def transaction_def step_def revokeCredentialTx_def
        sampleEnv_def sampleDb_def sampleKey_def tx_bind_def statement_def tx_return_def insertAuditEvent_def insertAuditRow_def sampleLog_def pg_time_def
        sql_blank_def nullableText_def CredentialKindDevice_def revoked_def)
  obtain db3 where auth: "Authenticate (sampleEnv 5 []) sampleService ?db1 ''tm_key_l.s'' =
      (db3, Inr (principalOf (credentialOf (''l'', sampleKey ''tm_key_l.s'' ''agent'' ''a'' None))))"
    using sample_authenticates [of ?C' "''l''" "''agent''" None] k by auto
  have "cred_wf (sampleDb ?C [])" by (simp add: cred_wf_def sampleDb_def)
  from revoked_never_authenticates [OF revoke this rtranclp.rtrancl_refl auth] revoke auth show ?thesis by blast
qed

text \<open>C13. Revoking a device revokes everything it provisioned, for good: if the revocation saw the keys of the device as
  they were, then in every later history neither the device nor any key it provisioned authenticates, and no key it
  provisioned is alive.\<close>

theorem device_revocation_cascades:
  assumes "RevokeCredential E db db admin d = (db1, Inr ())" and "cred_wf db"
    and "mget (cd_credentials db) d = Some dev" and "cw_Kind dev = CredentialKindDevice"
    and "onprem_reaches sv db1 db2"
  shows "activeAgents db2 d = {} \<and>
     (\<forall>E' presented db3 p row. Authenticate E' sv db2 presented = (db3, Inr p) \<longrightarrow> p = adminPrincipal \<or>
        pr_CredentialID p \<noteq> d \<and> (mget (cd_credentials db2) (pr_CredentialID p) = Some row \<longrightarrow> cw_ProvisionedBy row \<noteq> Some d))"
proof -
  have "d \<noteq> []" and tx: "revokeCredentialTx (se_store E) db d (se_clock E 0) db = Inr (db1, ())"
    using assms(1) by (auto simp: RevokeCredential_def storeRevokeCredential_def split: if_splits sum.splits prod.splits dest!: transaction_ok)
  have "onprem_step sv db db1" using onprem_step.revokes [of sv db E db admin d] assms(1) by simp
  then have "cred_wf db1" using change_keeps [OF step_change] assms(2) by blast
  then have "deviceSealed d db1"
    using revoke_keyRevoked [OF tx] revoke_seals [OF tx assms(3,4)] assms(2) by (simp add: deviceSealed_def keyRevoked_def cred_wf_def)
  then have sealed: "deviceSealed d db2" using sealing.reaches_holds [OF assms(5)] by blast
  then have rev: "keyRevoked d db2" and none: "activeOf (cd_credentials db2) d = {}" by (simp_all add: deviceSealed_def)
  then have wf: "cred_wf db2" by (simp add: keyRevoked_def)
  show ?thesis unfolding activeAgents_eq
    using none authenticate_other [OF _ rev \<open>d \<noteq> []\<close>] authenticate_alive [OF _ wf _ none] by blast
qed

theorem device_revocation_cascades_witness:
  "\<exists>db1. RevokeCredential (sampleEnv 1 []) (sampleDb [(''d'', sampleDevice), (''k'', sampleKey ''x'' ''agent'' ''a'' (Some ''d''))] [])
       (sampleDb [(''d'', sampleDevice), (''k'', sampleKey ''x'' ''agent'' ''a'' (Some ''d''))] []) adminPrincipal ''d'' = (db1, Inr ()) \<and>
     activeAgents (sampleDb [(''d'', sampleDevice), (''k'', sampleKey ''x'' ''agent'' ''a'' (Some ''d''))] []) ''d'' = {''a''} \<and>
     activeAgents db1 ''d'' = {}"
proof -
  let ?C = "[(''d'', sampleDevice), (''k'', sampleKey ''x'' ''agent'' ''a'' (Some ''d''))]"
  have d: "\<not> blank ''d''" by code_simp
  have "snd (RevokeCredential (sampleEnv 1 []) (sampleDb ?C []) (sampleDb ?C []) adminPrincipal ''d'') = Inr ()"
    using d by (simp add: RevokeCredential_def HasPermission_def adminPrincipal_def storeRevokeCredential_def transaction_def step_def revokeCredentialTx_def
        sampleEnv_def sampleDb_def sampleKey_def sampleDevice_def tx_bind_def statement_def tx_return_def insertAuditEvent_def insertAuditRow_def
        sql_blank_def CredentialKindDevice_def revoked_def cascadeRevokeProvisionedCredentials_def updateCredentials_def provisionedBy_def)
  then obtain db1 where revoke: "RevokeCredential (sampleEnv 1 []) (sampleDb ?C []) (sampleDb ?C []) adminPrincipal ''d'' = (db1, Inr ())"
    by (metis prod.collapse)
  have "cred_wf (sampleDb ?C [])" "mget (cd_credentials (sampleDb ?C [])) ''d'' = Some sampleDevice"
    "cw_Kind sampleDevice = CredentialKindDevice" "activeAgents (sampleDb ?C []) ''d'' = {''a''}"
    by (simp_all add: cred_wf_def sampleDb_def sampleKey_def sampleDevice_def CredentialKindDevice_def activeAgents_def)
  with device_revocation_cascades [OF revoke _ _ _ rtranclp.rtrancl_refl] revoke show ?thesis by blast
qed

text \<open>C39. Devices stay within what they were granted: in every history from a database without provisioned keys, a key that
  a device provisioned is an agent's key, belongs to the owner of the device, and has only permissions that the device may grant;
  and the living keys of a device are for at most as many agents as the configuration allows.\<close>

theorem device_keys_contained:
  assumes "NewCredentialService config = Inr sv" and "cred_wf db"
    and "\<forall>i row. mget (cd_credentials db) i = Some row \<longrightarrow> cw_ProvisionedBy row = None" and "onprem_reaches sv db db'"
  shows "int (card (activeAgents db' d)) \<le> cc_DeviceAgentLimit (sv_config sv) \<and>
     (\<forall>i row. mget (cd_credentials db') i = Some row \<and> cw_ProvisionedBy row = Some d \<longrightarrow>
        (\<exists>dev. mget (cd_credentials db') d = Some dev \<and> cw_Kind dev = ''device'' \<and> cw_Kind row = ''agent'' \<and>
           cw_OwnerMembershipID row = cw_OwnerMembershipID dev \<and> cw_UserID row = cw_UserID dev \<and>
           set (cw_Permissions row) \<subseteq> set (cw_GrantablePermissions dev)))"
proof -
  have none: "activeOf (cd_credentials db) d = {}" for d
    using assms(2,3) by (subst activeOf_mget) (auto simp: cred_wf_def)
  have "0 \<le> cc_DeviceAgentLimit (sv_config sv)"
    using assms(1) by (auto simp: NewCredentialService_def Let_def split: if_splits sum.splits)
  then have "keysContained sv db" using assms(2,3) none by (simp add: keysContained_def keys_ok_def granted_def cred_wf_def)
  then have "keysContained sv db'" using containment.reaches_holds [OF assms(4)] by blast
  then show ?thesis unfolding activeAgents_eq keysContained_def keys_ok_def granted_def by blast
qed

theorem device_keys_contained_witness:
  "\<exists>db'. onprem_reaches sampleService (sampleDb [(''d'', sampleDevice)] []) db' \<and> mget (cd_credentials db') ''k'' \<noteq> None \<and>
     int (card (activeAgents db' ''d'')) \<le> 1"
proof -
  let ?db = "sampleDb [(''d'', sampleDevice)] []" and ?p = "principalOf (credentialOf (''d'', sampleDevice))"
  let ?request = "\<lparr>dq_AgentID = ''b'', dq_DisplayName = ''b'', dq_AgentType = ''t'', dq_Permissions = []\<rparr>"
  let ?db' = "fst (ProvisionDeviceAgent (sampleEnv 1 ''k'') sampleService ?db ?db ?p ?request)"
  have trims: "trim_space ''b'' = ''b''" "trim_space ''t'' = ''t''" "validateAgentIdentity ''b'' ''b'' = Inr ()" by code_simp+
  have "issued ?db ?p" by (simp add: issued_def principalOf_def credentialOf_def sampleDb_def)
  then have reaches: "onprem_reaches sampleService ?db ?db'" by (intro r_into_rtranclp onprem_step.provisions)
  have issued: "mget (cd_credentials ?db') ''k'' \<noteq> None"
    using trims digest_nonempty by (simp del: set_filter add: ProvisionDeviceAgent_def sampleDevice_def requireDeviceProvisioner_def principalOf_def credentialOf_def sampleKey_def LocalScopeID_def CredentialKindDevice_def
        HasPermission_def deviceGrantedPermissions_def newCredential_def newTokens_def Let_def sampleEnv_def ProvisionAgentCredential_def transaction_def step_def
        provisionTx_def tx_bind_def statement_def tx_return_def lockProvisioningDevice_def lockProvisioningDeviceOwner_def require_def query_def sampleDb_def activeOwner_def
        createProvisionedAgent_def claimIdentity_def insertAgentRow_def references_def insertAuditEvent_def insertAuditRow_def sql_blank_def activeAgents_def
        sampleService_def sampleConfig_def insertCredentialRow_def credentialRow_def deviceCredential_def deviceProfile_def zeroCredential_def nullableText_def
        credentialKindOrDefault_def CredentialKindAgent_def go_map)
  have new: "NewCredentialService sampleConfig = Inr sampleService" by code_simp
  have "cred_wf ?db" "\<forall>i row. mget (cd_credentials ?db) i = Some row \<longrightarrow> cw_ProvisionedBy row = None"
    by (auto simp: cred_wf_def sampleDb_def sampleKey_def sampleDevice_def split: if_splits)
  from device_keys_contained [OF new this reaches, of "''d''"] reaches issued show ?thesis by (auto simp: sampleService_def sampleConfig_def)
qed

text \<open>C40. Issuing a key works.  An enrollment that an administrator creates is read back from its token and exchanged, if the
  exchange comes before it expires, its owner is an active member and its agent is active and theirs, the identifier
  and the secret of the new key are fresh and the database does not fail; and the key it is exchanged for then
  authenticates as the enrolled user and agent, with the permissions of the enrollment, none of which is administrative.\<close>

theorem create_exchange_authenticate:
  assumes "CreateEnrollment E sv db admin request = (db1, Inr en)" and "cred_wf db1"
    and "se_token E 0 = Inr i" "token i" and "se_token E 1 = Inr s" "token s"
    and "mget (cd_enrollments db1) (en_EnrollmentID en) = Some row" and "exchangeable db1 row" and "pg_time (se_clock E1 1) < el_ExpiresAt row"
    and "seen 0 = db1" and "ce_fault (se_store E1) = (\<lambda>_. None)"
    and "se_token E1 0 = Inr j" "token j" and "se_token E1 1 = Inr t" "token t"
    and "mget (cd_credentials db1) j = None"
    and "\<not> list_ex (\<lambda>(_, r). cw_KeyDigest r = Digest (sv_digester sv) credentialDigestDomain (''tm_key_'' @ j @ ''.'' @ t)) (cd_credentials db1)"
    and "ce_fault (se_store E2) = (\<lambda>_. None)" and "cc_AdminAPIKey (sv_config sv) \<noteq> ''tm_key_'' @ j @ ''.'' @ t"
  shows "\<exists>db2 c db3 p. ExchangeEnrollment E1 sv seen db1 (en_Token en) = (db2, Inr c) \<and> Authenticate E2 sv db2 (is_APIKey c) = (db3, Inr p) \<and>
     pr_CredentialID p = is_CredentialID c \<and> pr_UserID p = trim_space (rq_EnrollUserID request) \<and> pr_AgentID p = trim_space (rq_EnrollAgentID request) \<and>
     pr_Permissions p = el_Permissions row \<and> is_Permissions c = el_Permissions row \<and> \<not> HasPermission p PermissionAdmin"
proof -
  obtain v m permissions ttl where valid: "validateEnrollmentRequest request = Inr (permissions, ttl)" and i: "en_EnrollmentID en = i"
    and token: "enrollmentToken (se_urlParse E) i s (cc_PortalURL (sv_config sv)) = (en_Token en, v)"
    and row: "row = enrollmentRow (enrollmentFor E sv request i v permissions ttl) m"
    and texts: "\<not> sql_blank (trim_space (rq_EnrollUserID request))" "\<not> sql_blank (trim_space (rq_EnrollAgentID request))"
    using create_row [OF assms(1,3,5)] assms(7) by (metis option.inject)
  note parse = enrollment_token_roundtrip(1) [OF assms(4,6) token]
  let ?key = "''tm_key_'' @ j @ ''.'' @ t"
  let ?c = "issuedCredential E1 sv j t"
  have fields: "el_TokenDigest row = Digest (sv_digester sv) enrollmentDigestDomain v" "el_Kind row = ''agent''"
    "el_UserID row = trim_space (rq_EnrollUserID request)" "el_AgentID row = trim_space (rq_EnrollAgentID request)"
    "el_Permissions row = permissions" "el_ConsumedAt row = None" "el_RevokedAt row = None" "el_CredentialExpiresAt row = None"
    by (simp_all add: row enrollmentRow_def enrollmentFor_def)
  have wf: "mwf (cd_enrollments db1)" and get: "mget (cd_enrollments db1) i = Some row" using assms(2,7) i by (simp_all add: cred_wf_def)
  obtain db2 c where issue: "ExchangeEnrollment E1 sv seen db1 (en_Token en) = (db2, Inr c)" "is_APIKey c = ?key" "is_CredentialID c = j"
      "is_Permissions c = el_Permissions row"
    and C: "cd_credentials db2 = mput j (issuedRow ?c row) (cd_credentials db1)"
    and rest: "cd_memberships db2 = cd_memberships db1" "cd_users db2 = cd_users db1" "cd_agents db2 = cd_agents db1"
    by (rule exchange_issues [where E = E1 and seen = seen, OF assms(11,10) wf parse token_facts(3) [OF assms(4)] assms(12,14,13) get assms(8,9) fields(1,2,6,7) _ _ assms(16,17)])
      (use texts fields in simp_all)
  have "living db2 (se_clock E2 0) (issuedRow ?c row)"
    using assms(8) fields rest by (auto simp: living_def issuedRow_def credentialRow_def exchangeable_def activeOwner_def activeAgent_def)
  then obtain db3 where auth: "Authenticate E2 sv db2 ?key = (db3, Inr (principalOf (credentialOf (j, issuedRow ?c row))))"
    using authenticate_runs [OF assms(18) _ _ assms(13,15) refl assms(19), of db2 "issuedRow ?c row"] C assms(2)
    by (auto simp: go_map cred_wf_def issuedRow_def credentialRow_def issuedCredential_def)
  have "\<not> HasPermission (principalOf (credentialOf (j, issuedRow ?c row))) PermissionAdmin"
    using validateEnrollmentRequest_plain [OF valid] fields
    by (simp add: HasPermission_def principalOf_def credentialOf_def issuedRow_def credentialRow_def list_ex_iff)
  then show ?thesis
    using issue auth fields by (fastforce simp: issuedCredential_def principalOf_def credentialOf_def issuedRow_def credentialRow_def)
qed

theorem create_exchange_authenticate_witness:
  "\<exists>db2 c db3 p. ExchangeEnrollment (sampleEnv 5 ''k'') sampleService (\<lambda>_. sampleEnrolled) sampleEnrolled ''tm_enroll_e.s'' = (db2, Inr c) \<and>
     Authenticate (sampleEnv 9 []) sampleService db2 (is_APIKey c) = (db3, Inr p) \<and> pr_AgentID p = ''a'' \<and> pr_Permissions p = [PermissionGet]"
proof -
  have tokens: "token ''e''" "token ''s''" "token ''k''" by code_simp+
  have trims: "trim_space (rq_EnrollAgentID sampleRequest) = ''a''" by code_simp
  have "cred_wf sampleEnrolled" by (simp add: cred_wf_def sampleEnrolled_def sampleDb_def)
  from create_exchange_authenticate [OF sample_created this _ tokens(1) _ tokens(2) _ sample_exchangeable, of "sampleEnv 5 ''k''" "\<lambda>_. sampleEnrolled" "''k''" "''s''" "sampleEnv 9 []"]
  show ?thesis
    using tokens trims by (simp add: sampleEnv_def sampleEnrolled_def sampleEnrollment_def sampleDb_def sampleService_def sampleConfig_def pg_time_def) blast
qed

section \<open>Limits\<close>

text \<open>A rotated key does not expire, whatever the expiry of the key that it replaces.\<close>

lemma rotation_drops_expiry:
  assumes "RotateCredential E sv db p = (db', Inr c)"
  shows "\<exists>row. mget (cd_credentials db') (is_CredentialID c) = Some row \<and> cw_ExpiresAt row = None \<and> cw_RevokedAt row = None"
proof -
  obtain apiKey rec where new: "newCredential E sv (replacementFor p) = Inr (is_CredentialID c, apiKey, rec)"
    and tx: "rotateCredentialTx (se_store E) (pr_CredentialID p) rec (se_clock E 1 + cc_RotationOverlap (sv_config sv)) db = Inr (db', ())"
    using assms unfolding RotateCredential_def storeRotateCredential_def by (auto split: if_splits sum.splits prod.splits dest!: transaction_ok)
  have "kr_ID rec = is_CredentialID c" "kr_ExpiresAt rec = None" using newCredential_ok(2) [OF new] by (simp_all add: replacementFor_def zeroCredential_def)
  moreover obtain row where "cd_credentials db' = mput (kr_ID rec) (credentialRow rec (coalesce (cw_ProvisionedBy row)))
      (mput (pr_CredentialID p) (expireAt (se_clock E 1 + cc_RotationOverlap (sv_config sv)) row) (cd_credentials db))"
    by (rule rotate_effect [OF tx])
  ultimately show ?thesis by (simp add: go_map credentialRow_def)
qed

text \<open>The cascade of a revocation misses a replacement that a concurrent rotation inserted after the cascade's snapshot.\<close>

lemma cascade_misses_replacement:
  "\<exists>db1 db2 p. RevokeCredential (sampleEnv 1 []) (sampleDb [(''d'', sampleDevice)] [])
       (sampleDb [(''d'', sampleDevice), (''k'', sampleKey ''tm_key_k.s'' ''agent'' ''a'' (Some ''d''))] []) adminPrincipal ''d'' = (db1, Inr ()) \<and>
     Authenticate (sampleEnv 5 []) sampleService db1 ''tm_key_k.s'' = (db2, Inr p)"
proof -
  let ?C = "[(''d'', sampleDevice), (''k'', sampleKey ''tm_key_k.s'' ''agent'' ''a'' (Some ''d''))]"
  let ?C' = "[(''d'', revoked 1 sampleDevice), (''k'', sampleKey ''tm_key_k.s'' ''agent'' ''a'' (Some ''d''))]"
  have d: "\<not> blank ''d''" "token ''k''" by code_simp+
  have "RevokeCredential (sampleEnv 1 []) (sampleDb [(''d'', sampleDevice)] []) (sampleDb ?C []) adminPrincipal ''d'' =
      (sampleDb ?C' [sampleLog [] [] ''identity.credential.revoked'' ''credential'' ''d'' 0], Inr ())"
    using d(1) by (simp add: RevokeCredential_def HasPermission_def adminPrincipal_def storeRevokeCredential_def transaction_def step_def revokeCredentialTx_def
        sampleEnv_def sampleDb_def sampleKey_def sampleDevice_def tx_bind_def statement_def tx_return_def insertAuditEvent_def insertAuditRow_def sampleLog_def
        pg_time_def nullableText_def sql_blank_def CredentialKindDevice_def revoked_def cascadeRevokeProvisionedCredentials_def updateCredentials_def provisionedBy_def)
  moreover have "\<exists>db2. Authenticate (sampleEnv 5 []) sampleService (sampleDb ?C' [sampleLog [] [] ''identity.credential.revoked'' ''credential'' ''d'' 0]) ''tm_key_k.s'' =
      (db2, Inr (principalOf (credentialOf (''k'', sampleKey ''tm_key_k.s'' ''agent'' ''a'' (Some ''d'')))))"
    using sample_authenticates [of ?C' "''k''" "''agent''" "Some ''d''"] d(2) by simp
  ultimately show ?thesis by blast
qed

end
