(* ===== verification/Spec2Isabelle.thy ===== *)
theory Spec2Isabelle
  imports Runtime_Theorems Todo_Theorems Wiki_Theorems Note_Store_Delivery Extraction_Queue Credential_Properties
begin

text \<open>
  Pax Nexus is a shared memory service for teams of agents.  Sessions and connectors append events to an evidence
  lake; a queue of extraction jobs hands slices of that evidence to an extractor, whose candidates are admitted to a
  ledger of team notes; notes are recalled within a token budget, beside a wiki of maintained pages; a todo
  application turns notes into suggestions and reports what users do back to the lake; agents and devices are admitted by
  the credentials of the deployment.  This development models these
  parts as HOL functions and step relations and proves what makes them correct.

  \<^bold>\<open>Go\<close>
  \<^item> \<open>Go_Prelude\<close>: strings as bytes, errors as values of a datatype with wrapping and \<open>errors.Is\<close>, maps, the string
    functions of the standard library.  \<open>Go_Crypto\<close>: SHA-256.  \<open>Go_Float\<close>: \<open>float64\<close> as IEEE binary64 with exact
    rounding.  \<open>Go_Sort\<close>: \<open>sort.SliceStable\<close>.  \<open>Go_Time\<close>: the calendar and RFC 3339.

  \<^bold>\<open>Evidence\<close> (\<open>internal/session\<close>, \<open>internal/evidencelake\<close>, \<open>internal/platform/postgres/sessions.go\<close>, \<open>streams.go\<close>)
  \<^item> \<open>Session_Evidence\<close>: identities, events, the contract of connector batches, scopes.
  \<^item> \<open>Evidence_Lake\<close>: slicing over a repository, which is a record of functions; its laws are the locale the
    lake's lemmas are proved in.
  \<^item> \<open>Session_Repository\<close>: the tables, each statement and transaction of the PostgreSQL adapter, in which every
    statement may fail; it interprets the locale of the lake.
  \<^item> \<open>Session_Ingest\<close>: atomic and idempotent appends, gapless sequences, consistency of every reachable database,
    slices without gaps.

  \<^bold>\<open>Team notes\<close> (\<open>internal/teamnote\<close>)
  \<^item> \<open>Note_Types\<close>, \<open>Note_Envelope\<close>: the data.  \<open>Revision_Admission\<close>: which revisions may drop a protected qualifier.
  \<^item> \<open>Note_Ledger\<close>, \<open>Ledger_Theorems\<close>: admission of candidates, extraction runs, replay, quarantine, expiry and
    eligibility; runs are atomic and replayable, a quarantine is permanent, notes are grounded in evidence.
  \<^item> \<open>Extraction_Budget\<close>: the execution envelope in 64-bit arithmetic.  \<open>Extraction_Queue\<close>: sharding, enqueueing and
    the worker.
  \<^item> \<open>Extraction_Runtime\<close>, \<open>Runtime_Theorems\<close>: the loop that extracts slices; every event is committed exactly once
    and in order, never before the store has taken or quarantined its run, and a call that reports no backlog has
    drained the session.

  \<^bold>\<open>Recall\<close> (\<open>internal/teamnote\<close>, \<open>internal/recall\<close>)
  \<^item> \<open>Note_Query\<close>, \<open>Recall_Intent\<close>: query terms, the compiled intent, the hard gates and the scorecard.
  \<^item> \<open>Recall_Planner\<close>: ranking, families, duplicates, relations, order by coverage, packing, hints, traces, decision.
    \<open>Recall_Theorems\<close> follows a plan through these stages: bookkeeping keeps a view of the trace, ranked candidates
    pass the gates, packing keeps an invariant of bundles.  \<open>Recall_Properties\<close> draws the promises: budgets, grounding,
    sufficient evidence, relevances in the unit interval.
  \<^item> \<open>Note_Recall\<close>: recall from the ledger, through the scoped store and the runtime; what is delivered is confined to
    the caller and delivered once; the locale \<open>recall_source\<close> is what the router needs of a store.
  \<^item> \<open>Recall_Router\<close>: the search boundary; a passive search is an interleaving of its goroutines, channels and
    deadlines that never gets stuck and keeps its budget.

  \<^bold>\<open>Note database\<close> (\<open>internal/platform/postgres/notes.go\<close>)
  \<^item> \<open>Sql_Transactions\<close>: a transaction is a state monad with errors; a failure, at the commit too, leaves nothing
    behind.  \<open>Note_Tables\<close>: the tables, their constraints and the statements.  \<open>Note_Store\<close>: applying runs, quarantine, embeddings and their backfill.  \<open>Note_Store_Recall\<close>: the three queries for
    candidates, claims of deliveries, observations.  Every statement may fail, and the query of a recall may have seen an
    older database than its claims.
  \<^item> \<open>Note_Store_Invariant\<close>, \<open>Note_Store_Theorems\<close>, \<open>Note_Store_Delivery\<close>: every reachable database is well-formed, runs
    land whole, as a quarantine or not at all, and are replayed; a recall is confined to its scope and recipient and
    delivers a revision once to a session; the store provides the notes of the router through \<open>recall_source\<close>.

  \<^bold>\<open>Applications\<close>
  \<^item> \<open>Todo_Repository\<close>, \<open>Todo_App\<close>, \<open>Todo_Theorems\<close> (\<open>internal/todoapp\<close>): both repositories, the service, the reporter and
    the sweep; one completion report per todo under every interleaving, convergence of retried accepts, evidence in
    the lake.
  \<^item> \<open>Wiki_Types\<close>, \<open>Wiki_Repository\<close>, \<open>Wiki_Invariant\<close>, \<open>Wiki_Theorems\<close> (\<open>internal/pagewiki\<close>): contracts and the
    in-memory repository; consistency of every reachable state, atomic batches, append-only histories, exact search,
    total navigation.

  \<^bold>\<open>Credentials\<close> (\<open>internal/deployment/onprem/service.go\<close>, \<open>provisioning.go\<close>, \<open>internal/platform/postgres/credentials.go\<close>)
  \<^item> \<open>Onprem_Secrets\<close>: HMAC-SHA-256, base64, the formats of tokens and keys, which are read back exactly.
    \<open>Credential_Store\<close>: the identity tables, the statements and transactions of the store.  \<open>Credential_Service\<close>:
    authentication, enrollment, exchange, rotation, revocation and provisioning by devices.
  \<^item> \<open>Credential_Invariant\<close>: what each transaction writes, and that keys keep their identity.  \<open>Credential_Theorems\<close>:
    the step relation of the service beside a directory that may revoke and enroll at any time; the locale \<open>lasting\<close>
    carries what a step keeps along every history, and is interpreted for revoked keys, consumed enrollments, sealed
    devices and contained keys.  \<open>Credential_Issue\<close>: issuing succeeds when the database does.  \<open>Credential_Properties\<close>: who
    authenticates, single use of enrollments, finality and reach of revocations, the limits of devices, and that an
    enrollment leads to a key that works.

  \<^bold>\<open>Bounds and parameters.\<close>  Loops are structural recursion or have a measure; only navigation runs on
  fuel, one more than there are topics, which is enough in every reachable state because topics form a forest, and the
  extraction loop counts down the number of slices the code allows.  The language model, the clock, the source of
  tokens, the job table, JSON encoding, the order of iteration of Go maps, and failures of the database are parameters;
  theorems hold for all of them, with the stated hypotheses.  \<open>batch_ok\<close> asks of a publication batch what the wiki service ensures.  \<open>float64\<close> operations are rounded one by one, as on amd64.
  Classes of characters are those of ASCII; other bytes are kept as they are.

  \<^bold>\<open>Not modelled\<close>, because they only call external services or move data: language-model prompts and parsers, HTTP
  transport and generated request models, command-line clients, metrics, evaluation harnesses, wiring.  Left out
  although they decide something: the admission filter of the extractors, the wiki service with tree maintenance and
  curation, its PostgreSQL repository and session consumer, human identities, invitations and channels of the on-premises
  deployment, the registry of the hosted one.
\<close>

end
